(* ===== verification/HS_Prelude.thy ===== *)
theory HS_Prelude
  imports Main "HOL-Library.Word"
begin

text \<open>
  Shared vocabulary of the HitSimple compiler development: the machine integer types the
  C++ sources use, the string operations of \<open>std::string_view\<close> they call, the collections
  of facts the component proofs share, and two generic interfaces: an enumeration with
  printable names, and a character-wise escaping with its decoder.
\<close>

section \<open>Machine integers and strings\<close>

type_synonym size_t = "64 word"
type_synonym uint64 = "64 word"
type_synonym uint32 = "32 word"
type_synonym uint16 = "16 word"

named_theorems view_simps \<open>unfoldings of the view predicates\<close>
named_theorems mk_simps \<open>unfoldings of the node constructors\<close>
named_theorems hs_defs \<open>definitions of the string operations\<close>

text \<open>
  \<open>std::string_view\<close> positions are modelled by \<open>nat\<close>: a string is never longer than
  the address space, so no position computation of the sources wraps.  \<open>npos\<close> is \<open>None\<close>.
\<close>

definition starts_with :: "string \<Rightarrow> char \<Rightarrow> bool" where
  "starts_with s c = (case s of [] \<Rightarrow> False | x # _ \<Rightarrow> x = c)"

definition ends_with :: "string \<Rightarrow> string \<Rightarrow> bool" where
  "ends_with s suf = (length suf \<le> length s \<and> drop (length s - length suf) s = suf)"

definition substr :: "string \<Rightarrow> nat \<Rightarrow> nat \<Rightarrow> string" where
  "substr s pos n = take n (drop pos s)"

text \<open>
  \<open>find_last_of(chars, pos)\<close> is the last index not beyond \<open>pos\<close> whose character is one
  of \<open>chars\<close>; \<open>last_index\<close> is the search over a prefix of the given length.
\<close>

fun last_index :: "(char \<Rightarrow> bool) \<Rightarrow> string \<Rightarrow> nat \<Rightarrow> nat option" where
  "last_index p s 0 = None"
| "last_index p s (Suc n) =
     (if n < length s \<and> p (s ! n) then Some n else last_index p s n)"

definition find_last_of :: "string \<Rightarrow> string \<Rightarrow> nat \<Rightarrow> nat option" where
  "find_last_of s chars pos = last_index (\<lambda>c. c \<in> set chars) s (Suc pos)"

definition find_last_of_all :: "string \<Rightarrow> string \<Rightarrow> nat option" where
  "find_last_of_all s chars = last_index (\<lambda>c. c \<in> set chars) s (length s)"

definition rfind :: "string \<Rightarrow> char \<Rightarrow> nat \<Rightarrow> nat option" where
  "rfind s c pos = last_index (\<lambda>x. x = c) s (Suc pos)"

lemmas string_ops [hs_defs] =
  starts_with_def ends_with_def substr_def find_last_of_def find_last_of_all_def rfind_def

lemma last_index_Some:
  "last_index p s n = Some i \<Longrightarrow> i < n \<and> i < length s \<and> p (s ! i) \<and> (\<forall>j. i < j \<and> j < n \<and> j < length s \<longrightarrow> \<not> p (s ! j))"
proof (induction n)
  case (Suc n)
  show ?case
  proof (cases "n < length s \<and> p (s ! n)")
    case True
    with Suc.prems show ?thesis by auto
  next
    case False
    with Suc.prems have "last_index p s n = Some i" by auto
    from Suc.IH [OF this] False show ?thesis by (auto simp: less_Suc_eq)
  qed
qed simp

lemma last_index_None: "last_index p s n = None \<longleftrightarrow> (\<forall>j. j < n \<and> j < length s \<longrightarrow> \<not> p (s ! j))"
  by (induction n) (auto simp: less_Suc_eq)

lemma last_index_eq_Some:
  assumes "i < n" and "i < length s" and "p (s ! i)"
    and "\<And>j. i < j \<Longrightarrow> j < n \<Longrightarrow> j < length s \<Longrightarrow> \<not> p (s ! j)"
  shows "last_index p s n = Some i"
proof (cases "last_index p s n")
  case None
  with assms show ?thesis by (auto simp: last_index_None)
next
  case (Some k)
  from last_index_Some [OF this] assms have "\<not> i < k" "\<not> k < i" by blast+
  with Some show ?thesis by simp
qed

lemma unat_ucast_32_64 [simp]: "unat (ucast (w :: uint32) :: uint64) = unat w"
  unfolding unat_eq_nat_uint by (simp add: uint_up_ucast is_up)

unbundle bit_operations_syntax

text \<open>Joining a multiple of a power of two with a smaller number is addition.\<close>

lemma word_product_fits:
  fixes a b :: size_t
  assumes "b \<noteq> 0"
  shows "a > (- 1) div b \<longleftrightarrow> \<not> unat a * unat b < 2 ^ 64"
proof -
  have "0 < unat b" using assms by (simp add: unat_gt_0)
  then have "unat a \<le> (2 ^ 64 - 1) div unat b \<longleftrightarrow> unat a * unat b \<le> 2 ^ 64 - 1"
    by (rule less_eq_div_iff_mult_less_eq)
  moreover have "unat ((- 1 :: size_t) div b) = (2 ^ 64 - 1) div unat b"
    by (simp add: unat_div_distrib unsigned_minus_1_eq_mask mask_eq_exp_minus_1)
  ultimately show ?thesis by (auto simp: word_less_nat_alt not_le [symmetric])
qed

lemma nat_or_add:
  fixes x a :: nat
  assumes "x < 2 ^ m"
  shows "push_bit m a OR x = 2 ^ m * a + x"
proof -
  have "\<not> bit (push_bit m a) n \<or> \<not> bit x n" for n
  proof (cases "n < m")
    case False
    then have "(2::nat) ^ m \<le> 2 ^ n" by (intro power_increasing) simp_all
    with assms have "x < 2 ^ n" by linarith
    then show ?thesis by (simp add: bit_iff_odd)
  qed (simp add: bit_push_bit_iff)
  then have "push_bit m a + x = push_bit m a OR x" by (rule disjunctive_add)
  then show ?thesis by (simp add: push_bit_eq_mult mult.commute)
qed

section \<open>Enumerations with printable names\<close>

text \<open>
  The compiler prints its enumerations through \<open>switch\<close> functions.  A client that reads
  the printed form back (a test, a tool, an editor) relies on the names being different.
\<close>

locale named_enum =
  fixes name :: "'a \<Rightarrow> string" and all :: "'a list"
  assumes complete: "x \<in> set all"
    and distinct_names: "distinct (map name all)"
begin

lemma name_eq_iff: "name x = name y \<longleftrightarrow> x = y"
  using distinct_names complete by (auto simp: distinct_map inj_on_def)

lemma find_name: "List.find (\<lambda>y. name y = name x) all = Some x"
proof (cases "List.find (\<lambda>y. name y = name x) all")
  case None
  then show ?thesis using complete [of x] by (auto simp: find_None_iff)
next
  case (Some z)
  then have "name z = name x" by (auto simp: find_Some_iff)
  with Some show ?thesis by (simp add: name_eq_iff)
qed

end

section \<open>Character-wise escaping\<close>

text \<open>
  A printer that replaces each character by a code, and a reader that takes one code off
  the front of its input until it sees the closing context.  The law is the one-character
  round trip; the whole-string round trip and injectivity follow once.  The reader spends
  one unit of fuel per code; a code is never empty, so the input length is enough.
\<close>

fun unescape_fuel ::
  "(string \<Rightarrow> (char \<times> string) option) \<Rightarrow> (string \<Rightarrow> bool) \<Rightarrow> nat \<Rightarrow> string \<Rightarrow> (string \<times> string) option"
where
  "unescape_fuel unesc stop 0 s = None"
| "unescape_fuel unesc stop (Suc n) s =
     (if stop s then Some ([], s)
      else case unesc s of
        None \<Rightarrow> None
      | Some (c, rest) \<Rightarrow> map_option (\<lambda>(cs, r). (c # cs, r)) (unescape_fuel unesc stop n rest))"

definition unescape ::
  "(string \<Rightarrow> (char \<times> string) option) \<Rightarrow> (string \<Rightarrow> bool) \<Rightarrow> string \<Rightarrow> (string \<times> string) option"
where
  "unescape unesc stop s = unescape_fuel unesc stop (Suc (length s)) s"

locale char_escape =
  fixes esc :: "char \<Rightarrow> string"
    and unesc :: "string \<Rightarrow> (char \<times> string) option"
    and stop :: "string \<Rightarrow> bool"
  assumes unesc_esc: "unesc (esc c @ rest) = Some (c, rest)"
    and esc_not_stop: "\<not> stop (esc c @ rest)"
    and esc_nonempty: "esc c \<noteq> []"
begin

lemma unescape_fuel_escape:
  "stop r \<Longrightarrow> length s < n \<Longrightarrow> unescape_fuel unesc stop n (concat (map esc s) @ r) = Some (s, r)"
proof (induction s arbitrary: n)
  case Nil
  then show ?case by (cases n) simp_all
next
  case (Cons c s)
  then obtain m where n: "n = Suc m" and "length s < m" by (cases n) auto
  with Cons.IH Cons.prems(1)
  have "unescape_fuel unesc stop m (concat (map esc s) @ r) = Some (s, r)" by simp
  with n show ?case by (simp add: esc_not_stop unesc_esc)
qed

lemma length_escape: "length s \<le> length (concat (map esc s))"
proof (induction s)
  case (Cons c s)
  have "1 \<le> length (esc c)" using esc_nonempty [of c] by (cases "esc c") simp_all
  with Cons show ?case by simp
qed simp

lemma unescape_escape: "stop r \<Longrightarrow> unescape unesc stop (concat (map esc s) @ r) = Some (s, r)"
proof -
  assume "stop r"
  moreover have "length s < Suc (length (concat (map esc s) @ r))"
    unfolding length_append using length_escape [of s] by linarith
  ultimately show ?thesis unfolding unescape_def by (rule unescape_fuel_escape)
qed

lemma escape_inject:
  assumes "stop r" and "stop r'" and "concat (map esc s) @ r = concat (map esc t) @ r'"
  shows "s = t \<and> r = r'"
proof -
  have "Some (s, r) = Some (t, r')"
    unfolding unescape_escape [OF assms(1), symmetric] unescape_escape [OF assms(2), symmetric]
      assms(3) ..
  then show ?thesis by simp
qed

end

end
