(* ===== verification/Literal.thy ===== *)
theory Literal
  imports HS_Prelude
begin

text \<open>
  The literal decoders of \<open>src/literal/Literal.cpp\<close>: escape sequences in character and
  string literals, little-endian byte sequences, and unsigned integer literals with their
  radix prefixes and digit separators.  Each decoder is compared with a reference that uses
  unbounded arithmetic.
\<close>

unbundle bit_operations_syntax

section \<open>Definitions\<close>

record DecodeResult =
  bytes :: string
  error :: "string option"

abbreviation byte_val :: "char \<Rightarrow> nat" where
  "byte_val c \<equiv> of_char c"

definition isHexDigit :: "char \<Rightarrow> bool" where
  "isHexDigit ch \<longleftrightarrow>
     (byte_val ch \<ge> 48 \<and> byte_val ch \<le> 57) \<or> (byte_val ch \<ge> 97 \<and> byte_val ch \<le> 102) \<or>
     (byte_val ch \<ge> 65 \<and> byte_val ch \<le> 70)"

definition isOctalDigit :: "char \<Rightarrow> bool" where
  "isOctalDigit ch \<longleftrightarrow> byte_val ch \<ge> 48 \<and> byte_val ch \<le> 55"

definition hexValue :: "char \<Rightarrow> uint32" where
  "hexValue ch =
     (if byte_val ch \<ge> 48 \<and> byte_val ch \<le> 57 then of_nat (byte_val ch - 48)
      else if byte_val ch \<ge> 97 \<and> byte_val ch \<le> 102 then of_nat (byte_val ch - 97 + 10)
      else of_nat (byte_val ch) - 65 + 10)"

text \<open>\<open>static_cast<char>\<close> keeps the low eight bits.\<close>

definition to_char :: "uint32 \<Rightarrow> char" where
  "to_char w = char_of (unat w)"

definition appendUtf8 :: "string \<Rightarrow> uint32 \<Rightarrow> string" where
  "appendUtf8 out codePoint =
     (if codePoint \<le> 0x7f then out @ [to_char codePoint]
      else if codePoint \<le> 0x7ff then
        out @ [to_char (0xc0 OR drop_bit 6 codePoint), to_char (0x80 OR (codePoint AND 0x3f))]
      else
        out @ [to_char (0xe0 OR drop_bit 12 codePoint),
               to_char (0x80 OR (drop_bit 6 codePoint AND 0x3f)),
               to_char (0x80 OR (codePoint AND 0x3f))])"

text \<open>The single-character escapes of the \<open>switch\<close>.\<close>

definition simpleEscape :: "char \<Rightarrow> char option" where
  "simpleEscape c =
     (if c = CHR ''n'' then Some (CHR 0x0A)
      else if c = CHR ''t'' then Some (CHR 0x09)
      else if c = CHR ''r'' then Some (CHR 0x0D)
      else if c = CHR 0x5C then Some (CHR 0x5C)
      else if c = CHR 0x27 then Some (CHR 0x27)
      else if c = CHR 0x22 then Some (CHR 0x22)
      else None)"

text \<open>The octal loop: at most three digits, accumulated in 32 bits.\<close>

fun octalLoop :: "nat \<Rightarrow> uint32 \<Rightarrow> string \<Rightarrow> uint32 \<times> string" where
  "octalLoop 0 v s = (v, s)"
| "octalLoop (Suc k) v [] = (v, [])"
| "octalLoop (Suc k) v (c # s) =
     (if isOctalDigit c then octalLoop k (v * 8 + of_nat (byte_val c - 48)) s else (v, c # s))"

lemma octalLoop_length: "length (snd (octalLoop k v s)) \<le> length s"
  by (induction k v s rule: octalLoop.induct) auto

lemma octalLoop_rest: "(v, t) = octalLoop 3 0 (c # s) \<Longrightarrow> length t \<le> Suc (length s)"
  using octalLoop_length [of 3 0 "c # s"] by (auto dest: sym)

definition decodeError :: "string \<Rightarrow> string \<Rightarrow> DecodeResult" where
  "decodeError out message = \<lparr>bytes = out, error = Some message\<rparr>"

definition fourHex :: "char \<Rightarrow> char \<Rightarrow> char \<Rightarrow> char \<Rightarrow> uint32" where
  "fourHex a b c d =
     (push_bit 4 (push_bit 4 (push_bit 4 (push_bit 4 0 OR hexValue a) OR hexValue b) OR hexValue c)
        OR hexValue d)"

function decodeLoop :: "string \<Rightarrow> string \<Rightarrow> DecodeResult" where
  "decodeLoop out [] = \<lparr>bytes = out, error = None\<rparr>"
| "decodeLoop out (ch # rest) =
     (if ch \<noteq> CHR 0x5C then decodeLoop (out @ [ch]) rest
      else case rest of
        [] \<Rightarrow> decodeError out ''unterminated escape sequence''
      | e # rest' \<Rightarrow>
          (case simpleEscape e of
             Some b \<Rightarrow> decodeLoop (out @ [b]) rest'
           | None \<Rightarrow>
               if e = CHR ''x'' then
                 (case rest' of
                    a # b # rest'' \<Rightarrow>
                      if isHexDigit a \<and> isHexDigit b
                      then decodeLoop (out @ [to_char (push_bit 4 (hexValue a) OR hexValue b)]) rest''
                      else decodeError out ''invalid hexadecimal escape''
                  | _ \<Rightarrow> decodeError out ''invalid hexadecimal escape'')
               else if e = CHR ''u'' then
                 (case rest' of
                    a # b # c # d # rest'' \<Rightarrow>
                      if isHexDigit a \<and> isHexDigit b \<and> isHexDigit c \<and> isHexDigit d then
                        (let codePoint = fourHex a b c d in
                         if codePoint \<ge> 0xd800 \<and> codePoint \<le> 0xdfff
                         then decodeError out ''unicode surrogate code point is not valid''
                         else decodeLoop (appendUtf8 out codePoint) rest'')
                      else decodeError out ''invalid unicode escape''
                  | _ \<Rightarrow> decodeError out ''invalid unicode escape'')
               else if isOctalDigit e then
                 (case octalLoop 3 0 rest of
                    (v, rest'') \<Rightarrow>
                      if v > 255 then decodeError out ''octal escape is out of range''
                      else decodeLoop (out @ [to_char v]) rest'')
               else decodeError out ''invalid escape sequence''))"
  by pat_completeness auto
termination
  by (relation "measure (\<lambda>(out, s). length s)") (auto dest: octalLoop_rest)

definition decodeQuotedLiteral :: "string \<Rightarrow> char \<Rightarrow> DecodeResult" where
  "decodeQuotedLiteral literal quote =
     (if length literal \<ge> 2 \<and> hd literal = quote \<and> last literal = quote
      then decodeLoop [] (butlast (tl literal))
      else decodeLoop [] literal)"

definition decodeCharLiteral :: "string \<Rightarrow> DecodeResult" where
  "decodeCharLiteral literal = decodeQuotedLiteral literal (CHR 0x27)"

definition decodeStringLiteral :: "string \<Rightarrow> DecodeResult" where
  "decodeStringLiteral literal = decodeQuotedLiteral literal (CHR 0x22)"

text \<open>The bytes of a character literal, least significant first, in 64 bits.\<close>

fun bytesLoop :: "nat \<Rightarrow> uint64 \<Rightarrow> string \<Rightarrow> uint64" where
  "bytesLoop index v [] = v"
| "bytesLoop index v (b # bs) =
     bytesLoop (Suc index) (v OR push_bit (index * 8) (of_nat (byte_val b))) bs"

definition bytesToUnsignedInteger :: "string \<Rightarrow> uint64 option" where
  "bytesToUnsignedInteger bs =
     (if bs = [] \<or> length bs > 8 then None else Some (bytesLoop 0 0 bs))"

text \<open>Unsigned integer literals: the radix, then the digit loop with its overflow guard.\<close>

definition literalRadix :: "string \<Rightarrow> uint32 \<times> nat" where
  "literalRadix t =
     (if length t \<ge> 2 \<and> t ! 0 = CHR ''0'' \<and> (t ! 1 = CHR ''x'' \<or> t ! 1 = CHR ''X'') then (16, 2)
      else if length t \<ge> 2 \<and> t ! 0 = CHR ''0'' \<and> (t ! 1 = CHR ''b'' \<or> t ! 1 = CHR ''B'') then (2, 2)
      else if length t \<ge> 2 \<and> t ! 0 = CHR ''0'' \<and> (t ! 1 = CHR ''o'' \<or> t ! 1 = CHR ''O'') then (8, 2)
      else if length t > 1 \<and> t ! 0 = CHR ''0'' then (8, 1)
      else (10, 0))"

definition digitOf :: "char \<Rightarrow> uint32 option" where
  "digitOf ch =
     (if byte_val ch \<ge> 48 \<and> byte_val ch \<le> 57 then Some (of_nat (byte_val ch - 48))
      else if byte_val ch \<ge> 97 \<and> byte_val ch \<le> 102 then Some (of_nat (byte_val ch - 97 + 10))
      else if byte_val ch \<ge> 65 \<and> byte_val ch \<le> 70 then Some (of_nat (byte_val ch - 65 + 10))
      else None)"

fun digitLoop :: "uint32 \<Rightarrow> uint64 \<Rightarrow> bool \<Rightarrow> string \<Rightarrow> uint64 option" where
  "digitLoop base v hasDigit [] = (if hasDigit then Some v else None)"
| "digitLoop base v hasDigit (ch # t) =
     (if ch = CHR ''_'' then digitLoop base v hasDigit t
      else case digitOf ch of
        None \<Rightarrow> None
      | Some digit \<Rightarrow>
          if digit \<ge> base then None
          else if v > (- 1 - ucast digit) div ucast base then None
          else digitLoop base (v * ucast base + ucast digit) True t)"

definition parseUnsignedIntegerLiteral :: "string \<Rightarrow> uint64 option" where
  "parseUnsignedIntegerLiteral t =
     (if t = [] then None
      else case literalRadix t of (base, index) \<Rightarrow> digitLoop base 0 False (drop index t))"

section \<open>Unsigned integer literals\<close>

text \<open>
  The reference reads the same digits into an unbounded natural number: separators are
  dropped, every other character must be a digit of the radix, and there must be one.
\<close>

definition digits_value :: "nat \<Rightarrow> nat list \<Rightarrow> nat" where
  "digits_value base ds = foldl (\<lambda>v d. v * base + d) 0 ds"

definition digits_ok :: "nat \<Rightarrow> uint32 option list \<Rightarrow> bool" where
  "digits_ok base ds \<longleftrightarrow> (\<forall>d \<in> set ds. d \<noteq> None \<and> unat (the d) < base)"

definition literal_digits :: "string \<Rightarrow> nat list option" where
  "literal_digits t =
     (let ds = map digitOf (filter (\<lambda>c. c \<noteq> CHR ''_'') (drop (snd (literalRadix t)) t));
          base = unat (fst (literalRadix t)) in
      if ds \<noteq> [] \<and> digits_ok base ds
      then Some (map (unat \<circ> the) ds) else None)"

definition literal_value :: "string \<Rightarrow> nat option" where
  "literal_value t = map_option (digits_value (unat (fst (literalRadix t)))) (literal_digits t)"

lemma literalRadix_base: "fst (literalRadix t) \<in> {2, 8, 10, 16}"
  by (simp add: literalRadix_def)

lemma overflow_guard:
  fixes v :: uint64 and base digit :: uint32
  assumes "base \<in> {2, 8, 10, 16}" and "digit < base"
  shows "v > (- 1 - ucast digit) div ucast base \<longleftrightarrow> unat v * unat base + unat digit \<ge> 2 ^ 64"
proof -
  have b: "unat base \<in> {2, 8, 10, 16}" "unat (ucast base :: uint64) = unat base"
    using assms(1) by auto
  have d: "unat digit < unat base" using assms(2) by (simp add: word_less_nat_alt)
  have ud: "unat (ucast digit :: uint64) = unat digit"
    by simp
  have le: "(ucast digit :: uint64) \<le> - 1" by (simp add: word_order.extremum)
  have m: "unat (- 1 - ucast digit :: uint64) = 2 ^ 64 - 1 - unat digit"
    by (subst unat_sub [OF le]) (simp add: ud unsigned_minus_1_eq_mask mask_eq_exp_minus_1)
  show ?thesis using b d
    by (auto simp: word_less_nat_alt unat_div m)
qed

lemma digit_step:
  fixes v :: uint64 and base digit :: uint32
  assumes "base \<in> {2, 8, 10, 16}" and "unat v * unat base + unat digit < 2 ^ 64"
  shows "unat (v * ucast base + ucast digit :: uint64) = unat v * unat base + unat digit"
proof -
  have "unat (ucast base :: uint64) = unat base" "unat (ucast digit :: uint64) = unat digit"
    by simp_all
  then show ?thesis using assms(2) by (simp add: unat_word_ariths mod_simps)
qed

lemma foldl_digits_ge:
  "1 \<le> base \<Longrightarrow> (v :: nat) \<le> foldl (\<lambda>v d. v * base + d) v ds"
proof (induction ds arbitrary: v)
  case (Cons d ds)
  then have "v * base + d \<le> foldl (\<lambda>v d. v * base + d) (v * base + d) ds" by blast
  moreover have "v \<le> v * base + d" using Cons.prems by (simp add: trans_le_add1)
  ultimately show ?case by simp
qed simp

lemma digits_ok_simps [simp]:
  "digits_ok base []"
  "digits_ok base (None # ds) \<longleftrightarrow> False"
  "digits_ok base (Some d # ds) \<longleftrightarrow> unat d < base \<and> digits_ok base ds"
  by (auto simp: digits_ok_def)

lemma digitLoop_value:
  assumes "base \<in> {2, 8, 10, 16}"
  shows "digitLoop base v h t =
     (let ds = map digitOf (filter (\<lambda>c. c \<noteq> CHR ''_'') t);
          n = foldl (\<lambda>v d. v * unat base + d) (unat v) (map (unat \<circ> the) ds) in
      if (h \<or> ds \<noteq> []) \<and> digits_ok (unat base) ds \<and> n < 2 ^ 64 then Some (of_nat n) else None)"
proof (induction t arbitrary: v h)
  case Nil
  then show ?case by (simp add: unsigned_less [of v, simplified])
next
  case (Cons ch t)
  show ?case
  proof (cases "ch = CHR ''_'' \<or> digitOf ch = None")
    case True
    with Cons show ?thesis by (auto simp: Let_def)
  next
    case False
    then obtain d where d: "ch \<noteq> CHR ''_''" "digitOf ch = Some d" by auto
    let ?n = "unat v * unat base + unat d"
    let ?ds = "map (unat \<circ> the) (map digitOf (filter (\<lambda>c. c \<noteq> CHR ''_'') t))"
    show ?thesis
    proof (cases "d < base \<and> ?n < 2 ^ 64")
      case True
      with assms have "\<not> v > (- 1 - ucast d) div ucast base"
        and "unat (v * ucast base + ucast d :: uint64) = ?n"
        using overflow_guard digit_step by (auto simp: not_le)
      with True d Cons.IH show ?thesis
        by (simp add: Let_def word_less_nat_alt word_le_nat_alt not_le)
    next
      case False
      have "1 \<le> unat base" using assms by auto
      from foldl_digits_ge [OF this, of ?n ?ds] False
      have "d < base \<Longrightarrow> \<not> foldl (\<lambda>v d. v * unat base + d) ?n ?ds < 2 ^ 64" by simp
      moreover have "d < base \<Longrightarrow> v > (- 1 - ucast d) div ucast base"
        using overflow_guard [OF assms, of d v] False by simp
      ultimately show ?thesis using d False
        by (auto simp: Let_def word_less_nat_alt word_le_nat_alt not_le comp_def)
    qed
  qed
qed

lemma parse_literal_value:
  "parseUnsignedIntegerLiteral t =
     (case literal_value t of None \<Rightarrow> None | Some n \<Rightarrow> if n < 2 ^ 64 then Some (of_nat n) else None)"
proof (cases "t = []")
  case True
  then show ?thesis
    by (simp add: parseUnsignedIntegerLiteral_def literal_value_def literal_digits_def)
next
  case False
  obtain base index where r: "literalRadix t = (base, index)" by fastforce
  with literalRadix_base [of t] have "base \<in> {2, 8, 10, 16}" by simp
  from digitLoop_value [OF this] r False show ?thesis
    by (simp add: parseUnsignedIntegerLiteral_def literal_value_def literal_digits_def Let_def
        digits_value_def comp_assoc)
qed

section \<open>Byte sequences\<close>

lemma byte_val_less [simp]: "byte_val c < 256"
  using nat_of_char_less_256 [of c] by simp

lemma horner_bytes_less: "horner_sum byte_val 256 bs < 256 ^ length bs"
proof (induction bs)
  case (Cons b bs)
  have "byte_val b < 256" by simp
  moreover from Cons have "256 * (horner_sum byte_val 256 bs + 1) \<le> 256 * 256 ^ length bs"
    by (intro mult_le_mono2) simp
  ultimately show ?case by (simp del: byte_val_less)
qed simp

lemma bytesLoop_value:
  "unat v < 2 ^ (8 * i) \<Longrightarrow> i + length bs \<le> 8 \<Longrightarrow>
   unat (bytesLoop i v bs) = unat v + 2 ^ (8 * i) * horner_sum byte_val 256 bs"
proof (induction bs arbitrary: i v)
  case (Cons b bs)
  let ?w = "v OR push_bit (i * 8) (of_nat (byte_val b)) :: uint64"
  have i: "i < 8" using Cons.prems(2) by simp
  have "2 ^ (8 * i) * byte_val b < 2 ^ (8 * i) * 256" by simp
  also have "\<dots> = (2::nat) ^ (8 * i + 8)" by (simp add: power_add)
  also have "\<dots> \<le> 2 ^ 64" using i by (intro power_increasing) simp_all
  finally have fits: "2 ^ (8 * i) * byte_val b < (2::nat) ^ 64" .
  have "unat (of_nat (byte_val b) :: uint64) = byte_val b"
    by (simp add: unsigned_of_nat take_bit_nat_eq_self less_trans [OF byte_val_less])
  then have push: "unat (push_bit (i * 8) (of_nat (byte_val b)) :: uint64) = push_bit (8 * i) (byte_val b)"
    using fits
    by (simp only: unsigned_push_bit_eq) (simp add: push_bit_eq_mult mult.commute take_bit_nat_eq_self)
  have w: "unat ?w = 2 ^ (8 * i) * byte_val b + unat v"
    unfolding unsigned_or_eq push using nat_or_add [OF Cons.prems(1), of "byte_val b"]
    by (simp add: or.commute)
  have "unat ?w < 2 ^ (8 * Suc i)"
  proof -
    have "2 ^ (8 * i) * byte_val b + unat v < 2 ^ (8 * i) * (byte_val b + 1)"
      using Cons.prems(1) by simp
    also have "\<dots> \<le> 2 ^ (8 * i) * 256"
      by (intro mult_le_mono2) (use byte_val_less [of b] in linarith)
    finally show ?thesis using w by (simp add: power_add)
  qed
  from Cons.IH [OF this] Cons.prems(2) w show ?case
    by (simp add: power_add algebra_simps)
qed simp

lemma bytesToUnsignedInteger_value:
  "bytesToUnsignedInteger bs =
     (if 1 \<le> length bs \<and> length bs \<le> 8 then Some (of_nat (horner_sum byte_val 256 bs)) else None)"
proof (cases "1 \<le> length bs \<and> length bs \<le> 8")
  case True
  then have "unat (bytesLoop 0 0 bs) = horner_sum byte_val 256 bs"
    using bytesLoop_value [of 0 0 bs] by simp
  then have "bytesLoop 0 0 bs = of_nat (horner_sum byte_val 256 bs)"
    by (metis of_nat_unat ucast_id)
  with True show ?thesis by (auto simp: bytesToUnsignedInteger_def)
next
  case False
  then show ?thesis by (cases bs) (auto simp: bytesToUnsignedInteger_def)
qed

text \<open>The \<open>n\<close> little-endian bytes of a number, and the way back.\<close>

definition little_endian :: "nat \<Rightarrow> nat \<Rightarrow> string" where
  "little_endian n v = map (\<lambda>i. char_of (v div 256 ^ i)) [0..<n]"

lemma little_endian_Suc: "little_endian (Suc n) v = char_of v # little_endian n (v div 256)"
  by (simp add: little_endian_def upt_conv_Cons map_Suc_upt [symmetric] div_mult2_eq comp_def del: upt_Suc)

lemma horner_little_endian: "v < 256 ^ n \<Longrightarrow> horner_sum byte_val 256 (little_endian n v) = v"
proof (induction n arbitrary: v)
  case (Suc n)
  then have "v div 256 < 256 ^ n" by (simp add: less_mult_imp_div_less mult.commute)
  with Suc.IH show ?case by (simp add: little_endian_Suc)
qed (simp add: little_endian_def)

lemma length_little_endian [simp]: "length (little_endian n v) = n"
  by (simp add: little_endian_def)

section \<open>Escape sequences\<close>

text \<open>Reference arithmetic for the code units of an escape.\<close>

definition utf8_bytes :: "nat \<Rightarrow> nat list" where
  "utf8_bytes n =
     (if n < 0x80 then [n]
      else if n < 0x800 then [0xc0 + n div 64, 0x80 + n mod 64]
      else [0xe0 + n div 4096, 0x80 + n div 64 mod 64, 0x80 + n mod 64])"

lemma to_char_val [simp]: "byte_val (to_char w) = unat w mod 256"
  by (simp add: to_char_def)

lemma or_byte:
  "x < 64 \<Longrightarrow> 192 OR x = 192 + x" "x < 64 \<Longrightarrow> 128 OR x = 128 + x" "x < 32 \<Longrightarrow> 224 OR x = 224 + x"
  for x :: nat
  using nat_or_add [of x 6 3] nat_or_add [of x 6 2] nat_or_add [of x 5 7]
  by (simp_all add: push_bit_eq_mult)

lemma unat_and_3f: "unat (w AND 0x3f :: uint32) = unat w mod 64"
proof -
  have "unat (w AND 0x3f) = unat w AND mask 6"
    unfolding unsigned_and_eq by (simp add: mask_eq_exp_minus_1)
  then show ?thesis by (simp only: take_bit_eq_mask [symmetric] take_bit_eq_mod) simp
qed

lemma appendUtf8_bytes:
  assumes "codePoint < 0x10000"
  shows "appendUtf8 out codePoint = out @ map char_of (utf8_bytes (unat codePoint))"
proof -
  have u: "unat codePoint < 0x10000" using assms by (simp add: word_less_nat_alt)
  have d: "unat (drop_bit k codePoint) = unat codePoint div 2 ^ k" for k
    unfolding unat_drop_bit_eq by (simp add: drop_bit_eq_div)
  show ?thesis using u
    by (auto simp: appendUtf8_def utf8_bytes_def to_char_def word_le_nat_alt unsigned_or_eq
        unat_and_3f d or_byte)
qed

definition hex_digit_value :: "char \<Rightarrow> nat" where
  "hex_digit_value c = unat (hexValue c)"

lemma hex_digit_value_less: "isHexDigit c \<Longrightarrow> hex_digit_value c < 16"
proof -
  assume "isHexDigit c"
  then consider "byte_val c \<in> {48..57}" | "byte_val c \<in> {97..102}" | "byte_val c \<in> {65..70}"
    by (auto simp: isHexDigit_def)
  then have "\<exists>k < 16. hexValue c = of_nat k"
  proof cases
    case 1
    then have "hexValue c = of_nat (byte_val c - 48)" "byte_val c - 48 < 16"
      unfolding atLeastAtMost_iff by (simp add: hexValue_def del: of_nat_diff, linarith)
    then show ?thesis by blast
  next
    case 2
    then have "hexValue c = of_nat (byte_val c - 97 + 10)" "byte_val c - 97 + 10 < 16"
      unfolding atLeastAtMost_iff by (simp add: hexValue_def del: of_nat_diff, linarith)
    then show ?thesis by blast
  next
    case 3
    then have "hexValue c = of_nat (byte_val c - 55)" "byte_val c - 55 < 16"
      unfolding atLeastAtMost_iff by (simp add: hexValue_def of_nat_diff, linarith)
    then show ?thesis by blast
  qed
  then show ?thesis by (auto simp: hex_digit_value_def unsigned_of_nat take_bit_nat_eq_self)
qed

lemma hex_shift:
  fixes v :: uint32
  assumes "isHexDigit c" and "unat v < 2 ^ 28"
  shows "unat (push_bit 4 v OR hexValue c) = 16 * unat v + hex_digit_value c"
proof -
  have "unat (push_bit 4 v) = push_bit 4 (unat v)"
    using assms(2) by (simp only: unsigned_push_bit_eq) (simp add: push_bit_eq_mult take_bit_nat_eq_self)
  then show ?thesis
    using nat_or_add [of "hex_digit_value c" 4 "unat v"] hex_digit_value_less [OF assms(1)]
    by (simp only: unsigned_or_eq hex_digit_value_def) simp
qed

definition hex2 :: "char \<Rightarrow> char \<Rightarrow> nat" where
  "hex2 a b = 16 * hex_digit_value a + hex_digit_value b"

definition hex4 :: "char \<Rightarrow> char \<Rightarrow> char \<Rightarrow> char \<Rightarrow> nat" where
  "hex4 a b c d = 256 * hex2 a b + hex2 c d"

lemma unat_hex2:
  "isHexDigit a \<Longrightarrow> isHexDigit b \<Longrightarrow> unat (push_bit 4 (hexValue a) OR hexValue b) = hex2 a b"
  using hex_shift [of b "hexValue a"] hex_digit_value_less [of a]
  by (simp add: hex2_def hex_digit_value_def)

lemma unat_fourHex:
  assumes "isHexDigit a" "isHexDigit b" "isHexDigit c" "isHexDigit d"
  shows "unat (fourHex a b c d) = hex4 a b c d" and "hex4 a b c d < 0x10000"
proof -
  note lt = assms [THEN hex_digit_value_less]
  let ?v = "push_bit 4 (hexValue a) OR hexValue b"
  have v: "unat ?v = hex2 a b" by (rule unat_hex2 [OF assms(1,2)])
  then have w: "unat (push_bit 4 ?v OR hexValue c) = 16 * hex2 a b + hex_digit_value c"
    using hex_shift [OF assms(3), of ?v] lt by (simp add: hex2_def)
  have "unat (push_bit 4 (push_bit 4 ?v OR hexValue c) OR hexValue d) = hex4 a b c d"
    using hex_shift [OF assms(4), of "push_bit 4 ?v OR hexValue c"] w lt
    by (simp add: hex4_def hex2_def)
  then show "unat (fourHex a b c d) = hex4 a b c d" by (simp add: fourHex_def)
  show "hex4 a b c d < 0x10000" using lt by (simp add: hex4_def hex2_def)
qed

text \<open>
  The octal loop takes the longest run of octal digits, at most three of them.
\<close>

definition octal_value :: "string \<Rightarrow> nat" where
  "octal_value ds = foldl (\<lambda>v d. v * 8 + (byte_val d - 48)) 0 ds"

definition octal_run :: "nat \<Rightarrow> string \<Rightarrow> string" where
  "octal_run k s = takeWhile isOctalDigit (take k s)"

lemma octalLoop_run:
  assumes "unat v < 8 ^ (7 - k)" and "k \<le> 3"
  shows "snd (octalLoop k v s) = drop (length (octal_run k s)) s \<and>
     unat (fst (octalLoop k v s)) = foldl (\<lambda>v d. v * 8 + (byte_val d - 48)) (unat v) (octal_run k s)"
  using assms
proof (induction k v s rule: octalLoop.induct)
  case (3 k v c s)
  show ?case
  proof (cases "isOctalDigit c")
    case True
    then have c: "byte_val c - 48 < 8" by (auto simp: isOctalDigit_def)
    have p: "8 ^ (7 - k) = 8 * (8 ^ (7 - Suc k) :: nat)"
      using "3.prems"(2) by (simp add: Suc_diff_le power_Suc [symmetric] del: power_Suc)
    have "(8::nat) ^ (7 - k) \<le> 8 ^ 7" by (intro power_increasing) simp_all
    with p "3.prems"(1) c have lt: "unat v * 8 + (byte_val c - 48) < 8 ^ (7 - k)"
      and "unat v * 8 + (byte_val c - 48) < 2 ^ 32" by simp_all
    then have "unat (v * 8 + of_nat (byte_val c - 48)) = unat v * 8 + (byte_val c - 48)"
      using c by (simp add: unat_word_ariths unsigned_of_nat take_bit_nat_eq_self)
    with lt True "3.IH" "3.prems"(2) show ?thesis by (simp add: octal_run_def)
  next
    case False
    then show ?thesis by (simp add: octal_run_def)
  qed
qed (simp_all add: octal_run_def)

lemma octalLoop_three:
  "octalLoop 3 0 s = (v, t) \<Longrightarrow> t = drop (length (octal_run 3 s)) s \<and> unat v = octal_value (octal_run 3 s)"
  using octalLoop_run [of 0 3 s] by (simp add: octal_value_def)

text \<open>
  The grammar of literal bodies, independent of the decoding loop: which byte sequences a
  body spells.  An octal escape has one to three digits and takes as many as there are.
\<close>

inductive literal_body :: "string \<Rightarrow> string \<Rightarrow> bool" where
  lb_nil: "literal_body [] []"
| lb_raw: "c \<noteq> CHR 0x5C \<Longrightarrow> literal_body s bs \<Longrightarrow> literal_body (c # s) (c # bs)"
| lb_simple: "simpleEscape e = Some b \<Longrightarrow> literal_body s bs \<Longrightarrow>
    literal_body (CHR 0x5C # e # s) (b # bs)"
| lb_hex: "isHexDigit a \<Longrightarrow> isHexDigit b \<Longrightarrow> literal_body s bs \<Longrightarrow>
    literal_body (CHR 0x5C # CHR ''x'' # a # b # s) (char_of (hex2 a b) # bs)"
| lb_unicode: "isHexDigit a \<Longrightarrow> isHexDigit b \<Longrightarrow> isHexDigit c \<Longrightarrow> isHexDigit d \<Longrightarrow>
    \<not> (0xd800 \<le> hex4 a b c d \<and> hex4 a b c d \<le> 0xdfff) \<Longrightarrow> literal_body s bs \<Longrightarrow>
    literal_body (CHR 0x5C # CHR ''u'' # a # b # c # d # s) (map char_of (utf8_bytes (hex4 a b c d)) @ bs)"
| lb_octal: "isOctalDigit e \<Longrightarrow> octal_value (octal_run 3 (e # r)) \<le> 255 \<Longrightarrow>
    literal_body (drop (length (octal_run 3 (e # r))) (e # r)) bs \<Longrightarrow>
    literal_body (CHR 0x5C # e # r) (char_of (octal_value (octal_run 3 (e # r))) # bs)"

lemma octal_not_letter: "isOctalDigit e \<Longrightarrow> simpleEscape e = None \<and> e \<noteq> CHR ''x'' \<and> e \<noteq> CHR ''u''"
proof -
  assume oct: "isOctalDigit e"
  have "simpleEscape e \<noteq> None \<Longrightarrow> e \<in> {CHR ''n'', CHR ''t'', CHR ''r'', CHR 0x5C, CHR 0x27, CHR 0x22}"
    by (simp add: simpleEscape_def split: if_splits)
  moreover have "\<not> isOctalDigit c" if "c \<in> {CHR ''n'', CHR ''t'', CHR ''r'', CHR 0x5C, CHR 0x27, CHR 0x22, CHR ''x'', CHR ''u''}" for c
    using that by (auto simp: isOctalDigit_def)
  ultimately show ?thesis using oct by (cases "simpleEscape e") auto
qed

lemma simple_letter: "simpleEscape (CHR ''x'') = None" "simpleEscape (CHR ''u'') = None"
  by (simp_all add: simpleEscape_def)

declare decodeLoop.simps(2) [simp del]

lemma decodeLoop_complete: "literal_body s bs \<Longrightarrow> decodeLoop out s = \<lparr>bytes = out @ bs, error = None\<rparr>"
proof (induction arbitrary: out rule: literal_body.induct)
  case (lb_hex a b s bs)
  then show ?case
    by (simp add: decodeLoop.simps(2) simple_letter to_char_def unat_hex2)
next
  case (lb_unicode a b c d s bs)
  note h = unat_fourHex [OF lb_unicode.hyps(1-4)]
  have "fourHex a b c d < 0x10000" using h by (simp add: word_less_nat_alt)
  from appendUtf8_bytes [OF this] lb_unicode h show ?case
    by (auto simp: decodeLoop.simps(2) simple_letter word_le_nat_alt Let_def)
next
  case (lb_octal e r bs)
  obtain v t where l: "octalLoop 3 0 (e # r) = (v, t)" by fastforce
  from octalLoop_three [OF l] lb_octal l octal_not_letter [OF lb_octal.hyps(1)] show ?case
    by (simp add: decodeLoop.simps(2) word_less_nat_alt to_char_def)
qed (simp_all add: decodeLoop.simps(2))

lemma decodeLoop_sound:
  "error (decodeLoop out s) = None \<Longrightarrow> \<exists>bs. bytes (decodeLoop out s) = out @ bs \<and> literal_body s bs"
proof (induction out s rule: decodeLoop.induct)
  case (1 out)
  then show ?case by (auto intro: lb_nil)
next
  case (2 out ch rest)
  show ?case
  proof (cases "ch = CHR 0x5C")
    case False
    with 2 show ?thesis by (fastforce simp: decodeLoop.simps(2) intro: lb_raw)
  next
    case True
    with "2.prems" obtain e rest' where r: "rest = e # rest'"
      by (cases rest) (simp_all add: decodeLoop.simps(2) decodeError_def)
    consider (simple) b where "simpleEscape e = Some b"
      | (hex) "e = CHR ''x''" | (unicode) "e = CHR ''u''"
      | (octal) "simpleEscape e = None" "e \<noteq> CHR ''x''" "e \<noteq> CHR ''u''"
      by (cases "simpleEscape e") auto
    then show ?thesis
    proof cases
      case simple
      with 2 True r show ?thesis by (fastforce simp: decodeLoop.simps(2) intro: lb_simple)
    next
      case hex
      with "2.prems" True r obtain a b t where t: "rest' = a # b # t" "isHexDigit a" "isHexDigit b"
        by (auto simp: decodeLoop.simps(2) decodeError_def simple_letter split: list.splits if_splits)
      with 2 hex True r show ?thesis
        by (fastforce simp: decodeLoop.simps(2) simple_letter to_char_def unat_hex2 intro: lb_hex)
    next
      case unicode
      with "2.prems" True r obtain a b c d t where t: "rest' = a # b # c # d # t"
        and h: "isHexDigit a" "isHexDigit b" "isHexDigit c" "isHexDigit d"
        by (auto simp: decodeLoop.simps(2) decodeError_def simple_letter split: list.splits if_splits)
      note v = unat_fourHex [OF h]
      then have "fourHex a b c d < 0x10000" by (simp add: word_less_nat_alt)
      note utf8 = appendUtf8_bytes [OF this]
      from 2 unicode True r t h utf8 v show ?thesis
        by (fastforce simp: decodeLoop.simps(2) simple_letter Let_def word_le_nat_alt decodeError_def
            split: if_splits intro: lb_unicode)
    next
      case octal
      obtain v t where l: "octalLoop 3 0 (e # rest') = (v, t)" by fastforce
      with octal "2.prems" True r have oct: "isOctalDigit e" "v \<le> 255"
        by (auto simp: decodeLoop.simps(2) decodeError_def not_less split: if_splits)
      from 2 octal oct True r l octalLoop_three [OF l] show ?thesis
        by (fastforce simp: decodeLoop.simps(2) word_less_nat_alt word_le_nat_alt to_char_def not_less intro: lb_octal)
    qed
  qed
qed

section \<open>Properties\<close>

text \<open>
  C27. A string literal and a character literal decode without an error to the bytes
  \<open>bs\<close> exactly when the grammar of literal bodies derives \<open>bs\<close> from the text between
  the quotes: every escape form is accepted, every malformed one is rejected, and a code
  point above 127 becomes its UTF-8 bytes.
\<close>

theorem decode_literal_iff_grammar:
  "(decodeStringLiteral (CHR 0x22 # s @ [CHR 0x22]) = \<lparr>bytes = bs, error = None\<rparr> \<longleftrightarrow> literal_body s bs) \<and>
   (decodeCharLiteral (CHR 0x27 # s @ [CHR 0x27]) = \<lparr>bytes = bs, error = None\<rparr> \<longleftrightarrow> literal_body s bs)"
proof -
  have "decodeLoop [] s = \<lparr>bytes = bs, error = None\<rparr> \<longleftrightarrow> literal_body s bs"
    using decodeLoop_complete [of s bs "[]"] decodeLoop_sound [of "[]" s] by auto
  then show ?thesis
    by (simp add: decodeStringLiteral_def decodeCharLiteral_def decodeQuotedLiteral_def)
qed

text \<open>
  C28. An unsigned integer literal is accepted exactly when it is a non-empty sequence of
  digits of its radix (with separators) whose unbounded value is below \<open>2^64\<close>, and the
  64-bit result is that value: the division guard of the digit loop is exact.
\<close>

theorem parseUnsignedIntegerLiteral_exact:
  "parseUnsignedIntegerLiteral t = Some v \<longleftrightarrow>
     (\<exists>n. literal_value t = Some n \<and> n < 2 ^ 64 \<and> v = of_nat n)"
  by (auto simp: parse_literal_value split: option.splits)

text \<open>
  Writing a number below \<open>256^n\<close> as \<open>n\<close> little-endian bytes (one to eight of them) and
  reading it back with \<open>bytesToUnsignedInteger\<close> gives the number.
\<close>

theorem bytesToUnsignedInteger_roundtrip:
  assumes "1 \<le> n" and "n \<le> 8" and "v < 256 ^ n"
  shows "bytesToUnsignedInteger (little_endian n v) = Some (of_nat v)"
  using assms by (simp add: bytesToUnsignedInteger_value horner_little_endian)

theorem bytesToUnsignedInteger_roundtrip_witness:
  "bytesToUnsignedInteger (little_endian 3 0x12345) = Some 0x12345"
  using bytesToUnsignedInteger_roundtrip [of 3 "0x12345"] by simp

end
