(* ===== verification/Escaping.thy ===== *)
theory Escaping
  imports HS_Prelude
begin

text \<open>
  The escaping printers of the compiler: JSON strings for diagnostics
  (\<open>appendJsonString\<close>) and metrics (\<open>escapeJson\<close>), token dumps (\<open>escapeLexeme\<close>) and
  \<open>#line\<close> file names (\<open>escapeLineFileName\<close>).  Each one interprets \<open>char_escape\<close>
  with a reader of its output format, so the printed text determines the original.
\<close>

section \<open>Definitions\<close>

definition hexDigit :: "nat \<Rightarrow> char" where
  "hexDigit n = ''0123456789abcdef'' ! n"

text \<open>One character of a JSON string; both JSON printers have the same \<open>switch\<close>.\<close>

definition jsonChar :: "char \<Rightarrow> string" where
  "jsonChar ch =
     (if ch = CHR 0x22 then [CHR 0x5C, CHR 0x22]
      else if ch = CHR 0x5C then [CHR 0x5C, CHR 0x5C]
      else if ch = CHR 0x08 then [CHR 0x5C, CHR ''b'']
      else if ch = CHR 0x0C then [CHR 0x5C, CHR ''f'']
      else if ch = CHR 0x0A then [CHR 0x5C, CHR ''n'']
      else if ch = CHR 0x0D then [CHR 0x5C, CHR ''r'']
      else if ch = CHR 0x09 then [CHR 0x5C, CHR ''t'']
      else if (of_char ch :: nat) < 0x20 then
        CHR 0x5C # ''u00'' @ [hexDigit (of_char ch div 16 mod 16), hexDigit (of_char ch mod 16)]
      else [ch])"

definition appendJsonString :: "string \<Rightarrow> string \<Rightarrow> string" where
  "appendJsonString out v = out @ [CHR 0x22] @ concat (map jsonChar v) @ [CHR 0x22]"

definition escapeJson :: "string \<Rightarrow> string" where
  "escapeJson v = concat (map jsonChar v)"

definition lexemeChar :: "char \<Rightarrow> string" where
  "lexemeChar ch =
     (if ch = CHR 0x0A then [CHR 0x5C, CHR ''n'']
      else if ch = CHR 0x0D then [CHR 0x5C, CHR ''r'']
      else if ch = CHR 0x09 then [CHR 0x5C, CHR ''t'']
      else if ch = CHR 0x5C then [CHR 0x5C, CHR 0x5C]
      else if ch = CHR 0x60 then [CHR 0x5C, CHR 0x60]
      else [ch])"

definition escapeLexeme :: "string \<Rightarrow> string" where
  "escapeLexeme lexeme = concat (map lexemeChar lexeme)"

definition lineFileChar :: "char \<Rightarrow> string" where
  "lineFileChar ch = (if ch = CHR 0x5C \<or> ch = CHR 0x22 then [CHR 0x5C, ch] else [ch])"

definition escapeLineFileName :: "string \<Rightarrow> string" where
  "escapeLineFileName fileName = concat (map lineFileChar fileName)"

section \<open>Readers\<close>

text \<open>
  What a consumer of each format does with one code: a backslash starts an escape, any
  other character stands for itself.  The JSON reader takes the \<open>u00\<close> escapes it may meet.
\<close>

definition hexIndex :: "char \<Rightarrow> nat option" where
  "hexIndex c = List.find (\<lambda>n. hexDigit n = c) [0..<16]"

definition jsonUnescape :: "string \<Rightarrow> (char \<times> string) option" where
  "jsonUnescape s =
     (case s of
        [] \<Rightarrow> None
      | c # r \<Rightarrow>
          if c \<noteq> CHR 0x5C then Some (c, r)
          else case r of
            [] \<Rightarrow> None
          | e # r' \<Rightarrow>
              if e = CHR 0x22 \<or> e = CHR 0x5C then Some (e, r')
              else if e = CHR ''b'' then Some (CHR 0x08, r')
              else if e = CHR ''f'' then Some (CHR 0x0C, r')
              else if e = CHR ''n'' then Some (CHR 0x0A, r')
              else if e = CHR ''r'' then Some (CHR 0x0D, r')
              else if e = CHR ''t'' then Some (CHR 0x09, r')
              else if e = CHR ''u'' then
                (case r' of
                   z # z' # a # b # r'' \<Rightarrow>
                     (case (hexIndex a, hexIndex b) of
                        (Some m, Some n) \<Rightarrow> Some (char_of (16 * m + n), r'')
                      | _ \<Rightarrow> None)
                 | _ \<Rightarrow> None)
              else None)"

definition lexemeUnescape :: "string \<Rightarrow> (char \<times> string) option" where
  "lexemeUnescape s =
     (case s of
        [] \<Rightarrow> None
      | c # r \<Rightarrow>
          if c \<noteq> CHR 0x5C then Some (c, r)
          else case r of
            [] \<Rightarrow> None
          | e # r' \<Rightarrow>
              Some (if e = CHR ''n'' then CHR 0x0A else if e = CHR ''r'' then CHR 0x0D
                    else if e = CHR ''t'' then CHR 0x09 else e, r'))"

definition lineFileUnescape :: "string \<Rightarrow> (char \<times> string) option" where
  "lineFileUnescape s =
     (case s of
        [] \<Rightarrow> None
      | c # r \<Rightarrow>
          if c \<noteq> CHR 0x5C then Some (c, r)
          else case r of [] \<Rightarrow> None | e # r' \<Rightarrow> Some (e, r'))"

definition closing :: "char \<Rightarrow> string \<Rightarrow> bool" where
  "closing q s = (s = [] \<or> hd s = q)"

section \<open>Interpretations\<close>

lemma hexIndex_hexDigit: "n < 16 \<Longrightarrow> hexIndex (hexDigit n) = Some n"
proof -
  assume "n < 16"
  then have "n \<in> set [0..<16]" by simp
  moreover have "\<forall>n \<in> set [0..<16]. hexIndex (hexDigit n) = Some n" by code_simp
  ultimately show ?thesis by blast
qed

lemma jsonChar_control:
  assumes "(of_char ch :: nat) < 0x20"
  shows "jsonUnescape (CHR 0x5C # ''u00'' @ [hexDigit (of_char ch div 16 mod 16), hexDigit (of_char ch mod 16)] @ r) = Some (ch, r)"
proof -
  have "16 * (of_char ch div 16 mod 16) + of_char ch mod 16 = (of_char ch :: nat)"
    using assms by auto
  then show ?thesis by (simp add: jsonUnescape_def hexIndex_hexDigit)
qed

interpretation json: char_escape jsonChar jsonUnescape "closing (CHR 0x22)"
proof (unfold_locales, goal_cases)
  case (1 c rest)
  show ?case
  proof (cases "c \<in> {CHR 0x22, CHR 0x5C, CHR 0x08, CHR 0x0C, CHR 0x0A, CHR 0x0D, CHR 0x09} \<or> \<not> (of_char c :: nat) < 0x20")
    case True
    then show ?thesis by (auto simp: jsonChar_def jsonUnescape_def)
  next
    case False
    then show ?thesis using jsonChar_control [of c rest] by (simp add: jsonChar_def)
  qed
qed (auto simp: jsonChar_def closing_def)

interpretation lexeme: char_escape lexemeChar lexemeUnescape "closing (CHR 0x60)"
  by unfold_locales (auto simp: lexemeChar_def lexemeUnescape_def closing_def)

interpretation line_file: char_escape lineFileChar lineFileUnescape "closing (CHR 0x22)"
  by unfold_locales (auto simp: lineFileChar_def lineFileUnescape_def closing_def)

lemma appendJsonString_inject:
  "appendJsonString [] s @ r = appendJsonString [] t @ r' \<Longrightarrow> s = t \<and> r = r'"
  using json.escape_inject [of "CHR 0x22 # r" "CHR 0x22 # r'" s t]
  by (simp add: appendJsonString_def closing_def)

section \<open>Properties\<close>

text \<open>
  C34. Every escaping printer of the compiler can be read back: from the escaped text,
  followed by its closing delimiter or by nothing, the reader of the format recovers the
  original bytes, for arbitrary bytes (control characters, quotes and backslashes included).
\<close>

theorem escape_roundtrip:
  "unescape jsonUnescape (closing (CHR 0x22)) (escapeJson s @ CHR 0x22 # r) = Some (s, CHR 0x22 # r) \<and>
   unescape jsonUnescape (closing (CHR 0x22)) (tl (appendJsonString [] s) @ r) = Some (s, CHR 0x22 # r) \<and>
   unescape lexemeUnescape (closing (CHR 0x60)) (escapeLexeme s @ CHR 0x60 # r) = Some (s, CHR 0x60 # r) \<and>
   unescape lineFileUnescape (closing (CHR 0x22)) (escapeLineFileName s @ CHR 0x22 # r) = Some (s, CHR 0x22 # r)"
  by (simp add: escapeJson_def appendJsonString_def escapeLexeme_def escapeLineFileName_def
      json.unescape_escape lexeme.unescape_escape line_file.unescape_escape closing_def)

end
