(* ===== verification/Diagnostic.thy ===== *)
theory Diagnostic
  imports Escaping
begin

text \<open>
  Source locations and diagnostics (\<open>src/diagnostic/Diagnostic.cpp\<close>): the one-line
  format, the JSON format, and the source excerpt with its caret marker.  Lines and columns
  count characters of files and are natural numbers; the contents of the file system are a
  parameter of the excerpt.
\<close>

section \<open>Definitions\<close>

record SourceLocation =
  loc_file :: string
  loc_line :: nat
  loc_column :: nat

record SourceRange =
  range_begin :: SourceLocation
  range_end :: SourceLocation

datatype Severity = Note | Warning | Error

datatype Stage = Cli | Preprocessor | Lexer | Parser | Sema | Hir | Codegen | Runtime

record DiagnosticLabel =
  label_range :: SourceRange
  label_message :: string

record Diagnostic =
  severity :: Severity
  stage :: Stage
  diag_range :: "SourceRange option"
  message :: string
  labels :: "DiagnosticLabel list"

definition hasFile :: "SourceLocation \<Rightarrow> bool" where
  "hasFile location \<longleftrightarrow> loc_file location \<noteq> []"

definition hasRange :: "SourceRange \<Rightarrow> bool" where
  "hasRange r \<longleftrightarrow> hasFile (range_begin r) \<or> hasFile (range_end r)"

text \<open>Unsigned numbers are streamed in decimal.\<close>

fun show_nat :: "nat \<Rightarrow> string" where
  "show_nat n = (if n < 10 then [char_of (48 + n)] else show_nat (n div 10) @ [char_of (48 + n mod 10)])"

declare show_nat.simps [simp del]

definition appendJsonLocation :: "string \<Rightarrow> SourceLocation \<Rightarrow> string" where
  "appendJsonLocation out location =
     appendJsonString (out @ ''{'' @ [CHR 0x22] @ ''file'' @ [CHR 0x22] @ '':'') (loc_file location) @
     '','' @ [CHR 0x22] @ ''line'' @ [CHR 0x22] @ '':'' @ show_nat (loc_line location) @
     '','' @ [CHR 0x22] @ ''column'' @ [CHR 0x22] @ '':'' @ show_nat (loc_column location) @ ''}''"

definition appendJsonRange :: "string \<Rightarrow> SourceRange \<Rightarrow> string" where
  "appendJsonRange out r =
     appendJsonLocation
       (appendJsonLocation (out @ ''{'' @ [CHR 0x22] @ ''begin'' @ [CHR 0x22] @ '':'') (range_begin r) @
        '','' @ [CHR 0x22] @ ''end'' @ [CHR 0x22] @ '':'') (range_end r) @ ''}''"

definition severityName :: "Severity \<Rightarrow> string" where
  "severityName s = (case s of Note \<Rightarrow> ''note'' | Warning \<Rightarrow> ''warning'' | Error \<Rightarrow> ''error'')"

definition stageName :: "Stage \<Rightarrow> string" where
  "stageName s =
     (case s of Cli \<Rightarrow> ''cli'' | Preprocessor \<Rightarrow> ''preprocessor'' | Lexer \<Rightarrow> ''lexer'' | Parser \<Rightarrow> ''parser''
      | Sema \<Rightarrow> ''sema'' | Hir \<Rightarrow> ''hir'' | Codegen \<Rightarrow> ''codegen'' | Runtime \<Rightarrow> ''runtime'')"

definition diagnostic_error :: "Stage \<Rightarrow> string \<Rightarrow> Diagnostic" where
  "diagnostic_error st msg =
     \<lparr>severity = Error, stage = st, diag_range = None, message = msg, labels = []\<rparr>"

definition format :: "Diagnostic \<Rightarrow> string" where
  "format d =
     (case diag_range d of
        Some r \<Rightarrow>
          if hasFile (range_begin r) then
            loc_file (range_begin r) @ '':'' @ show_nat (loc_line (range_begin r)) @ '':'' @
            show_nat (loc_column (range_begin r)) @ '': ''
          else []
      | None \<Rightarrow> []) @
     stageName (stage d) @ '': '' @ severityName (severity d) @ '': '' @ message d"

definition jsonLabel :: "DiagnosticLabel \<Rightarrow> string" where
  "jsonLabel l =
     appendJsonRange
       (appendJsonString (''{'' @ [CHR 0x22] @ ''message'' @ [CHR 0x22] @ '':'') (label_message l) @
        '','' @ [CHR 0x22] @ ''range'' @ [CHR 0x22] @ '':'') (label_range l) @ ''}''"

text \<open>The loop over the labels puts a comma before every label but the first.\<close>

fun jsonLabels :: "DiagnosticLabel list \<Rightarrow> string" where
  "jsonLabels [] = []"
| "jsonLabels [l] = jsonLabel l"
| "jsonLabels (l # l' # ls) = jsonLabel l @ '','' @ jsonLabels (l' # ls)"

definition formatJson :: "Diagnostic \<Rightarrow> string" where
  "formatJson d =
     appendJsonString
       (appendJsonString
         (appendJsonString (''{'' @ [CHR 0x22] @ ''severity'' @ [CHR 0x22] @ '':'') (severityName (severity d)) @
          '','' @ [CHR 0x22] @ ''stage'' @ [CHR 0x22] @ '':'') (stageName (stage d)) @
        '','' @ [CHR 0x22] @ ''message'' @ [CHR 0x22] @ '':'') (message d) @
     '','' @ [CHR 0x22] @ ''primary'' @ [CHR 0x22] @ '':'' @
     (case diag_range d of Some r \<Rightarrow> appendJsonRange [] r | None \<Rightarrow> ''null'') @
     '','' @ [CHR 0x22] @ ''related'' @ [CHR 0x22] @ '':['' @ jsonLabels (labels d) @ '']}''"

text \<open>
  \<open>std::getline\<close>: the characters up to the next newline, which is removed; it fails at the
  end of the stream.
\<close>

definition getline :: "string \<Rightarrow> (string \<times> string) option" where
  "getline input =
     (if input = [] then None
      else Some (takeWhile (\<lambda>c. c \<noteq> CHR 0x0A) input, tl (dropWhile (\<lambda>c. c \<noteq> CHR 0x0A) input)))"

fun readLine :: "nat \<Rightarrow> string \<Rightarrow> string \<Rightarrow> string option" where
  "readLine 0 current input = Some current"
| "readLine (Suc n) current input =
     (case getline input of None \<Rightarrow> None | Some (l, rest) \<Rightarrow> readLine n l rest)"

text \<open>The display loop: tabs advance to the next multiple of four.\<close>

fun displayLoop :: "nat \<Rightarrow> nat \<Rightarrow> string \<Rightarrow> string \<Rightarrow> nat \<Rightarrow> string \<times> nat" where
  "displayLoop sourceColumn index [] displayed marker = (displayed, marker)"
| "displayLoop sourceColumn index (c # cs) displayed marker =
     (if c = CHR 0x09 then
        (let width = 4 - length displayed mod 4 in
         displayLoop sourceColumn (Suc index) cs (displayed @ replicate width (CHR '' ''))
           (if index < sourceColumn then marker + width else marker))
      else displayLoop sourceColumn (Suc index) cs (displayed @ [c])
             (if index < sourceColumn then marker + 1 else marker))"

definition dropCarriageReturn :: "string \<Rightarrow> string" where
  "dropCarriageReturn l = (if l \<noteq> [] \<and> last l = CHR 0x0D then butlast l else l)"

definition underlineLength :: "SourceRange \<Rightarrow> nat \<Rightarrow> nat \<Rightarrow> nat" where
  "underlineLength r lineLength sourceColumn =
     min (if loc_file (range_begin r) = loc_file (range_end r) \<and> loc_line (range_begin r) = loc_line (range_end r) \<and>
             loc_column (range_end r) > loc_column (range_begin r)
          then loc_column (range_end r) - loc_column (range_begin r) else 1)
         (max 1 (lineLength - sourceColumn))"

definition renderSourceExcerpt :: "(string \<Rightarrow> string option) \<Rightarrow> Diagnostic \<Rightarrow> string" where
  "renderSourceExcerpt files d =
     (case diag_range d of
        None \<Rightarrow> []
      | Some r \<Rightarrow>
          if \<not> hasFile (range_begin r) then []
          else if loc_line (range_begin r) = 0 \<or> loc_column (range_begin r) = 0 then []
          else case files (loc_file (range_begin r)) of
            None \<Rightarrow> []
          | Some content \<Rightarrow>
              (case readLine (loc_line (range_begin r)) [] content of
                 None \<Rightarrow> []
               | Some l \<Rightarrow>
                   (let sourceLine = dropCarriageReturn l;
                        sourceColumn = loc_column (range_begin r) - 1 in
                    if sourceColumn > length sourceLine then []
                    else case displayLoop sourceColumn 0 sourceLine [] 0 of
                      (displayedLine, markerColumn) \<Rightarrow>
                        ''  '' @ displayedLine @ [CHR 0x0A] @ ''  '' @ replicate markerColumn (CHR '' '') @
                        ''^'' @ replicate (underlineLength r (length sourceLine) sourceColumn - 1) (CHR ''~''))))"

section \<open>Names\<close>

interpretation severity: named_enum severityName "[Note, Warning, Error]"
proof unfold_locales
  show "x \<in> set [Note, Warning, Error]" for x by (cases x) simp_all
qed (simp add: severityName_def)

interpretation stage: named_enum stageName "[Cli, Preprocessor, Lexer, Parser, Sema, Hir, Codegen, Runtime]"
proof unfold_locales
  show "x \<in> set [Cli, Preprocessor, Lexer, Parser, Sema, Hir, Codegen, Runtime]" for x
    by (cases x) simp_all
qed (simp add: stageName_def)

section \<open>Decimal numbers\<close>

definition is_digit :: "char \<Rightarrow> bool" where
  "is_digit c \<longleftrightarrow> 48 \<le> (of_char c :: nat) \<and> of_char c \<le> (57 :: nat)"

definition read_nat :: "string \<Rightarrow> nat" where
  "read_nat ds = foldl (\<lambda>v d. v * 10 + (of_char d - 48)) 0 ds"

lemma read_nat_snoc: "read_nat (ds @ [d]) = read_nat ds * 10 + (of_char d - 48)"
  by (simp add: read_nat_def)

lemma read_show_nat: "read_nat (show_nat n) = n"
proof (induction n rule: show_nat.induct)
  case (1 n)
  then show ?case
    by (subst show_nat.simps) (auto simp: read_nat_snoc read_nat_def)
qed

lemma show_nat_digits: "\<forall>c \<in> set (show_nat n). is_digit c"
proof (induction n rule: show_nat.induct)
  case (1 n)
  then show ?case by (subst show_nat.simps) (auto simp: is_digit_def)
qed

lemma show_nat_takeWhile:
  "r \<noteq> [] \<Longrightarrow> \<not> is_digit (hd r) \<Longrightarrow> takeWhile is_digit (show_nat n @ r) = show_nat n"
  using show_nat_digits [of n] by (cases r) (simp_all add: takeWhile_append2)

lemma show_nat_inject:
  assumes eq: "show_nat m @ r = show_nat n @ r'"
    and "r \<noteq> []" "\<not> is_digit (hd r)" "r' \<noteq> []" "\<not> is_digit (hd r')"
  shows "m = n \<and> r = r'"
proof -
  have "show_nat m = show_nat n"
    using arg_cong [OF eq, of "takeWhile is_digit"] assms(2-5) by (simp add: show_nat_takeWhile)
  with eq show ?thesis by (metis read_show_nat same_append_eq)
qed

section \<open>The JSON format\<close>

text \<open>Every appending printer starts with what it is given.\<close>

lemma append_out:
  "appendJsonString out v = out @ appendJsonString [] v"
  "appendJsonLocation out loc = out @ appendJsonLocation [] loc"
  "appendJsonRange out rng = out @ appendJsonRange [] rng"
  by (simp_all add: appendJsonString_def appendJsonLocation_def appendJsonRange_def)

lemma not_digit [simp]: "\<not> is_digit (CHR '','')" "\<not> is_digit (CHR 0x7D)"
  by (simp_all add: is_digit_def)

lemma json_location_inject:
  assumes "appendJsonLocation [] a @ r = appendJsonLocation [] b @ r'"
  shows "a = b \<and> r = r'"
proof -
  from assms have f: "loc_file a = loc_file b"
    and l: "show_nat (loc_line a) @ '','' @ [CHR 0x22] @ ''column'' @ [CHR 0x22] @ '':'' @
          show_nat (loc_column a) @ ''}'' @ r =
        show_nat (loc_line b) @ '','' @ [CHR 0x22] @ ''column'' @ [CHR 0x22] @ '':'' @
          show_nat (loc_column b) @ ''}'' @ r'"
    by (auto simp: appendJsonLocation_def append_out(1) [of "_ @ _"] append_out(1) [of "_ # _"]
        dest!: appendJsonString_inject)
  from show_nat_inject [OF l] have "loc_line a = loc_line b"
    and c: "show_nat (loc_column a) @ ''}'' @ r = show_nat (loc_column b) @ ''}'' @ r'"
    by simp_all
  with f show_nat_inject [OF c] show ?thesis by simp
qed

lemma json_range_inject:
  assumes "appendJsonRange [] a @ r = appendJsonRange [] b @ r'"
  shows "a = b \<and> r = r'"
  using assms
  by (auto simp: appendJsonRange_def append_out(2) [of "_ @ _"] append_out(2) [of "_ # _"]
      dest!: json_location_inject)

lemma json_label_inject:
  assumes "jsonLabel a @ r = jsonLabel b @ r'"
  shows "a = b \<and> r = r'"
  using assms
  by (auto simp: jsonLabel_def append_out(1) [of "_ @ _"] append_out(1) [of "_ # _"]
      append_out(3) [of "_ @ _"] append_out(3) [of "_ # _"]
      dest!: appendJsonString_inject json_range_inject)

lemma json_label_head: "\<exists>t. jsonLabel l = CHR 0x7B # t"
  by (simp add: jsonLabel_def append_out(1) [of "_ # _"] append_out(3) [of "_ # _"])

lemma json_label_nonempty [simp]: "jsonLabel l \<noteq> []"
  using json_label_head [of l] by auto

lemma json_labels_inject:
  "jsonLabels a @ CHR '']'' # r = jsonLabels b @ CHR '']'' # r' \<Longrightarrow> a = b \<and> r = r'"
proof (induction a arbitrary: b rule: jsonLabels.induct)
  case 1
  then show ?case
  proof (cases b rule: jsonLabels.cases)
    case (2 l)
    then show ?thesis using "1" json_label_head [of l] by auto
  next
    case (3 l l' ls)
    then show ?thesis using "1" json_label_head [of l] by auto
  qed simp
next
  case (2 l)
  then show ?case using json_label_head [of l]
    by (cases b rule: jsonLabels.cases) (auto dest!: json_label_inject simp: Cons_eq_append_conv)
next
  case (3 l l' ls)
  show ?case
  proof (cases b rule: jsonLabels.cases)
    case 1
    then show ?thesis using "3.prems" json_label_head [of l] by auto
  next
    case (2 m)
    then show ?thesis using "3.prems" by (auto dest!: json_label_inject)
  next
    case b: (3 m m' ms)
    with "3.prems" have "l = m" and "jsonLabels (l' # ls) @ CHR '']'' # r = jsonLabels (m' # ms) @ CHR '']'' # r'"
      by (auto dest!: json_label_inject)
    with "3.IH" [of "m' # ms"] b show ?thesis by simp
  qed
qed

section \<open>The source excerpt\<close>

text \<open>How a line is displayed, without the marker: a function of the line alone.\<close>

definition display_step :: "string \<Rightarrow> char \<Rightarrow> string" where
  "display_step displayed c =
     (if c = CHR 0x09 then displayed @ replicate (4 - length displayed mod 4) (CHR '' '') else displayed @ [c])"

definition display :: "string \<Rightarrow> string" where
  "display l = foldl display_step [] l"

lemma displayLoop_display:
  assumes "if index \<le> k then marker = length displayed else marker = length (foldl display_step [] (take k pre))"
    and "displayed = foldl display_step [] pre" and "index = length pre" and "k \<le> length (pre @ l)"
  shows "displayLoop k index l displayed marker =
     (foldl display_step [] (pre @ l), length (foldl display_step [] (take k (pre @ l))))"
  using assms
proof (induction l arbitrary: index displayed marker pre)
  case Nil
  then show ?case by (auto split: if_splits)
next
  case (Cons c l)
  let ?d = "display_step displayed c"
  let ?m = "if index < k then marker + (length ?d - length displayed) else marker"
  have step: "displayLoop k index (c # l) displayed marker = displayLoop k (Suc index) l ?d ?m"
    by (simp add: display_step_def Let_def)
  have "\<exists>e. ?d = displayed @ e" by (simp add: display_step_def)
  then have grow: "length displayed \<le> length ?d" by auto
  have "displayLoop k (Suc index) l ?d ?m =
     (foldl display_step [] ((pre @ [c]) @ l), length (foldl display_step [] (take k ((pre @ [c]) @ l))))"
    by (rule Cons.IH) (use Cons.prems grow in \<open>auto split: if_splits\<close>)
  with step show ?case by simp
qed

lemma displayLoop_start:
  "k \<le> length l \<Longrightarrow> displayLoop k 0 l [] 0 = (display l, length (display (take k l)))"
  using displayLoop_display [of 0 k 0 "[]" "[]" l] by (simp add: display_def)

lemma display_length: "length l \<le> length (display l)"
proof (induction l rule: rev_induct)
  case (snoc c l)
  have "1 \<le> 4 - n mod 4" for n :: nat by (simp add: Suc_leI)
  with snoc show ?case by (auto simp: display_def display_step_def intro: le_trans [OF _ add_mono])
qed (simp add: display_def)

section \<open>Properties\<close>

text \<open>
  C33. The JSON form of a diagnostic determines it: two diagnostics with the same JSON text
  agree in severity, stage, message, primary range and all labels, whatever characters
  their messages and file names hold.
\<close>

theorem formatJson_injective: "inj formatJson"
proof (rule injI)
  fix a b :: Diagnostic
  assume eq: "formatJson a = formatJson b"
  have out: "appendJsonString (x # xs) v = (x # xs) @ appendJsonString [] v"
    "appendJsonString (xs @ ys) v = (xs @ ys) @ appendJsonString [] v" for x xs ys v
    by (rule append_out(1))+
  from eq have names: "severityName (severity a) = severityName (severity b)"
      "stageName (stage a) = stageName (stage b)" "message a = message b"
    and rest: "(case diag_range a of Some r \<Rightarrow> appendJsonRange [] r | None \<Rightarrow> ''null'') @
        '','' @ [CHR 0x22] @ ''related'' @ [CHR 0x22] @ '':['' @ jsonLabels (labels a) @ '']}'' =
      (case diag_range b of Some r \<Rightarrow> appendJsonRange [] r | None \<Rightarrow> ''null'') @
        '','' @ [CHR 0x22] @ ''related'' @ [CHR 0x22] @ '':['' @ jsonLabels (labels b) @ '']}''"
    by (auto simp: formatJson_def out dest!: appendJsonString_inject)
  have "diag_range a = diag_range b \<and> jsonLabels (labels a) @ '']}'' = jsonLabels (labels b) @ '']}''"
    using rest
    by (auto simp: appendJsonRange_def append_out(2) [of "_ @ _"] append_out(2) [of "_ # _"]
        dest!: json_location_inject split: option.splits)
  then show "a = b"
    using names json_labels_inject by (simp add: severity.name_eq_iff stage.name_eq_iff)
qed

text \<open>
  C35. When the primary location names a readable line and a column of it, the excerpt is
  the displayed line and, below it, a caret exactly under the character at that column (the
  indentation is the displayed width of the text before it, tabs included), followed by an
  underline that stays inside the source line.
\<close>

theorem renderSourceExcerpt_marker:
  assumes "diag_range d = Some r" and "hasFile (range_begin r)"
    and "0 < loc_line (range_begin r)" and "0 < loc_column (range_begin r)"
    and "files (loc_file (range_begin r)) = Some content"
    and "readLine (loc_line (range_begin r)) [] content = Some l"
    and "loc_column (range_begin r) - 1 \<le> length (dropCarriageReturn l)"
  shows "\<exists>u. renderSourceExcerpt files d =
       ''  '' @ display (dropCarriageReturn l) @ [CHR 0x0A] @ ''  '' @
       replicate (length (display (take (loc_column (range_begin r) - 1) (dropCarriageReturn l)))) (CHR '' '') @
       ''^'' @ replicate u (CHR ''~'') \<and>
     loc_column (range_begin r) + u \<le> max (loc_column (range_begin r)) (length (dropCarriageReturn l))"
proof -
  let ?l = "dropCarriageReturn l" and ?k = "loc_column (range_begin r) - 1"
  let ?u = "underlineLength r (length ?l) ?k - 1"
  have "loc_column (range_begin r) + ?u \<le> max (loc_column (range_begin r)) (length ?l)"
    using assms(4) by (auto simp: underlineLength_def)
  moreover have "renderSourceExcerpt files d =
       ''  '' @ display ?l @ [CHR 0x0A] @ ''  '' @ replicate (length (display (take ?k ?l))) (CHR '' '') @
       ''^'' @ replicate ?u (CHR ''~'')"
    using assms displayLoop_start [OF assms(7)] by (simp add: renderSourceExcerpt_def Let_def)
  ultimately show ?thesis by blast
qed

definition sample_location :: "nat \<Rightarrow> SourceLocation" where
  "sample_location c = \<lparr>loc_file = ''a.hs'', loc_line = 2, loc_column = c\<rparr>"

definition sample_diagnostic :: Diagnostic where
  "sample_diagnostic = (diagnostic_error Parser ''bad'')
     \<lparr>diag_range := Some \<lparr>range_begin = sample_location 3, range_end = sample_location 5\<rparr>\<rparr>"

theorem renderSourceExcerpt_marker_witness:
  "\<exists>u. renderSourceExcerpt (\<lambda>f. if f = ''a.hs'' then Some (''x'' @ [CHR 0x0A, CHR 0x09] @ ''abc'') else None)
       sample_diagnostic = ''      abc'' @ [CHR 0x0A] @ ''       ^'' @ replicate u (CHR ''~'') \<and> u < 3"
proof -
  let ?files = "\<lambda>f. if f = ''a.hs'' then Some (''x'' @ [CHR 0x0A, CHR 0x09] @ ''abc'') else None"
  let ?r = "\<lparr>range_begin = sample_location 3, range_end = sample_location 5\<rparr>"
  have "readLine 2 [] (''x'' @ [CHR 0x0A, CHR 0x09] @ ''abc'') = Some (CHR 0x09 # ''abc'')"
    by (simp add: numeral_2_eq_2 getline_def)
  then obtain u where "renderSourceExcerpt ?files sample_diagnostic =
       ''  '' @ display (CHR 0x09 # ''abc'') @ [CHR 0x0A] @ ''  '' @
       replicate (length (display (take 2 (CHR 0x09 # ''abc'')))) (CHR '' '') @ ''^'' @ replicate u (CHR ''~'')"
    and "3 + u \<le> max 3 (length (CHR 0x09 # ''abc''))"
    using renderSourceExcerpt_marker [of sample_diagnostic ?r ?files "''x'' @ [CHR 0x0A, CHR 0x09] @ ''abc''"
        "CHR 0x09 # ''abc''"]
    by (auto simp: sample_diagnostic_def sample_location_def diagnostic_error_def hasFile_def
        dropCarriageReturn_def)
  moreover have "display (CHR 0x09 # ''abc'') = ''    abc''" by code_simp
  moreover have "''  '' @ replicate (length (display (take 2 (CHR 0x09 # ''abc'')))) (CHR '' '') @ t = ''       '' @ t" for t
    by code_simp
  ultimately show ?thesis by (intro exI [of _ u]) simp
qed

end
