(* ===== verification/StandardLibrary.thy ===== *)
theory StandardLibrary
  imports HS_Prelude
begin

text \<open>
  The builtin vocabulary of \<open>include/hitsimple/stdlib/StandardLibrary.h\<close>.  The table behind
  \<open>findBuiltin\<close> and \<open>builtinCallMetadata\<close> is generated from a manifest when the compiler is
  built; it is a parameter of the definitions that consult it, through the record of what they
  read from an entry.
\<close>

datatype (plugins only: size) BuiltinId =
  BNone | BLength | BAlloc | BCalloc | BRealloc | BFree | BMemset | BMemcpy | BMemmove
| BMemcmp | BResizeBytes | BByteSwap | BToF16 | BToF32 | BToF64 | BToF128 | BToI8 | BToI16
| BToI32 | BToI64 | BToU8 | BToU16 | BToU32 | BToU64 | BStrlen | BStrcmp | BStrcpy
| BStrncpy | BStrcat | BStrchr | BGet | BPut | BPrint | BPrintf | BScanf | BFopen
| BFclose | BFget | BFput | BFread | BFwrite | BFprintf | BFscanf | BFflush | BFseek
| BFtell | BFeof | BFerror | BAbs | BMin | BMax | BFAbs | BFSqrt | BFPow | BFSin | BFCos
| BFTan | BFLog | BFExp | BFFloor | BFCeil | BFRound | BIsDigit | BIsAlpha | BIsAlnum
| BIsSpace | BIsLower | BIsUpper | BIsXdigit | BIsBlank | BIsControl | BIsPrint | BIsGraph
| BIsPunct | BToUpper | BToLower | BSrand | BRand | BTimeMs | BClockMs | BExit | BAbort
| BAssert | BPanic | BCount

datatype BuiltinProvider =
  ProviderNone | ProviderSemantic | ProviderIntrinsic | ProviderCoreHs
| ProviderRuntimeBridge | ProviderLibcBridge | ProviderFormatProtocol

datatype BuiltinReturnMode =
  ReturnVoid | ReturnFixed | ReturnArgumentLength | ReturnDynamicLength
| ReturnLeftContext

datatype BuiltinParameterMode =
  ModeView | ModeLView | ModeMemView | ModeMemLView | ModeCStrView | ModeBytesView
| ModeAddr | ModeHandle | ModeBool | ModeI8 | ModeI16 | ModeI32 | ModeI64 | ModeU8
| ModeU16 | ModeU32 | ModeU64 | ModeF16 | ModeF32 | ModeF64 | ModeF128 | ModeInteger
| ModeFloating | ModeSameType | ModeNone | ModeLeftContext | ModeVarargs

definition isViewParameter :: "BuiltinParameterMode \<Rightarrow> bool" where
  "isViewParameter mode \<longleftrightarrow>
     mode = ModeView \<or> mode = ModeLView \<or> mode = ModeMemView \<or> mode = ModeMemLView \<or>
     mode = ModeCStrView \<or> mode = ModeBytesView"

record BuiltinCallMetadata =
  meta_id :: BuiltinId
  meta_provider :: BuiltinProvider
  meta_returnMode :: BuiltinReturnMode
  meta_overloadIndex :: uint16

text \<open>
  What the generated table provides: the parameter modes of a builtin (\<open>None\<close> when the
  identifier has no entry) and its call metadata.
\<close>

record BuiltinTable =
  builtinParameterModes :: "BuiltinId \<Rightarrow> BuiltinParameterMode list option"
  builtinCallMetadata :: "BuiltinId \<Rightarrow> uint16 \<Rightarrow> BuiltinCallMetadata"

end
