(* ===== verification/HIR_Views.thy ===== *)
theory HIR_Views
  imports HS_Prelude
begin

text \<open>
  The View vocabulary of the typed intermediate representation
  (\<open>include/hitsimple/hir/HIR.h\<close> and the first part of \<open>src/hir/HIR.cpp\<close>): the
  enumerations with their printed names, \<open>ViewSemantics\<close> with its constructors and
  predicates, and the resolution of operator spellings to \<open>BinaryOperator\<close>.
\<close>

section \<open>Enumerations\<close>

datatype MemoryStorage = GlobalStorage | LocalStorage | StaticLocal

datatype Linkage = External | Internal

datatype ViewCategory =
  SignedInteger | UnsignedInteger | UntemplatedInteger | Floating | Boolean | Address | Handle
| Bytes | CString | UserTemplate | RawBytes

datatype IntegerInterpretation = NoInterpretation | Signed | Unsigned | RawOnly

datatype ViewLengthKind = Static | Dynamic

datatype StandardOperationKind =
  Legacy | UntemplatedIntegerOp | StandardInteger | StandardBoolean | StandardAddress
| StandardHandle | StandardBytesCompare | StandardCStringCompare | AddressOffset

datatype BinaryOperator =
  UnknownOp | Add | Subtract | Multiply | Divide | Modulo | Power | ShiftLeft | ShiftRight
| BitAnd | BitOr | BitXor | Equal | NotEqual | Less | LessEqual | Greater | GreaterEqual
| LogicalAnd | LogicalOr

datatype AddressOrigin =
  LocalObject | StaticObject | GlobalObject | DynamicAllocation | ExternalObject
| PointerDerived | OpaqueInteger

datatype ConversionKind =
  Identity | IntegerWidth | FloatingConversion | BooleanNormalize | ByteCopy | CStringCopy
| UserTemplateAssignment

datatype LinkageTarget = GlobalTarget | FunctionTarget

datatype AbiValueKind = IntegerAbi | FloatingAbi | PointerAbi | AggregateAbi

datatype FormatArgKind = BytesArg | FloatArg | StringArg

datatype FormatOutputSink = Stdout | FileSink

datatype DynamicByteViewOperation = ResizeBytesView | ByteSwapView

section \<open>Printed names\<close>

definition viewCategoryName :: "ViewCategory \<Rightarrow> string" where
  "viewCategoryName category =
     (case category of
        SignedInteger \<Rightarrow> ''signed-integer'' | UnsignedInteger \<Rightarrow> ''unsigned-integer''
      | UntemplatedInteger \<Rightarrow> ''untemplated-integer'' | Floating \<Rightarrow> ''floating'' | Boolean \<Rightarrow> ''boolean''
      | Address \<Rightarrow> ''address'' | Handle \<Rightarrow> ''handle'' | Bytes \<Rightarrow> ''bytes'' | CString \<Rightarrow> ''cstring''
      | UserTemplate \<Rightarrow> ''user-template'' | RawBytes \<Rightarrow> ''raw-bytes'')"

definition integerInterpretationName :: "IntegerInterpretation \<Rightarrow> string" where
  "integerInterpretationName i =
     (case i of NoInterpretation \<Rightarrow> ''none'' | Signed \<Rightarrow> ''signed'' | Unsigned \<Rightarrow> ''unsigned''
      | RawOnly \<Rightarrow> ''raw-only'')"

definition viewLengthKindName :: "ViewLengthKind \<Rightarrow> string" where
  "viewLengthKindName k = (case k of Static \<Rightarrow> ''static'' | Dynamic \<Rightarrow> ''dynamic'')"

definition standardOperationKindName :: "StandardOperationKind \<Rightarrow> string" where
  "standardOperationKindName k =
     (case k of
        Legacy \<Rightarrow> ''legacy'' | UntemplatedIntegerOp \<Rightarrow> ''untemplated-integer''
      | StandardInteger \<Rightarrow> ''standard-integer'' | StandardBoolean \<Rightarrow> ''standard-bool''
      | StandardAddress \<Rightarrow> ''standard-addr'' | StandardHandle \<Rightarrow> ''standard-handle''
      | StandardBytesCompare \<Rightarrow> ''standard-bytes-compare''
      | StandardCStringCompare \<Rightarrow> ''standard-cstr-compare'' | AddressOffset \<Rightarrow> ''address-offset'')"

definition binaryOperatorName :: "BinaryOperator \<Rightarrow> string" where
  "binaryOperatorName op =
     (case op of
        UnknownOp \<Rightarrow> ''unknown'' | Add \<Rightarrow> ''+'' | Subtract \<Rightarrow> ''-'' | Multiply \<Rightarrow> ''*'' | Divide \<Rightarrow> ''/''
      | Modulo \<Rightarrow> ''%'' | Power \<Rightarrow> ''**'' | ShiftLeft \<Rightarrow> ''<<'' | ShiftRight \<Rightarrow> ''>>'' | BitAnd \<Rightarrow> ''&''
      | BitOr \<Rightarrow> ''|'' | BitXor \<Rightarrow> ''^'' | Equal \<Rightarrow> ''=='' | NotEqual \<Rightarrow> ''!='' | Less \<Rightarrow> ''<''
      | LessEqual \<Rightarrow> ''<='' | Greater \<Rightarrow> ''>'' | GreaterEqual \<Rightarrow> ''>='' | LogicalAnd \<Rightarrow> ''&&''
      | LogicalOr \<Rightarrow> ''||'')"

definition addressOriginName :: "AddressOrigin \<Rightarrow> string" where
  "addressOriginName o' =
     (case o' of
        LocalObject \<Rightarrow> ''local-object'' | StaticObject \<Rightarrow> ''static-object'' | GlobalObject \<Rightarrow> ''global-object''
      | DynamicAllocation \<Rightarrow> ''dynamic-allocation'' | ExternalObject \<Rightarrow> ''external-object''
      | PointerDerived \<Rightarrow> ''pointer-derived'' | OpaqueInteger \<Rightarrow> ''opaque-integer'')"

definition conversionKindName :: "ConversionKind \<Rightarrow> string" where
  "conversionKindName k =
     (case k of
        Identity \<Rightarrow> ''identity'' | IntegerWidth \<Rightarrow> ''integer-width'' | FloatingConversion \<Rightarrow> ''floating''
      | BooleanNormalize \<Rightarrow> ''boolean-normalize'' | ByteCopy \<Rightarrow> ''byte-copy'' | CStringCopy \<Rightarrow> ''cstr-copy''
      | UserTemplateAssignment \<Rightarrow> ''user-template-assignment'')"

definition memoryStorageName :: "MemoryStorage \<Rightarrow> string" where
  "memoryStorageName s =
     (case s of GlobalStorage \<Rightarrow> ''global'' | LocalStorage \<Rightarrow> ''local'' | StaticLocal \<Rightarrow> ''static'')"

definition linkageName :: "Linkage \<Rightarrow> string" where
  "linkageName l = (case l of External \<Rightarrow> ''external'' | Internal \<Rightarrow> ''internal'')"

definition abiValueKindName :: "AbiValueKind \<Rightarrow> string" where
  "abiValueKindName k =
     (case k of IntegerAbi \<Rightarrow> ''integer'' | FloatingAbi \<Rightarrow> ''floating'' | PointerAbi \<Rightarrow> ''pointer''
      | AggregateAbi \<Rightarrow> ''aggregate'')"

definition dynamicByteViewOperationName :: "DynamicByteViewOperation \<Rightarrow> string" where
  "dynamicByteViewOperationName k =
     (case k of ResizeBytesView \<Rightarrow> ''resize_bytes'' | ByteSwapView \<Rightarrow> ''byte_swap'')"

definition formatOutputSinkName :: "FormatOutputSink \<Rightarrow> string" where
  "formatOutputSinkName k = (case k of Stdout \<Rightarrow> ''stdout'' | FileSink \<Rightarrow> ''file'')"

section \<open>View semantics\<close>

record ViewSemantics =
  category :: ViewCategory
  integerInterpretation :: IntegerInterpretation
  lengthKind :: ViewLengthKind
  staticByteLength :: size_t
  templateName :: string
  isAddressable :: bool
  isMutableLValue :: bool

record AddressFacts =
  origin :: AddressOrigin
  knownExtent :: "size_t option"
  knownAlignment :: "size_t option"
  isBaseAddress :: bool

record ConversionPlan =
  plan_kind :: ConversionKind
  plan_source :: ViewSemantics
  plan_destination :: ViewSemantics

record ViewOffsetBounds =
  sourceByteLength :: size_t
  resultByteLength :: size_t

definition staticViewSemantics ::
  "ViewCategory \<Rightarrow> IntegerInterpretation \<Rightarrow> size_t \<Rightarrow> string \<Rightarrow> bool \<Rightarrow> bool \<Rightarrow> ViewSemantics" where
  "staticViewSemantics cat interpretation len tmpl addressable mutable =
     \<lparr>category = cat, integerInterpretation = interpretation, lengthKind = Static,
      staticByteLength = len, templateName = tmpl, isAddressable = addressable,
      isMutableLValue = mutable\<rparr>"

definition dynamicViewSemantics :: "ViewCategory \<Rightarrow> string \<Rightarrow> ViewSemantics" where
  "dynamicViewSemantics cat tmpl =
     \<lparr>category = cat, integerInterpretation = NoInterpretation, lengthKind = Dynamic,
      staticByteLength = 0, templateName = tmpl, isAddressable = False, isMutableLValue = False\<rparr>"

definition viewSemanticsForTemplate ::
  "string \<Rightarrow> size_t \<Rightarrow> bool \<Rightarrow> bool \<Rightarrow> IntegerInterpretation \<Rightarrow> ViewSemantics" where
  "viewSemanticsForTemplate tmpl len addressable mutable untemplatedInterpretation =
     (if tmpl \<in> {''i8'', ''i16'', ''i32'', ''i64''} then
        staticViewSemantics SignedInteger Signed len tmpl addressable mutable
      else if tmpl \<in> {''u8'', ''u16'', ''u32'', ''u64''} then
        staticViewSemantics UnsignedInteger Unsigned len tmpl addressable mutable
      else if tmpl \<in> {''f16'', ''f32'', ''f64'', ''f128''} then
        staticViewSemantics Floating NoInterpretation len tmpl addressable mutable
      else if tmpl = ''bool'' then
        staticViewSemantics Boolean NoInterpretation len tmpl addressable mutable
      else if tmpl = ''addr'' then
        staticViewSemantics Address NoInterpretation len tmpl addressable mutable
      else if tmpl = ''handle'' then
        staticViewSemantics Handle NoInterpretation len tmpl addressable mutable
      else if tmpl = ''bytes'' then
        staticViewSemantics Bytes NoInterpretation len tmpl addressable mutable
      else if tmpl = ''cstr'' then
        staticViewSemantics CString NoInterpretation len tmpl addressable mutable
      else if tmpl = [] \<or> tmpl = ''none'' then
        staticViewSemantics UntemplatedInteger untemplatedInterpretation len [] addressable mutable
      else staticViewSemantics UserTemplate NoInterpretation len tmpl addressable mutable)"

definition booleanTestResultSemantics :: ViewSemantics where
  "booleanTestResultSemantics = staticViewSemantics Boolean NoInterpretation 1 ''bool'' False False"

definition isFixedView :: "ViewSemantics \<Rightarrow> bool" where
  "isFixedView s \<longleftrightarrow> lengthKind s = Static"

definition isIntegerNumeric :: "ViewSemantics \<Rightarrow> bool" where
  "isIntegerNumeric s \<longleftrightarrow>
     category s = SignedInteger \<or> category s = UnsignedInteger \<or> category s = UntemplatedInteger"

definition isFloatingNumeric :: "ViewSemantics \<Rightarrow> bool" where
  "isFloatingNumeric s \<longleftrightarrow> category s = Floating"

definition isBooleanTestable :: "ViewSemantics \<Rightarrow> bool" where
  "isBooleanTestable s \<longleftrightarrow> lengthKind s = Dynamic \<or> staticByteLength s \<noteq> 0"

definition isAddressValue :: "ViewSemantics \<Rightarrow> bool" where
  "isAddressValue s \<longleftrightarrow> category s = Address"

definition isRawOnly :: "ViewSemantics \<Rightarrow> bool" where
  "isRawOnly s \<longleftrightarrow> integerInterpretation s = RawOnly"

lemmas view_defs [view_simps] =
  staticViewSemantics_def dynamicViewSemantics_def booleanTestResultSemantics_def
  isFixedView_def isIntegerNumeric_def isFloatingNumeric_def isBooleanTestable_def
  isAddressValue_def isRawOnly_def

definition standardTemplateByteLength :: "string \<Rightarrow> size_t option" where
  "standardTemplateByteLength tmpl =
     (if tmpl = ''i8'' \<or> tmpl = ''u8'' then Some 1
      else if tmpl = ''i16'' \<or> tmpl = ''u16'' \<or> tmpl = ''f16'' then Some 2
      else if tmpl = ''i32'' \<or> tmpl = ''u32'' \<or> tmpl = ''f32'' then Some 4
      else if tmpl = ''i64'' \<or> tmpl = ''u64'' \<or> tmpl = ''f64'' then Some 8
      else if tmpl = ''f128'' then Some 16
      else if tmpl = ''bool'' then Some 1
      else None)"

section \<open>Operator spellings\<close>

definition binaryOperatorSuffix :: "string \<Rightarrow> string" where
  "binaryOperatorSuffix op =
     (if \<not> starts_with op (CHR ''%'') then op
      else case find_last_of_all op ''duf'' of
        None \<Rightarrow> op
      | Some marker \<Rightarrow> if marker + 1 \<ge> length op then op else drop (marker + 1) op)"

definition binaryOperatorTable :: "string \<Rightarrow> BinaryOperator" where
  "binaryOperatorTable op =
     (if op = ''+'' then Add else if op = ''-'' then Subtract else if op = ''*'' then Multiply
      else if op = ''/'' then Divide else if op = ''%'' then Modulo else if op = ''**'' then Power
      else if op = ''<<'' then ShiftLeft else if op = ''>>'' then ShiftRight
      else if op = ''&'' then BitAnd else if op = ''|'' then BitOr else if op = ''^'' then BitXor
      else if op = ''=='' then Equal else if op = ''!='' then NotEqual else if op = ''<'' then Less
      else if op = ''<='' then LessEqual else if op = ''>'' then Greater
      else if op = ''>='' then GreaterEqual else if op = ''&&'' then LogicalAnd
      else if op = ''||'' then LogicalOr else UnknownOp)"

definition binaryOperatorFor :: "string \<Rightarrow> BinaryOperator" where
  "binaryOperatorFor op = binaryOperatorTable (binaryOperatorSuffix op)"

definition isComparisonOperation :: "BinaryOperator \<Rightarrow> bool" where
  "isComparisonOperation op \<longleftrightarrow> op \<in> {Equal, NotEqual, Less, LessEqual, Greater, GreaterEqual}"

definition isBooleanResultOperation :: "BinaryOperator \<Rightarrow> bool" where
  "isBooleanResultOperation op \<longleftrightarrow> isComparisonOperation op \<or> op = LogicalAnd \<or> op = LogicalOr"

section \<open>Printed names are different\<close>

interpretation category_names: named_enum viewCategoryName
  "[SignedInteger, UnsignedInteger, UntemplatedInteger, Floating, Boolean, Address, Handle,
    Bytes, CString, UserTemplate, RawBytes]"
proof (unfold_locales, goal_cases)
  case (1 x)
  show ?case by (cases x) simp_all
qed (simp add: viewCategoryName_def)

interpretation interpretation_names: named_enum integerInterpretationName
  "[NoInterpretation, Signed, Unsigned, RawOnly]"
proof (unfold_locales, goal_cases)
  case (1 x)
  show ?case by (cases x) simp_all
qed (simp add: integerInterpretationName_def)

interpretation length_kind_names: named_enum viewLengthKindName
  "[Static, Dynamic]"
proof (unfold_locales, goal_cases)
  case (1 x)
  show ?case by (cases x) simp_all
qed (simp add: viewLengthKindName_def)

interpretation operation_kind_names: named_enum standardOperationKindName
  "[Legacy, UntemplatedIntegerOp, StandardInteger, StandardBoolean, StandardAddress,
    StandardHandle, StandardBytesCompare, StandardCStringCompare, AddressOffset]"
proof (unfold_locales, goal_cases)
  case (1 x)
  show ?case by (cases x) simp_all
qed (simp add: standardOperationKindName_def)

interpretation operator_names: named_enum binaryOperatorName
  "[UnknownOp, Add, Subtract, Multiply, Divide, Modulo, Power, ShiftLeft, ShiftRight,
    BitAnd, BitOr, BitXor, Equal, NotEqual, Less, LessEqual, Greater, GreaterEqual,
    LogicalAnd, LogicalOr]"
proof (unfold_locales, goal_cases)
  case (1 x)
  show ?case by (cases x) simp_all
qed (simp add: binaryOperatorName_def)

interpretation origin_names: named_enum addressOriginName
  "[LocalObject, StaticObject, GlobalObject, DynamicAllocation, ExternalObject,
    PointerDerived, OpaqueInteger]"
proof (unfold_locales, goal_cases)
  case (1 x)
  show ?case by (cases x) simp_all
qed (simp add: addressOriginName_def)

interpretation conversion_names: named_enum conversionKindName
  "[Identity, IntegerWidth, FloatingConversion, BooleanNormalize, ByteCopy, CStringCopy,
    UserTemplateAssignment]"
proof (unfold_locales, goal_cases)
  case (1 x)
  show ?case by (cases x) simp_all
qed (simp add: conversionKindName_def)

interpretation storage_names: named_enum memoryStorageName
  "[GlobalStorage, LocalStorage, StaticLocal]"
proof (unfold_locales, goal_cases)
  case (1 x)
  show ?case by (cases x) simp_all
qed (simp add: memoryStorageName_def)

interpretation linkage_names: named_enum linkageName
  "[External, Internal]"
proof (unfold_locales, goal_cases)
  case (1 x)
  show ?case by (cases x) simp_all
qed (simp add: linkageName_def)

interpretation abi_kind_names: named_enum abiValueKindName
  "[IntegerAbi, FloatingAbi, PointerAbi, AggregateAbi]"
proof (unfold_locales, goal_cases)
  case (1 x)
  show ?case by (cases x) simp_all
qed (simp add: abiValueKindName_def)

interpretation byte_view_names: named_enum dynamicByteViewOperationName
  "[ResizeBytesView, ByteSwapView]"
proof (unfold_locales, goal_cases)
  case (1 x)
  show ?case by (cases x) simp_all
qed (simp add: dynamicByteViewOperationName_def)

interpretation sink_names: named_enum formatOutputSinkName
  "[Stdout, FileSink]"
proof (unfold_locales, goal_cases)
  case (1 x)
  show ?case by (cases x) simp_all
qed (simp add: formatOutputSinkName_def)

section \<open>Resolution of spellings\<close>

lemma binaryOperatorTable_name:
  "op \<noteq> UnknownOp \<Longrightarrow> binaryOperatorTable s = op \<longleftrightarrow> s = binaryOperatorName op"
  by (cases op) (simp_all add: binaryOperatorTable_def binaryOperatorName_def)

lemma operator_name_marker_free: "op \<noteq> UnknownOp \<Longrightarrow> set (binaryOperatorName op) \<inter> set ''duf'' = {}"
  by (cases op) (simp_all add: binaryOperatorName_def)

lemma operator_name_nonempty: "binaryOperatorName op \<noteq> []"
  by (cases op) (simp_all add: binaryOperatorName_def)

lemma suffix_plain: "op \<noteq> UnknownOp \<Longrightarrow> binaryOperatorSuffix (binaryOperatorName op) = binaryOperatorName op"
proof -
  assume "op \<noteq> UnknownOp"
  then have "\<forall>j < length (binaryOperatorName op). binaryOperatorName op ! j \<notin> set ''duf''"
    using operator_name_marker_free nth_mem by blast
  then have "find_last_of_all (binaryOperatorName op) ''duf'' = None"
    by (simp add: find_last_of_all_def last_index_None del: set_simps)
  then show ?thesis by (simp add: binaryOperatorSuffix_def)
qed

text \<open>The suffix of a typed operator: whatever the width, the text after the last marker.\<close>

lemma suffix_typed:
  assumes "m \<in> set ''duf''" and "set t \<inter> set ''duf'' = {}" and "t \<noteq> []"
  shows "binaryOperatorSuffix (''%'' @ w @ [m] @ t) = t"
proof -
  let ?s = "''%'' @ w @ [m] @ t" and ?k = "Suc (length w)"
  have k: "?s ! ?k = m" by (simp add: nth_append)
  have above: "?s ! j \<in> set t" if "?k < j" "j < length ?s" for j
  proof -
    have "j - length (''%'' @ w @ [m]) < length t" using that by simp
    moreover have "?s = (''%'' @ w @ [m]) @ t" by simp
    then have "?s ! j = t ! (j - length (''%'' @ w @ [m]))"
      using that by (simp only: nth_append) simp
    ultimately show ?thesis by simp
  qed
  have "find_last_of_all ?s ''duf'' = Some ?k"
    unfolding find_last_of_all_def
  proof (rule last_index_eq_Some)
    show "?s ! ?k \<in> set ''duf''" using k assms(1) by simp
    show "?s ! j \<notin> set ''duf''" if "?k < j" "j < length ?s" for j
      using above [OF that] assms(2) by blast
  qed simp_all
  then show ?thesis using assms(3) by (simp add: binaryOperatorSuffix_def starts_with_def del: set_simps)
qed

section \<open>Properties\<close>

text \<open>
  Operator resolution inverts printing: the printed spelling of an operator, alone or
  after any typed prefix (a percent sign, a width, a marker \<open>d\<close>, \<open>u\<close> or \<open>f\<close>), resolves to
  that operator, and no other marker-free suffix does.
\<close>

theorem binaryOperatorFor_spelling:
  assumes "op \<noteq> UnknownOp" and "m \<in> set ''duf''" and "set t \<inter> set ''duf'' = {}" and "t \<noteq> []"
  shows "binaryOperatorFor (binaryOperatorName op) = op \<and>
    (binaryOperatorFor (''%'' @ w @ [m] @ t) = op \<longleftrightarrow> t = binaryOperatorName op)"
  using assms suffix_typed [OF assms(2-4), of w]
  by (simp add: binaryOperatorFor_def binaryOperatorTable_name suffix_plain)

theorem binaryOperatorFor_spelling_witness:
  "binaryOperatorFor ''%8u>>'' = ShiftRight"
  using binaryOperatorFor_spelling [of ShiftRight "CHR ''u''" "''>>''" "''8''"]
  by (simp add: binaryOperatorName_def)

end
