(* ===== verification/HIR_Syntax.thy ===== *)
theory HIR_Syntax
  imports Diagnostic StandardLibrary HIR_Views
begin

text \<open>
  The node classes of the intermediate representation (\<open>include/hitsimple/hir/HIR.h\<close>).
  A node is its base part (source range and result View for expressions, source range and
  static-initialisation binding for statements) and one constructor per C++ class with the
  fields of the class in declaration order; fields that several store classes share are one
  record.  A \<open>unique_ptr\<close> is an \<open>option\<close> where the code tests it for null; everywhere
  else the code dereferences it, and the model holds the node itself.
\<close>

section \<open>Data of the node classes\<close>

record ExprBase =
  expr_range :: "SourceRange option"
  expr_result :: ViewSemantics

record StmtBase =
  stmt_range :: "SourceRange option"
  staticInitializationBinding :: string

record VariableData =
  var_name :: string
  var_bindingName :: string
  var_byteLength :: size_t
  var_storage :: MemoryStorage
  var_offset :: size_t
  var_templateName :: string
  var_addressFacts :: "AddressFacts option"

record AddressOfData =
  addr_name :: string
  addr_bindingName :: string
  addr_targetByteLength :: size_t
  addr_storage :: MemoryStorage
  addr_offset :: size_t
  addr_byteLength :: size_t
  addr_facts :: AddressFacts

record BinaryData =
  bin_op :: string
  bin_byteLength :: size_t
  bin_operationKind :: StandardOperationKind
  bin_operation :: BinaryOperator
  bin_typedIntegerInterpretation :: IntegerInterpretation
  bin_addressFacts :: "AddressFacts option"
  bin_viewOffsetBounds :: "ViewOffsetBounds option"

record CallData =
  call_callee :: string
  call_byteLength :: size_t
  call_isFloating :: bool
  call_builtin :: BuiltinId
  call_provider :: BuiltinProvider
  call_returnMode :: BuiltinReturnMode
  call_overloadIndex :: uint16
  call_formatArgumentKinds :: "FormatArgKind list"
  call_templateName :: string
  call_argumentPlans :: "ConversionPlan list"
  call_addressFacts :: "AddressFacts option"

record StoreTarget =
  store_target :: string
  store_bindingName :: string
  store_targetByteLength :: size_t
  store_storage :: MemoryStorage
  store_offset :: size_t

record LocalMemoryData =
  local_name :: string
  local_bindingName :: string
  local_byteLength :: size_t
  local_storage :: MemoryStorage
  local_templateName :: string

record MultiReturnTarget =
  mr_name :: string
  mr_bindingName :: string
  mr_byteLength :: size_t
  mr_storage :: MemoryStorage
  mr_returnIndex :: size_t

record InputTarget =
  in_name :: string
  in_bindingName :: string
  in_byteLength :: size_t
  in_storage :: MemoryStorage
  in_offset :: size_t
  in_templateName :: string

record StringCopySource =
  copy_source :: string
  copy_sourceBindingName :: string
  copy_sourceByteLength :: size_t
  copy_sourceStorage :: MemoryStorage
  copy_sourceOffset :: size_t

record CallStmtData =
  cs_callee :: string
  cs_builtin :: BuiltinId
  cs_provider :: BuiltinProvider
  cs_returnMode :: BuiltinReturnMode
  cs_overloadIndex :: uint16
  cs_formatArgumentKinds :: "FormatArgKind list"

section \<open>Expressions, statements and blocks\<close>

datatype (plugins only: size) Expr = Expr ExprBase ExprNode
and ExprNode =
    IntegerLiteral string size_t
  | CharacterLiteral string size_t
  | StringLiteral string size_t
  | FloatLiteral string size_t
  | VariableRef VariableData
  | CapturedViewRef string
  | AddressOfExpr AddressOfData
  | DerefExpr Expr size_t
  | BooleanTestExpr Expr
  | BinaryExpr Expr Expr BinaryData
  | UnaryExpr string Expr size_t
  | TernaryExpr Expr Expr Expr size_t
  | UnsignedExpr "Expr option" size_t
  | IntegerCastExpr Expr size_t bool
  | TemplateViewExpr Expr size_t string bool
  | UserTemplateOpCallExpr string "Expr list" size_t string
  | FloatBinaryExpr Expr string Expr size_t
  | FloatCompareExpr Expr string Expr size_t
  | ToFloatExpr Expr size_t bool bool
  | ToIntExpr Expr size_t size_t bool
  | UserTemplateFormatCallExpr string Expr FormatOutputSink "Expr option" size_t
  | CallExpr "Expr list" CallData
  | DynamicByteViewExpr DynamicByteViewOperation Expr "Expr option"
  | ByteSwapExpr Expr size_t
  | AssignmentExpr "Stmt list" "Expr option" size_t
and Stmt = Stmt StmtBase StmtNode
and StmtNode =
    CaptureView string "Expr option"
  | StatementList "Stmt list"
  | LocalMemory LocalMemoryData
  | BindingRebind StoreTarget "Expr option"
  | IntegerStore StoreTarget Expr "ConversionPlan option"
  | FloatStore StoreTarget Expr "ConversionPlan option"
  | ViewCopyStore StoreTarget Expr ConversionPlan
  | StringStore StoreTarget string
  | StringCopyStore StoreTarget "Expr option" StringCopySource
  | BoolStore StoreTarget Expr
  | PointerStore Expr size_t Expr
  | CallStmt "Expr list" CallStmtData
  | UserTemplateOpCall string "Expr list" size_t
  | UserTemplateFormatCall string Expr FormatOutputSink "Expr option" size_t
  | MultiReturnCallStore string "Expr list" "MultiReturnTarget list"
  | InputCallStore string "Expr option" Expr "InputTarget list" "InputTarget list" BuiltinId
  | ReturnStmt "Expr list" "ConversionPlan list"
  | IfStmt Expr Block "Block option"
  | WhileStmt Expr Block
  | ForStmt "Stmt option" "Expr option" "Stmt list" Block
  | BreakStmt
  | ContinueStmt
  | GotoStmt string
  | LabelStmt string Stmt
  | ThrowStmt "Stmt option" string size_t string size_t
  | TryCatchStmt Block string string string size_t Block
and Block = Block "Stmt list" "SourceRange option"

primrec exprBase :: "Expr \<Rightarrow> ExprBase" where
  "exprBase (Expr b n) = b"

primrec exprNode :: "Expr \<Rightarrow> ExprNode" where
  "exprNode (Expr b n) = n"

definition exprResult :: "Expr \<Rightarrow> ViewSemantics" where
  "exprResult e = expr_result (exprBase e)"

lemma exprResult_Expr [simp]: "exprResult (Expr b n) = expr_result b"
  by (simp add: exprResult_def)

section \<open>Declarations and translation units\<close>

datatype AbiType = AbiType
  (abi_kind: AbiValueKind) (abi_byteLength: size_t) (abi_isSigned: bool) (abi_aggregateName: string)
  (abi_alignment: size_t) (abi_elementCount: size_t) (abi_aggregateFields: "AbiType list")
  (abi_aggregateFieldOffsets: "size_t list")

record FunctionAbiSignature =
  sig_parameterTypes :: "AbiType list"
  sig_returnTypes :: "AbiType list"
  sig_isCCompatibility :: bool

record LinkageOverride =
  lo_symbolName :: string
  lo_target :: LinkageTarget
  lo_linkage :: Linkage

record AbiOverride =
  ao_symbolName :: string
  ao_target :: LinkageTarget
  ao_objectType :: "AbiType option"
  ao_functionSignature :: "FunctionAbiSignature option"

record GlobalMemory =
  global_name :: string
  global_bindingName :: string
  global_range :: "SourceRange option"
  global_byteLength :: size_t
  global_isExtern :: bool
  global_linkage :: Linkage
  global_abiType :: "AbiType option"

record StructMemberLayout =
  member_name :: string
  member_byteLength :: size_t
  member_offset :: size_t

record StructLayout =
  layout_name :: string
  layout_members :: "StructMemberLayout list"
  layout_byteLength :: size_t

record ViewMember =
  vm_name :: string
  vm_byteLength :: size_t
  vm_offset :: size_t
  vm_templateName :: string

record ViewTemplate =
  vt_name :: string
  vt_members :: "ViewMember list"
  vt_byteLength :: size_t

record ImplOpParam =
  iop_name :: string
  iop_templateName :: string
  iop_isMutable :: bool

record ImplOpBinding =
  io_implTemplate :: string
  io_op :: string
  io_symbolName :: string
  io_params :: "ImplOpParam list"
  io_returnByteLengths :: "size_t list"

record Parameter =
  param_name :: string
  param_bindingName :: string
  param_range :: "SourceRange option"
  param_byteLength :: size_t
  param_valueSemantics :: ViewSemantics
  param_viewIsCopy :: bool

record ExternFunction =
  ef_name :: string
  ef_parameterByteLengths :: "size_t list"
  ef_returnByteLengths :: "size_t list"
  ef_abiSignature :: "FunctionAbiSignature option"

record Function =
  fn_name :: string
  fn_range :: "SourceRange option"
  fn_parameters :: "Parameter list"
  fn_returnByteLengths :: "size_t list"
  fn_body :: Block
  fn_linkage :: Linkage
  fn_abiSignature :: "FunctionAbiSignature option"
  fn_usesViewAbi :: bool
  fn_viewResultByteLength :: size_t

record TranslationUnit =
  tu_globals :: "GlobalMemory list"
  tu_structs :: "StructLayout list"
  tu_viewTemplates :: "ViewTemplate list"
  tu_implOps :: "ImplOpBinding list"
  tu_externFunctions :: "ExternFunction list"
  tu_functions :: "Function list"
  tu_globalInit :: "Block option"

end
