(* ===== verification/HIR_Tree.thy ===== *)
theory HIR_Tree
  imports HIR_Syntax
begin

text \<open>
  The tree structure of the intermediate representation, independent of any pass: the
  immediate children of a node, the nodes reachable from a list of statements, and an
  induction rule over children.  Passes over the tree are compared with reachability.
\<close>

section \<open>Children\<close>

abbreviation opt_list :: "'a option \<Rightarrow> 'a list" where
  "opt_list x \<equiv> (case x of None \<Rightarrow> [] | Some y \<Rightarrow> [y])"

primrec blockStmts :: "Block \<Rightarrow> Stmt list" where
  "blockStmts (Block ss r) = ss"

primrec exprExprs :: "ExprNode \<Rightarrow> Expr list" where
  "exprExprs (IntegerLiteral v l) = []"
| "exprExprs (CharacterLiteral v l) = []"
| "exprExprs (StringLiteral v l) = []"
| "exprExprs (FloatLiteral v l) = []"
| "exprExprs (VariableRef d) = []"
| "exprExprs (CapturedViewRef c) = []"
| "exprExprs (AddressOfExpr d) = []"
| "exprExprs (DerefExpr e l) = [e]"
| "exprExprs (BooleanTestExpr e) = [e]"
| "exprExprs (BinaryExpr a b d) = [a, b]"
| "exprExprs (UnaryExpr op e l) = [e]"
| "exprExprs (TernaryExpr c t e l) = [c, t, e]"
| "exprExprs (UnsignedExpr e l) = opt_list e"
| "exprExprs (IntegerCastExpr e l s) = [e]"
| "exprExprs (TemplateViewExpr e l t a) = [e]"
| "exprExprs (UserTemplateOpCallExpr c es l t) = es"
| "exprExprs (FloatBinaryExpr a op b l) = [a, b]"
| "exprExprs (FloatCompareExpr a op b l) = [a, b]"
| "exprExprs (ToFloatExpr e l u f) = [e]"
| "exprExprs (ToIntExpr e f l u) = [e]"
| "exprExprs (UserTemplateFormatCallExpr c v s f l) = v # opt_list f"
| "exprExprs (CallExpr es d) = es"
| "exprExprs (DynamicByteViewExpr op s r) = s # opt_list r"
| "exprExprs (ByteSwapExpr e l) = [e]"
| "exprExprs (AssignmentExpr ss r l) = opt_list r"

definition exprStmts :: "ExprNode \<Rightarrow> Stmt list" where
  "exprStmts n = (case n of AssignmentExpr ss r l \<Rightarrow> ss | _ \<Rightarrow> [])"

primrec stmtExprs :: "StmtNode \<Rightarrow> Expr list" where
  "stmtExprs (CaptureView c e) = opt_list e"
| "stmtExprs (StatementList ss) = []"
| "stmtExprs (LocalMemory d) = []"
| "stmtExprs (BindingRebind t e) = opt_list e"
| "stmtExprs (IntegerStore t e p) = [e]"
| "stmtExprs (FloatStore t e p) = [e]"
| "stmtExprs (ViewCopyStore t e p) = [e]"
| "stmtExprs (StringStore t v) = []"
| "stmtExprs (StringCopyStore t e s) = opt_list e"
| "stmtExprs (BoolStore t e) = [e]"
| "stmtExprs (PointerStore a l e) = [a, e]"
| "stmtExprs (CallStmt es d) = es"
| "stmtExprs (UserTemplateOpCall c es l) = es"
| "stmtExprs (UserTemplateFormatCall c v s f l) = v # opt_list f"
| "stmtExprs (MultiReturnCallStore c es ts) = es"
| "stmtExprs (InputCallStore c f fmt cts sts b) = opt_list f @ [fmt]"
| "stmtExprs (ReturnStmt es ps) = es"
| "stmtExprs (IfStmt c t e) = [c]"
| "stmtExprs (WhileStmt c b) = [c]"
| "stmtExprs (ForStmt i c p b) = opt_list c"
| "stmtExprs BreakStmt = []"
| "stmtExprs ContinueStmt = []"
| "stmtExprs (GotoStmt l) = []"
| "stmtExprs (LabelStmt l s) = []"
| "stmtExprs (ThrowStmt s st sn tt tn) = []"
| "stmtExprs (TryCatchStmt t en eb et el c) = []"

definition stmtStmts :: "StmtNode \<Rightarrow> Stmt list" where
  "stmtStmts n =
     (case n of
        StatementList ss \<Rightarrow> ss
      | IfStmt c t e \<Rightarrow> blockStmts t @ (case e of None \<Rightarrow> [] | Some b \<Rightarrow> blockStmts b)
      | WhileStmt c b \<Rightarrow> blockStmts b
      | ForStmt i c p b \<Rightarrow> opt_list i @ p @ blockStmts b
      | LabelStmt l s \<Rightarrow> [s]
      | ThrowStmt s st sn tt tn \<Rightarrow> opt_list s
      | TryCatchStmt t en eb et el c \<Rightarrow> blockStmts t @ blockStmts c
      | _ \<Rightarrow> [])"

section \<open>Reachability\<close>

inductive reach_expr :: "Stmt list \<Rightarrow> Expr \<Rightarrow> bool" and reach_stmt :: "Stmt list \<Rightarrow> Stmt \<Rightarrow> bool"
  for roots :: "Stmt list" where
  reach_root: "s \<in> set roots \<Longrightarrow> reach_stmt roots s"
| reach_ee: "reach_expr roots (Expr b n) \<Longrightarrow> e \<in> set (exprExprs n) \<Longrightarrow> reach_expr roots e"
| reach_es: "reach_expr roots (Expr b n) \<Longrightarrow> s \<in> set (exprStmts n) \<Longrightarrow> reach_stmt roots s"
| reach_se: "reach_stmt roots (Stmt b m) \<Longrightarrow> e \<in> set (stmtExprs m) \<Longrightarrow> reach_expr roots e"
| reach_ss: "reach_stmt roots (Stmt b m) \<Longrightarrow> s \<in> set (stmtStmts m) \<Longrightarrow> reach_stmt roots s"

section \<open>Induction over children\<close>

lemma size_list_member: "x \<in> set xs \<Longrightarrow> f x < size_list f xs"
  by (induction xs) auto

lemma size_block: "s \<in> set (blockStmts b) \<Longrightarrow> size s < size b"
  by (cases b) (auto dest: size_list_member [of _ _ size])

lemma size_exprExprs: "e \<in> set (exprExprs n) \<Longrightarrow> size e < size n"
  by (cases n) (auto dest: size_list_member [of _ _ size] split: option.splits)

lemma size_exprStmts: "s \<in> set (exprStmts n) \<Longrightarrow> size s < size n"
  by (cases n) (auto simp: exprStmts_def dest: size_list_member [of _ _ size])

lemma size_stmtExprs: "e \<in> set (stmtExprs n) \<Longrightarrow> size e < size n"
  by (cases n) (auto dest: size_list_member [of _ _ size] split: option.splits)

lemma size_stmtStmts: "s \<in> set (stmtStmts n) \<Longrightarrow> size s < size n"
  by (cases n) (auto simp: stmtStmts_def dest: size_list_member [of _ _ size] size_block split: option.splits)

lemma children_induct:
  assumes expr: "\<And>b n. (\<And>e. e \<in> set (exprExprs n) \<Longrightarrow> P e) \<Longrightarrow> (\<And>s. s \<in> set (exprStmts n) \<Longrightarrow> Q s) \<Longrightarrow> P (Expr b n)"
    and stmt: "\<And>b n. (\<And>e. e \<in> set (stmtExprs n) \<Longrightarrow> P e) \<Longrightarrow> (\<And>s. s \<in> set (stmtStmts n) \<Longrightarrow> Q s) \<Longrightarrow> Q (Stmt b n)"
  shows "P e" and "Q s"
proof -
  have "(\<forall>e. size e < k \<longrightarrow> P e) \<and> (\<forall>s. size s < k \<longrightarrow> Q s)" for k
  proof (induction k)
    case (Suc k)
    have "P e" if lt: "size e < Suc k" for e
    proof (cases e)
      case (Expr b n)
      with lt have "size n < k" by simp
      with Suc show ?thesis unfolding Expr
        by (intro expr) (auto dest!: size_exprExprs size_exprStmts intro: less_trans)
    qed
    moreover have "Q s" if lt: "size s < Suc k" for s
    proof (cases s)
      case (Stmt b n)
      with lt have "size n < k" by simp
      with Suc show ?thesis unfolding Stmt
        by (intro stmt) (auto dest!: size_stmtExprs size_stmtStmts intro: less_trans)
    qed
    ultimately show ?case by blast
  qed simp
  then show "P e" and "Q s" by blast+
qed

end
