(* ===== verification/HIR_Construct.thy ===== *)
theory HIR_Construct
  imports HIR_Tree Literal
begin

text \<open>
  The constructors of the node classes (\<open>src/hir/HIR.cpp\<close>): which fields are derived from
  the result View, and the facts that allocation calls and address arithmetic carry.  The first
  argument of a constructor is the source range that is active on the thread (the value of
  \<open>activeSourceRange\<close>).  Reading through a null operand pointer is the error \<open>NullOperand\<close>.
\<close>

section \<open>Facts read from operands\<close>

datatype hir_error = NullOperand

lemma exprNode_size: "e' \<in> set (exprExprs (exprNode e)) \<Longrightarrow> size e' < size e"
  by (cases e) (auto dest: size_exprExprs)

function staticAllocationExtent :: "Expr \<Rightarrow> hir_error + size_t option" where
  "staticAllocationExtent e =
     (case exprNode e of
        CallExpr arguments d \<Rightarrow>
          Inr (if call_builtin d = BLength \<and> length arguments = 1 \<and>
                  lengthKind (exprResult (hd arguments)) = Static
               then Some (staticByteLength (exprResult (hd arguments))) else None)
      | IntegerLiteral v l \<Rightarrow> Inr (parseUnsignedIntegerLiteral v)
      | UnsignedExpr operand l \<Rightarrow>
          (case operand of None \<Rightarrow> Inl NullOperand | Some x \<Rightarrow> staticAllocationExtent x)
      | IntegerCastExpr operand l s \<Rightarrow> staticAllocationExtent operand
      | TemplateViewExpr operand l t a \<Rightarrow> staticAllocationExtent operand
      | _ \<Rightarrow> Inr None)"
  by pat_completeness auto
termination
  by (relation "measure size") (auto intro: exprNode_size)

function addressFactsFor :: "Expr \<Rightarrow> hir_error + AddressFacts option" where
  "addressFactsFor e =
     (case exprNode e of
        AddressOfExpr d \<Rightarrow> Inr (Some (addr_facts d))
      | VariableRef d \<Rightarrow> Inr (var_addressFacts d)
      | BinaryExpr a b d \<Rightarrow> Inr (bin_addressFacts d)
      | CallExpr arguments d \<Rightarrow> Inr (call_addressFacts d)
      | UnsignedExpr operand l \<Rightarrow>
          (case operand of None \<Rightarrow> Inl NullOperand | Some x \<Rightarrow> addressFactsFor x)
      | IntegerCastExpr operand l s \<Rightarrow> addressFactsFor operand
      | TemplateViewExpr operand l t a \<Rightarrow> addressFactsFor operand
      | _ \<Rightarrow> Inr None)"
  by pat_completeness auto
termination
  by (relation "measure size") (auto intro: exprNode_size)

declare staticAllocationExtent.simps [simp del] addressFactsFor.simps [simp del]

section \<open>Leaf expressions\<close>

definition mkExpr :: "SourceRange option \<Rightarrow> ViewSemantics \<Rightarrow> ExprNode \<Rightarrow> Expr" where
  "mkExpr activeRange result node = Expr \<lparr>expr_range = activeRange, expr_result = result\<rparr> node"

definition mkIntegerLiteral :: "SourceRange option \<Rightarrow> string \<Rightarrow> ViewSemantics \<Rightarrow> Expr" where
  "mkIntegerLiteral ar v result = mkExpr ar result (IntegerLiteral v (staticByteLength result))"

definition mkCharacterLiteral :: "SourceRange option \<Rightarrow> string \<Rightarrow> ViewSemantics \<Rightarrow> Expr" where
  "mkCharacterLiteral ar bs result = mkExpr ar result (CharacterLiteral bs (staticByteLength result))"

definition mkStringLiteral :: "SourceRange option \<Rightarrow> string \<Rightarrow> ViewSemantics \<Rightarrow> Expr" where
  "mkStringLiteral ar v result = mkExpr ar result (StringLiteral v (staticByteLength result))"

definition mkFloatLiteral :: "SourceRange option \<Rightarrow> string \<Rightarrow> ViewSemantics \<Rightarrow> Expr" where
  "mkFloatLiteral ar v result = mkExpr ar result (FloatLiteral v (staticByteLength result))"

definition mkVariableRefAt ::
  "SourceRange option \<Rightarrow> string \<Rightarrow> string \<Rightarrow> MemoryStorage \<Rightarrow> size_t \<Rightarrow> ViewSemantics \<Rightarrow> Expr" where
  "mkVariableRefAt ar name bindingName storage offset result = mkExpr ar result (VariableRef
     \<lparr>var_name = name, var_bindingName = bindingName, var_byteLength = staticByteLength result,
      var_storage = storage, var_offset = offset, var_templateName = templateName result,
      var_addressFacts = None\<rparr>)"

definition mkVariableRefIn ::
  "SourceRange option \<Rightarrow> string \<Rightarrow> string \<Rightarrow> MemoryStorage \<Rightarrow> ViewSemantics \<Rightarrow> Expr" where
  "mkVariableRefIn ar name bindingName storage result = mkVariableRefAt ar name bindingName storage 0 result"

definition mkVariableRef :: "SourceRange option \<Rightarrow> string \<Rightarrow> ViewSemantics \<Rightarrow> Expr" where
  "mkVariableRef ar name result = mkVariableRefIn ar name name LocalStorage result"

definition mkCapturedViewRef :: "SourceRange option \<Rightarrow> string \<Rightarrow> ViewSemantics \<Rightarrow> Expr" where
  "mkCapturedViewRef ar captureName result = mkExpr ar result (CapturedViewRef captureName)"

definition storageOrigin :: "MemoryStorage \<Rightarrow> AddressOrigin" where
  "storageOrigin storage =
     (if storage = LocalStorage then LocalObject else if storage = StaticLocal then StaticObject else GlobalObject)"

definition mkAddressOfExpr ::
  "SourceRange option \<Rightarrow> string \<Rightarrow> string \<Rightarrow> size_t \<Rightarrow> MemoryStorage \<Rightarrow> size_t \<Rightarrow> ViewSemantics \<Rightarrow> Expr" where
  "mkAddressOfExpr ar name bindingName targetByteLength storage offset result = mkExpr ar result (AddressOfExpr
     \<lparr>addr_name = name, addr_bindingName = bindingName, addr_targetByteLength = targetByteLength,
      addr_storage = storage, addr_offset = offset, addr_byteLength = staticByteLength result,
      addr_facts = \<lparr>origin = storageOrigin storage, knownExtent = Some targetByteLength,
                    knownAlignment = None, isBaseAddress = (offset = 0)\<rparr>\<rparr>)"

section \<open>Operators and conversions\<close>

definition mkDerefExpr :: "SourceRange option \<Rightarrow> Expr \<Rightarrow> ViewSemantics \<Rightarrow> Expr" where
  "mkDerefExpr ar address result = mkExpr ar result (DerefExpr address (staticByteLength result))"

definition mkBooleanTestExpr :: "SourceRange option \<Rightarrow> Expr \<Rightarrow> ViewSemantics \<Rightarrow> Expr" where
  "mkBooleanTestExpr ar operand result = mkExpr ar result (BooleanTestExpr operand)"

definition typedInterpretation :: "string \<Rightarrow> IntegerInterpretation" where
  "typedInterpretation op =
     (if starts_with op (CHR ''%'') then
        (case find_last_of_all op ''duf'' of
           None \<Rightarrow> NoInterpretation
         | Some marker \<Rightarrow> if op ! marker = CHR ''u'' then Unsigned
                          else if op ! marker = CHR ''d'' then Signed else NoInterpretation)
      else NoInterpretation)"

definition mkBinaryExpr ::
  "SourceRange option \<Rightarrow> Expr \<Rightarrow> string \<Rightarrow> Expr \<Rightarrow> ViewSemantics \<Rightarrow> StandardOperationKind \<Rightarrow> hir_error + Expr" where
  "mkBinaryExpr ar left op right result operationKind =
     (let finish = (\<lambda>facts. mkExpr ar result (BinaryExpr left right
        \<lparr>bin_op = op, bin_byteLength = staticByteLength result, bin_operationKind = operationKind,
         bin_operation = binaryOperatorFor op, bin_typedIntegerInterpretation = typedInterpretation op,
         bin_addressFacts = facts, bin_viewOffsetBounds = None\<rparr>)) in
      if operationKind = AddressOffset then
        (case addressFactsFor left of
           Inl e \<Rightarrow> Inl e
         | Inr base \<Rightarrow> Inr (finish (Some
             \<lparr>origin = PointerDerived,
              knownExtent = (case base of None \<Rightarrow> None | Some f \<Rightarrow> knownExtent f),
              knownAlignment = (case base of None \<Rightarrow> None | Some f \<Rightarrow> knownAlignment f),
              isBaseAddress = False\<rparr>)))
      else Inr (finish None))"

definition mkUnaryExpr :: "SourceRange option \<Rightarrow> string \<Rightarrow> Expr \<Rightarrow> ViewSemantics \<Rightarrow> Expr" where
  "mkUnaryExpr ar op operand result = mkExpr ar result (UnaryExpr op operand (staticByteLength result))"

definition mkTernaryExpr :: "SourceRange option \<Rightarrow> Expr \<Rightarrow> Expr \<Rightarrow> Expr \<Rightarrow> ViewSemantics \<Rightarrow> Expr" where
  "mkTernaryExpr ar c t e result = mkExpr ar result (TernaryExpr c t e (staticByteLength result))"

definition mkUnsignedExpr :: "SourceRange option \<Rightarrow> Expr option \<Rightarrow> ViewSemantics \<Rightarrow> Expr" where
  "mkUnsignedExpr ar operand result = mkExpr ar result (UnsignedExpr operand (staticByteLength result))"

definition mkIntegerCastExpr :: "SourceRange option \<Rightarrow> Expr \<Rightarrow> bool \<Rightarrow> ViewSemantics \<Rightarrow> Expr" where
  "mkIntegerCastExpr ar operand isSigned result =
     mkExpr ar result (IntegerCastExpr operand (staticByteLength result) isSigned)"

text \<open>The template name and the addressability that the caller passes are ignored.\<close>

definition mkTemplateViewExpr ::
  "SourceRange option \<Rightarrow> Expr \<Rightarrow> string \<Rightarrow> bool \<Rightarrow> ViewSemantics \<Rightarrow> Expr" where
  "mkTemplateViewExpr ar operand unusedTemplate unusedAddressable result = mkExpr ar result
     (TemplateViewExpr operand (staticByteLength result) (templateName result) (isAddressable result))"

definition canonicalTemplate :: "string \<Rightarrow> string" where
  "canonicalTemplate t = (if t = ''none'' then [] else t)"

definition mkUserTemplateOpCallExpr ::
  "SourceRange option \<Rightarrow> string \<Rightarrow> Expr list \<Rightarrow> string \<Rightarrow> ViewSemantics \<Rightarrow> Expr" where
  "mkUserTemplateOpCallExpr ar callee arguments template result = mkExpr ar result
     (UserTemplateOpCallExpr callee arguments (staticByteLength result) (canonicalTemplate template))"

definition mkFloatBinaryExpr :: "SourceRange option \<Rightarrow> Expr \<Rightarrow> string \<Rightarrow> Expr \<Rightarrow> ViewSemantics \<Rightarrow> Expr" where
  "mkFloatBinaryExpr ar left op right result =
     mkExpr ar result (FloatBinaryExpr left op right (staticByteLength result))"

definition mkFloatCompareExpr ::
  "SourceRange option \<Rightarrow> Expr \<Rightarrow> string \<Rightarrow> Expr \<Rightarrow> size_t \<Rightarrow> ViewSemantics \<Rightarrow> Expr" where
  "mkFloatCompareExpr ar left op right operandByteLength result =
     mkExpr ar result (FloatCompareExpr left op right operandByteLength)"

definition mkToFloatExpr :: "SourceRange option \<Rightarrow> Expr \<Rightarrow> bool \<Rightarrow> bool \<Rightarrow> ViewSemantics \<Rightarrow> Expr" where
  "mkToFloatExpr ar operand sourceUnsigned sourceIsFloating result =
     mkExpr ar result (ToFloatExpr operand (staticByteLength result) sourceUnsigned sourceIsFloating)"

definition mkToIntExpr :: "SourceRange option \<Rightarrow> Expr \<Rightarrow> size_t \<Rightarrow> bool \<Rightarrow> ViewSemantics \<Rightarrow> Expr" where
  "mkToIntExpr ar operand floatByteLength isUnsigned result =
     mkExpr ar result (ToIntExpr operand floatByteLength (staticByteLength result) isUnsigned)"

section \<open>Calls\<close>

definition identityPlan :: "Expr \<Rightarrow> ConversionPlan" where
  "identityPlan e = \<lparr>plan_kind = Identity, plan_source = exprResult e, plan_destination = exprResult e\<rparr>"

definition callocExtent :: "size_t option \<Rightarrow> size_t option \<Rightarrow> size_t option" where
  "callocExtent count n =
     (case (count, n) of
        (Some c, Some s) \<Rightarrow> if s = 0 \<or> c \<le> (- 1) div s then Some (c * s) else None
      | _ \<Rightarrow> None)"

definition allocationExtent :: "BuiltinId \<Rightarrow> Expr list \<Rightarrow> hir_error + size_t option" where
  "allocationExtent builtin arguments =
     (if builtin = BAlloc \<and> length arguments = 1 then staticAllocationExtent (arguments ! 0)
      else if builtin = BCalloc \<and> length arguments = 2 then
        (case staticAllocationExtent (arguments ! 0) of
           Inl e \<Rightarrow> Inl e
         | Inr count \<Rightarrow>
             (case staticAllocationExtent (arguments ! 1) of
                Inl e \<Rightarrow> Inl e
              | Inr n \<Rightarrow> Inr (callocExtent count n)))
      else if builtin = BRealloc \<and> length arguments = 2 then staticAllocationExtent (arguments ! 1)
      else Inr None)"

definition isAllocation :: "BuiltinId \<Rightarrow> bool" where
  "isAllocation builtin \<longleftrightarrow> builtin = BAlloc \<or> builtin = BCalloc \<or> builtin = BRealloc"

definition mkCallExpr ::
  "BuiltinTable \<Rightarrow> SourceRange option \<Rightarrow> string \<Rightarrow> Expr list \<Rightarrow> bool \<Rightarrow> BuiltinId \<Rightarrow> FormatArgKind list \<Rightarrow> uint16 \<Rightarrow> string \<Rightarrow> ViewSemantics \<Rightarrow> hir_error + Expr" where
  "mkCallExpr table ar callee arguments isFloating builtin formatArgumentKinds overloadIndex template result =
     (let metadata = builtinCallMetadata table builtin overloadIndex;
          finish = (\<lambda>facts. mkExpr ar result (CallExpr arguments
            \<lparr>call_callee = callee, call_byteLength = staticByteLength result, call_isFloating = isFloating,
             call_builtin = builtin, call_provider = meta_provider metadata,
             call_returnMode = meta_returnMode metadata, call_overloadIndex = overloadIndex,
             call_formatArgumentKinds = formatArgumentKinds, call_templateName = canonicalTemplate template,
             call_argumentPlans = map identityPlan arguments, call_addressFacts = facts\<rparr>)) in
      if isAllocation builtin then
        (case allocationExtent builtin arguments of
           Inl e \<Rightarrow> Inl e
         | Inr extent \<Rightarrow> Inr (finish (Some
             \<lparr>origin = DynamicAllocation, knownExtent = extent, knownAlignment = None, isBaseAddress = True\<rparr>)))
      else Inr (finish None))"

definition mkUserTemplateFormatCallExpr ::
  "SourceRange option \<Rightarrow> string \<Rightarrow> Expr \<Rightarrow> FormatOutputSink \<Rightarrow> Expr option \<Rightarrow> ViewSemantics \<Rightarrow> Expr" where
  "mkUserTemplateFormatCallExpr ar callee v sink outFile result =
     mkExpr ar result (UserTemplateFormatCallExpr callee v sink outFile (staticByteLength result))"

definition mkDynamicByteViewExpr ::
  "SourceRange option \<Rightarrow> DynamicByteViewOperation \<Rightarrow> Expr \<Rightarrow> Expr option \<Rightarrow> ViewSemantics \<Rightarrow> Expr" where
  "mkDynamicByteViewExpr ar operation source runtimeLength result =
     mkExpr ar result (DynamicByteViewExpr operation source runtimeLength)"

definition mkByteSwapExpr :: "SourceRange option \<Rightarrow> Expr \<Rightarrow> ViewSemantics \<Rightarrow> Expr" where
  "mkByteSwapExpr ar source result = mkExpr ar result (ByteSwapExpr source (staticByteLength result))"

definition mkAssignmentExpr ::
  "SourceRange option \<Rightarrow> Stmt list \<Rightarrow> Expr option \<Rightarrow> ViewSemantics \<Rightarrow> Expr" where
  "mkAssignmentExpr ar stores result semantics =
     mkExpr ar semantics (AssignmentExpr stores result (staticByteLength semantics))"

lemmas mk_expr_defs [mk_simps] =
  mkExpr_def mkIntegerLiteral_def mkCharacterLiteral_def mkStringLiteral_def mkFloatLiteral_def
  mkVariableRefAt_def mkVariableRefIn_def mkVariableRef_def mkCapturedViewRef_def mkAddressOfExpr_def
  mkDerefExpr_def mkBooleanTestExpr_def mkUnaryExpr_def mkTernaryExpr_def mkUnsignedExpr_def
  mkIntegerCastExpr_def mkTemplateViewExpr_def mkUserTemplateOpCallExpr_def mkFloatBinaryExpr_def
  mkFloatCompareExpr_def mkToFloatExpr_def mkToIntExpr_def mkUserTemplateFormatCallExpr_def
  mkDynamicByteViewExpr_def mkByteSwapExpr_def mkAssignmentExpr_def

section \<open>Statements and declarations with derived fields\<close>

definition mkStmt :: "SourceRange option \<Rightarrow> StmtNode \<Rightarrow> Stmt" where
  "mkStmt activeRange node = Stmt \<lparr>stmt_range = activeRange, staticInitializationBinding = []\<rparr> node"

definition storeTargetAt :: "string \<Rightarrow> string \<Rightarrow> size_t \<Rightarrow> MemoryStorage \<Rightarrow> size_t \<Rightarrow> StoreTarget" where
  "storeTargetAt target bindingName targetByteLength storage offset =
     \<lparr>store_target = target, store_bindingName = bindingName, store_targetByteLength = targetByteLength,
      store_storage = storage, store_offset = offset\<rparr>"

definition mkIntegerStoreAt ::
  "SourceRange option \<Rightarrow> string \<Rightarrow> string \<Rightarrow> size_t \<Rightarrow> MemoryStorage \<Rightarrow> size_t \<Rightarrow> Expr \<Rightarrow> Stmt" where
  "mkIntegerStoreAt ar target bindingName targetByteLength storage offset v =
     mkStmt ar (IntegerStore (storeTargetAt target bindingName targetByteLength storage offset) v None)"

definition mkIntegerStoreIn ::
  "SourceRange option \<Rightarrow> string \<Rightarrow> string \<Rightarrow> size_t \<Rightarrow> MemoryStorage \<Rightarrow> Expr \<Rightarrow> Stmt" where
  "mkIntegerStoreIn ar target bindingName targetByteLength storage v =
     mkIntegerStoreAt ar target bindingName targetByteLength storage 0 v"

definition mkIntegerStore :: "SourceRange option \<Rightarrow> string \<Rightarrow> size_t \<Rightarrow> Expr \<Rightarrow> Stmt" where
  "mkIntegerStore ar target targetByteLength v = mkIntegerStoreIn ar target target targetByteLength LocalStorage v"

text \<open>The copy of a source View keeps only the length of the View; it reads the View it is given.\<close>

definition mkStringCopyStoreView ::
  "SourceRange option \<Rightarrow> string \<Rightarrow> string \<Rightarrow> size_t \<Rightarrow> MemoryStorage \<Rightarrow> size_t \<Rightarrow> Expr \<Rightarrow> Stmt" where
  "mkStringCopyStoreView ar target bindingName targetByteLength targetStorage targetOffset sourceView =
     mkStmt ar (StringCopyStore (storeTargetAt target bindingName targetByteLength targetStorage targetOffset)
       (Some sourceView)
       \<lparr>copy_source = [], copy_sourceBindingName = [],
        copy_sourceByteLength = staticByteLength (exprResult sourceView),
        copy_sourceStorage = LocalStorage, copy_sourceOffset = 0\<rparr>)"

definition mkCallStmt ::
  "BuiltinTable \<Rightarrow> SourceRange option \<Rightarrow> string \<Rightarrow> Expr list \<Rightarrow> BuiltinId \<Rightarrow> FormatArgKind list \<Rightarrow> uint16 \<Rightarrow> Stmt" where
  "mkCallStmt table ar callee arguments builtin formatArgumentKinds overloadIndex =
     (let metadata = builtinCallMetadata table builtin overloadIndex in
      mkStmt ar (CallStmt arguments
        \<lparr>cs_callee = callee, cs_builtin = builtin, cs_provider = meta_provider metadata,
         cs_returnMode = meta_returnMode metadata, cs_overloadIndex = overloadIndex,
         cs_formatArgumentKinds = formatArgumentKinds\<rparr>))"

definition mkGlobalMemory :: "SourceRange option \<Rightarrow> string \<Rightarrow> string \<Rightarrow> size_t \<Rightarrow> bool \<Rightarrow> GlobalMemory" where
  "mkGlobalMemory ar name bindingName byteLength isExtern =
     \<lparr>global_name = name, global_bindingName = bindingName, global_range = ar, global_byteLength = byteLength,
      global_isExtern = isExtern, global_linkage = External, global_abiType = None\<rparr>"

definition mkParameterBytes :: "SourceRange option \<Rightarrow> string \<Rightarrow> string \<Rightarrow> size_t \<Rightarrow> Parameter" where
  "mkParameterBytes ar name bindingName byteLength =
     \<lparr>param_name = name, param_bindingName = bindingName, param_range = ar, param_byteLength = byteLength,
      param_valueSemantics = staticViewSemantics RawBytes RawOnly byteLength [] False False,
      param_viewIsCopy = True\<rparr>"

definition mkParameterView :: "SourceRange option \<Rightarrow> string \<Rightarrow> string \<Rightarrow> ViewSemantics \<Rightarrow> Parameter" where
  "mkParameterView ar name bindingName semantics =
     \<lparr>param_name = name, param_bindingName = bindingName, param_range = ar,
      param_byteLength = staticByteLength semantics, param_valueSemantics = semantics, param_viewIsCopy = True\<rparr>"

definition mkFunction :: "SourceRange option \<Rightarrow> string \<Rightarrow> Parameter list \<Rightarrow> size_t list \<Rightarrow> Block \<Rightarrow> Function" where
  "mkFunction ar name parameters returnByteLengths body =
     \<lparr>fn_name = name, fn_range = ar, fn_parameters = parameters, fn_returnByteLengths = returnByteLengths,
      fn_body = body, fn_linkage = External, fn_abiSignature = None, fn_usesViewAbi = False,
      fn_viewResultByteLength = 0\<rparr>"

section \<open>Properties\<close>

lemma callocExtent_exact:
  "callocExtent (Some c) (Some s) =
     (if unat c * unat s < 2 ^ 64 then Some (word_of_nat (unat c * unat s)) else None)"
proof (cases "s = 0")
  case False
  then have "c \<le> (- 1) div s \<longleftrightarrow> unat c * unat s < 2 ^ 64"
    using word_product_fits [of s c] by (simp add: not_less [symmetric])
  then show ?thesis using False by (simp add: callocExtent_def)
qed (simp add: callocExtent_def)

text \<open>
  The extent recorded for a \<open>calloc\<close> of a statically known count and size is their exact
  product; when the product does not fit a \<open>size_t\<close> no extent is recorded, so an overflowing
  allocation is never believed to be small.  The address is a base address of a dynamic allocation.
\<close>

theorem mkCallExpr_calloc:
  assumes "staticAllocationExtent count = Inr (Some c)" and "staticAllocationExtent len = Inr (Some n)"
  shows "\<exists>call. mkCallExpr table ar callee [count, len] isFloating BCalloc kinds ov template result = Inr call \<and>
    exprResult call = result \<and>
    addressFactsFor call = Inr (Some
      \<lparr>origin = DynamicAllocation,
       knownExtent = (if unat c * unat n < 2 ^ 64 then Some (word_of_nat (unat c * unat n)) else None),
       knownAlignment = None, isBaseAddress = True\<rparr>)"
  using assms
  by (simp add: mkCallExpr_def isAllocation_def allocationExtent_def Let_def callocExtent_exact mkExpr_def
      addressFactsFor.simps [of "Expr b m" for b m])

definition u64Literal :: "string \<Rightarrow> Expr" where
  "u64Literal v = mkIntegerLiteral None v (viewSemanticsForTemplate ''u64'' 8 False False Signed)"

definition emptyTable :: BuiltinTable where
  "emptyTable = \<lparr>builtinParameterModes = (\<lambda>_. None),
     builtinCallMetadata = (\<lambda>i n. \<lparr>meta_id = i, meta_provider = ProviderNone, meta_returnMode = ReturnVoid, meta_overloadIndex = n\<rparr>)\<rparr>"

lemma extent_literal: "staticAllocationExtent (mkIntegerLiteral ar v r) = Inr (parseUnsignedIntegerLiteral v)"
  by (simp add: staticAllocationExtent.simps mkIntegerLiteral_def mkExpr_def)

theorem mkCallExpr_calloc_witness:
  "\<exists>call. mkCallExpr emptyTable None ''calloc'' [u64Literal ''0x10'', u64Literal ''0xFFFFFFFFFFFFFFFF''] False BCalloc [] 0 ''addr''
        (viewSemanticsForTemplate ''addr'' 8 False False Signed) = Inr call \<and>
     addressFactsFor call = Inr (Some \<lparr>origin = DynamicAllocation, knownExtent = None, knownAlignment = None, isBaseAddress = True\<rparr>)"
proof -
  have "parseUnsignedIntegerLiteral ''0x10'' = Some 16" by code_simp
  moreover have "parseUnsignedIntegerLiteral ''0xFFFFFFFFFFFFFFFF'' = Some 18446744073709551615" by code_simp
  ultimately show ?thesis
    using mkCallExpr_calloc [of "u64Literal ''0x10''" 16 "u64Literal ''0xFFFFFFFFFFFFFFFF''" 18446744073709551615
        emptyTable None "''calloc''" False "[]" 0 "''addr''" "viewSemanticsForTemplate ''addr'' 8 False False Signed"]
    by (auto simp: u64Literal_def extent_literal)
qed

end
