(* ===== verification/HIR_Rebound.thy ===== *)
theory HIR_Rebound
  imports HIR_Tree
begin

text \<open>
  \<open>reboundBindings\<close> of \<open>src/hir/HIR.cpp\<close>: the binding names that some \<open>BindingRebind\<close> of
  the unit changes.  Code generation keeps a stable address only for the other names, so a
  missed rebind would be a miscompilation; the walk is compared with reachability.
\<close>

section \<open>The walk\<close>

primrec rebExpr :: "Expr \<Rightarrow> string set"
  and rebExprNode :: "ExprNode \<Rightarrow> string set"
  and rebStmt :: "Stmt \<Rightarrow> string set"
  and rebStmtNode :: "StmtNode \<Rightarrow> string set"
  and rebBlock :: "Block \<Rightarrow> string set"
  and rebExprs :: "Expr list \<Rightarrow> string set"
  and rebExprOpt :: "Expr option \<Rightarrow> string set"
  and rebStmts :: "Stmt list \<Rightarrow> string set"
  and rebStmtOpt :: "Stmt option \<Rightarrow> string set"
  and rebBlockOpt :: "Block option \<Rightarrow> string set"
where
  "rebExpr (Expr b n) = rebExprNode n"
| "rebExprNode (IntegerLiteral v l) = {}"
| "rebExprNode (CharacterLiteral v l) = {}"
| "rebExprNode (StringLiteral v l) = {}"
| "rebExprNode (FloatLiteral v l) = {}"
| "rebExprNode (VariableRef d) = {}"
| "rebExprNode (CapturedViewRef c) = {}"
| "rebExprNode (AddressOfExpr d) = {}"
| "rebExprNode (DerefExpr e l) = rebExpr e"
| "rebExprNode (BooleanTestExpr e) = rebExpr e"
| "rebExprNode (BinaryExpr a b d) = rebExpr a \<union> rebExpr b"
| "rebExprNode (UnaryExpr op e l) = rebExpr e"
| "rebExprNode (TernaryExpr c t e l) = rebExpr c \<union> rebExpr t \<union> rebExpr e"
| "rebExprNode (UnsignedExpr e l) = rebExprOpt e"
| "rebExprNode (IntegerCastExpr e l s) = rebExpr e"
| "rebExprNode (TemplateViewExpr e l t a) = rebExpr e"
| "rebExprNode (UserTemplateOpCallExpr c es l t) = rebExprs es"
| "rebExprNode (FloatBinaryExpr a op b l) = rebExpr a \<union> rebExpr b"
| "rebExprNode (FloatCompareExpr a op b l) = rebExpr a \<union> rebExpr b"
| "rebExprNode (ToFloatExpr e l u f) = rebExpr e"
| "rebExprNode (ToIntExpr e f l u) = rebExpr e"
| "rebExprNode (UserTemplateFormatCallExpr c v s f l) = rebExpr v \<union> rebExprOpt f"
| "rebExprNode (CallExpr es d) = rebExprs es"
| "rebExprNode (DynamicByteViewExpr op s r) = rebExpr s \<union> rebExprOpt r"
| "rebExprNode (ByteSwapExpr e l) = rebExpr e"
| "rebExprNode (AssignmentExpr ss r l) = rebStmts ss \<union> rebExprOpt r"
| "rebStmt (Stmt b n) = rebStmtNode n"
| "rebStmtNode (CaptureView c e) = rebExprOpt e"
| "rebStmtNode (StatementList ss) = rebStmts ss"
| "rebStmtNode (LocalMemory d) = {}"
| "rebStmtNode (BindingRebind t e) = insert (store_bindingName t) (rebExprOpt e)"
| "rebStmtNode (IntegerStore t e p) = rebExpr e"
| "rebStmtNode (FloatStore t e p) = rebExpr e"
| "rebStmtNode (ViewCopyStore t e p) = rebExpr e"
| "rebStmtNode (StringStore t v) = {}"
| "rebStmtNode (StringCopyStore t e s) = rebExprOpt e"
| "rebStmtNode (BoolStore t e) = rebExpr e"
| "rebStmtNode (PointerStore a l e) = rebExpr a \<union> rebExpr e"
| "rebStmtNode (CallStmt es d) = rebExprs es"
| "rebStmtNode (UserTemplateOpCall c es l) = rebExprs es"
| "rebStmtNode (UserTemplateFormatCall c v s f l) = rebExpr v \<union> rebExprOpt f"
| "rebStmtNode (MultiReturnCallStore c es ts) = rebExprs es"
| "rebStmtNode (InputCallStore c f fmt cts sts b) = rebExprOpt f \<union> rebExpr fmt"
| "rebStmtNode (ReturnStmt es ps) = rebExprs es"
| "rebStmtNode (IfStmt c t e) = rebExpr c \<union> rebBlock t \<union> rebBlockOpt e"
| "rebStmtNode (WhileStmt c b) = rebExpr c \<union> rebBlock b"
| "rebStmtNode (ForStmt i c p b) = rebStmtOpt i \<union> rebExprOpt c \<union> rebStmts p \<union> rebBlock b"
| "rebStmtNode BreakStmt = {}"
| "rebStmtNode ContinueStmt = {}"
| "rebStmtNode (GotoStmt l) = {}"
| "rebStmtNode (LabelStmt l s) = rebStmt s"
| "rebStmtNode (ThrowStmt s st sn tt tn) = rebStmtOpt s"
| "rebStmtNode (TryCatchStmt t en eb et el c) = rebBlock t \<union> rebBlock c"
| "rebBlock (Block ss r) = rebStmts ss"
| "rebExprs [] = {}"
| "rebExprs (e # es) = rebExpr e \<union> rebExprs es"
| "rebExprOpt None = {}"
| "rebExprOpt (Some e) = rebExpr e"
| "rebStmts [] = {}"
| "rebStmts (s # ss) = rebStmt s \<union> rebStmts ss"
| "rebStmtOpt None = {}"
| "rebStmtOpt (Some s) = rebStmt s"
| "rebBlockOpt None = {}"
| "rebBlockOpt (Some b) = rebBlock b"

definition reboundBindings :: "TranslationUnit \<Rightarrow> string set" where
  "reboundBindings unit =
     (case tu_globalInit unit of Some b \<Rightarrow> rebBlock b | None \<Rightarrow> {}) \<union>
     (\<Union>f \<in> set (tu_functions unit). rebBlock (fn_body f))"

section \<open>Comparison with reachability\<close>

text \<open>The statements at which the walk starts.\<close>

definition unitRoots :: "TranslationUnit \<Rightarrow> Stmt list" where
  "unitRoots unit =
     (case tu_globalInit unit of Some b \<Rightarrow> blockStmts b | None \<Rightarrow> []) @
     concat (map (\<lambda>f. blockStmts (fn_body f)) (tu_functions unit))"

lemma rebExprs_set [simp]: "rebExprs es = (\<Union>e \<in> set es. rebExpr e)"
  by (induction es) simp_all

lemma rebStmts_set [simp]: "rebStmts ss = (\<Union>s \<in> set ss. rebStmt s)"
  by (induction ss) simp_all

lemma rebBlock_set [simp]: "rebBlock b = (\<Union>s \<in> set (blockStmts b). rebStmt s)"
  by (cases b) simp

lemma reb_opt_case:
  "rebExprOpt eo = (case eo of None \<Rightarrow> {} | Some e \<Rightarrow> rebExpr e)"
  "rebStmtOpt so = (case so of None \<Rightarrow> {} | Some s \<Rightarrow> rebStmt s)"
  "rebBlockOpt bo = (case bo of None \<Rightarrow> {} | Some b \<Rightarrow> rebBlock b)"
  by (simp_all split: option.splits)

definition rebOwn :: "StmtNode \<Rightarrow> string set" where
  "rebOwn n = (case n of BindingRebind t e \<Rightarrow> {store_bindingName t} | _ \<Rightarrow> {})"

lemma rebExprNode_children:
  "rebExprNode n = (\<Union>e \<in> set (exprExprs n). rebExpr e) \<union> (\<Union>s \<in> set (exprStmts n). rebStmt s)"
  by (cases n) (auto simp: exprStmts_def reb_opt_case split: option.splits)

lemma rebStmtNode_children:
  "rebStmtNode n = rebOwn n \<union> (\<Union>e \<in> set (stmtExprs n). rebExpr e) \<union> (\<Union>s \<in> set (stmtStmts n). rebStmt s)"
  by (cases n) (auto simp: stmtStmts_def rebOwn_def reb_opt_case split: option.splits)

text \<open>What a reachable node contributes, the roots contribute: rule induction on reachability.\<close>

lemma reach_contributes:
  "reach_expr roots e \<Longrightarrow> rebExpr e \<subseteq> (\<Union>s \<in> set roots. rebStmt s)"
  "reach_stmt roots s \<Longrightarrow> rebStmt s \<subseteq> (\<Union>s \<in> set roots. rebStmt s)"
  by (induction rule: reach_expr_reach_stmt.inducts)
    (auto simp: rebExprNode_children rebStmtNode_children)

text \<open>What a node contributes comes from a rebind below it: induction over children.\<close>

definition rebind_below :: "Stmt list \<Rightarrow> string \<Rightarrow> bool" where
  "rebind_below roots x \<longleftrightarrow> (\<exists>b t e. reach_stmt roots (Stmt b (BindingRebind t e)) \<and> store_bindingName t = x)"

lemma contributes_rebind:
  "reach_expr roots e \<Longrightarrow> x \<in> rebExpr e \<Longrightarrow> rebind_below roots x"
  "reach_stmt roots s \<Longrightarrow> x \<in> rebStmt s \<Longrightarrow> rebind_below roots x"
proof -
  have "(reach_expr roots e \<longrightarrow> x \<in> rebExpr e \<longrightarrow> rebind_below roots x)"
    and "(reach_stmt roots s \<longrightarrow> x \<in> rebStmt s \<longrightarrow> rebind_below roots x)"
  proof (induction e and s rule: children_induct)
    case (1 b n)
    then show ?case by (auto simp: rebExprNode_children dest: reach_ee reach_es)
  next
    case (2 b n)
    show ?case
    proof (intro impI)
      assume r: "reach_stmt roots (Stmt b n)" and "x \<in> rebStmt (Stmt b n)"
      then consider "x \<in> rebOwn n" | e where "e \<in> set (stmtExprs n)" "x \<in> rebExpr e"
        | s where "s \<in> set (stmtStmts n)" "x \<in> rebStmt s"
        by (auto simp: rebStmtNode_children)
      then show "rebind_below roots x"
      proof cases
        case 1
        with r show ?thesis by (cases n) (auto simp: rebOwn_def rebind_below_def)
      qed (use 2 r in \<open>auto dest: reach_se reach_ss\<close>)
    qed
  qed
  then show "reach_expr roots e \<Longrightarrow> x \<in> rebExpr e \<Longrightarrow> rebind_below roots x"
    "reach_stmt roots s \<Longrightarrow> x \<in> rebStmt s \<Longrightarrow> rebind_below roots x" by blast+
qed

lemma reboundBindings_roots: "reboundBindings unit = (\<Union>s \<in> set (unitRoots unit). rebStmt s)"
  by (auto simp: reboundBindings_def unitRoots_def split: option.splits)

section \<open>Properties\<close>

text \<open>
  C4. \<open>reboundBindings\<close> is exact: a name is in the result if and only if some
  \<open>BindingRebind\<close> statement that changes it is reachable from the global initialiser or from
  a function body, through any nesting of expressions, assignment expressions and blocks.
\<close>

theorem reboundBindings_exact:
  "x \<in> reboundBindings unit \<longleftrightarrow>
     (\<exists>b t e. reach_stmt (unitRoots unit) (Stmt b (BindingRebind t e)) \<and> store_bindingName t = x)"
proof
  assume "x \<in> reboundBindings unit"
  then obtain s where "s \<in> set (unitRoots unit)" "x \<in> rebStmt s"
    by (auto simp: reboundBindings_roots)
  then have "rebind_below (unitRoots unit) x" by (blast intro: contributes_rebind reach_root)
  then show "\<exists>b t e. reach_stmt (unitRoots unit) (Stmt b (BindingRebind t e)) \<and> store_bindingName t = x"
    by (simp add: rebind_below_def)
next
  assume "\<exists>b t e. reach_stmt (unitRoots unit) (Stmt b (BindingRebind t e)) \<and> store_bindingName t = x"
  then obtain b t e where r: "reach_stmt (unitRoots unit) (Stmt b (BindingRebind t e))"
    and x: "store_bindingName t = x" by blast
  have "x \<in> rebStmt (Stmt b (BindingRebind t e))" using x by simp
  with reach_contributes(2) [OF r] show "x \<in> reboundBindings unit"
    unfolding reboundBindings_roots by blast
qed

end
