(* ===== verification/HIR_Verify.thy ===== *)
theory HIR_Verify
  imports HIR_Construct HIR_Rebound
begin

text \<open>
  The verifier of the intermediate representation, \<open>verifyHIR\<close> of \<open>src/hir/HIR.cpp\<close>.  Each
  group of checks is a function to the list of messages it reports, in order.  The walk threads
  the diagnostics and the map of captured Views; \<open>vs_nullRead\<close> records that a null operand
  was read on the way (\<open>staticAllocationExtent\<close> of an \<open>UnsignedExpr\<close> without operand).
\<close>

section \<open>Checks on a result View\<close>

definition whenever :: "bool \<Rightarrow> string \<Rightarrow> string list" where
  "whenever c msg = (if c then [msg] else [])"

lemma whenever_Nil [simp]: "whenever c msg = [] \<longleftrightarrow> \<not> c"
  by (simp add: whenever_def)

definition sameSemantics :: "ViewSemantics \<Rightarrow> ViewSemantics \<Rightarrow> bool" where
  "sameSemantics l r \<longleftrightarrow>
     category l = category r \<and> integerInterpretation l = integerInterpretation r \<and>
     lengthKind l = lengthKind r \<and> staticByteLength l = staticByteLength r \<and>
     templateName l = templateName r \<and> isAddressable l = isAddressable r \<and>
     isMutableLValue l = isMutableLValue r"

definition sameValueSemantics :: "ViewSemantics \<Rightarrow> ViewSemantics \<Rightarrow> bool" where
  "sameValueSemantics l r \<longleftrightarrow>
     category l = category r \<and> integerInterpretation l = integerInterpretation r \<and>
     lengthKind l = lengthKind r \<and> staticByteLength l = staticByteLength r \<and>
     templateName l = templateName r"

definition requireInterpretation :: "ViewSemantics \<Rightarrow> IntegerInterpretation \<Rightarrow> string list" where
  "requireInterpretation s expected =
     whenever (integerInterpretation s \<noteq> expected) ''expression result has a category/interpretation mismatch''"

definition requireTemplate :: "ViewSemantics \<Rightarrow> string \<Rightarrow> string list" where
  "requireTemplate s expected =
     whenever (templateName s \<noteq> expected) ''expression result has a category/template mismatch''"

definition checkCategory :: "ViewSemantics \<Rightarrow> string list" where
  "checkCategory s =
     (case category s of
        SignedInteger \<Rightarrow> requireInterpretation s Signed @
          whenever (templateName s \<noteq> ''i8'' \<and> templateName s \<noteq> ''i16'' \<and> templateName s \<noteq> ''i32'' \<and>
            templateName s \<noteq> ''i64'') ''signed integer result must retain an iN template name''
      | UnsignedInteger \<Rightarrow> requireInterpretation s Unsigned @
          whenever (templateName s \<noteq> ''u8'' \<and> templateName s \<noteq> ''u16'' \<and> templateName s \<noteq> ''u32'' \<and>
            templateName s \<noteq> ''u64'') ''unsigned integer result must retain a uN template name''
      | UntemplatedInteger \<Rightarrow>
          whenever (integerInterpretation s \<noteq> Signed \<and> integerInterpretation s \<noteq> Unsigned)
            ''untemplated integer result must be signed or unsigned'' @
          whenever (templateName s \<noteq> []) ''untemplated integer result must not retain a template name''
      | Floating \<Rightarrow> requireInterpretation s NoInterpretation @
          whenever (templateName s \<noteq> ''f16'' \<and> templateName s \<noteq> ''f32'' \<and> templateName s \<noteq> ''f64'' \<and>
            templateName s \<noteq> ''f128'') ''floating result must retain an fN template name''
      | Boolean \<Rightarrow> requireInterpretation s NoInterpretation @ requireTemplate s ''bool'' @
          whenever (lengthKind s \<noteq> Static \<or> staticByteLength s \<noteq> 1) ''boolean result must be a one-byte bool View''
      | Address \<Rightarrow> requireInterpretation s NoInterpretation @ requireTemplate s ''addr''
      | Handle \<Rightarrow> requireInterpretation s NoInterpretation @ requireTemplate s ''handle''
      | Bytes \<Rightarrow> requireInterpretation s NoInterpretation @ requireTemplate s ''bytes''
      | CString \<Rightarrow> requireInterpretation s NoInterpretation @ requireTemplate s ''cstr''
      | UserTemplate \<Rightarrow> requireInterpretation s NoInterpretation @
          whenever (templateName s = []) ''user-template result must retain its template name''
      | RawBytes \<Rightarrow> requireInterpretation s RawOnly @
          whenever (templateName s \<noteq> []) ''raw-byte result must not retain a template name'')"

definition checkSemantics :: "ViewSemantics \<Rightarrow> string list" where
  "checkSemantics s =
     whenever (lengthKind s = Static \<and> staticByteLength s = 0)
       ''expression result has a static View with zero byte length'' @
     whenever (lengthKind s = Dynamic \<and> staticByteLength s \<noteq> 0)
       ''expression result has a dynamic View with a static byte length'' @
     whenever (isMutableLValue s \<and> \<not> isAddressable s)
       ''expression result is mutable but not addressable'' @
     checkCategory s @
     (case standardTemplateByteLength (templateName s) of
        None \<Rightarrow> []
      | Some expected \<Rightarrow>
          whenever (lengthKind s \<noteq> Static \<or> staticByteLength s \<noteq> expected)
            (''standard template '' @ [CHR 0x27] @ templateName s @ [CHR 0x27] @
             '' does not match its required byte length''))"

definition checkByteLength :: "ViewSemantics \<Rightarrow> size_t \<Rightarrow> string list" where
  "checkByteLength s len =
     whenever (lengthKind s \<noteq> Static \<or> len \<noteq> staticByteLength s)
       ''legacy byteLength does not match result ViewSemantics''"

definition checkTemplateName :: "ViewSemantics \<Rightarrow> string \<Rightarrow> string list" where
  "checkTemplateName s tmpl =
     whenever (tmpl \<noteq> templateName s) ''legacy templateName does not match result ViewSemantics''"

definition checkAddressFacts :: "ViewSemantics \<Rightarrow> AddressFacts option \<Rightarrow> string list" where
  "checkAddressFacts s facts =
     (case facts of
        None \<Rightarrow> []
      | Some f \<Rightarrow>
          whenever (\<not> isAddressValue s) ''AddressFacts require an addr result View'' @
          whenever (origin f = DynamicAllocation \<and> \<not> isBaseAddress f)
            ''dynamic-allocation AddressFacts must describe a base address'')"

definition checkConversionPlan ::
  "ConversionPlan \<Rightarrow> ViewSemantics \<Rightarrow> string \<Rightarrow> bool \<Rightarrow> string list" where
  "checkConversionPlan plan source owner permitsDynamicIdentity =
     whenever (\<not> sameValueSemantics (plan_source plan) source)
       (owner @ '' conversion plan source does not match its operand'') @
     whenever ((lengthKind (plan_destination plan) \<noteq> Static \<and>
                \<not> (permitsDynamicIdentity \<and> plan_kind plan = Identity)) \<or>
               (lengthKind (plan_destination plan) = Static \<and> staticByteLength (plan_destination plan) = 0))
       (owner @ '' conversion plan destination must be a fixed View'') @
     whenever (plan_kind plan = Identity \<and> \<not> sameValueSemantics (plan_source plan) (plan_destination plan))
       (owner @ '' identity conversion plan changes View semantics'') @
     whenever (plan_kind plan = FloatingConversion \<and>
               (\<not> isFloatingNumeric (plan_destination plan) \<or>
                (\<not> isFloatingNumeric (plan_source plan) \<and> \<not> isIntegerNumeric (plan_source plan))))
       (owner @ '' floating conversion has incompatible Views'') @
     whenever ((plan_kind plan = ByteCopy \<or> plan_kind plan = UserTemplateAssignment) \<and>
               lengthKind (plan_source plan) = Static \<and>
               staticByteLength (plan_source plan) \<noteq> staticByteLength (plan_destination plan))
       (owner @ '' byte-copy conversion requires equal fixed lengths'')"

section \<open>Checks on the node classes\<close>

definition isIntegerCast :: "Expr \<Rightarrow> bool" where
  "isIntegerCast e \<longleftrightarrow> (case exprNode e of IntegerCastExpr x l s \<Rightarrow> True | _ \<Rightarrow> False)"

definition isBooleanTest :: "Expr \<Rightarrow> bool" where
  "isBooleanTest e \<longleftrightarrow> (case exprNode e of BooleanTestExpr x \<Rightarrow> True | _ \<Rightarrow> False)"

text \<open>The result of the operand of a cast or of a boolean test.\<close>

definition operandResult :: "Expr \<Rightarrow> ViewSemantics" where
  "operandResult e =
     (case exprNode e of
        IntegerCastExpr x l s \<Rightarrow> exprResult x
      | BooleanTestExpr x \<Rightarrow> exprResult x
      | _ \<Rightarrow> exprResult e)"

definition checkCharacter :: "ViewSemantics \<Rightarrow> string \<Rightarrow> size_t \<Rightarrow> string list" where
  "checkCharacter s bs len =
     checkByteLength s len @
     whenever (length bs \<noteq> unat len) ''CharacterLiteral byte count does not match result View'' @
     (if len = 1 then
        whenever (integerInterpretation s \<noteq> Unsigned) ''single-byte CharacterLiteral must be unsigned''
      else whenever (\<not> isRawOnly s) ''multi-byte CharacterLiteral must be raw-only'')"

definition checkVariable :: "ViewSemantics \<Rightarrow> VariableData \<Rightarrow> string list" where
  "checkVariable s d =
     checkByteLength s (var_byteLength d) @ checkTemplateName s (var_templateName d) @
     checkAddressFacts s (var_addressFacts d)"

definition checkAddressOf :: "ViewSemantics \<Rightarrow> AddressOfData \<Rightarrow> string list" where
  "checkAddressOf s d =
     checkByteLength s (addr_byteLength d) @ checkAddressFacts s (Some (addr_facts d)) @
     whenever (origin (addr_facts d) \<noteq>
                 (if addr_storage d = LocalStorage then LocalObject
                  else if addr_storage d = StaticLocal then StaticObject else GlobalObject) \<or>
               knownExtent (addr_facts d) \<noteq> Some (addr_targetByteLength d) \<or>
               isBaseAddress (addr_facts d) \<noteq> (addr_offset d = 0))
       ''AddressOfExpr AddressFacts do not match its storage range''"

definition canonicalBoolean :: "ViewSemantics \<Rightarrow> bool" where
  "canonicalBoolean s \<longleftrightarrow> sameSemantics s booleanTestResultSemantics"

definition isIntegerOrBoolean :: "ViewSemantics \<Rightarrow> bool" where
  "isIntegerOrBoolean s \<longleftrightarrow> isIntegerNumeric s \<or> category s = Boolean"

definition isUntemplatedInteger :: "ViewSemantics \<Rightarrow> bool" where
  "isUntemplatedInteger s \<longleftrightarrow> isIntegerNumeric s \<and> templateName s = []"

definition isStandardInteger :: "ViewSemantics \<Rightarrow> bool" where
  "isStandardInteger s \<longleftrightarrow> category s = SignedInteger \<or> category s = UnsignedInteger"

definition requireBooleanResult :: "ViewSemantics \<Rightarrow> BinaryOperator \<Rightarrow> string list" where
  "requireBooleanResult s operation =
     whenever (\<not> canonicalBoolean s \<and> \<not> isBooleanResultOperation operation)
       ''resolved comparison candidate must return the canonical bool View''"

definition isEquality :: "BinaryOperator \<Rightarrow> bool" where
  "isEquality operation \<longleftrightarrow> operation = Equal \<or> operation = NotEqual"

definition checkOperationKind ::
  "ViewSemantics \<Rightarrow> StandardOperationKind \<Rightarrow> BinaryOperator \<Rightarrow> Expr \<Rightarrow> Expr \<Rightarrow> string list" where
  "checkOperationKind s kind operation left right =
     (let l = exprResult left; r = exprResult right in
      case kind of
        StandardInteger \<Rightarrow>
          if \<not> isIntegerOrBoolean l \<or> \<not> isIntegerOrBoolean r then
            [''StandardInteger candidate requires integer or bool operands'']
          else if \<not> isStandardInteger l \<and> \<not> isStandardInteger r then
            [''StandardInteger candidate must retain a standard integer operand'']
          else if isComparisonOperation operation then requireBooleanResult s operation
          else whenever (\<not> sameValueSemantics s (if isStandardInteger l then l else r))
                 ''StandardInteger candidate result does not match its selected operand View''
      | UntemplatedIntegerOp \<Rightarrow>
          whenever ((\<not> isIntegerNumeric l \<and> \<not> isAddressValue l) \<or> (\<not> isIntegerNumeric r \<and> \<not> isAddressValue r))
            ''UntemplatedInteger candidate requires integer operands'' @
          (if isComparisonOperation operation then requireBooleanResult s operation else [])
      | StandardBoolean \<Rightarrow>
          whenever (category l \<noteq> Boolean \<or> category r \<noteq> Boolean \<or> \<not> isEquality operation)
            ''StandardBoolean candidate only permits bool == and != bool'' @
          whenever (\<not> isBooleanTest left \<or> \<not> isBooleanTest right)
            ''StandardBoolean operands require BooleanTestExpr value reads'' @
          requireBooleanResult s operation
      | StandardAddress \<Rightarrow>
          whenever (\<not> ((isAddressValue l \<and> (isAddressValue r \<or> isUntemplatedInteger r)) \<or>
                       (isAddressValue r \<and> isUntemplatedInteger l)) \<or> \<not> isEquality operation)
            ''StandardAddress candidate only permits addr == or != a compatible addr/integer View'' @
          requireBooleanResult s operation
      | StandardHandle \<Rightarrow>
          whenever (category l \<noteq> Handle \<or> category r \<noteq> Handle \<or> \<not> isEquality operation)
            ''StandardHandle candidate only permits handle == and != handle'' @
          requireBooleanResult s operation
      | StandardBytesCompare \<Rightarrow>
          whenever (category l \<noteq> Bytes \<or> category r \<noteq> Bytes \<or> \<not> isComparisonOperation operation)
            ''StandardBytesCompare candidate requires bytes comparison operands'' @
          requireBooleanResult s operation
      | StandardCStringCompare \<Rightarrow>
          whenever (category l \<noteq> CString \<or> category r \<noteq> CString \<or> \<not> isComparisonOperation operation)
            ''StandardCStringCompare candidate requires cstr comparison operands'' @
          requireBooleanResult s operation
      | Legacy \<Rightarrow> []
      | AddressOffset \<Rightarrow> [])"

definition checkAddressOffset :: "ViewSemantics \<Rightarrow> BinaryData \<Rightarrow> string list" where
  "checkAddressOffset s d =
     (if bin_operationKind d = AddressOffset then
        whenever ((bin_operation d \<noteq> Add \<and> bin_operation d \<noteq> Subtract) \<or>
                  (\<not> isAddressValue s \<and> \<not> isIntegerNumeric s) \<or>
                  (case bin_addressFacts d of
                     None \<Rightarrow> True
                   | Some f \<Rightarrow> origin f \<noteq> PointerDerived \<or> isBaseAddress f))
          ''AddressOffset operation must carry derived non-base AddressFacts''
      else whenever (bin_addressFacts d \<noteq> None) ''only AddressOffset operations may carry AddressFacts'')"

definition checkOffsetBounds :: "BinaryData \<Rightarrow> ViewSemantics \<Rightarrow> string list" where
  "checkOffsetBounds d r =
     (case bin_viewOffsetBounds d of
        None \<Rightarrow> []
      | Some bounds \<Rightarrow>
          whenever (bin_operationKind d \<noteq> AddressOffset \<or> bin_operation d \<noteq> Add \<or>
                    sourceByteLength bounds = 0 \<or> resultByteLength bounds = 0 \<or>
                    (\<not> isIntegerNumeric r \<and> category r \<noteq> Boolean \<and> \<not> isAddressValue r))
            ''ViewOffsetBounds requires indexed AddressOffset addition with positive View lengths'')"

definition checkBinary :: "ViewSemantics \<Rightarrow> Expr \<Rightarrow> Expr \<Rightarrow> BinaryData \<Rightarrow> string list" where
  "checkBinary s left right d =
     checkByteLength s (bin_byteLength d) @
     whenever (bin_operation d = UnknownOp) ''BinaryExpr must carry a resolved binary operation'' @
     whenever (isBooleanResultOperation (bin_operation d) \<and> \<not> canonicalBoolean s)
       ''comparison and logical BinaryExpr results must be the canonical bool View'' @
     checkOperationKind s (bin_operationKind d) (bin_operation d) left right @
     checkAddressOffset s d @
     checkOffsetBounds d (exprResult right)"

definition checkTernary :: "ViewSemantics \<Rightarrow> Expr \<Rightarrow> Expr \<Rightarrow> size_t \<Rightarrow> string list" where
  "checkTernary s t e len =
     checkByteLength s len @
     whenever (\<not> sameValueSemantics (exprResult t) (exprResult e) \<or> \<not> sameValueSemantics s (exprResult t))
       ''TernaryExpr result and branches must have the same View semantics''"

definition checkLengthOrDynamic :: "ViewSemantics \<Rightarrow> size_t \<Rightarrow> string \<Rightarrow> string list" where
  "checkLengthOrDynamic s len className =
     (if lengthKind s = Static then checkByteLength s len
      else whenever (len \<noteq> 0) (''dynamic '' @ className @ '' must not carry a static byte length''))"

definition checkUnsigned :: "ViewSemantics \<Rightarrow> Expr \<Rightarrow> size_t \<Rightarrow> string list" where
  "checkUnsigned s operand len =
     checkLengthOrDynamic s len ''UnsignedExpr'' @
     whenever (category s \<noteq> UntemplatedInteger \<or> integerInterpretation s \<noteq> Unsigned \<or> templateName s \<noteq> [] \<or>
               isAddressable s \<or> isMutableLValue s \<or> lengthKind s \<noteq> lengthKind (exprResult operand) \<or>
               staticByteLength s \<noteq> staticByteLength (exprResult operand))
       ''UnsignedExpr must preserve operand length as an unsigned none rvalue''"

definition checkIntegerCast :: "ViewSemantics \<Rightarrow> size_t \<Rightarrow> bool \<Rightarrow> string list" where
  "checkIntegerCast s len isSigned =
     checkByteLength s len @
     whenever (integerInterpretation s \<noteq> (if isSigned then Signed else Unsigned))
       ''IntegerCastExpr signedness does not match result View''"

definition checkTemplateView :: "ViewSemantics \<Rightarrow> Expr \<Rightarrow> size_t \<Rightarrow> string \<Rightarrow> bool \<Rightarrow> string list" where
  "checkTemplateView s operand len tmpl addressable =
     checkLengthOrDynamic s len ''TemplateViewExpr'' @ checkTemplateName s tmpl @
     whenever (addressable \<noteq> isAddressable s) ''TemplateViewExpr addressability does not match result View'' @
     whenever (isAddressable s \<noteq> isAddressable (exprResult operand) \<or>
               isMutableLValue s \<noteq> isMutableLValue (exprResult operand))
       ''TemplateViewExpr must preserve operand value category'' @
     whenever (lengthKind (exprResult operand) = Static \<and>
               (lengthKind s \<noteq> Static \<or> staticByteLength s \<noteq> staticByteLength (exprResult operand)))
       ''TemplateViewExpr must preserve operand byte length''"

record VerifyContext =
  ctx_table :: BuiltinTable
  ctx_contracts :: "string \<rightharpoonup> Function"

definition viewParameterAt :: "BuiltinTable \<Rightarrow> BuiltinId \<Rightarrow> nat \<Rightarrow> bool" where
  "viewParameterAt table builtin index =
     (case builtinParameterModes table builtin of
        None \<Rightarrow> False
      | Some modes \<Rightarrow> index < length modes \<and> isViewParameter (modes ! index))"

definition checkArgumentPlans :: "BuiltinTable \<Rightarrow> BuiltinId \<Rightarrow> Expr list \<Rightarrow> ConversionPlan list \<Rightarrow> string list" where
  "checkArgumentPlans table builtin arguments plans =
     concat (map (\<lambda>index.
       let isView = viewParameterAt table builtin index; argument = arguments ! index in
       checkConversionPlan (plans ! index)
         (if isIntegerCast argument \<and> \<not> isView then operandResult argument else exprResult argument)
         ''CallExpr argument'' isView) [0..<length arguments])"

definition checkContract :: "VerifyContext \<Rightarrow> Expr list \<Rightarrow> CallData \<Rightarrow> string list" where
  "checkContract c arguments d =
     (if call_builtin d = BNone then
        (case ctx_contracts c (call_callee d) of
           None \<Rightarrow> []
         | Some callee \<Rightarrow>
             if length (fn_parameters callee) \<noteq> length arguments then
               [''CallExpr argument count does not match callee parameter contract'']
             else concat (map (\<lambda>index.
               whenever (\<not> sameValueSemantics (plan_destination (call_argumentPlans d ! index))
                             (param_valueSemantics (fn_parameters callee ! index)))
                 ''CallExpr argument conversion plan destination does not match callee parameter contract'')
               [0..<length (fn_parameters callee)]))
      else [])"

definition checkCall :: "VerifyContext \<Rightarrow> ViewSemantics \<Rightarrow> Expr list \<Rightarrow> CallData \<Rightarrow> string list" where
  "checkCall c s arguments d =
     whenever (call_builtin d = BLength \<and>
               (length arguments \<noteq> 1 \<or>
                \<not> sameSemantics s (viewSemanticsForTemplate ''u64'' 8 False False Signed)))
       ''length requires one View operand and an eight-byte u64 result'' @
     checkByteLength s (call_byteLength d) @ checkTemplateName s (call_templateName d) @
     (if length (call_argumentPlans d) \<noteq> length arguments then
        [''CallExpr argument conversion plan count does not match arguments'']
      else checkArgumentPlans (ctx_table c) (call_builtin d) arguments (call_argumentPlans d) @
           checkContract c arguments d) @
     checkAddressFacts s (call_addressFacts d) @
     whenever (call_addressFacts d \<noteq> None \<and>
               (call_builtin d \<noteq> BAlloc \<and> call_builtin d \<noteq> BCalloc \<and> call_builtin d \<noteq> BRealloc))
       ''only allocation calls may carry allocation AddressFacts''"

text \<open>The length operand of a byte buffer is inspected only when the result has a static length.\<close>

definition readsExtent :: "ViewSemantics \<Rightarrow> Expr option \<Rightarrow> hir_error + size_t option" where
  "readsExtent s runtimeLength =
     (case runtimeLength of
        Some e \<Rightarrow> if lengthKind s = Static then staticAllocationExtent e else Inr None
      | None \<Rightarrow> Inr None)"

definition checkByteView ::
  "ViewSemantics \<Rightarrow> DynamicByteViewOperation \<Rightarrow> size_t option \<Rightarrow> string list" where
  "checkByteView s operation extent =
     whenever (lengthKind s = Static \<and>
               (operation \<noteq> ResizeBytesView \<or> extent \<noteq> Some (staticByteLength s)))
       ''byte-buffer result length does not match its length operand''"

definition checkAssignment :: "ViewSemantics \<Rightarrow> size_t \<Rightarrow> string list" where
  "checkAssignment s len =
     checkByteLength s len @
     whenever (isAddressable s \<or> isMutableLValue s) ''AssignmentExpr result must be an rvalue View''"

definition checkReturned :: "Expr \<Rightarrow> ConversionPlan \<Rightarrow> string list" where
  "checkReturned v plan =
     (let normalizesBoolean = (plan_kind plan = BooleanNormalize);
          adjustsIntegerWidth = (plan_kind plan = IntegerWidth \<and>
            staticByteLength (plan_source plan) \<noteq> staticByteLength (plan_destination plan)) in
      whenever (adjustsIntegerWidth \<and>
                (\<not> isIntegerCast v \<or> staticByteLength (exprResult v) \<noteq> staticByteLength (plan_destination plan)))
        ''Integer return width conversion requires a matching IntegerCastExpr'' @
      whenever (normalizesBoolean \<and> (\<not> isBooleanTest v \<or> \<not> canonicalBoolean (plan_destination plan)))
        ''Boolean return conversion requires a BooleanTestExpr and bool destination'' @
      checkConversionPlan plan
        (if normalizesBoolean \<and> isBooleanTest v \<or> adjustsIntegerWidth \<and> isIntegerCast v
         then operandResult v else exprResult v)
        ''Return'' False)"

section \<open>The walk\<close>

record VerifyState =
  vs_diagnostics :: "Diagnostic list"
  vs_captured :: "string \<rightharpoonup> ViewSemantics"
  vs_nullRead :: bool

definition report :: "SourceRange option \<Rightarrow> string list \<Rightarrow> VerifyState \<Rightarrow> VerifyState" where
  "report r msgs st = st\<lparr>vs_diagnostics := vs_diagnostics st @
     map (\<lambda>msg. (diagnostic_error Hir msg)\<lparr>diag_range := r\<rparr>) msgs\<rparr>"

definition checkCaptured :: "(string \<rightharpoonup> ViewSemantics) \<Rightarrow> string \<Rightarrow> ViewSemantics \<Rightarrow> string list" where
  "checkCaptured captured name s =
     (case captured name of
        None \<Rightarrow> [''CapturedViewRef has no matching preceding capture'']
      | Some c \<Rightarrow> whenever (\<not> sameSemantics c s) ''CapturedViewRef has no matching preceding capture'')"

definition emplaceCapture :: "string \<Rightarrow> Expr \<Rightarrow> VerifyState \<Rightarrow> VerifyState" where
  "emplaceCapture name source st =
     (case vs_captured st name of
        None \<Rightarrow> st\<lparr>vs_captured := (vs_captured st)(name \<mapsto> exprResult source)\<rparr>
      | Some _ \<Rightarrow> report (expr_range (exprBase source)) [''duplicate source View capture''] st)"

text \<open>The checks of an expression node that do not depend on the walk, and the state they need.\<close>

definition ownMessages :: "VerifyContext \<Rightarrow> (string \<rightharpoonup> ViewSemantics) \<Rightarrow> ViewSemantics \<Rightarrow> ExprNode \<Rightarrow> string list" where
  "ownMessages c captured s n =
     (case n of
        CapturedViewRef name \<Rightarrow> checkCaptured captured name s
      | IntegerLiteral v l \<Rightarrow> checkByteLength s l
      | CharacterLiteral bs l \<Rightarrow> checkCharacter s bs l
      | StringLiteral v l \<Rightarrow> checkByteLength s l
      | FloatLiteral v l \<Rightarrow> checkByteLength s l
      | VariableRef d \<Rightarrow> checkVariable s d
      | AddressOfExpr d \<Rightarrow> checkAddressOf s d
      | DerefExpr e l \<Rightarrow> checkByteLength s l
      | BooleanTestExpr e \<Rightarrow>
          whenever (\<not> canonicalBoolean s) ''BooleanTestExpr result must be the canonical bool View''
      | BinaryExpr left right d \<Rightarrow> checkBinary s left right d
      | UnaryExpr op e l \<Rightarrow> checkByteLength s l
      | TernaryExpr cond t e l \<Rightarrow> checkTernary s t e l
      | UnsignedExpr operand l \<Rightarrow>
          (case operand of
             None \<Rightarrow> [''UnsignedExpr requires an operand View'']
           | Some e \<Rightarrow> checkUnsigned s e l)
      | IntegerCastExpr e l isSigned \<Rightarrow> checkIntegerCast s l isSigned
      | TemplateViewExpr e l t a \<Rightarrow> checkTemplateView s e l t a
      | UserTemplateOpCallExpr callee es l t \<Rightarrow> checkByteLength s l @ checkTemplateName s t
      | UserTemplateFormatCallExpr callee v k f l \<Rightarrow> checkByteLength s l
      | FloatBinaryExpr a op b l \<Rightarrow> checkByteLength s l
      | FloatCompareExpr a op b l \<Rightarrow>
          whenever (\<not> canonicalBoolean s) ''FloatCompareExpr result must be the canonical bool View''
      | ToFloatExpr e l u f \<Rightarrow> checkByteLength s l
      | ToIntExpr e f l u \<Rightarrow> checkByteLength s l
      | CallExpr es d \<Rightarrow> checkCall c s es d
      | DynamicByteViewExpr op e r \<Rightarrow>
          (case readsExtent s r of Inl _ \<Rightarrow> [] | Inr extent \<Rightarrow> checkByteView s op extent)
      | ByteSwapExpr e l \<Rightarrow> checkByteLength s l
      | AssignmentExpr stores r l \<Rightarrow> checkAssignment s l)"

definition ownNullRead :: "ViewSemantics \<Rightarrow> ExprNode \<Rightarrow> bool" where
  "ownNullRead s n =
     (case n of DynamicByteViewExpr op e r \<Rightarrow> readsExtent s r = Inl NullOperand | _ \<Rightarrow> False)"

definition enterExpr :: "VerifyContext \<Rightarrow> ExprBase \<Rightarrow> ExprNode \<Rightarrow> VerifyState \<Rightarrow> VerifyState" where
  "enterExpr c b n st =
     (let st = report (expr_range b) (checkSemantics (expr_result b)) st;
          st = report (expr_range b) (ownMessages c (vs_captured st) (expr_result b) n) st in
      st\<lparr>vs_nullRead := vs_nullRead st \<or> ownNullRead (expr_result b) n\<rparr>)"

definition checkAssigned :: "ExprBase \<Rightarrow> Expr \<Rightarrow> VerifyState \<Rightarrow> VerifyState" where
  "checkAssigned b r st = report (expr_range b)
     (whenever (\<not> sameValueSemantics (exprResult r) (expr_result b))
        ''AssignmentExpr result does not match assigned View'') st"

definition checkPlanOpt :: "Expr \<Rightarrow> ConversionPlan option \<Rightarrow> string \<Rightarrow> VerifyState \<Rightarrow> VerifyState" where
  "checkPlanOpt v plan owner st = report (expr_range (exprBase v))
     (case plan of None \<Rightarrow> [] | Some p \<Rightarrow> checkConversionPlan p (exprResult v) owner False) st"

definition checkReturnCount :: "Expr list \<Rightarrow> ConversionPlan list \<Rightarrow> VerifyState \<Rightarrow> VerifyState" where
  "checkReturnCount vs plans st =
     (case vs of
        [] \<Rightarrow> st
      | v # _ \<Rightarrow> report (expr_range (exprBase v))
          (whenever (plans \<noteq> [] \<and> length plans \<noteq> length vs)
             ''Return conversion plan count does not match returned values'') st)"

definition checkRebindAddress :: "Expr \<Rightarrow> VerifyState \<Rightarrow> VerifyState" where
  "checkRebindAddress a st = report (expr_range (exprBase a))
     (whenever (\<not> isIntegerNumeric (exprResult a) \<and> category (exprResult a) \<noteq> Address \<and>
                category (exprResult a) \<noteq> Boolean)
        ''BindingRebind requires an integer or address source View'') st"

definition rebindIncomplete :: "StoreTarget \<Rightarrow> Expr option \<Rightarrow> bool" where
  "rebindIncomplete t address \<longleftrightarrow> store_bindingName t = [] \<or> store_targetByteLength t = 0 \<or> address = None"

text \<open>
  \<open>verExprs\<close> carries the conversion plans of a \<open>Return\<close>; every other list of expressions is
  walked with no plans.
\<close>

definition checkNextPlan :: "Expr \<Rightarrow> ConversionPlan list \<Rightarrow> VerifyState \<Rightarrow> VerifyState" where
  "checkNextPlan v plans st =
     (case plans of [] \<Rightarrow> st | p # _ \<Rightarrow> report (expr_range (exprBase v)) (checkReturned v p) st)"

primrec verExpr :: "Expr \<Rightarrow> VerifyContext \<Rightarrow> VerifyState \<Rightarrow> VerifyState"
  and verExprNode :: "ExprNode \<Rightarrow> ExprBase \<Rightarrow> VerifyContext \<Rightarrow> VerifyState \<Rightarrow> VerifyState"
  and verStmt :: "Stmt \<Rightarrow> VerifyContext \<Rightarrow> VerifyState \<Rightarrow> VerifyState"
  and verStmtNode :: "StmtNode \<Rightarrow> StmtBase \<Rightarrow> VerifyContext \<Rightarrow> VerifyState \<Rightarrow> VerifyState"
  and verBlock :: "Block \<Rightarrow> VerifyContext \<Rightarrow> VerifyState \<Rightarrow> VerifyState"
  and verExprs :: "Expr list \<Rightarrow> ConversionPlan list \<Rightarrow> VerifyContext \<Rightarrow> VerifyState \<Rightarrow> VerifyState"
  and verExprOpt :: "Expr option \<Rightarrow> VerifyContext \<Rightarrow> VerifyState \<Rightarrow> VerifyState"
  and verStmts :: "Stmt list \<Rightarrow> VerifyContext \<Rightarrow> VerifyState \<Rightarrow> VerifyState"
  and verStmtOpt :: "Stmt option \<Rightarrow> VerifyContext \<Rightarrow> VerifyState \<Rightarrow> VerifyState"
  and verBlockOpt :: "Block option \<Rightarrow> VerifyContext \<Rightarrow> VerifyState \<Rightarrow> VerifyState"
where
  "verExpr (Expr b n) = (\<lambda>c st. verExprNode n b c (enterExpr c b n st))"
| "verExprNode (IntegerLiteral v l) = (\<lambda>b c st. st)"
| "verExprNode (CharacterLiteral v l) = (\<lambda>b c st. st)"
| "verExprNode (StringLiteral v l) = (\<lambda>b c st. st)"
| "verExprNode (FloatLiteral v l) = (\<lambda>b c st. st)"
| "verExprNode (VariableRef d) = (\<lambda>b c st. st)"
| "verExprNode (CapturedViewRef n) = (\<lambda>b c st. st)"
| "verExprNode (AddressOfExpr d) = (\<lambda>b c st. st)"
| "verExprNode (DerefExpr e l) = (\<lambda>b c st. verExpr e c st)"
| "verExprNode (BooleanTestExpr e) = (\<lambda>b c st. verExpr e c st)"
| "verExprNode (BinaryExpr l r d) = (\<lambda>b c st. verExpr r c (verExpr l c st))"
| "verExprNode (UnaryExpr op e l) = (\<lambda>b c st. verExpr e c st)"
| "verExprNode (TernaryExpr p t e l) = (\<lambda>b c st. verExpr e c (verExpr t c (verExpr p c st)))"
| "verExprNode (UnsignedExpr e l) = (\<lambda>b c st. verExprOpt e c st)"
| "verExprNode (IntegerCastExpr e l s) = (\<lambda>b c st. verExpr e c st)"
| "verExprNode (TemplateViewExpr e l t a) = (\<lambda>b c st. verExpr e c st)"
| "verExprNode (UserTemplateOpCallExpr f es l t) = (\<lambda>b c st. verExprs es [] c st)"
| "verExprNode (FloatBinaryExpr x op y l) = (\<lambda>b c st. verExpr y c (verExpr x c st))"
| "verExprNode (FloatCompareExpr x op y l) = (\<lambda>b c st. verExpr y c (verExpr x c st))"
| "verExprNode (ToFloatExpr e l u f) = (\<lambda>b c st. verExpr e c st)"
| "verExprNode (ToIntExpr e f l u) = (\<lambda>b c st. verExpr e c st)"
| "verExprNode (UserTemplateFormatCallExpr g v s f l) = (\<lambda>b c st. verExprOpt f c (verExpr v c st))"
| "verExprNode (CallExpr es d) = (\<lambda>b c st. verExprs es [] c st)"
| "verExprNode (DynamicByteViewExpr op s r) = (\<lambda>b c st. verExprOpt r c (verExpr s c st))"
| "verExprNode (ByteSwapExpr e l) = (\<lambda>b c st. verExpr e c st)"
| "verExprNode (AssignmentExpr ss r l) = (\<lambda>b c st. verExprOpt r c
     ((case r of None \<Rightarrow> (\<lambda>s. s) | Some x \<Rightarrow> checkAssigned b x) (verStmts ss c st)))"
| "verStmt (Stmt b n) = (\<lambda>c st. verStmtNode n b c st)"
| "verStmtNode (CaptureView name e) = (\<lambda>b c st.
     (case e of None \<Rightarrow> (\<lambda>s. s) | Some x \<Rightarrow> emplaceCapture name x) (verExprOpt e c st))"
| "verStmtNode (StatementList ss) = (\<lambda>b c st. verStmts ss c st)"
| "verStmtNode (LocalMemory d) = (\<lambda>b c st. st)"
| "verStmtNode (BindingRebind t e) = (\<lambda>b c st.
     if rebindIncomplete t e then
       report (stmt_range b) [''BindingRebind requires a named positive-length target and address''] st
     else verExprOpt e c ((case e of None \<Rightarrow> (\<lambda>s. s) | Some a \<Rightarrow> checkRebindAddress a) st))"
| "verStmtNode (IntegerStore t e p) = (\<lambda>b c st. verExpr e c (checkPlanOpt e p ''IntegerStore'' st))"
| "verStmtNode (FloatStore t e p) = (\<lambda>b c st. verExpr e c (checkPlanOpt e p ''FloatStore'' st))"
| "verStmtNode (ViewCopyStore t e p) = (\<lambda>b c st. verExpr e c (checkPlanOpt e (Some p) ''ViewCopyStore'' st))"
| "verStmtNode (StringStore t v) = (\<lambda>b c st. st)"
| "verStmtNode (StringCopyStore t e s) = (\<lambda>b c st. verExprOpt e c st)"
| "verStmtNode (BoolStore t e) = (\<lambda>b c st. verExpr e c st)"
| "verStmtNode (PointerStore a l e) = (\<lambda>b c st. verExpr e c (verExpr a c st))"
| "verStmtNode (CallStmt es d) = (\<lambda>b c st. verExprs es [] c st)"
| "verStmtNode (UserTemplateOpCall f es l) = (\<lambda>b c st. verExprs es [] c st)"
| "verStmtNode (UserTemplateFormatCall g v s f l) = (\<lambda>b c st. verExprOpt f c (verExpr v c st))"
| "verStmtNode (MultiReturnCallStore f es ts) = (\<lambda>b c st. verExprs es [] c st)"
| "verStmtNode (InputCallStore g f fmt cts sts i) = (\<lambda>b c st. verExpr fmt c (verExprOpt f c st))"
| "verStmtNode (ReturnStmt es ps) = (\<lambda>b c st. verExprs es ps c (checkReturnCount es ps st))"
| "verStmtNode (IfStmt p t e) = (\<lambda>b c st. verBlockOpt e c (verBlock t c (verExpr p c st)))"
| "verStmtNode (WhileStmt p body) = (\<lambda>b c st. verBlock body c (verExpr p c st))"
| "verStmtNode (ForStmt i p post body) = (\<lambda>b c st.
     verBlock body c (verStmts post c (verExprOpt p c (verStmtOpt i c st))))"
| "verStmtNode BreakStmt = (\<lambda>b c st. st)"
| "verStmtNode ContinueStmt = (\<lambda>b c st. st)"
| "verStmtNode (GotoStmt l) = (\<lambda>b c st. st)"
| "verStmtNode (LabelStmt l s) = (\<lambda>b c st. verStmt s c st)"
| "verStmtNode (ThrowStmt s sl sn tt tn) = (\<lambda>b c st. verStmtOpt s c st)"
| "verStmtNode (TryCatchStmt t en eb et el h) = (\<lambda>b c st. verBlock h c (verBlock t c st))"
| "verBlock (Block ss r) = (\<lambda>c st. verStmts ss c st)"
| "verExprs [] = (\<lambda>plans c st. st)"
| "verExprs (e # es) = (\<lambda>plans c st. verExprs es (tl plans) c (verExpr e c (checkNextPlan e plans st)))"
| "verExprOpt None = (\<lambda>c st. st)"
| "verExprOpt (Some e) = (\<lambda>c st. verExpr e c st)"
| "verStmts [] = (\<lambda>c st. st)"
| "verStmts (s # ss) = (\<lambda>c st. verStmts ss c (verStmt s c st))"
| "verStmtOpt None = (\<lambda>c st. st)"
| "verStmtOpt (Some s) = (\<lambda>c st. verStmt s c st)"
| "verBlockOpt None = (\<lambda>c st. st)"
| "verBlockOpt (Some b) = (\<lambda>c st. verBlock b c st)"

definition functionContracts :: "TranslationUnit \<Rightarrow> string \<rightharpoonup> Function" where
  "functionContracts unit = map_of (map (\<lambda>f. (fn_name f, f)) (tu_functions unit))"

definition verifyFunction :: "VerifyContext \<Rightarrow> Function \<Rightarrow> VerifyState \<Rightarrow> VerifyState" where
  "verifyFunction c f st = verBlock (fn_body f) c (st\<lparr>vs_captured := Map.empty\<rparr>)"

definition verifyWalk :: "BuiltinTable \<Rightarrow> TranslationUnit \<Rightarrow> VerifyState" where
  "verifyWalk table unit =
     (let c = \<lparr>ctx_table = table, ctx_contracts = functionContracts unit\<rparr>;
          st = \<lparr>vs_diagnostics = [], vs_captured = Map.empty, vs_nullRead = False\<rparr> in
      fold (verifyFunction c) (tu_functions unit) (verBlockOpt (tu_globalInit unit) c st))"

definition verifyHIR :: "BuiltinTable \<Rightarrow> TranslationUnit \<Rightarrow> hir_error + Diagnostic list" where
  "verifyHIR table unit =
     (let st = verifyWalk table unit in
      if vs_nullRead st then Inl NullOperand else Inr (vs_diagnostics st))"

end
