(* ===== verification/HIR_VerifySound.thy ===== *)
theory HIR_VerifySound
  imports HIR_Verify
begin

text \<open>
  What acceptance by \<open>verifyHIR\<close> guarantees.  The walk is first rewritten as a sequence of
  actions per node; acceptance then propagates from a node to every action in it, so that every
  node that is reachable from the unit has passed its checks.
\<close>

section \<open>The walk as a sequence of actions\<close>

datatype (plugins only: size) action =
    Visit Expr
  | Exec Stmt
  | Say "SourceRange option" "string list"
  | Capture string Expr

definition act :: "VerifyContext \<Rightarrow> action \<Rightarrow> VerifyState \<Rightarrow> VerifyState" where
  "act c a = (case a of
     Visit e \<Rightarrow> verExpr e c | Exec s \<Rightarrow> verStmt s c | Say r msgs \<Rightarrow> report r msgs
   | Capture name e \<Rightarrow> emplaceCapture name e)"

lemma act_simps [simp]:
  "act c (Visit e) = verExpr e c" "act c (Exec s) = verStmt s c"
  "act c (Say r msgs) = report r msgs" "act c (Capture name e) = emplaceCapture name e"
  by (simp_all add: act_def)

definition exprSteps :: "ExprBase \<Rightarrow> ExprNode \<Rightarrow> action list" where
  "exprSteps b n =
     (case n of
        AssignmentExpr ss r l \<Rightarrow> map Exec ss @
          (case r of
             None \<Rightarrow> []
           | Some x \<Rightarrow> [Say (expr_range b)
               (whenever (\<not> sameValueSemantics (exprResult x) (expr_result b))
                  ''AssignmentExpr result does not match assigned View''), Visit x])
      | _ \<Rightarrow> map Visit (exprExprs n))"

definition planSteps :: "Expr \<Rightarrow> ConversionPlan option \<Rightarrow> string \<Rightarrow> action list" where
  "planSteps v plan owner = [Say (expr_range (exprBase v))
     (case plan of None \<Rightarrow> [] | Some p \<Rightarrow> checkConversionPlan p (exprResult v) owner False), Visit v]"

primrec returnSteps :: "Expr list \<Rightarrow> ConversionPlan list \<Rightarrow> action list" where
  "returnSteps [] plans = []"
| "returnSteps (v # vs) plans =
     Say (expr_range (exprBase v)) (case plans of [] \<Rightarrow> [] | p # _ \<Rightarrow> checkReturned v p) # Visit v #
     returnSteps vs (tl plans)"

definition stmtSteps :: "StmtBase \<Rightarrow> StmtNode \<Rightarrow> action list" where
  "stmtSteps b n =
     (case n of
        CaptureView name e \<Rightarrow> (case e of None \<Rightarrow> [] | Some x \<Rightarrow> [Visit x, Capture name x])
      | BindingRebind t e \<Rightarrow>
          if rebindIncomplete t e then
            [Say (stmt_range b) [''BindingRebind requires a named positive-length target and address'']]
          else (case e of
             None \<Rightarrow> []
           | Some a \<Rightarrow> [Say (expr_range (exprBase a))
               (whenever (\<not> isIntegerNumeric (exprResult a) \<and> category (exprResult a) \<noteq> Address \<and>
                  category (exprResult a) \<noteq> Boolean)
                  ''BindingRebind requires an integer or address source View''), Visit a])
      | IntegerStore t e p \<Rightarrow> planSteps e p ''IntegerStore''
      | FloatStore t e p \<Rightarrow> planSteps e p ''FloatStore''
      | ViewCopyStore t e p \<Rightarrow> planSteps e (Some p) ''ViewCopyStore''
      | ReturnStmt vs ps \<Rightarrow>
          (case vs of
             [] \<Rightarrow> []
           | v # _ \<Rightarrow> [Say (expr_range (exprBase v))
               (whenever (ps \<noteq> [] \<and> length ps \<noteq> length vs)
                  ''Return conversion plan count does not match returned values'')]) @ returnSteps vs ps
      | ForStmt i p post body \<Rightarrow> map Exec (opt_list i) @ map Visit (opt_list p) @ map Exec (post @ blockStmts body)
      | _ \<Rightarrow> map Visit (stmtExprs n) @ map Exec (stmtStmts n))"

lemma verExprs_fold: "verExprs es [] c st = fold (act c) (map Visit es) st"
  by (induction es arbitrary: st) (simp_all add: checkNextPlan_def)

lemma verExprs_returns: "verExprs es ps c st = fold (act c) (returnSteps es ps) st"
proof (induction es arbitrary: ps st)
  case (Cons e es)
  then show ?case by (cases ps) (simp_all add: checkNextPlan_def report_def)
qed simp

lemma verStmts_fold: "verStmts ss c st = fold (act c) (map Exec ss) st"
  by (induction ss arbitrary: st) simp_all

lemma verBlock_fold: "verBlock b c st = fold (act c) (map Exec (blockStmts b)) st"
  by (cases b) (simp add: verStmts_fold)

lemma verBlockOpt_fold:
  "verBlockOpt bo c st = fold (act c) (map Exec (case bo of None \<Rightarrow> [] | Some b \<Rightarrow> blockStmts b)) st"
  by (cases bo) (simp_all add: verBlock_fold)

lemma verOpt_fold:
  "verExprOpt eo c st = fold (act c) (map Visit (opt_list eo)) st"
  "verStmtOpt so c st = fold (act c) (map Exec (opt_list so)) st"
  by (cases eo; simp) (cases so; simp)

lemmas walk_folds = verExprs_fold verStmts_fold verBlock_fold verBlockOpt_fold verOpt_fold

lemma report_Nil [simp]: "report r [] st = st"
  by (simp add: report_def)

lemma verExprNode_steps: "verExprNode n b c st = fold (act c) (exprSteps b n) st"
  by (cases n) (simp_all add: exprSteps_def walk_folds checkAssigned_def split: option.split)

lemma returnSteps_no_plans: "fold (act c) (returnSteps es []) st = fold (act c) (map Visit es) st"
  by (induction es arbitrary: st) simp_all

lemma verStmtNode_steps: "verStmtNode n b c st = fold (act c) (stmtSteps b n) st"
  by (cases n)
    (simp_all add: stmtSteps_def planSteps_def stmtStmts_def walk_folds verExprs_returns returnSteps_no_plans checkPlanOpt_def
      checkReturnCount_def checkRebindAddress_def split: option.split list.split)

lemma verExpr_steps: "verExpr (Expr b n) c st = fold (act c) (exprSteps b n) (enterExpr c b n st)"
  by (simp add: verExprNode_steps)

lemma verStmt_steps: "verStmt (Stmt b n) c st = fold (act c) (stmtSteps b n) st"
  by (simp add: verStmtNode_steps)

declare verExpr.simps [simp del] verStmt.simps [simp del]

text \<open>The actions are about the children of the node.\<close>

lemma set_returnSteps:
  "Visit e \<in> set (returnSteps es ps) \<longleftrightarrow> e \<in> set es"
  "Exec s \<notin> set (returnSteps es ps)" "Capture x e \<notin> set (returnSteps es ps)"
  by (induction es arbitrary: ps) auto

lemma exprSteps_children:
  "Visit e \<in> set (exprSteps b n) \<longleftrightarrow> e \<in> set (exprExprs n)"
  "Exec s \<in> set (exprSteps b n) \<longleftrightarrow> s \<in> set (exprStmts n)"
  "Capture x e \<notin> set (exprSteps b n)"
  by (cases n; auto simp: exprSteps_def exprStmts_def split: option.split)+

lemma stmtSteps_visits:
  "Visit e \<in> set (stmtSteps b n) \<Longrightarrow> e \<in> set (stmtExprs n)"
  by (cases n) (auto simp: stmtSteps_def planSteps_def stmtStmts_def set_returnSteps split: option.splits if_splits list.splits)

lemma stmtSteps_execs:
  "Exec s \<in> set (stmtSteps b n) \<longleftrightarrow> s \<in> set (stmtStmts n)"
  by (cases n) (auto simp: stmtSteps_def planSteps_def stmtStmts_def set_returnSteps split: option.splits if_splits list.splits)

lemma stmtSteps_captures:
  "Capture x e \<in> set (stmtSteps b n) \<longleftrightarrow> n = CaptureView x (Some e)"
  by (cases n) (auto simp: stmtSteps_def planSteps_def stmtStmts_def set_returnSteps split: option.splits if_splits list.splits)

text \<open>Only an incomplete rebind, which is reported, hides its operand from the walk.\<close>

definition ownStmtMessages :: "StmtBase \<Rightarrow> StmtNode \<Rightarrow> string list" where
  "ownStmtMessages b n = concat (map (\<lambda>a. case a of Say r msgs \<Rightarrow> msgs | _ \<Rightarrow> []) (stmtSteps b n))"

lemma stmtSteps_visits_all:
  "ownStmtMessages b n = [] \<Longrightarrow> e \<in> set (stmtExprs n) \<Longrightarrow> Visit e \<in> set (stmtSteps b n)"
  by (cases n)
    (auto simp: ownStmtMessages_def stmtSteps_def planSteps_def stmtStmts_def set_returnSteps
      split: option.splits if_splits list.splits)

section \<open>Acceptance propagates\<close>

definition silent :: "VerifyState \<Rightarrow> bool" where
  "silent st \<longleftrightarrow> vs_diagnostics st = [] \<and> \<not> vs_nullRead st"

lemma silent_report [simp]: "silent (report r msgs st) \<longleftrightarrow> silent st \<and> msgs = []"
  by (auto simp: silent_def report_def)

lemma silent_enter [simp]:
  "silent (enterExpr c b n st) \<longleftrightarrow> silent st \<and> checkSemantics (expr_result b) = [] \<and>
     ownMessages c (vs_captured st) (expr_result b) n = [] \<and> \<not> ownNullRead (expr_result b) n"
  by (auto simp: enterExpr_def Let_def silent_def report_def)

lemma silent_emplace: "silent (emplaceCapture x e st) \<longleftrightarrow> silent st \<and> vs_captured st x = None"
  by (auto simp: emplaceCapture_def silent_def report_def split: option.split)

lemma fold_silent:
  assumes "\<And>a st. a \<in> set as \<Longrightarrow> silent (f a st) \<Longrightarrow> silent st"
  shows "silent (fold f as st) \<Longrightarrow> silent st"
  using assms by (induction as arbitrary: st) auto

lemma silent_back:
  "silent (verExpr e c st) \<Longrightarrow> silent st"
  "silent (verStmt s c st) \<Longrightarrow> silent st"
proof -
  have "\<forall>st. silent (verExpr e c st) \<longrightarrow> silent st" and "\<forall>st. silent (verStmt s c st) \<longrightarrow> silent st"
  proof (induction e and s rule: children_induct)
    case (1 b n)
    have "silent (fold (act c) (exprSteps b n) st) \<Longrightarrow> silent st" for st
    proof (rule fold_silent)
      fix a st
      assume "a \<in> set (exprSteps b n)" and "silent (act c a st)"
      then show "silent st" using 1
        by (cases a rule: action.exhaust) (auto simp: exprSteps_children)
    qed
    then show ?case by (force simp: verExpr_steps)
  next
    case (2 b n)
    have "silent (fold (act c) (stmtSteps b n) st) \<Longrightarrow> silent st" for st
    proof (rule fold_silent)
      fix a st
      assume "a \<in> set (stmtSteps b n)" and "silent (act c a st)"
      then show "silent st" using 2
        by (cases a rule: action.exhaust) (auto simp: stmtSteps_execs silent_emplace dest: stmtSteps_visits)
    qed
    then show ?case by (auto simp: verStmt_steps)
  qed
  then show "silent (verExpr e c st) \<Longrightarrow> silent st" and "silent (verStmt s c st) \<Longrightarrow> silent st" by blast+
qed

lemma silent_act: "silent (act c a st) \<Longrightarrow> silent st"
  by (cases a) (auto simp: silent_emplace dest: silent_back)

section \<open>Captured Views come from reachable captures\<close>

definition captureOf :: "Stmt list \<Rightarrow> string \<Rightarrow> ViewSemantics \<Rightarrow> bool" where
  "captureOf body x s \<longleftrightarrow> (\<exists>b e. reach_stmt body (Stmt b (CaptureView x (Some e))) \<and> s = exprResult e)"

definition capturesFrom :: "Stmt list \<Rightarrow> VerifyState \<Rightarrow> bool" where
  "capturesFrom body st \<longleftrightarrow> (\<forall>x s. vs_captured st x = Some s \<longrightarrow> captureOf body x s)"

lemma captureOf_reach: "reach_stmt body (Stmt b (CaptureView x (Some e))) \<Longrightarrow> captureOf body x (exprResult e)"
  by (auto simp: captureOf_def)

lemma capturesFrom_report [simp]: "capturesFrom body (report r msgs st) = capturesFrom body st"
  by (simp add: capturesFrom_def report_def)

lemma capturesFrom_enter [simp]: "capturesFrom body (enterExpr c b n st) = capturesFrom body st"
  by (simp add: capturesFrom_def enterExpr_def Let_def report_def)

lemma capturesFrom_emplace:
  "capturesFrom body st \<Longrightarrow> captureOf body x (exprResult e) \<Longrightarrow> capturesFrom body (emplaceCapture x e st)"
  by (auto simp: capturesFrom_def emplaceCapture_def report_def split: option.split)

lemma fold_invariant_act:
  assumes "\<And>a st. a \<in> set as \<Longrightarrow> I st \<Longrightarrow> I (f a st)"
  shows "I st \<Longrightarrow> I (fold f as st)"
  using assms by (induction as arbitrary: st) auto

lemma captures_preserved:
  "reach_expr body e \<Longrightarrow> capturesFrom body st \<Longrightarrow> capturesFrom body (verExpr e c st)"
  "reach_stmt body s \<Longrightarrow> capturesFrom body st \<Longrightarrow> capturesFrom body (verStmt s c st)"
proof -
  have "reach_expr body e \<longrightarrow> (\<forall>st. capturesFrom body st \<longrightarrow> capturesFrom body (verExpr e c st))"
    and "reach_stmt body s \<longrightarrow> (\<forall>st. capturesFrom body st \<longrightarrow> capturesFrom body (verStmt s c st))"
  proof (induction e and s rule: children_induct)
    case (1 b n)
    have "capturesFrom body (fold (act c) (exprSteps b n) st)"
      if r: "reach_expr body (Expr b n)" and "capturesFrom body st" for st
    proof (rule fold_invariant_act [where I = "capturesFrom body", OF _ that(2)])
      fix a st
      assume "a \<in> set (exprSteps b n)" and "capturesFrom body st"
      then show "capturesFrom body (act c a st)" using 1 r
        by (cases a rule: action.exhaust) (auto simp: exprSteps_children dest: reach_ee reach_es)
    qed
    then show ?case by (simp add: verExpr_steps)
  next
    case (2 b n)
    have "capturesFrom body (fold (act c) (stmtSteps b n) st)"
      if r: "reach_stmt body (Stmt b n)" and "capturesFrom body st" for st
    proof (rule fold_invariant_act [where I = "capturesFrom body", OF _ that(2)])
      fix a st
      assume "a \<in> set (stmtSteps b n)" and "capturesFrom body st"
      then show "capturesFrom body (act c a st)" using 2 r
        by (cases a rule: action.exhaust)
          (auto simp: stmtSteps_execs stmtSteps_captures intro!: capturesFrom_emplace intro: captureOf_reach
            dest: reach_se reach_ss dest!: stmtSteps_visits)
    qed
    then show ?case by (simp add: verStmt_steps)
  qed
  then show "reach_expr body e \<Longrightarrow> capturesFrom body st \<Longrightarrow> capturesFrom body (verExpr e c st)"
    and "reach_stmt body s \<Longrightarrow> capturesFrom body st \<Longrightarrow> capturesFrom body (verStmt s c st)" by blast+
qed

section \<open>Every reachable node passes\<close>

definition passesExpr :: "VerifyContext \<Rightarrow> Stmt list \<Rightarrow> Expr \<Rightarrow> bool" where
  "passesExpr c body e \<longleftrightarrow> (\<exists>st. capturesFrom body st \<and> silent (verExpr e c st))"

definition passesStmt :: "VerifyContext \<Rightarrow> Stmt list \<Rightarrow> Stmt \<Rightarrow> bool" where
  "passesStmt c body s \<longleftrightarrow> (\<exists>st. capturesFrom body st \<and> silent (verStmt s c st))"

lemma fold_silent_member:
  assumes "silent (fold (act c) as st)" and "I st" and "a \<in> set as"
    and "\<And>a st. a \<in> set as \<Longrightarrow> I st \<Longrightarrow> I (act c a st)"
  shows "\<exists>st'. I st' \<and> silent (act c a st')"
  using assms
proof (induction as arbitrary: st)
  case (Cons x xs)
  show ?case
  proof (cases "a = x")
    case True
    then show ?thesis using Cons.prems fold_silent [of xs "act c"] silent_act by (metis fold_simps(2))
  next
    case False
    have "I (act c x st)" using Cons.prems by simp
    with False Cons.prems Cons.IH [of "act c x st"] show ?thesis by simp
  qed
qed simp

lemma act_captures_expr:
  assumes "reach_expr body (Expr b n)" and "a \<in> set (exprSteps b n)" and "capturesFrom body st"
  shows "capturesFrom body (act c a st)"
  using assms by (cases a rule: action.exhaust)
    (auto simp: exprSteps_children intro: captures_preserved reach_ee reach_es)

lemma act_captures_stmt:
  assumes "reach_stmt body (Stmt b n)" and "a \<in> set (stmtSteps b n)" and "capturesFrom body st"
  shows "capturesFrom body (act c a st)"
  using assms by (cases a rule: action.exhaust)
    (auto simp: stmtSteps_execs stmtSteps_captures intro!: capturesFrom_emplace
      intro: captureOf_reach captures_preserved reach_se reach_ss stmtSteps_visits)

lemma passesExpr_action:
  assumes "reach_expr body (Expr b n)" and "passesExpr c body (Expr b n)" and "a \<in> set (exprSteps b n)"
  shows "\<exists>st. capturesFrom body st \<and> silent (act c a st)"
proof -
  from assms(2) obtain st where "capturesFrom body st" "silent (fold (act c) (exprSteps b n) (enterExpr c b n st))"
    by (auto simp: passesExpr_def verExpr_steps)
  then show ?thesis
    using fold_silent_member [of c "exprSteps b n" "enterExpr c b n st" "capturesFrom body" a]
      act_captures_expr [OF assms(1)] assms(3) by simp
qed

lemma passesStmt_action:
  assumes "reach_stmt body (Stmt b n)" and "passesStmt c body (Stmt b n)" and "a \<in> set (stmtSteps b n)"
  shows "\<exists>st. capturesFrom body st \<and> silent (act c a st)"
proof -
  from assms(2) obtain st where "capturesFrom body st" "silent (fold (act c) (stmtSteps b n) st)"
    by (auto simp: passesStmt_def verStmt_steps)
  then show ?thesis
    using fold_silent_member [of c "stmtSteps b n" st "capturesFrom body" a]
      act_captures_stmt [OF assms(1)] assms(3) by simp
qed

lemma passesStmt_messages:
  assumes "reach_stmt body (Stmt b n)" and "passesStmt c body (Stmt b n)"
  shows "ownStmtMessages b n = []"
proof -
  have "msgs = []" if "Say r msgs \<in> set (stmtSteps b n)" for r msgs
    using passesStmt_action [OF assms that] by auto
  then show ?thesis by (auto simp: ownStmtMessages_def split: action.splits)
qed

lemma reach_passes:
  assumes "\<And>s. s \<in> set body \<Longrightarrow> passesStmt c body s"
  shows "reach_expr body e \<Longrightarrow> passesExpr c body e" and "reach_stmt body s \<Longrightarrow> passesStmt c body s"
proof (induction rule: reach_expr_reach_stmt.inducts)
  case (reach_root s)
  then show ?case by (rule assms)
next
  case (reach_ee b n e)
  then show ?case using passesExpr_action [of body b n c "Visit e"] by (auto simp: exprSteps_children passesExpr_def)
next
  case (reach_es b n s)
  then show ?case using passesExpr_action [of body b n c "Exec s"] by (auto simp: exprSteps_children passesStmt_def)
next
  case (reach_se b m e)
  then have "Visit e \<in> set (stmtSteps b m)" using passesStmt_messages stmtSteps_visits_all by blast
  with reach_se show ?case using passesStmt_action [of body b m c "Visit e"] by (auto simp: passesExpr_def)
next
  case (reach_ss b m s)
  then show ?case using passesStmt_action [of body b m c "Exec s"] by (auto simp: stmtSteps_execs passesStmt_def)
qed

section \<open>Accepted units\<close>

text \<open>The statement lists the walk starts from, each with an empty map of captures.\<close>

definition unitBodies :: "TranslationUnit \<Rightarrow> Stmt list list" where
  "unitBodies unit =
     (case tu_globalInit unit of Some b \<Rightarrow> blockStmts b | None \<Rightarrow> []) #
     map (\<lambda>f. blockStmts (fn_body f)) (tu_functions unit)"

definition unitContext :: "BuiltinTable \<Rightarrow> TranslationUnit \<Rightarrow> VerifyContext" where
  "unitContext table unit = \<lparr>ctx_table = table, ctx_contracts = functionContracts unit\<rparr>"

definition silentStart :: "VerifyState \<Rightarrow> bool" where
  "silentStart st \<longleftrightarrow> silent st \<and> vs_captured st = Map.empty"

lemma verifyFunction_steps:
  "verifyFunction c f st = fold (act c) (map Exec (blockStmts (fn_body f))) (st\<lparr>vs_captured := Map.empty\<rparr>)"
  by (simp add: verifyFunction_def verBlock_fold)

lemma silent_clear [simp]: "silent (st\<lparr>vs_captured := m\<rparr>) = silent st"
  by (simp add: silent_def)

lemma silent_fold_act: "silent (fold (act c) as st) \<Longrightarrow> silent st"
  by (rule fold_silent [of as "act c"]) (rule silent_act)

lemma silent_verifyFunction: "silent (verifyFunction c f st) \<Longrightarrow> silent st"
  using silent_fold_act by (fastforce simp: verifyFunction_steps)

lemma silent_functions:
  assumes "silent (fold (verifyFunction c) fs st)" and "f \<in> set fs"
  shows "\<exists>st'. silentStart st' \<and> silent (fold (act c) (map Exec (blockStmts (fn_body f))) st')"
  using assms
proof (induction fs arbitrary: st)
  case (Cons g fs)
  have "silent (verifyFunction c g st)"
  proof (rule fold_silent [of fs "verifyFunction c"])
    show "silent (fold (verifyFunction c) fs (verifyFunction c g st))" using Cons.prems(1) by simp
  qed (rule silent_verifyFunction)
  then have "silentStart (st\<lparr>vs_captured := Map.empty\<rparr>)"
    and "silent (fold (act c) (map Exec (blockStmts (fn_body g))) (st\<lparr>vs_captured := Map.empty\<rparr>))"
    using silent_verifyFunction [of c g st] by (simp_all add: silentStart_def verifyFunction_steps)
  moreover have "\<exists>st'. silentStart st' \<and> silent (fold (act c) (map Exec (blockStmts (fn_body f))) st')"
    if "f \<in> set fs" using Cons.IH [OF _ that] Cons.prems(1) by simp
  ultimately show ?case using Cons.prems(2) by (cases "f = g") auto
qed simp

lemma verifyHIR_silent: "verifyHIR table unit = Inr [] \<longleftrightarrow> silent (verifyWalk table unit)"
  by (auto simp: verifyHIR_def silent_def Let_def)

lemma accepted_body:
  assumes "verifyHIR table unit = Inr []" and "body \<in> set (unitBodies unit)"
  shows "\<exists>st. silentStart st \<and> silent (fold (act (unitContext table unit)) (map Exec body) st)"
proof -
  let ?c = "unitContext table unit"
  let ?st = "\<lparr>vs_diagnostics = [], vs_captured = Map.empty, vs_nullRead = False\<rparr>"
  have s: "silent (fold (verifyFunction ?c) (tu_functions unit) (verBlockOpt (tu_globalInit unit) ?c ?st))"
    using assms(1) by (simp add: verifyHIR_silent verifyWalk_def unitContext_def Let_def)
  then have "silent (verBlockOpt (tu_globalInit unit) ?c ?st)"
    using fold_silent [of "tu_functions unit" "verifyFunction ?c"] silent_verifyFunction by blast
  moreover have "silentStart ?st" by (simp add: silentStart_def silent_def)
  ultimately show ?thesis
    using assms(2) silent_functions [OF s] by (auto simp: unitBodies_def verBlockOpt_fold split: option.splits)
qed

lemma accepted_passes:
  assumes "verifyHIR table unit = Inr []" and "body \<in> set (unitBodies unit)"
  shows "reach_expr body e \<Longrightarrow> passesExpr (unitContext table unit) body e"
    and "reach_stmt body s \<Longrightarrow> passesStmt (unitContext table unit) body s"
proof -
  let ?c = "unitContext table unit"
  obtain st where st: "silentStart st" and s: "silent (fold (act ?c) (map Exec body) st)"
    using accepted_body [OF assms] by blast
  have "passesStmt ?c body x" if "x \<in> set body" for x
  proof -
    have "capturesFrom body st" using st by (simp add: silentStart_def capturesFrom_def)
    moreover have "capturesFrom body (act ?c a st)" if "a \<in> set (map Exec body)" "capturesFrom body st" for a st
      using that captures_preserved(2) [OF reach_root] by auto
    ultimately show ?thesis
      using fold_silent_member [OF s, of "capturesFrom body" "Exec x"] that by (auto simp: passesStmt_def)
  qed
  then show "reach_expr body e \<Longrightarrow> passesExpr ?c body e" and "reach_stmt body s \<Longrightarrow> passesStmt ?c body s"
    by (auto intro: reach_passes)
qed

lemma passesExpr_checks:
  assumes "passesExpr c body e"
  shows "\<exists>captured. (\<forall>x s. captured x = Some s \<longrightarrow> captureOf body x s) \<and> checkSemantics (exprResult e) = [] \<and>
    ownMessages c captured (exprResult e) (exprNode e) = [] \<and> \<not> ownNullRead (exprResult e) (exprNode e)"
proof (cases e)
  case (Expr b n)
  with assms obtain st where "capturesFrom body st" "silent (enterExpr c b n st)"
    by (auto simp: passesExpr_def verExpr_steps dest: silent_fold_act)
  with Expr show ?thesis by (auto simp: capturesFrom_def)
qed

text \<open>The check of an assignment expression that follows its stores.\<close>

definition assignedMatches :: "Expr \<Rightarrow> bool" where
  "assignedMatches e \<longleftrightarrow> (case exprNode e of
     AssignmentExpr ss r l \<Rightarrow> (case r of None \<Rightarrow> True | Some x \<Rightarrow> sameValueSemantics (exprResult x) (exprResult e))
   | _ \<Rightarrow> True)"

lemma exprSteps_say:
  "(\<forall>r msgs. Say r msgs \<in> set (exprSteps b n) \<longrightarrow> msgs = []) \<longleftrightarrow> assignedMatches (Expr b n)"
  by (cases n) (auto simp: exprSteps_def assignedMatches_def split: option.splits)

lemma passesExpr_assigned:
  assumes "reach_expr body e" and "passesExpr c body e"
  shows "assignedMatches e"
proof (cases e)
  case (Expr b n)
  then show ?thesis
    using passesExpr_action [of body b n c] assms by (fastforce simp flip: exprSteps_say)
qed

section \<open>Properties\<close>

text \<open>
  C1. Soundness of the verifier.  In a unit it accepts, every expression that is reachable from
  the global initialiser or a function body, however deeply nested, has a well-formed result View
  and passes the checks of its node class; and every reachable statement passes its own checks.
\<close>

theorem verifyHIR_sound:
  assumes "verifyHIR table unit = Inr []" and "body \<in> set (unitBodies unit)"
  shows "(reach_expr body e \<longrightarrow> checkSemantics (exprResult e) = [] \<and> \<not> ownNullRead (exprResult e) (exprNode e) \<and>
            assignedMatches e \<and> (\<exists>captured. ownMessages (unitContext table unit) captured (exprResult e) (exprNode e) = [])) \<and>
         (reach_stmt body (Stmt b n) \<longrightarrow> ownStmtMessages b n = [])"
  using accepted_passes [OF assms] passesExpr_checks passesExpr_assigned passesStmt_messages by blast

text \<open>
  C32. Captured Views.  In an accepted unit every reference to a captured View is backed by a
  \<open>CaptureView\<close> of the same function body with the same name, whose source has exactly the
  View semantics the reference claims.
\<close>

theorem verifyHIR_captures:
  assumes "verifyHIR table unit = Inr []" and "body \<in> set (unitBodies unit)"
    and "reach_expr body e" and "exprNode e = CapturedViewRef name"
  shows "\<exists>b source. reach_stmt body (Stmt b (CaptureView name (Some source))) \<and>
    sameSemantics (exprResult source) (exprResult e)"
proof -
  obtain captured where c: "\<forall>x s. captured x = Some s \<longrightarrow> captureOf body x s"
    and m: "ownMessages (unitContext table unit) captured (exprResult e) (exprNode e) = []"
    using passesExpr_checks [OF accepted_passes(1) [OF assms(1-3)]] by blast
  from m assms(4) obtain s where "captured name = Some s" "sameSemantics s (exprResult e)"
    by (auto simp: ownMessages_def checkCaptured_def split: option.splits)
  with c have "captureOf body name s" by blast
  with \<open>sameSemantics s (exprResult e)\<close> show ?thesis by (auto simp: captureOf_def)
qed

lemma checkContract_silent:
  assumes "checkContract c arguments d = []" and "call_builtin d = BNone" and "ctx_contracts c (call_callee d) = Some f"
  shows "length (fn_parameters f) = length arguments" and "i < length arguments \<Longrightarrow>
    sameValueSemantics (plan_destination (call_argumentPlans d ! i)) (param_valueSemantics (fn_parameters f ! i))"
  using assms by (auto simp: checkContract_def split: if_splits)

lemma checkArgumentPlans_silent:
  assumes "checkArgumentPlans table b arguments plans = []" and "i < length arguments"
  shows "checkConversionPlan (plans ! i)
    (if isIntegerCast (arguments ! i) \<and> \<not> viewParameterAt table b i then operandResult (arguments ! i)
     else exprResult (arguments ! i)) ''CallExpr argument'' (viewParameterAt table b i) = []"
  using assms by (auto simp: checkArgumentPlans_def Let_def)

text \<open>
  C3. Call contracts.  In an accepted unit every call expression, of a builtin or of a function, also one without
  arguments, carries exactly one conversion plan for each argument, which starts from the View of the argument (of the
  operand of a width cast where no View is asked for).  A call to a function of the unit passes exactly as
  many arguments as the function has parameters, and each plan ends in the View of its parameter.
\<close>

theorem verifyHIR_call_contract:
  assumes "verifyHIR table unit = Inr []" and "body \<in> set (unitBodies unit)"
    and "reach_expr body e" and "exprNode e = CallExpr arguments d"
  shows "length (call_argumentPlans d) = length arguments \<and>
    (\<forall>i < length arguments. sameValueSemantics (plan_source (call_argumentPlans d ! i))
      (if isIntegerCast (arguments ! i) \<and> \<not> viewParameterAt table (call_builtin d) i then operandResult (arguments ! i)
       else exprResult (arguments ! i))) \<and>
    (\<forall>f. call_builtin d = BNone \<and> functionContracts unit (call_callee d) = Some f \<longrightarrow>
      length (fn_parameters f) = length arguments \<and>
      (\<forall>i < length arguments. sameValueSemantics (plan_destination (call_argumentPlans d ! i))
        (param_valueSemantics (fn_parameters f ! i))))"
proof -
  let ?c = "unitContext table unit"
  have "checkCall ?c (exprResult e) arguments d = []"
    using passesExpr_checks [OF accepted_passes(1) [OF assms(1-3)]] assms(4) by (auto simp: ownMessages_def)
  then have n: "length (call_argumentPlans d) = length arguments"
    and p: "checkArgumentPlans table (call_builtin d) arguments (call_argumentPlans d) = []"
    and k: "checkContract ?c arguments d = []"
    by (auto simp: checkCall_def unitContext_def split: if_splits)
  have contracts: "ctx_contracts ?c = functionContracts unit" by (simp add: unitContext_def)
  have "sameValueSemantics (plan_source (call_argumentPlans d ! i))
      (if isIntegerCast (arguments ! i) \<and> \<not> viewParameterAt table (call_builtin d) i then operandResult (arguments ! i)
       else exprResult (arguments ! i))" if "i < length arguments" for i
    using checkArgumentPlans_silent [OF p that] by (simp add: checkConversionPlan_def)
  then show ?thesis using n checkContract_silent [OF k, unfolded contracts] by blast
qed

text \<open>
  Comparisons are booleans.  In an accepted unit every binary expression carries a resolved
  operator, every comparison and logical operation yields the canonical one-byte \<open>bool\<close> View, and
  address facts occur exactly on address arithmetic, where they are never base addresses.
\<close>

theorem verifyHIR_binary:
  assumes "verifyHIR table unit = Inr []" and "body \<in> set (unitBodies unit)"
    and "reach_expr body e" and "exprNode e = BinaryExpr left right d"
  shows "bin_operation d \<noteq> UnknownOp \<and>
    (isBooleanResultOperation (bin_operation d) \<longrightarrow> exprResult e = booleanTestResultSemantics) \<and>
    (bin_addressFacts d \<noteq> None \<longleftrightarrow> bin_operationKind d = AddressOffset) \<and>
    (\<forall>f. bin_addressFacts d = Some f \<longrightarrow> origin f = PointerDerived \<and> \<not> isBaseAddress f)"
proof -
  have m: "checkBinary (exprResult e) left right d = []"
    using passesExpr_checks [OF accepted_passes(1) [OF assms(1-3)]] assms(4) by (auto simp: ownMessages_def)
  have "sameSemantics s t \<Longrightarrow> s = t" for s t by (cases s; cases t) (simp add: sameSemantics_def)
  with m show ?thesis
    by (auto simp: checkBinary_def canonicalBoolean_def checkAddressOffset_def split: if_splits option.splits)
qed

section \<open>An accepted unit\<close>

definition u64View :: ViewSemantics where
  "u64View = viewSemanticsForTemplate ''u64'' 8 False False Signed"

definition exampleCapture :: Stmt where
  "exampleCapture = mkStmt None (CaptureView ''t'' (Some (u64Literal ''7'')))"

definition exampleRef :: Expr where
  "exampleRef = mkCapturedViewRef None ''t'' u64View"

definition exampleCall :: Expr where
  "exampleCall = projr (mkCallExpr emptyTable None ''twice'' [exampleRef] False BNone [] 0 ''u64'' u64View)"

definition exampleTest :: Expr where
  "exampleTest = projr (mkBinaryExpr None exampleCall ''=='' exampleRef booleanTestResultSemantics StandardInteger)"

definition exampleBody :: "Stmt list" where
  "exampleBody = [exampleCapture, mkStmt None (IfStmt exampleTest (Block [] None) None)]"

definition exampleTwice :: Function where
  "exampleTwice = mkFunction None ''twice'' [mkParameterView None ''x'' ''x'' u64View] [8] (Block [] None)"

definition exampleUnit :: TranslationUnit where
  "exampleUnit = \<lparr>tu_globals = [], tu_structs = [], tu_viewTemplates = [], tu_implOps = [], tu_externFunctions = [],
     tu_functions = [exampleTwice, mkFunction None ''main'' [] [] (Block exampleBody None)], tu_globalInit = None\<rparr>"

lemma u64View_eq:
  "u64View = \<lparr>category = UnsignedInteger, integerInterpretation = Unsigned, lengthKind = Static, staticByteLength = 8,
     templateName = ''u64'', isAddressable = False, isMutableLValue = False\<rparr>"
  by (simp add: u64View_def viewSemanticsForTemplate_def staticViewSemantics_def)

lemma u64View_checked: "checkSemantics u64View = []"
  by (simp add: u64View_eq checkSemantics_def checkCategory_def requireInterpretation_def standardTemplateByteLength_def)

lemma bool_checked: "checkSemantics booleanTestResultSemantics = []"
  by (simp add: booleanTestResultSemantics_def staticViewSemantics_def checkSemantics_def checkCategory_def
      requireInterpretation_def requireTemplate_def standardTemplateByteLength_def)

lemma enter_silent:
  "silent st \<Longrightarrow> checkSemantics (expr_result b) = [] \<Longrightarrow> ownMessages c (vs_captured st) (expr_result b) n = [] \<Longrightarrow>
   \<not> ownNullRead (expr_result b) n \<Longrightarrow> enterExpr c b n st = st"
  by (cases st) (simp add: enterExpr_def Let_def report_def silent_def)

lemma exampleCall_eq:
  "exampleCall = Expr \<lparr>expr_range = None, expr_result = u64View\<rparr> (CallExpr [exampleRef]
     \<lparr>call_callee = ''twice'', call_byteLength = 8, call_isFloating = False, call_builtin = BNone,
      call_provider = ProviderNone, call_returnMode = ReturnVoid, call_overloadIndex = 0,
      call_formatArgumentKinds = [], call_templateName = ''u64'', call_argumentPlans = [identityPlan exampleRef],
      call_addressFacts = None\<rparr>)"
  by (simp add: exampleCall_def mkCallExpr_def isAllocation_def Let_def mkExpr_def emptyTable_def canonicalTemplate_def
      u64View_eq)

lemma exampleTest_eq:
  "exampleTest = Expr \<lparr>expr_range = None, expr_result = booleanTestResultSemantics\<rparr> (BinaryExpr exampleCall exampleRef
     \<lparr>bin_op = ''=='', bin_byteLength = 1, bin_operationKind = StandardInteger, bin_operation = Equal,
      bin_typedIntegerInterpretation = NoInterpretation, bin_addressFacts = None, bin_viewOffsetBounds = None\<rparr>)"
  by (simp add: exampleTest_def mkBinaryExpr_def Let_def mkExpr_def booleanTestResultSemantics_def
      staticViewSemantics_def binaryOperatorFor_def binaryOperatorSuffix_def binaryOperatorTable_def
      typedInterpretation_def starts_with_def)

definition exampleContext :: VerifyContext where
  "exampleContext = unitContext emptyTable exampleUnit"

definition exampleState :: VerifyState where
  "exampleState = \<lparr>vs_diagnostics = [], vs_captured = [''t'' \<mapsto> u64View], vs_nullRead = False\<rparr>"

lemma example_state:
  "silent exampleState" "vs_captured exampleState = [''t'' \<mapsto> u64View]"
  by (simp_all add: silent_def exampleState_def)

lemma example_contract: "ctx_contracts exampleContext ''twice'' = Some exampleTwice" "ctx_table exampleContext = emptyTable"
  by (simp_all add: exampleContext_def unitContext_def functionContracts_def exampleUnit_def exampleTwice_def mkFunction_def)

lemma sameSemantics_refl: "sameSemantics s s" "sameValueSemantics s s"
  by (simp_all add: sameSemantics_def sameValueSemantics_def)

lemma exampleRef_verified: "verExpr exampleRef exampleContext exampleState = exampleState"
  by (simp add: exampleRef_def mkCapturedViewRef_def mkExpr_def verExpr_steps exprSteps_def enter_silent example_state
      u64View_checked ownMessages_def ownNullRead_def checkCaptured_def sameSemantics_refl)

lemma exampleRef_result: "exprResult exampleRef = u64View" "\<not> isIntegerCast exampleRef"
  by (simp_all add: exampleRef_def mkCapturedViewRef_def mkExpr_def isIntegerCast_def)

lemma exampleCall_verified: "verExpr exampleCall exampleContext exampleState = exampleState"
proof -
  have "checkConversionPlan (identityPlan exampleRef) u64View owner False = []" for owner
    by (simp add: checkConversionPlan_def identityPlan_def exampleRef_result sameSemantics_refl) (simp add: u64View_eq)
  moreover have "plan_destination (identityPlan exampleRef) = u64View"
    by (simp add: identityPlan_def exampleRef_result)
  ultimately have "checkCall exampleContext u64View [exampleRef]
     \<lparr>call_callee = ''twice'', call_byteLength = 8, call_isFloating = False, call_builtin = BNone,
      call_provider = ProviderNone, call_returnMode = ReturnVoid, call_overloadIndex = 0,
      call_formatArgumentKinds = [], call_templateName = ''u64'', call_argumentPlans = [identityPlan exampleRef],
      call_addressFacts = None\<rparr> = []"
    by (simp add: checkCall_def checkByteLength_def checkTemplateName_def checkArgumentPlans_def checkContract_def
        checkAddressFacts_def example_contract exampleRef_result viewParameterAt_def emptyTable_def exampleTwice_def
        mkFunction_def mkParameterView_def sameSemantics_refl) (simp add: u64View_eq)
  then show ?thesis unfolding exampleCall_eq
    by (simp add: verExpr_steps exprSteps_def enter_silent u64View_checked exampleRef_verified example_state
      ownMessages_def ownNullRead_def)
qed

lemma exampleTest_verified: "verExpr exampleTest exampleContext exampleState = exampleState"
proof -
  have "exprResult exampleCall = u64View" by (simp add: exampleCall_eq)
  then have "checkBinary booleanTestResultSemantics exampleCall exampleRef
     \<lparr>bin_op = ''=='', bin_byteLength = 1, bin_operationKind = StandardInteger, bin_operation = Equal,
      bin_typedIntegerInterpretation = NoInterpretation, bin_addressFacts = None, bin_viewOffsetBounds = None\<rparr> = []"
    by (simp add: checkBinary_def canonicalBoolean_def sameSemantics_refl checkByteLength_def checkOperationKind_def
        exampleRef_result Let_def isIntegerOrBoolean_def isIntegerNumeric_def isStandardInteger_def
        isComparisonOperation_def requireBooleanResult_def checkAddressOffset_def checkOffsetBounds_def)
      (simp add: u64View_eq booleanTestResultSemantics_def staticViewSemantics_def)
  then show ?thesis unfolding exampleTest_eq
    by (simp add: verExpr_steps exprSteps_def enter_silent bool_checked exampleRef_verified exampleCall_verified
      example_state ownMessages_def ownNullRead_def)
qed

lemma exampleCapture_verified:
  "verStmt exampleCapture c \<lparr>vs_diagnostics = [], vs_captured = Map.empty, vs_nullRead = False\<rparr> = exampleState"
proof -
  let ?st = "\<lparr>vs_diagnostics = [], vs_captured = Map.empty, vs_nullRead = False\<rparr>"
  have "ownMessages c m u64View (IntegerLiteral ''7'' 8) = []" for m
    by (simp add: ownMessages_def checkByteLength_def u64View_eq)
  moreover have e: "u64Literal ''7'' = Expr \<lparr>expr_range = None, expr_result = u64View\<rparr> (IntegerLiteral ''7'' 8)"
    by (simp add: u64Literal_def mkIntegerLiteral_def mkExpr_def flip: u64View_def) (simp add: u64View_eq)
  ultimately have "verExpr (u64Literal ''7'') c ?st = ?st"
    by (simp add: verExpr_steps exprSteps_def enter_silent u64View_checked ownNullRead_def silent_def)
  then show ?thesis
    by (simp add: exampleCapture_def mkStmt_def verStmt_steps stmtSteps_def emplaceCapture_def exampleState_def e)
qed

lemma exampleUnit_parts:
  "tu_functions exampleUnit = [exampleTwice, mkFunction None ''main'' [] [] (Block exampleBody None)]"
  "tu_globalInit exampleUnit = None"
  by (simp_all add: exampleUnit_def)

lemma exampleUnit_accepted: "verifyHIR emptyTable exampleUnit = Inr []"
proof -
  have "verifyWalk emptyTable exampleUnit = fold (verifyFunction exampleContext) (tu_functions exampleUnit)
      (verBlockOpt (tu_globalInit exampleUnit) exampleContext
        \<lparr>vs_diagnostics = [], vs_captured = Map.empty, vs_nullRead = False\<rparr>)"
    by (simp add: verifyWalk_def Let_def exampleContext_def unitContext_def)
  also have "\<dots> = exampleState"
    by (simp add: exampleUnit_parts verifyFunction_def exampleTwice_def mkFunction_def exampleBody_def
        exampleCapture_verified verStmt_steps mkStmt_def stmtSteps_def stmtStmts_def exampleTest_verified)
  finally show ?thesis by (simp add: verifyHIR_def exampleState_def)
qed

lemma exampleBody_in_unit: "exampleBody \<in> set (unitBodies exampleUnit)"
  by (simp add: unitBodies_def exampleUnit_parts mkFunction_def)

lemma example_reach:
  "reach_expr exampleBody exampleTest" "reach_expr exampleBody exampleCall" "reach_expr exampleBody exampleRef"
proof -
  show t: "reach_expr exampleBody exampleTest"
    by (rule reach_se [of _ _ "IfStmt exampleTest (Block [] None) None", OF reach_root])
      (auto simp: exampleBody_def mkStmt_def)
  then show c: "reach_expr exampleBody exampleCall"
    unfolding exampleTest_eq by (rule reach_ee) simp
  then show "reach_expr exampleBody exampleRef"
    unfolding exampleCall_eq by (rule reach_ee) simp
qed

theorem verifyHIR_sound_witness:
  "checkSemantics (exprResult exampleCall) = [] \<and> verifyHIR emptyTable exampleUnit = Inr []"
  using verifyHIR_sound [OF exampleUnit_accepted exampleBody_in_unit, of exampleCall] example_reach exampleUnit_accepted
  by blast

theorem verifyHIR_captures_witness:
  "\<exists>b source. reach_stmt exampleBody (Stmt b (CaptureView ''t'' (Some source))) \<and>
    sameSemantics (exprResult source) (exprResult exampleRef)"
  by (rule verifyHIR_captures [OF exampleUnit_accepted exampleBody_in_unit example_reach(3)])
    (simp add: exampleRef_def mkCapturedViewRef_def mkExpr_def)

theorem verifyHIR_call_contract_witness:
  "length (fn_parameters exampleTwice) = 1 \<and> sameValueSemantics (plan_source (identityPlan exampleRef)) u64View"
proof -
  have "functionContracts exampleUnit ''twice'' = Some exampleTwice"
    by (simp add: functionContracts_def exampleUnit_parts exampleTwice_def mkFunction_def)
  then show ?thesis
    using verifyHIR_call_contract [OF exampleUnit_accepted exampleBody_in_unit example_reach(2), of "[exampleRef]"]
    by (simp add: exampleCall_eq exampleRef_result)
qed

theorem verifyHIR_binary_witness: "exprResult exampleTest = booleanTestResultSemantics"
  using verifyHIR_binary [OF exampleUnit_accepted exampleBody_in_unit example_reach(1), of exampleCall exampleRef]
  by (simp add: exampleTest_eq isBooleanResultOperation_def isComparisonOperation_def)

end
