(* ===== verification/HIR_Agreement.thy ===== *)
theory HIR_Agreement
  imports HIR_VerifySound
begin

text \<open>
  The verifier against its specification and its suppliers: acceptance is exactly that every
  reachable node passes its own checks (for units without captures), the Views that
  \<open>viewSemanticsForTemplate\<close> builds are the ones the verifier accepts, and the nodes the
  constructors build carry fields that agree with their result View.
\<close>

section \<open>Completeness\<close>

definition exprChecks :: "VerifyContext \<Rightarrow> Expr \<Rightarrow> bool" where
  "exprChecks c e \<longleftrightarrow> checkSemantics (exprResult e) = [] \<and> assignedMatches e \<and>
     ownMessages c Map.empty (exprResult e) (exprNode e) = [] \<and> \<not> ownNullRead (exprResult e) (exprNode e)"

definition bodyChecks :: "VerifyContext \<Rightarrow> Stmt list \<Rightarrow> bool" where
  "bodyChecks c body \<longleftrightarrow> (\<forall>e. reach_expr body e \<longrightarrow> exprChecks c e) \<and>
     (\<forall>b n. reach_stmt body (Stmt b n) \<longrightarrow> ownStmtMessages b n = [])"

definition captureFree :: "Stmt list \<Rightarrow> bool" where
  "captureFree body \<longleftrightarrow> (\<forall>b x e. \<not> reach_stmt body (Stmt b (CaptureView x e)))"

lemma ownMessages_captured:
  "ownMessages c Map.empty s n = [] \<Longrightarrow> ownMessages c m s n = []"
  by (cases n) (simp_all add: ownMessages_def checkCaptured_def)

lemma fold_idle: "(\<And>a. a \<in> set as \<Longrightarrow> f a st = st) \<Longrightarrow> fold f as st = st"
  by (induction as) simp_all

lemma Say_message: "ownStmtMessages b n = [] \<Longrightarrow> Say r msgs \<in> set (stmtSteps b n) \<Longrightarrow> msgs = []"
  by (force simp: ownStmtMessages_def)

lemma Say_assigned: "assignedMatches (Expr b n) \<Longrightarrow> Say r msgs \<in> set (exprSteps b n) \<Longrightarrow> msgs = []"
  unfolding exprSteps_say [symmetric] by blast

lemma act_idle_expr:
  assumes "assignedMatches (Expr b n)" and "a \<in> set (exprSteps b n)"
    and "\<And>e. e \<in> set (exprExprs n) \<Longrightarrow> verExpr e c st = st" and "\<And>s. s \<in> set (exprStmts n) \<Longrightarrow> verStmt s c st = st"
  shows "act c a st = st"
  using assms by (cases a rule: action.exhaust) (auto simp: exprSteps_children dest: Say_assigned)

lemma act_idle_stmt:
  assumes "ownStmtMessages b n = []" and "a \<in> set (stmtSteps b n)" and "\<And>x e. n \<noteq> CaptureView x e"
    and "\<And>e. e \<in> set (stmtExprs n) \<Longrightarrow> verExpr e c st = st" and "\<And>s. s \<in> set (stmtStmts n) \<Longrightarrow> verStmt s c st = st"
  shows "act c a st = st"
  using assms by (cases a rule: action.exhaust)
    (auto simp: stmtSteps_execs stmtSteps_captures dest: Say_message dest!: stmtSteps_visits)

lemma checked_idle:
  assumes "bodyChecks c body" and "captureFree body" and "silent st"
  shows "reach_expr body e \<Longrightarrow> verExpr e c st = st" and "reach_stmt body s \<Longrightarrow> verStmt s c st = st"
proof -
  have "reach_expr body e \<longrightarrow> verExpr e c st = st" and "reach_stmt body s \<longrightarrow> verStmt s c st = st"
  proof (induction e and s rule: children_induct)
    case (1 b n)
    show ?case
    proof
      assume r: "reach_expr body (Expr b n)"
      then have ok: "exprChecks c (Expr b n)" using assms(1) by (simp add: bodyChecks_def)
      then have "enterExpr c b n st = st"
        by (intro enter_silent assms) (simp_all add: exprChecks_def ownMessages_captured)
      moreover have "fold (act c) (exprSteps b n) st = st"
      proof (rule fold_idle, rule act_idle_expr)
        show "assignedMatches (Expr b n)" using ok by (simp add: exprChecks_def)
      qed (use 1 r reach_ee reach_es in blast)+
      ultimately show "verExpr (Expr b n) c st = st" by (simp add: verExpr_steps)
    qed
  next
    case (2 b n)
    show ?case
    proof
      assume r: "reach_stmt body (Stmt b n)"
      have "fold (act c) (stmtSteps b n) st = st"
      proof (rule fold_idle, rule act_idle_stmt)
        show "ownStmtMessages b n = []" using assms(1) r by (simp add: bodyChecks_def)
        show "n \<noteq> CaptureView x e" for x e using assms(2) r by (auto simp: captureFree_def)
      qed (use 2 r reach_se reach_ss in blast)+
      then show "verStmt (Stmt b n) c st = st" by (simp add: verStmt_steps)
    qed
  qed
  then show "reach_expr body e \<Longrightarrow> verExpr e c st = st" and "reach_stmt body s \<Longrightarrow> verStmt s c st = st" by blast+
qed

lemma checked_body_idle:
  assumes "bodyChecks c body" and "captureFree body" and "silent st"
  shows "fold (act c) (map Exec body) st = st"
  using checked_idle(2) [OF assms reach_root] by (intro fold_idle) auto

text \<open>
  C2. The verifier is exact on units without captures: it returns no diagnostic (and reads no null
  operand) if and only if every reachable expression and every reachable statement passes its own
  checks, so that nothing is rejected because of where it stands.
\<close>

theorem verifyHIR_exact:
  assumes "list_all captureFree (unitBodies unit)"
  shows "verifyHIR table unit = Inr [] \<longleftrightarrow> list_all (bodyChecks (unitContext table unit)) (unitBodies unit)"
proof
  let ?c = "unitContext table unit"
  assume acc: "verifyHIR table unit = Inr []"
  have "bodyChecks ?c body" if b: "body \<in> set (unitBodies unit)" for body
  proof -
    have "exprChecks ?c e" if e: "reach_expr body e" for e
    proof -
      note p = accepted_passes(1) [OF acc b e]
      obtain captured where m: "\<forall>x s. captured x = Some s \<longrightarrow> captureOf body x s"
        and k: "checkSemantics (exprResult e) = []" "\<not> ownNullRead (exprResult e) (exprNode e)"
          "ownMessages ?c captured (exprResult e) (exprNode e) = []"
        using passesExpr_checks [OF p] by blast
      have "\<not> captureOf body x s" for x s
        using assms b by (auto simp: list_all_iff captureFree_def captureOf_def)
      with m have "captured = Map.empty" by (metis not_None_eq)
      with k passesExpr_assigned [OF e p] show ?thesis by (simp add: exprChecks_def)
    qed
    moreover have "ownStmtMessages k n = []" if "reach_stmt body (Stmt k n)" for k n
      using passesStmt_messages [OF that accepted_passes(2) [OF acc b that]] .
    ultimately show ?thesis by (simp add: bodyChecks_def)
  qed
  then show "list_all (bodyChecks ?c) (unitBodies unit)" by (simp add: list_all_iff)
next
  let ?c = "unitContext table unit" and ?st = "\<lparr>vs_diagnostics = [], vs_captured = Map.empty, vs_nullRead = False\<rparr>"
  assume "list_all (bodyChecks ?c) (unitBodies unit)"
  then have idle: "fold (act ?c) (map Exec body) ?st = ?st" if "body \<in> set (unitBodies unit)" for body
    using checked_body_idle [of ?c body ?st] assms that by (auto simp: list_all_iff silent_def)
  have "verBlockOpt (tu_globalInit unit) ?c ?st = ?st"
    using idle by (simp add: verBlockOpt_fold unitBodies_def)
  moreover have "verifyFunction ?c f ?st = ?st" if "f \<in> set (tu_functions unit)" for f
    using idle that by (simp add: verifyFunction_steps unitBodies_def)
  then have "fold (verifyFunction ?c) (tu_functions unit) ?st = ?st" by (rule fold_idle)
  ultimately show "verifyHIR table unit = Inr []"
    by (simp add: verifyHIR_def verifyWalk_def Let_def flip: unitContext_def)
qed

text \<open>A unit without captures: one function that returns a literal.\<close>

definition literalBody :: "Stmt list" where
  "literalBody = [mkStmt None (ReturnStmt [u64Literal ''7''] [])]"

definition literalUnit :: TranslationUnit where
  "literalUnit = \<lparr>tu_globals = [], tu_structs = [], tu_viewTemplates = [], tu_implOps = [], tu_externFunctions = [],
     tu_functions = [mkFunction None ''seven'' [] [8] (Block literalBody None)], tu_globalInit = None\<rparr>"

lemma u64Literal_eq: "u64Literal v = Expr \<lparr>expr_range = None, expr_result = u64View\<rparr> (IntegerLiteral v 8)"
  by (simp add: u64Literal_def mkIntegerLiteral_def mkExpr_def flip: u64View_def) (simp add: u64View_eq)

lemma literal_reach_aux:
  "reach_expr body e \<Longrightarrow> body = literalBody \<Longrightarrow> e = u64Literal ''7''"
  "reach_stmt body s \<Longrightarrow> body = literalBody \<Longrightarrow> s = mkStmt None (ReturnStmt [u64Literal ''7''] [])"
  by (induction rule: reach_expr_reach_stmt.inducts)
    (auto simp: literalBody_def mkStmt_def u64Literal_eq stmtStmts_def exprStmts_def)

lemma empty_reach_aux: "reach_expr body e \<Longrightarrow> body = [] \<Longrightarrow> False" "reach_stmt body s \<Longrightarrow> body = [] \<Longrightarrow> False"
  by (induction rule: reach_expr_reach_stmt.inducts) auto

lemma literalUnit_bodies: "unitBodies literalUnit = [[], literalBody]"
  by (simp add: unitBodies_def literalUnit_def mkFunction_def)

theorem verifyHIR_exact_witness:
  "list_all captureFree (unitBodies literalUnit) \<and> verifyHIR emptyTable literalUnit = Inr []"
proof -
  let ?c = "unitContext emptyTable literalUnit"
  have free: "list_all captureFree (unitBodies literalUnit)"
    using literal_reach_aux(2) empty_reach_aux(2)
    by (fastforce simp: literalUnit_bodies captureFree_def mkStmt_def)
  have lit: "exprChecks c (u64Literal ''7'')" for c
    by (simp add: exprChecks_def u64Literal_eq u64View_checked ownMessages_def ownNullRead_def assignedMatches_def
        checkByteLength_def) (simp add: u64View_eq)
  have ret: "ownStmtMessages b (ReturnStmt [u64Literal ''7''] []) = []" for b
    by (simp add: ownStmtMessages_def stmtSteps_def)
  have "bodyChecks ?c literalBody"
    using lit ret literal_reach_aux [of literalBody] by (auto simp: bodyChecks_def mkStmt_def)
  moreover have "bodyChecks ?c []"
    using empty_reach_aux [of "[]"] by (auto simp: bodyChecks_def)
  ultimately have "list_all (bodyChecks ?c) (unitBodies literalUnit)"
    by (simp add: literalUnit_bodies)
  with free verifyHIR_exact [OF free, of emptyTable] show ?thesis by simp
qed

section \<open>Template Views\<close>

definition standardTemplates :: "string set" where
  "standardTemplates = {''i8'', ''i16'', ''i32'', ''i64'', ''u8'', ''u16'', ''u32'', ''u64'', ''f16'', ''f32'', ''f64'', ''f128'',
     ''bool'', ''addr'', ''handle'', ''bytes'', ''cstr''}"

lemma viewSemanticsForTemplate_user:
  "t \<notin> standardTemplates \<Longrightarrow> t \<noteq> [] \<Longrightarrow> t \<noteq> ''none'' \<Longrightarrow>
   viewSemanticsForTemplate t len a m i = staticViewSemantics UserTemplate NoInterpretation len t a m"
  by (simp add: viewSemanticsForTemplate_def standardTemplates_def)

lemma viewSemanticsForTemplate_untemplated:
  "t = [] \<or> t = ''none'' \<Longrightarrow> viewSemanticsForTemplate t len a m i = staticViewSemantics UntemplatedInteger i len [] a m"
  by (elim disjE) (simp_all add: viewSemanticsForTemplate_def)

lemma standardTemplateByteLength_user:
  "t \<notin> standardTemplates \<Longrightarrow> standardTemplateByteLength t = None" "standardTemplateByteLength [] = None"
  by (simp_all add: standardTemplateByteLength_def standardTemplates_def)

text \<open>
  The View built for a template is well formed for the verifier exactly when its length is
  positive, is the length of the template where the template has a fixed one, it is not mutable
  without being addressable, and an untemplated View is signed or unsigned: for every template
  name, standard or user defined, category, interpretation and retained name agree.
\<close>

theorem viewSemanticsForTemplate_checked:
  "checkSemantics (viewSemanticsForTemplate t len addressable mutable interp) = [] \<longleftrightarrow>
     len \<noteq> 0 \<and> (mutable \<longrightarrow> addressable) \<and>
     (case standardTemplateByteLength t of None \<Rightarrow> True | Some n \<Rightarrow> len = n) \<and>
     (t = [] \<or> t = ''none'' \<longrightarrow> interp = Signed \<or> interp = Unsigned)"
proof (cases "t \<in> standardTemplates")
  case True
  then show ?thesis unfolding standardTemplates_def
    by (elim insertE emptyE; hypsubst;
        simp add: viewSemanticsForTemplate_def staticViewSemantics_def checkSemantics_def checkCategory_def
          standardTemplateByteLength_def requireInterpretation_def requireTemplate_def; blast)
next
  case False
  then show ?thesis
    by (cases "t = [] \<or> t = ''none''")
      (auto simp: viewSemanticsForTemplate_user viewSemanticsForTemplate_untemplated standardTemplateByteLength_user
        staticViewSemantics_def checkSemantics_def checkCategory_def requireInterpretation_def)
qed

theorem viewSemanticsForTemplate_checked_witness:
  "checkSemantics (viewSemanticsForTemplate ''i32'' 4 True True Signed) = [] \<and>
   checkSemantics (viewSemanticsForTemplate ''i32'' 8 True True Signed) \<noteq> []"
  using viewSemanticsForTemplate_checked [of "''i32''" 4 True True Signed]
    viewSemanticsForTemplate_checked [of "''i32''" 8 True True Signed]
  by (simp add: standardTemplateByteLength_def)

section \<open>Constructed nodes\<close>

definition fieldsAgree :: "Expr \<Rightarrow> bool" where
  "fieldsAgree e \<longleftrightarrow> (\<forall>c m. ownMessages c m (exprResult e) (exprNode e) = [])"

lemma mk_length_agrees:
  assumes "lengthKind r = Static"
  shows "fieldsAgree (mkIntegerLiteral ar v r)" "fieldsAgree (mkStringLiteral ar v r)" "fieldsAgree (mkFloatLiteral ar v r)"
    "fieldsAgree (mkVariableRefAt ar v bn st off r)" "fieldsAgree (mkDerefExpr ar e r)" "fieldsAgree (mkUnaryExpr ar op e r)"
    "fieldsAgree (mkToFloatExpr ar e u f r)" "fieldsAgree (mkToIntExpr ar e n u r)" "fieldsAgree (mkFloatBinaryExpr ar e op e' r)"
    "fieldsAgree (mkByteSwapExpr ar e r)" "fieldsAgree (mkUserTemplateFormatCallExpr ar v e k out r)"
  using assms by (simp_all add: fieldsAgree_def mk_simps ownMessages_def checkByteLength_def checkVariable_def
      checkTemplateName_def checkAddressFacts_def)

lemma identityPlan_checked:
  assumes "lengthKind (exprResult a) = Static" and "staticByteLength (exprResult a) \<noteq> 0"
  shows "checkConversionPlan (identityPlan a) (exprResult a) owner dyn = []"
  using assms by (simp add: checkConversionPlan_def identityPlan_def sameSemantics_refl)

text \<open>
  The constructor and the verifier of builtin calls agree.  A call built for a builtin (other than
  \<open>length\<close>) with a fixed result View, the template name of that View, arguments that are fixed Views and no
  width casts, and an address result when it allocates, passes all checks of its node class: plans,
  template name, byte length and allocation facts.
\<close>

theorem mkCallExpr_checked:
  assumes "mkCallExpr table ar callee arguments isFloating builtin kinds ov template r = Inr call"
    and "lengthKind r = Static" and "canonicalTemplate template = templateName r"
    and "builtin \<noteq> BNone" and "builtin \<noteq> BLength" and "isAllocation builtin \<longrightarrow> isAddressValue r"
    and "\<forall>a \<in> set arguments. lengthKind (exprResult a) = Static \<and> staticByteLength (exprResult a) \<noteq> 0 \<and> \<not> isIntegerCast a"
  shows "ownMessages c m (exprResult call) (exprNode call) = []"
proof -
  obtain facts where call: "call = mkExpr ar r (CallExpr arguments
      \<lparr>call_callee = callee, call_byteLength = staticByteLength r, call_isFloating = isFloating,
       call_builtin = builtin, call_provider = meta_provider (builtinCallMetadata table builtin ov),
       call_returnMode = meta_returnMode (builtinCallMetadata table builtin ov), call_overloadIndex = ov,
       call_formatArgumentKinds = kinds, call_templateName = canonicalTemplate template,
       call_argumentPlans = map identityPlan arguments, call_addressFacts = facts\<rparr>)"
    and facts: "if isAllocation builtin then \<exists>x. facts = Some \<lparr>origin = DynamicAllocation, knownExtent = x, knownAlignment = None, isBaseAddress = True\<rparr> else facts = None"
    using assms(1) by (auto simp: mkCallExpr_def Let_def split: if_splits sum.splits)
  have plans: "checkArgumentPlans (ctx_table c) builtin arguments (map identityPlan arguments) = []"
    using assms(7) by (auto simp: checkArgumentPlans_def Let_def identityPlan_checked)
  have "checkAddressFacts r facts = []" and alloc: "facts \<noteq> None \<longrightarrow> isAllocation builtin"
    using facts assms(6) by (auto simp: checkAddressFacts_def split: if_splits)
  with plans assms(2-5) show ?thesis
    by (auto simp: call mkExpr_def ownMessages_def checkCall_def checkByteLength_def checkTemplateName_def
        checkContract_def isAllocation_def)
qed

theorem mkCallExpr_checked_witness:
  "\<exists>call. mkCallExpr emptyTable None ''alloc'' [u64Literal ''16''] False BAlloc [] 0 ''addr''
        (viewSemanticsForTemplate ''addr'' 8 False False Signed) = Inr call \<and>
     ownMessages (unitContext emptyTable literalUnit) Map.empty (exprResult call) (exprNode call) = []"
proof -
  let ?addr = "viewSemanticsForTemplate ''addr'' 8 False False Signed"
  have "allocationExtent BAlloc [u64Literal ''16''] = Inr (parseUnsignedIntegerLiteral ''16'')"
    by (simp add: allocationExtent_def u64Literal_def extent_literal)
  then obtain call where "mkCallExpr emptyTable None ''alloc'' [u64Literal ''16''] False BAlloc [] 0 ''addr'' ?addr = Inr call"
    by (simp add: mkCallExpr_def isAllocation_def Let_def)
  moreover from mkCallExpr_checked [OF this] have
    "ownMessages (unitContext emptyTable literalUnit) Map.empty (exprResult call) (exprNode call) = []"
    by (simp add: canonicalTemplate_def viewSemanticsForTemplate_def staticViewSemantics_def isAddressValue_def
        u64Literal_eq u64View_eq isIntegerCast_def)
  ultimately show ?thesis by blast
qed

section \<open>A null operand that the verifier reads\<close>

text \<open>
  \<open>verifyHIR\<close> has a diagnostic for an \<open>UnsignedExpr\<close> without operand.  When such an
  expression is the length operand of a byte buffer with a static length, possibly below casts, the walk reads through
  the null operand before it reaches the diagnostic.
\<close>

inductive nullLength :: "Expr \<Rightarrow> bool" where
  null_operand: "exprNode e = UnsignedExpr None l \<Longrightarrow> nullLength e"
| null_unsigned: "exprNode e = UnsignedExpr (Some x) l \<Longrightarrow> nullLength x \<Longrightarrow> nullLength e"
| null_cast: "exprNode e = IntegerCastExpr x l i \<Longrightarrow> nullLength x \<Longrightarrow> nullLength e"
| null_view: "exprNode e = TemplateViewExpr x l t a \<Longrightarrow> nullLength x \<Longrightarrow> nullLength e"

inductive_cases nullLengthE: "nullLength e"

lemma nullLength_extent: "staticAllocationExtent e = Inl NullOperand \<longleftrightarrow> nullLength e"
proof (induction e rule: staticAllocationExtent.induct)
  case (1 e)
  then show ?case
    by (subst staticAllocationExtent.simps)
      (auto split: ExprNode.split option.split intro: nullLength.intros elim: nullLengthE)
qed

text \<open>The subtrees that hold such a buffer where the walk comes; it does not enter the operand of an incomplete rebind.\<close>

definition hidesOperand :: "StmtNode \<Rightarrow> bool" where
  "hidesOperand n \<longleftrightarrow> (case n of BindingRebind t e \<Rightarrow> rebindIncomplete t e | _ \<Rightarrow> False)"

inductive nullBuffer :: "Expr \<Rightarrow> bool" and nullBufferStmt :: "Stmt \<Rightarrow> bool" where
  buffer_here: "lengthKind (expr_result b) = Static \<Longrightarrow> nullLength r \<Longrightarrow> nullBuffer (Expr b (DynamicByteViewExpr op x (Some r)))"
| buffer_operand: "e \<in> set (exprExprs n) \<Longrightarrow> nullBuffer e \<Longrightarrow> nullBuffer (Expr b n)"
| buffer_store: "s \<in> set (exprStmts n) \<Longrightarrow> nullBufferStmt s \<Longrightarrow> nullBuffer (Expr b n)"
| buffer_expression: "e \<in> set (stmtExprs m) \<Longrightarrow> \<not> hidesOperand m \<Longrightarrow> nullBuffer e \<Longrightarrow> nullBufferStmt (Stmt k m)"
| buffer_statement: "s \<in> set (stmtStmts m) \<Longrightarrow> nullBufferStmt s \<Longrightarrow> nullBufferStmt (Stmt k m)"

inductive_simps nullBuffer_Expr: "nullBuffer (Expr b n)"
inductive_simps nullBuffer_Stmt: "nullBufferStmt (Stmt b n)"

lemma ownNullRead_buffer:
  "ownNullRead (expr_result b) n \<longleftrightarrow> (\<exists>op x r. n = DynamicByteViewExpr op x (Some r) \<and> lengthKind (expr_result b) = Static \<and> nullLength r)"
  by (cases n) (auto simp: ownNullRead_def readsExtent_def nullLength_extent split: option.splits)

lemma nullBuffer_step:
  "nullBuffer (Expr b n) \<longleftrightarrow> ownNullRead (expr_result b) n \<or> (\<exists>e \<in> set (exprExprs n). nullBuffer e) \<or> (\<exists>s \<in> set (exprStmts n). nullBufferStmt s)"
  by (subst nullBuffer_Expr) (auto simp: ownNullRead_buffer)

lemma nullRead_simps:
  "vs_nullRead (report r msgs st) = vs_nullRead st"
  "vs_nullRead (enterExpr c b n st) \<longleftrightarrow> vs_nullRead st \<or> ownNullRead (expr_result b) n"
  "vs_nullRead (emplaceCapture x e st) = vs_nullRead st"
  by (simp_all add: report_def enterExpr_def emplaceCapture_def Let_def split: option.split)

definition actsNull :: "action \<Rightarrow> bool" where
  "actsNull a \<longleftrightarrow> (case a of Visit e \<Rightarrow> nullBuffer e | Exec s \<Rightarrow> nullBufferStmt s | _ \<Rightarrow> False)"

lemma fold_nullRead:
  assumes "\<And>a st. a \<in> set as \<Longrightarrow> vs_nullRead (act c a st) \<longleftrightarrow> vs_nullRead st \<or> actsNull a"
  shows "vs_nullRead (fold (act c) as st) \<longleftrightarrow> vs_nullRead st \<or> (\<exists>a \<in> set as. actsNull a)"
  using assms by (induction as arbitrary: st) auto

lemma stmtSteps_entered:
  "Visit e \<in> set (stmtSteps b n) \<longleftrightarrow> e \<in> set (stmtExprs n) \<and> \<not> hidesOperand n"
  by (cases n) (auto simp: stmtSteps_def planSteps_def stmtStmts_def set_returnSteps hidesOperand_def rebindIncomplete_def
      split: option.splits if_splits list.splits)

lemma exists_action:
  "(\<exists>a \<in> set as. actsNull a) \<longleftrightarrow> (\<exists>e. Visit e \<in> set as \<and> nullBuffer e) \<or> (\<exists>s. Exec s \<in> set as \<and> nullBufferStmt s)"
  by (auto simp: actsNull_def split: action.splits) (metis action.exhaust)

lemma walk_nullRead:
  "vs_nullRead (verExpr e c st) \<longleftrightarrow> vs_nullRead st \<or> nullBuffer e"
  "vs_nullRead (verStmt s c st) \<longleftrightarrow> vs_nullRead st \<or> nullBufferStmt s"
proof -
  have "\<forall>st. vs_nullRead (verExpr e c st) \<longleftrightarrow> vs_nullRead st \<or> nullBuffer e"
    and "\<forall>st. vs_nullRead (verStmt s c st) \<longleftrightarrow> vs_nullRead st \<or> nullBufferStmt s"
  proof (induction e and s rule: children_induct)
    case (1 b n)
    have "vs_nullRead (act c a st) \<longleftrightarrow> vs_nullRead st \<or> actsNull a" if "a \<in> set (exprSteps b n)" for a st
      using that 1 by (cases a rule: action.exhaust) (auto simp: actsNull_def exprSteps_children nullRead_simps)
    from fold_nullRead [OF this] show ?case
      by (auto simp: verExpr_steps nullRead_simps nullBuffer_step exists_action exprSteps_children)
  next
    case (2 b n)
    have "vs_nullRead (act c a st) \<longleftrightarrow> vs_nullRead st \<or> actsNull a" if "a \<in> set (stmtSteps b n)" for a st
      using that 2 by (cases a rule: action.exhaust) (auto simp: actsNull_def stmtSteps_entered stmtSteps_execs nullRead_simps)
    from fold_nullRead [OF this] show ?case
      by (auto simp: verStmt_steps nullBuffer_Stmt exists_action stmtSteps_entered stmtSteps_execs)
  qed
  then show "vs_nullRead (verExpr e c st) \<longleftrightarrow> vs_nullRead st \<or> nullBuffer e"
    "vs_nullRead (verStmt s c st) \<longleftrightarrow> vs_nullRead st \<or> nullBufferStmt s" by blast+
qed

lemma body_nullRead:
  "vs_nullRead (fold (act c) (map Exec body) st) \<longleftrightarrow> vs_nullRead st \<or> (\<exists>s \<in> set body. nullBufferStmt s)"
  by (induction body arbitrary: st) (auto simp: walk_nullRead)

lemma functions_nullRead:
  "vs_nullRead (fold (verifyFunction c) fs st) \<longleftrightarrow> vs_nullRead st \<or> (\<exists>f \<in> set fs. \<exists>s \<in> set (blockStmts (fn_body f)). nullBufferStmt s)"
  by (induction fs arbitrary: st) (auto simp: verifyFunction_steps body_nullRead)

text \<open>
  C38. The verifier reads a null operand in exactly these units: some statement of the initialiser of the globals or of a
  function holds, where the walk comes, a byte buffer of static length whose length operand is, below unsigned views and casts,
  an \<open>UnsignedExpr\<close> without operand.  On such a unit it delivers no diagnostics, though it has one for that node;
  on every other unit it delivers its list.
\<close>

theorem verifyHIR_null_operand:
  "(verifyHIR table unit = Inl NullOperand \<longleftrightarrow> (\<exists>body \<in> set (unitBodies unit). \<exists>s \<in> set body. nullBufferStmt s)) \<and>
   (verifyHIR table unit \<noteq> Inl NullOperand \<longleftrightarrow> verifyHIR table unit = Inr (vs_diagnostics (verifyWalk table unit))) \<and>
   ownMessages c m v (UnsignedExpr None l) = [''UnsignedExpr requires an operand View'']"
proof -
  let ?st = "\<lparr>vs_diagnostics = [], vs_captured = Map.empty, vs_nullRead = False\<rparr>"
  have "vs_nullRead (verifyWalk table unit) \<longleftrightarrow> (\<exists>body \<in> set (unitBodies unit). \<exists>s \<in> set body. nullBufferStmt s)"
    by (simp add: verifyWalk_def Let_def functions_nullRead verBlockOpt_fold body_nullRead unitBodies_def)
  then show ?thesis by (simp add: verifyHIR_def Let_def ownMessages_def)
qed

text \<open>A function that returns a buffer whose length is such an operand.\<close>

definition nullOperand :: Expr where
  "nullOperand = mkUnsignedExpr None None (viewSemanticsForTemplate [] 8 False False Unsigned)"

definition nullBody :: "Stmt list" where
  "nullBody = [mkStmt None (ReturnStmt [mkDynamicByteViewExpr None ResizeBytesView (u64Literal ''7'') (Some nullOperand)
      (viewSemanticsForTemplate ''bytes'' 8 False False Signed)] [])]"

definition nullUnit :: TranslationUnit where
  "nullUnit = literalUnit\<lparr>tu_functions := [mkFunction None ''f'' [] [8] (Block nullBody None)]\<rparr>"

lemma nullUnit_read: "nullBufferStmt (hd nullBody) \<and> nullBody \<in> set (unitBodies nullUnit) \<and> \<not> nullBuffer (u64Literal v)"
proof -
  have "nullLength nullOperand"
    by (rule null_operand) (simp add: nullOperand_def mkUnsignedExpr_def mkExpr_def)
  then have "nullBuffer (mkDynamicByteViewExpr None ResizeBytesView (u64Literal ''7'') (Some nullOperand)
      (viewSemanticsForTemplate ''bytes'' 8 False False Signed))"
    unfolding mkDynamicByteViewExpr_def mkExpr_def
    by (rule buffer_here [rotated]) (simp add: viewSemanticsForTemplate_def staticViewSemantics_def)
  then have "nullBufferStmt (hd nullBody)"
    unfolding nullBody_def mkStmt_def list.sel by (rule buffer_expression [rotated 2]) (simp_all add: hidesOperand_def)
  moreover have "nullBody \<in> set (unitBodies nullUnit)"
    by (simp add: unitBodies_def nullUnit_def literalUnit_def mkFunction_def)
  moreover have "\<not> nullBuffer (u64Literal v)" by (simp add: u64Literal_eq nullBuffer_step ownNullRead_def exprStmts_def)
  ultimately show ?thesis by blast
qed

end
