(* ===== verification/HIR_Overrides.thy ===== *)
theory HIR_Overrides
  imports HIR_Syntax
begin

text \<open>
  The override passes of \<open>src/hir/HIR.cpp\<close>: \<open>applyLinkageOverrides\<close> and
  \<open>applyAbiOverrides\<close>.  Both collect diagnostics and pending writes over the list of
  overrides and write only when no diagnostic was reported.  A pending write points at an
  element of a vector of the unit; the model keeps the element's position.  Pointers of the
  compiled-for host have eight bytes.
\<close>

section \<open>The shared shape of the passes\<close>

record 'p OverrideState =
  os_diagnostics :: "Diagnostic list"
  os_pending :: "'p list"
  os_seen :: "string set"

definition emptyOverrideState :: "'p OverrideState" where
  "emptyOverrideState = \<lparr>os_diagnostics = [], os_pending = [], os_seen = {}\<rparr>"

definition addOverrideDiagnostic :: "string \<Rightarrow> 'p OverrideState \<Rightarrow> 'p OverrideState" where
  "addOverrideDiagnostic msg st =
     st\<lparr>os_diagnostics := os_diagnostics st @ [diagnostic_error Hir msg]\<rparr>"

definition addPending :: "'p \<Rightarrow> 'p OverrideState \<Rightarrow> 'p OverrideState" where
  "addPending p st = st\<lparr>os_pending := os_pending st @ [p]\<rparr>"

definition markSeen :: "string \<Rightarrow> 'p OverrideState \<Rightarrow> 'p OverrideState" where
  "markSeen k st = st\<lparr>os_seen := insert k (os_seen st)\<rparr>"

definition runOverrides ::
  "('u \<Rightarrow> 'o \<Rightarrow> 'p OverrideState \<Rightarrow> 'p OverrideState) \<Rightarrow> ('p \<Rightarrow> 'u \<Rightarrow> 'u) \<Rightarrow> 'u \<Rightarrow> 'o list \<Rightarrow> Diagnostic list \<times> 'u"
where
  "runOverrides step commit unit overrides =
     (let st = fold (step unit) overrides emptyOverrideState in
      if os_diagnostics st \<noteq> [] then (os_diagnostics st, unit)
      else ([], fold commit (os_pending st) unit))"

fun find_index :: "('a \<Rightarrow> bool) \<Rightarrow> 'a list \<Rightarrow> nat option" where
  "find_index p [] = None"
| "find_index p (x # xs) = (if p x then Some 0 else map_option Suc (find_index p xs))"

definition overrideKey :: "LinkageTarget \<Rightarrow> string \<Rightarrow> string" where
  "overrideKey target symbolName =
     (if target = GlobalTarget then ''global:'' else ''function:'') @ symbolName"

definition targetName :: "LinkageTarget \<Rightarrow> string" where
  "targetName target = (case target of GlobalTarget \<Rightarrow> ''global'' | FunctionTarget \<Rightarrow> ''function'')"

definition quoted :: "string \<Rightarrow> string" where
  "quoted s = [CHR 0x27] @ s @ [CHR 0x27]"

section \<open>Linkage overrides\<close>

datatype PendingLinkage = PendingLinkage LinkageTarget nat Linkage

definition stepLinkage ::
  "TranslationUnit \<Rightarrow> LinkageOverride \<Rightarrow> PendingLinkage OverrideState \<Rightarrow> PendingLinkage OverrideState" where
  "stepLinkage unit ov st =
     (let name = lo_symbolName ov; key = overrideKey (lo_target ov) name in
      if name = [] then addOverrideDiagnostic ''linkage override has an empty symbol name'' st
      else if key \<in> os_seen st then
        addOverrideDiagnostic (''duplicate linkage override for '' @ targetName (lo_target ov) @ '' '' @ quoted name) st
      else let st = markSeen key st in
      (case lo_target ov of
         GlobalTarget \<Rightarrow>
           (case find_index (\<lambda>g. global_bindingName g = name) (tu_globals unit) of
              None \<Rightarrow> addOverrideDiagnostic (''linkage override references unknown global '' @ quoted name) st
            | Some i \<Rightarrow>
                if global_isExtern (tu_globals unit ! i) then
                  addOverrideDiagnostic
                    (''linkage override cannot target extern global declaration '' @ quoted name) st
                else addPending (PendingLinkage GlobalTarget i (lo_linkage ov)) st)
       | FunctionTarget \<Rightarrow>
           (case find_index (\<lambda>f. fn_name f = name) (tu_functions unit) of
              Some i \<Rightarrow> addPending (PendingLinkage FunctionTarget i (lo_linkage ov)) st
            | None \<Rightarrow>
                if find_index (\<lambda>f. ef_name f = name) (tu_externFunctions unit) \<noteq> None then
                  addOverrideDiagnostic
                    (''linkage override cannot target extern function declaration '' @ quoted name) st
                else addOverrideDiagnostic (''linkage override references unknown function '' @ quoted name) st)))"

fun commitLinkage :: "PendingLinkage \<Rightarrow> TranslationUnit \<Rightarrow> TranslationUnit" where
  "commitLinkage (PendingLinkage GlobalTarget i l) unit =
     unit\<lparr>tu_globals := (tu_globals unit)[i := (tu_globals unit ! i)\<lparr>global_linkage := l\<rparr>]\<rparr>"
| "commitLinkage (PendingLinkage FunctionTarget i l) unit =
     unit\<lparr>tu_functions := (tu_functions unit)[i := (tu_functions unit ! i)\<lparr>fn_linkage := l\<rparr>]\<rparr>"

definition applyLinkageOverrides ::
  "TranslationUnit \<Rightarrow> LinkageOverride list \<Rightarrow> Diagnostic list \<times> TranslationUnit" where
  "applyLinkageOverrides unit overrides = runOverrides stepLinkage commitLinkage unit overrides"

section \<open>ABI overrides\<close>

definition pointerSize :: size_t where
  "pointerSize = 8"

definition storageByteLength :: "AbiType \<Rightarrow> size_t option" where
  "storageByteLength t =
     (if abi_byteLength t = 0 \<or> abi_elementCount t = 0 \<or> abi_byteLength t > (- 1) div abi_elementCount t
      then None else Some (abi_byteLength t * abi_elementCount t))"

fun isValidType :: "AbiType \<Rightarrow> bool"
  and validFields :: "size_t \<Rightarrow> size_t \<Rightarrow> AbiType list \<Rightarrow> size_t list \<Rightarrow> bool"
where
  "isValidType (AbiType kind len isSigned name align count members offsets) =
     (if storageByteLength (AbiType kind len isSigned name align count members offsets) = None \<or> align = 0 then False
      else case kind of
        IntegerAbi \<Rightarrow> len = 1 \<or> len = 2 \<or> len = 4 \<or> len = 8
      | FloatingAbi \<Rightarrow> len = 4 \<or> len = 8
      | PointerAbi \<Rightarrow> len = pointerSize
      | AggregateAbi \<Rightarrow>
          if name = [] \<or> members = [] \<or> length members \<noteq> length offsets then False
          else validFields len 0 members offsets)"
| "validFields len previousEnd (f # fs) (offset # offsets) =
     (case storageByteLength f of
        None \<Rightarrow> False
      | Some fieldLength \<Rightarrow>
          if \<not> isValidType f \<or> offset < previousEnd \<or> offset > len \<or> fieldLength > len - offset then False
          else validFields len (offset + fieldLength) fs offsets)"
| "validFields len previousEnd [] offsets = True"
| "validFields len previousEnd (f # fs) [] = True"

definition validateTypes ::
  "string \<Rightarrow> string \<Rightarrow> (AbiType \<times> size_t) list \<Rightarrow> Diagnostic list" where
  "validateTypes name role pairs =
     concat (map (\<lambda>(t, len).
       if \<not> isValidType t then
         [diagnostic_error Hir (''ABI override has unsupported '' @ abiValueKindName (abi_kind t) @ '' '' @ role @
            '' type for function '' @ quoted name)]
       else if storageByteLength t \<noteq> Some len then
         [diagnostic_error Hir (''ABI override '' @ role @ '' byte length does not match function '' @ quoted name)]
       else []) pairs)"

text \<open>The result of \<open>validateSignature\<close> is \<open>valid\<close>; it is false exactly when it reported.\<close>

definition validateSignature ::
  "FunctionAbiSignature \<Rightarrow> size_t list \<Rightarrow> size_t list \<Rightarrow> string \<Rightarrow> Diagnostic list" where
  "validateSignature signature parameters returns name =
     (if length (sig_parameterTypes signature) \<noteq> length parameters then
        [diagnostic_error Hir (''ABI override parameter count does not match function '' @ quoted name)] else []) @
     (if length (sig_returnTypes signature) \<noteq> length returns then
        [diagnostic_error Hir (''ABI override return count does not match function '' @ quoted name)] else []) @
     validateTypes name ''parameter'' (zip (sig_parameterTypes signature) parameters) @
     validateTypes name ''return'' (zip (sig_returnTypes signature) returns)"

datatype PendingAbi =
    PendingObject nat AbiType
  | PendingFunction nat FunctionAbiSignature
  | PendingExtern nat FunctionAbiSignature

definition addDiagnostics :: "Diagnostic list \<Rightarrow> 'p OverrideState \<Rightarrow> 'p OverrideState" where
  "addDiagnostics ds st = st\<lparr>os_diagnostics := os_diagnostics st @ ds\<rparr>"

definition stepAbi ::
  "TranslationUnit \<Rightarrow> AbiOverride \<Rightarrow> PendingAbi OverrideState \<Rightarrow> PendingAbi OverrideState" where
  "stepAbi unit ov st =
     (let name = ao_symbolName ov; key = overrideKey (ao_target ov) name in
      if name = [] then addOverrideDiagnostic ''ABI override has an empty symbol name'' st
      else if key \<in> os_seen st then
        addOverrideDiagnostic (''duplicate ABI override for '' @ targetName (ao_target ov) @ '' '' @ quoted name) st
      else let st = markSeen key st in
      (case ao_target ov of
         GlobalTarget \<Rightarrow>
           (case (ao_objectType ov, ao_functionSignature ov) of
              (Some t, None) \<Rightarrow>
                if \<not> isValidType t then
                  addOverrideDiagnostic (''ABI override has unsupported '' @ abiValueKindName (abi_kind t) @
                    '' object type for global '' @ quoted name) st
                else (case find_index (\<lambda>g. global_bindingName g = name) (tu_globals unit) of
                   None \<Rightarrow> addOverrideDiagnostic (''ABI override references unknown global '' @ quoted name) st
                 | Some i \<Rightarrow>
                     if storageByteLength t \<noteq> Some (global_byteLength (tu_globals unit ! i)) then
                       addOverrideDiagnostic
                         (''ABI override object byte length does not match global '' @ quoted name) st
                     else addPending (PendingObject i t) st)
            | _ \<Rightarrow> addOverrideDiagnostic
                (''global ABI override for '' @ quoted name @ '' must provide exactly one object type'') st)
       | FunctionTarget \<Rightarrow>
           (case (ao_objectType ov, ao_functionSignature ov) of
              (None, Some sig) \<Rightarrow>
                (case find_index (\<lambda>f. fn_name f = name) (tu_functions unit) of
                   Some i \<Rightarrow>
                     (case validateSignature sig (map param_byteLength (fn_parameters (tu_functions unit ! i)))
                             (fn_returnByteLengths (tu_functions unit ! i)) name of
                        [] \<Rightarrow> addPending (PendingFunction i sig) st
                      | ds \<Rightarrow> addDiagnostics ds st)
                 | None \<Rightarrow>
                     (case find_index (\<lambda>f. ef_name f = name) (tu_externFunctions unit) of
                        None \<Rightarrow> addOverrideDiagnostic (''ABI override references unknown function '' @ quoted name) st
                      | Some i \<Rightarrow>
                          (case validateSignature sig (ef_parameterByteLengths (tu_externFunctions unit ! i))
                                  (ef_returnByteLengths (tu_externFunctions unit ! i)) name of
                             [] \<Rightarrow> addPending (PendingExtern i sig) st
                           | ds \<Rightarrow> addDiagnostics ds st)))
            | _ \<Rightarrow> addOverrideDiagnostic
                (''function ABI override for '' @ quoted name @ '' must provide exactly one function signature'') st)))"

fun commitAbi :: "PendingAbi \<Rightarrow> TranslationUnit \<Rightarrow> TranslationUnit" where
  "commitAbi (PendingObject i t) unit =
     unit\<lparr>tu_globals := (tu_globals unit)[i := (tu_globals unit ! i)\<lparr>global_abiType := Some t\<rparr>]\<rparr>"
| "commitAbi (PendingFunction i sig) unit =
     unit\<lparr>tu_functions := (tu_functions unit)[i := (tu_functions unit ! i)\<lparr>fn_abiSignature := Some sig\<rparr>]\<rparr>"
| "commitAbi (PendingExtern i sig) unit =
     unit\<lparr>tu_externFunctions :=
       (tu_externFunctions unit)[i := (tu_externFunctions unit ! i)\<lparr>ef_abiSignature := Some sig\<rparr>]\<rparr>"

definition applyAbiOverrides ::
  "TranslationUnit \<Rightarrow> AbiOverride list \<Rightarrow> Diagnostic list \<times> TranslationUnit" where
  "applyAbiOverrides unit overrides = runOverrides stepAbi commitAbi unit overrides"

section \<open>What a collecting pass promises\<close>

text \<open>
  The contract of a step: an override that is valid for the unit and whose key is new
  becomes a pending write and nothing else; any other override adds a diagnostic.  The pass
  then accepts a list exactly when every override is valid and no key repeats, commits the
  writes in order, and otherwise leaves the unit as it was.
\<close>

locale override_pass =
  fixes step :: "'u \<Rightarrow> 'o \<Rightarrow> 'p OverrideState \<Rightarrow> 'p OverrideState"
    and commit :: "'p \<Rightarrow> 'u \<Rightarrow> 'u"
    and key :: "'o \<Rightarrow> string"
    and pend :: "'u \<Rightarrow> 'o \<Rightarrow> 'p option"
  assumes step_valid: "pend u ov = Some p \<Longrightarrow> key ov \<notin> os_seen st \<Longrightarrow>
      step u ov st = addPending p (markSeen (key ov) st)"
    and step_reports: "pend u ov = None \<or> key ov \<in> os_seen st \<Longrightarrow>
      \<exists>d ds. os_diagnostics (step u ov st) = os_diagnostics st @ d # ds"
begin

lemma step_diagnostics_grow: "\<exists>ds. os_diagnostics (step u ov st) = os_diagnostics st @ ds"
proof (cases "pend u ov = None \<or> key ov \<in> os_seen st")
  case True
  then show ?thesis using step_reports by blast
next
  case False
  then show ?thesis using step_valid by (auto simp: addPending_def markSeen_def)
qed

lemma fold_diagnostics_grow: "\<exists>ds. os_diagnostics (fold (step u) ovs st) = os_diagnostics st @ ds"
proof (induction ovs arbitrary: st)
  case (Cons ov ovs)
  from step_diagnostics_grow [of u ov st] Cons.IH [of "step u ov st"] show ?case by auto
qed simp

lemma fold_accepts:
  "os_diagnostics (fold (step u) ovs st) = [] \<longleftrightarrow>
     os_diagnostics st = [] \<and> (\<forall>ov \<in> set ovs. pend u ov \<noteq> None \<and> key ov \<notin> os_seen st) \<and> distinct (map key ovs)"
proof (induction ovs arbitrary: st)
  case (Cons ov ovs)
  show ?case
  proof (cases "pend u ov = None \<or> key ov \<in> os_seen st")
    case True
    then obtain d ds where "os_diagnostics (step u ov st) = os_diagnostics st @ d # ds"
      using step_reports by blast
    then show ?thesis using fold_diagnostics_grow [of u ovs "step u ov st"] True by auto
  next
    case False
    then obtain p where "pend u ov = Some p" by auto
    moreover have "(\<forall>o' \<in> set ovs. key o' \<noteq> key ov) \<longleftrightarrow> key ov \<notin> key ` set ovs" by (auto simp: image_iff)
    ultimately show ?thesis using False Cons.IH [of "step u ov st"]
      by (simp add: step_valid addPending_def markSeen_def) blast
  qed
qed simp

lemma fold_pending:
  "os_diagnostics (fold (step u) ovs st) = [] \<Longrightarrow>
   os_pending (fold (step u) ovs st) = os_pending st @ map (the \<circ> pend u) ovs"
proof (induction ovs arbitrary: st)
  case (Cons ov ovs)
  then have "pend u ov \<noteq> None" and "key ov \<notin> os_seen st"
    using fold_accepts [of u "ov # ovs" st] by auto
  with Cons.IH [of "step u ov st"] Cons.prems show ?case
    by (auto simp: step_valid addPending_def markSeen_def)
qed simp

lemma run_accepts:
  "fst (runOverrides step commit u ovs) = [] \<longleftrightarrow>
     (\<forall>ov \<in> set ovs. pend u ov \<noteq> None) \<and> distinct (map key ovs)"
  using fold_accepts [of u ovs emptyOverrideState]
  by (simp add: runOverrides_def Let_def emptyOverrideState_def)

lemma run_result:
  "snd (runOverrides step commit u ovs) =
     (if (\<forall>ov \<in> set ovs. pend u ov \<noteq> None) \<and> distinct (map key ovs)
      then fold commit (map (the \<circ> pend u) ovs) u else u)"
  using fold_accepts [of u ovs emptyOverrideState] fold_pending [of u ovs emptyOverrideState]
  by (auto simp: runOverrides_def Let_def emptyOverrideState_def)

end

section \<open>The passes meet the contract\<close>

definition linkagePend :: "TranslationUnit \<Rightarrow> LinkageOverride \<Rightarrow> PendingLinkage option" where
  "linkagePend unit ov =
     (if lo_symbolName ov = [] then None
      else case lo_target ov of
        GlobalTarget \<Rightarrow>
          (case find_index (\<lambda>g. global_bindingName g = lo_symbolName ov) (tu_globals unit) of
             None \<Rightarrow> None
           | Some i \<Rightarrow> if global_isExtern (tu_globals unit ! i) then None
                       else Some (PendingLinkage GlobalTarget i (lo_linkage ov)))
      | FunctionTarget \<Rightarrow>
          map_option (\<lambda>i. PendingLinkage FunctionTarget i (lo_linkage ov))
            (find_index (\<lambda>f. fn_name f = lo_symbolName ov) (tu_functions unit)))"

interpretation linkage: override_pass stepLinkage commitLinkage
  "\<lambda>ov. overrideKey (lo_target ov) (lo_symbolName ov)" linkagePend
proof (unfold_locales, goal_cases)
  case (1 u ov p st)
  then show ?case
    by (auto simp: linkagePend_def stepLinkage_def Let_def split: if_splits LinkageTarget.splits option.splits)
next
  case (2 u ov st)
  then show ?case
    by (auto simp: linkagePend_def stepLinkage_def Let_def addOverrideDiagnostic_def markSeen_def
        split: if_splits LinkageTarget.splits option.splits)
qed

definition abiPend :: "TranslationUnit \<Rightarrow> AbiOverride \<Rightarrow> PendingAbi option" where
  "abiPend unit ov =
     (let name = ao_symbolName ov in
      if name = [] then None
      else case (ao_target ov, ao_objectType ov, ao_functionSignature ov) of
        (GlobalTarget, Some t, None) \<Rightarrow>
          (case find_index (\<lambda>g. global_bindingName g = name) (tu_globals unit) of
             None \<Rightarrow> None
           | Some i \<Rightarrow> if isValidType t \<and> storageByteLength t = Some (global_byteLength (tu_globals unit ! i))
                       then Some (PendingObject i t) else None)
      | (FunctionTarget, None, Some sig) \<Rightarrow>
          (case find_index (\<lambda>f. fn_name f = name) (tu_functions unit) of
             Some i \<Rightarrow>
               if validateSignature sig (map param_byteLength (fn_parameters (tu_functions unit ! i)))
                    (fn_returnByteLengths (tu_functions unit ! i)) name = []
               then Some (PendingFunction i sig) else None
           | None \<Rightarrow>
               (case find_index (\<lambda>f. ef_name f = name) (tu_externFunctions unit) of
                  None \<Rightarrow> None
                | Some i \<Rightarrow>
                    if validateSignature sig (ef_parameterByteLengths (tu_externFunctions unit ! i))
                         (ef_returnByteLengths (tu_externFunctions unit ! i)) name = []
                    then Some (PendingExtern i sig) else None))
      | _ \<Rightarrow> None)"

interpretation abi: override_pass stepAbi commitAbi
  "\<lambda>ov. overrideKey (ao_target ov) (ao_symbolName ov)" abiPend
proof (unfold_locales, goal_cases)
  case (1 u ov p st)
  then show ?case
    by (auto simp: abiPend_def stepAbi_def Let_def
        split: if_splits LinkageTarget.splits option.splits list.splits)
next
  case (2 u ov st)
  then show ?case
    by (auto simp: abiPend_def stepAbi_def Let_def addOverrideDiagnostic_def markSeen_def addDiagnostics_def
        split: if_splits LinkageTarget.splits option.splits list.splits)
qed

section \<open>Writes at distinct positions\<close>

lemma find_index_Some:
  "find_index p xs = Some i \<Longrightarrow> i < length xs \<and> p (xs ! i) \<and> (\<forall>j < i. \<not> p (xs ! j))"
proof (induction xs arbitrary: i)
  case (Cons x xs)
  then show ?case by (auto split: if_splits simp: less_Suc_eq_0_disj)
qed simp

lemma find_index_None: "find_index p xs = None \<longleftrightarrow> (\<forall>x \<in> set xs. \<not> p x)"
  by (induction xs) auto

definition writeAt :: "('o \<Rightarrow> nat option) \<Rightarrow> ('o \<Rightarrow> 'a \<Rightarrow> 'a) \<Rightarrow> 'o \<Rightarrow> 'a list \<Rightarrow> 'a list" where
  "writeAt w f ov xs = (case w ov of None \<Rightarrow> xs | Some i \<Rightarrow> xs[i := f ov (xs ! i)])"

definition written :: "('o \<Rightarrow> nat option) \<Rightarrow> ('o \<Rightarrow> 'a \<Rightarrow> 'a) \<Rightarrow> 'o list \<Rightarrow> 'a list \<Rightarrow> 'a list" where
  "written w f ovs xs =
     map (\<lambda>i. case find (\<lambda>ov. w ov = Some i) ovs of None \<Rightarrow> xs ! i | Some ov \<Rightarrow> f ov (xs ! i)) [0..<length xs]"

lemma length_writeAt [simp]: "length (writeAt w f ov xs) = length xs"
  by (simp add: writeAt_def split: option.split)

lemma length_fold_writeAt [simp]: "length (fold (writeAt w f) ovs xs) = length xs"
  by (induction ovs arbitrary: xs) simp_all

lemma fold_writeAt_other:
  "(\<And>ov. ov \<in> set ovs \<Longrightarrow> w ov \<noteq> Some i) \<Longrightarrow> fold (writeAt w f) ovs xs ! i = xs ! i"
proof (induction ovs arbitrary: xs)
  case (Cons ov ovs)
  then have "w ov \<noteq> Some i" by simp
  then have "writeAt w f ov xs ! i = xs ! i" by (cases "w ov") (auto simp: writeAt_def)
  with Cons show ?case by simp
qed simp

lemma written_nth:
  "i < length xs \<Longrightarrow> written w f ovs xs ! i =
     (case find (\<lambda>ov. w ov = Some i) ovs of None \<Rightarrow> xs ! i | Some ov \<Rightarrow> f ov (xs ! i))"
  by (simp add: written_def split: option.split)

lemma fold_writeAt:
  assumes "distinct (map k ovs)"
    and "\<And>a b. a \<in> set ovs \<Longrightarrow> b \<in> set ovs \<Longrightarrow> w a = w b \<Longrightarrow> w a \<noteq> None \<Longrightarrow> k a = k b"
  shows "fold (writeAt w f) ovs xs = written w f ovs xs"
proof (rule nth_equalityI)
  show "length (fold (writeAt w f) ovs xs) = length (written w f ovs xs)" by (simp add: written_def)
  fix i
  assume "i < length (fold (writeAt w f) ovs xs)"
  then have "i < length xs" by simp
  then show "fold (writeAt w f) ovs xs ! i = written w f ovs xs ! i"
    using assms
  proof (induction ovs arbitrary: xs)
    case (Cons ov ovs)
    have keys: "\<And>a b. a \<in> set ovs \<Longrightarrow> b \<in> set ovs \<Longrightarrow> w a = w b \<Longrightarrow> w a \<noteq> None \<Longrightarrow> k a = k b"
      using Cons.prems(3) by simp
    show ?case
    proof (cases "w ov = Some i")
      case True
      have "w b \<noteq> Some i" if "b \<in> set ovs" for b
      proof
        assume "w b = Some i"
        then have "k ov = k b" using Cons.prems(3) [of ov b] True that by simp
        then show False using Cons.prems(2) that by auto
      qed
      then have "fold (writeAt w f) ovs (writeAt w f ov xs) ! i = writeAt w f ov xs ! i"
        by (intro fold_writeAt_other) simp
      also have "\<dots> = f ov (xs ! i)"
        using True Cons.prems(1) by (simp add: writeAt_def)
      also have "\<dots> = written w f (ov # ovs) xs ! i"
        using True Cons.prems(1) by (simp add: written_nth)
      finally show ?thesis by simp
    next
      case False
      have "fold (writeAt w f) ovs (writeAt w f ov xs) ! i = written w f ovs (writeAt w f ov xs) ! i"
        using Cons.prems(1,2) by (intro Cons.IH keys) simp_all
      also have "\<dots> = written w f (ov # ovs) xs ! i"
      proof -
        have "writeAt w f ov xs ! i = xs ! i"
          using False by (cases "w ov") (auto simp: writeAt_def)
        with False Cons.prems(1) show ?thesis by (simp add: written_nth split: option.split)
      qed
      finally show ?thesis by simp
    qed
  qed (simp add: written_def)
qed

lemma overrideKey_inject: "overrideKey s a = overrideKey t b \<longleftrightarrow> s = t \<and> a = b"
  by (cases s; cases t; simp add: overrideKey_def)

lemma fold_writeAt_named:
  fixes ovs :: "'o list"
  assumes "distinct (map (\<lambda>ov. overrideKey (target ov) (name ov)) ovs)"
    and "\<And>ov. ov \<in> set ovs \<Longrightarrow> w ov \<noteq> None \<Longrightarrow>
           target ov = t \<and> w ov = find_index (\<lambda>x. elementName x = name ov) ys"
  shows "fold (writeAt w f) ovs xs = written w f ovs xs"
proof (rule fold_writeAt [OF assms(1)])
  fix a b
  assume ab: "a \<in> set ovs" "b \<in> set ovs" "w a = w b" "w a \<noteq> None"
  then obtain i where "w a = Some i" "w b = Some i" by auto
  then have "elementName (ys ! i) = name a" "elementName (ys ! i) = name b"
    using assms(2) [of a] assms(2) [of b] ab find_index_Some by fastforce+
  then show "overrideKey (target a) (name a) = overrideKey (target b) (name b)"
    using assms(2) [of a] assms(2) [of b] ab by simp
qed

section \<open>The specification of the linkage pass\<close>

definition globalLinkageWrite :: "TranslationUnit \<Rightarrow> LinkageOverride \<Rightarrow> nat option" where
  "globalLinkageWrite u ov = (if lo_target ov = GlobalTarget
     then find_index (\<lambda>g. global_bindingName g = lo_symbolName ov) (tu_globals u) else None)"

definition functionLinkageWrite :: "TranslationUnit \<Rightarrow> LinkageOverride \<Rightarrow> nat option" where
  "functionLinkageWrite u ov = (if lo_target ov = FunctionTarget
     then find_index (\<lambda>f. fn_name f = lo_symbolName ov) (tu_functions u) else None)"

definition linkedUnit :: "LinkageOverride list \<Rightarrow> TranslationUnit \<Rightarrow> TranslationUnit" where
  "linkedUnit ovs u = u\<lparr>
     tu_globals := written (globalLinkageWrite u) (\<lambda>ov g. g\<lparr>global_linkage := lo_linkage ov\<rparr>) ovs (tu_globals u),
     tu_functions := written (functionLinkageWrite u) (\<lambda>ov f. f\<lparr>fn_linkage := lo_linkage ov\<rparr>) ovs (tu_functions u)\<rparr>"

definition linkageTargetDefined :: "TranslationUnit \<Rightarrow> LinkageOverride \<Rightarrow> bool" where
  "linkageTargetDefined u ov \<longleftrightarrow> lo_symbolName ov \<noteq> [] \<and>
     (case lo_target ov of
        GlobalTarget \<Rightarrow>
          (case find (\<lambda>g. global_bindingName g = lo_symbolName ov) (tu_globals u) of
             None \<Rightarrow> False | Some g \<Rightarrow> \<not> global_isExtern g)
      | FunctionTarget \<Rightarrow> lo_symbolName ov \<in> fn_name ` set (tu_functions u))"

definition acceptableLinkage :: "TranslationUnit \<Rightarrow> LinkageOverride list \<Rightarrow> bool" where
  "acceptableLinkage u ovs \<longleftrightarrow>
     list_all (linkageTargetDefined u) ovs \<and> distinct (map (\<lambda>ov. (lo_target ov, lo_symbolName ov)) ovs)"

lemma find_find_index: "find p xs = map_option ((!) xs) (find_index p xs)"
  by (induction xs) (auto simp: option.map_comp comp_def)

lemma find_index_mem: "find_index (\<lambda>x. f x = y) xs = None \<longleftrightarrow> y \<notin> f ` set xs"
  by (auto simp: find_index_None)

lemma linkagePend_defined: "linkagePend u ov \<noteq> None \<longleftrightarrow> linkageTargetDefined u ov"
proof (cases "lo_target ov")
  case GlobalTarget
  then show ?thesis
    by (cases "find_index (\<lambda>g. global_bindingName g = lo_symbolName ov) (tu_globals u)")
      (simp_all add: linkagePend_def linkageTargetDefined_def find_find_index)
next
  case FunctionTarget
  then show ?thesis
    by (simp add: linkagePend_def linkageTargetDefined_def find_index_mem del: not_None_eq)
qed

lemma distinct_overrideKey:
  "distinct (map (\<lambda>ov. overrideKey (t ov) (n ov)) ovs) \<longleftrightarrow> distinct (map (\<lambda>ov. (t ov, n ov)) ovs)"
  by (auto simp: distinct_map inj_on_def overrideKey_inject)

lemma fold_commitLinkage:
  assumes "\<And>ov. ov \<in> set ovs \<Longrightarrow> linkagePend u ov \<noteq> None"
  shows "fold commitLinkage (map (the \<circ> linkagePend u) ovs) v = v\<lparr>
     tu_globals := fold (writeAt (globalLinkageWrite u) (\<lambda>ov g. g\<lparr>global_linkage := lo_linkage ov\<rparr>)) ovs (tu_globals v),
     tu_functions := fold (writeAt (functionLinkageWrite u) (\<lambda>ov f. f\<lparr>fn_linkage := lo_linkage ov\<rparr>)) ovs (tu_functions v)\<rparr>"
  using assms
proof (induction ovs arbitrary: v)
  case (Cons ov ovs)
  have "linkagePend u ov \<noteq> None" using Cons.prems by simp
  then have "commitLinkage (the (linkagePend u ov)) v = v\<lparr>
     tu_globals := writeAt (globalLinkageWrite u) (\<lambda>ov g. g\<lparr>global_linkage := lo_linkage ov\<rparr>) ov (tu_globals v),
     tu_functions := writeAt (functionLinkageWrite u) (\<lambda>ov f. f\<lparr>fn_linkage := lo_linkage ov\<rparr>) ov (tu_functions v)\<rparr>"
    by (auto simp: linkagePend_def writeAt_def globalLinkageWrite_def functionLinkageWrite_def
        split: LinkageTarget.splits option.splits if_splits)
  with Cons show ?case by simp
qed simp

text \<open>
  C25. The linkage pass is all or nothing.  It reports no diagnostic exactly when every override
  names a function or a global that is not extern (the first one of that name) and no target is
  named twice; then the unit differs from the old one in the linkage of the named elements only,
  and otherwise the unit is returned unchanged.
\<close>

theorem applyLinkageOverrides_atomic:
  "(fst (applyLinkageOverrides u ovs) = [] \<longleftrightarrow> acceptableLinkage u ovs) \<and>
   snd (applyLinkageOverrides u ovs) = (if acceptableLinkage u ovs then linkedUnit ovs u else u)"
proof -
  have ok: "(\<forall>ov \<in> set ovs. linkagePend u ov \<noteq> None) \<and>
      distinct (map (\<lambda>ov. overrideKey (lo_target ov) (lo_symbolName ov)) ovs) \<longleftrightarrow> acceptableLinkage u ovs"
    by (simp add: acceptableLinkage_def linkagePend_defined list_all_iff distinct_overrideKey del: not_None_eq)
  have "fold commitLinkage (map (the \<circ> linkagePend u) ovs) u = linkedUnit ovs u" if "acceptableLinkage u ovs"
  proof -
    from that ok have d: "distinct (map (\<lambda>ov. overrideKey (lo_target ov) (lo_symbolName ov)) ovs)"
      and p: "\<And>ov. ov \<in> set ovs \<Longrightarrow> linkagePend u ov \<noteq> None" by blast+
    have "fold commitLinkage (map (the \<circ> linkagePend u) ovs) u = u\<lparr>
       tu_globals := fold (writeAt (globalLinkageWrite u) (\<lambda>ov g. g\<lparr>global_linkage := lo_linkage ov\<rparr>)) ovs (tu_globals u),
       tu_functions := fold (writeAt (functionLinkageWrite u) (\<lambda>ov f. f\<lparr>fn_linkage := lo_linkage ov\<rparr>)) ovs (tu_functions u)\<rparr>"
      by (rule fold_commitLinkage) (rule p)
    also have "\<dots> = linkedUnit ovs u"
    proof -
      have "fold (writeAt (globalLinkageWrite u) f) ovs xs = written (globalLinkageWrite u) f ovs xs"
        for f and xs :: "GlobalMemory list"
        by (rule fold_writeAt_named [OF d, of _ GlobalTarget global_bindingName "tu_globals u"])
          (auto simp: globalLinkageWrite_def split: if_splits)
      moreover have "fold (writeAt (functionLinkageWrite u) f) ovs xs = written (functionLinkageWrite u) f ovs xs"
        for f and xs :: "Function list"
        by (rule fold_writeAt_named [OF d, of _ FunctionTarget fn_name "tu_functions u"])
          (auto simp: functionLinkageWrite_def split: if_splits)
      ultimately show ?thesis by (simp add: linkedUnit_def)
    qed
    finally show ?thesis .
  qed
  then show ?thesis unfolding applyLinkageOverrides_def linkage.run_accepts linkage.run_result ok by simp
qed

section \<open>The specification of the ABI pass\<close>

definition objectWrite :: "TranslationUnit \<Rightarrow> AbiOverride \<Rightarrow> nat option" where
  "objectWrite u ov = (if ao_target ov = GlobalTarget
     then find_index (\<lambda>g. global_bindingName g = ao_symbolName ov) (tu_globals u) else None)"

definition functionAbiWrite :: "TranslationUnit \<Rightarrow> AbiOverride \<Rightarrow> nat option" where
  "functionAbiWrite u ov = (if ao_target ov = FunctionTarget
     then find_index (\<lambda>f. fn_name f = ao_symbolName ov) (tu_functions u) else None)"

definition externAbiWrite :: "TranslationUnit \<Rightarrow> AbiOverride \<Rightarrow> nat option" where
  "externAbiWrite u ov = (if ao_target ov = FunctionTarget \<and> functionAbiWrite u ov = None
     then find_index (\<lambda>f. ef_name f = ao_symbolName ov) (tu_externFunctions u) else None)"

definition annotatedUnit :: "AbiOverride list \<Rightarrow> TranslationUnit \<Rightarrow> TranslationUnit" where
  "annotatedUnit ovs u = u\<lparr>
     tu_globals := written (objectWrite u) (\<lambda>ov g. g\<lparr>global_abiType := ao_objectType ov\<rparr>) ovs (tu_globals u),
     tu_functions := written (functionAbiWrite u) (\<lambda>ov f. f\<lparr>fn_abiSignature := ao_functionSignature ov\<rparr>) ovs (tu_functions u),
     tu_externFunctions := written (externAbiWrite u) (\<lambda>ov f. f\<lparr>ef_abiSignature := ao_functionSignature ov\<rparr>) ovs (tu_externFunctions u)\<rparr>"

definition typesMatch :: "AbiType list \<Rightarrow> size_t list \<Rightarrow> bool" where
  "typesMatch ts lens \<longleftrightarrow> list_all2 (\<lambda>t len. isValidType t \<and> storageByteLength t = Some len) ts lens"

definition abiOverrideFits :: "TranslationUnit \<Rightarrow> AbiOverride \<Rightarrow> bool" where
  "abiOverrideFits u ov \<longleftrightarrow> ao_symbolName ov \<noteq> [] \<and>
     (case (ao_target ov, ao_objectType ov, ao_functionSignature ov) of
        (GlobalTarget, Some t, None) \<Rightarrow>
          (case find (\<lambda>g. global_bindingName g = ao_symbolName ov) (tu_globals u) of
             None \<Rightarrow> False | Some g \<Rightarrow> typesMatch [t] [global_byteLength g])
      | (FunctionTarget, None, Some sig) \<Rightarrow>
          (case find (\<lambda>f. fn_name f = ao_symbolName ov) (tu_functions u) of
             Some f \<Rightarrow> typesMatch (sig_parameterTypes sig) (map param_byteLength (fn_parameters f)) \<and>
                       typesMatch (sig_returnTypes sig) (fn_returnByteLengths f)
           | None \<Rightarrow>
               (case find (\<lambda>f. ef_name f = ao_symbolName ov) (tu_externFunctions u) of
                  Some f \<Rightarrow> typesMatch (sig_parameterTypes sig) (ef_parameterByteLengths f) \<and>
                            typesMatch (sig_returnTypes sig) (ef_returnByteLengths f)
                | None \<Rightarrow> False))
      | _ \<Rightarrow> False)"

definition acceptableAbi :: "TranslationUnit \<Rightarrow> AbiOverride list \<Rightarrow> bool" where
  "acceptableAbi u ovs \<longleftrightarrow>
     list_all (abiOverrideFits u) ovs \<and> distinct (map (\<lambda>ov. (ao_target ov, ao_symbolName ov)) ovs)"

lemma validateTypes_silent:
  "validateTypes name role ps = [] \<longleftrightarrow> (\<forall>(t, len) \<in> set ps. isValidType t \<and> storageByteLength t = Some len)"
  unfolding validateTypes_def concat_eq_Nil_conv by (auto split: if_splits)

lemma validateSignature_silent:
  "validateSignature sig ps rs name = [] \<longleftrightarrow>
     typesMatch (sig_parameterTypes sig) ps \<and> typesMatch (sig_returnTypes sig) rs"
  by (auto simp: validateSignature_def validateTypes_silent typesMatch_def list_all2_iff)

lemma typesMatch_single: "typesMatch [t] [n] \<longleftrightarrow> isValidType t \<and> storageByteLength t = Some n"
  by (simp add: typesMatch_def)

lemma abiPend_fits: "abiPend u ov \<noteq> None \<longleftrightarrow> abiOverrideFits u ov"
proof (cases "ao_target ov"; cases "ao_objectType ov"; cases "ao_functionSignature ov")
  fix t
  assume "ao_target ov = GlobalTarget" "ao_objectType ov = Some t" "ao_functionSignature ov = None"
  then show ?thesis
    by (cases "find_index (\<lambda>g. global_bindingName g = ao_symbolName ov) (tu_globals u)")
      (simp_all add: abiPend_def abiOverrideFits_def find_find_index typesMatch_single Let_def)
next
  fix sig
  assume *: "ao_target ov = FunctionTarget" "ao_objectType ov = None" "ao_functionSignature ov = Some sig"
  show ?thesis
  proof (cases "find_index (\<lambda>f. fn_name f = ao_symbolName ov) (tu_functions u)")
    case None
    with * show ?thesis
      by (cases "find_index (\<lambda>f. ef_name f = ao_symbolName ov) (tu_externFunctions u)")
        (simp_all add: abiPend_def abiOverrideFits_def find_find_index validateSignature_silent Let_def)
  next
    case (Some i)
    with * show ?thesis
      by (simp add: abiPend_def abiOverrideFits_def find_find_index validateSignature_silent Let_def)
  qed
qed (simp_all add: abiPend_def abiOverrideFits_def Let_def)

lemma commitAbi_pend:
  assumes "abiPend u ov \<noteq> None"
  shows "commitAbi (the (abiPend u ov)) v = v\<lparr>
     tu_globals := writeAt (objectWrite u) (\<lambda>ov g. g\<lparr>global_abiType := ao_objectType ov\<rparr>) ov (tu_globals v),
     tu_functions := writeAt (functionAbiWrite u) (\<lambda>ov f. f\<lparr>fn_abiSignature := ao_functionSignature ov\<rparr>) ov (tu_functions v),
     tu_externFunctions := writeAt (externAbiWrite u) (\<lambda>ov f. f\<lparr>ef_abiSignature := ao_functionSignature ov\<rparr>) ov (tu_externFunctions v)\<rparr>"
  using assms
  by (auto simp: abiPend_def Let_def writeAt_def objectWrite_def functionAbiWrite_def externAbiWrite_def
      split: LinkageTarget.splits option.splits if_splits)

lemma fold_commitAbi:
  assumes "\<And>ov. ov \<in> set ovs \<Longrightarrow> abiPend u ov \<noteq> None"
  shows "fold commitAbi (map (the \<circ> abiPend u) ovs) v = v\<lparr>
     tu_globals := fold (writeAt (objectWrite u) (\<lambda>ov g. g\<lparr>global_abiType := ao_objectType ov\<rparr>)) ovs (tu_globals v),
     tu_functions := fold (writeAt (functionAbiWrite u) (\<lambda>ov f. f\<lparr>fn_abiSignature := ao_functionSignature ov\<rparr>)) ovs (tu_functions v),
     tu_externFunctions := fold (writeAt (externAbiWrite u) (\<lambda>ov f. f\<lparr>ef_abiSignature := ao_functionSignature ov\<rparr>)) ovs (tu_externFunctions v)\<rparr>"
  using assms
proof (induction ovs arbitrary: v)
  case (Cons ov ovs)
  then have "abiPend u ov \<noteq> None" by simp
  from commitAbi_pend [OF this, of v] Cons show ?case by simp
qed simp

text \<open>
  C26. The ABI pass is all or nothing.  It reports no diagnostic exactly when every override
  carries the one kind of annotation its target takes, names an existing symbol, its types are
  valid and their storage lengths are those of the symbol, and no target is named twice; then
  the annotations of the named symbols are all that changes in the unit, and otherwise nothing
  changes.
\<close>

theorem applyAbiOverrides_atomic:
  "(fst (applyAbiOverrides u ovs) = [] \<longleftrightarrow> acceptableAbi u ovs) \<and>
   snd (applyAbiOverrides u ovs) = (if acceptableAbi u ovs then annotatedUnit ovs u else u)"
proof -
  have ok: "(\<forall>ov \<in> set ovs. abiPend u ov \<noteq> None) \<and>
      distinct (map (\<lambda>ov. overrideKey (ao_target ov) (ao_symbolName ov)) ovs) \<longleftrightarrow> acceptableAbi u ovs"
    by (simp add: acceptableAbi_def abiPend_fits list_all_iff distinct_overrideKey del: not_None_eq)
  have "fold commitAbi (map (the \<circ> abiPend u) ovs) u = annotatedUnit ovs u" if "acceptableAbi u ovs"
  proof -
    from that ok have d: "distinct (map (\<lambda>ov. overrideKey (ao_target ov) (ao_symbolName ov)) ovs)"
      and p: "\<And>ov. ov \<in> set ovs \<Longrightarrow> abiPend u ov \<noteq> None" by blast+
    have "fold (writeAt (objectWrite u) f) ovs xs = written (objectWrite u) f ovs xs"
      for f and xs :: "GlobalMemory list"
      by (rule fold_writeAt_named [OF d, of _ GlobalTarget global_bindingName "tu_globals u"])
        (auto simp: objectWrite_def split: if_splits)
    moreover have "fold (writeAt (functionAbiWrite u) f) ovs xs = written (functionAbiWrite u) f ovs xs"
      for f and xs :: "Function list"
      by (rule fold_writeAt_named [OF d, of _ FunctionTarget fn_name "tu_functions u"])
        (auto simp: functionAbiWrite_def split: if_splits)
    moreover have "fold (writeAt (externAbiWrite u) f) ovs xs = written (externAbiWrite u) f ovs xs"
      for f and xs :: "ExternFunction list"
      by (rule fold_writeAt_named [OF d, of _ FunctionTarget ef_name "tu_externFunctions u"])
        (auto simp: externAbiWrite_def split: if_splits)
    ultimately show ?thesis using fold_commitAbi [of ovs u u, OF p] by (simp add: annotatedUnit_def)
  qed
  then show ?thesis unfolding applyAbiOverrides_def abi.run_accepts abi.run_result ok by simp
qed

end
