(* ===== verification/HIR_Layout.thy ===== *)
theory HIR_Layout
  imports HIR_Overrides
begin

text \<open>
  What the ABI checks of \<open>src/hir/HIR.cpp\<close> (\<open>storageByteLength\<close> and \<open>isValidType\<close>) guarantee
  of the types they accept: storage lengths are exact products and the members of an aggregate
  are disjoint, in order and inside it.
\<close>

definition storageBytes :: "AbiType \<Rightarrow> nat" where
  "storageBytes t = unat (abi_byteLength t) * unat (abi_elementCount t)"

text \<open>
  The storage length of an ABI type is the mathematical product of its byte length and its
  element count; when the product is zero or does not fit a \<open>size_t\<close> there is none, so the
  multiplication never wraps.
\<close>

theorem storageByteLength_exact:
  "storageByteLength t =
     (if 0 < storageBytes t \<and> storageBytes t < 2 ^ 64 then Some (word_of_nat (storageBytes t)) else None)"
proof (cases "abi_byteLength t = 0 \<or> abi_elementCount t = 0")
  case True
  then show ?thesis by (auto simp: storageByteLength_def storageBytes_def)
next
  case False
  then have "0 < storageBytes t" by (simp add: storageBytes_def unat_gt_0)
  with False show ?thesis
    by (simp add: storageByteLength_def word_product_fits storageBytes_def)
qed

lemma storageByteLength_Some:
  assumes "storageByteLength t = Some n"
  shows "unat n = storageBytes t" and "0 < storageBytes t"
proof -
  have "abi_byteLength t \<noteq> 0" "abi_elementCount t \<noteq> 0"
    and fits: "\<not> abi_byteLength t > (- 1) div abi_elementCount t" and n: "n = abi_byteLength t * abi_elementCount t"
    using assms by (auto simp: storageByteLength_def split: if_splits)
  then show "0 < storageBytes t" by (simp add: storageBytes_def unat_gt_0)
  from fits \<open>abi_elementCount t \<noteq> 0\<close> have "storageBytes t < 2 ^ 64"
    by (simp add: word_product_fits storageBytes_def)
  with n show "unat n = storageBytes t" by (simp add: storageBytes_def unat_word_ariths)
qed

lemma validFields_layout:
  assumes "validFields len e members offsets" and "length members = length offsets" and "j < length members"
  shows "unat e \<le> unat (offsets ! j) \<and> isValidType (members ! j) \<and>
    unat (offsets ! j) + storageBytes (members ! j) \<le> unat len \<and>
    (\<forall>i < j. unat (offsets ! i) + storageBytes (members ! i) \<le> unat (offsets ! j))"
  using assms
proof (induction members arbitrary: e offsets j)
  case (Cons f fs)
  then obtain offset rest where o: "offsets = offset # rest" by (cases offsets) auto
  with Cons.prems obtain n where n: "storageByteLength f = Some n"
    and f: "isValidType f" "\<not> offset < e" "\<not> offset > len" "\<not> n > len - offset"
    and rest: "validFields len (offset + n) fs rest"
    by (auto split: option.splits if_splits)
  have bound: "unat offset + unat n \<le> unat len"
    using f(3,4) by (simp add: not_less word_le_nat_alt unat_sub)
  then have sum: "unat (offset + n) = unat offset + unat n"
    using unsigned_less [of len, where 'a = nat] by (simp add: unat_word_ariths)
  show ?case
  proof (cases j)
    case 0
    with o f(1,2) bound storageByteLength_Some(1) [OF n] show ?thesis
      by (simp add: not_less word_le_nat_alt)
  next
    case (Suc k)
    then have "k < length fs" "length fs = length rest" using Cons.prems(2,3) o by simp_all
    from Cons.IH [OF rest this(2,1)] show ?thesis
      using o Suc f(2) sum storageByteLength_Some(1) [OF n]
      by (auto simp: less_Suc_eq_0_disj not_less word_le_nat_alt)
  qed
qed simp

text \<open>
  C31. In an aggregate type that the ABI check accepts there is one offset per member, every member
  is itself accepted and lies inside the aggregate, and each member begins at or after the end of
  every earlier one: members never overlap and no sum of an offset and a length wraps.
\<close>

theorem isValidType_layout:
  assumes "isValidType t" and "abi_kind t = AggregateAbi" and "j < length (abi_aggregateFields t)"
  shows "length (abi_aggregateFieldOffsets t) = length (abi_aggregateFields t) \<and> isValidType (abi_aggregateFields t ! j) \<and>
    unat (abi_aggregateFieldOffsets t ! j) + storageBytes (abi_aggregateFields t ! j) \<le> unat (abi_byteLength t) \<and>
    (\<forall>i < j. unat (abi_aggregateFieldOffsets t ! i) + storageBytes (abi_aggregateFields t ! i) \<le> unat (abi_aggregateFieldOffsets t ! j))"
proof (cases t)
  case (AbiType kind len isSigned name align count members offsets)
  with assms have "validFields len 0 members offsets" "length members = length offsets" "j < length members"
    by (auto split: if_splits)
  from validFields_layout [OF this] this show ?thesis by (simp add: AbiType)
qed

definition examplePair :: AbiType where
  "examplePair = AbiType AggregateAbi 8 False ''pair'' 4 1
     [AbiType IntegerAbi 2 True [] 2 1 [] [], AbiType IntegerAbi 4 False [] 4 1 [] []] [0, 4]"

theorem isValidType_layout_witness:
  "isValidType examplePair \<and> unat (abi_aggregateFieldOffsets examplePair ! 1) + storageBytes (abi_aggregateFields examplePair ! 1) \<le> 8"
proof -
  have "isValidType examplePair" by code_simp
  moreover have "abi_kind examplePair = AggregateAbi" and "1 < length (abi_aggregateFields examplePair)"
    by (simp_all add: examplePair_def)
  ultimately show ?thesis
    using isValidType_layout [of examplePair 1] by (simp add: examplePair_def)
qed

end
