(* ===== verification/Safety_State.thy ===== *)
theory Safety_State
  imports Diagnostic "HOL-Library.Finite_Map"
begin

text \<open>
  The abstract state of the static safety analysis and its flow operations
  (\<open>src/safety/StaticSafetyState.h\<close>, \<open>src/safety/StaticSafetyStateFlow.cpp\<close>).  A fact map has
  three answers per name: no entry, an entry that says unknown (\<open>nullopt\<close>), and a known value.
  The members of the analyzer that a snapshot saves are one record, \<open>current\<close>, of the analyzer.
\<close>

section \<open>Data\<close>

record StaticAddressRange =
  rng_bindingName :: string
  rng_lowerBound :: "64 word"
  rng_offset :: "64 word"
  rng_upperBound :: uint64

datatype StaticAddressOrigin = NullAddress | DynamicObject | NonDynamicObject | ExpiredLocalObject

datatype StaticDynamicObjectState = Live | Freed | UnknownState

record StaticAddressFact =
  fact_origin :: StaticAddressOrigin
  fact_dynamicObjectId :: size_t
  fact_isBaseAddress :: bool
  fact_range :: "StaticAddressRange option"

type_synonym 'v facts = "(string, 'v option) fmap"

record StaticSafetyState =
  integerValues :: "64 word facts"
  unsignedIntegerValues :: "uint64 facts"
  addressFacts :: "StaticAddressFact facts"
  bindingAddressFacts :: "StaticAddressFact facts"
  cstrTerminations :: "bool facts"
  dynamicObjectStates :: "(size_t, StaticDynamicObjectState) fmap"
  nextDynamicObjectId :: size_t

record StaticSafetyOptions =
  opt_enabled :: bool
  opt_runtimeChecksEnabled :: bool

text \<open>
  A loop that is being validated.  Its exit scope is the depth of the stack of block contexts at the loop;
  the states that \<open>break\<close> and \<open>continue\<close> carry out of the body are kept in the context.
\<close>

record StaticLoopContext =
  loop_exitScope :: nat
  breakState :: "StaticSafetyState option"
  continueState :: "StaticSafetyState option"

record StaticSafetyAnalyzer =
  current :: StaticSafetyState
  capturedAliases :: "(string, string option) fmap"
  capturedRanges :: "(string, StaticAddressRange option) fmap"
  staticDefinitionByteLengths :: "(string, size_t) fmap"
  staticPotentiallyReboundBindings :: "string set"
  staticViewParameterCopies :: "(string, bool list) fmap"
  staticGlobalBindings :: "string list"
  nextStaticCallCaptureId :: size_t
  safetyOptions :: StaticSafetyOptions
  staticLoopContexts :: "StaticLoopContext list"
  currentDiagnosticRange :: "SourceRange option"
  safetyDiagnostics :: "Diagnostic list"

section \<open>Snapshots and joins\<close>

definition emptySafetyState :: StaticSafetyState where
  "emptySafetyState =
     \<lparr>integerValues = fmempty, unsignedIntegerValues = fmempty, addressFacts = fmempty,
      bindingAddressFacts = fmempty, cstrTerminations = fmempty, dynamicObjectStates = fmempty,
      nextDynamicObjectId = 0\<rparr>"

definition resetStaticSafetyState :: "StaticSafetyAnalyzer \<Rightarrow> StaticSafetyAnalyzer" where
  "resetStaticSafetyState an =
     an\<lparr>current := emptySafetyState, capturedAliases := fmempty, capturedRanges := fmempty,
        staticDefinitionByteLengths := fmempty, staticPotentiallyReboundBindings := {},
        staticViewParameterCopies := fmempty, staticGlobalBindings := [], nextStaticCallCaptureId := 0\<rparr>"

definition newAnalyzer :: "StaticSafetyOptions \<Rightarrow> StaticSafetyAnalyzer" where
  "newAnalyzer options =
     \<lparr>current = emptySafetyState, capturedAliases = fmempty, capturedRanges = fmempty,
      staticDefinitionByteLengths = fmempty, staticPotentiallyReboundBindings = {},
      staticViewParameterCopies = fmempty, staticGlobalBindings = [], nextStaticCallCaptureId = 0,
      safetyOptions = options, staticLoopContexts = [], currentDiagnosticRange = None, safetyDiagnostics = []\<rparr>"

definition staticSafetyState :: "StaticSafetyAnalyzer \<Rightarrow> StaticSafetyState" where
  "staticSafetyState an = current an"

definition restoreStaticSafetyState :: "StaticSafetyState \<Rightarrow> StaticSafetyAnalyzer \<Rightarrow> StaticSafetyAnalyzer" where
  "restoreStaticSafetyState st an = an\<lparr>current :=
     st\<lparr>nextDynamicObjectId := max (nextDynamicObjectId (current an)) (nextDynamicObjectId st)\<rparr>\<rparr>"

definition agreed :: "'v facts \<Rightarrow> 'v facts \<Rightarrow> string \<Rightarrow> bool" where
  "agreed l r k \<longleftrightarrow>
     (case (fmlookup l k, fmlookup r k) of (Some (Some a), Some (Some b)) \<Rightarrow> a = b | _ \<Rightarrow> False)"

definition retainCommonFacts :: "'v facts \<Rightarrow> 'v facts \<Rightarrow> 'v facts" where
  "retainCommonFacts l r = fmfilter (agreed l r) l"

definition mergeBindings :: "StaticAddressFact facts \<Rightarrow> StaticAddressFact facts \<Rightarrow> StaticAddressFact facts" where
  "mergeBindings l r =
     fmmap (\<lambda>_. None) r ++\<^sub>f fmmap_keys (\<lambda>k known. if fmlookup r k = Some known then known else None) l"

definition mergeObjects ::
  "(size_t, StaticDynamicObjectState) fmap \<Rightarrow> (size_t, StaticDynamicObjectState) fmap \<Rightarrow> (size_t, StaticDynamicObjectState) fmap" where
  "mergeObjects l r =
     fmmap_keys (\<lambda>k s. if fmlookup r k = Some s then s else UnknownState) (fmfilter (\<lambda>k. fmlookup r k \<noteq> None) l)"

definition mergedStaticSafetyStates :: "StaticSafetyState \<Rightarrow> StaticSafetyState \<Rightarrow> StaticSafetyState" where
  "mergedStaticSafetyStates l r =
     \<lparr>integerValues = retainCommonFacts (integerValues l) (integerValues r),
      unsignedIntegerValues = retainCommonFacts (unsignedIntegerValues l) (unsignedIntegerValues r),
      addressFacts = retainCommonFacts (addressFacts l) (addressFacts r),
      bindingAddressFacts = mergeBindings (bindingAddressFacts l) (bindingAddressFacts r),
      cstrTerminations = retainCommonFacts (cstrTerminations l) (cstrTerminations r),
      dynamicObjectStates = mergeObjects (dynamicObjectStates l) (dynamicObjectStates r),
      nextDynamicObjectId = max (nextDynamicObjectId l) (nextDynamicObjectId r)\<rparr>"

definition mergeStaticSafetyStates ::
  "StaticSafetyState \<Rightarrow> StaticSafetyState \<Rightarrow> StaticSafetyAnalyzer \<Rightarrow> StaticSafetyAnalyzer" where
  "mergeStaticSafetyStates l r an = restoreStaticSafetyState (mergedStaticSafetyStates l r) an"

section \<open>Invalidation\<close>

definition onState :: "(StaticSafetyState \<Rightarrow> StaticSafetyState) \<Rightarrow> StaticSafetyAnalyzer \<Rightarrow> StaticSafetyAnalyzer" where
  "onState f an = an\<lparr>current := f (current an)\<rparr>"

definition invalidateState :: "string \<Rightarrow> StaticSafetyState \<Rightarrow> StaticSafetyState" where
  "invalidateState key st = st\<lparr>
     integerValues := fmupd key None (integerValues st),
     unsignedIntegerValues := fmupd key None (unsignedIntegerValues st),
     addressFacts := fmupd key None (addressFacts st),
     cstrTerminations := fmupd key None (cstrTerminations st)\<rparr>"

definition invalidateStaticBinding :: "string \<Rightarrow> StaticSafetyAnalyzer \<Rightarrow> StaticSafetyAnalyzer" where
  "invalidateStaticBinding key an = onState (invalidateState key) an"

definition expireFact :: "string \<Rightarrow> StaticAddressFact option \<Rightarrow> StaticAddressFact option" where
  "expireFact name known =
     (case known of
        None \<Rightarrow> None
      | Some f \<Rightarrow>
          (case fact_range f of
             None \<Rightarrow> Some f
           | Some r \<Rightarrow> if rng_bindingName r = name
                       then Some (f\<lparr>fact_origin := ExpiredLocalObject, fact_isBaseAddress := False\<rparr>) else Some f))"

definition expireBinding :: "string \<Rightarrow> StaticSafetyState \<Rightarrow> StaticSafetyState" where
  "expireBinding name st = st\<lparr>
     addressFacts := fmdrop name (fmmap (expireFact name) (addressFacts st)),
     bindingAddressFacts := fmdrop name (fmmap (expireFact name) (bindingAddressFacts st)),
     integerValues := fmdrop name (integerValues st),
     unsignedIntegerValues := fmdrop name (unsignedIntegerValues st),
     cstrTerminations := fmdrop name (cstrTerminations st)\<rparr>"

definition expireStaticLocalBindings :: "string list \<Rightarrow> StaticSafetyAnalyzer \<Rightarrow> StaticSafetyAnalyzer" where
  "expireStaticLocalBindings names an = onState (fold expireBinding names) an"

definition forgetExcept :: "(string \<Rightarrow> bool) \<Rightarrow> 'v facts \<Rightarrow> 'v facts" where
  "forgetExcept keep m = fmmap_keys (\<lambda>k known. if keep k then known else None) m"

definition invalidateStaticFactsOverlapping ::
  "StaticAddressRange option \<Rightarrow> uint64 option \<Rightarrow> StaticSafetyAnalyzer \<Rightarrow> StaticSafetyAnalyzer" where
  "invalidateStaticFactsOverlapping rng byteLength an =
     (if byteLength = Some 0 then an
      else case rng of
        None \<Rightarrow>
          (let captured = (\<lambda>k. k |\<in>| fmdom (capturedAliases an)) in
           onState (\<lambda>st. st\<lparr>
             integerValues := forgetExcept captured (integerValues st),
             unsignedIntegerValues := forgetExcept captured (unsignedIntegerValues st),
             addressFacts := forgetExcept (\<lambda>k. ends_with k ''.location'' \<or> captured k) (addressFacts st),
             cstrTerminations := forgetExcept captured (cstrTerminations st)\<rparr>) an)
      | Some r \<Rightarrow> invalidateStaticBinding (rng_bindingName r) an)"

definition invalidateGlobal :: "string \<Rightarrow> StaticSafetyAnalyzer \<Rightarrow> StaticSafetyAnalyzer" where
  "invalidateGlobal name an =
     (let an = (case fmlookup (bindingAddressFacts (current an)) name of
                  None \<Rightarrow> an
                | Some bound \<Rightarrow> invalidateStaticFactsOverlapping
                    (case bound of None \<Rightarrow> None | Some f \<Rightarrow> fact_range f) None an);
          an = invalidateStaticBinding name an in
      if name \<in> staticPotentiallyReboundBindings an then
        onState (\<lambda>st. st\<lparr>bindingAddressFacts := fmupd name None (bindingAddressFacts st)\<rparr>) an
      else an)"

definition invalidateStaticGlobalFacts :: "StaticSafetyAnalyzer \<Rightarrow> StaticSafetyAnalyzer" where
  "invalidateStaticGlobalFacts an = fold invalidateGlobal (staticGlobalBindings an) an"

section \<open>Jumps\<close>

record StaticGotoContext =
  labelIndexes :: "(string, nat) fmap"
  entryStates :: "StaticSafetyState option list"
  worklist :: "nat list"
  ctx_localBindings :: "string list option"

text \<open>The contexts of the enclosing blocks, innermost first; the first argument are those left by the jump.\<close>

fun exitStaticScopes ::
  "StaticGotoContext list \<Rightarrow> StaticSafetyState \<Rightarrow> StaticSafetyAnalyzer \<Rightarrow> StaticSafetyAnalyzer \<times> StaticSafetyState" where
  "exitStaticScopes [] outgoing an = (an, outgoing)"
| "exitStaticScopes (c # cs) outgoing an =
     (let an = restoreStaticSafetyState outgoing an;
          an = (case ctx_localBindings c of None \<Rightarrow> an | Some names \<Rightarrow> expireStaticLocalBindings names an) in
      exitStaticScopes cs (staticSafetyState an) an)"

text \<open>What an incoming edge does to the entry state of a statement: the new state when it changes.\<close>

definition joinEntry :: "StaticSafetyState option \<Rightarrow> StaticSafetyState \<Rightarrow> StaticSafetyState option" where
  "joinEntry entry incoming =
     (case entry of
        None \<Rightarrow> Some incoming
      | Some e \<Rightarrow>
          let merged = mergedStaticSafetyStates e incoming in if merged = e then None else Some merged)"

fun enqueueStaticGoto ::
  "string \<Rightarrow> StaticSafetyState \<Rightarrow> StaticGotoContext list \<Rightarrow> StaticGotoContext list \<Rightarrow> StaticSafetyAnalyzer
     \<Rightarrow> StaticSafetyAnalyzer \<times> StaticGotoContext list \<times> bool" where
  "enqueueStaticGoto label incoming exited [] an = (an, exited, False)"
| "enqueueStaticGoto label incoming exited (c # cs) an =
     (case fmlookup (labelIndexes c) label of
        None \<Rightarrow> enqueueStaticGoto label incoming (exited @ [c]) cs an
      | Some index \<Rightarrow>
          (case exitStaticScopes exited incoming an of
             (an, outgoing) \<Rightarrow>
               (case joinEntry (entryStates c ! index) outgoing of
                  None \<Rightarrow> (an, exited @ c # cs, True)
                | Some e \<Rightarrow>
                    (an, exited @ c\<lparr>entryStates := (entryStates c)[index := Some e],
                                   worklist := worklist c @ [index]\<rparr> # cs, True))))"

end
