(* ===== verification/Safety_Join.thy ===== *)
theory Safety_Join
  imports Safety_State
begin

text \<open>
  The joins of the static safety analysis: what a joined state still says is true on every path
  into the join, joining does not depend on the order of the paths, and how often an entry state
  can change.
\<close>

section \<open>What a state says\<close>

record Machine =
  mem_integer :: "string \<Rightarrow> 64 word"
  mem_unsigned :: "string \<Rightarrow> uint64"
  mem_address :: "string \<Rightarrow> StaticAddressFact"
  mem_cstr :: "string \<Rightarrow> bool"
  bound_address :: "string \<Rightarrow> StaticAddressFact option"
  object_state :: "size_t \<Rightarrow> StaticDynamicObjectState"
  allocated :: "size_t set"

definition tells :: "'v facts \<Rightarrow> (string \<Rightarrow> 'v) \<Rightarrow> bool" where
  "tells m \<sigma> \<longleftrightarrow> (\<forall>k v. fmlookup m k = Some (Some v) \<longrightarrow> \<sigma> k = v)"

definition tellsBinding :: "StaticAddressFact facts \<Rightarrow> (string \<Rightarrow> StaticAddressFact option) \<Rightarrow> bool" where
  "tellsBinding m \<sigma> \<longleftrightarrow>
     (\<forall>k. case fmlookup m k of None \<Rightarrow> \<sigma> k = None | Some None \<Rightarrow> True | Some (Some f) \<Rightarrow> \<sigma> k = Some f)"

definition tellsObjects :: "(size_t, StaticDynamicObjectState) fmap \<Rightarrow> (size_t \<Rightarrow> StaticDynamicObjectState) \<Rightarrow> bool" where
  "tellsObjects m \<sigma> \<longleftrightarrow> (\<forall>k s. fmlookup m k = Some s \<longrightarrow> s = UnknownState \<or> \<sigma> k = s)"

definition describes :: "StaticSafetyState \<Rightarrow> Machine \<Rightarrow> bool" where
  "describes st x \<longleftrightarrow>
     tells (integerValues st) (mem_integer x) \<and> tells (unsignedIntegerValues st) (mem_unsigned x) \<and>
     tells (addressFacts st) (mem_address x) \<and> tells (cstrTerminations st) (mem_cstr x) \<and>
     tellsBinding (bindingAddressFacts st) (bound_address x) \<and>
     tellsObjects (dynamicObjectStates st) (object_state x) \<and>
     (\<forall>i \<in> allocated x. i < nextDynamicObjectId st)"

section \<open>Lookups in a join\<close>

lemma lookup_retain:
  "fmlookup (retainCommonFacts l r) k = Some v \<longleftrightarrow>
     (\<exists>a. v = Some a \<and> fmlookup l k = Some (Some a) \<and> fmlookup r k = Some (Some a))"
  by (auto simp: retainCommonFacts_def agreed_def split: option.splits)

lemma lookup_bindings:
  "fmlookup (mergeBindings l r) k =
     (if fmlookup l k = fmlookup r k then fmlookup l k else Some None)"
  by (auto simp: mergeBindings_def fmlookup_dom_iff split: option.splits)

lemma lookup_objects:
  "fmlookup (mergeObjects l r) k =
     (case (fmlookup l k, fmlookup r k) of
        (Some a, Some b) \<Rightarrow> Some (if a = b then a else UnknownState) | _ \<Rightarrow> None)"
  by (auto simp: mergeObjects_def split: option.splits)

lemmas merge_lookups = lookup_retain lookup_bindings lookup_objects

lemma retain_comm: "retainCommonFacts l r = retainCommonFacts r l"
  by (rule fmap_ext) (metis lookup_retain not_None_eq option.exhaust)

lemma retain_assoc: "retainCommonFacts (retainCommonFacts a b) c = retainCommonFacts a (retainCommonFacts b c)"
proof (rule fmap_ext)
  fix k
  have "fmlookup (retainCommonFacts (retainCommonFacts a b) c) k = Some v \<longleftrightarrow>
      fmlookup (retainCommonFacts a (retainCommonFacts b c)) k = Some v" for v
    by (auto simp: lookup_retain)
  then show "fmlookup (retainCommonFacts (retainCommonFacts a b) c) k = fmlookup (retainCommonFacts a (retainCommonFacts b c)) k"
    by (metis not_None_eq)
qed

lemma objects_comm: "mergeObjects l r = mergeObjects r l"
  by (rule fmap_ext) (auto simp: lookup_objects split: option.splits)

lemma objects_assoc: "mergeObjects (mergeObjects a b) c = mergeObjects a (mergeObjects b c)"
  by (rule fmap_ext) (auto simp: lookup_objects split: option.splits)

lemma bindings_comm: "mergeBindings l r = mergeBindings r l"
  by (rule fmap_ext) (auto simp: lookup_bindings)

lemma bindings_assoc: "mergeBindings (mergeBindings a b) c = mergeBindings a (mergeBindings b c)"
  by (rule fmap_ext) (auto simp: lookup_bindings)

text \<open>
  C17. The join of the safety analysis does not depend on the order in which paths reach it: it is
  commutative and associative on all seven components of the state.
\<close>

theorem mergedStaticSafetyStates_order:
  "mergedStaticSafetyStates a b = mergedStaticSafetyStates b a \<and>
   mergedStaticSafetyStates (mergedStaticSafetyStates a b) c = mergedStaticSafetyStates a (mergedStaticSafetyStates b c)"
proof
  show "mergedStaticSafetyStates a b = mergedStaticSafetyStates b a"
    by (simp add: mergedStaticSafetyStates_def retain_comm bindings_comm objects_comm max.commute)
  show "mergedStaticSafetyStates (mergedStaticSafetyStates a b) c = mergedStaticSafetyStates a (mergedStaticSafetyStates b c)"
    by (simp add: mergedStaticSafetyStates_def retain_assoc bindings_assoc objects_assoc max.assoc)
qed

section \<open>The interface of a join\<close>

locale flow_join =
  fixes join :: "'s \<Rightarrow> 's \<Rightarrow> 's" and says :: "'s \<Rightarrow> 'm \<Rightarrow> bool"
  assumes join_left: "says l x \<Longrightarrow> says (join l r) x"
    and join_comm: "join l r = join r l"
begin

lemma join_right: "says r x \<Longrightarrow> says (join l r) x"
  using join_left [of r x l] by (simp add: join_comm)

lemma fold_join: "says s x \<Longrightarrow> says (fold join ss s) x"
  by (induction ss arbitrary: s) (auto intro: join_right)

lemma fold_join_member: "t \<in> set ss \<Longrightarrow> says t x \<Longrightarrow> says (fold join ss s) x"
  by (induction ss arbitrary: s) (auto intro: fold_join join_left)

end

lemma tells_retain: "tells l \<sigma> \<Longrightarrow> tells (retainCommonFacts l r) \<sigma>"
  by (auto simp: tells_def lookup_retain)

lemma tells_bindings: "tellsBinding l \<sigma> \<Longrightarrow> tellsBinding (mergeBindings l r) \<sigma>"
  unfolding tellsBinding_def
proof
  fix k
  assume "\<forall>k. case fmlookup l k of None \<Rightarrow> \<sigma> k = None | Some None \<Rightarrow> True | Some (Some f) \<Rightarrow> \<sigma> k = Some f"
  then have "case fmlookup l k of None \<Rightarrow> \<sigma> k = None | Some None \<Rightarrow> True | Some (Some f) \<Rightarrow> \<sigma> k = Some f" by blast
  then show "case fmlookup (mergeBindings l r) k of None \<Rightarrow> \<sigma> k = None | Some None \<Rightarrow> True | Some (Some f) \<Rightarrow> \<sigma> k = Some f"
    by (cases "fmlookup l k = fmlookup r k") (simp_all add: lookup_bindings)
qed

lemma tells_objects: "tellsObjects l \<sigma> \<Longrightarrow> tellsObjects (mergeObjects l r) \<sigma>"
  by (force simp: tellsObjects_def lookup_objects split: option.splits if_splits)

interpretation safety_join: flow_join mergedStaticSafetyStates describes
proof (unfold_locales, goal_cases)
  case (1 l x r)
  then show ?case
    by (auto simp: describes_def mergedStaticSafetyStates_def tells_retain tells_bindings tells_objects
        less_max_iff_disj)
next
  case (2 l r)
  show ?case
    by (simp add: mergedStaticSafetyStates_def retain_comm bindings_comm objects_comm max.commute)
qed

text \<open>The facts of \<open>m\<close> are those that \<open>l\<close> and \<open>r\<close> both know and agree on.\<close>

definition agreedFacts :: "'v facts \<Rightarrow> 'v facts \<Rightarrow> 'v facts \<Rightarrow> bool" where
  "agreedFacts m l r \<longleftrightarrow>
     (\<forall>k a. fmlookup m k = Some (Some a) \<longleftrightarrow> fmlookup l k = Some (Some a) \<and> fmlookup r k = Some (Some a))"

lemma agreed_retain: "agreedFacts (retainCommonFacts l r) l r"
  by (auto simp: agreedFacts_def lookup_retain)

definition agreedObjects :: "(size_t, StaticDynamicObjectState) fmap \<Rightarrow> (size_t, StaticDynamicObjectState) fmap \<Rightarrow>
    (size_t, StaticDynamicObjectState) fmap \<Rightarrow> bool" where
  "agreedObjects m l r \<longleftrightarrow> fmdom' m = fmdom' l \<inter> fmdom' r \<and>
     (\<forall>k s t. fmlookup l k = Some s \<and> fmlookup r k = Some t \<longrightarrow> fmlookup m k = Some (if s = t then s else UnknownState))"

lemma agreed_objects: "agreedObjects (mergeObjects l r) l r"
  by (auto simp: agreedObjects_def lookup_objects fmlookup_dom'_iff split: option.splits)

text \<open>
  C16. Joins are sound and lose nothing that both paths agree on: whatever either path may have done, the joined
  state describes the machine.  In each of the four maps of facts it knows exactly the facts that both paths know and
  agree on; a binding both paths have alike is kept and any other becomes unknown; an object is tracked when both paths
  track it, with the state they agree on; and the next object id is free on both paths.
\<close>

theorem mergedStaticSafetyStates_sound:
  assumes "describes l x \<or> describes r x"
  defines "m \<equiv> mergedStaticSafetyStates l r"
  shows "describes m x \<and>
    agreedFacts (integerValues m) (integerValues l) (integerValues r) \<and>
    agreedFacts (unsignedIntegerValues m) (unsignedIntegerValues l) (unsignedIntegerValues r) \<and>
    agreedFacts (addressFacts m) (addressFacts l) (addressFacts r) \<and>
    agreedFacts (cstrTerminations m) (cstrTerminations l) (cstrTerminations r) \<and>
    (\<forall>k. fmlookup (bindingAddressFacts m) k =
      (if fmlookup (bindingAddressFacts l) k = fmlookup (bindingAddressFacts r) k
       then fmlookup (bindingAddressFacts l) k else Some None)) \<and>
    agreedObjects (dynamicObjectStates m) (dynamicObjectStates l) (dynamicObjectStates r) \<and>
    nextDynamicObjectId m = max (nextDynamicObjectId l) (nextDynamicObjectId r)"
proof -
  have "describes m x" using assms(1) safety_join.join_left safety_join.join_right unfolding m_def by blast
  moreover have "integerValues m = retainCommonFacts (integerValues l) (integerValues r)"
    "unsignedIntegerValues m = retainCommonFacts (unsignedIntegerValues l) (unsignedIntegerValues r)"
    "addressFacts m = retainCommonFacts (addressFacts l) (addressFacts r)"
    "cstrTerminations m = retainCommonFacts (cstrTerminations l) (cstrTerminations r)"
    "bindingAddressFacts m = mergeBindings (bindingAddressFacts l) (bindingAddressFacts r)"
    "dynamicObjectStates m = mergeObjects (dynamicObjectStates l) (dynamicObjectStates r)"
    "nextDynamicObjectId m = max (nextDynamicObjectId l) (nextDynamicObjectId r)"
    by (simp_all add: m_def mergedStaticSafetyStates_def)
  ultimately show ?thesis by (simp add: agreed_retain agreed_objects lookup_bindings)
qed

definition machineZero :: Machine where
  "machineZero = \<lparr>mem_integer = (\<lambda>_. 0), mem_unsigned = (\<lambda>_. 0),
     mem_address = (\<lambda>_. \<lparr>fact_origin = NullAddress, fact_dynamicObjectId = 0, fact_isBaseAddress = False, fact_range = None\<rparr>),
     mem_cstr = (\<lambda>_. False), bound_address = (\<lambda>_. None), object_state = (\<lambda>_. Live), allocated = {}\<rparr>"

definition knowsZero :: StaticSafetyState where
  "knowsZero = emptySafetyState\<lparr>integerValues := fmupd ''x'' (Some 0) fmempty\<rparr>"

theorem mergedStaticSafetyStates_sound_witness:
  "describes knowsZero machineZero \<and>
   describes (mergedStaticSafetyStates knowsZero (emptySafetyState\<lparr>bindingAddressFacts := fmupd ''x'' None fmempty\<rparr>)) machineZero"
proof -
  have "describes knowsZero machineZero"
    by (simp add: describes_def knowsZero_def emptySafetyState_def machineZero_def tells_def tellsBinding_def tellsObjects_def)
  then show ?thesis using mergedStaticSafetyStates_sound [of knowsZero machineZero] by blast
qed

section \<open>How often an entry state changes\<close>

definition objectWeight :: "(size_t, StaticDynamicObjectState) fmap \<Rightarrow> nat" where
  "objectWeight m = (\<Sum>k \<in> fmdom' m. if fmlookup m k = Some UnknownState then 1 else 2)"

definition openBindings :: "string set \<Rightarrow> StaticAddressFact facts \<Rightarrow> nat" where
  "openBindings U m = card {k \<in> U. fmlookup m k \<noteq> Some None}"

definition knownFacts :: "string set \<Rightarrow> StaticSafetyState \<Rightarrow> nat" where
  "knownFacts U st =
     card (fmdom' (integerValues st)) + card (fmdom' (unsignedIntegerValues st)) + card (fmdom' (addressFacts st)) +
     card (fmdom' (cstrTerminations st)) + openBindings U (bindingAddressFacts st) + objectWeight (dynamicObjectStates st)"

lemma retain_shrinks:
  "retainCommonFacts l r = l \<or> card (fmdom' (retainCommonFacts l r)) < card (fmdom' l)"
proof (cases "\<forall>k. fmlookup l k \<noteq> None \<longrightarrow> agreed l r k")
  case True
  then have "fmlookup (retainCommonFacts l r) k = fmlookup l k" for k
    by (simp add: retainCommonFacts_def)
  then show ?thesis by (blast intro: fmap_ext)
next
  case False
  then obtain k where "k \<in> fmdom' l" "\<not> agreed l r k" by (auto simp: fmlookup_dom'_iff)
  then have "fmdom' (retainCommonFacts l r) \<subset> fmdom' l"
    by (auto simp: retainCommonFacts_def fmlookup_dom'_iff split: if_splits)
  then show ?thesis by (simp add: psubset_card_mono)
qed

lemma bindings_shrink:
  assumes "finite U" and "fmdom' l \<subseteq> U" and "fmdom' r \<subseteq> U"
  shows "mergeBindings l r = l \<or> openBindings U (mergeBindings l r) < openBindings U l"
proof (cases "mergeBindings l r = l")
  case False
  then obtain k where k: "fmlookup (mergeBindings l r) k \<noteq> fmlookup l k" by (meson fmap_ext)
  then have "fmlookup l k \<noteq> Some None" "fmlookup (mergeBindings l r) k = Some None"
    by (auto simp: lookup_bindings split: if_splits)
  moreover have "k \<in> U"
    using k assms(2,3) by (auto simp: lookup_bindings fmlookup_dom'_iff split: if_splits) (metis not_None_eq subsetD fmlookup_dom'_iff)
  ultimately have "{k \<in> U. fmlookup (mergeBindings l r) k \<noteq> Some None} \<subset> {k \<in> U. fmlookup l k \<noteq> Some None}"
    by (auto simp: lookup_bindings split: if_splits)
  then show ?thesis using assms(1) by (simp add: openBindings_def psubset_card_mono)
qed simp

lemma objects_shrink: "mergeObjects l r = l \<or> objectWeight (mergeObjects l r) < objectWeight l"
proof (cases "mergeObjects l r = l")
  case False
  let ?m = "mergeObjects l r" and ?w = "\<lambda>m k. if fmlookup m k = Some UnknownState then 1 else 2 :: nat"
  let ?e = "\<lambda>m k. if fmlookup m k = None then 0 else ?w m k"
  have dom: "fmdom' ?m \<subseteq> fmdom' l"
    by (auto simp: lookup_objects fmlookup_dom'_iff split: option.splits)
  have total: "objectWeight m = (\<Sum>k \<in> fmdom' l. ?e m k)" if "fmdom' m \<subseteq> fmdom' l" for m
    unfolding objectWeight_def using that
    by (intro sum.mono_neutral_cong_left) (auto simp: fmlookup_dom'_iff)
  obtain k where k: "fmlookup ?m k \<noteq> fmlookup l k" using False by (meson fmap_ext)
  have "(\<Sum>k \<in> fmdom' l. ?e ?m k) < (\<Sum>k \<in> fmdom' l. ?e l k)"
  proof (rule sum_strict_mono_ex1)
    show "\<forall>k \<in> fmdom' l. ?e ?m k \<le> ?e l k"
      by (auto simp: lookup_objects split: option.splits)
    show "\<exists>k \<in> fmdom' l. ?e ?m k < ?e l k"
      using k by (intro bexI [of _ k]) (auto simp: lookup_objects fmlookup_dom'_iff split: option.splits if_splits)
  qed simp
  then show ?thesis using total [OF dom] total [of l] by simp
qed simp

definition withinNames :: "string set \<Rightarrow> StaticSafetyState \<Rightarrow> bool" where
  "withinNames U st \<longleftrightarrow> finite U \<and> fmdom' (bindingAddressFacts st) \<subseteq> U"

lemma joinEntry_progress:
  assumes "withinNames U e" and "withinNames U i" and "nextDynamicObjectId i \<le> nextDynamicObjectId e"
    and "joinEntry (Some e) i = Some e'"
  shows "knownFacts U e' < knownFacts U e \<and> withinNames U e' \<and> nextDynamicObjectId e' = nextDynamicObjectId e"
proof -
  have e': "e' = mergedStaticSafetyStates e i" and ne: "e' \<noteq> e"
    using assms(4) by (auto simp: joinEntry_def Let_def split: if_splits)
  let ?i = "retainCommonFacts (integerValues e) (integerValues i)"
    and ?u = "retainCommonFacts (unsignedIntegerValues e) (unsignedIntegerValues i)"
    and ?a = "retainCommonFacts (addressFacts e) (addressFacts i)"
    and ?c = "retainCommonFacts (cstrTerminations e) (cstrTerminations i)"
    and ?b = "mergeBindings (bindingAddressFacts e) (bindingAddressFacts i)"
    and ?o = "mergeObjects (dynamicObjectStates e) (dynamicObjectStates i)"
  have n: "max (nextDynamicObjectId e) (nextDynamicObjectId i) = nextDynamicObjectId e"
    using assms(3) by (simp add: max_def)
  have "\<not> (?i = integerValues e \<and> ?u = unsignedIntegerValues e \<and> ?a = addressFacts e \<and> ?c = cstrTerminations e \<and>
      ?b = bindingAddressFacts e \<and> ?o = dynamicObjectStates e)"
    using ne n by (auto simp: e' mergedStaticSafetyStates_def)
  moreover have si: "?i = integerValues e \<or> card (fmdom' ?i) < card (fmdom' (integerValues e))"
    and su: "?u = unsignedIntegerValues e \<or> card (fmdom' ?u) < card (fmdom' (unsignedIntegerValues e))"
    and sa: "?a = addressFacts e \<or> card (fmdom' ?a) < card (fmdom' (addressFacts e))"
    and sc: "?c = cstrTerminations e \<or> card (fmdom' ?c) < card (fmdom' (cstrTerminations e))"
    and sb: "?b = bindingAddressFacts e \<or> openBindings U ?b < openBindings U (bindingAddressFacts e)"
    and so: "?o = dynamicObjectStates e \<or> objectWeight ?o < objectWeight (dynamicObjectStates e)"
    using assms(1,2) by (auto simp: withinNames_def retain_shrinks objects_shrink bindings_shrink)
  moreover have "card (fmdom' ?i) \<le> card (fmdom' (integerValues e))"
    "card (fmdom' ?u) \<le> card (fmdom' (unsignedIntegerValues e))"
    "card (fmdom' ?a) \<le> card (fmdom' (addressFacts e))" "card (fmdom' ?c) \<le> card (fmdom' (cstrTerminations e))"
    "openBindings U ?b \<le> openBindings U (bindingAddressFacts e)"
    "objectWeight ?o \<le> objectWeight (dynamicObjectStates e)"
    using si su sa sc sb so by (metis order.refl less_imp_le)+
  ultimately have "card (fmdom' ?i) + card (fmdom' ?u) + card (fmdom' ?a) + card (fmdom' ?c) + openBindings U ?b + objectWeight ?o <
      card (fmdom' (integerValues e)) + card (fmdom' (unsignedIntegerValues e)) + card (fmdom' (addressFacts e)) +
      card (fmdom' (cstrTerminations e)) + openBindings U (bindingAddressFacts e) + objectWeight (dynamicObjectStates e)"
    by linarith
  then have "knownFacts U e' < knownFacts U e"
    by (simp add: knownFacts_def e' mergedStaticSafetyStates_def)
  moreover have "withinNames U e'"
    using assms(1,2) by (force simp: withinNames_def e' mergedStaticSafetyStates_def lookup_bindings fmlookup_dom'_iff
        split: if_splits)
  ultimately show ?thesis using n by (simp add: e' mergedStaticSafetyStates_def)
qed

end
