(* ===== verification/Safety_Facts.thy ===== *)
theory Safety_Facts
  imports Safety_State HIR_Tree Literal
begin

text \<open>
  What the static safety analysis reads off expressions (\<open>src/safety/StaticSafetyFacts.cpp\<close>): constant and
  tracked integer values, the address an expression denotes, the range of bytes a View shows, and the
  diagnostics and state changes that follow from them.  Signed 64-bit integers are words read with \<open>sint\<close>.
  The code dereferences the operand of an \<open>UnsignedExpr\<close>, which the verifier has checked to be present before
  the analysis runs; the model answers unknown where there is none.
\<close>

section \<open>Arithmetic\<close>

definition minInt64 :: "64 word" where
  "minInt64 = 0x8000000000000000"

definition maxInt64 :: "64 word" where
  "maxInt64 = 0x7FFFFFFFFFFFFFFF"

definition addSignedIntegers :: "64 word \<Rightarrow> 64 word \<Rightarrow> 64 word option" where
  "addSignedIntegers left right =
     (if (0 < sint right \<and> sint (maxInt64 - right) < sint left) \<or> (sint right < 0 \<and> sint left < sint (minInt64 - right))
      then None else Some (left + right))"

definition multiplyUnsignedIntegers :: "uint64 \<Rightarrow> uint64 \<Rightarrow> uint64 option" where
  "multiplyUnsignedIntegers left right =
     (if left \<noteq> 0 \<and> (- 1) div left < right then None else Some (left * right))"

definition signedMinimumForByteLength :: "size_t \<Rightarrow> 64 word option" where
  "signedMinimumForByteLength byteLength =
     (if byteLength = 8 then Some minInt64
      else if byteLength \<noteq> 1 \<and> byteLength \<noteq> 2 \<and> byteLength \<noteq> 4 then None
      else Some (- (2 ^ (unat byteLength * 8 - 1))))"

definition lowBytes :: "size_t \<Rightarrow> uint64 \<Rightarrow> uint64" where
  "lowBytes byteLength v = and v (2 ^ (unat byteLength * 8) - 1)"

text \<open>The two integer casts, on a value of at most eight bytes.\<close>

definition signedCast :: "size_t \<Rightarrow> bool \<Rightarrow> 64 word \<Rightarrow> 64 word option" where
  "signedCast byteLength isSigned v =
     (if byteLength = 0 \<or> 8 < byteLength then None
      else if byteLength = 8 then (if isSigned \<or> 0 \<le> sint v then Some v else None)
      else let truncated = lowBytes byteLength v; signBit = 2 ^ (unat byteLength * 8 - 1) in
        Some (if isSigned then xor truncated signBit - signBit else truncated))"

definition unsignedCast :: "size_t \<Rightarrow> uint64 \<Rightarrow> uint64" where
  "unsignedCast byteLength v = (if byteLength = 8 then v else lowBytes byteLength v)"

section \<open>Constants\<close>

definition literalValue :: "Expr \<Rightarrow> uint64 option" where
  "literalValue e = (case exprNode e of IntegerLiteral v l \<Rightarrow> parseUnsignedIntegerLiteral v | _ \<Rightarrow> None)"

definition staticLengthCall :: "Expr list \<Rightarrow> CallData \<Rightarrow> size_t option" where
  "staticLengthCall es d =
     (if call_builtin d = BLength \<and> length es = 1 \<and> lengthKind (exprResult (hd es)) = Static
      then Some (staticByteLength (exprResult (hd es))) else None)"

definition asSigned :: "uint64 \<Rightarrow> 64 word option" where
  "asSigned v = (if v \<le> maxInt64 then Some v else None)"

definition negate :: "64 word \<Rightarrow> 64 word option" where
  "negate v = (if v = minInt64 then None else Some (- v))"

function constantSignedInteger :: "Expr \<Rightarrow> 64 word option" where
  "constantSignedInteger (Expr b n) =
     (case n of
        CallExpr es d \<Rightarrow> Option.bind (staticLengthCall es d) asSigned
      | IntegerLiteral v l \<Rightarrow> Option.bind (parseUnsignedIntegerLiteral v) asSigned
      | UnaryExpr op e l \<Rightarrow>
          if op = ''-'' \<and> literalValue e = Some (maxInt64 + 1) then Some minInt64
          else (case constantSignedInteger e of
              None \<Rightarrow> None
            | Some v \<Rightarrow> if op = ''-'' then negate v else if op = ''+'' then Some v else None)
      | IntegerCastExpr e l s \<Rightarrow> Option.bind (constantSignedInteger e) (signedCast l s)
      | TemplateViewExpr e l t a \<Rightarrow> constantSignedInteger e
      | _ \<Rightarrow> None)"
  by pat_completeness auto
termination by (relation "measure size") auto

function constantUnsignedInteger :: "Expr \<Rightarrow> uint64 option" where
  "constantUnsignedInteger (Expr b n) =
     (case n of
        CallExpr es d \<Rightarrow> staticLengthCall es d
      | IntegerLiteral v l \<Rightarrow> parseUnsignedIntegerLiteral v
      | UnaryExpr op e l \<Rightarrow> if op = ''+'' then constantUnsignedInteger e else None
      | UnsignedExpr eo l \<Rightarrow> (case eo of None \<Rightarrow> None | Some e \<Rightarrow> constantUnsignedInteger e)
      | IntegerCastExpr e l s \<Rightarrow>
          if l = 0 \<or> 8 < l then None
          else map_option (unsignedCast l)
            (case constantUnsignedInteger e of Some v \<Rightarrow> Some v | None \<Rightarrow> constantSignedInteger e)
      | TemplateViewExpr e l t a \<Rightarrow> constantUnsignedInteger e
      | _ \<Rightarrow> None)"
  by pat_completeness auto
termination by (relation "measure size") auto

section \<open>Facts about bindings\<close>

definition factAt :: "'v facts \<Rightarrow> string \<Rightarrow> 'v option" where
  "factAt m k = (case fmlookup m k of None \<Rightarrow> None | Some known \<Rightarrow> known)"

definition shiftRange :: "64 word \<Rightarrow> StaticAddressFact \<Rightarrow> StaticAddressFact" where
  "shiftRange offset f = f\<lparr>fact_range :=
     (case fact_range f of
        None \<Rightarrow> None
      | Some r \<Rightarrow> map_option (\<lambda>adjusted. r\<lparr>rng_offset := adjusted\<rparr>) (addSignedIntegers (rng_offset r) offset))\<rparr>"

definition staticBindingAddressFact ::
  "StaticSafetyAnalyzer \<Rightarrow> string \<Rightarrow> size_t \<Rightarrow> size_t \<Rightarrow> StaticAddressFact option" where
  "staticBindingAddressFact an bindingName offset byteLength =
     (case fmlookup (bindingAddressFacts (current an)) bindingName of
        None \<Rightarrow> Some \<lparr>fact_origin = NonDynamicObject, fact_dynamicObjectId = 0, fact_isBaseAddress = (offset = 0),
                       fact_range = Some \<lparr>rng_bindingName = bindingName, rng_lowerBound = offset, rng_offset = offset,
                                         rng_upperBound = offset + byteLength\<rparr>\<rparr>
      | Some None \<Rightarrow> None
      | Some (Some f) \<Rightarrow>
          if offset = 0 then Some f
          else if fact_origin f = NullAddress then None
          else Some (shiftRange offset (f\<lparr>fact_isBaseAddress := False\<rparr>)))"

definition staticContentKey :: "StaticSafetyAnalyzer \<Rightarrow> StaticAddressRange option \<Rightarrow> size_t \<Rightarrow> string option" where
  "staticContentKey an rng byteLength =
     (case rng of
        None \<Rightarrow> None
      | Some r \<Rightarrow>
          if rng_offset r \<noteq> 0 then None
          else if fmlookup (staticDefinitionByteLengths an) (rng_bindingName r) = Some byteLength \<and>
                  byteLength \<le> rng_upperBound r
          then Some (rng_bindingName r) else None)"

definition factRange :: "StaticAddressFact option \<Rightarrow> StaticAddressRange option" where
  "factRange f = Option.bind f fact_range"

definition bindingContentKey :: "StaticSafetyAnalyzer \<Rightarrow> string \<Rightarrow> size_t \<Rightarrow> size_t \<Rightarrow> string option" where
  "bindingContentKey an bindingName offset byteLength =
     staticContentKey an (factRange (staticBindingAddressFact an bindingName offset byteLength)) byteLength"

definition capturedFact :: "StaticSafetyAnalyzer \<Rightarrow> 'v facts \<Rightarrow> string \<Rightarrow> 'v option" where
  "capturedFact an m capture =
     (case factAt (capturedAliases an) capture of Some alias \<Rightarrow> factAt m alias | None \<Rightarrow> factAt m capture)"

definition contentFact :: "'v facts \<Rightarrow> string option \<Rightarrow> 'v option" where
  "contentFact m key = (case key of None \<Rightarrow> None | Some k \<Rightarrow> factAt m k)"

text \<open>The visible extent of a View bounds the range it shows.\<close>

definition smax :: "64 word \<Rightarrow> 64 word \<Rightarrow> 64 word" where
  "smax a b = (if sint a < sint b then b else a)"

definition narrowRange :: "size_t \<Rightarrow> StaticAddressRange \<Rightarrow> StaticAddressRange" where
  "narrowRange len r =
     (if sint (rng_offset r) < 0 then r
      else r\<lparr>rng_lowerBound := smax (rng_lowerBound r) (rng_offset r),
             rng_upperBound := (if len \<le> - 1 - rng_offset r then min (rng_upperBound r) (rng_offset r + len)
                                else rng_upperBound r)\<rparr>)"

section \<open>Facts about expressions\<close>

definition indexOffset :: "ViewSemantics \<Rightarrow> uint64 option \<Rightarrow> 64 word option \<Rightarrow> 64 word option" where
  "indexOffset s unsignedValue signedValue =
     (let len = staticByteLength s;
          fromBits = (\<lambda>bits.
            if 8 < len then asSigned bits
            else if len = 8 then Some (if bits < minInt64 then bits else minInt64 + (bits - minInt64))
            else let v = lowBytes len bits; sign = 2 ^ (unat len * 8 - 1) in
              Some (if v < sign then v else - (2 ^ (unat len * 8) - 1 - v + 1))) in
      if lengthKind s \<noteq> Static \<or> len = 0 then None
      else (case unsignedValue of
          Some bits \<Rightarrow> fromBits bits
        | None \<Rightarrow> (case signedValue of None \<Rightarrow> None | Some v \<Rightarrow> if 8 \<le> len then Some v else fromBits v)))"

definition nullFact :: StaticAddressFact where
  "nullFact = \<lparr>fact_origin = NullAddress, fact_dynamicObjectId = 0, fact_isBaseAddress = False, fact_range = None\<rparr>"

definition offsetFact :: "bool \<Rightarrow> BinaryOperator \<Rightarrow> 64 word option \<Rightarrow> StaticAddressFact \<Rightarrow> StaticAddressFact" where
  "offsetFact addressOffset op offset base =
     (case offset of
        None \<Rightarrow> base\<lparr>fact_range := None\<rparr>
      | Some off \<Rightarrow>
          if \<not> addressOffset \<and> op = Subtract then
            (if off = minInt64 then base\<lparr>fact_range := None\<rparr>
             else shiftRange (- off) (base\<lparr>fact_isBaseAddress := False\<rparr>))
          else shiftRange off (base\<lparr>fact_isBaseAddress := False\<rparr>))"

function staticSignedInteger :: "StaticSafetyAnalyzer \<Rightarrow> Expr \<Rightarrow> 64 word option"
  and staticUnsignedInteger :: "StaticSafetyAnalyzer \<Rightarrow> Expr \<Rightarrow> uint64 option"
  and staticAddressFact :: "StaticSafetyAnalyzer \<Rightarrow> Expr \<Rightarrow> StaticAddressFact option"
where
  "staticSignedInteger an (Expr b n) =
     (let known = integerValues (current an) in
      case (constantSignedInteger (Expr b n), n) of
        (_, CapturedViewRef c) \<Rightarrow> capturedFact an known c
      | (Some v, _) \<Rightarrow> Some v
      | (None, VariableRef d) \<Rightarrow> contentFact known (bindingContentKey an (var_bindingName d) (var_offset d) (var_byteLength d))
      | (None, DerefExpr e l) \<Rightarrow> contentFact known (staticContentKey an (factRange (staticAddressFact an e)) l)
      | (None, UnaryExpr op e l) \<Rightarrow>
          (case staticSignedInteger an e of
             None \<Rightarrow> None
           | Some v \<Rightarrow> if op = ''+'' then Some v else if op = ''-'' then negate v else None)
      | (None, IntegerCastExpr e l s) \<Rightarrow> Option.bind (staticSignedInteger an e) (signedCast l s)
      | (None, TemplateViewExpr e l t a) \<Rightarrow> staticSignedInteger an e
      | _ \<Rightarrow> None)"
| "staticUnsignedInteger an (Expr b n) =
     (let known = unsignedIntegerValues (current an) in
      case (constantUnsignedInteger (Expr b n), n) of
        (_, CapturedViewRef c) \<Rightarrow> capturedFact an known c
      | (Some v, _) \<Rightarrow> Some v
      | (None, VariableRef d) \<Rightarrow> contentFact known (bindingContentKey an (var_bindingName d) (var_offset d) (var_byteLength d))
      | (None, DerefExpr e l) \<Rightarrow> contentFact known (staticContentKey an (factRange (staticAddressFact an e)) l)
      | (None, UnsignedExpr (Some e) l) \<Rightarrow> staticUnsignedInteger an e
      | (None, IntegerCastExpr e l s) \<Rightarrow>
          if l = 0 \<or> 8 < l then None
          else map_option (unsignedCast l)
            (case staticUnsignedInteger an e of Some v \<Rightarrow> Some v | None \<Rightarrow> staticSignedInteger an e)
      | (None, TemplateViewExpr e l t a) \<Rightarrow> staticUnsignedInteger an e
      | _ \<Rightarrow> None)"
| "staticAddressFact an (Expr b n) =
     (let known = addressFacts (current an) in
      case n of
        CapturedViewRef c \<Rightarrow> capturedFact an known c
      | UnsignedExpr eo l \<Rightarrow> (case eo of None \<Rightarrow> None | Some e \<Rightarrow> staticAddressFact an e)
      | IntegerCastExpr e l s \<Rightarrow>
          if l \<noteq> 8 \<or> lengthKind (exprResult e) \<noteq> Static \<or> staticByteLength (exprResult e) \<noteq> 8
          then (if staticUnsignedInteger an (Expr b (IntegerCastExpr e l s)) = Some 0 then Some nullFact else None)
          else staticAddressFact an e
      | TemplateViewExpr e l t a \<Rightarrow> staticAddressFact an e
      | AddressOfExpr d \<Rightarrow>
          map_option (\<lambda>f. f\<lparr>fact_range := map_option (narrowRange (addr_targetByteLength d)) (fact_range f)\<rparr>)
            (staticBindingAddressFact an (addr_bindingName d) (addr_offset d) (addr_targetByteLength d))
      | VariableRef d \<Rightarrow> contentFact known (bindingContentKey an (var_bindingName d) (var_offset d) (var_byteLength d))
      | DerefExpr e l \<Rightarrow> contentFact known (staticContentKey an (factRange (staticAddressFact an e)) l)
      | BinaryExpr x y d \<Rightarrow>
          (let addressOffset = (bin_operationKind d = AddressOffset) in
           if \<not> addressOffset \<and> bin_operation d \<noteq> Add \<and> bin_operation d \<noteq> Subtract then None
           else map_option (offsetFact addressOffset (bin_operation d)
                  (if bin_viewOffsetBounds d \<noteq> None
                   then indexOffset (exprResult y) (staticUnsignedInteger an y) (staticSignedInteger an y)
                   else staticSignedInteger an y)) (staticAddressFact an x))
      | _ \<Rightarrow> (if staticSignedInteger an (Expr b n) = Some 0 then Some nullFact else None))"
  by pat_completeness auto
termination
  by (relation "measure (\<lambda>x. case x of
        Inl (an, e) \<Rightarrow> 2 * size e | Inr (Inl (an, e)) \<Rightarrow> 2 * size e | Inr (Inr (an, e)) \<Rightarrow> 2 * size e + 1)") auto

definition staticAddressRange :: "StaticSafetyAnalyzer \<Rightarrow> Expr \<Rightarrow> StaticAddressRange option" where
  "staticAddressRange an e = factRange (staticAddressFact an e)"

definition staticIndexOffset :: "StaticSafetyAnalyzer \<Rightarrow> Expr \<Rightarrow> 64 word option" where
  "staticIndexOffset an e = indexOffset (exprResult e) (staticUnsignedInteger an e) (staticSignedInteger an e)"

function staticViewAddressFact :: "StaticSafetyAnalyzer \<Rightarrow> Expr \<Rightarrow> StaticAddressFact option" where
  "staticViewAddressFact an (Expr b n) =
     (case n of
        VariableRef d \<Rightarrow> staticBindingAddressFact an (var_bindingName d) (var_offset d) (var_byteLength d)
      | DerefExpr e l \<Rightarrow> staticAddressFact an e
      | TemplateViewExpr e l t a \<Rightarrow> staticViewAddressFact an e
      | CapturedViewRef c \<Rightarrow> factAt (addressFacts (current an)) (c @ ''.location'')
      | _ \<Rightarrow> None)"
  by pat_completeness auto
termination by (relation "measure (\<lambda>(an, e). size e)") auto

definition visibleRange :: "ViewSemantics \<Rightarrow> StaticAddressRange option \<Rightarrow> StaticAddressRange option" where
  "visibleRange s rng =
     (if lengthKind s = Static then map_option (narrowRange (staticByteLength s)) rng else rng)"

function staticViewRange :: "StaticSafetyAnalyzer \<Rightarrow> Expr \<Rightarrow> StaticAddressRange option" where
  "staticViewRange an (Expr b n) =
     (case n of
        CapturedViewRef c \<Rightarrow> visibleRange (expr_result b) (factAt (capturedRanges an) c)
      | VariableRef d \<Rightarrow> visibleRange (expr_result b)
          (factRange (staticBindingAddressFact an (var_bindingName d) (var_offset d) (var_byteLength d)))
      | TemplateViewExpr e l t a \<Rightarrow> visibleRange (expr_result b) (staticViewRange an e)
      | DerefExpr e l \<Rightarrow> visibleRange (expr_result b) (staticAddressRange an e)
      | UnsignedExpr eo l \<Rightarrow> None
      | _ \<Rightarrow> staticAddressRange an (Expr b n))"
  by pat_completeness auto
termination by (relation "measure (\<lambda>(an, e). size e)") auto

function isRawMemoryAddress :: "Expr \<Rightarrow> bool" where
  "isRawMemoryAddress (Expr b n) \<longleftrightarrow>
     isAddressValue (expr_result b) \<or>
     (case n of
        TemplateViewExpr e l t a \<Rightarrow> t = ''addr''
      | CallExpr es d \<Rightarrow> call_templateName d = ''addr''
      | AddressOfExpr d \<Rightarrow> True
      | BinaryExpr x y d \<Rightarrow>
          bin_operationKind d = AddressOffset \<or>
          (bin_operation d = Add \<or> bin_operation d = Subtract) \<and> isRawMemoryAddress x
      | _ \<Rightarrow> False)"
  by pat_completeness auto
termination by (relation "measure size") auto

definition staticMemoryOperandRange :: "StaticSafetyAnalyzer \<Rightarrow> Expr \<Rightarrow> StaticAddressRange option" where
  "staticMemoryOperandRange an e = (if isRawMemoryAddress e then staticAddressRange an e else staticViewRange an e)"

function staticBooleanValue :: "StaticSafetyAnalyzer \<Rightarrow> Expr \<Rightarrow> bool option" where
  "staticBooleanValue an (Expr b n) =
     (let numeric = (case staticSignedInteger an (Expr b n) of
            Some v \<Rightarrow> Some (v \<noteq> 0)
          | None \<Rightarrow> map_option (\<lambda>v. v \<noteq> 0) (staticUnsignedInteger an (Expr b n))) in
      case n of
        BooleanTestExpr e \<Rightarrow> staticBooleanValue an e
      | UnaryExpr op e l \<Rightarrow> if op = ''!'' then map_option Not (staticBooleanValue an e) else numeric
      | _ \<Rightarrow> numeric)"
  by pat_completeness auto
termination by (relation "measure (\<lambda>(an, e). size e)") auto

function staticCStringTerminated :: "StaticSafetyAnalyzer \<Rightarrow> Expr \<Rightarrow> bool option" where
  "staticCStringTerminated an (Expr b n) =
     (let known = cstrTerminations (current an) in
      case n of
        AssignmentExpr ss (Some r) l \<Rightarrow>
          if templateName (exprResult r) = ''cstr'' \<and>
             staticByteLength (exprResult r) = staticByteLength (expr_result b)
          then staticCStringTerminated an r else None
      | CapturedViewRef c \<Rightarrow> capturedFact an known c
      | StringLiteral v l \<Rightarrow> Some True
      | TemplateViewExpr e l t a \<Rightarrow> staticCStringTerminated an e
      | VariableRef d \<Rightarrow>
          if var_templateName d \<noteq> ''cstr'' then None
          else contentFact known (bindingContentKey an (var_bindingName d) (var_offset d) (var_byteLength d))
      | DerefExpr e l \<Rightarrow> contentFact known (staticContentKey an (staticAddressRange an e) l)
      | _ \<Rightarrow> None)"
  by pat_completeness auto
termination by (relation "measure (\<lambda>(an, e). size e)") auto

declare constantSignedInteger.simps [simp del] constantUnsignedInteger.simps [simp del]
  staticSignedInteger.simps [simp del] staticUnsignedInteger.simps [simp del] staticAddressFact.simps [simp del]
  staticViewAddressFact.simps [simp del] staticViewRange.simps [simp del] isRawMemoryAddress.simps [simp del]
  staticBooleanValue.simps [simp del] staticCStringTerminated.simps [simp del]

section \<open>Diagnostics and state changes\<close>

definition addDiagnostic :: "string \<Rightarrow> StaticSafetyAnalyzer \<Rightarrow> StaticSafetyAnalyzer" where
  "addDiagnostic msg an = an\<lparr>safetyDiagnostics := safetyDiagnostics an @
     [(diagnostic_error Codegen msg)\<lparr>diag_range := currentDiagnosticRange an\<rparr>]\<rparr>"

definition addSafetyDiagnostic :: "string \<Rightarrow> StaticSafetyAnalyzer \<Rightarrow> StaticSafetyAnalyzer" where
  "addSafetyDiagnostic msg = addDiagnostic (''static safety check failed: '' @ msg)"

definition validateStaticAddressAccess ::
  "StaticAddressFact option \<Rightarrow> string \<Rightarrow> StaticSafetyAnalyzer \<Rightarrow> StaticSafetyAnalyzer" where
  "validateStaticAddressAccess known operation an =
     (case known of
        None \<Rightarrow> an
      | Some f \<Rightarrow>
          if fact_origin f = ExpiredLocalObject then addSafetyDiagnostic (''use after scope exit '' @ operation) an
          else if fact_origin f \<noteq> DynamicObject then an
          else if fmlookup (dynamicObjectStates (current an)) (fact_dynamicObjectId f) = Some Freed
          then addSafetyDiagnostic (''use after free '' @ operation) an
          else an)"

definition outOfRange :: "uint64 \<Rightarrow> StaticAddressRange \<Rightarrow> bool" where
  "outOfRange byteLength r \<longleftrightarrow>
     sint (rng_offset r) < sint (rng_lowerBound r) \<or> rng_upperBound r < rng_offset r \<or>
     rng_upperBound r - rng_offset r < byteLength"

definition validateStaticMemoryAccess ::
  "StaticAddressFact option \<Rightarrow> uint64 \<Rightarrow> string \<Rightarrow> StaticSafetyAnalyzer \<Rightarrow> StaticSafetyAnalyzer" where
  "validateStaticMemoryAccess known byteLength operation an =
     (case known of
        None \<Rightarrow> an
      | Some f \<Rightarrow>
          if byteLength = 0 then an
          else if fact_origin f = NullAddress then addSafetyDiagnostic (''null address '' @ operation) an
          else let an = validateStaticAddressAccess (Some f) operation an in
            (case fact_range f of
               None \<Rightarrow> an
             | Some r \<Rightarrow>
                 if sint (rng_offset r) < 0 \<or> outOfRange byteLength r
                 then addSafetyDiagnostic (''memory '' @ operation @ '' out of bounds'') an else an))"

definition prepareStaticNamedStore ::
  "string \<Rightarrow> size_t \<Rightarrow> size_t \<Rightarrow> StaticSafetyAnalyzer \<Rightarrow> StaticSafetyAnalyzer \<times> string option" where
  "prepareStaticNamedStore bindingName offset byteLength an =
     (let known = staticBindingAddressFact an bindingName offset byteLength;
          an = validateStaticMemoryAccess known byteLength ''store'' an;
          rng = factRange known;
          key = staticContentKey an rng byteLength in
      (invalidateStaticFactsOverlapping rng (Some byteLength) an, key))"

definition validateStaticDynamicBase :: "Expr \<Rightarrow> string \<Rightarrow> StaticSafetyAnalyzer \<Rightarrow> StaticSafetyAnalyzer" where
  "validateStaticDynamicBase e operation an =
     (case staticAddressFact an e of
        None \<Rightarrow> an
      | Some f \<Rightarrow>
          if fact_origin f = NullAddress then an
          else if fact_origin f \<noteq> DynamicObject \<or> \<not> fact_isBaseAddress f
          then addSafetyDiagnostic (operation @ '' requires a dynamic-object base address'') an
          else (case fmlookup (dynamicObjectStates (current an)) (fact_dynamicObjectId f) of
              Some Live \<Rightarrow> an
            | Some UnknownState \<Rightarrow> an
            | _ \<Rightarrow> addSafetyDiagnostic
                (if operation = ''free'' then ''double free'' else ''invalid reallocation of released dynamic object'') an))"

definition setObjectState :: "size_t \<Rightarrow> StaticDynamicObjectState \<Rightarrow> StaticSafetyAnalyzer \<Rightarrow> StaticSafetyAnalyzer" where
  "setObjectState i s = onState (\<lambda>st. st\<lparr>dynamicObjectStates := fmupd i s (dynamicObjectStates st)\<rparr>)"

definition releaseStaticDynamicObject :: "Expr \<Rightarrow> StaticSafetyAnalyzer \<Rightarrow> StaticSafetyAnalyzer \<times> bool" where
  "releaseStaticDynamicObject e an =
     (case staticAddressFact an e of
        None \<Rightarrow> (an, False)
      | Some f \<Rightarrow>
          if fact_origin f \<noteq> DynamicObject \<or> \<not> fact_isBaseAddress f then (an, False)
          else if fmlookup (dynamicObjectStates (current an)) (fact_dynamicObjectId f) = Some Live
          then (setObjectState (fact_dynamicObjectId f) Freed an, True)
          else (an, False))"

definition setAddressFact :: "string \<Rightarrow> StaticAddressFact option \<Rightarrow> StaticSafetyAnalyzer \<Rightarrow> StaticSafetyAnalyzer" where
  "setAddressFact name known = onState (\<lambda>st. st\<lparr>addressFacts := fmupd name known (addressFacts st)\<rparr>)"

definition recordDynamicObject :: "string \<Rightarrow> uint64 option \<Rightarrow> StaticSafetyAnalyzer \<Rightarrow> StaticSafetyAnalyzer" where
  "recordDynamicObject bindingName extent an =
     (let i = nextDynamicObjectId (current an) in
      setAddressFact bindingName
        (Some \<lparr>fact_origin = DynamicObject, fact_dynamicObjectId = i, fact_isBaseAddress = True,
               fact_range = map_option (\<lambda>n. \<lparr>rng_bindingName = ''dynamic:'' @ show_nat (unat i), rng_lowerBound = 0,
                                             rng_offset = 0, rng_upperBound = n\<rparr>) extent\<rparr>)
        (setObjectState i Live (onState (\<lambda>st. st\<lparr>nextDynamicObjectId := i + 1\<rparr>) an)))"

definition knownExtentOf :: "CallData \<Rightarrow> uint64 option" where
  "knownExtentOf d = Option.bind (call_addressFacts d) knownExtent"

definition allocatedExtent :: "StaticSafetyAnalyzer \<Rightarrow> Expr list \<Rightarrow> CallData \<Rightarrow> uint64 option" where
  "allocatedExtent an es d =
     (case knownExtentOf d of
        Some n \<Rightarrow> Some n
      | None \<Rightarrow>
          if call_builtin d = BAlloc \<and> length es = 1 then staticUnsignedInteger an (hd es)
          else if call_builtin d = BCalloc \<and> length es = 2 then
            (case (staticUnsignedInteger an (es ! 0), staticUnsignedInteger an (es ! 1)) of
               (Some count, Some n) \<Rightarrow> multiplyUnsignedIntegers count n
             | _ \<Rightarrow> None)
          else None)"

text \<open>The object that a reallocation was given: released when nothing is asked for, unknown otherwise.\<close>

definition afterRealloc :: "Expr \<Rightarrow> uint64 option \<Rightarrow> StaticSafetyAnalyzer \<Rightarrow> StaticSafetyAnalyzer" where
  "afterRealloc e extent an =
     (if extent = Some 0 then fst (releaseStaticDynamicObject e an)
      else case staticAddressFact an e of
        None \<Rightarrow> an
      | Some f \<Rightarrow>
          if fact_origin f = DynamicObject \<and> fmlookup (dynamicObjectStates (current an)) (fact_dynamicObjectId f) \<noteq> None
          then setObjectState (fact_dynamicObjectId f) UnknownState an else an)"

definition recordStaticAddressAssignment :: "string \<Rightarrow> Expr \<Rightarrow> StaticSafetyAnalyzer \<Rightarrow> StaticSafetyAnalyzer" where
  "recordStaticAddressAssignment bindingName e an =
     (case exprNode e of
        CallExpr es d \<Rightarrow>
          if call_builtin d = BAlloc \<or> call_builtin d = BCalloc then recordDynamicObject bindingName (allocatedExtent an es d) an
          else if call_builtin d = BRealloc \<and> es \<noteq> [] then
            setAddressFact bindingName None (afterRealloc (hd es)
              (case knownExtentOf d of
                 Some n \<Rightarrow> Some n
               | None \<Rightarrow> if length es = 2 then staticUnsignedInteger an (es ! 1) else None) an)
          else setAddressFact bindingName (staticAddressFact an e) an
      | _ \<Rightarrow> setAddressFact bindingName (staticAddressFact an e) an)"

end
