(* ===== verification/Safety_Validate.thy ===== *)
theory Safety_Validate
  imports Safety_Facts HIR_Rebound "HOL-Library.Monad_Syntax" "HOL-Library.List_Lexorder" "HOL-Library.Char_ord"
begin

text \<open>
  The walk of the static safety analysis over expressions, statements, blocks and translation units
  (\<open>src/safety/StaticSafetyValidation.cpp\<close>).  The functions of the walk call each other; each is one
  definition over the record \<open>Validators\<close> of the four recursive ones, and \<open>validators\<close> ties them
  together with fuel.  The result \<open>None\<close> says that the fuel was not enough: a walk without labels
  needs no more fuel than the tree is high, while a block with labels is iterated until nothing changes.
  The state is the analyzer with the stack of block contexts, innermost first.
\<close>

section \<open>State and recursion\<close>

type_synonym analysis = "StaticSafetyAnalyzer \<times> StaticGotoContext list"

record Validators =
  validateExpr :: "Expr \<Rightarrow> analysis \<Rightarrow> analysis option"
  validateFormation :: "Expr \<Rightarrow> analysis \<Rightarrow> analysis option"
  validateStmt :: "Stmt \<Rightarrow> analysis \<Rightarrow> (analysis \<times> bool) option"
  validateBlock :: "Block \<Rightarrow> analysis \<Rightarrow> (analysis \<times> bool) option"

text \<open>What the generated table of builtins says about parameters: their modes, whether a terminated string is required, and the modes of overloads.\<close>

record BuiltinSpecs =
  specParameters :: "BuiltinId \<Rightarrow> (BuiltinParameterMode \<times> bool) list option"
  specOverloadModes :: "BuiltinId \<Rightarrow> BuiltinParameterMode list list"

definition onAnalyzer :: "(StaticSafetyAnalyzer \<Rightarrow> StaticSafetyAnalyzer) \<Rightarrow> analysis \<Rightarrow> analysis" where
  "onAnalyzer f st = (f (fst st), snd st)"

primrec foldOption :: "('a \<Rightarrow> 's \<Rightarrow> 's option) \<Rightarrow> 'a list \<Rightarrow> 's \<Rightarrow> 's option" where
  "foldOption f [] s = Some s"
| "foldOption f (x # xs) s = (case f x s of None \<Rightarrow> None | Some s \<Rightarrow> foldOption f xs s)"

text \<open>\<open>SourceRangeScope\<close>: the range of a node for the diagnostics below it, restored afterwards.\<close>

definition setRange :: "SourceRange option \<Rightarrow> analysis \<Rightarrow> analysis" where
  "setRange r = onAnalyzer (\<lambda>an. an\<lparr>currentDiagnosticRange := r\<rparr>)"

definition enterRange :: "SourceRange option \<Rightarrow> analysis \<Rightarrow> analysis" where
  "enterRange r st = (case r of None \<Rightarrow> st | Some _ \<Rightarrow> setRange r st)"

definition inRange ::
  "((analysis \<Rightarrow> analysis) \<Rightarrow> 'r \<Rightarrow> 'r) \<Rightarrow> SourceRange option \<Rightarrow> (analysis \<Rightarrow> 'r option) \<Rightarrow> analysis \<Rightarrow> 'r option" where
  "inRange onResult r f st = map_option (onResult (setRange (currentDiagnosticRange (fst st)))) (f (enterRange r st))"

abbreviation withRange :: "SourceRange option \<Rightarrow> (analysis \<Rightarrow> analysis option) \<Rightarrow> analysis \<Rightarrow> analysis option" where
  "withRange \<equiv> inRange id"

abbreviation withRangeFlow ::
  "SourceRange option \<Rightarrow> (analysis \<Rightarrow> (analysis \<times> bool) option) \<Rightarrow> analysis \<Rightarrow> (analysis \<times> bool) option" where
  "withRangeFlow \<equiv> inRange apfst"

definition continues :: "analysis option \<Rightarrow> (analysis \<times> bool) option" where
  "continues r = map_option (\<lambda>st. (st, True)) r"

section \<open>Reads of Views\<close>

definition accessView :: "Expr \<Rightarrow> uint64 \<Rightarrow> string \<Rightarrow> analysis \<Rightarrow> analysis" where
  "accessView e byteLength operation =
     onAnalyzer (\<lambda>an. validateStaticMemoryAccess (staticViewAddressFact an e) byteLength operation an)"

definition validateStaticCStringRead :: "Validators \<Rightarrow> Expr \<Rightarrow> analysis \<Rightarrow> analysis option" where
  "validateStaticCStringRead v e st = do {
     st \<leftarrow> validateFormation v e st;
     let st = accessView e (if lengthKind (exprResult e) = Static then min 1 (staticByteLength (exprResult e)) else 1)
                ''cstr read'' st;
     Some (if staticCStringTerminated (fst st) e = Some False
           then onAnalyzer (addSafetyDiagnostic ''missing terminating byte in cstr'') st else st)
   }"

definition validateStaticResizeCopy ::
  "Validators \<Rightarrow> ExprBase \<Rightarrow> Expr \<Rightarrow> Expr option \<Rightarrow> analysis \<Rightarrow> analysis option" where
  "validateStaticResizeCopy v b source runtimeLength = withRange (expr_range b) (\<lambda>st. do {
     st \<leftarrow> validateFormation v source st;
     let sourceFact = staticViewAddressFact (fst st) source;
     st \<leftarrow> (case runtimeLength of None \<Rightarrow> Some st | Some e \<Rightarrow> validateExpr v e st);
     let requested = (if lengthKind (expr_result b) = Static then Some (staticByteLength (expr_result b))
                      else case runtimeLength of None \<Rightarrow> None | Some e \<Rightarrow> staticUnsignedInteger (fst st) e);
     Some (case requested of
         Some n \<Rightarrow>
           if lengthKind (exprResult source) = Static
           then onAnalyzer (validateStaticMemoryAccess sourceFact (min n (staticByteLength (exprResult source))) ''load'') st
           else st
       | None \<Rightarrow> st)
   })"

definition formationStep :: "Validators \<Rightarrow> Expr \<Rightarrow> analysis \<Rightarrow> analysis option" where
  "formationStep v e st =
     (case e of Expr b n \<Rightarrow>
        (case n of
           VariableRef d \<Rightarrow> Some st
         | CapturedViewRef c \<Rightarrow> Some st
         | TemplateViewExpr x l t a \<Rightarrow> validateFormation v x st
         | DerefExpr x l \<Rightarrow> validateExpr v x st
         | DynamicByteViewExpr op source runtimeLength \<Rightarrow>
             if op = ResizeBytesView then validateStaticResizeCopy v b source runtimeLength st
             else do {
               st \<leftarrow> validateFormation v source st;
               (case runtimeLength of None \<Rightarrow> Some st | Some x \<Rightarrow> validateExpr v x st)
             }
         | _ \<Rightarrow> validateExpr v e st))"

section \<open>Captured arguments\<close>

definition setInteger :: "string \<Rightarrow> 64 word option \<Rightarrow> StaticSafetyAnalyzer \<Rightarrow> StaticSafetyAnalyzer" where
  "setInteger k x = onState (\<lambda>s. s\<lparr>integerValues := fmupd k x (integerValues s)\<rparr>)"

definition setUnsigned :: "string \<Rightarrow> uint64 option \<Rightarrow> StaticSafetyAnalyzer \<Rightarrow> StaticSafetyAnalyzer" where
  "setUnsigned k x = onState (\<lambda>s. s\<lparr>unsignedIntegerValues := fmupd k x (unsignedIntegerValues s)\<rparr>)"

definition setTermination :: "string \<Rightarrow> bool option \<Rightarrow> StaticSafetyAnalyzer \<Rightarrow> StaticSafetyAnalyzer" where
  "setTermination k x = onState (\<lambda>s. s\<lparr>cstrTerminations := fmupd k x (cstrTerminations s)\<rparr>)"

definition setBindingFact :: "string \<Rightarrow> StaticAddressFact option \<Rightarrow> StaticSafetyAnalyzer \<Rightarrow> StaticSafetyAnalyzer" where
  "setBindingFact k x = onState (\<lambda>s. s\<lparr>bindingAddressFacts := fmupd k x (bindingAddressFacts s)\<rparr>)"

definition dropAddressFact :: "string \<Rightarrow> StaticSafetyAnalyzer \<Rightarrow> StaticSafetyAnalyzer" where
  "dropAddressFact k = onState (\<lambda>s. s\<lparr>addressFacts := fmdrop k (addressFacts s)\<rparr>)"

definition recordStaticViewCapture :: "string \<Rightarrow> Expr \<Rightarrow> bool \<Rightarrow> StaticSafetyAnalyzer \<Rightarrow> StaticSafetyAnalyzer" where
  "recordStaticViewCapture name source retainLocation an =
     (let an = an\<lparr>capturedRanges := fmupd name (if retainLocation then staticViewRange an source else None) (capturedRanges an)\<rparr>;
          an = an\<lparr>capturedAliases := fmupd name
                 (if retainLocation then staticContentKey an (factAt (capturedRanges an) name) (staticByteLength (exprResult source))
                  else None) (capturedAliases an)\<rparr>;
          an = setAddressFact (name @ ''.location'') (if retainLocation then staticViewAddressFact an source else None) an;
          an = setInteger name (if retainLocation then None else staticSignedInteger an source) an;
          an = setUnsigned name (if retainLocation then None else staticUnsignedInteger an source) an;
          an = (if retainLocation then setAddressFact name None an else recordStaticAddressAssignment name source an) in
      setTermination name (if retainLocation then None else staticCStringTerminated an source) an)"

definition captureStaticEvaluatedArgument :: "Expr \<Rightarrow> bool \<Rightarrow> bool \<Rightarrow> analysis \<Rightarrow> Expr \<times> analysis" where
  "captureStaticEvaluatedArgument source retainLocation rawMemory st =
     (let an = fst st;
          name = ''$safety.call.'' @ show_nat (unat (nextStaticCallCaptureId an));
          an = recordStaticViewCapture name source retainLocation (an\<lparr>nextStaticCallCaptureId := nextStaticCallCaptureId an + 1\<rparr>);
          s = exprResult source;
          semantics = (if rawMemory then viewSemanticsForTemplate ''addr'' 8 False False Signed
            else s\<lparr>isAddressable := retainLocation, isMutableLValue := (retainLocation \<and> isMutableLValue s)\<rparr>) in
      (Expr \<lparr>expr_range = expr_range (exprBase source), expr_result = semantics\<rparr> (CapturedViewRef name), (an, snd st)))"

definition releaseCapture :: "Expr \<Rightarrow> StaticSafetyAnalyzer \<Rightarrow> StaticSafetyAnalyzer" where
  "releaseCapture e an =
     (case exprNode e of
        CapturedViewRef name \<Rightarrow>
          onState (\<lambda>s. s\<lparr>addressFacts := fmdrop (name @ ''.location'') (fmdrop name (addressFacts s)),
                         integerValues := fmdrop name (integerValues s),
                         unsignedIntegerValues := fmdrop name (unsignedIntegerValues s),
                         cstrTerminations := fmdrop name (cstrTerminations s)\<rparr>)
            (an\<lparr>capturedRanges := fmdrop name (capturedRanges an), capturedAliases := fmdrop name (capturedAliases an)\<rparr>)
      | _ \<Rightarrow> an)"

definition releaseStaticCallArguments :: "Expr list \<Rightarrow> analysis \<Rightarrow> analysis" where
  "releaseStaticCallArguments arguments = onAnalyzer (fold releaseCapture arguments)"

section \<open>Call arguments\<close>

definition formatted :: "BuiltinId \<Rightarrow> bool" where
  "formatted builtin \<longleftrightarrow> builtin = BPrint \<or> builtin = BPrintf \<or> builtin = BFprintf"

definition formatIndex :: "BuiltinId \<Rightarrow> nat" where
  "formatIndex builtin = (if builtin = BFprintf then 1 else 0)"

definition isStaticCStringArgument :: "BuiltinSpecs \<Rightarrow> BuiltinId \<Rightarrow> uint16 \<Rightarrow> FormatArgKind list \<Rightarrow> nat \<Rightarrow> bool" where
  "isStaticCStringArgument specs builtin overloadIndex kinds index \<longleftrightarrow>
     (let overloads = specOverloadModes specs builtin; chosen = unat overloadIndex;
          scanned = (case specParameters specs builtin of
              None \<Rightarrow> False
            | Some ps \<Rightarrow>
                if chosen < length overloads \<and> index < length (overloads ! chosen) then overloads ! chosen ! index = ModeCStrView
                else if index < length ps then fst (ps ! index) = ModeCStrView \<or> snd (ps ! index)
                else False);
          scanned = (if formatted builtin
            then index = formatIndex builtin \<or>
                 (formatIndex builtin < index \<and> index < length kinds \<and> kinds ! index = StringArg)
            else scanned) in
      scanned \<or> (builtin = BStrcat \<and> index = 0))"

definition isCharacterBuiltin :: "BuiltinId \<Rightarrow> bool" where
  "isCharacterBuiltin builtin \<longleftrightarrow> builtin \<in> {BIsDigit, BIsAlpha, BIsAlnum, BIsSpace, BIsLower, BIsUpper, BIsXdigit,
     BIsBlank, BIsControl, BIsPrint, BIsGraph, BIsPunct, BToUpper, BToLower}"

definition validateStaticCallArgument ::
  "BuiltinSpecs \<Rightarrow> Validators \<Rightarrow> BuiltinId \<Rightarrow> uint16 \<Rightarrow> FormatArgKind list \<Rightarrow> nat \<Rightarrow> Expr \<Rightarrow> analysis \<Rightarrow> analysis option" where
  "validateStaticCallArgument specs v builtin overloadIndex kinds index argument st =
     (if (builtin = BMemset \<and> index = 1) \<or> (isCharacterBuiltin builtin \<and> index = 0) \<or> (builtin = BStrchr \<and> index = 1)
      then map_option (accessView argument 1 ''low-byte read'') (validateFormation v argument st)
      else if isStaticCStringArgument specs builtin overloadIndex kinds index then validateStaticCStringRead v argument st
      else validateExpr v argument st)"

definition memoryCount :: "BuiltinId \<Rightarrow> nat" where
  "memoryCount builtin =
     (if builtin \<in> {BMemset, BFread, BFwrite} then 1 else if builtin \<in> {BMemcpy, BMemmove, BMemcmp} then 2 else 0)"

text \<open>Whether an argument is passed as a View whose location is kept until the callee reads it.\<close>

definition passedAsView :: "BuiltinSpecs \<Rightarrow> BuiltinId \<Rightarrow> uint16 \<Rightarrow> FormatArgKind list \<Rightarrow> nat \<Rightarrow> bool \<Rightarrow> bool" where
  "passedAsView specs builtin overloadIndex kinds index rawMemory \<longleftrightarrow>
     isStaticCStringArgument specs builtin overloadIndex kinds index \<or>
     (index < memoryCount builtin \<and> \<not> rawMemory) \<or>
     (index = 0 \<and> builtin \<in> {BStrcpy, BStrcat, BStrncpy}) \<or>
     (formatted builtin \<and> formatIndex builtin \<le> index \<and>
        (index = formatIndex builtin \<or> length kinds \<le> index \<or> kinds ! index \<noteq> FloatArg)) \<or>
     (builtin = BPut \<and> index = 0) \<or> (builtin = BFput \<and> index = 1)"

definition evaluationOrder :: "BuiltinId \<Rightarrow> nat \<Rightarrow> nat list" where
  "evaluationOrder builtin n =
     (if (builtin = BRealloc \<and> n = 2) \<or> (builtin = BFprintf \<and> 2 \<le> n) then 1 # 0 # [2..<n] else [0..<n])"

definition prepareArgument ::
  "BuiltinSpecs \<Rightarrow> Validators \<Rightarrow> BuiltinId \<Rightarrow> uint16 \<Rightarrow> FormatArgKind list \<Rightarrow> Expr list \<Rightarrow> nat
     \<Rightarrow> Expr list \<times> analysis \<Rightarrow> (Expr list \<times> analysis) option" where
  "prepareArgument specs v builtin overloadIndex kinds arguments index cs =
     (let argument = arguments ! index;
          rawMemory = (index < memoryCount builtin \<and> builtin \<noteq> BFread \<and> builtin \<noteq> BFwrite \<and> isRawMemoryAddress argument);
          view = passedAsView specs builtin overloadIndex kinds index rawMemory in
      inRange apsnd (expr_range (exprBase argument)) (\<lambda>st. do {
        st \<leftarrow> (if view then validateFormation v argument st
              else validateStaticCallArgument specs v builtin overloadIndex kinds index argument st);
        let (reference, st) = captureStaticEvaluatedArgument argument (view \<and> isAddressable (exprResult argument)) rawMemory st;
        Some ((fst cs)[index := reference], st)
      }) (snd cs))"

definition prepareStaticCallArguments ::
  "BuiltinSpecs \<Rightarrow> Validators \<Rightarrow> BuiltinId \<Rightarrow> uint16 \<Rightarrow> FormatArgKind list \<Rightarrow> Expr list \<Rightarrow> analysis
     \<Rightarrow> (Expr list \<times> analysis) option" where
  "prepareStaticCallArguments specs v builtin overloadIndex kinds arguments st =
     foldOption (prepareArgument specs v builtin overloadIndex kinds arguments)
       (evaluationOrder builtin (length arguments)) (arguments, st)"

definition isBorrowed :: "StaticSafetyAnalyzer \<Rightarrow> string \<Rightarrow> nat \<Rightarrow> bool" where
  "isBorrowed an callee index \<longleftrightarrow>
     (case fmlookup (staticViewParameterCopies an) callee of
        None \<Rightarrow> False
      | Some copies \<Rightarrow> index < length copies \<and> \<not> copies ! index)"

definition userArgument ::
  "Validators \<Rightarrow> string \<Rightarrow> Expr list \<Rightarrow> nat \<Rightarrow> StaticAddressRange option list \<times> analysis
     \<Rightarrow> (StaticAddressRange option list \<times> analysis) option" where
  "userArgument v callee arguments index rs =
     (let argument = arguments ! index; ranges = fst rs; st = snd rs in
      if isBorrowed (fst st) callee index then do {
        st \<leftarrow> validateFormation v argument st;
        Some (ranges[index := staticViewRange (fst st) argument], st)
      }
      else map_option (Pair ranges) (validateExpr v argument st))"

definition validateStaticUserCallArguments :: "Validators \<Rightarrow> string \<Rightarrow> Expr list \<Rightarrow> analysis \<Rightarrow> analysis option" where
  "validateStaticUserCallArguments v callee arguments st = do {
     (ranges, st) \<leftarrow> foldOption (userArgument v callee arguments) [0..<length arguments]
                      (replicate (length arguments) None, st);
     Some (onAnalyzer (fold (\<lambda>index an.
       if isBorrowed an callee index then invalidateStaticFactsOverlapping (ranges ! index) None an else an)
       [0..<length arguments]) st)
   }"

definition isMemoryBuiltin :: "BuiltinId \<Rightarrow> bool" where
  "isMemoryBuiltin builtin \<longleftrightarrow> builtin \<in> {BMemset, BMemcpy, BMemmove, BMemcmp}"

definition isTransferBuiltin :: "BuiltinId \<Rightarrow> bool" where
  "isTransferBuiltin builtin \<longleftrightarrow> builtin = BFread \<or> builtin = BFwrite"

text \<open>The byte count of \<open>size * count\<close> arguments, when both are known and the product fits.\<close>

definition productArgument :: "StaticSafetyAnalyzer \<Rightarrow> Expr \<Rightarrow> Expr \<Rightarrow> uint64 option" where
  "productArgument an x y =
     (case (staticUnsignedInteger an x, staticUnsignedInteger an y) of
        (Some a, Some b) \<Rightarrow> multiplyUnsignedIntegers a b | _ \<Rightarrow> None)"

definition validateMemoryOperand ::
  "Validators \<Rightarrow> BuiltinId \<Rightarrow> uint64 option \<Rightarrow> Expr list \<Rightarrow> nat \<Rightarrow> analysis \<Rightarrow> analysis option" where
  "validateMemoryOperand v builtin byteLength arguments index st =
     (let argument = arguments ! index; s = exprResult argument;
          rawAddress = (builtin \<noteq> BFread \<and> builtin \<noteq> BFwrite \<and> isRawMemoryAddress argument);
          operation = (if index = 0 \<and> builtin \<noteq> BMemcmp \<and> builtin \<noteq> BFwrite then ''store'' else ''load'') in do {
        st \<leftarrow> (if rawAddress then validateExpr v argument st else validateFormation v argument st);
        let known = (if rawAddress then staticAddressFact (fst st) argument
                     else map_option (\<lambda>f. f\<lparr>fact_range := staticViewRange (fst st) argument\<rparr>)
                            (staticViewAddressFact (fst st) argument));
        Some (case byteLength of
            None \<Rightarrow> st
          | Some n \<Rightarrow>
              onAnalyzer (\<lambda>an. let an = validateStaticMemoryAccess known n operation an in
                if \<not> rawAddress \<and> lengthKind s = Static \<and> staticByteLength s < n \<and> factRange known = None
                then addSafetyDiagnostic (''memory '' @ operation @ '' out of bounds'') an else an) st)
      })"

definition validateStaticMemoryOperands ::
  "Validators \<Rightarrow> BuiltinId \<Rightarrow> Expr list \<Rightarrow> analysis \<Rightarrow> (nat \<times> analysis) option" where
  "validateStaticMemoryOperands v builtin arguments st =
     (let (count, byteLength) =
        (if length arguments = 3 \<and> isMemoryBuiltin builtin then
           (if builtin = BMemset then 1 else 2, staticUnsignedInteger (fst st) (arguments ! 2))
         else if length arguments = 4 \<and> isTransferBuiltin builtin then
           (1, productArgument (fst st) (arguments ! 1) (arguments ! 2))
         else (0, None)) in
      map_option (Pair count) (foldOption (validateMemoryOperand v builtin byteLength arguments) [0..<count] st))"

section \<open>Effects of calls\<close>

definition validateOperands ::
  "BuiltinSpecs \<Rightarrow> Validators \<Rightarrow> BuiltinId \<Rightarrow> uint16 \<Rightarrow> FormatArgKind list \<Rightarrow> Expr list \<Rightarrow> analysis \<Rightarrow> analysis option" where
  "validateOperands specs v builtin overloadIndex kinds arguments st = do {
     (memoryOperands, st) \<leftarrow> validateStaticMemoryOperands v builtin arguments st;
     foldOption (\<lambda>index. validateStaticCallArgument specs v builtin overloadIndex kinds index (arguments ! index))
       [memoryOperands..<length arguments] st
   }"

text \<open>The facts a call forgets: everything reachable for an unknown callee, the destination for a builtin that writes.\<close>

definition forgetWritten :: "BuiltinId \<Rightarrow> Expr list \<Rightarrow> StaticSafetyAnalyzer \<Rightarrow> StaticSafetyAnalyzer" where
  "forgetWritten builtin arguments an =
     (let an = (if builtin = BNone
                then fold (\<lambda>e an. invalidateStaticFactsOverlapping (staticMemoryOperandRange an e) None an) arguments
                       (invalidateStaticGlobalFacts an)
                else an);
          an = (if builtin \<in> {BMemset, BMemcpy, BMemmove} \<and> length arguments = 3
                then invalidateStaticFactsOverlapping (staticMemoryOperandRange an (arguments ! 0))
                       (staticUnsignedInteger an (arguments ! 2)) an
                else an);
          an = (if builtin = BFread \<and> length arguments = 4
                then invalidateStaticFactsOverlapping (staticViewRange an (arguments ! 0))
                       (productArgument an (arguments ! 1) (arguments ! 2)) an
                else an) in
      if builtin \<in> {BStrcpy, BStrncpy, BStrcat} \<and> arguments \<noteq> []
      then invalidateStaticFactsOverlapping (staticViewRange an (arguments ! 0)) None an else an)"

definition releaseGiven :: "BuiltinId \<Rightarrow> Expr list \<Rightarrow> StaticSafetyAnalyzer \<Rightarrow> StaticSafetyAnalyzer" where
  "releaseGiven builtin arguments an =
     (if arguments = [] then an
      else if builtin = BFree then fst (releaseStaticDynamicObject (hd arguments) an)
      else if builtin = BRealloc then
        afterRealloc (hd arguments) (if length arguments = 2 then staticUnsignedInteger an (arguments ! 1) else None) an
      else an)"

definition callStmtStep :: "BuiltinSpecs \<Rightarrow> Validators \<Rightarrow> Expr list \<Rightarrow> CallStmtData \<Rightarrow> analysis \<Rightarrow> analysis option" where
  "callStmtStep specs v es d st =
     (let builtin = cs_builtin d; overload = cs_overloadIndex d; kinds = cs_formatArgumentKinds d in do {
        (arguments, st) \<leftarrow> prepareStaticCallArguments specs v builtin overload kinds es st;
        let st = (if (builtin = BFree \<or> builtin = BRealloc) \<and> arguments \<noteq> []
                  then onAnalyzer (validateStaticDynamicBase (hd arguments) (cs_callee d)) st else st);
        st \<leftarrow> validateOperands specs v builtin overload kinds arguments st;
        Some (releaseStaticCallArguments arguments
          (onAnalyzer (\<lambda>an. forgetWritten builtin arguments (releaseGiven builtin arguments an)) st))
      })"

definition reportProductOverflow :: "Expr \<Rightarrow> Expr \<Rightarrow> string \<Rightarrow> StaticSafetyAnalyzer \<Rightarrow> StaticSafetyAnalyzer" where
  "reportProductOverflow x count callee an =
     (case (staticUnsignedInteger an x, staticUnsignedInteger an count) of
        (Some a, Some b) \<Rightarrow> if a \<noteq> 0 \<and> (- 1) div a < b then addSafetyDiagnostic (callee @ '' size overflow'') an else an
      | _ \<Rightarrow> an)"

definition checkTransfer :: "BuiltinId \<Rightarrow> string \<Rightarrow> Expr list \<Rightarrow> StaticSafetyAnalyzer \<Rightarrow> StaticSafetyAnalyzer" where
  "checkTransfer builtin callee arguments an =
     (let an = reportProductOverflow (arguments ! 1) (arguments ! 2) callee an in
      case (staticUnsignedInteger an (arguments ! 1), staticUnsignedInteger an (arguments ! 2)) of
        (Some a, Some b) \<Rightarrow>
          if a = 0 \<or> b \<le> (- 1) div a then
            (case staticViewRange an (arguments ! 0) of
               None \<Rightarrow> an
             | Some r \<Rightarrow>
                 if outOfRange (a * b) r then
                   addSafetyDiagnostic (callee @ (if builtin = BFread then '' destination range out of bounds''
                                                  else '' source range out of bounds'')) an
                 else an)
          else an
      | _ \<Rightarrow> an)"

definition overlapping :: "uint64 \<Rightarrow> StaticAddressRange \<Rightarrow> StaticAddressRange \<Rightarrow> bool" where
  "overlapping byteLength destination source \<longleftrightarrow>
     byteLength \<noteq> 0 \<and> rng_bindingName destination = rng_bindingName source \<and>
     0 \<le> sint (rng_offset destination) \<and> 0 \<le> sint (rng_offset source) \<and>
     byteLength \<le> - 1 - rng_offset destination \<and> byteLength \<le> - 1 - rng_offset source \<and>
     rng_offset destination < rng_offset source + byteLength \<and> rng_offset source < rng_offset destination + byteLength"

definition checkMemory :: "BuiltinId \<Rightarrow> string \<Rightarrow> Expr list \<Rightarrow> StaticSafetyAnalyzer \<Rightarrow> StaticSafetyAnalyzer" where
  "checkMemory builtin callee arguments an =
     (let byteLength = staticUnsignedInteger an (arguments ! 2);
          destination = staticMemoryOperandRange an (arguments ! 0);
          source = (if builtin = BMemset then None else staticMemoryOperandRange an (arguments ! 1));
          isOutOfBounds = (\<lambda>rng. case (rng, byteLength) of (Some r, Some n) \<Rightarrow> outOfRange n r | _ \<Rightarrow> False);
          an = (if isOutOfBounds destination then addSafetyDiagnostic (callee @ '' destination range out of bounds'') an else an);
          an = (if isOutOfBounds source then addSafetyDiagnostic (callee @ '' source range out of bounds'') an else an) in
      case (byteLength, destination, source) of
        (Some n, Some dst, Some src) \<Rightarrow>
          if builtin = BMemcpy \<and> overlapping n dst src then addSafetyDiagnostic ''overlapping memcpy ranges'' an else an
      | _ \<Rightarrow> an)"

definition checkAbs :: "size_t \<Rightarrow> Expr \<Rightarrow> StaticSafetyAnalyzer \<Rightarrow> StaticSafetyAnalyzer" where
  "checkAbs byteLength argument an =
     (case (staticSignedInteger an argument, signedMinimumForByteLength byteLength) of
        (Some x, Some minimum) \<Rightarrow> if x = minimum then addSafetyDiagnostic ''abs of minimum signed value'' an else an
      | _ \<Rightarrow> an)"

definition checkCallArguments :: "CallData \<Rightarrow> Expr list \<Rightarrow> StaticSafetyAnalyzer \<Rightarrow> StaticSafetyAnalyzer" where
  "checkCallArguments d arguments an =
     (let builtin = call_builtin d; callee = call_callee d;
          an = (if builtin = BRealloc \<and> arguments \<noteq> [] then validateStaticDynamicBase (hd arguments) callee an else an);
          an = (if builtin = BCalloc \<and> length arguments = 2 then reportProductOverflow (arguments ! 1) (arguments ! 0) callee an else an);
          an = (if isTransferBuiltin builtin \<and> length arguments = 4 then checkTransfer builtin callee arguments an else an);
          an = (if isMemoryBuiltin builtin \<and> length arguments = 3 then checkMemory builtin callee arguments an else an) in
      if opt_runtimeChecksEnabled (safetyOptions an) \<and> builtin = BAbs \<and> length arguments = 1
      then checkAbs (call_byteLength d) (hd arguments) an else an)"

definition callExprStep :: "BuiltinSpecs \<Rightarrow> Validators \<Rightarrow> Expr list \<Rightarrow> CallData \<Rightarrow> analysis \<Rightarrow> analysis option" where
  "callExprStep specs v es d st =
     (let builtin = call_builtin d; overload = call_overloadIndex d; kinds = call_formatArgumentKinds d in
      if builtin = BLength then foldOption (validateFormation v) es st
      else do {
        (arguments, st) \<leftarrow> prepareStaticCallArguments specs v builtin overload kinds es st;
        let st = onAnalyzer (checkCallArguments d arguments) st;
        st \<leftarrow> validateOperands specs v builtin overload kinds arguments st;
        Some (releaseStaticCallArguments arguments (onAnalyzer (forgetWritten builtin arguments) st))
      })"

section \<open>Expressions\<close>

definition checkDeref :: "Expr \<Rightarrow> size_t \<Rightarrow> StaticSafetyAnalyzer \<Rightarrow> StaticSafetyAnalyzer" where
  "checkDeref address byteLength an =
     (let known = staticAddressFact an address; an = validateStaticAddressAccess known ''dereference'' an in
      case known of
        None \<Rightarrow> an
      | Some f \<Rightarrow>
          if fact_origin f = NullAddress then addSafetyDiagnostic ''null address dereference'' an
          else if fact_range f \<noteq> None
          then validateStaticMemoryAccess (Some (f\<lparr>fact_origin := NonDynamicObject\<rparr>)) byteLength ''load'' an
          else an)"

definition logicalStep :: "Validators \<Rightarrow> BinaryOperator \<Rightarrow> Expr \<Rightarrow> Expr \<Rightarrow> analysis \<Rightarrow> analysis option" where
  "logicalStep v op x y st = do {
     st \<leftarrow> validateExpr v x st;
     (case staticBooleanValue (fst st) x of
        Some left \<Rightarrow> if (op = LogicalAnd \<and> \<not> left) \<or> (op = LogicalOr \<and> left) then Some st else validateExpr v y st
      | None \<Rightarrow>
          let skippedRight = staticSafetyState (fst st) in
          map_option (onAnalyzer (\<lambda>an. mergeStaticSafetyStates skippedRight (staticSafetyState an) an)) (validateExpr v y st))
   }"

definition viewOffsetOutOfBounds :: "StaticSafetyAnalyzer \<Rightarrow> ViewOffsetBounds \<Rightarrow> Expr \<Rightarrow> bool" where
  "viewOffsetOutOfBounds an bounds y \<longleftrightarrow>
     (let offset = staticIndexOffset an y;
          widePositive = (if offset = None \<and> 8 < staticByteLength (exprResult y) then staticUnsignedInteger an y else None);
          room = sourceByteLength bounds - resultByteLength bounds in
      sourceByteLength bounds < resultByteLength bounds \<or>
      (case offset of None \<Rightarrow> False | Some off \<Rightarrow> sint off < 0 \<or> room < off) \<or>
      (case widePositive of None \<Rightarrow> False | Some n \<Rightarrow> room < n))"

definition stringCompareStep :: "Validators \<Rightarrow> Expr \<Rightarrow> Expr \<Rightarrow> analysis \<Rightarrow> analysis option" where
  "stringCompareStep v x y st = do {
     st \<leftarrow> validateFormation v x st;
     let (first, st) = captureStaticEvaluatedArgument x (isAddressable (exprResult x)) False st;
     st \<leftarrow> validateFormation v y st;
     let (second, st) = captureStaticEvaluatedArgument y (isAddressable (exprResult y)) False st;
     st \<leftarrow> validateStaticCStringRead v first st;
     st \<leftarrow> validateStaticCStringRead v second st;
     Some (releaseStaticCallArguments [first, second] st)
   }"

definition checkOperands :: "BinaryOperator \<Rightarrow> Expr \<Rightarrow> StaticSafetyAnalyzer \<Rightarrow> StaticSafetyAnalyzer" where
  "checkOperands operation y an =
     (let op = binaryOperatorName operation in
      case staticSignedInteger an y of
        None \<Rightarrow> an
      | Some right \<Rightarrow>
          let an = (if (op = ''/'' \<or> op = ''%'') \<and> right = 0 then addSafetyDiagnostic ''division by zero'' an else an);
              an = (if (op = ''<<'' \<or> op = ''>>'') \<and> sint right < 0 then addSafetyDiagnostic ''negative shift count'' an else an) in
          if op = ''**'' \<and> sint right < 0 then addSafetyDiagnostic ''negative exponent'' an else an)"

definition binaryStep :: "Validators \<Rightarrow> Expr \<Rightarrow> Expr \<Rightarrow> BinaryData \<Rightarrow> analysis \<Rightarrow> analysis option" where
  "binaryStep v x y d st =
     (if bin_operation d = LogicalAnd \<or> bin_operation d = LogicalOr then logicalStep v (bin_operation d) x y st
      else case bin_viewOffsetBounds d of
        Some bounds \<Rightarrow> do {
          st \<leftarrow> validateExpr v x st;
          st \<leftarrow> validateExpr v y st;
          Some (if viewOffsetOutOfBounds (fst st) bounds y
                then onAnalyzer (addSafetyDiagnostic ''index or slice out of bounds'') st else st)
        }
      | None \<Rightarrow>
          if bin_operationKind d = StandardCStringCompare then stringCompareStep v x y st
          else do {
            st \<leftarrow> validateExpr v x (onAnalyzer (checkOperands (bin_operation d) y) st);
            validateExpr v y st
          })"

definition ternaryStep :: "Validators \<Rightarrow> Expr \<Rightarrow> Expr \<Rightarrow> Expr \<Rightarrow> analysis \<Rightarrow> analysis option" where
  "ternaryStep v c x y st = do {
     st \<leftarrow> validateExpr v c st;
     (case staticBooleanValue (fst st) c of
        Some condition \<Rightarrow> validateExpr v (if condition then x else y) st
      | None \<Rightarrow>
          let entry = staticSafetyState (fst st) in do {
            st \<leftarrow> validateExpr v x st;
            let thenState = staticSafetyState (fst st);
            st \<leftarrow> validateExpr v y (onAnalyzer (restoreStaticSafetyState entry) st);
            Some (onAnalyzer (\<lambda>an. mergeStaticSafetyStates thenState (staticSafetyState an) an) st)
          })
   }"

definition formAndAccess :: "Validators \<Rightarrow> Expr \<Rightarrow> uint64 \<Rightarrow> string \<Rightarrow> analysis \<Rightarrow> analysis option" where
  "formAndAccess v e byteLength operation st = map_option (accessView e byteLength operation) (validateFormation v e st)"

definition exprNodeStep :: "BuiltinSpecs \<Rightarrow> Validators \<Rightarrow> ExprBase \<Rightarrow> ExprNode \<Rightarrow> analysis \<Rightarrow> analysis option" where
  "exprNodeStep specs v b n st =
     (let each = foldOption (validateExpr v) in
      case n of
        VariableRef d \<Rightarrow> Some (onAnalyzer (\<lambda>an. validateStaticMemoryAccess
          (staticBindingAddressFact an (var_bindingName d) (var_offset d) (var_byteLength d)) (var_byteLength d) ''load'' an) st)
      | CapturedViewRef c \<Rightarrow> Some (onAnalyzer (\<lambda>an.
          case fmlookup (addressFacts (current an)) (c @ ''.location'') of
            None \<Rightarrow> an
          | Some known \<Rightarrow> validateStaticMemoryAccess known (staticByteLength (expr_result b)) ''captured View read'' an) st)
      | DerefExpr e l \<Rightarrow> validateExpr v e (onAnalyzer (checkDeref e l) st)
      | BinaryExpr x y d \<Rightarrow> binaryStep v x y d st
      | FloatBinaryExpr x op y l \<Rightarrow> each [x, y] st
      | FloatCompareExpr x op y l \<Rightarrow> each [x, y] st
      | UnaryExpr op e l \<Rightarrow> validateExpr v e st
      | TernaryExpr c x y l \<Rightarrow> ternaryStep v c x y st
      | UnsignedExpr eo l \<Rightarrow>
          (case eo of
             None \<Rightarrow> Some st
           | Some e \<Rightarrow>
               if isAddressable (exprResult e)
               then formAndAccess v e (staticByteLength (expr_result b)) ''unsigned snapshot'' st
               else validateExpr v e st)
      | IntegerCastExpr e l s \<Rightarrow> validateExpr v e st
      | TemplateViewExpr e l t a \<Rightarrow>
          if t \<noteq> ''cstr'' \<and> templateName (exprResult e) = ''cstr''
          then formAndAccess v e (staticByteLength (expr_result b)) ''load'' st
          else validateExpr v e st
      | BooleanTestExpr e \<Rightarrow> validateExpr v e st
      | UserTemplateOpCallExpr callee es l t \<Rightarrow>
          map_option (onAnalyzer invalidateStaticGlobalFacts) (validateStaticUserCallArguments v callee es st)
      | UserTemplateFormatCallExpr callee e sink fo l \<Rightarrow>
          map_option (onAnalyzer invalidateStaticGlobalFacts) (each (e # opt_list fo) st)
      | ToFloatExpr e l u f \<Rightarrow> validateExpr v e st
      | ToIntExpr e f l u \<Rightarrow> validateExpr v e st
      | CallExpr es d \<Rightarrow> callExprStep specs v es d st
      | DynamicByteViewExpr op source runtimeLength \<Rightarrow>
          if op = ResizeBytesView then validateStaticResizeCopy v b source runtimeLength st
          else each (source # opt_list runtimeLength) st
      | ByteSwapExpr e l \<Rightarrow> validateExpr v e st
      | AssignmentExpr ss ro l \<Rightarrow> do {
          st \<leftarrow> foldOption (\<lambda>s st. map_option fst (validateStmt v s st)) ss st;
          (case ro of
             None \<Rightarrow> Some st
           | Some r \<Rightarrow>
               if templateName (exprResult r) = ''cstr''
               then formAndAccess v r (staticByteLength (exprResult r)) ''assignment snapshot'' st
               else validateExpr v r st)
        }
      | _ \<Rightarrow> Some st)"

definition exprStep :: "BuiltinSpecs \<Rightarrow> Validators \<Rightarrow> Expr \<Rightarrow> analysis \<Rightarrow> analysis option" where
  "exprStep specs v e = withRange (expr_range (exprBase e)) (exprNodeStep specs v (exprBase e) (exprNode e))"

section \<open>Stores\<close>

definition storeKeyed ::
  "StoreTarget \<Rightarrow> (string \<Rightarrow> StaticSafetyAnalyzer \<Rightarrow> StaticSafetyAnalyzer) \<Rightarrow> StaticSafetyAnalyzer \<Rightarrow> StaticSafetyAnalyzer" where
  "storeKeyed t record an =
     (case prepareStaticNamedStore (store_bindingName t) (store_offset t) (store_targetByteLength t) an of
        (an, key) \<Rightarrow> (case key of None \<Rightarrow> an | Some k \<Rightarrow> record k an))"

definition characterTermination :: "StoreTarget \<Rightarrow> Expr \<Rightarrow> bool option" where
  "characterTermination t e =
     (case exprNode e of
        CharacterLiteral bs l \<Rightarrow>
          if l = store_targetByteLength t \<and> word_of_nat (length bs) = store_targetByteLength t
          then Some (CHR 0x00 \<in> set bs) else None
      | _ \<Rightarrow> None)"

definition storeInteger :: "StoreTarget \<Rightarrow> Expr \<Rightarrow> StaticSafetyAnalyzer \<Rightarrow> StaticSafetyAnalyzer" where
  "storeInteger t e an =
     (let signedValue = staticSignedInteger an e; unsignedValue = staticUnsignedInteger an e;
          an = recordStaticAddressAssignment ''$store.address'' e an;
          addressFact = factAt (addressFacts (current an)) ''$store.address'';
          an = dropAddressFact ''$store.address'' an;
          addressFact = (case addressFact of
              Some f \<Rightarrow> if store_targetByteLength t < 8 \<and> fact_origin f \<noteq> NullAddress then None else Some f
            | None \<Rightarrow> None) in
      storeKeyed t (\<lambda>k an. setTermination k (characterTermination t e) (setAddressFact k addressFact
        (setUnsigned k unsignedValue (setInteger k signedValue an)))) an)"

definition storeBool :: "StoreTarget \<Rightarrow> Expr \<Rightarrow> StaticSafetyAnalyzer \<Rightarrow> StaticSafetyAnalyzer" where
  "storeBool t e an =
     (let signedValue = staticSignedInteger an e; unsignedValue = staticUnsignedInteger an e in
      storeKeyed t (\<lambda>k an. setUnsigned k unsignedValue (setInteger k signedValue an)) an)"

definition storeView :: "StoreTarget \<Rightarrow> Expr \<Rightarrow> StaticSafetyAnalyzer \<Rightarrow> StaticSafetyAnalyzer" where
  "storeView t e an =
     (let termination = (case characterTermination t e of Some z \<Rightarrow> Some z | None \<Rightarrow> staticCStringTerminated an e) in
      storeKeyed t (\<lambda>k. setTermination k termination) an)"

definition stringCopyStep ::
  "Validators \<Rightarrow> StoreTarget \<Rightarrow> Expr option \<Rightarrow> StringCopySource \<Rightarrow> analysis \<Rightarrow> analysis option" where
  "stringCopyStep v t sourceView src st = do {
     st \<leftarrow> (case sourceView of
         Some e \<Rightarrow>
           if templateName (exprResult e) = ''cstr'' then validateStaticCStringRead v e st
           else map_option (if 1 < store_targetByteLength t \<and> copy_sourceByteLength src \<noteq> 0
                            then accessView e 1 ''cstr read'' else id) (validateFormation v e st)
       | None \<Rightarrow> Some (onAnalyzer (\<lambda>an. validateStaticMemoryAccess
           (staticBindingAddressFact an (copy_sourceBindingName src) (copy_sourceOffset src) (copy_sourceByteLength src))
           (if 1 < store_targetByteLength t then min 1 (copy_sourceByteLength src) else 0) ''load'' an) st));
     Some (onAnalyzer (storeKeyed t (\<lambda>k. setTermination k (Some True))) st)
   }"

definition rebind :: "StoreTarget \<Rightarrow> Expr \<Rightarrow> StaticSafetyAnalyzer \<Rightarrow> StaticSafetyAnalyzer" where
  "rebind t e an =
     (let an = recordStaticAddressAssignment ''$rebind.address'' e an in
      dropAddressFact ''$rebind.address''
        (setBindingFact (store_bindingName t) (factAt (addressFacts (current an)) ''$rebind.address'') an))"

definition declareLocal :: "LocalMemoryData \<Rightarrow> StaticSafetyAnalyzer \<Rightarrow> StaticSafetyAnalyzer" where
  "declareLocal d an =
     (let name = local_bindingName d;
          an = an\<lparr>staticDefinitionByteLengths := fmupd name (local_byteLength d) (staticDefinitionByteLengths an)\<rparr> in
      case local_storage d of
        StaticLocal \<Rightarrow>
          (let an = an\<lparr>staticGlobalBindings := List.insert name (staticGlobalBindings an)\<rparr> in
           if name \<in> staticPotentiallyReboundBindings an then setBindingFact name None an else an)
      | LocalStorage \<Rightarrow>
          invalidateStaticBinding name (onState (\<lambda>s. s\<lparr>bindingAddressFacts := fmdrop name (bindingAddressFacts s)\<rparr>) an)
      | GlobalStorage \<Rightarrow> an)"

section \<open>Control flow\<close>

definition joinInto :: "StaticSafetyState option \<Rightarrow> StaticSafetyState \<Rightarrow> StaticSafetyState" where
  "joinInto target outgoing = (case target of Some s \<Rightarrow> mergedStaticSafetyStates s outgoing | None \<Rightarrow> outgoing)"

text \<open>The join after two branches: the states of those that fall through.\<close>

definition joinBranches ::
  "StaticSafetyState \<times> bool \<Rightarrow> StaticSafetyState \<times> bool \<Rightarrow> analysis \<Rightarrow> analysis \<times> bool" where
  "joinBranches a b st =
     (if snd a \<and> snd b then (onAnalyzer (mergeStaticSafetyStates (fst a) (fst b)) st, True)
      else if snd a then (onAnalyzer (restoreStaticSafetyState (fst a)) st, True)
      else if snd b then (onAnalyzer (restoreStaticSafetyState (fst b)) st, True)
      else (st, False))"

definition ifStep :: "Validators \<Rightarrow> Expr \<Rightarrow> Block \<Rightarrow> Block option \<Rightarrow> analysis \<Rightarrow> (analysis \<times> bool) option" where
  "ifStep v c thenBlock elseBlock st = do {
     st \<leftarrow> validateExpr v c st;
     (case staticBooleanValue (fst st) c of
        Some True \<Rightarrow> validateBlock v thenBlock st
      | Some False \<Rightarrow> (case elseBlock of Some b \<Rightarrow> validateBlock v b st | None \<Rightarrow> Some (st, True))
      | None \<Rightarrow>
          let entry = staticSafetyState (fst st) in do {
            (st, thenFallsThrough) \<leftarrow> validateBlock v thenBlock st;
            let thenState = staticSafetyState (fst st);
            let st = onAnalyzer (restoreStaticSafetyState entry) st;
            (st, elseFallsThrough) \<leftarrow> (case elseBlock of Some b \<Rightarrow> validateBlock v b st | None \<Rightarrow> Some (st, True));
            Some (joinBranches (thenState, thenFallsThrough) (staticSafetyState (fst st), elseFallsThrough) st)
          })
   }"

definition loopExit ::
  "bool option \<Rightarrow> StaticSafetyState \<Rightarrow> StaticSafetyState option \<Rightarrow> StaticSafetyState option \<Rightarrow> StaticSafetyState option" where
  "loopExit condition entry broken nextIteration =
     (let mayEnd = (condition \<noteq> Some True);
          exit = (if mayEnd then Some entry else None);
          exit = (case broken of Some b \<Rightarrow> Some (joinInto exit b) | None \<Rightarrow> exit) in
      case nextIteration of
        None \<Rightarrow> exit
      | Some nxt \<Rightarrow> if mayEnd then Some (joinInto exit (mergedStaticSafetyStates entry nxt)) else exit)"

definition whileStep :: "Validators \<Rightarrow> Expr \<Rightarrow> Block \<Rightarrow> analysis \<Rightarrow> (analysis \<times> bool) option" where
  "whileStep v c body st = do {
     st \<leftarrow> validateExpr v c st;
     let condition = staticBooleanValue (fst st) c;
     if condition = Some False then Some (st, True)
     else let entry = staticSafetyState (fst st); outer = staticLoopContexts (fst st);
              loop = \<lparr>loop_exitScope = length (snd st), breakState = None, continueState = None\<rparr> in do {
       (st, bodyFallsThrough) \<leftarrow> validateBlock v body (onAnalyzer (\<lambda>an. an\<lparr>staticLoopContexts := loop # outer\<rparr>) st);
       let bodyState = staticSafetyState (fst st);
       let ended = hd (staticLoopContexts (fst st));
       let st = onAnalyzer (\<lambda>an. restoreStaticSafetyState entry (an\<lparr>staticLoopContexts := tl (staticLoopContexts an)\<rparr>)) st;
       let nextIteration = (if bodyFallsThrough
             then Some (case continueState ended of Some s \<Rightarrow> mergedStaticSafetyStates bodyState s | None \<Rightarrow> bodyState)
             else continueState ended);
       Some (case loopExit condition entry (breakState ended) nextIteration of
           Some s \<Rightarrow> onAnalyzer (restoreStaticSafetyState s) st
         | None \<Rightarrow> st, True)
     }
   }"

primrec sequence :: "Validators \<Rightarrow> Stmt list \<Rightarrow> analysis \<Rightarrow> (analysis \<times> bool) option" where
  "sequence v [] st = Some (st, True)"
| "sequence v (s # ss) st =
     (case validateStmt v s st of None \<Rightarrow> None | Some (st, falls) \<Rightarrow> if falls then sequence v ss st else Some (st, False))"

definition forStep ::
  "Validators \<Rightarrow> Stmt option \<Rightarrow> Expr option \<Rightarrow> Stmt list \<Rightarrow> Block \<Rightarrow> analysis \<Rightarrow> (analysis \<times> bool) option" where
  "forStep v init c post body st = do {
     (st, falls) \<leftarrow> sequence v (opt_list init) st;
     if \<not> falls then Some (st, False)
     else do {
       st \<leftarrow> foldOption (validateExpr v) (opt_list c) st;
       if Option.bind c (staticBooleanValue (fst st)) = Some False then Some (st, True)
       else let entry = staticSafetyState (fst st) in do {
         (st, falls) \<leftarrow> validateBlock v body st;
         (st, falls) \<leftarrow> (if falls then sequence v post st else Some (st, False));
         let bodyState = staticSafetyState (fst st);
         let st = onAnalyzer (restoreStaticSafetyState entry) st;
         Some (if falls then onAnalyzer (mergeStaticSafetyStates entry bodyState) st else st, True)
       }
     }
   }"

definition tryStep :: "Validators \<Rightarrow> Block \<Rightarrow> Block \<Rightarrow> analysis \<Rightarrow> (analysis \<times> bool) option" where
  "tryStep v tryBlock catchBlock st =
     (let entry = staticSafetyState (fst st) in do {
        (st, tryFallsThrough) \<leftarrow> validateBlock v tryBlock st;
        let tryState = staticSafetyState (fst st);
        (st, catchFallsThrough) \<leftarrow> validateBlock v catchBlock (onAnalyzer (restoreStaticSafetyState entry) st);
        Some (joinBranches (tryState, tryFallsThrough) (staticSafetyState (fst st), catchFallsThrough) st)
      })"

text \<open>\<open>break\<close> and \<open>continue\<close>: the state leaves the blocks entered since the loop and joins the state of the loop.\<close>

definition leaveLoop ::
  "(StaticSafetyState \<Rightarrow> StaticLoopContext \<Rightarrow> StaticLoopContext) \<Rightarrow> analysis \<Rightarrow> analysis \<times> bool" where
  "leaveLoop join st =
     (case staticLoopContexts (fst st) of
        [] \<Rightarrow> (st, False)
      | loop # outer \<Rightarrow>
          (case exitStaticScopes (take (length (snd st) - loop_exitScope loop) (snd st)) (staticSafetyState (fst st)) (fst st) of
             (an, outgoing) \<Rightarrow> ((an\<lparr>staticLoopContexts := join outgoing loop # outer\<rparr>, snd st), False)))"

definition breakStep :: "analysis \<Rightarrow> analysis \<times> bool" where
  "breakStep = leaveLoop (\<lambda>outgoing loop. loop\<lparr>breakState := Some (joinInto (breakState loop) outgoing)\<rparr>)"

definition continueStep :: "analysis \<Rightarrow> analysis \<times> bool" where
  "continueStep = leaveLoop (\<lambda>outgoing loop. loop\<lparr>continueState := Some (joinInto (continueState loop) outgoing)\<rparr>)"

definition validateGoto :: "string \<Rightarrow> analysis \<Rightarrow> analysis \<times> bool" where
  "validateGoto label st =
     (case enqueueStaticGoto label (staticSafetyState (fst st)) [] (snd st) (fst st) of
        (an, contexts, found) \<Rightarrow> ((an, contexts), False))"

section \<open>Statements\<close>

definition storeTargets :: "(string \<times> size_t \<times> size_t) list \<Rightarrow> StaticSafetyAnalyzer \<Rightarrow> StaticSafetyAnalyzer" where
  "storeTargets = fold (\<lambda>(name, offset, len) an. fst (prepareStaticNamedStore name offset len an))"

definition stmtNodeStep :: "BuiltinSpecs \<Rightarrow> Validators \<Rightarrow> StmtNode \<Rightarrow> analysis \<Rightarrow> (analysis \<times> bool) option" where
  "stmtNodeStep specs v n st =
     (let each = foldOption (validateExpr v) in
      case n of
        LocalMemory d \<Rightarrow> Some (onAnalyzer (declareLocal d) st, True)
      | BindingRebind t eo \<Rightarrow>
          (case eo of
             None \<Rightarrow> Some (st, True)
           | Some e \<Rightarrow> continues (map_option (onAnalyzer (rebind t e)) (validateExpr v e st)))
      | CaptureView name eo \<Rightarrow>
          (case eo of
             None \<Rightarrow> Some (st, True)
           | Some e \<Rightarrow>
               let addressable = isAddressable (exprResult e) in
               continues (map_option (onAnalyzer (recordStaticViewCapture name e addressable))
                 (if addressable then validateFormation v e st else validateExpr v e st)))
      | StatementList ss \<Rightarrow> sequence v ss st
      | IntegerStore t e p \<Rightarrow> continues (map_option (onAnalyzer (storeInteger t e)) (validateExpr v e st))
      | FloatStore t e p \<Rightarrow> continues (map_option (onAnalyzer (storeKeyed t (\<lambda>k an. an))) (validateExpr v e st))
      | BoolStore t e \<Rightarrow> continues (map_option (onAnalyzer (storeBool t e)) (validateExpr v e st))
      | ViewCopyStore t e p \<Rightarrow> continues (map_option (onAnalyzer (storeView t e)) (validateExpr v e st))
      | StringStore t s \<Rightarrow> Some (onAnalyzer (storeKeyed t (\<lambda>k. setTermination k (Some True))) st, True)
      | StringCopyStore t eo src \<Rightarrow> continues (stringCopyStep v t eo src st)
      | PointerStore a len e \<Rightarrow>
          continues (map_option
            (onAnalyzer (\<lambda>an. invalidateStaticFactsOverlapping (staticAddressRange an a) (Some len) an))
            (each [a, e] (onAnalyzer (\<lambda>an. validateStaticMemoryAccess (staticAddressFact an a) len ''store'' an) st)))
      | CallStmt es d \<Rightarrow> continues (callStmtStep specs v es d st)
      | UserTemplateOpCall callee es l \<Rightarrow>
          continues (map_option (onAnalyzer invalidateStaticGlobalFacts) (validateStaticUserCallArguments v callee es st))
      | UserTemplateFormatCall callee e sink fo l \<Rightarrow>
          continues (map_option (onAnalyzer invalidateStaticGlobalFacts) (each (e # opt_list fo) st))
      | MultiReturnCallStore callee es ts \<Rightarrow>
          continues (map_option (onAnalyzer (\<lambda>an.
            storeTargets (map (\<lambda>t. (mr_bindingName t, 0, mr_byteLength t)) ts) (invalidateStaticGlobalFacts an))) (each es st))
      | InputCallStore callee fo fmt counts scans builtin \<Rightarrow>
          continues (do {
            st \<leftarrow> each (opt_list fo) st;
            st \<leftarrow> validateStaticCStringRead v fmt st;
            Some (onAnalyzer (storeTargets
              (map (\<lambda>t. (in_bindingName t, in_offset t, in_byteLength t)) (counts @ scans))) st)
          })
      | ReturnStmt es ps \<Rightarrow> map_option (\<lambda>st. (st, False)) (each es st)
      | IfStmt c t e \<Rightarrow> ifStep v c t e st
      | WhileStmt c body \<Rightarrow> whileStep v c body st
      | ForStmt init c post body \<Rightarrow> forStep v init c post body st
      | GotoStmt label \<Rightarrow> Some (validateGoto label st)
      | LabelStmt label s \<Rightarrow> validateStmt v s st
      | ThrowStmt so a b c d \<Rightarrow>
          (case so of
             None \<Rightarrow> Some (st, False)
           | Some s \<Rightarrow> map_option (\<lambda>r. (fst r, False)) (validateStmt v s st))
      | TryCatchStmt t a b c d catchBlock \<Rightarrow> tryStep v t catchBlock st
      | BreakStmt \<Rightarrow> Some (breakStep st)
      | ContinueStmt \<Rightarrow> Some (continueStep st))"

primrec stmtBase :: "Stmt \<Rightarrow> StmtBase" where
  "stmtBase (Stmt b n) = b"

primrec stmtNode :: "Stmt \<Rightarrow> StmtNode" where
  "stmtNode (Stmt b n) = n"

definition stmtStep :: "BuiltinSpecs \<Rightarrow> Validators \<Rightarrow> Stmt \<Rightarrow> analysis \<Rightarrow> (analysis \<times> bool) option" where
  "stmtStep specs v s = withRangeFlow (stmt_range (stmtBase s)) (stmtNodeStep specs v (stmtNode s))"

section \<open>Blocks\<close>

function collectLocalBindings :: "Stmt \<Rightarrow> string list" where
  "collectLocalBindings (Stmt b n) =
     (case n of
        StatementList ss \<Rightarrow> concat (map collectLocalBindings ss)
      | LocalMemory d \<Rightarrow> if local_storage d = LocalStorage then [local_bindingName d] else []
      | _ \<Rightarrow> [])"
  by pat_completeness auto
termination
  by (relation "measure size") (auto dest: size_list_member [of _ _ size])

definition blockLabels :: "Stmt list \<Rightarrow> (string, nat) fmap" where
  "blockLabels ss = fold (\<lambda>index m.
     (case ss ! index of Stmt b n \<Rightarrow>
        (case n of
           LabelStmt l s \<Rightarrow> if fmlookup m l = None then fmupd l index m else m
         | _ \<Rightarrow> m))) [0..<length ss] fmempty"

definition enqueueEntry :: "nat \<Rightarrow> StaticSafetyState \<Rightarrow> bool \<Rightarrow> StaticGotoContext \<Rightarrow> StaticGotoContext" where
  "enqueueEntry index incoming prioritizeFallthrough c =
     (case joinEntry (entryStates c ! index) incoming of
        None \<Rightarrow> c
      | Some e \<Rightarrow> c\<lparr>entryStates := (entryStates c)[index := Some e],
                     worklist := (if prioritizeFallthrough then index # worklist c else worklist c @ [index])\<rparr>)"

record BlockRun =
  run_analyzer :: StaticSafetyAnalyzer
  run_context :: StaticGotoContext
  run_outer :: "StaticGotoContext list"
  run_exit :: "StaticSafetyState option"

definition afterStatement :: "nat \<Rightarrow> nat \<Rightarrow> BlockRun \<Rightarrow> BlockRun" where
  "afterStatement count index run =
     (let outgoing = staticSafetyState (run_analyzer run) in
      if index + 1 < count then run\<lparr>run_context := enqueueEntry (index + 1) outgoing True (run_context run)\<rparr>
      else run\<lparr>run_exit := Some (joinInto (run_exit run) outgoing)\<rparr>)"

definition visitStatement :: "Validators \<Rightarrow> Stmt list \<Rightarrow> nat \<Rightarrow> nat list \<Rightarrow> BlockRun \<Rightarrow> BlockRun option" where
  "visitStatement v ss index rest run =
     (case entryStates (run_context run) ! index of
        None \<Rightarrow> Some run
      | Some entry \<Rightarrow> do {
          ((an, contexts), falls) \<leftarrow> validateStmt v (ss ! index)
            (restoreStaticSafetyState entry (run_analyzer run), (run_context run)\<lparr>worklist := rest\<rparr> # run_outer run);
          let run = run\<lparr>run_analyzer := an, run_context := hd contexts, run_outer := tl contexts\<rparr>;
          Some (if falls then afterStatement (length ss) index run else run)
        })"

fun blockLoop :: "nat \<Rightarrow> Validators \<Rightarrow> Stmt list \<Rightarrow> BlockRun \<Rightarrow> BlockRun option" where
  "blockLoop fuel v ss run =
     (case worklist (run_context run) of
        [] \<Rightarrow> Some run
      | index # rest \<Rightarrow>
          (case fuel of
             0 \<Rightarrow> None
           | Suc n \<Rightarrow> (case visitStatement v ss index rest run of None \<Rightarrow> None | Some run \<Rightarrow> blockLoop n v ss run)))"

declare blockLoop.simps [simp del]

definition startBlock :: "Stmt list \<Rightarrow> string list \<Rightarrow> analysis \<Rightarrow> BlockRun" where
  "startBlock ss locals st =
     (let c = \<lparr>labelIndexes = blockLabels ss, entryStates = replicate (length ss) None, worklist = [],
               ctx_localBindings = Some locals\<rparr>;
          c = (if ss \<noteq> [] then enqueueEntry 0 (staticSafetyState (fst st)) False c else c) in
      \<lparr>run_analyzer = fst st, run_context = c, run_outer = snd st, run_exit = None\<rparr>)"

definition finishBlock :: "string list \<Rightarrow> BlockRun \<Rightarrow> analysis \<times> bool" where
  "finishBlock locals run =
     (case run_exit run of
        None \<Rightarrow> ((run_analyzer run, run_outer run), False)
      | Some e \<Rightarrow>
          ((expireStaticLocalBindings locals (restoreStaticSafetyState e (run_analyzer run)), run_outer run), True))"

definition straightLine :: "Validators \<Rightarrow> Stmt list \<Rightarrow> string list \<Rightarrow> analysis \<Rightarrow> (analysis \<times> bool) option" where
  "straightLine v ss locals st =
     (let c = \<lparr>labelIndexes = fmempty, entryStates = [], worklist = [], ctx_localBindings = Some locals\<rparr> in do {
        ((an, contexts), falls) \<leftarrow> sequence v ss (fst st, c # snd st);
        Some ((if falls then expireStaticLocalBindings locals an else an, tl contexts), falls)
      })"

definition blockStep :: "nat \<Rightarrow> Validators \<Rightarrow> Block \<Rightarrow> analysis \<Rightarrow> (analysis \<times> bool) option" where
  "blockStep fuel v block =
     (case block of Block ss r \<Rightarrow>
        let locals = concat (map collectLocalBindings ss) in
        withRangeFlow r (\<lambda>st.
          if blockLabels ss = fmempty then straightLine v ss locals st
          else map_option (finishBlock locals) (blockLoop fuel v ss (startBlock ss locals st))))"

section \<open>The analysis\<close>

primrec validators :: "nat \<Rightarrow> BuiltinSpecs \<Rightarrow> Validators" where
  "validators 0 specs = \<lparr>validateExpr = \<lambda>e st. None, validateFormation = \<lambda>e st. None, validateStmt = \<lambda>s st. None,
     validateBlock = \<lambda>b st. None\<rparr>"
| "validators (Suc n) specs =
     (let v = validators n specs in
      \<lparr>validateExpr = exprStep specs v, validateFormation = formationStep v, validateStmt = stmtStep specs v,
       validateBlock = blockStep n v\<rparr>)"

definition recordCopies :: "Function \<Rightarrow> StaticSafetyAnalyzer \<Rightarrow> StaticSafetyAnalyzer" where
  "recordCopies f an =
     (if fn_usesViewAbi f then
        an\<lparr>staticViewParameterCopies := fmupd (fn_name f)
             ((case fmlookup (staticViewParameterCopies an) (fn_name f) of None \<Rightarrow> [] | Some cs \<Rightarrow> cs) @
              map param_viewIsCopy (fn_parameters f)) (staticViewParameterCopies an)\<rparr>
      else an)"

definition declareGlobal :: "GlobalMemory \<Rightarrow> StaticSafetyAnalyzer \<Rightarrow> StaticSafetyAnalyzer" where
  "declareGlobal g an =
     an\<lparr>staticDefinitionByteLengths := fmupd (global_bindingName g) (global_byteLength g) (staticDefinitionByteLengths an),
        staticGlobalBindings := List.insert (global_bindingName g) (staticGlobalBindings an)\<rparr>"

definition recordGlobalBindings :: "'v facts \<Rightarrow> StaticSafetyAnalyzer \<Rightarrow> StaticSafetyAnalyzer" where
  "recordGlobalBindings m an =
     an\<lparr>staticGlobalBindings := fold List.insert (sorted_list_of_fset (fmdom m)) (staticGlobalBindings an)\<rparr>"

definition enterFunction :: "StaticSafetyState \<Rightarrow> Function \<Rightarrow> StaticSafetyAnalyzer \<Rightarrow> StaticSafetyAnalyzer" where
  "enterFunction globalBaseline f an =
     (let an = restoreStaticSafetyState globalBaseline an;
          an = fold (\<lambda>name an. if name \<in> staticPotentiallyReboundBindings an then setBindingFact name None an else an)
                 (staticGlobalBindings an) an in
      fold (\<lambda>p an. an\<lparr>staticDefinitionByteLengths :=
              fmupd (param_bindingName p) (param_byteLength p) (staticDefinitionByteLengths an)\<rparr>) (fn_parameters f) an)"

definition validateUnit :: "nat \<Rightarrow> BuiltinSpecs \<Rightarrow> TranslationUnit \<Rightarrow> StaticSafetyAnalyzer \<Rightarrow> StaticSafetyAnalyzer option" where
  "validateUnit fuel specs unit an =
     (let v = validators fuel specs;
          walk = (\<lambda>b an. map_option (\<lambda>r. fst (fst r)) (validateBlock v b (an, [])));
          an = (resetStaticSafetyState an)\<lparr>staticPotentiallyReboundBindings := reboundBindings unit\<rparr>;
          an = fold declareGlobal (tu_globals unit) (fold recordCopies (tu_functions unit) an) in do {
        an \<leftarrow> (case tu_globalInit unit of None \<Rightarrow> Some an | Some b \<Rightarrow> walk b an);
        let globalBaseline = staticSafetyState an;
        let an = recordGlobalBindings (addressFacts globalBaseline)
                   (recordGlobalBindings (unsignedIntegerValues globalBaseline)
                     (recordGlobalBindings (integerValues globalBaseline) an));
        foldOption (\<lambda>f an. walk (fn_body f) (enterFunction globalBaseline f an)) (tu_functions unit) an
      })"

definition analyzeStaticSafety :: "nat \<Rightarrow> BuiltinSpecs \<Rightarrow> TranslationUnit \<Rightarrow> StaticSafetyOptions \<Rightarrow> Diagnostic list option" where
  "analyzeStaticSafety fuel specs unit options =
     (if opt_enabled options then map_option safetyDiagnostics (validateUnit fuel specs unit (newAnalyzer options))
      else Some [])"

end
