(* ===== verification/Safety_Frame.thy ===== *)
theory Safety_Frame
  imports Safety_Validate "HOL-Library.Sublist"
begin

text \<open>
  What every step of the static safety walk leaves alone.  The code keeps block contexts, loop contexts
  and the range for diagnostics in pointers that it sets and resets around recursive calls; the
  frame shows that each call returns with the contexts it was given and never drops a diagnostic.
\<close>

section \<open>The frame of the analyzer\<close>

definition frameOf :: "StaticSafetyAnalyzer \<Rightarrow> nat list \<times> SourceRange option \<times> StaticSafetyOptions \<times> (string, bool list) fmap \<times> string set" where
  "frameOf an = (map loop_exitScope (staticLoopContexts an), currentDiagnosticRange an, safetyOptions an,
     staticViewParameterCopies an, staticPotentiallyReboundBindings an)"

definition keptAn :: "StaticSafetyAnalyzer \<Rightarrow> StaticSafetyAnalyzer \<Rightarrow> bool" where
  "keptAn an an' \<longleftrightarrow> frameOf an' = frameOf an \<and> prefix (safetyDiagnostics an) (safetyDiagnostics an') \<and>
     set (staticGlobalBindings an) \<subseteq> set (staticGlobalBindings an')"

named_theorems kept \<open>steps that keep the frame\<close>

lemma keptAn_refl [kept, simp]: "keptAn an an"
  by (simp add: keptAn_def)

lemma keptAn_trans: "keptAn a b \<Longrightarrow> keptAn b c \<Longrightarrow> keptAn a c"
  by (auto simp: keptAn_def)

lemma keptAn_onState [kept]: "keptAn a b \<Longrightarrow> keptAn a (onState g b)"
  by (simp add: keptAn_def frameOf_def onState_def)

lemma keptAn_if [kept]: "keptAn a b \<Longrightarrow> keptAn a c \<Longrightarrow> keptAn a (if p then b else c)"
  by simp

lemma keptAn_fold: "(\<And>x an. x \<in> set xs \<Longrightarrow> keptAn an (f x an)) \<Longrightarrow> keptAn a b \<Longrightarrow> keptAn a (fold f xs b)"
proof (induction xs arbitrary: b)
  case (Cons x xs)
  have "keptAn a (f x b)" using Cons.prems(1) [of x b] Cons.prems(2) keptAn_trans by auto
  then show ?case using Cons.IH [of "f x b"] Cons.prems(1) by simp
qed simp

lemma keptAn_addDiagnostic [kept]: "keptAn a b \<Longrightarrow> keptAn a (addDiagnostic m b)"
  by (simp add: keptAn_def frameOf_def addDiagnostic_def prefix_order.trans [of _ "safetyDiagnostics b"])

lemma keptAn_addSafetyDiagnostic [kept]: "keptAn a b \<Longrightarrow> keptAn a (addSafetyDiagnostic m b)"
  by (simp add: addSafetyDiagnostic_def kept)

lemma keptAn_restore [kept]: "keptAn a b \<Longrightarrow> keptAn a (restoreStaticSafetyState s b)"
  by (simp add: keptAn_def frameOf_def restoreStaticSafetyState_def)

lemma keptAn_merge [kept]: "keptAn a b \<Longrightarrow> keptAn a (mergeStaticSafetyStates l r b)"
  by (simp add: mergeStaticSafetyStates_def kept)

lemma keptAn_binding [kept]: "keptAn a b \<Longrightarrow> keptAn a (invalidateStaticBinding k b)"
  by (simp add: invalidateStaticBinding_def kept)

lemma keptAn_expire [kept]: "keptAn a b \<Longrightarrow> keptAn a (expireStaticLocalBindings ks b)"
  by (simp add: expireStaticLocalBindings_def kept)

lemma keptAn_overlapping [kept]: "keptAn a b \<Longrightarrow> keptAn a (invalidateStaticFactsOverlapping r n b)"
  by (auto simp: invalidateStaticFactsOverlapping_def Let_def kept split: option.split)

lemma keptAn_global: "keptAn an (invalidateGlobal k an)"
  unfolding invalidateGlobal_def Let_def
  by (auto intro!: kept split: option.split)

lemma keptAn_globals [kept]: "keptAn a b \<Longrightarrow> keptAn a (invalidateStaticGlobalFacts b)"
  by (simp add: invalidateStaticGlobalFacts_def keptAn_fold keptAn_global)

lemma keptAn_setters [kept]:
  "keptAn a b \<Longrightarrow> keptAn a (setObjectState i s b)" "keptAn a b \<Longrightarrow> keptAn a (setAddressFact k f b)"
  "keptAn a b \<Longrightarrow> keptAn a (setInteger k w b)" "keptAn a b \<Longrightarrow> keptAn a (setUnsigned k w b)"
  "keptAn a b \<Longrightarrow> keptAn a (setTermination k t b)" "keptAn a b \<Longrightarrow> keptAn a (setBindingFact k f b)"
  "keptAn a b \<Longrightarrow> keptAn a (dropAddressFact k b)"
  by (simp_all add: setObjectState_def setAddressFact_def setInteger_def setUnsigned_def setTermination_def
      setBindingFact_def dropAddressFact_def kept)

section \<open>Checks and recorded facts\<close>

lemma keptAn_access [kept]: "keptAn a b \<Longrightarrow> keptAn a (validateStaticAddressAccess f op b)"
  by (auto simp: validateStaticAddressAccess_def kept split: option.split)

lemma keptAn_memory [kept]: "keptAn a b \<Longrightarrow> keptAn a (validateStaticMemoryAccess f n op b)"
  by (auto simp: validateStaticMemoryAccess_def Let_def kept split: option.split)

lemma keptAn_store [kept]: "keptAn a b \<Longrightarrow> keptAn a (fst (prepareStaticNamedStore k off n b))"
  by (simp add: prepareStaticNamedStore_def Let_def kept)

lemma keptAn_base [kept]: "keptAn a b \<Longrightarrow> keptAn a (validateStaticDynamicBase e op b)"
  by (auto simp: validateStaticDynamicBase_def kept split: option.split StaticDynamicObjectState.split)

lemma keptAn_release [kept]: "keptAn a b \<Longrightarrow> keptAn a (fst (releaseStaticDynamicObject e b))"
  by (auto simp: releaseStaticDynamicObject_def kept split: option.split)

lemma keptAn_object [kept]: "keptAn a b \<Longrightarrow> keptAn a (recordDynamicObject k n b)"
  by (simp add: recordDynamicObject_def Let_def kept)

lemma keptAn_realloc [kept]: "keptAn a b \<Longrightarrow> keptAn a (afterRealloc e n b)"
  by (auto simp: afterRealloc_def kept split: option.split)

lemma keptAn_assignment [kept]: "keptAn a b \<Longrightarrow> keptAn a (recordStaticAddressAssignment k e b)"
  by (cases "exprNode e") (simp_all add: recordStaticAddressAssignment_def kept)

lemma keptAn_captured:
  "keptAn a b \<Longrightarrow> keptAn a (b\<lparr>capturedRanges := r\<rparr>)" "keptAn a b \<Longrightarrow> keptAn a (b\<lparr>capturedAliases := s\<rparr>)"
  "keptAn a b \<Longrightarrow> keptAn a (b\<lparr>nextStaticCallCaptureId := i\<rparr>)"
  "keptAn a b \<Longrightarrow> keptAn a (b\<lparr>staticDefinitionByteLengths := d\<rparr>)"
  by (simp_all add: keptAn_def frameOf_def)

lemma keptAn_capture [kept]: "keptAn a b \<Longrightarrow> keptAn a (recordStaticViewCapture k e l b)"
  unfolding recordStaticViewCapture_def Let_def by (intro kept keptAn_captured)

lemma keptAn_uncapture: "keptAn an (releaseCapture e an)"
  by (cases "exprNode e") (simp_all add: releaseCapture_def kept keptAn_captured)

lemma keptAn_storeKeyed [kept]: "(\<And>k an. keptAn an (f k an)) \<Longrightarrow> keptAn a b \<Longrightarrow> keptAn a (storeKeyed t f b)"
  unfolding storeKeyed_def
  using keptAn_store [of a b "store_bindingName t" "store_offset t" "store_targetByteLength t"]
  by (auto split: prod.split option.split intro: keptAn_trans)

lemma keptAn_stores [kept]:
  "keptAn a b \<Longrightarrow> keptAn a (storeInteger t e b)" "keptAn a b \<Longrightarrow> keptAn a (storeBool t e b)"
  "keptAn a b \<Longrightarrow> keptAn a (storeView t e b)" "keptAn a b \<Longrightarrow> keptAn a (rebind t e b)"
  unfolding storeInteger_def storeBool_def storeView_def rebind_def Let_def by (intro kept; assumption?)+

lemma keptAn_declared:
  "keptAn a b \<Longrightarrow> keptAn a (b\<lparr>staticDefinitionByteLengths := d, staticGlobalBindings := List.insert k (staticGlobalBindings b)\<rparr>)"
  by (auto simp: keptAn_def frameOf_def)

lemma keptAn_local [kept]: "keptAn a b \<Longrightarrow> keptAn a (declareLocal d b)"
  by (cases "local_storage d") (auto simp: declareLocal_def Let_def intro!: kept keptAn_captured keptAn_declared)

lemma keptAn_targets [kept]: "keptAn a b \<Longrightarrow> keptAn a (storeTargets ts b)"
  unfolding storeTargets_def by (rule keptAn_fold) (auto intro: kept split: prod.split)

lemma keptAn_written [kept]: "keptAn a b \<Longrightarrow> keptAn a (forgetWritten f es b)"
  unfolding forgetWritten_def Let_def by (intro kept keptAn_fold; assumption?)

lemma keptAn_given [kept]: "keptAn a b \<Longrightarrow> keptAn a (releaseGiven f es b)"
  unfolding releaseGiven_def by (intro kept)

lemma keptAn_checks [kept]:
  "keptAn a b \<Longrightarrow> keptAn a (checkDeref e n b)" "keptAn a b \<Longrightarrow> keptAn a (checkOperands op e b)"
  "keptAn a b \<Longrightarrow> keptAn a (reportProductOverflow e e' c b)"
  by (auto simp: checkDeref_def checkOperands_def reportProductOverflow_def Let_def kept split: option.split)

lemma keptAn_transfer [kept]: "keptAn a b \<Longrightarrow> keptAn a (checkTransfer f c es b)"
  by (auto simp: checkTransfer_def Let_def kept split: option.split)

lemma keptAn_checkMemory [kept]: "keptAn a b \<Longrightarrow> keptAn a (checkMemory f c es b)"
  by (auto simp: checkMemory_def Let_def kept split: option.split)

lemma keptAn_checkAbs [kept]: "keptAn a b \<Longrightarrow> keptAn a (checkAbs n e b)"
  by (auto simp: checkAbs_def kept split: option.split)

lemma keptAn_arguments [kept]: "keptAn a b \<Longrightarrow> keptAn a (checkCallArguments d es b)"
  unfolding checkCallArguments_def Let_def by (intro kept)

lemma keptAn_exit: "keptAn an (fst (exitStaticScopes cs s an))"
proof (induction cs arbitrary: s an)
  case (Cons c cs)
  have "keptAn an (fst (exitStaticScopes (c # cs) s an))" if "keptAn an an'"
    "exitStaticScopes (c # cs) s an = exitStaticScopes cs (staticSafetyState an') an'" for an'
    using Cons [of an' "staticSafetyState an'"] that keptAn_trans by simp
  then show ?case by (simp add: Let_def kept split: option.split)
qed simp

section \<open>The frame of the walk\<close>

definition scopesOf :: "StaticGotoContext list \<Rightarrow> ((string, nat) fmap \<times> string list option \<times> nat) list" where
  "scopesOf cs = map (\<lambda>c. (labelIndexes c, ctx_localBindings c, length (entryStates c))) cs"

definition framed :: "analysis \<Rightarrow> analysis \<Rightarrow> bool" where
  "framed st st' \<longleftrightarrow> keptAn (fst st) (fst st') \<and> scopesOf (snd st') = scopesOf (snd st)"

text \<open>A step that stops or returns within the frame; \<open>p\<close> selects the state of what it returns.\<close>

definition within :: "('r \<Rightarrow> analysis) \<Rightarrow> analysis \<Rightarrow> 'r option \<Rightarrow> bool" where
  "within p st m \<longleftrightarrow> (\<forall>r. m = Some r \<longrightarrow> framed st (p r))"

definition keeping :: "Validators \<Rightarrow> bool" where
  "keeping v \<longleftrightarrow> (\<forall>e st. within id st (validateExpr v e st)) \<and> (\<forall>e st. within id st (validateFormation v e st)) \<and>
     (\<forall>s st. within fst st (validateStmt v s st)) \<and> (\<forall>b st. within fst st (validateBlock v b st))"

lemma framed_refl [simp]: "framed st st"
  by (simp add: framed_def)

lemma framed_trans: "framed a b \<Longrightarrow> framed b c \<Longrightarrow> framed a c"
  using keptAn_trans by (auto simp: framed_def)

lemma within_trans: "framed a b \<Longrightarrow> within p b m \<Longrightarrow> within p a m"
  using framed_trans by (auto simp: within_def)

lemma framed_onAnalyzer: "framed a b \<Longrightarrow> (\<And>an. keptAn an (f an)) \<Longrightarrow> framed a (onAnalyzer f b)"
  using keptAn_trans by (auto simp: framed_def onAnalyzer_def)

lemma within_Some [simp]: "within p st (Some r) = framed st (p r)"
  and within_None [simp]: "within p st None"
  by (simp_all add: within_def)

lemma within_map [simp]: "within p st (map_option f m) = within (\<lambda>r. p (f r)) st m"
  by (cases m) simp_all

lemma within_bind:
  "within q st m \<Longrightarrow> (\<And>r. framed st (q r) \<Longrightarrow> within p st (k r)) \<Longrightarrow> within p st (m \<bind> k)"
  by (cases m) simp_all

lemma within_mono: "within q st m \<Longrightarrow> (\<And>r. framed st (q r) \<Longrightarrow> framed st (p r)) \<Longrightarrow> within p st m"
  by (auto simp: within_def)

lemma within_fold:
  assumes "\<And>x s. x \<in> set xs \<Longrightarrow> framed st (p s) \<Longrightarrow> within p st (f x s)" and "framed st (p s)"
  shows "within p st (foldOption f xs s)"
  using assms
proof (induction xs arbitrary: s)
  case (Cons x xs)
  then have "within p st (f x s)" by simp
  with Cons show ?case by (cases "f x s") auto
qed simp

lemma within_range:
  assumes "\<And>st. within p st (f st)" and "\<And>g r. p (on g r) = g (p r)" and "framed st s"
  shows "within p st (inRange on r f s)"
proof -
  have "within p (enterRange r s) (f (enterRange r s))" by (rule assms)
  then have "within (\<lambda>z. setRange (currentDiagnosticRange (fst s)) (p z)) s (f (enterRange r s))"
    by (auto simp: within_def framed_def keptAn_def frameOf_def setRange_def enterRange_def onAnalyzer_def split: option.splits)
  then show ?thesis using within_trans [OF assms(3)] by (simp add: inRange_def assms(2))
qed

lemma within_calls:
  assumes "keeping v" and "framed st s"
  shows within_expr: "within id st (validateExpr v e s)" and within_form: "within id st (validateFormation v e s)"
    and within_stmt: "within fst st (validateStmt v t s)" and within_block: "within fst st (validateBlock v b s)"
  using assms unfolding keeping_def by (blast intro: within_trans)+

lemma within_exprs: "keeping v \<Longrightarrow> framed st s \<Longrightarrow> within id st (foldOption (validateExpr v) es s)"
  by (rule within_fold) (auto intro: within_expr)

lemma within_cstring: "keeping v \<Longrightarrow> framed st s \<Longrightarrow> within id st (validateStaticCStringRead v e s)"
  unfolding validateStaticCStringRead_def
  by (rule within_bind, erule (1) within_form)
    (auto simp: Let_def accessView_def intro!: framed_onAnalyzer kept)

lemma within_access: "keeping v \<Longrightarrow> framed st s \<Longrightarrow> within id st (formAndAccess v e n op s)"
  unfolding formAndAccess_def
  by (auto simp: accessView_def intro!: within_mono [OF within_form] framed_onAnalyzer kept)

lemma within_opt_expr: "keeping v \<Longrightarrow> framed st s \<Longrightarrow>
    within id st (case eo of None \<Rightarrow> Some s | Some e \<Rightarrow> validateExpr v e s)"
  by (cases eo) (simp_all add: within_expr)

lemma within_resize: "keeping v \<Longrightarrow> framed st s \<Longrightarrow> within id st (validateStaticResizeCopy v b e eo s)"
  unfolding validateStaticResizeCopy_def Let_def
  by (rule within_range)
    (auto intro!: within_bind [OF within_form] within_bind [OF within_opt_expr] framed_onAnalyzer kept split: option.split)

lemma within_formation: "keeping v \<Longrightarrow> within id st (formationStep v e st)"
proof (cases e)
  case (Expr b n)
  then show "keeping v \<Longrightarrow> ?thesis"
    by (cases n) (auto simp: formationStep_def within_expr within_form within_resize
        intro!: within_bind [OF within_form] within_opt_expr)
qed

lemma framed_capture: "framed st s \<Longrightarrow> framed st (snd (captureStaticEvaluatedArgument e l r s))"
  unfolding captureStaticEvaluatedArgument_def Let_def
  by (auto simp: framed_def intro: kept keptAn_captured)

lemma framed_releases: "framed st s \<Longrightarrow> framed st (releaseStaticCallArguments es s)"
  unfolding releaseStaticCallArguments_def by (intro framed_onAnalyzer keptAn_fold keptAn_uncapture keptAn_refl)

lemma within_argument: "keeping v \<Longrightarrow> framed st s \<Longrightarrow>
    within id st (validateStaticCallArgument specs v f o' ks i e s)"
  unfolding validateStaticCallArgument_def
  by (auto simp: accessView_def intro!: within_mono [OF within_form] framed_onAnalyzer kept within_cstring within_expr)

lemma within_prepare1: "keeping v \<Longrightarrow> framed st (snd cs) \<Longrightarrow>
    within snd st (prepareArgument specs v f o' ks es i cs)"
  unfolding prepareArgument_def Let_def
proof (rule within_range, goal_cases)
  case (1 s)
  have form: "within id s (if p then validateFormation v (es ! i) s
      else validateStaticCallArgument specs v f o' ks i (es ! i) s)" for p
    using 1(1) by (simp add: within_form within_argument)
  show ?case by (rule within_bind [OF form])
      (simp add: case_prod_beta framed_capture)
qed simp_all

lemma within_prepare: "keeping v \<Longrightarrow> framed st s \<Longrightarrow>
    within snd st (prepareStaticCallArguments specs v f o' ks es s)"
  unfolding prepareStaticCallArguments_def by (rule within_fold) (simp_all add: within_prepare1)

lemma within_userArgument: "keeping v \<Longrightarrow> framed st (snd rs) \<Longrightarrow> within snd st (userArgument v c es i rs)"
  unfolding userArgument_def Let_def
  by (auto intro!: within_bind [OF within_form] simp: within_expr [unfolded id_def])

lemma within_user: "keeping v \<Longrightarrow> framed st s \<Longrightarrow> within id st (validateStaticUserCallArguments v c es s)"
  unfolding validateStaticUserCallArguments_def
proof (rule within_bind [of snd], goal_cases)
  case 1
  then show ?case by (intro within_fold) (simp_all add: within_userArgument)
next
  case (2 r)
  then show ?case by (cases r) (auto intro!: framed_onAnalyzer keptAn_fold kept)
qed

lemma within_operand: "keeping v \<Longrightarrow> framed st s \<Longrightarrow> within id st (validateMemoryOperand v f n es i s)"
  unfolding validateMemoryOperand_def Let_def
  by (rule within_bind [of id])
    (auto simp: within_expr within_form intro!: framed_onAnalyzer kept split: option.split)

lemma within_operands: "keeping v \<Longrightarrow> framed st s \<Longrightarrow> within snd st (validateStaticMemoryOperands v f es s)"
  unfolding validateStaticMemoryOperands_def Let_def case_prod_beta within_map snd_conv
  by (rule within_fold [of _ st "\<lambda>r. r", simplified]) (simp_all add: within_operand [unfolded id_def])

lemma within_validateOperands: "keeping v \<Longrightarrow> framed st s \<Longrightarrow>
    within id st (validateOperands specs v f o' ks es s)"
  unfolding validateOperands_def
proof (rule within_bind [OF within_operands], assumption, assumption, goal_cases)
  case (1 r)
  then show ?case by (cases r) (auto intro!: within_fold within_argument)
qed

lemma within_callStmt: "keeping v \<Longrightarrow> framed st s \<Longrightarrow> within id st (callStmtStep specs v es d s)"
  unfolding callStmtStep_def Let_def
proof (rule within_bind [OF within_prepare], assumption, assumption, goal_cases)
  case (1 r)
  then show ?case
    by (cases r) (auto intro!: within_bind [OF within_validateOperands] framed_releases framed_onAnalyzer kept)
qed

lemma within_callExpr: "keeping v \<Longrightarrow> framed st s \<Longrightarrow> within id st (callExprStep specs v es d s)"
proof (cases "call_builtin d = BLength")
  case True
  then show "keeping v \<Longrightarrow> framed st s \<Longrightarrow> ?thesis"
    by (auto simp: callExprStep_def Let_def intro!: within_fold within_form)
next
  case False
  show "keeping v \<Longrightarrow> framed st s \<Longrightarrow> ?thesis"
    unfolding callExprStep_def Let_def if_not_P [OF False]
  proof (rule within_bind [OF within_prepare], assumption, assumption, goal_cases)
    case (1 r)
    then show ?case
      by (cases r) (auto intro!: within_bind [OF within_validateOperands] framed_releases framed_onAnalyzer kept)
  qed
qed

lemma within_logical: "keeping v \<Longrightarrow> framed st s \<Longrightarrow> within id st (logicalStep v op x y s)"
  unfolding logicalStep_def
  by (rule within_bind [OF within_expr])
    (auto simp: Let_def within_expr intro!: within_mono [OF within_expr] framed_onAnalyzer kept split: option.split)

lemma within_compare: "keeping v \<Longrightarrow> framed st s \<Longrightarrow> within id st (stringCompareStep v x y s)"
  unfolding stringCompareStep_def case_prod_beta Let_def
  by (intro within_bind [OF within_form] within_bind [OF within_cstring] framed_capture)
    (simp_all add: framed_releases)

lemma within_binary: "keeping v \<Longrightarrow> framed st s \<Longrightarrow> within id st (binaryStep v x y d s)"
  unfolding binaryStep_def
  by (auto simp: within_logical within_compare intro!: within_bind [OF within_expr] within_expr framed_onAnalyzer kept
      split: option.split)

lemma within_ternary: "keeping v \<Longrightarrow> framed st s \<Longrightarrow> within id st (ternaryStep v c x y s)"
  unfolding ternaryStep_def
  by (rule within_bind [OF within_expr])
    (auto simp: Let_def within_expr intro!: within_bind [OF within_expr] framed_onAnalyzer kept split: option.split)

lemma within_exprNode: "keeping v \<Longrightarrow> within id st (exprNodeStep specs v b n st)"
proof (cases n)
  case (AssignmentExpr ss ro l)
  have stores: "keeping v \<Longrightarrow> within id st (foldOption (\<lambda>s st. map_option fst (validateStmt v s st)) ss st)"
    by (rule within_fold) (auto simp: within_stmt)
  show "keeping v \<Longrightarrow> ?thesis" unfolding AssignmentExpr exprNodeStep_def
    by (auto intro!: within_bind [OF stores] within_access within_expr split: option.split)
qed (auto simp: exprNodeStep_def Let_def within_expr within_exprs within_binary within_ternary within_access within_callExpr
    within_resize intro!: framed_onAnalyzer kept within_mono [OF within_user] within_mono [OF within_exprs]
    within_expr within_exprs simp del: foldOption.simps split: option.split)

lemma within_exprStep: "keeping v \<Longrightarrow> within id st (exprStep specs v e st)"
  unfolding exprStep_def by (rule within_range) (simp_all add: within_exprNode)

lemma within_flow [simp]: "within fst st (continues m) = within id st m"
  by (simp add: continues_def) (simp add: within_def)

lemma within_stringCopy: "keeping v \<Longrightarrow> framed st s \<Longrightarrow> within id st (stringCopyStep v t eo src s)"
  unfolding stringCopyStep_def
  by (rule within_bind [of id])
    (auto simp: accessView_def within_cstring intro!: within_mono [OF within_form] framed_onAnalyzer kept split: option.split)

lemma framed_join: "framed st s \<Longrightarrow> framed st (fst (joinBranches a b s))"
  by (auto simp: joinBranches_def intro!: framed_onAnalyzer kept)

lemma within_opt_block: "keeping v \<Longrightarrow> framed st s \<Longrightarrow>
    within fst st (case bo of Some b \<Rightarrow> validateBlock v b s | None \<Rightarrow> Some (s, True))"
  by (cases bo) (simp_all add: within_block)

lemma within_if: "keeping v \<Longrightarrow> framed st s \<Longrightarrow> within fst st (ifStep v c t e s)"
  unfolding ifStep_def
  by (rule within_bind [OF within_expr])
    (auto simp: Let_def within_block case_prod_beta intro!: within_bind [OF within_block] within_bind [OF within_opt_block]
      framed_join framed_onAnalyzer kept within_opt_block split: option.split bool.split)

lemma within_sequence: "keeping v \<Longrightarrow> framed st s \<Longrightarrow> within fst st (sequence v ss s)"
proof (induction ss arbitrary: s)
  case (Cons t ss)
  from within_stmt [OF Cons.prems, of t] show ?case
    using Cons.IH Cons.prems(1) by (cases "validateStmt v t s") (auto split: prod.split)
qed simp

lemma framed_loops:
  assumes "framed (onAnalyzer (\<lambda>an. an\<lparr>staticLoopContexts := l # staticLoopContexts (fst s)\<rparr>) s) s'"
  shows "framed s (onAnalyzer (\<lambda>an. restoreStaticSafetyState e (an\<lparr>staticLoopContexts := tl (staticLoopContexts an)\<rparr>)) s')"
  using assms
  by (auto simp: framed_def onAnalyzer_def keptAn_def frameOf_def restoreStaticSafetyState_def map_tl)

lemma within_while: "keeping v \<Longrightarrow> framed st s \<Longrightarrow> within fst st (whileStep v c b s)"
  unfolding whileStep_def
proof (rule within_bind [OF within_expr], assumption, assumption, goal_cases)
  case (1 s)
  let ?l = "\<lparr>loop_exitScope = length (snd s), breakState = None, continueState = None\<rparr>"
  let ?in = "onAnalyzer (\<lambda>an. an\<lparr>staticLoopContexts := ?l # staticLoopContexts (fst s)\<rparr>) s"
  have "within fst ?in (validateBlock v b ?in)" using 1(1) by (simp add: within_block)
  then have body: "within (\<lambda>r. onAnalyzer (\<lambda>an. restoreStaticSafetyState e (an\<lparr>staticLoopContexts := tl (staticLoopContexts an)\<rparr>)) (fst r))
      st (validateBlock v b ?in)" for e
    using framed_trans [OF 1(3) [unfolded id_def] framed_loops] unfolding within_def by blast
  have restore: "framed st z \<Longrightarrow> framed st (case x of Some y \<Rightarrow> onAnalyzer (restoreStaticSafetyState y) z | None \<Rightarrow> z)" for x z
    by (auto intro!: framed_onAnalyzer kept split: option.split)
  show ?case
  proof (cases "staticBooleanValue (fst s) c = Some False")
    case False
    show ?thesis unfolding Let_def if_not_P [OF False] case_prod_beta
      by (rule within_bind [OF body [of "staticSafetyState (fst s)"]]) (simp add: restore)
  qed (use 1(3) in simp)
qed

lemma within_for: "keeping v \<Longrightarrow> framed st s \<Longrightarrow> within fst st (forStep v i c p b s)"
  unfolding forStep_def case_prod_beta Let_def
  by (rule within_bind [OF within_sequence])
    (auto intro!: within_bind [OF within_exprs] within_bind [OF within_block] within_bind [of fst] within_sequence within_block
      framed_onAnalyzer kept simp del: foldOption.simps)

lemma within_try: "keeping v \<Longrightarrow> framed st s \<Longrightarrow> within fst st (tryStep v t c s)"
  unfolding tryStep_def case_prod_beta Let_def
  by (auto intro!: within_bind [OF within_block] framed_join framed_onAnalyzer kept)

lemma framed_leave:
  assumes "\<And>o' l. loop_exitScope (join o' l) = loop_exitScope l"
  shows "framed st (fst (leaveLoop join st))"
proof (cases "staticLoopContexts (fst st)")
  case (Cons l ls)
  let ?cs = "take (length (snd st) - loop_exitScope l) (snd st)"
  have "keptAn (fst st) (fst (exitStaticScopes ?cs (staticSafetyState (fst st)) (fst st)))" by (rule keptAn_exit)
  then show ?thesis using Cons assms
    by (auto simp: leaveLoop_def framed_def keptAn_def frameOf_def split: prod.split)
qed (simp add: leaveLoop_def)

lemma enqueue_keeps:
  "keptAn an (fst (enqueueStaticGoto l s ex cs an)) \<and>
   scopesOf (fst (snd (enqueueStaticGoto l s ex cs an))) = scopesOf (ex @ cs)"
proof (induction cs arbitrary: ex)
  case (Cons c cs)
  then show ?case using keptAn_exit [of an ex s]
    by (auto simp: scopesOf_def split: option.split prod.split)
qed simp

lemma framed_goto: "framed st (fst (validateGoto l st))"
  using enqueue_keeps [of "fst st" l "staticSafetyState (fst st)" "[]" "snd st"]
  by (auto simp: validateGoto_def framed_def split: prod.splits)

lemma within_stmtNode: "keeping v \<Longrightarrow> within fst st (stmtNodeStep specs v n st)"
proof (cases n)
  case (InputCallStore c fo fmt counts scans f)
  show "keeping v \<Longrightarrow> ?thesis" unfolding InputCallStore stmtNodeStep_def Let_def StmtNode.case within_flow
    by (auto intro!: within_bind [OF within_exprs] within_bind [OF within_cstring] framed_onAnalyzer kept
        simp del: foldOption.simps)
next
  case (ThrowStmt so a b c d)
  show "keeping v \<Longrightarrow> ?thesis" unfolding ThrowStmt stmtNodeStep_def Let_def StmtNode.case
    by (auto simp: within_stmt split: option.split)
qed (auto simp: stmtNodeStep_def Let_def breakStep_def continueStep_def within_sequence within_stringCopy within_callStmt within_if
    within_while within_for within_try within_stmt within_exprs [unfolded id_def]
    intro!: framed_onAnalyzer kept within_mono [OF within_expr] within_mono [OF within_form] within_mono [OF within_user]
    within_mono [OF within_exprs] framed_leave framed_goto simp del: foldOption.simps split: option.split)

lemma within_stmtStep: "keeping v \<Longrightarrow> within fst st (stmtStep specs v s st)"
  unfolding stmtStep_def by (rule within_range) (simp_all add: within_stmtNode)

lemma scopes_enqueue [simp]: "scopesOf (enqueueEntry i s f c # cs) = scopesOf (c # cs)"
  by (auto simp: scopesOf_def enqueueEntry_def split: option.split)

lemma visit_keeps:
  assumes "keeping v" and "visitStatement v ss i rest run = Some run'"
  shows "framed (run_analyzer run, run_context run # run_outer run) (run_analyzer run', run_context run' # run_outer run')"
proof (cases "entryStates (run_context run) ! i")
  case None
  then show ?thesis using assms(2) by (simp add: visitStatement_def)
next
  case (Some e)
  let ?st = "(restoreStaticSafetyState e (run_analyzer run), (run_context run)\<lparr>worklist := rest\<rparr> # run_outer run)"
  obtain an cs f where r: "validateStmt v (ss ! i) ?st = Some ((an, cs), f)"
    and run': "run' = (let run = run\<lparr>run_analyzer := an, run_context := hd cs, run_outer := tl cs\<rparr> in
        if f then afterStatement (length ss) i run else run)"
    using assms(2) Some by (auto simp: visitStatement_def bind_eq_Some_conv Let_def split: prod.splits)
  have "framed (run_analyzer run, run_context run # run_outer run) ?st"
    by (auto simp: framed_def scopesOf_def kept)
  moreover have "framed ?st (an, cs)" using within_stmt [OF assms(1) framed_refl, of ?st "ss ! i"] r by simp
  ultimately have f: "framed (run_analyzer run, run_context run # run_outer run) (an, cs)" by (rule framed_trans)
  then have "cs \<noteq> []" by (auto simp: framed_def scopesOf_def)
  then show ?thesis using f
    by (auto simp: run' afterStatement_def Let_def framed_def)
qed

lemma loop_keeps:
  assumes "keeping v"
  shows "blockLoop fuel v ss run = Some run' \<Longrightarrow>
    framed (run_analyzer run, run_context run # run_outer run) (run_analyzer run', run_context run' # run_outer run')"
proof (induction fuel arbitrary: run)
  case 0
  then show ?case by (auto simp: blockLoop.simps split: list.splits)
next
  case (Suc fuel)
  show ?case
  proof (cases "worklist (run_context run)")
    case Nil
    then show ?thesis using Suc.prems by (simp add: blockLoop.simps)
  next
    case (Cons i rest)
    then obtain nxt where "visitStatement v ss i rest run = Some nxt" "blockLoop fuel v ss nxt = Some run'"
      using Suc.prems by (auto simp: blockLoop.simps [of "Suc fuel"] split: option.splits)
    then show ?thesis using visit_keeps [OF assms] Suc.IH framed_trans by blast
  qed
qed

lemma within_blockStep:
  assumes "keeping v"
  shows "within fst st (blockStep fuel v b st)"
proof (cases b)
  case (Block ss r)
  let ?locals = "concat (map collectLocalBindings ss)"
  have "within fst st (straightLine v ss ?locals st)" for st
  proof -
    let ?c = "\<lparr>labelIndexes = fmempty, entryStates = [], worklist = [], ctx_localBindings = Some ?locals\<rparr>"
    have "within fst (fst st, ?c # snd st) (sequence v ss (fst st, ?c # snd st))"
      using assms by (simp add: within_sequence)
    then show ?thesis
      by (auto simp: straightLine_def Let_def within_def framed_def scopesOf_def bind_eq_Some_conv map_tl
          intro!: keptAn_expire split: prod.splits)
  qed
  moreover have "within fst st (map_option (finishBlock ?locals) (blockLoop fuel v ss (startBlock ss ?locals st)))" for st
    using loop_keeps [OF assms, of fuel ss "startBlock ss ?locals st"]
    by (auto simp: within_def finishBlock_def startBlock_def Let_def framed_def scopesOf_def intro!: kept split: option.splits)
  ultimately show ?thesis unfolding blockStep_def Block Let_def Block.case
    by (intro within_range) simp_all
qed

lemma keeping_validators: "keeping (validators n specs)"
proof (induction n)
  case (Suc n)
  then show ?case
    using within_exprStep within_formation within_stmtStep within_blockStep by (auto simp: keeping_def Let_def)
qed (simp add: keeping_def)

lemma block_framed:
  assumes "validateBlock (validators fuel specs) b (an, contexts) = Some ((an', contexts'), falls)"
  shows "map labelIndexes contexts' = map labelIndexes contexts" "map ctx_localBindings contexts' = map ctx_localBindings contexts"
    "keptAn an an'"
proof -
  have "within fst (an, contexts) (validateBlock (validators fuel specs) b (an, contexts))"
    by (rule within_block [OF keeping_validators framed_refl])
  with assms have "framed (an, contexts) (an', contexts')" by simp
  then have f: "keptAn an an'" and scopes: "scopesOf contexts' = scopesOf contexts" by (simp_all add: framed_def)
  from f show "keptAn an an'" .
  show "map labelIndexes contexts' = map labelIndexes contexts"
    using arg_cong [OF scopes, of "map fst"] by (simp add: scopesOf_def comp_def)
  show "map ctx_localBindings contexts' = map ctx_localBindings contexts"
    using arg_cong [OF scopes, of "map (\<lambda>x. fst (snd x))"] by (simp add: scopesOf_def comp_def)
qed

definition plainStmt :: "StmtNode \<Rightarrow> Stmt" where
  "plainStmt n = Stmt \<lparr>stmt_range = None, staticInitializationBinding = []\<rparr> n"

definition noSpecs :: BuiltinSpecs where
  "noSpecs = \<lparr>specParameters = \<lambda>_. None, specOverloadModes = \<lambda>_. []\<rparr>"

end
