(* ===== verification/Safety_Block.thy ===== *)
theory Safety_Block
  imports Safety_Join Safety_Frame
begin

text \<open>
  The iteration of a block with labels.  A block is a control-flow graph whose entry states are joined
  with a worklist (\<open>validateSafety(const hir::Block &)\<close> of \<open>src/safety/StaticSafetyValidation.cpp\<close>).
  Between allocations an entry point is revisited only as often as it has facts to lose; a loop that
  allocates is iterated forever.
\<close>

section \<open>How often an entry point is visited\<close>

text \<open>The number of edges out of a sequence that put an entry point back on the worklist.\<close>

fun revisits :: "StaticSafetyState \<Rightarrow> StaticSafetyState list \<Rightarrow> nat" where
  "revisits e [] = 0"
| "revisits e (i # is) =
     (case joinEntry (Some e) i of None \<Rightarrow> revisits e is | Some e' \<Rightarrow> Suc (revisits e' is))"

text \<open>
  C18. Iteration settles while no object is allocated: whatever states arrive along the edges into an
  entry point, if they name a fixed finite set of bindings and their allocation counters do not
  exceed that of the entry, the entry point is put back on the worklist at most as often as it has
  facts to lose.
\<close>

theorem revisits_bounded:
  assumes "withinNames U e"
    and "list_all (\<lambda>i. withinNames U i \<and> nextDynamicObjectId i \<le> nextDynamicObjectId e) is"
  shows "revisits e is \<le> knownFacts U e"
  using assms
proof (induction "is" arbitrary: e)
  case (Cons i "is")
  show ?case
  proof (cases "joinEntry (Some e) i")
    case None
    with Cons show ?thesis by simp
  next
    case (Some e')
    with joinEntry_progress [of U e i e'] Cons.prems
    have "knownFacts U e' < knownFacts U e" "withinNames U e'" "nextDynamicObjectId e' = nextDynamicObjectId e"
      by auto
    with Cons.IH [of e'] Cons.prems(2) Some show ?thesis by simp
  qed
qed simp

theorem revisits_bounded_witness:
  "revisits knowsZero [emptySafetyState, knowsZero] \<le> knownFacts {} knowsZero"
  by (rule revisits_bounded) (simp_all add: withinNames_def knowsZero_def emptySafetyState_def)

lemma joinEntry_grows:
  assumes "nextDynamicObjectId e < nextDynamicObjectId i"
  shows "joinEntry (Some e) i = Some (mergedStaticSafetyStates e i)"
    and "nextDynamicObjectId (mergedStaticSafetyStates e i) = nextDynamicObjectId i"
proof -
  show n: "nextDynamicObjectId (mergedStaticSafetyStates e i) = nextDynamicObjectId i"
    using assms by (simp add: mergedStaticSafetyStates_def max.absorb2)
  then have "mergedStaticSafetyStates e i \<noteq> e" using assms by auto
  then show "joinEntry (Some e) i = Some (mergedStaticSafetyStates e i)"
    by (simp add: joinEntry_def Let_def)
qed

section \<open>A loop that allocates\<close>

text \<open>A labelled statement that either stops the walk or counts one allocation.\<close>

definition allocates :: "Validators \<Rightarrow> Stmt \<Rightarrow> bool" where
  "allocates v s \<longleftrightarrow> (\<forall>st. validateStmt v s st = None \<or> (\<exists>an'. validateStmt v s st = Some ((an', snd st), True) \<and>
     nextDynamicObjectId (current an') = nextDynamicObjectId (current (fst st)) + 1))"

definition jumps :: "Validators \<Rightarrow> Stmt \<Rightarrow> string \<Rightarrow> bool" where
  "jumps v s label \<longleftrightarrow> (\<forall>st. validateStmt v s st = None \<or> validateStmt v s st = Some (validateGoto label st))"

definition atLabel :: "string \<Rightarrow> size_t \<Rightarrow> BlockRun \<Rightarrow> bool" where
  "atLabel label n run \<longleftrightarrow>
     fmlookup (labelIndexes (run_context run)) label = Some 0 \<and> length (entryStates (run_context run)) = 2 \<and>
     worklist (run_context run) = [0] \<and> nextDynamicObjectId (current (run_analyzer run)) = n \<and>
     (\<exists>e. entryStates (run_context run) ! 0 = Some e \<and> nextDynamicObjectId e \<le> n) \<and>
     (\<forall>e. entryStates (run_context run) ! 1 = Some e \<longrightarrow> nextDynamicObjectId e \<le> n)"

definition atJump :: "string \<Rightarrow> size_t \<Rightarrow> BlockRun \<Rightarrow> bool" where
  "atJump label n run \<longleftrightarrow>
     fmlookup (labelIndexes (run_context run)) label = Some 0 \<and> length (entryStates (run_context run)) = 2 \<and>
     worklist (run_context run) = [1] \<and> nextDynamicObjectId (current (run_analyzer run)) = n \<and>
     (\<exists>e. entryStates (run_context run) ! 0 = Some e \<and> nextDynamicObjectId e < n) \<and>
     (\<exists>e. entryStates (run_context run) ! 1 = Some e \<and> nextDynamicObjectId e = n)"

lemma restore_next [simp]:
  "nextDynamicObjectId (current (restoreStaticSafetyState e an)) =
     max (nextDynamicObjectId (current an)) (nextDynamicObjectId e)"
  by (simp add: restoreStaticSafetyState_def)

lemma visit_label:
  assumes "atLabel label n run" and "allocates v s" and "n < n + 1"
  shows "visitStatement v [s, t] 0 [] run = None \<or>
    (\<exists>run'. visitStatement v [s, t] 0 [] run = Some run' \<and> atJump label (n + 1) run')"
proof -
  let ?c = "run_context run"
  obtain e where e: "entryStates ?c ! 0 = Some e" "nextDynamicObjectId e \<le> n"
    using assms(1) by (auto simp: atLabel_def)
  let ?st = "(restoreStaticSafetyState e (run_analyzer run), ?c\<lparr>worklist := []\<rparr> # run_outer run)"
  show ?thesis
  proof (cases "validateStmt v s ?st")
    case None
    then show ?thesis using e by (simp add: visitStatement_def)
  next
    case (Some r)
    then obtain an' where v: "validateStmt v s ?st = Some ((an', snd ?st), True)"
      and n': "nextDynamicObjectId (current an') = n + 1"
      using assms(1,2) e(2) unfolding allocates_def atLabel_def by (metis fst_conv max.orderE option.distinct(1) restore_next)
    have "joinEntry (entryStates ?c ! 1) (current an') = Some (case entryStates ?c ! 1 of
        None \<Rightarrow> current an' | Some d \<Rightarrow> mergedStaticSafetyStates d (current an'))"
      and "nextDynamicObjectId (case entryStates ?c ! 1 of
        None \<Rightarrow> current an' | Some d \<Rightarrow> mergedStaticSafetyStates d (current an')) = n + 1"
      using joinEntry_grows n' assms(1,3) by (auto simp: atLabel_def joinEntry_def split: option.split)
    with assms e v n' show ?thesis
      by (auto simp: visitStatement_def afterStatement_def enqueueEntry_def atJump_def atLabel_def staticSafetyState_def
          Let_def)
  qed
qed

lemma visit_jump:
  assumes "atJump label n run" and "jumps v t label"
  shows "visitStatement v [s, t] 1 [] run = None \<or>
    (\<exists>run'. visitStatement v [s, t] 1 [] run = Some run' \<and> atLabel label n run')"
proof -
  let ?c = "run_context run"
  obtain e d where e: "entryStates ?c ! 0 = Some e" "nextDynamicObjectId e < n"
    and d: "entryStates ?c ! 1 = Some d" "nextDynamicObjectId d = n"
    using assms(1) by (auto simp: atJump_def)
  let ?an = "restoreStaticSafetyState d (run_analyzer run)"
  let ?st = "(?an, ?c\<lparr>worklist := []\<rparr> # run_outer run)"
  have n: "nextDynamicObjectId (current ?an) = n" using assms(1) d by (simp add: atJump_def)
  then have "nextDynamicObjectId e < nextDynamicObjectId (current ?an)" using e(2) by simp
  note grow = joinEntry_grows [OF this]
  from assms(2) consider "validateStmt v t ?st = None" | "validateStmt v t ?st = Some (validateGoto label ?st)"
    unfolding jumps_def by metis
  then show ?thesis
  proof cases
    case 1
    then show ?thesis using d by (simp add: visitStatement_def)
  next
    case 2
    then show ?thesis using assms(1) e d n grow
      by (auto simp: visitStatement_def validateGoto_def staticSafetyState_def atLabel_def atJump_def Let_def)
  qed
qed

lemma unat_step:
  fixes n :: size_t
  assumes "unat n + Suc k < 2 ^ 64"
  shows "n < n + 1" and "unat (n + 1) + k < 2 ^ 64"
  using assms by (simp_all add: word_less_nat_alt unat_word_ariths)

lemma loop_runs_on:
  assumes "allocates v s" and "jumps v t label"
  shows "atLabel label n run \<or> atJump label n run \<Longrightarrow> unat n + fuel < 2 ^ 64 \<Longrightarrow> blockLoop fuel v [s, t] run = None"
proof (induction fuel arbitrary: n run)
  case 0
  then show ?case by (auto simp: blockLoop.simps atLabel_def atJump_def)
next
  case (Suc fuel)
  from Suc.prems(1) show ?case
  proof
    assume l: "atLabel label n run"
    then have "blockLoop (Suc fuel) v [s, t] run =
        (case visitStatement v [s, t] 0 [] run of None \<Rightarrow> None | Some run \<Rightarrow> blockLoop fuel v [s, t] run)"
      by (simp add: blockLoop.simps [of "Suc fuel"] atLabel_def)
    then show ?thesis
      using Suc.IH [of "n + 1"] visit_label [OF l assms(1), of t] unat_step [OF Suc.prems(2)] by auto
  next
    assume j: "atJump label n run"
    then have "blockLoop (Suc fuel) v [s, t] run =
        (case visitStatement v [s, t] 1 [] run of None \<Rightarrow> None | Some run \<Rightarrow> blockLoop fuel v [s, t] run)"
      by (simp add: blockLoop.simps [of "Suc fuel"] atJump_def)
    then show ?thesis using Suc.IH [of n] visit_jump [OF j assms(2), of s] Suc.prems(2) by auto
  qed
qed

section \<open>The allocation counter\<close>

definition nextId :: "StaticSafetyAnalyzer \<Rightarrow> size_t" where
  "nextId an = nextDynamicObjectId (current an)"

named_theorems counter \<open>operations that do not touch the allocation counter\<close>

lemma nextId_onState: "(\<And>s. nextDynamicObjectId (g s) = nextDynamicObjectId s) \<Longrightarrow> nextId (onState g an) = nextId an"
  by (simp add: nextId_def onState_def)

lemma nextId_setters [counter, simp]:
  "nextId (setObjectState i x an) = nextId an" "nextId (setAddressFact k f an) = nextId an"
  "nextId (setInteger k w an) = nextId an" "nextId (setUnsigned k w an) = nextId an"
  "nextId (setTermination k t an) = nextId an" "nextId (dropAddressFact k an) = nextId an"
  "nextId (addDiagnostic m an) = nextId an" "nextId (addSafetyDiagnostic m an) = nextId an"
  "nextId (invalidateStaticBinding k an) = nextId an"
  by (simp_all add: setObjectState_def setAddressFact_def setInteger_def setUnsigned_def setTermination_def
      dropAddressFact_def addDiagnostic_def addSafetyDiagnostic_def invalidateStaticBinding_def invalidateState_def
      nextId_def onState_def)

lemma nextId_fields [counter, simp]:
  "nextId (an\<lparr>capturedRanges := r\<rparr>) = nextId an" "nextId (an\<lparr>capturedAliases := a\<rparr>) = nextId an"
  "nextId (an\<lparr>nextStaticCallCaptureId := i\<rparr>) = nextId an" "nextId (an\<lparr>currentDiagnosticRange := d\<rparr>) = nextId an"
  by (simp_all add: nextId_def)

lemma nextId_overlapping [counter, simp]: "nextId (invalidateStaticFactsOverlapping r n an) = nextId an"
proof (cases r)
  case None
  then show ?thesis by (simp add: invalidateStaticFactsOverlapping_def Let_def nextId_def onState_def)
qed (simp add: invalidateStaticFactsOverlapping_def)

lemma nextId_memory [counter, simp]: "nextId (validateStaticMemoryAccess f n op an) = nextId an"
  by (auto simp: validateStaticMemoryAccess_def validateStaticAddressAccess_def Let_def split: option.split)

lemma nextId_store [counter, simp]:
  "(\<And>k an. nextId (f k an) = nextId an) \<Longrightarrow> nextId (storeKeyed t f an) = nextId an"
  by (simp add: storeKeyed_def prepareStaticNamedStore_def Let_def split: option.split)

definition leaf :: "Expr \<Rightarrow> bool" where
  "leaf e \<longleftrightarrow> (case exprNode e of IntegerLiteral v l \<Rightarrow> True | CapturedViewRef c \<Rightarrow> True | _ \<Rightarrow> False)"

lemma nextId_capture:
  assumes "leaf e"
  shows "nextId (recordStaticViewCapture k e l an) = nextId an"
proof -
  have "nextId (recordStaticAddressAssignment k e an) = nextId an" for an
    using assms by (cases "exprNode e") (simp_all add: leaf_def recordStaticAddressAssignment_def)
  then show ?thesis by (simp add: recordStaticViewCapture_def Let_def)
qed

lemma nextId_release: "nextId (releaseCapture e an) = nextId an"
  by (cases "exprNode e") (simp_all add: releaseCapture_def nextId_onState)

text \<open>A step that stops or returns with the same contexts and the same counter.\<close>

definition counts :: "analysis \<Rightarrow> analysis option \<Rightarrow> bool" where
  "counts st m \<longleftrightarrow> (\<forall>r. m = Some r \<longrightarrow> snd r = snd st \<and> nextId (fst r) = nextId (fst st))"

lemma counts_simps [simp]: "counts st None" "counts st (Some r) \<longleftrightarrow> snd r = snd st \<and> nextId (fst r) = nextId (fst st)"
  by (auto simp: counts_def)

lemma counts_bind:
  "counts st m \<Longrightarrow> (\<And>r. snd r = snd st \<Longrightarrow> nextId (fst r) = nextId (fst st) \<Longrightarrow> counts st (k r)) \<Longrightarrow> counts st (m \<bind> k)"
  by (cases m) simp_all

lemma counts_map:
  "counts st m \<Longrightarrow> (\<And>r. snd (f r) = snd r \<and> nextId (fst (f r)) = nextId (fst r)) \<Longrightarrow> counts st (map_option f m)"
  by (cases m) simp_all

lemma counts_range: "(\<And>st. counts st (f st)) \<Longrightarrow> counts st (inRange id r f st)"
proof -
  assume f: "\<And>st. counts st (f st)"
  have "counts (enterRange r st) (f (enterRange r st))" by (rule f)
  then show ?thesis
    by (auto simp: inRange_def counts_def setRange_def enterRange_def onAnalyzer_def split: option.splits)
qed

lemma leaf_expr: "leaf e \<Longrightarrow> counts st (validateExpr (validators n specs) e st)"
proof (cases n)
  case (Suc m)
  assume "leaf e"
  then have "counts st (exprNodeStep specs (validators m specs) (exprBase e) (exprNode e) st)" for st
    by (cases "exprNode e") (auto simp: leaf_def exprNodeStep_def onAnalyzer_def split: option.split)
  then show ?thesis using Suc by (simp add: exprStep_def counts_range Let_def)
qed simp

lemma leaf_form: "leaf e \<Longrightarrow> counts st (validateFormation (validators n specs) e st)"
proof (cases n)
  case (Suc m)
  assume "leaf e"
  then show ?thesis using Suc leaf_expr [of e st m specs]
    by (cases e; cases "exprNode e") (auto simp: leaf_def formationStep_def Let_def)
qed simp

lemma leaf_cstring: "leaf e \<Longrightarrow> counts st (validateStaticCStringRead (validators n specs) e st)"
  unfolding validateStaticCStringRead_def
  by (rule counts_bind [OF leaf_form]) (auto simp: Let_def accessView_def onAnalyzer_def)

lemma leaf_argument: "leaf e \<Longrightarrow> counts st (validateStaticCallArgument specs (validators n specs) f o' ks i e st)"
  unfolding validateStaticCallArgument_def
  by (auto simp: leaf_cstring leaf_expr accessView_def onAnalyzer_def intro!: counts_map leaf_form)

lemma capture_counts:
  assumes "leaf e" and "captureStaticEvaluatedArgument e l r st = (ref, st')"
  shows "leaf ref \<and> snd st' = snd st \<and> nextId (fst st') = nextId (fst st)"
  using assms by (auto simp: captureStaticEvaluatedArgument_def Let_def nextId_capture leaf_def)

lemma prepare_leaf:
  assumes "leaf e" and "prepareStaticCallArguments specs (validators n specs) BAlloc o' ks [e] st = Some (es, st')"
  shows "\<exists>ref. es = [ref] \<and> leaf ref \<and> snd st' = snd st \<and> nextId (fst st') = nextId (fst st)"
proof -
  let ?v = "passedAsView specs BAlloc o' ks 0 False" and ?st = "enterRange (expr_range (exprBase e)) st"
  let ?m = "if ?v then validateFormation (validators n specs) e ?st
    else validateStaticCallArgument specs (validators n specs) BAlloc o' ks 0 e ?st"
  obtain s1 where s1: "?m = Some s1"
    and es: "es = [fst (captureStaticEvaluatedArgument e (?v \<and> isAddressable (exprResult e)) False s1)]"
      "st' = setRange (currentDiagnosticRange (fst st))
         (snd (captureStaticEvaluatedArgument e (?v \<and> isAddressable (exprResult e)) False s1))"
    using assms(2)
    by (auto simp: prepareStaticCallArguments_def evaluationOrder_def prepareArgument_def memoryCount_def inRange_def Let_def
        bind_eq_Some_conv case_prod_beta split: option.splits)
  have "counts ?st ?m" using assms(1) by (simp add: leaf_form leaf_argument)
  then have "snd s1 = snd st" "nextId (fst s1) = nextId (fst st)"
    using s1 by (auto simp: enterRange_def setRange_def onAnalyzer_def split: option.splits)
  with capture_counts [OF assms(1) surjective_pairing, of "?v \<and> isAddressable (exprResult e)" False s1] show ?thesis
    by (auto simp: es setRange_def onAnalyzer_def)
qed

lemma alloc_counts:
  assumes "leaf e" and "call_builtin d = BAlloc"
  shows "counts st (callExprStep specs (validators n specs) [e] d st)"
proof -
  have "counts s (validateOperands specs (validators n specs) BAlloc o' ks [ref] s)" if "leaf ref" for o' ks ref s
    using leaf_argument [OF that, of s specs n BAlloc o' ks 0]
    by (auto simp: validateOperands_def validateStaticMemoryOperands_def isMemoryBuiltin_def isTransferBuiltin_def Let_def
        split: option.split)
  note operands = this
  have "counts st (prepareStaticCallArguments specs (validators n specs) BAlloc (call_overloadIndex d) (call_formatArgumentKinds d) [e] st
      \<bind> (\<lambda>(arguments, st). (let st = onAnalyzer (checkCallArguments d arguments) st in
        validateOperands specs (validators n specs) BAlloc (call_overloadIndex d) (call_formatArgumentKinds d) arguments st
      \<bind> (\<lambda>st. Some (releaseStaticCallArguments arguments (onAnalyzer (forgetWritten BAlloc arguments) st))))))"
  proof (cases "prepareStaticCallArguments specs (validators n specs) BAlloc (call_overloadIndex d) (call_formatArgumentKinds d) [e] st")
    case (Some r)
    obtain ref s where r: "r = ([ref], s)" "leaf ref" "snd s = snd st" "nextId (fst s) = nextId (fst st)"
      using prepare_leaf [OF assms(1)] Some by (cases r) fastforce
    have "onAnalyzer (checkCallArguments d [ref]) s = s"
      by (simp add: checkCallArguments_def assms(2) isTransferBuiltin_def isMemoryBuiltin_def onAnalyzer_def)
    then show ?thesis using operands [OF r(2), of s] r
      by (auto simp: Some counts_def bind_eq_Some_conv releaseStaticCallArguments_def onAnalyzer_def nextId_release forgetWritten_def)
  qed simp
  then show ?thesis by (simp add: callExprStep_def assms(2) Let_def)
qed

lemma exit_range: "exitStaticScopes cs s (an\<lparr>currentDiagnosticRange := r\<rparr>) =
    apfst (\<lambda>an. an\<lparr>currentDiagnosticRange := r\<rparr>) (exitStaticScopes cs s an)"
proof (induction cs arbitrary: s an)
  case (Cons c cs)
  have "restoreStaticSafetyState s (an\<lparr>currentDiagnosticRange := r\<rparr>) = (restoreStaticSafetyState s an)\<lparr>currentDiagnosticRange := r\<rparr>"
    "expireStaticLocalBindings ns (an\<lparr>currentDiagnosticRange := r\<rparr>) = (expireStaticLocalBindings ns an)\<lparr>currentDiagnosticRange := r\<rparr>"
    "staticSafetyState (an\<lparr>currentDiagnosticRange := r\<rparr>) = staticSafetyState an" for s an ns
    by (simp_all add: restoreStaticSafetyState_def expireStaticLocalBindings_def onState_def staticSafetyState_def)
  then show ?case using Cons by (auto simp: Let_def split: option.split)
qed simp

lemma enqueue_range: "enqueueStaticGoto l s ex cs (an\<lparr>currentDiagnosticRange := r\<rparr>) =
    apfst (\<lambda>an. an\<lparr>currentDiagnosticRange := r\<rparr>) (enqueueStaticGoto l s ex cs an)"
  by (induction cs arbitrary: ex) (auto simp: exit_range split: option.split prod.split)

lemma goto_jumps: "jumps (validators n specs) (Stmt b (GotoStmt label)) label"
proof (cases n)
  case (Suc m)
  have "inRange apfst r (\<lambda>st. Some (validateGoto label st)) st = Some (validateGoto label st)" for r st
  proof -
    obtain an cs f where e: "enqueueStaticGoto label (current (fst st)) [] (snd st) (fst st) = (an, cs, f)"
      by (metis prod_cases3)
    moreover have "currentDiagnosticRange an = currentDiagnosticRange (fst st)"
      using enqueue_keeps [of "fst st" label "current (fst st)" "[]" "snd st"] e by (simp add: keptAn_def frameOf_def)
    ultimately show ?thesis
      by (cases r) (auto simp: inRange_def enterRange_def setRange_def onAnalyzer_def validateGoto_def enqueue_range
          staticSafetyState_def)
  qed
  moreover have "stmtNodeStep specs (validators m specs) (GotoStmt label) = (\<lambda>st. Some (validateGoto label st))"
    by (rule ext) (simp add: stmtNodeStep_def)
  ultimately show ?thesis using Suc by (simp add: jumps_def stmtStep_def Let_def)
qed (simp add: jumps_def)

text \<open>The allocation: an assignment whose value is a call of \<open>alloc\<close> on a literal.\<close>

definition allocation :: "StmtBase \<Rightarrow> StoreTarget \<Rightarrow> ExprBase \<Rightarrow> Expr \<Rightarrow> CallData \<Rightarrow> Stmt" where
  "allocation b t eb argument d = Stmt b (IntegerStore t (Expr eb (CallExpr [argument] d)) None)"

lemma nextId_recorded:
  "call_builtin d = BAlloc \<Longrightarrow> nextId (recordStaticAddressAssignment k (Expr eb (CallExpr es d)) an) = nextId an + 1"
  by (simp add: recordStaticAddressAssignment_def recordDynamicObject_def Let_def nextId_def onState_def setAddressFact_def
      setObjectState_def)

definition grows :: "analysis \<Rightarrow> (analysis \<times> bool) option \<Rightarrow> bool" where
  "grows st m \<longleftrightarrow> m = None \<or> (\<exists>an. m = Some ((an, snd st), True) \<and> nextId an = nextId (fst st) + 1)"

lemma grows_range: "(\<And>st. grows st (f st)) \<Longrightarrow> grows st (inRange apfst r f st)"
proof -
  assume f: "\<And>st. grows st (f st)"
  have "grows (enterRange r st) (f (enterRange r st))" by (rule f)
  then show ?thesis
    by (auto simp: inRange_def grows_def setRange_def enterRange_def onAnalyzer_def split: option.splits)
qed

lemma allocation_grows:
  assumes "leaf argument" and "call_builtin d = BAlloc"
  shows "grows st (validateStmt (validators n specs) (allocation b t eb argument d) st)"
proof (cases n)
  case (Suc m)
  let ?e = "Expr eb (CallExpr [argument] d)"
  have "counts st (validateExpr (validators m specs) ?e st)" for st
  proof (cases m)
    case (Suc k)
    have "counts st (exprNodeStep specs (validators k specs) eb (CallExpr [argument] d) st)" for st
      using alloc_counts [OF assms] by (simp add: exprNodeStep_def)
    then show ?thesis using Suc by (simp add: exprStep_def counts_range Let_def)
  qed simp
  note expr = this
  have store: "nextId (storeInteger t ?e an) = nextId an + 1" for an
    by (simp add: storeInteger_def Let_def nextId_recorded assms(2))
  have "grows st (stmtNodeStep specs (validators m specs) (IntegerStore t ?e None) st)" for st
    using expr [of st] store
    by (cases "validateExpr (validators m specs) ?e st") (simp_all add: grows_def stmtNodeStep_def continues_def onAnalyzer_def)
  then show ?thesis using Suc by (simp add: allocation_def stmtStep_def grows_range Let_def)
qed (simp add: grows_def)

lemma label_allocates:
  assumes "leaf argument" and "call_builtin d = BAlloc"
  shows "allocates (validators n specs) (Stmt lb (LabelStmt label (allocation b t eb argument d)))"
proof (cases n)
  case (Suc m)
  have "grows st (stmtNodeStep specs (validators m specs) (LabelStmt label (allocation b t eb argument d)) st)" for st
    using allocation_grows [OF assms] by (simp add: stmtNodeStep_def)
  then have "grows st (stmtStep specs (validators m specs) (Stmt lb (LabelStmt label (allocation b t eb argument d))) st)" for st
    by (simp add: stmtStep_def grows_range)
  then show ?thesis unfolding Suc allocates_def grows_def nextId_def
    by (simp add: Let_def)
qed (simp add: allocates_def)

definition allocationLoop :: "StmtBase \<Rightarrow> StoreTarget \<Rightarrow> ExprBase \<Rightarrow> Expr \<Rightarrow> CallData \<Rightarrow> string \<Rightarrow> Block" where
  "allocationLoop b t eb argument d label =
     Block [Stmt b (LabelStmt label (allocation b t eb argument d)), Stmt b (GotoStmt label)] None"

text \<open>
  C19. The analysis of a loop that allocates does not end.  For the block
  \<open>label: p = alloc(literal); goto label;\<close> no number of rounds up to the wrap-around of the allocation counter
  is enough: the counter is part of the state that is compared at the label and grows on every pass, so every
  pass finds a change and puts the label back on the worklist.
\<close>

theorem validateBlock_allocation_loop:
  assumes "leaf argument" and "call_builtin d = BAlloc" and "unat (nextDynamicObjectId (current an)) + fuel < 2 ^ 64"
  shows "validateBlock (validators fuel specs) (allocationLoop b t eb argument d label) (an, contexts) = None"
proof (cases fuel)
  case (Suc n)
  let ?s = "Stmt b (LabelStmt label (allocation b t eb argument d))" and ?t = "Stmt b (GotoStmt label)"
  have labels: "blockLabels [?s, ?t] = fmupd label 0 fmempty" by (simp add: blockLabels_def)
  moreover have "fmupd label (0::nat) fmempty \<noteq> fmempty" by (metis fmempty_lookup fmupd_lookup option.distinct(1))
  moreover have "blockLoop n (validators n specs) [?s, ?t] (startBlock [?s, ?t] locals (an, contexts)) = None" for locals
  proof (rule loop_runs_on [OF label_allocates [OF assms(1,2)] goto_jumps])
    show "atLabel label (nextDynamicObjectId (current an)) (startBlock [?s, ?t] locals (an, contexts)) \<or>
        atJump label (nextDynamicObjectId (current an)) (startBlock [?s, ?t] locals (an, contexts))"
      by (simp add: startBlock_def Let_def labels enqueueEntry_def joinEntry_def atLabel_def staticSafetyState_def)
    show "unat (nextDynamicObjectId (current an)) + n < 2 ^ 64" using assms(3) Suc by simp
  qed
  ultimately show ?thesis using Suc
    by (simp add: allocationLoop_def blockStep_def Let_def inRange_def enterRange_def)
qed simp

definition allocCall :: CallData where
  "allocCall = \<lparr>call_callee = ''alloc'', call_byteLength = 8, call_isFloating = False, call_builtin = BAlloc,
     call_provider = ProviderRuntimeBridge, call_returnMode = ReturnFixed, call_overloadIndex = 0,
     call_formatArgumentKinds = [], call_templateName = ''addr'', call_argumentPlans = [], call_addressFacts = None\<rparr>"

theorem validateBlock_allocation_loop_witness:
  "validateBlock (validators 1000000 noSpecs)
     (allocationLoop \<lparr>stmt_range = None, staticInitializationBinding = []\<rparr>
        \<lparr>store_target = ''p'', store_bindingName = ''p'', store_targetByteLength = 8, store_storage = LocalStorage, store_offset = 0\<rparr>
        \<lparr>expr_range = None, expr_result = viewSemanticsForTemplate ''addr'' 8 False False Signed\<rparr>
        (Expr \<lparr>expr_range = None, expr_result = viewSemanticsForTemplate ''i32'' 4 False False Signed\<rparr> (IntegerLiteral ''8'' 4))
        allocCall ''again'')
     (newAnalyzer \<lparr>opt_enabled = True, opt_runtimeChecksEnabled = False\<rparr>, []) = None"
  by (rule validateBlock_allocation_loop)
    (simp_all add: leaf_def allocCall_def newAnalyzer_def emptySafetyState_def)

end
