(* ===== verification/Safety_Scope.thy ===== *)
theory Safety_Scope
  imports Safety_Join
begin

text \<open>
  Scopes, writes and calls in the static safety analysis: what remains known after local storage
  has gone out of scope, after a write, and after a call that may change any global.
\<close>

section \<open>Leaving scopes\<close>

definition expireIn :: "string set \<Rightarrow> StaticAddressFact option \<Rightarrow> StaticAddressFact option" where
  "expireIn names known =
     (case known of
        None \<Rightarrow> None
      | Some f \<Rightarrow>
          (case fact_range f of
             None \<Rightarrow> Some f
           | Some r \<Rightarrow> if rng_bindingName r \<in> names
                       then Some (f\<lparr>fact_origin := ExpiredLocalObject, fact_isBaseAddress := False\<rparr>) else Some f))"

definition withoutNames :: "string set \<Rightarrow> (string, 'v) fmap \<Rightarrow> string \<Rightarrow> 'v option" where
  "withoutNames names m k = (if k \<in> names then None else fmlookup m k)"

definition expiredState :: "string set \<Rightarrow> StaticSafetyState \<Rightarrow> StaticSafetyState \<Rightarrow> bool" where
  "expiredState names st st' \<longleftrightarrow>
     (\<forall>k. fmlookup (integerValues st') k = withoutNames names (integerValues st) k \<and>
          fmlookup (unsignedIntegerValues st') k = withoutNames names (unsignedIntegerValues st) k \<and>
          fmlookup (cstrTerminations st') k = withoutNames names (cstrTerminations st) k \<and>
          fmlookup (addressFacts st') k = map_option (expireIn names) (withoutNames names (addressFacts st) k) \<and>
          fmlookup (bindingAddressFacts st') k = map_option (expireIn names) (withoutNames names (bindingAddressFacts st) k)) \<and>
     dynamicObjectStates st' = dynamicObjectStates st"

lemma expireIn_simps:
  "expireIn {} = (\<lambda>known. known)" "expireFact n = expireIn {n}"
  "expireIn B (expireIn A known) = expireIn (A \<union> B) known"
  by (auto simp: expireIn_def expireFact_def fun_eq_iff split: option.split)

lemma expiredState_refl: "expiredState {} st st"
  by (simp add: expiredState_def withoutNames_def expireIn_simps option.map_ident)

lemma expiredState_trans:
  assumes "expiredState A st st'" and "expiredState B st' st''"
  shows "expiredState (A \<union> B) st st''"
  using assms unfolding expiredState_def
  by (auto simp: withoutNames_def option.map_comp comp_def expireIn_simps)

lemma expireBinding_expired: "expiredState {n} st (expireBinding n st)"
  by (auto simp: expiredState_def expireBinding_def withoutNames_def expireIn_simps)

lemma fold_expire: "expiredState (set names) st (fold expireBinding names st)"
proof (induction names arbitrary: st)
  case (Cons n names)
  from expiredState_trans [OF expireBinding_expired Cons.IH, of n st] show ?case by simp
qed (simp add: expiredState_refl)

lemma expiredState_next: "expiredState A st st' \<Longrightarrow> expiredState A (st\<lparr>nextDynamicObjectId := n\<rparr>) st'"
  by (simp add: expiredState_def)

definition exitedNames :: "StaticGotoContext list \<Rightarrow> string set" where
  "exitedNames cs = (\<Union>c \<in> set cs. case ctx_localBindings c of None \<Rightarrow> {} | Some names \<Rightarrow> set names)"

lemma expiredState_next_iff [simp]:
  "expiredState A (st\<lparr>nextDynamicObjectId := n\<rparr>) st' = expiredState A st st'"
  "expiredState A st (st'\<lparr>nextDynamicObjectId := n\<rparr>) = expiredState A st st'"
  by (simp_all add: expiredState_def)

lemma exit_one:
  "expiredState (case ctx_localBindings c of None \<Rightarrow> {} | Some names \<Rightarrow> set names) out
     (current (case ctx_localBindings c of
        None \<Rightarrow> restoreStaticSafetyState out an
      | Some names \<Rightarrow> expireStaticLocalBindings names (restoreStaticSafetyState out an)))"
  using fold_expire [of _ "out\<lparr>nextDynamicObjectId := max (nextDynamicObjectId (current an)) (nextDynamicObjectId out)\<rparr>"]
  by (auto simp: restoreStaticSafetyState_def expireStaticLocalBindings_def onState_def expiredState_refl
      split: option.split)

text \<open>
  C29. Leaving scopes by a jump.  The state that a jump carries out of nested blocks has no fact about
  any of their local names; every pointer into their storage, whether held in memory or as a name's
  location, is marked expired and is no base address; every other fact, and the states of the
  dynamic objects, arrive unchanged.
\<close>

theorem exitStaticScopes_expires:
  "expiredState (exitedNames cs) incoming (snd (exitStaticScopes cs incoming an))"
proof (induction cs arbitrary: incoming an)
  case Nil
  show ?case by (simp add: exitedNames_def expiredState_refl)
next
  case (Cons c cs)
  let ?an = "case ctx_localBindings c of
      None \<Rightarrow> restoreStaticSafetyState incoming an
    | Some names \<Rightarrow> expireStaticLocalBindings names (restoreStaticSafetyState incoming an)"
  have "exitStaticScopes (c # cs) incoming an = exitStaticScopes cs (current ?an) ?an"
    by (simp add: Let_def staticSafetyState_def)
  then show ?case
    using expiredState_trans [OF exit_one Cons.IH, of c incoming an ?an] by (simp add: exitedNames_def)
qed

section \<open>Writes\<close>

text \<open>
  A write changes the content of the names in \<open>K\<close> (for pointer contents, in \<open>Ka\<close>) and neither
  the locations of names nor the objects.
\<close>

definition contentChanged :: "string set \<Rightarrow> string set \<Rightarrow> Machine \<Rightarrow> Machine \<Rightarrow> bool" where
  "contentChanged K Ka x x' \<longleftrightarrow>
     (\<forall>k. k \<notin> K \<longrightarrow> mem_integer x' k = mem_integer x k \<and> mem_unsigned x' k = mem_unsigned x k \<and> mem_cstr x' k = mem_cstr x k) \<and>
     (\<forall>k. k \<notin> Ka \<longrightarrow> mem_address x' k = mem_address x k) \<and>
     bound_address x' = bound_address x \<and> object_state x' = object_state x \<and> allocated x' = allocated x"

definition writtenNames :: "StaticAddressRange option \<Rightarrow> uint64 option \<Rightarrow> StaticSafetyAnalyzer \<Rightarrow> string set" where
  "writtenNames rng byteLength an =
     (if byteLength = Some 0 then {}
      else case rng of Some r \<Rightarrow> {rng_bindingName r} | None \<Rightarrow> {k. k |\<notin>| fmdom (capturedAliases an)})"

definition writtenPointers :: "StaticAddressRange option \<Rightarrow> uint64 option \<Rightarrow> StaticSafetyAnalyzer \<Rightarrow> string set" where
  "writtenPointers rng byteLength an =
     (if rng = None then {k \<in> writtenNames rng byteLength an. \<not> ends_with k ''.location''}
      else writtenNames rng byteLength an)"

lemma tells_forget:
  "tells m \<sigma> \<Longrightarrow> (\<And>k. keep k \<Longrightarrow> \<sigma>' k = \<sigma> k) \<Longrightarrow> tells (forgetExcept keep m) \<sigma>'"
  by (auto simp: tells_def forgetExcept_def split: if_splits)

lemma tells_forget_key: "tells m \<sigma> \<Longrightarrow> (\<And>k. k \<noteq> n \<Longrightarrow> \<sigma>' k = \<sigma> k) \<Longrightarrow> tells (fmupd n None m) \<sigma>'"
  by (auto simp: tells_def)

text \<open>
  C30. Writes are accounted for.  If a state describes the machine before a write, the state after
  \<open>invalidateStaticFactsOverlapping\<close> describes the machine after it: a write of no bytes changes
  nothing, a write into the storage of a name may change the content of that name, and a write
  through an unknown address may change every content except that of captured values and
  recorded locations.
\<close>

theorem invalidateStaticFactsOverlapping_sound:
  assumes "describes (current an) x"
    and "contentChanged (writtenNames rng byteLength an) (writtenPointers rng byteLength an) x x'"
  shows "describes (current (invalidateStaticFactsOverlapping rng byteLength an)) x'"
proof (cases "byteLength = Some 0")
  case True
  then show ?thesis using assms
    by (auto simp: invalidateStaticFactsOverlapping_def writtenNames_def writtenPointers_def contentChanged_def describes_def
        tells_def split: if_splits)
next
  case False
  show ?thesis
  proof (cases rng)
    case None
    with False assms show ?thesis
      by (auto simp: invalidateStaticFactsOverlapping_def writtenNames_def writtenPointers_def contentChanged_def describes_def
          onState_def Let_def intro!: tells_forget)
  next
    case (Some r)
    with False assms show ?thesis
      by (auto simp: invalidateStaticFactsOverlapping_def writtenNames_def writtenPointers_def contentChanged_def describes_def
          invalidateStaticBinding_def invalidateState_def onState_def intro!: tells_forget_key)
  qed
qed

definition onlyX :: "StaticSafetyAnalyzer" where
  "onlyX = (newAnalyzer \<lparr>opt_enabled = True, opt_runtimeChecksEnabled = False\<rparr>)
     \<lparr>current := knowsZero, staticPotentiallyReboundBindings := {''g''}, staticGlobalBindings := [''g'', ''x'']\<rparr>"

theorem invalidateStaticFactsOverlapping_sound_witness:
  "describes (current (invalidateStaticFactsOverlapping None None onlyX)) (machineZero\<lparr>mem_integer := (\<lambda>_. 5)\<rparr>)"
  by (rule invalidateStaticFactsOverlapping_sound [of _ machineZero])
    (auto simp: onlyX_def newAnalyzer_def knowsZero_def emptySafetyState_def machineZero_def describes_def tells_def tellsBinding_def
      tellsObjects_def contentChanged_def writtenNames_def)

section \<open>Calls\<close>

definition forgotten :: "string \<Rightarrow> StaticSafetyState \<Rightarrow> bool" where
  "forgotten g st \<longleftrightarrow> fmlookup (integerValues st) g = Some None \<and> fmlookup (unsignedIntegerValues st) g = Some None \<and>
     fmlookup (addressFacts st) g = Some None \<and> fmlookup (cstrTerminations st) g = Some None"

lemma forgotten_binding: "forgotten g (current (invalidateStaticBinding g an))"
  by (simp add: forgotten_def invalidateStaticBinding_def invalidateState_def onState_def)

lemma forgotten_binding_stays:
  "forgotten g (current an) \<Longrightarrow> forgotten g (current (invalidateStaticBinding h an))"
  by (simp add: forgotten_def invalidateStaticBinding_def invalidateState_def onState_def)

lemma forgotten_overlapping_stays:
  "forgotten g (current an) \<Longrightarrow> forgotten g (current (invalidateStaticFactsOverlapping rng len an))"
proof (cases rng)
  case None
  assume "forgotten g (current an)"
  with None show ?thesis
    by (simp add: invalidateStaticFactsOverlapping_def Let_def forgotten_def onState_def forgetExcept_def)
next
  case (Some r)
  assume "forgotten g (current an)"
  with Some show ?thesis by (simp add: invalidateStaticFactsOverlapping_def forgotten_binding_stays)
qed

lemma bindings_kept:
  "bindingAddressFacts (current (invalidateStaticFactsOverlapping rng len an)) = bindingAddressFacts (current an)"
  "bindingAddressFacts (current (invalidateStaticBinding g an)) = bindingAddressFacts (current an)"
  "staticPotentiallyReboundBindings (invalidateStaticFactsOverlapping rng len an) = staticPotentiallyReboundBindings an"
  "staticPotentiallyReboundBindings (invalidateStaticBinding g an) = staticPotentiallyReboundBindings an"
  by (simp_all add: invalidateStaticFactsOverlapping_def Let_def onState_def invalidateStaticBinding_def invalidateState_def
      split: option.split)

text \<open>The three steps of \<open>invalidateGlobal\<close>.\<close>

definition forgetTarget :: "string \<Rightarrow> StaticSafetyAnalyzer \<Rightarrow> StaticSafetyAnalyzer" where
  "forgetTarget name an = (case fmlookup (bindingAddressFacts (current an)) name of
     None \<Rightarrow> an
   | Some bound \<Rightarrow> invalidateStaticFactsOverlapping (case bound of None \<Rightarrow> None | Some f \<Rightarrow> fact_range f) None an)"

lemma invalidateGlobal_steps:
  "invalidateGlobal h an = (let an = invalidateStaticBinding h (forgetTarget h an) in
     if h \<in> staticPotentiallyReboundBindings an
     then onState (\<lambda>st. st\<lparr>bindingAddressFacts := fmupd h None (bindingAddressFacts st)\<rparr>) an else an)"
  by (simp add: invalidateGlobal_def forgetTarget_def Let_def)

lemma forgetTarget_keeps:
  "forgotten g (current an) \<Longrightarrow> forgotten g (current (forgetTarget h an))"
  "bindingAddressFacts (current (forgetTarget h an)) = bindingAddressFacts (current an)"
  "staticPotentiallyReboundBindings (forgetTarget h an) = staticPotentiallyReboundBindings an"
  by (simp_all add: forgetTarget_def forgotten_overlapping_stays bindings_kept split: option.split)

lemma invalidateGlobal_effect:
  "forgotten h (current (invalidateGlobal h an))"
  "forgotten g (current an) \<Longrightarrow> forgotten g (current (invalidateGlobal h an))"
  "staticPotentiallyReboundBindings (invalidateGlobal h an) = staticPotentiallyReboundBindings an"
  "h \<in> staticPotentiallyReboundBindings an \<Longrightarrow> fmlookup (bindingAddressFacts (current (invalidateGlobal h an))) h = Some None"
  "fmlookup (bindingAddressFacts (current an)) g = Some None \<Longrightarrow>
     fmlookup (bindingAddressFacts (current (invalidateGlobal h an))) g = Some None"
  using forgotten_binding [of h "forgetTarget h an"] forgotten_binding_stays [OF forgetTarget_keeps(1), of g an h h]
  by (auto simp: invalidateGlobal_steps Let_def forgotten_def onState_def bindings_kept forgetTarget_keeps)

text \<open>
  After a call to an unknown function nothing is known about the content of any global, and a global
  that some statement of the program rebinds may be located anywhere, whatever was known before.
\<close>

theorem invalidateStaticGlobalFacts_forgets:
  assumes "g \<in> set (staticGlobalBindings an)"
  shows "forgotten g (current (invalidateStaticGlobalFacts an)) \<and>
    (g \<in> staticPotentiallyReboundBindings an \<longrightarrow>
       fmlookup (bindingAddressFacts (current (invalidateStaticGlobalFacts an))) g = Some None)"
proof -
  have keep: "forgotten g (current an) \<Longrightarrow> forgotten g (current (fold invalidateGlobal hs an))"
    "fmlookup (bindingAddressFacts (current an)) g = Some None \<Longrightarrow>
       fmlookup (bindingAddressFacts (current (fold invalidateGlobal hs an))) g = Some None" for hs an
    by (induction hs arbitrary: an) (simp_all add: invalidateGlobal_effect)
  have "forgotten g (current (fold invalidateGlobal hs an)) \<and>
      (g \<in> staticPotentiallyReboundBindings an \<longrightarrow>
         fmlookup (bindingAddressFacts (current (fold invalidateGlobal hs an))) g = Some None)"
    if "g \<in> set hs" for hs an
    using that
  proof (induction hs arbitrary: an)
    case (Cons h hs)
    show ?case
    proof (cases "g = h")
      case True
      show ?thesis unfolding True [symmetric]
        using keep [of "invalidateGlobal g an" hs] invalidateGlobal_effect(1,4) [of g an] by simp
    next
      case False
      with Cons.prems Cons.IH [of "invalidateGlobal h an"] show ?thesis by (simp add: invalidateGlobal_effect(3))
    qed
  qed simp
  with assms show ?thesis by (simp add: invalidateStaticGlobalFacts_def)
qed

theorem invalidateStaticGlobalFacts_forgets_witness:
  "fmlookup (bindingAddressFacts (current (invalidateStaticGlobalFacts onlyX))) ''g'' = Some None"
  using invalidateStaticGlobalFacts_forgets [of "''g''" onlyX] by (simp add: onlyX_def)

end
