(* ===== verification/Safety_Total.thy ===== *)
theory Safety_Total
  imports Safety_Frame
begin

text \<open>
  Termination of the static safety walk on units without labels: the recursion follows the tree, so a
  number of rounds proportional to its size is enough.
\<close>

section \<open>Trees without labels\<close>

inductive labelFreeExpr :: "Expr \<Rightarrow> bool" and labelFreeStmt :: "Stmt \<Rightarrow> bool" where
  labelFreeExpr: "(\<And>x. x \<in> set (exprExprs n) \<Longrightarrow> labelFreeExpr x) \<Longrightarrow> (\<And>s. s \<in> set (exprStmts n) \<Longrightarrow> labelFreeStmt s) \<Longrightarrow>
    labelFreeExpr (Expr b n)"
| labelFreeStmt: "(\<And>x. x \<in> set (stmtExprs n) \<Longrightarrow> labelFreeExpr x) \<Longrightarrow> (\<And>s. s \<in> set (stmtStmts n) \<Longrightarrow> labelFreeStmt s) \<Longrightarrow>
    (\<And>l s. n \<noteq> LabelStmt l s) \<Longrightarrow> labelFreeStmt (Stmt b n)"

inductive_cases labelFreeExprE: "labelFreeExpr (Expr b n)"
inductive_cases labelFreeStmtE: "labelFreeStmt (Stmt b n)"

definition labelFreeBlock :: "Block \<Rightarrow> bool" where
  "labelFreeBlock b \<longleftrightarrow> (\<forall>s \<in> set (blockStmts b). labelFreeStmt s)"

lemma captured_labelFree: "labelFreeExpr (Expr b (CapturedViewRef c))"
  by (rule labelFreeExpr) (simp_all add: exprStmts_def)

section \<open>Steps that return\<close>

definition returns :: "('r \<Rightarrow> bool) \<Rightarrow> 'r option \<Rightarrow> bool" where
  "returns P m \<longleftrightarrow> (\<exists>r. m = Some r \<and> P r)"

abbreviation finishes :: "'r option \<Rightarrow> bool" where
  "finishes \<equiv> returns (\<lambda>_. True)"

lemma returns_simps [simp]: "returns P (Some r) = P r" "\<not> returns P None"
  "returns P (map_option f m) = returns (\<lambda>r. P (f r)) m"
  by (auto simp: returns_def)

lemma returns_bind: "returns Q m \<Longrightarrow> (\<And>r. Q r \<Longrightarrow> returns P (k r)) \<Longrightarrow> returns P (m \<bind> k)"
  by (auto simp: returns_def)

lemma finishes_bind: "finishes m \<Longrightarrow> (\<And>r. returns P (k r)) \<Longrightarrow> returns P (m \<bind> k)"
  by (rule returns_bind)

lemma returns_fold: "(\<And>x s. x \<in> set xs \<Longrightarrow> P s \<Longrightarrow> returns P (f x s)) \<Longrightarrow> P s \<Longrightarrow> returns P (foldOption f xs s)"
proof (induction xs arbitrary: s)
  case (Cons x xs)
  then have "returns P (f x s)" by simp
  with Cons show ?case by (cases "f x s") auto
qed simp

lemma finishes_inRange [simp]: "finishes (inRange on r f st) = finishes (f (enterRange r st))"
  by (simp add: inRange_def)

lemma finishes_continues [simp]: "finishes (continues m) = finishes m"
  by (simp add: continues_def)

text \<open>The recursive functions return on trees without labels that are smaller than \<open>k\<close>.\<close>

definition small :: "nat \<Rightarrow> Expr \<Rightarrow> bool" where
  "small k e \<longleftrightarrow> labelFreeExpr e \<and> size e < k"

definition smallStmt :: "nat \<Rightarrow> Stmt \<Rightarrow> bool" where
  "smallStmt k s \<longleftrightarrow> labelFreeStmt s \<and> size s < k"

definition smallBlock :: "nat \<Rightarrow> Block \<Rightarrow> bool" where
  "smallBlock k b \<longleftrightarrow> labelFreeBlock b \<and> size b < k"

definition ready :: "Validators \<Rightarrow> nat \<Rightarrow> bool" where
  "ready v k \<longleftrightarrow> (\<forall>e st. small k e \<longrightarrow> finishes (validateExpr v e st) \<and> finishes (validateFormation v e st)) \<and>
     (\<forall>s st. smallStmt k s \<longrightarrow> finishes (validateStmt v s st)) \<and> (\<forall>b st. smallBlock k b \<longrightarrow> finishes (validateBlock v b st))"

lemma ready_calls:
  assumes "ready v k"
  shows ready_expr: "small k e \<Longrightarrow> finishes (validateExpr v e st)" and ready_form: "small k e \<Longrightarrow> finishes (validateFormation v e st)"
    and ready_stmt: "smallStmt k s \<Longrightarrow> finishes (validateStmt v s st)" and ready_block: "smallBlock k b \<Longrightarrow> finishes (validateBlock v b st)"
  using assms unfolding ready_def by blast+

lemma ready_exprs: "ready v k \<Longrightarrow> \<forall>e \<in> set es. small k e \<Longrightarrow> finishes (foldOption (validateExpr v) es st)"
  by (rule returns_fold) (auto intro: ready_expr)

lemma ready_cstring: "ready v k \<Longrightarrow> small k e \<Longrightarrow> finishes (validateStaticCStringRead v e st)"
  unfolding validateStaticCStringRead_def by (auto simp: Let_def intro!: finishes_bind ready_form)

lemma ready_access: "ready v k \<Longrightarrow> small k e \<Longrightarrow> finishes (formAndAccess v e n op st)"
  by (simp add: formAndAccess_def ready_form)

lemma ready_opt: "ready v k \<Longrightarrow> \<forall>e \<in> set (opt_list eo). small k e \<Longrightarrow>
    finishes (case eo of None \<Rightarrow> Some st | Some e \<Rightarrow> validateExpr v e st)"
  by (cases eo) (simp_all add: ready_expr)

lemma ready_resize: "ready v k \<Longrightarrow> small k e \<Longrightarrow> \<forall>e \<in> set (opt_list eo). small k e \<Longrightarrow>
    finishes (validateStaticResizeCopy v b e eo st)"
  unfolding validateStaticResizeCopy_def finishes_inRange Let_def
  by (intro finishes_bind ready_form ready_opt) simp_all

lemma ready_argument: "ready v k \<Longrightarrow> small k e \<Longrightarrow> finishes (validateStaticCallArgument specs v f o' ks i e st)"
  unfolding validateStaticCallArgument_def by (simp add: ready_form ready_cstring ready_expr)

lemma small_captured: "1 < k \<Longrightarrow> small k (fst (captureStaticEvaluatedArgument e l r st))"
  by (simp add: captureStaticEvaluatedArgument_def Let_def small_def captured_labelFree)

lemma ready_prepare:
  assumes "ready v k" "\<forall>e \<in> set es. small k e" "1 < k"
  shows "returns (\<lambda>r. \<forall>e \<in> set (fst r). small k e) (prepareStaticCallArguments specs v f o' ks es st)"
  unfolding prepareStaticCallArguments_def
proof (rule returns_fold, goal_cases)
  case (1 i s)
  have "i < length es" using 1(1) by (auto simp: evaluationOrder_def split: if_splits)
  then have e: "small k (es ! i)" using assms(2) by simp
  then have "finishes (if p then validateFormation v (es ! i) st else validateStaticCallArgument specs v f o' ks i (es ! i) st)" for p st
    using assms(1) by (simp add: ready_form ready_argument)
  then show ?case unfolding prepareArgument_def inRange_def Let_def returns_simps case_prod_beta
    by (rule finishes_bind) (use 1(2) small_captured [OF assms(3)] set_update_subset_insert in \<open>fastforce simp: returns_def\<close>)
qed (use assms in simp)

lemma ready_user: "ready v k \<Longrightarrow> \<forall>e \<in> set es. small k e \<Longrightarrow> finishes (validateStaticUserCallArguments v c es st)"
  unfolding validateStaticUserCallArguments_def
  by (rule finishes_bind, rule returns_fold)
    (auto simp: userArgument_def Let_def ready_expr intro!: finishes_bind ready_form)

lemma ready_memory: "ready v k \<Longrightarrow> \<forall>e \<in> set es. small k e \<Longrightarrow> i < length es \<Longrightarrow>
    finishes (validateMemoryOperand v f n es i st)"
  unfolding validateMemoryOperand_def Let_def by (intro finishes_bind) (auto simp: ready_expr ready_form)

lemma ready_operands:
  assumes "ready v k" "\<forall>e \<in> set es. small k e"
  shows "finishes (validateOperands specs v f o' ks es st)"
proof -
  have "finishes (validateStaticMemoryOperands v f es st)"
    unfolding validateStaticMemoryOperands_def Let_def case_prod_beta returns_simps
    by (rule returns_fold) (use assms in \<open>auto intro!: ready_memory split: if_splits\<close>)
  then show ?thesis unfolding validateOperands_def
    by (rule finishes_bind) (use assms in \<open>auto intro!: returns_fold ready_argument\<close>)
qed

lemma ready_callStmt: "ready v k \<Longrightarrow> \<forall>e \<in> set es. small k e \<Longrightarrow> 1 < k \<Longrightarrow> finishes (callStmtStep specs v es d st)"
  unfolding callStmtStep_def Let_def case_prod_beta
  by (rule returns_bind [OF ready_prepare]) (auto intro!: finishes_bind ready_operands)

lemma ready_callExpr:
  assumes "ready v k" "\<forall>e \<in> set es. small k e" "1 < k"
  shows "finishes (callExprStep specs v es d st)"
proof (cases "call_builtin d = BLength")
  case True
  then show ?thesis using assms by (auto simp: callExprStep_def Let_def intro!: returns_fold ready_form)
next
  case False
  show ?thesis unfolding callExprStep_def Let_def case_prod_beta if_not_P [OF False]
    by (rule returns_bind [OF ready_prepare]) (use assms in \<open>auto intro!: finishes_bind ready_operands\<close>)
qed

lemma ready_logical: "ready v k \<Longrightarrow> small k x \<Longrightarrow> small k y \<Longrightarrow> finishes (logicalStep v op x y st)"
  unfolding logicalStep_def
  by (rule finishes_bind) (auto simp: Let_def ready_expr split: option.split)

lemma ready_compare: "ready v k \<Longrightarrow> small k x \<Longrightarrow> small k y \<Longrightarrow> 1 < k \<Longrightarrow> finishes (stringCompareStep v x y st)"
  unfolding stringCompareStep_def Let_def case_prod_beta
  by (intro finishes_bind ready_form ready_cstring small_captured) simp_all

lemma ready_binary: "ready v k \<Longrightarrow> small k x \<Longrightarrow> small k y \<Longrightarrow> 1 < k \<Longrightarrow> finishes (binaryStep v x y d st)"
  unfolding binaryStep_def
  by (auto simp: ready_logical ready_compare ready_expr intro!: finishes_bind split: option.split)

lemma ready_ternary: "ready v k \<Longrightarrow> small k c \<Longrightarrow> small k x \<Longrightarrow> small k y \<Longrightarrow> finishes (ternaryStep v c x y st)"
  unfolding ternaryStep_def
  by (rule finishes_bind) (auto simp: Let_def ready_expr intro!: finishes_bind split: option.split)

text \<open>The children of a node of size \<open>k\<close> are smaller than \<open>k\<close>, and so is a captured reference when there is a child.\<close>

lemma expr_children:
  assumes "labelFreeExpr (Expr b n)" "size (Expr b n) \<le> k"
  shows "\<forall>e \<in> set (exprExprs n). small k e" "\<forall>s \<in> set (exprStmts n). smallStmt k s" "exprExprs n \<noteq> [] \<Longrightarrow> 1 < k"
proof -
  show "\<forall>e \<in> set (exprExprs n). small k e"
  proof
    fix e assume "e \<in> set (exprExprs n)"
    with size_exprExprs [OF this] assms show "small k e" by (auto simp: small_def elim: labelFreeExprE)
  qed
  show "\<forall>s \<in> set (exprStmts n). smallStmt k s"
  proof
    fix s assume "s \<in> set (exprStmts n)"
    with size_exprStmts [OF this] assms show "smallStmt k s" by (auto simp: smallStmt_def elim: labelFreeExprE)
  qed
next
  assume "exprExprs n \<noteq> []"
  then obtain e where "e \<in> set (exprExprs n)" by (cases "exprExprs n") auto
  from size_exprExprs [OF this] show "1 < k" using assms(2) by (cases e) simp
qed

lemma ready_exprNode:
  assumes v: "ready v k" and e: "labelFreeExpr (Expr b n)" "size (Expr b n) \<le> k"
  shows "finishes (exprNodeStep specs v b n st)"
proof (cases n)
  case (AssignmentExpr ss ro l)
  have stores: "finishes (foldOption (\<lambda>s st. map_option fst (validateStmt v s st)) ss st)"
    using expr_children(2) [OF e] v by (intro returns_fold) (auto simp: AssignmentExpr exprStmts_def ready_stmt)
  show ?thesis using expr_children(1) [OF e] v unfolding AssignmentExpr exprNodeStep_def Let_def ExprNode.case
    by (auto intro!: finishes_bind [OF stores] ready_access ready_expr split: option.split)
next
  case (CallExpr es d)
  have "finishes (callExprStep specs v es d st)"
  proof (cases es)
    case Nil
    then show ?thesis
      by (simp add: callExprStep_def prepareStaticCallArguments_def evaluationOrder_def validateOperands_def
          validateStaticMemoryOperands_def Let_def)
  next
    case (Cons x xs)
    then show ?thesis using expr_children [OF e] CallExpr v by (intro ready_callExpr [of v k]) auto
  qed
  then show ?thesis by (simp add: CallExpr exprNodeStep_def)
qed (use expr_children [OF e] v in \<open>auto simp: exprNodeStep_def Let_def ready_expr ready_exprs ready_binary ready_ternary
    ready_access ready_user ready_resize simp del: foldOption.simps split: option.split\<close>)

lemma ready_exprStep: "ready v k \<Longrightarrow> labelFreeExpr e \<Longrightarrow> size e \<le> k \<Longrightarrow> finishes (exprStep specs v e st)"
  by (cases e) (simp add: exprStep_def ready_exprNode)

lemma ready_formationStep:
  assumes "ready v k" "labelFreeExpr e" "size e \<le> k" "finishes (validateExpr v e st)"
  shows "finishes (formationStep v e st)"
proof (cases e)
  case (Expr b n)
  note children = expr_children [OF assms(2,3) [unfolded Expr]]
  show ?thesis using assms(1,4) children unfolding Expr formationStep_def
    by (cases n) (auto simp: ready_form ready_expr ready_resize intro!: finishes_bind split: option.split)
qed

section \<open>Statements and blocks\<close>

lemma stmt_children:
  assumes "labelFreeStmt (Stmt b n)" "size (Stmt b n) \<le> k"
  shows "\<forall>e \<in> set (stmtExprs n). small k e" "\<forall>s \<in> set (stmtStmts n). smallStmt k s" "stmtExprs n \<noteq> [] \<Longrightarrow> 1 < k"
proof -
  show "\<forall>e \<in> set (stmtExprs n). small k e"
  proof
    fix e assume "e \<in> set (stmtExprs n)"
    with size_stmtExprs [OF this] assms show "small k e" by (auto simp: small_def elim: labelFreeStmtE)
  qed
  show "\<forall>s \<in> set (stmtStmts n). smallStmt k s"
  proof
    fix s assume "s \<in> set (stmtStmts n)"
    with size_stmtStmts [OF this] assms show "smallStmt k s" by (auto simp: smallStmt_def elim: labelFreeStmtE)
  qed
next
  assume "stmtExprs n \<noteq> []"
  then obtain e where "e \<in> set (stmtExprs n)" by (cases "stmtExprs n") auto
  from size_stmtExprs [OF this] show "1 < k" using assms(2) by (cases e) simp
qed

lemma ready_sequence: "ready v k \<Longrightarrow> \<forall>s \<in> set ss. smallStmt k s \<Longrightarrow> finishes (sequence v ss st)"
proof (induction ss arbitrary: st)
  case (Cons s ss)
  from Cons.prems have "finishes (validateStmt v s st)" by (simp add: ready_stmt)
  with Cons show ?case by (cases "validateStmt v s st") (auto split: prod.split)
qed simp

lemma ready_if: "ready v k \<Longrightarrow> small k c \<Longrightarrow> smallBlock k t \<Longrightarrow> \<forall>b \<in> set (opt_list e). smallBlock k b \<Longrightarrow>
    finishes (ifStep v c t e st)"
  unfolding ifStep_def Let_def case_prod_beta
  by (auto simp: ready_expr ready_block intro!: finishes_bind split: option.split bool.split)

lemma ready_while: "ready v k \<Longrightarrow> small k c \<Longrightarrow> smallBlock k b \<Longrightarrow> finishes (whileStep v c b st)"
  unfolding whileStep_def Let_def case_prod_beta
  by (auto simp: ready_expr ready_block intro!: finishes_bind)

lemma ready_for: "ready v k \<Longrightarrow> \<forall>s \<in> set (opt_list i). smallStmt k s \<Longrightarrow> \<forall>e \<in> set (opt_list c). small k e \<Longrightarrow>
    \<forall>s \<in> set p. smallStmt k s \<Longrightarrow> smallBlock k b \<Longrightarrow> finishes (forStep v i c p b st)"
  unfolding forStep_def Let_def case_prod_beta
  by (auto simp: ready_block intro!: finishes_bind ready_sequence [of v k] ready_exprs [of v k] simp del: foldOption.simps)

lemma ready_try: "ready v k \<Longrightarrow> smallBlock k t \<Longrightarrow> smallBlock k c \<Longrightarrow> finishes (tryStep v t c st)"
  unfolding tryStep_def Let_def case_prod_beta by (auto simp: ready_block intro!: finishes_bind)

lemma ready_stringCopy: "ready v k \<Longrightarrow> \<forall>e \<in> set (opt_list eo). small k e \<Longrightarrow> finishes (stringCopyStep v t eo src st)"
  unfolding stringCopyStep_def
  by (auto simp: ready_cstring ready_form intro!: finishes_bind split: option.split)

lemma block_small: "\<forall>s \<in> set (blockStmts b). labelFreeStmt s \<Longrightarrow> size b < k \<Longrightarrow> smallBlock k b"
  by (simp add: smallBlock_def labelFreeBlock_def)

lemma block_children: "smallBlock k b \<Longrightarrow> \<forall>s \<in> set (blockStmts b). smallStmt k s"
  by (auto simp: smallBlock_def smallStmt_def labelFreeBlock_def dest: size_block)

lemma ready_stmtNode:
  assumes v: "ready v k" and s: "labelFreeStmt (Stmt b n)" "size (Stmt b n) \<le> k"
  shows "finishes (stmtNodeStep specs v n st)"
proof (cases n)
  case (CallStmt es d)
  have "finishes (callStmtStep specs v es d st)"
  proof (cases es)
    case Nil
    then show ?thesis
      by (simp add: callStmtStep_def prepareStaticCallArguments_def evaluationOrder_def validateOperands_def
          validateStaticMemoryOperands_def Let_def)
  next
    case (Cons x xs)
    then show ?thesis using stmt_children [OF s] CallStmt v by (intro ready_callStmt [of v k]) auto
  qed
  then show ?thesis by (simp add: CallStmt stmtNodeStep_def)
next
  case (LabelStmt l t)
  then show ?thesis using s by (auto elim: labelFreeStmtE)
next
  case (InputCallStore c fo fmt counts scans f)
  then show ?thesis using stmt_children [OF s] v
    by (auto simp: stmtNodeStep_def intro!: finishes_bind ready_exprs [of v k] ready_cstring [of v k] simp del: foldOption.simps)
next
  case (IfStmt c t e)
  then show ?thesis using stmt_children [OF s] s v
    by (auto simp: stmtNodeStep_def stmtStmts_def smallStmt_def intro!: ready_if [of v k] block_small split: option.splits)
next
  case (WhileStmt c body)
  then show ?thesis using stmt_children [OF s] s v
    by (auto simp: stmtNodeStep_def stmtStmts_def smallStmt_def intro!: ready_while [of v k] block_small)
next
  case (ForStmt i c p body)
  then show ?thesis using stmt_children [OF s] s v
    by (auto simp: stmtNodeStep_def stmtStmts_def smallStmt_def intro!: ready_for [of v k] block_small split: option.splits)
next
  case (TryCatchStmt t x1 x2 x3 x4 c)
  then show ?thesis using stmt_children [OF s] s v
    by (auto simp: stmtNodeStep_def stmtStmts_def smallStmt_def intro!: ready_try [of v k] block_small)
qed (use stmt_children [OF s] v in \<open>auto simp: stmtNodeStep_def Let_def stmtStmts_def ready_expr ready_form ready_stmt ready_user
    ready_stringCopy ready_sequence ready_exprs simp del: foldOption.simps split: option.split\<close>)

lemma ready_stmtStep: "ready v k \<Longrightarrow> labelFreeStmt s \<Longrightarrow> size s \<le> k \<Longrightarrow> finishes (stmtStep specs v s st)"
  by (cases s) (simp add: stmtStep_def ready_stmtNode)

lemma labels_none: "\<forall>s \<in> set ss. labelFreeStmt s \<Longrightarrow> blockLabels ss = fmempty"
proof -
  assume lf: "\<forall>s \<in> set ss. labelFreeStmt s"
  have "fold (\<lambda>index m. case ss ! index of Stmt b n \<Rightarrow>
      (case n of LabelStmt l s \<Rightarrow> if fmlookup m l = None then fmupd l index m else m | _ \<Rightarrow> m)) is fmempty = fmempty"
    if "\<forall>i \<in> set is. i < length ss" for "is"
    using that
  proof (induction "is")
    case (Cons i "is")
    have "labelFreeStmt (ss ! i)" using lf Cons.prems by simp
    then obtain b n where "ss ! i = Stmt b n" "\<forall>l s. n \<noteq> LabelStmt l s" by (cases "ss ! i") (auto elim: labelFreeStmtE)
    then show ?case using Cons by (cases n) simp_all
  qed simp
  then show ?thesis by (simp add: blockLabels_def)
qed

lemma ready_blockStep:
  assumes "ready v k" "labelFreeBlock b" "size b \<le> k"
  shows "finishes (blockStep fuel v b st)"
proof (cases b)
  case (Block ss r)
  then have "\<forall>s \<in> set ss. smallStmt k s" using assms(2,3) size_block [of _ b]
    by (fastforce simp: labelFreeBlock_def smallStmt_def)
  then have "finishes (sequence v ss st)" for st using assms(1) by (simp add: ready_sequence)
  then have "finishes (straightLine v ss locals st)" for locals st
    by (auto simp: straightLine_def Let_def intro!: finishes_bind)
  moreover have "blockLabels ss = fmempty" using assms(2) Block by (intro labels_none) (simp add: labelFreeBlock_def)
  ultimately show ?thesis by (simp add: Block blockStep_def)
qed

section \<open>The analysis\<close>

definition returnsWithin :: "nat \<Rightarrow> BuiltinSpecs \<Rightarrow> bool" where
  "returnsWithin n specs \<longleftrightarrow> (let v = validators n specs in
     (\<forall>e st. labelFreeExpr e \<longrightarrow> 2 * size e \<le> n \<longrightarrow> finishes (validateExpr v e st)) \<and>
     (\<forall>e st. labelFreeExpr e \<longrightarrow> 2 * size e + 1 \<le> n \<longrightarrow> finishes (validateFormation v e st)) \<and>
     (\<forall>s st. labelFreeStmt s \<longrightarrow> 2 * size s \<le> n \<longrightarrow> finishes (validateStmt v s st)) \<and>
     (\<forall>b st. labelFreeBlock b \<longrightarrow> 2 * size b \<le> n \<longrightarrow> finishes (validateBlock v b st)))"

lemma ready_validators: "returnsWithin n specs \<Longrightarrow> ready (validators n specs) ((n + 1) div 2)"
  unfolding returnsWithin_def ready_def small_def smallStmt_def smallBlock_def Let_def by auto

lemma size_positive: "0 < size (e :: Expr)" "0 < size (s :: Stmt)" "0 < size (b :: Block)"
  by (cases e, simp) (cases s, simp, cases b, simp)

lemma validators_return: "returnsWithin n specs"
proof (induction n)
  case 0
  then show ?case by (auto simp: returnsWithin_def size_positive [THEN gr_implies_not0])
next
  case (Suc n)
  note r = ready_validators [OF Suc]
  have "finishes (formationStep (validators n specs) e st)" if "labelFreeExpr e" "2 * size e + 1 \<le> Suc n" for e st
  proof (rule ready_formationStep [OF r that(1)])
    show "size e \<le> (n + 1) div 2" using that(2) by simp
    have "2 * size e \<le> n" using that(2) by simp
    with Suc that(1) show "finishes (validateExpr (validators n specs) e st)"
      unfolding returnsWithin_def Let_def by blast
  qed
  then show ?case
    using ready_exprStep [OF r] ready_stmtStep [OF r] ready_blockStep [OF r] by (auto simp: returnsWithin_def Let_def)
qed

text \<open>
  C20. A walk over a block returns to where it started.  A block without labels returns with twice its size
  rounds.  Whatever the block contains, when it returns the stack of block
  contexts has the same labels and locals in the same order, the loops being left are the same, the range for
  diagnostics and the options are restored, no global is forgotten, and the diagnostics reported so far
  are still there, followed by those of the block.
\<close>

theorem validateBlock_frame:
  "case validateBlock (validators fuel specs) b (an, contexts) of
     None \<Rightarrow> \<not> (labelFreeBlock b \<and> 2 * size b \<le> fuel)
   | Some ((an', contexts'), falls) \<Rightarrow>
       map labelIndexes contexts' = map labelIndexes contexts \<and>
       map ctx_localBindings contexts' = map ctx_localBindings contexts \<and>
       map loop_exitScope (staticLoopContexts an') = map loop_exitScope (staticLoopContexts an) \<and>
       currentDiagnosticRange an' = currentDiagnosticRange an \<and> safetyOptions an' = safetyOptions an \<and>
       set (staticGlobalBindings an) \<subseteq> set (staticGlobalBindings an') \<and>
       (\<exists>reported. safetyDiagnostics an' = safetyDiagnostics an @ reported)"
proof (cases "validateBlock (validators fuel specs) b (an, contexts)")
  case None
  moreover have "finishes (validateBlock (validators fuel specs) b (an, contexts))" if "labelFreeBlock b" "2 * size b \<le> fuel"
    using that validators_return [of fuel specs] unfolding returnsWithin_def Let_def by blast
  ultimately show ?thesis by (auto simp: returns_def)
next
  case (Some r)
  obtain an' contexts' falls where r: "r = ((an', contexts'), falls)" by (metis prod.exhaust)
  from block_framed [OF Some [unfolded r]] show ?thesis unfolding Some r by (simp add: keptAn_def frameOf_def prefix_def)
qed

definition unitBlocks :: "TranslationUnit \<Rightarrow> Block list" where
  "unitBlocks unit = opt_list (tu_globalInit unit) @ map fn_body (tu_functions unit)"

text \<open>
  C21. The static safety analysis returns on every unit without labels: when no statement is labelled,
  a number of rounds of twice the size of the largest block is enough for the whole analysis to deliver its
  list of diagnostics, whatever the table of builtins and the options are.
\<close>

theorem analyzeStaticSafety_returns:
  assumes "\<forall>b \<in> set (unitBlocks unit). labelFreeBlock b" and "\<forall>b \<in> set (unitBlocks unit). 2 * size b \<le> fuel"
  shows "\<exists>ds. analyzeStaticSafety fuel specs unit options = Some ds"
proof -
  have block: "finishes (validateBlock (validators fuel specs) b st)" if "b \<in> set (unitBlocks unit)" for b st
    using that assms validators_return [of fuel specs] unfolding returnsWithin_def Let_def by blast
  have "finishes (validateUnit fuel specs unit an)" for an
    unfolding validateUnit_def Let_def
  proof (rule finishes_bind, goal_cases)
    case 1
    show ?case using block by (auto simp: unitBlocks_def split: option.splits)
  next
    case (2 r)
    show ?case by (rule returns_fold) (use block in \<open>auto simp: unitBlocks_def\<close>)
  qed
  then show ?thesis by (auto simp: analyzeStaticSafety_def returns_def)
qed

definition exampleUnit :: TranslationUnit where
  "exampleUnit = \<lparr>tu_globals = [], tu_structs = [], tu_viewTemplates = [], tu_implOps = [], tu_externFunctions = [],
     tu_functions = [\<lparr>fn_name = ''main'', fn_range = None, fn_parameters = [], fn_returnByteLengths = [],
        fn_body = Block [plainStmt (WhileStmt (Expr \<lparr>expr_range = None, expr_result = viewSemanticsForTemplate ''i32'' 4 False False Signed\<rparr>
          (IntegerLiteral ''1'' 4)) (Block [plainStmt BreakStmt] None))] None,
        fn_linkage = External, fn_abiSignature = None, fn_usesViewAbi = False, fn_viewResultByteLength = 0\<rparr>],
     tu_globalInit = None\<rparr>"

theorem analyzeStaticSafety_returns_witness:
  "\<exists>ds. analyzeStaticSafety 100 noSpecs exampleUnit \<lparr>opt_enabled = True, opt_runtimeChecksEnabled = False\<rparr> = Some ds"
  by (rule analyzeStaticSafety_returns)
    (auto simp: exampleUnit_def unitBlocks_def labelFreeBlock_def plainStmt_def stmtStmts_def exprStmts_def
      intro!: labelFreeStmt labelFreeExpr)

end
