(* ===== verification/Safety_Checks.thy ===== *)
theory Safety_Checks
  imports Safety_Validate
begin

text \<open>
  What the checks of the static safety analysis decide: its checked arithmetic is exact, its constants are
  values of the expressions, an access is reported exactly when the known address does not allow it, and a
  released object is recognised on the next use.
\<close>

section \<open>Checked arithmetic\<close>

lemma sint_of_int_fits: "- (2 ^ 63) \<le> k \<Longrightarrow> k < 2 ^ 63 \<Longrightarrow> sint (word_of_int k :: 64 word) = k"
  by (simp add: sint_sbintrunc' signed_take_bit_int_eq_self)

lemma sint_bounds: "- (2 ^ 63) \<le> sint (a :: 64 word)" "sint (a :: 64 word) < 2 ^ 63"
  using sint_ge [of a] sint_lt [of a] by simp_all

lemma sint_add_fits:
  "- (2 ^ 63) \<le> sint a + sint b \<Longrightarrow> sint a + sint b < 2 ^ 63 \<Longrightarrow> sint (a + b) = sint a + sint (b :: 64 word)"
  using sint_of_int_fits [of "sint a + sint b"] by simp

lemma sint_maxInt64_minus: "0 < sint b \<Longrightarrow> sint (maxInt64 - b) = 2 ^ 63 - 1 - sint (b :: 64 word)"
  using sint_of_int_fits [of "2 ^ 63 - 1 - sint b"] sint_bounds [of b] by (simp add: maxInt64_def)

lemma sint_minInt64_minus: "sint b < 0 \<Longrightarrow> sint (minInt64 - b) = - (2 ^ 63) - sint (b :: 64 word)"
proof -
  assume "sint b < 0"
  moreover have "minInt64 - b = word_of_int (- (2 ^ 63) - sint b)"
  proof -
    have "(word_of_int (- (2 ^ 63)) :: 64 word) = minInt64" by (simp add: minInt64_def)
    then show ?thesis by (simp only: of_int_diff of_int_sint scast_id)
  qed
  ultimately show ?thesis using sint_of_int_fits [of "- (2 ^ 63) - sint b"] sint_bounds [of b] by simp
qed

lemma addSignedIntegers_cases:
  "addSignedIntegers a b = (if - (2 ^ 63) \<le> sint a + sint b \<and> sint a + sint b < 2 ^ 63 then Some (a + b) else None)"
proof (cases "sint b" "0 :: int" rule: linorder_cases)
  case less
  then show ?thesis using sint_bounds [of a] by (auto simp: addSignedIntegers_def sint_minInt64_minus)
next
  case equal
  then show ?thesis using sint_bounds [of a] by (simp add: addSignedIntegers_def)
next
  case greater
  then show ?thesis using sint_bounds [of a] by (auto simp: addSignedIntegers_def sint_maxInt64_minus)
qed

lemma multiply_cases:
  "multiplyUnsignedIntegers x y = (if unat x * unat y < 2 ^ 64 then Some (x * y) else None)"
proof (cases "x = 0")
  case False
  then show ?thesis using word_product_fits [of x y] by (simp add: multiplyUnsignedIntegers_def mult.commute)
qed (simp add: multiplyUnsignedIntegers_def)

lemma sint_inject: "sint c = sint d \<Longrightarrow> c = (d :: 64 word)"
  by (metis of_int_sint scast_id)

text \<open>
  The arithmetic of the analysis never wraps: a sum of two signed offsets is returned exactly when it is the
  true sum, and a product of two sizes exactly when it is the true product; otherwise the result is unknown.
\<close>

theorem checked_arithmetic_exact:
  "(addSignedIntegers a b = Some c \<longleftrightarrow> sint c = sint a + sint b) \<and>
   (multiplyUnsignedIntegers x y = Some z \<longleftrightarrow> unat z = unat x * unat y)"
proof
  show "addSignedIntegers a b = Some c \<longleftrightarrow> sint c = sint a + sint b"
    using sint_bounds [of c] sint_add_fits [of a b] by (auto simp: addSignedIntegers_cases intro: sint_inject)
  show "multiplyUnsignedIntegers x y = Some z \<longleftrightarrow> unat z = unat x * unat y"
  proof -
    have "unat z < 2 ^ 64" by (rule order.strict_trans2 [OF unsigned_less]) simp
    then show ?thesis by (auto simp: multiply_cases unat_word_ariths intro: word_unat_eq_iff [THEN iffD2])
  qed
qed

section \<open>Accesses\<close>

text \<open>
  What a known address allows, over the unbounded integers: not null, not expired, not freed, and the bytes
  accessed inside the known range.
\<close>

definition accessAllowed :: "StaticAddressFact option \<Rightarrow> uint64 \<Rightarrow> StaticSafetyAnalyzer \<Rightarrow> bool" where
  "accessAllowed known n an \<longleftrightarrow>
     (case known of
        None \<Rightarrow> True
      | Some f \<Rightarrow> n = 0 \<or>
          (fact_origin f \<noteq> NullAddress \<and> fact_origin f \<noteq> ExpiredLocalObject \<and>
           \<not> (fact_origin f = DynamicObject \<and> fmlookup (dynamicObjectStates (current an)) (fact_dynamicObjectId f) = Some Freed) \<and>
           (case fact_range f of
              None \<Rightarrow> True
            | Some r \<Rightarrow> 0 \<le> sint (rng_offset r) \<and> sint (rng_lowerBound r) \<le> sint (rng_offset r) \<and>
                sint (rng_offset r) + uint n \<le> uint (rng_upperBound r))))"

lemma uint_sint: "uint (a :: 64 word) = sint a mod 2 ^ 64"
proof -
  have "uint a = sint a mod 2 ^ LENGTH(64)" by (metis uint_word_of_int of_int_sint scast_id)
  then show ?thesis by simp
qed

lemma uint_of_nonnegative: "0 \<le> sint (a :: 64 word) \<Longrightarrow> uint a = sint a"
  using uint_sint [of a] sint_bounds(2) [of a] by simp

lemma outOfRange_exact:
  "0 \<le> sint (rng_offset r) \<Longrightarrow> outOfRange n r \<longleftrightarrow>
     sint (rng_offset r) < sint (rng_lowerBound r) \<or> uint (rng_upperBound r) < sint (rng_offset r) + uint n"
proof -
  assume "0 \<le> sint (rng_offset r)"
  then have u: "uint (rng_offset r) = sint (rng_offset r)" by (rule uint_of_nonnegative)
  show ?thesis
  proof (cases "rng_offset r \<le> rng_upperBound r")
    case True
    then have "uint (rng_upperBound r - rng_offset r) = uint (rng_upperBound r) - uint (rng_offset r)"
      by (simp add: uint_sub_lem word_le_def)
    then show ?thesis using True by (auto simp: outOfRange_def word_less_def word_le_def u)
  next
    case False
    have "uint (rng_upperBound r) < sint (rng_offset r) + uint n"
      using False uint_nonnegative [of n] by (simp only: word_le_def u not_le)
    then show ?thesis using False by (auto simp: outOfRange_def)
  qed
qed

lemma reports_access:
  "safetyDiagnostics (validateStaticAddressAccess (Some f) op an) = safetyDiagnostics an \<longleftrightarrow>
     fact_origin f \<noteq> ExpiredLocalObject \<and>
     \<not> (fact_origin f = DynamicObject \<and> fmlookup (dynamicObjectStates (current an)) (fact_dynamicObjectId f) = Some Freed)"
  by (auto simp: validateStaticAddressAccess_def addSafetyDiagnostic_def addDiagnostic_def)

lemma access_prefix: "\<exists>ds. safetyDiagnostics (validateStaticAddressAccess known op an) = safetyDiagnostics an @ ds"
  by (auto simp: validateStaticAddressAccess_def addSafetyDiagnostic_def addDiagnostic_def split: option.split)

text \<open>
  C22. The check of a memory access is exact with respect to what is known of the address: it reports
  something exactly when the access is not allowed, that is, when a nonempty access goes through a null, expired or
  freed address or touches a byte outside the known range, computed without any wrap-around.
\<close>

theorem validateStaticMemoryAccess_exact:
  "safetyDiagnostics (validateStaticMemoryAccess known n op an) = safetyDiagnostics an \<longleftrightarrow> accessAllowed known n an"
proof (cases known)
  case (Some f)
  have step: "safetyDiagnostics (addSafetyDiagnostic m (validateStaticAddressAccess (Some f) op an)) \<noteq> safetyDiagnostics an" for m
    using access_prefix [of "Some f" op an] by (auto simp: addSafetyDiagnostic_def addDiagnostic_def)
  show ?thesis
  proof (cases "n = 0 \<or> fact_origin f = NullAddress")
    case True
    then show ?thesis
      by (auto simp: Some validateStaticMemoryAccess_def accessAllowed_def addSafetyDiagnostic_def addDiagnostic_def)
  next
    case False
    then show ?thesis
      using step reports_access [of f op an]
      by (auto simp: Some validateStaticMemoryAccess_def accessAllowed_def Let_def outOfRange_exact not_less
          split: option.split)
  qed
qed (simp add: validateStaticMemoryAccess_def accessAllowed_def)

section \<open>Constants\<close>

text \<open>The value of a constant expression over the unbounded integers.\<close>

definition wrapTo :: "bool \<Rightarrow> nat \<Rightarrow> int \<Rightarrow> int" where
  "wrapTo isSigned bits x = (if isSigned then (x + 2 ^ (bits - 1)) mod 2 ^ bits - 2 ^ (bits - 1) else x mod 2 ^ bits)"

function constantValue :: "Expr \<Rightarrow> int option" where
  "constantValue (Expr b n) =
     (case n of
        CallExpr es d \<Rightarrow> map_option uint (staticLengthCall es d)
      | IntegerLiteral v l \<Rightarrow> map_option uint (parseUnsignedIntegerLiteral v)
      | UnaryExpr op e l \<Rightarrow>
          (case constantValue e of
             None \<Rightarrow> None
           | Some x \<Rightarrow> if op = ''-'' then Some (- x) else if op = ''+'' then Some x else None)
      | IntegerCastExpr e l s \<Rightarrow>
          if l = 0 \<or> 8 < l then None else map_option (wrapTo s (unat l * 8)) (constantValue e)
      | TemplateViewExpr e l t a \<Rightarrow> constantValue e
      | _ \<Rightarrow> None)"
  by pat_completeness auto
termination by (relation "measure size") auto

lemma asSigned_value: "asSigned u = Some v \<Longrightarrow> sint v = uint u"
proof -
  assume "asSigned u = Some v"
  then have v: "v = u" "uint u \<le> 2 ^ 63 - 1" by (auto simp: asSigned_def maxInt64_def word_le_def split: if_splits)
  have "word_of_int (uint u) = u" by simp
  then show ?thesis using v sint_of_int_fits [of "uint u"] uint_nonnegative [of u] by simp
qed

lemma negate_value: "negate v = Some w \<Longrightarrow> sint w = - sint v"
proof -
  assume "negate v = Some w"
  then have w: "w = - v" "v \<noteq> minInt64" by (auto simp: negate_def split: if_splits)
  have "sint v \<noteq> - (2 ^ 63)"
  proof
    assume "sint v = - (2 ^ 63)"
    then have "v = word_of_int (- (2 ^ 63))" by (metis of_int_sint scast_id)
    then show False using w(2) by (simp add: minInt64_def)
  qed
  then have "- (2 ^ 63) \<le> - sint v" "- sint v < 2 ^ 63" using sint_bounds [of v] by linarith+
  moreover have "- v = word_of_int (- sint v)" by simp
  ultimately show ?thesis using w sint_of_int_fits [of "- sint v"] by simp
qed

lemma uint_lowBytes: "0 < l \<Longrightarrow> l < 8 \<Longrightarrow> uint (lowBytes l v) = sint v mod 2 ^ (unat l * 8)"
proof -
  assume l: "0 < l" "l < 8"
  then have "unat l < 8" by (simp add: word_less_nat_alt)
  then have le: "unat l * 8 \<le> 64" by simp
  have "lowBytes l v = take_bit (unat l * 8) v" by (simp add: lowBytes_def take_bit_eq_mask mask_eq_exp_minus_1)
  then have "uint (lowBytes l v) = take_bit (unat l * 8) (uint v)" by (simp add: unsigned_take_bit_eq)
  moreover have "uint v = take_bit 64 (sint v)" by (simp add: take_bit_eq_mod uint_sint)
  ultimately have "uint (lowBytes l v) = take_bit (unat l * 8) (sint v)"
    using le by (simp only: take_bit_take_bit min_absorb1)
  then show ?thesis by (simp add: take_bit_eq_mod)
qed

lemma div_less_of_less: "x < 2 ^ Suc n \<Longrightarrow> x div 2 ^ n < (2 :: int)"
proof (rule ccontr)
  assume x: "x < 2 ^ Suc n" and "\<not> x div 2 ^ n < 2"
  then have "2 * 2 ^ n \<le> x div 2 ^ n * 2 ^ n" by (intro mult_right_mono) auto
  also have "\<dots> \<le> x" by (simp add: minus_mod_eq_div_mult [symmetric])
  finally show False using x by simp
qed

lemma sint_small: "uint t < 2 ^ 63 \<Longrightarrow> sint (t :: 64 word) = uint t"
  using sint_of_int_fits [of "uint t"] order_trans [of "- (2 ^ 63)" 0 "uint t"] by simp

lemma bit_of_small:
  fixes t :: "64 word"
  assumes "uint t < 2 ^ Suc n" and n: "n < 62"
  shows "bit t n \<longleftrightarrow> 2 ^ n \<le> uint t"
proof -
  have "uint t div 2 ^ n < 2" using assms(1) by (rule div_less_of_less)
  moreover have "0 \<le> uint t div 2 ^ n" by (simp add: pos_imp_zdiv_nonneg_iff)
  ultimately have "uint t div 2 ^ n = 0 \<or> uint t div 2 ^ n = 1" by linarith
  then have "odd (uint t div 2 ^ n) \<longleftrightarrow> uint t div 2 ^ n = 1" by auto
  moreover have "uint t div 2 ^ n = 1 \<longleftrightarrow> 2 ^ n \<le> uint t"
  proof
    assume "uint t div 2 ^ n = 1"
    then show "2 ^ n \<le> uint t" by (metis div_pos_pos_trivial not_le unsigned_greater_eq zero_neq_one)
  next
    assume "2 ^ n \<le> uint t"
    then have "0 < uint t div 2 ^ n" by (simp add: pos_imp_zdiv_pos_iff)
    then show "uint t div 2 ^ n = 1" using \<open>uint t div 2 ^ n < 2\<close> by simp
  qed
  ultimately show ?thesis using n bit_uint_iff [of t n] by (simp add: bit_iff_odd)
qed

lemma flip_sign:
  fixes t :: "64 word"
  assumes t: "uint t < 2 ^ Suc n" and n: "n < 62"
  shows "sint (xor t (2 ^ n) - 2 ^ n) = (uint t + 2 ^ n) mod 2 ^ Suc n - 2 ^ n"
proof -
  have small: "(2 :: int) ^ Suc n \<le> 2 ^ 62" using n by (intro power_increasing) auto
  have flip: "xor t (2 ^ n) = flip_bit n t" by (simp add: flip_bit_eq_xor push_bit_eq_mult)
  have id: "word_of_int (uint t) = t" by simp
  show ?thesis
  proof (cases "bit t n")
    case True
    then have le: "2 ^ n \<le> uint t" using bit_of_small [OF t n] by simp
    have "xor t (2 ^ n) - 2 ^ n = t - 2 ^ Suc n" using True by (simp add: flip flip_bit_eq_if unset_bit_eq)
    also have "\<dots> = word_of_int (uint t - 2 ^ Suc n)" by (simp add: of_int_diff)
    finally have word: "xor t (2 ^ n) - 2 ^ n = word_of_int (uint t - 2 ^ Suc n)" .
    have "- (2 ^ 63) \<le> uint t - 2 ^ Suc n" "uint t - 2 ^ Suc n < 2 ^ 63" using le t small by simp_all
    then have "sint (xor t (2 ^ n) - 2 ^ n) = uint t - 2 ^ Suc n" unfolding word by (rule sint_of_int_fits)
    moreover have "(uint t + 2 ^ n) mod 2 ^ Suc n = (uint t - 2 ^ n) mod 2 ^ Suc n"
    proof -
      have "uint t + 2 ^ n = uint t - 2 ^ n + 2 ^ Suc n" by simp
      then show ?thesis by (simp only: mod_add_self2)
    qed
    moreover have "(uint t - 2 ^ n) mod 2 ^ Suc n = uint t - 2 ^ n" using le t by (intro mod_pos_pos_trivial) auto
    ultimately show ?thesis by simp
  next
    case False
    then have lt: "uint t < 2 ^ n" using bit_of_small [OF t n] by simp
    have "xor t (2 ^ n) - 2 ^ n = t" using False by (simp add: flip flip_bit_eq_if set_bit_eq)
    moreover have "sint t = uint t" using lt small by (intro sint_small) simp
    moreover have "(uint t + 2 ^ n) mod 2 ^ Suc n = uint t + 2 ^ n" using lt by (intro mod_pos_pos_trivial) auto
    ultimately show ?thesis by simp
  qed
qed

lemma signedCast_value:
  assumes "signedCast l s v = Some w"
  shows "0 < l \<and> l \<le> 8 \<and> sint w = wrapTo s (unat l * 8) (sint v)"
proof (cases "l = 8")
  case True
  then have w: "w = v" "s \<or> 0 \<le> sint v" using assms by (auto simp: signedCast_def split: if_splits)
  have "wrapTo s 64 (sint v) = sint v"
    using w(2) sint_bounds [of v] by (auto simp: wrapTo_def)
  then show ?thesis using True w(1) by simp
next
  case False
  then have l: "0 < l" "l < 8" using assms by (auto simp: signedCast_def word_gt_0 not_less split: if_splits)
  have bytes: "0 < unat l" "unat l < 8" using l by (simp_all add: word_less_nat_alt)
  define n where "n = unat l * 8 - 1"
  have n: "unat l * 8 = Suc n" "n < 62" using bytes by (simp_all add: n_def)
  have low: "uint (lowBytes l v) = sint v mod 2 ^ Suc n" using uint_lowBytes [OF l] n(1) by simp
  have w: "w = (if s then xor (lowBytes l v) (2 ^ n) - 2 ^ n else lowBytes l v)"
    using assms l False by (auto simp: signedCast_def Let_def n_def split: if_splits)
  have lt: "uint (lowBytes l v) < 2 ^ Suc n" unfolding low by (rule pos_mod_bound) simp
  show ?thesis
  proof (cases s)
    case True
    then have "sint w = (uint (lowBytes l v) + 2 ^ n) mod 2 ^ Suc n - 2 ^ n"
      using w flip_sign [OF lt n(2)] by simp
    then show ?thesis using True l n(1) by (simp add: wrapTo_def low mod_add_left_eq less_imp_le del: power_Suc)
  next
    case False
    have "(2 :: int) ^ Suc n \<le> 2 ^ 62" using n by (intro power_increasing) auto
    then have "uint (lowBytes l v) < 2 ^ 63" using lt by simp
    then have "sint w = uint (lowBytes l v)" using w False sint_small by simp
    then show ?thesis using False l n(1) by (simp add: wrapTo_def low less_imp_le del: power_Suc)
  qed
qed

definition literalBase :: ExprBase where
  "literalBase = \<lparr>expr_range = None, expr_result = viewSemanticsForTemplate ''i32'' 4 False False Signed\<rparr>"

lemma literalValue_constant: "literalValue e = Some u \<Longrightarrow> constantValue e = Some (uint u)"
  by (cases e) (auto simp: literalValue_def split: ExprNode.splits)

text \<open>
  C24. When the analysis takes an expression for a signed constant, the constant is the value of the expression
  over the unbounded integers, where a cast keeps the low bytes of its operand and reads them at the width and
  the signedness of the cast: no literal, negation or cast wraps around unnoticed at 64 bits.
\<close>

theorem constantSignedInteger_value:
  "constantSignedInteger e = Some v \<Longrightarrow> constantValue e = Some (sint v)"
proof (induction e arbitrary: v rule: constantSignedInteger.induct)
  case (1 b n)
  show ?case
  proof (cases n)
    case (UnaryExpr op e l)
    show ?thesis
    proof (cases "op = ''-'' \<and> literalValue e = Some (maxInt64 + 1)")
      case True
      then have "v = minInt64" "constantValue e = Some (uint (maxInt64 + 1))"
        using 1(4) UnaryExpr by (simp_all add: constantSignedInteger.simps literalValue_constant)
      moreover have "uint (maxInt64 + 1) = - sint minInt64" by (simp add: maxInt64_def minInt64_def)
      ultimately show ?thesis using True UnaryExpr by simp
    next
      case False
      then have "constantSignedInteger e \<noteq> None"
        using 1(4) UnaryExpr by (auto simp: constantSignedInteger.simps split: option.splits)
      then obtain u where u: "constantSignedInteger e = Some u"
        by (cases "constantSignedInteger e") simp_all
      have value_e: "constantValue e = Some (sint u)"
        by (rule 1(1) [OF UnaryExpr False u])
      have "(if op = ''-'' then negate u else if op = ''+'' then Some u else None) = Some v"
        using 1(4) UnaryExpr False u by (auto simp: constantSignedInteger.simps split: if_splits)
      then show ?thesis using value_e UnaryExpr by (auto dest: negate_value split: if_splits)
    qed
  next
    case (IntegerCastExpr e l s)
    then obtain u where u: "constantSignedInteger e = Some u" "signedCast l s u = Some v"
      using 1(4) by (auto simp: constantSignedInteger.simps bind_eq_Some_conv)
    have "constantValue e = Some (sint u)" by (rule 1(2) [OF IntegerCastExpr u(1)])
    then show ?thesis using IntegerCastExpr signedCast_value [OF u(2)] by (auto simp: not_less)
  qed (use 1 in \<open>auto simp: constantSignedInteger.simps bind_eq_Some_conv dest: asSigned_value\<close>)
qed

theorem constantSignedInteger_value_witness:
  "constantValue (Expr literalBase (IntegerCastExpr (Expr literalBase (IntegerLiteral ''200'' 8)) 1 True)) = Some (- 56)"
proof -
  let ?e = "Expr literalBase (IntegerCastExpr (Expr literalBase (IntegerLiteral ''200'' 8)) 1 True)"
  have "parseUnsignedIntegerLiteral ''200'' = Some 200" by code_simp
  then have "constantSignedInteger ?e = Some (- 56)"
    by (simp add: constantSignedInteger.simps asSigned_def maxInt64_def signedCast_def lowBytes_def)
  then show ?thesis using constantSignedInteger_value [of ?e "- 56"] by simp
qed

section \<open>Released objects\<close>

lemma setObjectState_reads:
  "capturedFact (setObjectState i s an) = capturedFact an"
  "bindingContentKey (setObjectState i s an) = bindingContentKey an"
  "staticContentKey (setObjectState i s an) = staticContentKey an"
  "staticBindingAddressFact (setObjectState i s an) = staticBindingAddressFact an"
  "integerValues (current (setObjectState i s an)) = integerValues (current an)"
  "unsignedIntegerValues (current (setObjectState i s an)) = unsignedIntegerValues (current an)"
  "addressFacts (current (setObjectState i s an)) = addressFacts (current an)"
  by (auto simp: fun_eq_iff setObjectState_def onState_def capturedFact_def bindingContentKey_def staticContentKey_def
      staticBindingAddressFact_def split: option.split)

lemma staticFacts_setObjectState:
  "staticSignedInteger (setObjectState i s an) e = staticSignedInteger an e \<and>
   staticUnsignedInteger (setObjectState i s an) e = staticUnsignedInteger an e \<and>
   staticAddressFact (setObjectState i s an) e = staticAddressFact an e"
proof (induction e rule: measure_induct_rule [where f = size])
  case (less e)
  obtain b n where e: "e = Expr b n" by (cases e)
  have "staticSignedInteger (setObjectState i s an) e = staticSignedInteger an e"
    using less unfolding e by (cases n; cases "constantSignedInteger (Expr b n)")
      (simp_all add: staticSignedInteger.simps setObjectState_reads)
  moreover have "staticUnsignedInteger (setObjectState i s an) e = staticUnsignedInteger an e"
    using less unfolding e by (cases n; cases "constantUnsignedInteger (Expr b n)")
      (simp_all add: staticUnsignedInteger.simps setObjectState_reads split: option.split)
  ultimately show ?case
    using less unfolding e by (cases n)
      (simp_all add: staticAddressFact.simps setObjectState_reads Let_def split: option.split)
qed

lemma releasedObject:
  assumes "releaseStaticDynamicObject e an = (an', True)" and "staticAddressFact an e = Some f"
  shows "staticAddressFact an' = staticAddressFact an" and "fmlookup (dynamicObjectStates (current an')) (fact_dynamicObjectId f) = Some Freed"
proof -
  have an': "an' = setObjectState (fact_dynamicObjectId f) Freed an"
    using assms by (auto simp: releaseStaticDynamicObject_def split: if_splits)
  show "staticAddressFact an' = staticAddressFact an" unfolding an' by (simp add: fun_eq_iff staticFacts_setObjectState)
  show "fmlookup (dynamicObjectStates (current an')) (fact_dynamicObjectId f) = Some Freed"
    by (simp add: an' setObjectState_def onState_def)
qed

lemma addSafetyDiagnostic_appends: "\<exists>ds. safetyDiagnostics (addSafetyDiagnostic m an) = safetyDiagnostics an @ ds"
  by (simp add: addSafetyDiagnostic_def addDiagnostic_def)

lemma memoryAccess_reports:
  assumes "validateStaticAddressAccess (Some g) op an = bad" "n \<noteq> 0" "fact_origin g \<noteq> NullAddress"
  shows "\<exists>ds. safetyDiagnostics (validateStaticMemoryAccess (Some g) n op an) = safetyDiagnostics bad @ ds"
  using assms addSafetyDiagnostic_appends by (auto simp: validateStaticMemoryAccess_def Let_def split: option.split)

lemma memoryAccess_appends:
  "\<exists>ds. safetyDiagnostics (validateStaticMemoryAccess known n op an) = safetyDiagnostics an @ ds"
proof (cases known)
  case (Some g)
  show ?thesis
  proof (cases "n = 0 \<or> fact_origin g = NullAddress")
    case True
    then show ?thesis using Some addSafetyDiagnostic_appends by (auto simp: validateStaticMemoryAccess_def)
  next
    case False
    obtain ds where "safetyDiagnostics (validateStaticAddressAccess (Some g) op an) = safetyDiagnostics an @ ds"
      using access_prefix by blast
    then show ?thesis using False Some memoryAccess_reports [OF refl, of n g op an] by fastforce
  qed
qed (simp add: validateStaticMemoryAccess_def)

text \<open>
  C23. After the analysis has accepted a release of an object, the object is recognised through every address into
  it, an alias or an interior pointer as well.  Every access of at least one byte and every dereference is
  reported as a use after free.  Every expression that denotes its base address has another release reported as a
  double free and a reallocation as invalid, an interior address is reported as none, and releasing once more
  through any of them changes nothing.
\<close>

theorem released_object_recognised:
  assumes "releaseStaticDynamicObject e an = (an', True)" and "staticAddressFact an e = Some f"
    and "fact_origin g = DynamicObject" and "fact_dynamicObjectId g = fact_dynamicObjectId f"
  shows "validateStaticAddressAccess (Some g) op an' = addSafetyDiagnostic (''use after free '' @ op) an' \<and>
    (n \<noteq> 0 \<longrightarrow> (\<exists>ds. safetyDiagnostics (validateStaticMemoryAccess (Some g) n op an') =
      safetyDiagnostics (addSafetyDiagnostic (''use after free '' @ op) an') @ ds)) \<and>
    (\<forall>e'. staticAddressFact an e' = Some g \<longrightarrow>
      staticAddressFact an' e' = Some g \<and>
      (\<exists>ds. safetyDiagnostics (checkDeref e' l an') =
        safetyDiagnostics (addSafetyDiagnostic ''use after free dereference'' an') @ ds) \<and>
      validateStaticDynamicBase e' ''free'' an' = addSafetyDiagnostic
        (if fact_isBaseAddress g then ''double free'' else ''free requires a dynamic-object base address'') an' \<and>
      validateStaticDynamicBase e' ''realloc'' an' = addSafetyDiagnostic
        (if fact_isBaseAddress g then ''invalid reallocation of released dynamic object''
         else ''realloc requires a dynamic-object base address'') an' \<and>
      releaseStaticDynamicObject e' an' = (an', False))"
proof -
  note r = releasedObject [OF assms(1,2)]
  have access: "\<And>what. validateStaticAddressAccess (Some g) what an' = addSafetyDiagnostic (''use after free '' @ what) an'"
    using r(2) assms(3,4) by (simp add: validateStaticAddressAccess_def)
  have deref: "\<And>e'. staticAddressFact an' e' = Some g \<Longrightarrow> \<exists>ds. safetyDiagnostics (checkDeref e' l an') =
      safetyDiagnostics (addSafetyDiagnostic ''use after free dereference'' an') @ ds"
    using assms(3) access [of "''dereference''"] memoryAccess_appends by (simp add: checkDeref_def Let_def)
  show ?thesis
    using access [of op] memoryAccess_reports [OF access, of n] deref r assms(3,4)
    by (simp add: validateStaticDynamicBase_def releaseStaticDynamicObject_def)
qed

definition pointerVariable :: Expr where
  "pointerVariable = Expr literalBase (VariableRef
     \<lparr>var_name = ''p'', var_bindingName = ''p'', var_byteLength = 8, var_storage = LocalStorage, var_offset = 0,
      var_templateName = ''addr'', var_addressFacts = None\<rparr>)"

definition allocated :: StaticSafetyAnalyzer where
  "allocated = recordDynamicObject ''p'' (Some 16)
     ((newAnalyzer \<lparr>opt_enabled = True, opt_runtimeChecksEnabled = False\<rparr>)
        \<lparr>staticDefinitionByteLengths := fmupd ''p'' 8 fmempty\<rparr>)"

definition interiorPointer :: Expr where
  "interiorPointer = Expr literalBase (BinaryExpr pointerVariable (Expr literalBase (IntegerLiteral ''4'' 8))
     \<lparr>bin_op = ''+'', bin_byteLength = 8, bin_operationKind = AddressOffset, bin_operation = Add,
      bin_typedIntegerInterpretation = NoInterpretation, bin_addressFacts = None, bin_viewOffsetBounds = None\<rparr>)"

lemma allocated_fact:
  "staticAddressFact allocated pointerVariable = Some \<lparr>fact_origin = DynamicObject, fact_dynamicObjectId = 0, fact_isBaseAddress = True,
     fact_range = Some \<lparr>rng_bindingName = ''dynamic:'' @ show_nat 0, rng_lowerBound = 0, rng_offset = 0, rng_upperBound = 16\<rparr>\<rparr>"
  by (simp add: pointerVariable_def allocated_def newAnalyzer_def recordDynamicObject_def staticAddressFact.simps
      bindingContentKey_def staticContentKey_def staticBindingAddressFact_def contentFact_def factAt_def
      factRange_def emptySafetyState_def setAddressFact_def setObjectState_def onState_def)

lemma allocated_released: "releaseStaticDynamicObject pointerVariable allocated = (setObjectState 0 Freed allocated, True)"
  by (simp add: releaseStaticDynamicObject_def allocated_fact)
    (simp add: allocated_def newAnalyzer_def recordDynamicObject_def emptySafetyState_def setAddressFact_def setObjectState_def onState_def)

theorem released_object_recognised_witness:
  "\<exists>an'. releaseStaticDynamicObject pointerVariable allocated = (an', True) \<and>
     validateStaticDynamicBase pointerVariable ''free'' an' = addSafetyDiagnostic ''double free'' an' \<and>
     validateStaticDynamicBase interiorPointer ''free'' an' =
       addSafetyDiagnostic ''free requires a dynamic-object base address'' an' \<and>
     (\<exists>ds. safetyDiagnostics (checkDeref interiorPointer 1 an') =
        safetyDiagnostics (addSafetyDiagnostic ''use after free dereference'' an') @ ds)"
proof -
  have "parseUnsignedIntegerLiteral ''4'' = Some 4" by code_simp
  then obtain g where g: "staticAddressFact allocated interiorPointer = Some g" "fact_origin g = DynamicObject"
    "fact_dynamicObjectId g = 0" "\<not> fact_isBaseAddress g"
    by (simp add: interiorPointer_def staticAddressFact.simps allocated_fact staticSignedInteger.simps
        constantSignedInteger.simps asSigned_def maxInt64_def offsetFact_def shiftRange_def Let_def)
  show ?thesis
    using released_object_recognised [OF allocated_released allocated_fact g(2)]
      released_object_recognised [OF allocated_released allocated_fact, of "the (staticAddressFact allocated pointerVariable)"]
      g allocated_released allocated_fact by simp
qed

end
