(* ===== verification/Sema_Operators.thy ===== *)
theory Sema_Operators
  imports HIR_Construct
begin

text \<open>
  Operator spellings and literal widths of the semantic analyser (\<open>src/sema/SemaOperators.cpp\<close>):
  a typed operator is a percent sign, an optional width, a marker and an operator suffix.
  \<open>std::from_chars\<close> is modelled for unsigned decimal numbers; pointers have eight bytes.
\<close>

section \<open>Widths\<close>

definition pointerByteLength :: size_t where
  "pointerByteLength = 8"

definition isDigit :: "char \<Rightarrow> bool" where
  "isDigit c \<longleftrightarrow> 48 \<le> byte_val c \<and> byte_val c \<le> 57"

definition decimalValue :: "string \<Rightarrow> nat" where
  "decimalValue t = foldl (\<lambda>v c. v * 10 + (byte_val c - 48)) 0 t"

text \<open>
  \<open>std::from_chars\<close> into a \<open>size_t\<close> consumes the longest run of digits and fails when there is
  none or its value does not fit; \<open>parseByteLength\<close> also wants the run to be the whole text.
\<close>

definition parseByteLength :: "string \<Rightarrow> size_t" where
  "parseByteLength t =
     (if t = ''P'' then pointerByteLength
      else if t \<noteq> [] \<and> list_all isDigit t \<and> decimalValue t < 2 ^ 64 then word_of_nat (decimalValue t)
      else 0)"

section \<open>Typed operators\<close>

definition firstSuffix :: "string list \<Rightarrow> string \<Rightarrow> string option" where
  "firstSuffix suffixes op = find (ends_with op) suffixes"

definition typedWidth :: "size_t \<Rightarrow> string \<Rightarrow> nat \<Rightarrow> size_t option" where
  "typedWidth fallback op marker =
     (if marker > 1 then
        (let n = parseByteLength (substr op 1 (marker - 1)) in if n = 0 then None else Some n)
      else Some fallback)"

definition integerSuffixes :: "string list" where
  "integerSuffixes = [''**'', ''<<'', ''>>'', ''=='', ''!='', ''<='', ''>='', ''+'', ''-'', ''*'', ''/'', ''%'', ''&'', ''|'', ''^'', ''<'', ''>'']"

definition integerByteLengthForOperator :: "string \<Rightarrow> size_t option" where
  "integerByteLengthForOperator op =
     (if op \<in> {''+'', ''-'', ''*'', ''/'', ''%'', ''**'', ''<<'', ''>>'', ''&'', ''|'', ''^''} then Some 4
      else if op \<in> {''<'', ''>'', ''<='', ''>='', ''=='', ''!='', ''&&'', ''||''} then Some 1
      else if length op < 3 \<or> \<not> starts_with op (CHR ''%'') then None
      else case firstSuffix integerSuffixes op of
        None \<Rightarrow> None
      | Some suffix \<Rightarrow>
          (case find_last_of op ''du'' (length op - length suffix - 1) of
             None \<Rightarrow> None
           | Some marker \<Rightarrow>
               if marker = 0 \<or> marker + length suffix \<ge> length op then None
               else case typedWidth 4 op marker of
                 None \<Rightarrow> None
               | Some n \<Rightarrow> if n \<noteq> 1 \<and> n \<noteq> 2 \<and> n \<noteq> 4 \<and> n \<noteq> 8 then None else Some n))"

definition floatSuffixes :: "string list" where
  "floatSuffixes = [''**'', ''=='', ''!='', ''<='', ''>='', ''<'', ''>'', ''+'', ''-'', ''*'', ''/'']"

definition floatByteLengthForOperator :: "string \<Rightarrow> size_t option" where
  "floatByteLengthForOperator op =
     (if length op < 3 \<or> \<not> starts_with op (CHR ''%'') then None
      else case firstSuffix floatSuffixes op of
        None \<Rightarrow> None
      | Some suffix \<Rightarrow>
          (case rfind op (CHR ''f'') (length op - length suffix - 1) of
             None \<Rightarrow> None
           | Some marker \<Rightarrow>
               if marker = 0 \<or> marker + length suffix \<ge> length op then None
               else case typedWidth 0 op marker of
                 None \<Rightarrow> None
               | Some n \<Rightarrow> if n \<noteq> 0 \<and> n \<noteq> 2 \<and> n \<noteq> 4 \<and> n \<noteq> 8 \<and> n \<noteq> 16 then None else Some n))"

section \<open>Assignment operators\<close>

record AssignmentOperator =
  asg_byteLength :: size_t
  asg_compoundOp :: char

definition assignmentSuffixes :: "string list" where
  "assignmentSuffixes = [''<<'', ''>>'', ''+'', ''-'', ''*'', ''/'', ''%'', ''&'', ''^'', ''|'']"

definition integerAssignmentOperator :: "string \<Rightarrow> AssignmentOperator option" where
  "integerAssignmentOperator op =
     (if op = ''%d='' \<or> op = ''%u='' then Some \<lparr>asg_byteLength = 4, asg_compoundOp = CHR 0x00\<rparr>
      else if length op < 4 \<or> \<not> starts_with op (CHR ''%'') \<or> last op \<noteq> CHR ''='' then None
      else let binaryOp = butlast op in
        case firstSuffix assignmentSuffixes binaryOp of
          None \<Rightarrow> None
        | Some suffix \<Rightarrow>
            (case find_last_of binaryOp ''du'' (length binaryOp - length suffix - 1) of
               None \<Rightarrow> None
             | Some marker \<Rightarrow>
                 if marker = 0 then None
                 else case typedWidth 4 op marker of
                   None \<Rightarrow> None
                 | Some n \<Rightarrow>
                     if n \<noteq> 1 \<and> n \<noteq> 2 \<and> n \<noteq> 4 \<and> n \<noteq> 8 then None
                     else Some \<lparr>asg_byteLength = n,
                       asg_compoundOp = (if suffix = ''<<'' then CHR ''<'' else if suffix = ''>>'' then CHR ''>'' else hd suffix)\<rparr>))"

definition floatAssignmentByteLength :: "string \<Rightarrow> size_t option" where
  "floatAssignmentByteLength op =
     (if op = ''%f='' then Some 0
      else if length op < 4 \<or> \<not> starts_with op (CHR ''%'') \<or> last op \<noteq> CHR ''='' then None
      else case rfind op (CHR ''f'') (length op - 2) of
        None \<Rightarrow> None
      | Some marker \<Rightarrow>
          if marker = 0 \<or> marker + 1 \<noteq> length op - 1 then None
          else let n = parseByteLength (substr op 1 (marker - 1)) in
            if n \<noteq> 2 \<and> n \<noteq> 4 \<and> n \<noteq> 8 \<and> n \<noteq> 16 then None else Some n)"

definition isDivisionOperator :: "string \<Rightarrow> bool" where
  "isDivisionOperator op \<longleftrightarrow> ends_with op ''/'' \<or> ends_with op ''%''"

definition isDivisionCompound :: "char \<Rightarrow> bool" where
  "isDivisionCompound c \<longleftrightarrow> c = CHR ''/'' \<or> c = CHR ''%''"

definition compoundBinaryOperator :: "string \<Rightarrow> string" where
  "compoundBinaryOperator assignmentOp = butlast assignmentOp"

section \<open>Expression classes\<close>

definition isIntegerExpression :: "Expr \<Rightarrow> bool" where
  "isIntegerExpression e \<longleftrightarrow>
     isIntegerNumeric (exprResult e) \<or> category (exprResult e) = Boolean \<or> isAddressValue (exprResult e)"

definition hasRuntimeDynamicView :: "Expr \<Rightarrow> bool" where
  "hasRuntimeDynamicView e =
     (case exprNode e of
        DynamicByteViewExpr operation source runtimeLength \<Rightarrow>
          (case runtimeLength of
             None \<Rightarrow> True
           | Some n \<Rightarrow>
               if operation \<noteq> ResizeBytesView then True
               else (case exprNode n of IntegerLiteral v l \<Rightarrow> False | _ \<Rightarrow> True))
      | _ \<Rightarrow> False)"

definition isUnsignedExpression :: "Expr \<Rightarrow> bool" where
  "isUnsignedExpression e \<longleftrightarrow>
     category (exprResult e) = UnsignedInteger \<or> integerInterpretation (exprResult e) = Unsigned"

definition isFloatExpression :: "Expr \<Rightarrow> bool" where
  "isFloatExpression e \<longleftrightarrow> isFloatingNumeric (exprResult e)"

definition integerExpressionByteLength :: "Expr \<Rightarrow> size_t option" where
  "integerExpressionByteLength e =
     (if \<not> isIntegerExpression e \<or> lengthKind (exprResult e) \<noteq> Static then None
      else Some (staticByteLength (exprResult e)))"

definition floatExpressionByteLength :: "Expr \<Rightarrow> size_t option" where
  "floatExpressionByteLength e =
     (if \<not> isFloatExpression e \<or> lengthKind (exprResult e) \<noteq> Static then None
      else Some (staticByteLength (exprResult e)))"

section \<open>Literal widths\<close>

definition integerFits :: "string \<Rightarrow> size_t \<Rightarrow> bool" where
  "integerFits v byteLength =
     (if byteLength = 0 then False
      else case parseUnsignedIntegerLiteral v of
        None \<Rightarrow> False
      | Some n \<Rightarrow>
          if byteLength > 8 then True
          else if byteLength = 8 then n \<le> 0x7FFFFFFFFFFFFFFF
          else n \<le> push_bit (unat (byteLength * 8 - 1)) 1 - 1)"

definition inferIntegerLiteralByteLength :: "string \<Rightarrow> size_t" where
  "inferIntegerLiteralByteLength v =
     (case parseUnsignedIntegerLiteral v of
        None \<Rightarrow> 0
      | Some n \<Rightarrow> if n \<le> 0x7f then 1 else if n \<le> 0x7fff then 2 else if n \<le> 0x7fffffff then 4 else 8)"

definition inferStringLiteralByteLength :: "string \<Rightarrow> size_t" where
  "inferStringLiteralByteLength t =
     (let decoded = decodeStringLiteral t in
      if error decoded \<noteq> None then 0 else word_of_nat (length (bytes decoded)) + 1)"

section \<open>Accepted widths\<close>

text \<open>
  Whatever the spelling, an integer operator or assignment is given a width of one, two, four or
  eight bytes, and a floating one the default or two, four, eight or sixteen bytes: a width the
  code generator has no type for is never returned.
\<close>

theorem operator_widths:
  "set_option (integerByteLengthForOperator op) \<subseteq> {1, 2, 4, 8} \<and>
   set_option (floatByteLengthForOperator op) \<subseteq> {0, 2, 4, 8, 16} \<and>
   asg_byteLength ` set_option (integerAssignmentOperator op) \<subseteq> {1, 2, 4, 8} \<and>
   set_option (floatAssignmentByteLength op) \<subseteq> {0, 2, 4, 8, 16}"
proof (intro conjI)
  show "set_option (integerByteLengthForOperator op) \<subseteq> {1, 2, 4, 8}"
    by (auto simp: integerByteLengthForOperator_def split: if_splits option.splits)
  show "set_option (floatByteLengthForOperator op) \<subseteq> {0, 2, 4, 8, 16}"
    by (auto simp: floatByteLengthForOperator_def split: if_splits option.splits)
  show "asg_byteLength ` set_option (integerAssignmentOperator op) \<subseteq> {1, 2, 4, 8}"
    by (auto simp: integerAssignmentOperator_def Let_def split: if_splits option.splits)
  show "set_option (floatAssignmentByteLength op) \<subseteq> {0, 2, 4, 8, 16}"
    by (auto simp: floatAssignmentByteLength_def Let_def split: if_splits option.splits)
qed

section \<open>Spellings\<close>

lemma ends_with_rev: "ends_with s c \<longleftrightarrow> take (length c) (rev s) = rev c"
proof -
  have "take (length c) (rev s) = rev (drop (length s - length c) s)" by (simp add: take_rev)
  then show ?thesis by (auto simp: ends_with_def) (metis diff_le_self length_drop)
qed

lemma firstSuffix_integer:
  assumes "suffix \<in> set integerSuffixes" and "m \<in> set ''du''"
  shows "firstSuffix integerSuffixes (p @ m # suffix) = Some suffix"
  using assms unfolding integerSuffixes_def firstSuffix_def
  by (simp only: list.set insert_iff empty_iff simp_thms; elim disjE; simp add: ends_with_rev)

lemma find_marker:
  assumes "m \<in> set ''du''" and "p \<noteq> []"
  shows "find_last_of (p @ m # suffix) ''du'' (length (p @ m # suffix) - length suffix - 1) = Some (length p)"
  unfolding find_last_of_def using assms by (intro last_index_eq_Some) (simp_all add: nth_append)

text \<open>
  Typed integer operators are read back: for every operator suffix, marker and width text, the spelling
  of percent sign, width, marker and suffix is given the width it spells, and four bytes when it spells none.
\<close>

theorem integerByteLengthForOperator_spelling:
  assumes "suffix \<in> set integerSuffixes" and "m \<in> set ''du''" and "w = [] \<or> parseByteLength w \<in> {1, 2, 4, 8}"
  shows "integerByteLengthForOperator (''%'' @ w @ [m] @ suffix) = Some (if w = [] then 4 else parseByteLength w)"
proof -
  define op where "op = (''%'' @ w) @ m # suffix"
  define n where "n = (if w = [] then 4 else parseByteLength w)"
  have "suffix \<noteq> []" using assms(1) by (auto simp: integerSuffixes_def)
  then have len: "\<not> length op < 3" by (cases suffix) (simp_all add: op_def)
  then have plain: "op \<notin> {''+'', ''-'', ''*'', ''/'', ''%'', ''**'', ''<<'', ''>>'', ''&'', ''|'', ''^''}"
    "op \<notin> {''<'', ''>'', ''<='', ''>='', ''=='', ''!='', ''&&'', ''||''}" by auto
  have "firstSuffix integerSuffixes op = Some suffix"
    unfolding op_def by (rule firstSuffix_integer [OF assms(1,2)])
  moreover have "find_last_of op ''du'' (length op - length suffix - 1) = Some (Suc (length w))"
    using find_marker [OF assms(2), of "''%'' @ w" suffix] by (simp add: op_def)
  moreover have "Suc (length w) + length suffix < length op" by (simp add: op_def)
  moreover have "typedWidth 4 op (Suc (length w)) = Some n"
    using assms(3) by (auto simp: typedWidth_def substr_def Let_def op_def n_def)
  moreover have "starts_with op (CHR ''%'')" by (simp add: starts_with_def op_def)
  moreover have "\<not> (n \<noteq> 1 \<and> n \<noteq> 2 \<and> n \<noteq> 4 \<and> n \<noteq> 8)" using assms(3) by (auto simp: n_def)
  ultimately have "integerByteLengthForOperator op = Some n"
    unfolding integerByteLengthForOperator_def if_not_P [OF plain(1)] if_not_P [OF plain(2)]
    using len by simp
  then show ?thesis by (simp add: op_def n_def)
qed

theorem integerByteLengthForOperator_spelling_witness:
  "integerByteLengthForOperator ''%8u>>'' = Some 8 \<and> integerByteLengthForOperator ''%d+'' = Some 4"
proof -
  have "parseByteLength ''8'' = 8" by (simp add: parseByteLength_def isDigit_def decimalValue_def)
  then show ?thesis
    using integerByteLengthForOperator_spelling [of "''>>''" "CHR ''u''" "''8''"]
      integerByteLengthForOperator_spelling [of "''+''" "CHR ''d''" "[]"]
    by (simp add: integerSuffixes_def)
qed

section \<open>Literals\<close>

lemma small_width_cases:
  fixes n :: size_t
  assumes "n \<noteq> 0" and "\<not> n > 8" and "n \<noteq> 8"
  shows "n = 1 \<or> n = 2 \<or> n = 3 \<or> n = 4 \<or> n = 5 \<or> n = 6 \<or> n = 7"
proof -
  have "unat n \<noteq> 8"
  proof
    assume "unat n = 8"
    then have "word_of_nat (unat n) = (8 :: size_t)" by simp
    with assms(3) show False by simp
  qed
  moreover have "unat n \<le> 8" using assms(2) by (simp add: word_less_nat_alt not_less)
  moreover have "0 < unat n" using assms(1) by (simp add: unat_gt_0)
  ultimately have "unat n < 8" "0 < unat n" by simp_all
  then have "unat n \<in> {1, 2, 3, 4, 5, 6, 7}" by auto
  then have "word_of_nat (unat n) \<in> (word_of_nat ` {1, 2, 3, 4, 5, 6, 7} :: size_t set)" by blast
  then show ?thesis by simp
qed

text \<open>
  A literal fits a destination of a given width exactly when its value, read without bound, is
  below half the range of that width (all 64-bit values fit wider destinations); no shift or
  subtraction of the check wraps.
\<close>

theorem integerFits_exact:
  "integerFits v n \<longleftrightarrow> (\<exists>m. literal_value v = Some m \<and> m < 2 ^ 64 \<and> n \<noteq> 0 \<and> (n > 8 \<or> m < 2 ^ (8 * unat n - 1)))"
proof (cases "literal_value v")
  case None
  then show ?thesis by (simp add: integerFits_def parse_literal_value)
next
  case (Some m)
  show ?thesis
  proof (cases "m < 2 ^ 64")
    case False
    with Some show ?thesis by (simp add: integerFits_def parse_literal_value)
  next
    case True
    then have le: "(word_of_nat m :: uint64) \<le> w \<longleftrightarrow> m \<le> unat w" for w
      by (simp add: word_le_nat_alt unat_of_nat)
    have p: "parseUnsignedIntegerLiteral v = Some (word_of_nat m)"
      using Some True by (simp add: parse_literal_value)
    consider "n = 0" | "n > 8" | "n = 8" | "n = 1 \<or> n = 2 \<or> n = 3 \<or> n = 4 \<or> n = 5 \<or> n = 6 \<or> n = 7"
      using small_width_cases by blast
    then show ?thesis
    proof cases
      case 4
      then show ?thesis using Some True p by (elim disjE; simp add: integerFits_def le; arith)
    qed (use Some True p in \<open>auto simp: integerFits_def le\<close>)
  qed
qed

text \<open>
  The inferred width of a literal is the smallest of one, two and four bytes that the literal fits, and
  eight bytes when it fits none of them; zero is returned exactly for text that is no literal.
\<close>

theorem inferIntegerLiteralByteLength_least:
  "inferIntegerLiteralByteLength v =
     (if parseUnsignedIntegerLiteral v = None then 0
      else if integerFits v 1 then 1 else if integerFits v 2 then 2 else if integerFits v 4 then 4 else 8)"
  by (simp add: inferIntegerLiteralByteLength_def integerFits_def split: option.split)

end
