(* ===== verification/CCompat_Lexer.thy ===== *)
theory CCompat_Lexer
  imports Diagnostic
begin

text \<open>
  The lexer of the C compatibility front end (\<open>src/compat/CCompatLexer.cpp\<close>).  The lexer state
  holds the text that is still to be read (\<open>source_\<close> from \<open>offset_\<close> on), the position, and the
  tokens and diagnostics found so far.  Character classes are those of the C locale; lines and columns are
  natural numbers, as a text is shorter than the address space.
\<close>

section \<open>Tokens and state\<close>

datatype TokenKind =
  TEnd | TInvalid | TIdentifier | TInteger | TFloat | TString | TCharacter | TNewline | TLParen | TRParen
| TLBrace | TRBrace | TLBracket | TRBracket | TComma | TSemicolon | TColon | TQuestion | TDot | TOperator

record Token =
  tok_kind :: TokenKind
  tok_lexeme :: string
  tok_range :: SourceRange

record Lexer =
  lx_rest :: string
  lx_fileName :: string
  lx_line :: nat
  lx_column :: nat
  lx_tokens :: "Token list"
  lx_diagnostics :: "Diagnostic list"

definition atEnd :: "Lexer \<Rightarrow> bool" where
  "atEnd lx \<longleftrightarrow> lx_rest lx = []"

definition peekAt :: "nat \<Rightarrow> Lexer \<Rightarrow> char" where
  "peekAt lookAhead lx = (if lookAhead < length (lx_rest lx) then lx_rest lx ! lookAhead else CHR 0x00)"

definition peek :: "Lexer \<Rightarrow> char" where
  "peek lx = peekAt 0 lx"

definition location :: "Lexer \<Rightarrow> SourceLocation" where
  "location lx = \<lparr>loc_file = lx_fileName lx, loc_line = lx_line lx, loc_column = lx_column lx\<rparr>"

definition consume :: "Lexer \<Rightarrow> Lexer" where
  "consume lx = lx\<lparr>lx_rest := tl (lx_rest lx), lx_column := lx_column lx + 1\<rparr>"

definition isNewline :: "char \<Rightarrow> bool" where
  "isNewline c \<longleftrightarrow> c = CHR 0x0A \<or> c = CHR 0x0D"

definition newlineLength :: "string \<Rightarrow> nat" where
  "newlineLength s = (if take 2 s = [CHR 0x0D, CHR 0x0A] then 2 else 1)"

definition consumeNewline :: "Lexer \<Rightarrow> Lexer" where
  "consumeNewline lx = lx\<lparr>lx_rest := drop (newlineLength (lx_rest lx)) (lx_rest lx),
     lx_line := lx_line lx + 1, lx_column := 1\<rparr>"

definition isDigitC :: "char \<Rightarrow> bool" where
  "isDigitC c \<longleftrightarrow> 48 \<le> (of_char c :: nat) \<and> (of_char c :: nat) \<le> 57"

definition isAlphaC :: "char \<Rightarrow> bool" where
  "isAlphaC c \<longleftrightarrow> (65 \<le> (of_char c :: nat) \<and> (of_char c :: nat) \<le> 90) \<or> (97 \<le> (of_char c :: nat) \<and> (of_char c :: nat) \<le> 122)"

definition isHexC :: "char \<Rightarrow> bool" where
  "isHexC c \<longleftrightarrow> isDigitC c \<or> (65 \<le> (of_char c :: nat) \<and> (of_char c :: nat) \<le> 70) \<or> (97 \<le> (of_char c :: nat) \<and> (of_char c :: nat) \<le> 102)"

definition isIdentifierStart :: "char \<Rightarrow> bool" where
  "isIdentifierStart c \<longleftrightarrow> isAlphaC c \<or> c = CHR ''_''"

definition isIdentifierContinue :: "char \<Rightarrow> bool" where
  "isIdentifierContinue c \<longleftrightarrow> isAlphaC c \<or> isDigitC c \<or> c = CHR ''_''"

definition add :: "TokenKind \<Rightarrow> string \<Rightarrow> SourceLocation \<Rightarrow> Lexer \<Rightarrow> Lexer" where
  "add kind lexeme begin lx = lx\<lparr>lx_tokens := lx_tokens lx @
     [\<lparr>tok_kind = kind, tok_lexeme = lexeme, tok_range = \<lparr>range_begin = begin, range_end = location lx\<rparr>\<rparr>]\<rparr>"

definition addLexDiagnostic :: "SourceLocation \<Rightarrow> SourceLocation \<Rightarrow> string \<Rightarrow> Lexer \<Rightarrow> Lexer" where
  "addLexDiagnostic begin fin msg lx = lx\<lparr>lx_diagnostics := lx_diagnostics lx @
     [(diagnostic_error Parser msg)\<lparr>diag_range := Some \<lparr>range_begin = begin, range_end = fin\<rparr>\<rparr>]\<rparr>"

section \<open>Runs of characters\<close>

text \<open>\<open>while (p(peek())) consume()\<close>; every class tested this way excludes the null character that \<open>peek\<close> yields at the end.\<close>

definition consumeRun :: "nat \<Rightarrow> Lexer \<Rightarrow> Lexer" where
  "consumeRun n lx = lx\<lparr>lx_rest := drop n (lx_rest lx), lx_column := lx_column lx + n\<rparr>"

definition consumeWhile :: "(char \<Rightarrow> bool) \<Rightarrow> Lexer \<Rightarrow> Lexer" where
  "consumeWhile p lx = consumeRun (length (takeWhile p (lx_rest lx))) lx"

section \<open>Blanks and comments\<close>

definition isBlank :: "char \<Rightarrow> bool" where
  "isBlank c \<longleftrightarrow> c = CHR '' '' \<or> c = CHR 0x09 \<or> c = CHR 0x0C \<or> c = CHR 0x0B"

text \<open>The inside of a block comment; the second component is \<open>closed\<close>.\<close>

function blockComment :: "Lexer \<Rightarrow> Lexer \<times> bool" where
  "blockComment lx =
     (if atEnd lx then (lx, False)
      else if peek lx = CHR ''*'' \<and> peekAt 1 lx = CHR ''/'' then (consume (consume lx), True)
      else if isNewline (peek lx) then blockComment (consumeNewline lx)
      else blockComment (consume lx))"
  by pat_completeness auto
termination
  by (relation "measure (\<lambda>lx. length (lx_rest lx))")
    (auto simp: atEnd_def consume_def consumeNewline_def newlineLength_def)

declare blockComment.simps [simp del]

lemma blockComment_length: "length (lx_rest (fst (blockComment lx))) \<le> length (lx_rest lx)"
proof (induction lx rule: blockComment.induct)
  case (1 lx)
  then show ?case
    by (subst blockComment.simps) (auto simp: consume_def consumeNewline_def intro: le_trans)
qed

function skipHorizontalSpaceAndComments :: "Lexer \<Rightarrow> Lexer" where
  "skipHorizontalSpaceAndComments lx =
     (let lx = consumeWhile isBlank lx in
      if peek lx = CHR ''/'' \<and> peekAt 1 lx = CHR ''/'' then
        skipHorizontalSpaceAndComments (consumeWhile (\<lambda>c. \<not> isNewline c) (consume (consume lx)))
      else if peek lx = CHR ''/'' \<and> peekAt 1 lx = CHR ''*'' then
        (let begin = location lx in
         case blockComment (consume (consume lx)) of
           (lx, closed) \<Rightarrow>
             skipHorizontalSpaceAndComments
               (if closed then lx else addLexDiagnostic begin (location lx) ''unterminated block comment'' lx))
      else lx)"
  by pat_completeness auto
termination
proof (relation "measure (\<lambda>lx. length (lx_rest lx))", goal_cases)
  case (2 lx x)
  then show ?case
    by (auto simp: peek_def peekAt_def consumeWhile_def consumeRun_def consume_def split: if_splits)
next
  case (3 lx x xa xb closed)
  then have "fst (blockComment (consume (consume x))) = xb" by (metis fst_conv)
  with blockComment_length [of "consume (consume x)"] have "length (lx_rest xb) \<le> length (lx_rest (consume (consume x)))"
    by simp
  with 3 show ?case
    by (auto simp: peek_def peekAt_def consumeWhile_def consumeRun_def consume_def addLexDiagnostic_def split: if_splits)
qed simp

declare skipHorizontalSpaceAndComments.simps [simp del]

section \<open>Token classes\<close>

definition lexIdentifier :: "SourceLocation \<Rightarrow> Lexer \<Rightarrow> Lexer" where
  "lexIdentifier begin lx =
     (let after = consumeWhile isIdentifierContinue (consume lx) in
      add TIdentifier (take (length (lx_rest lx) - length (lx_rest after)) (lx_rest lx)) begin after)"

definition orSeparator :: "(char \<Rightarrow> bool) \<Rightarrow> char \<Rightarrow> bool" where
  "orSeparator p c \<longleftrightarrow> p c \<or> c = CHR ''_''"

text \<open>The digits of a number and whether a point or an exponent made it floating.\<close>

definition decimalPart :: "Lexer \<Rightarrow> Lexer \<times> bool" where
  "decimalPart lx =
     (let digits = consumeWhile (orSeparator isDigitC);
          lx = digits lx;
          (lx, floating) = (if peek lx = CHR ''.'' then (digits (consume lx), True) else (lx, False)) in
      if peek lx = CHR ''e'' \<or> peek lx = CHR ''E'' then
        (let lx = consume lx;
             lx = (if peek lx = CHR ''+'' \<or> peek lx = CHR ''-'' then consume lx else lx) in
         (digits lx, True))
      else (lx, floating))"

definition numberBody :: "Lexer \<Rightarrow> Lexer \<times> bool" where
  "numberBody lx =
     (if peek lx = CHR ''0'' \<and> (peekAt 1 lx = CHR ''x'' \<or> peekAt 1 lx = CHR ''X'') then
        (consumeWhile (orSeparator isHexC) (consume (consume lx)), False)
      else if peek lx = CHR ''0'' \<and> (peekAt 1 lx = CHR ''o'' \<or> peekAt 1 lx = CHR ''O'') then
        (consumeWhile (orSeparator (\<lambda>c. 48 \<le> (of_char c :: nat) \<and> (of_char c :: nat) \<le> 55)) (consume (consume lx)), False)
      else if peek lx = CHR ''0'' \<and> (peekAt 1 lx = CHR ''b'' \<or> peekAt 1 lx = CHR ''B'') then
        (consumeWhile (orSeparator (\<lambda>c. c = CHR ''0'' \<or> c = CHR ''1'')) (consume (consume lx)), False)
      else decimalPart lx)"

definition lexNumber :: "SourceLocation \<Rightarrow> Lexer \<Rightarrow> Lexer" where
  "lexNumber begin lx =
     (let (after, floating) = numberBody lx;
          suffix = takeWhile isAlphaC (lx_rest after);
          after = consumeWhile isAlphaC after;
          floating = (floating \<or> CHR ''f'' \<in> set suffix \<or> CHR ''F'' \<in> set suffix) in
      add (if floating then TFloat else TInteger)
        (take (length (lx_rest lx) - length (lx_rest after)) (lx_rest lx)) begin after)"

text \<open>The inside of a quoted literal; the second component is \<open>terminated\<close>.\<close>

function quotedBody :: "char \<Rightarrow> Lexer \<Rightarrow> Lexer \<times> bool" where
  "quotedBody quote lx =
     (if atEnd lx then (lx, False)
      else if peek lx = CHR 0x5C then
        (let lx = consume lx in
         quotedBody quote (if \<not> atEnd lx \<and> \<not> isNewline (peek lx) then consume lx else lx))
      else if peek lx = quote then (consume lx, True)
      else if isNewline (peek lx) then (lx, False)
      else quotedBody quote (consume lx))"
  by pat_completeness auto
termination
  by (relation "measure (\<lambda>(q, lx). length (lx_rest lx))") (auto simp: atEnd_def consume_def)

declare quotedBody.simps [simp del]

definition lexQuoted :: "SourceLocation \<Rightarrow> char \<Rightarrow> Lexer \<Rightarrow> Lexer" where
  "lexQuoted begin quote lx =
     (case quotedBody quote (consume lx) of
        (after, terminated) \<Rightarrow>
          let text = take (length (lx_rest lx) - length (lx_rest after)) (lx_rest lx) in
          if \<not> terminated then
            (let after = add TInvalid text begin after in
             addLexDiagnostic begin (location after) ''unterminated character or string literal'' after)
          else add (if quote = CHR 0x22 then TString else TCharacter) text begin after)"

definition multiChar :: "string list" where
  "multiChar = [''>>='', ''<<='', ''->'', ''++'', ''--'', ''&&'', ''||'', ''=='', ''!='', ''<='', ''>='', ''+='', ''-='', ''*='',
     ''/='', ''%='', ''&='', ''|='', ''^='', ''<<'', ''>>'']"

definition punctuationKind :: "char \<Rightarrow> TokenKind" where
  "punctuationKind ch =
     (if ch = CHR ''('' then TLParen else if ch = CHR '')'' then TRParen else if ch = CHR 0x7B then TLBrace
      else if ch = CHR 0x7D then TRBrace else if ch = CHR ''['' then TLBracket else if ch = CHR '']'' then TRBracket
      else if ch = CHR '','' then TComma else if ch = CHR '';'' then TSemicolon else if ch = CHR '':'' then TColon
      else if ch = CHR ''?'' then TQuestion else if ch = CHR ''.'' then TDot
      else if ch \<in> set ''+-*/%<>!~&|^='' then TOperator else TInvalid)"

definition lexPunctuation :: "SourceLocation \<Rightarrow> Lexer \<Rightarrow> Lexer option" where
  "lexPunctuation begin lx =
     (case find (\<lambda>text. take (length text) (lx_rest lx) = text) multiChar of
        Some text \<Rightarrow> Some (add TOperator text begin (consumeRun (length text) lx))
      | None \<Rightarrow>
          (let kind = punctuationKind (peek lx) in
           case kind of
             TInvalid \<Rightarrow> None
           | _ \<Rightarrow> Some (add kind [peek lx] begin (consume lx))))"

section \<open>The lexer\<close>

definition lexToken :: "Lexer \<Rightarrow> Lexer" where
  "lexToken lx =
     (let begin = location lx; ch = peek lx in
      if isNewline ch then add TNewline [CHR 0x0A] begin (consumeNewline lx)
      else if isIdentifierStart ch then lexIdentifier begin lx
      else if isDigitC ch then lexNumber begin lx
      else if ch = CHR 0x22 \<or> ch = CHR 0x27 then lexQuoted begin ch lx
      else case lexPunctuation begin lx of
        Some lx \<Rightarrow> lx
      | None \<Rightarrow>
          (let after = add TInvalid [ch] begin (consume lx) in
           addLexDiagnostic begin (location after)
             (''invalid C compatibility token '' @ [CHR 0x27] @ [ch] @ [CHR 0x27]) after))"

section \<open>Reading with exact positions\<close>

text \<open>The position reached from \<open>p\<close> after reading a text; \<open>\r\n\<close> is one line end.\<close>

fun advance :: "nat \<times> nat \<Rightarrow> string \<Rightarrow> nat \<times> nat" where
  "advance p [] = p"
| "advance (l, c) (ch # s) =
     (if ch = CHR 0x0D \<and> s \<noteq> [] \<and> hd s = CHR 0x0A then advance (l + 1, 1) (tl s)
      else if isNewline ch then advance (l + 1, 1) s
      else advance (l, c + 1) s)"

definition lx_position :: "Lexer \<Rightarrow> nat \<times> nat" where
  "lx_position lx = (lx_line lx, lx_column lx)"

definition endsLine :: "string \<Rightarrow> string \<Rightarrow> bool" where
  "endsLine t r \<longleftrightarrow> \<not> (t \<noteq> [] \<and> last t = CHR 0x0D \<and> r \<noteq> [] \<and> hd r = CHR 0x0A)"

definition reads :: "string \<Rightarrow> Lexer \<Rightarrow> Lexer \<Rightarrow> bool" where
  "reads t lx lx' \<longleftrightarrow> lx_rest lx = t @ lx_rest lx' \<and> lx_position lx' = advance (lx_position lx) t
     \<and> lx_fileName lx' = lx_fileName lx \<and> endsLine t (lx_rest lx')"

lemma advance_append:
  "endsLine s t \<Longrightarrow> advance p (s @ t) = advance (advance p s) t"
proof (induction p s rule: advance.induct)
  case (2 l c ch s)
  show ?case
  proof (cases s)
    case Nil
    then show ?thesis using 2 by (auto simp: endsLine_def)
  next
    case (Cons x xs)
    then show ?thesis using 2 by (cases xs) (auto simp: endsLine_def)
  qed
qed simp

lemma advance_plain:
  "list_all (\<lambda>c. \<not> isNewline c) s \<Longrightarrow> advance (l, c) s = (l, c + length s)"
  by (induction s arbitrary: c) (auto simp: isNewline_def)

lemma reads_refl [simp]: "reads [] lx lx"
  by (simp add: reads_def endsLine_def)

lemma reads_trans [trans]:
  assumes "reads s a b" and "reads t b c"
  shows "reads (s @ t) a c"
proof -
  from assms have "endsLine s (t @ lx_rest c)" by (simp add: reads_def)
  then have "endsLine s t" by (cases t) (auto simp: endsLine_def)
  with assms show ?thesis
    by (cases t) (auto simp: reads_def advance_append endsLine_def)
qed

lemma reads_consume:
  assumes "lx_rest lx \<noteq> []" and "\<not> isNewline (peek lx)"
  shows "reads [peek lx] lx (consume lx)"
  using assms by (cases "lx_rest lx")
    (auto simp: reads_def consume_def peek_def peekAt_def lx_position_def endsLine_def isNewline_def)

lemma reads_consumeNewline:
  assumes "lx_rest lx \<noteq> []" and "isNewline (peek lx)"
  shows "\<exists>t \<in> {[CHR 0x0A], [CHR 0x0D], [CHR 0x0D, CHR 0x0A]}. reads t lx (consumeNewline lx)"
proof (cases "lx_rest lx")
  case (Cons ch s)
  then show ?thesis using assms
    by (cases s) (auto simp: reads_def consumeNewline_def newlineLength_def peek_def peekAt_def lx_position_def
        endsLine_def isNewline_def)
qed (use assms in simp)

lemma reads_run:
  assumes "list_all (\<lambda>c. \<not> isNewline c) (take n (lx_rest lx))" and "n \<le> length (lx_rest lx)"
  shows "reads (take n (lx_rest lx)) lx (consumeRun n lx)"
proof -
  have "last (take n (lx_rest lx)) \<noteq> CHR 0x0D" if "take n (lx_rest lx) \<noteq> []"
    using assms(1) last_in_set [OF that] by (auto simp: list_all_iff isNewline_def)
  then show ?thesis using assms
    by (auto simp: reads_def consumeRun_def lx_position_def advance_plain endsLine_def)
qed

lemma takeWhile_length_take: "take (length (takeWhile p s)) s = takeWhile p s"
  by (metis takeWhile_eq_take)

lemma reads_while:
  assumes "\<And>c. p c \<Longrightarrow> \<not> isNewline c"
  shows "reads (takeWhile p (lx_rest lx)) lx (consumeWhile p lx)"
proof -
  have "list_all (\<lambda>c. \<not> isNewline c) (takeWhile p (lx_rest lx))"
    using assms by (auto simp: list_all_iff dest: set_takeWhileD)
  then show ?thesis unfolding consumeWhile_def
    using reads_run [of "length (takeWhile p (lx_rest lx))" lx]
    by (simp add: takeWhile_length_take length_takeWhile_le)
qed

lemma reads_taken: "reads t lx lx' \<Longrightarrow> take (length (lx_rest lx) - length (lx_rest lx')) (lx_rest lx) = t"
  by (simp add: reads_def)

lemma reads_add [simp]: "reads t lx (add k s b lx') = reads t lx lx'"
  and reads_addLexDiagnostic [simp]: "reads t lx (addLexDiagnostic b e m lx') = reads t lx lx'"
  by (auto simp: reads_def add_def addLexDiagnostic_def lx_position_def)

section \<open>The text between tokens\<close>

text \<open>Blanks and comments; \<open>closes\<close> finds the end of a block comment.\<close>

fun closes :: "string \<Rightarrow> bool" where
  "closes (a # b # s) \<longleftrightarrow> (a = CHR ''*'' \<and> b = CHR ''/'') \<or> closes (b # s)"
| "closes _ \<longleftrightarrow> False"

definition stops :: "(char \<Rightarrow> bool) \<Rightarrow> string \<Rightarrow> bool" where
  "stops p r \<longleftrightarrow> r = [] \<or> \<not> p (hd r)"

text \<open>A text that does not go on with a blank or a comment that is closed.\<close>

definition gapEnd :: "string \<Rightarrow> bool" where
  "gapEnd r \<longleftrightarrow> stops isBlank r \<and> take 2 r \<noteq> ''//'' \<and> (take 2 r = ''/*'' \<longrightarrow> \<not> closes (drop 2 r))"

text \<open>All the blanks and comments before a rest; a line comment goes on to the end of its line, a block comment to the first end mark.\<close>

inductive gap :: "string \<Rightarrow> string \<Rightarrow> bool" where
  gap_nil: "gapEnd r \<Longrightarrow> gap [] r"
| gap_blank: "isBlank c \<Longrightarrow> gap g r \<Longrightarrow> gap (c # g) r"
| gap_line: "list_all (\<lambda>c. \<not> isNewline c) s \<Longrightarrow> stops (\<lambda>c. \<not> isNewline c) (g @ r) \<Longrightarrow> gap g r \<Longrightarrow> gap (''//'' @ s @ g) r"
| gap_block: "\<not> closes (s @ ''*'') \<Longrightarrow> gap g r \<Longrightarrow> gap (''/*'' @ s @ ''*/'' @ g) r"

lemma gap_blanks: "list_all isBlank b \<Longrightarrow> gap g r \<Longrightarrow> gap (b @ g) r"
  by (induction b) (simp_all add: gap_blank)

lemma closes_Cons: "closes (c # t) \<longleftrightarrow> (c = CHR ''*'' \<and> t \<noteq> [] \<and> hd t = CHR ''/'') \<or> closes t"
  by (cases t) auto

definition commentRead :: "Lexer \<Rightarrow> Lexer \<times> bool \<Rightarrow> bool" where
  "commentRead lx r \<longleftrightarrow> (\<exists>t. reads t lx (fst r) \<and>
     (if snd r then \<exists>s. t = s @ ''*/'' \<and> \<not> closes (s @ ''*'') else \<not> closes t \<and> lx_rest (fst r) = []))"

lemma commentRead_closed: "reads (s @ ''*/'') lx (fst r) \<Longrightarrow> \<not> closes (s @ ''*'') \<Longrightarrow> snd r \<Longrightarrow> commentRead lx r"
  by (auto simp: commentRead_def)

lemma commentRead_newline:
  assumes u: "reads u lx lx'" "u \<in> {[CHR 0x0A], [CHR 0x0D], [CHR 0x0D, CHR 0x0A]}" and "commentRead lx' r"
  shows "commentRead lx r"
proof -
  from assms obtain t where t: "reads t lx' (fst r)"
    "if snd r then \<exists>s. t = s @ ''*/'' \<and> \<not> closes (s @ ''*'') else \<not> closes t \<and> lx_rest (fst r) = []"
    by (auto simp: commentRead_def)
  have c: "closes (u @ z) = closes z" for z using u(2) by (auto simp: closes_Cons)
  show ?thesis
  proof (cases "snd r")
    case True
    with t obtain s where "t = s @ ''*/''" "\<not> closes (s @ ''*'')" by auto
    with True reads_trans [OF u(1) t(1)] c [of "s @ ''*''"] show ?thesis
      using commentRead_closed [of "u @ s"] by simp
  next
    case False
    with t reads_trans [OF u(1) t(1)] c [of t] show ?thesis
      unfolding commentRead_def by (auto intro!: exI [of _ "u @ t"])
  qed
qed

lemma commentRead_char:
  assumes u: "reads [c] lx lx'" and n: "\<not> (c = CHR ''*'' \<and> lx_rest lx' \<noteq> [] \<and> hd (lx_rest lx') = CHR ''/'')"
    and "commentRead lx' r"
  shows "commentRead lx r"
proof -
  from assms obtain t where t: "reads t lx' (fst r)"
    "if snd r then \<exists>s. t = s @ ''*/'' \<and> \<not> closes (s @ ''*'') else \<not> closes t \<and> lx_rest (fst r) = []"
    by (auto simp: commentRead_def)
  from t(1) have rest: "lx_rest lx' = t @ lx_rest (fst r)" by (simp add: reads_def)
  show ?thesis
  proof (cases "snd r")
    case True
    with t obtain s where s: "t = s @ ''*/''" "\<not> closes (s @ ''*'')" by auto
    then have "\<not> closes ((c # s) @ ''*'')" using n rest by (cases s) (auto simp: closes_Cons)
    with True s reads_trans [OF u t(1)] show ?thesis
      using commentRead_closed [of "c # s"] by simp
  next
    case False
    then have "\<not> closes (c # t)" using n rest t by (cases t) (auto simp: closes_Cons)
    with False t reads_trans [OF u t(1)] show ?thesis
      unfolding commentRead_def by (auto intro!: exI [of _ "c # t"])
  qed
qed

lemma reads_consume2:
  assumes "peek lx = a" "peekAt 1 lx = b" "a \<noteq> CHR 0x00" "b \<noteq> CHR 0x00" "\<not> isNewline a" "\<not> isNewline b"
  shows "reads [a, b] lx (consume (consume lx))"
proof -
  from assms obtain s where "lx_rest lx = a # b # s"
    by (cases "lx_rest lx"; cases "tl (lx_rest lx)") (auto simp: peek_def peekAt_def split: if_splits)
  then show ?thesis using assms
    by (auto simp: reads_def consume_def lx_position_def endsLine_def isNewline_def)
qed

lemma blockComment_reads: "commentRead lx (blockComment lx)"
proof (induction lx rule: blockComment.induct)
  case (1 lx)
  let ?star = "peek lx = CHR ''*'' \<and> peekAt 1 lx = CHR ''/''"
  consider (fin) "atEnd lx" | (close) "\<not> atEnd lx" ?star
    | (line) "\<not> atEnd lx" "\<not> ?star" "isNewline (peek lx)"
    | (other) "\<not> atEnd lx" "\<not> ?star" "\<not> isNewline (peek lx)" by blast
  then show ?case
  proof cases
    case fin
    then show ?thesis
      by (subst blockComment.simps) (auto simp: atEnd_def commentRead_def intro!: exI [of _ "[]"])
  next
    case close
    then have "reads ''*/'' lx (consume (consume lx))" by (intro reads_consume2) (auto simp: isNewline_def)
    with close show ?thesis
      by (subst blockComment.simps) (auto simp: commentRead_def)
  next
    case line
    with 1 have "commentRead (consumeNewline lx) (blockComment (consumeNewline lx))" by blast
    moreover obtain u where "u \<in> {[CHR 0x0A], [CHR 0x0D], [CHR 0x0D, CHR 0x0A]}" "reads u lx (consumeNewline lx)"
      using reads_consumeNewline [of lx] line by (auto simp: atEnd_def)
    ultimately show ?thesis using line
      by (subst blockComment.simps) (simp only: if_False if_True commentRead_newline)
  next
    case other
    with 1 have "commentRead (consume lx) (blockComment (consume lx))" by blast
    moreover have "reads [peek lx] lx (consume lx)"
      using other by (intro reads_consume) (auto simp: atEnd_def)
    moreover have "\<not> (peek lx = CHR ''*'' \<and> lx_rest (consume lx) \<noteq> [] \<and> hd (lx_rest (consume lx)) = CHR ''/'')"
      using other(2) by (cases "lx_rest lx"; cases "tl (lx_rest lx)") (auto simp: consume_def peekAt_def)
    ultimately show ?thesis using other commentRead_char [of "peek lx" lx "consume lx"]
      by (subst blockComment.simps) (simp only: if_False not_False_eq_True)
  qed
qed

definition found :: "Lexer \<Rightarrow> Token list \<times> Diagnostic list" where
  "found lx = (lx_tokens lx, lx_diagnostics lx)"

lemma lexer_found [simp]:
  "found (consume lx) = found lx" "found (consumeNewline lx) = found lx"
  "found (consumeRun n lx) = found lx" "found (consumeWhile p lx) = found lx"
  by (simp_all add: consume_def consumeNewline_def consumeRun_def consumeWhile_def found_def)

lemma blockComment_found: "found (fst (blockComment lx)) = found lx"
proof (induction lx rule: blockComment.induct)
  case (1 lx)
  then show ?case by (subst blockComment.simps) simp
qed

definition rangeDiagnostic :: "SourceLocation \<Rightarrow> SourceLocation \<Rightarrow> string \<Rightarrow> Diagnostic" where
  "rangeDiagnostic b e m = (diagnostic_error Parser m)\<lparr>diag_range := Some \<lparr>range_begin = b, range_end = e\<rparr>\<rparr>"

text \<open>A gap is read without finding anything, unless an open comment runs to the end of the text.\<close>

definition openRead :: "Lexer \<Rightarrow> Lexer \<Rightarrow> bool" where
  "openRead lx lx' \<longleftrightarrow> (\<exists>g s m. reads g lx m \<and> gap g (lx_rest m) \<and> reads (''/*'' @ s) m lx' \<and> \<not> closes s \<and> lx_rest lx' = []
     \<and> found lx' = (lx_tokens lx, lx_diagnostics lx @
         [rangeDiagnostic (location m) (location lx') ''unterminated block comment'']))"

definition gapRead :: "Lexer \<Rightarrow> Lexer \<Rightarrow> bool" where
  "gapRead lx lx' \<longleftrightarrow> (\<exists>g. reads g lx lx' \<and> gap g (lx_rest lx') \<and> take 2 (lx_rest lx') \<noteq> ''/*'' \<and> found lx' = found lx) \<or> openRead lx lx'"

lemma gapRead_step:
  assumes g: "reads g lx lx'" "found lx' = found lx" and r: "gapRead lx' lx''"
    and more: "\<And>h r. gap h r \<Longrightarrow> h @ r = lx_rest lx' \<Longrightarrow> gap (g @ h) r"
  shows "gapRead lx lx''"
proof (cases "openRead lx' lx''")
  case True
  then obtain h s m where o: "reads h lx' m" "gap h (lx_rest m)" "reads (''/*'' @ s) m lx''" "\<not> closes s" "lx_rest lx'' = []"
    "found lx'' = (lx_tokens lx', lx_diagnostics lx' @
       [rangeDiagnostic (location m) (location lx'') ''unterminated block comment''])"
    unfolding openRead_def by blast
  have "found lx'' = (lx_tokens lx, lx_diagnostics lx @
       [rangeDiagnostic (location m) (location lx'') ''unterminated block comment''])"
    using o(6) g(2) by (simp add: found_def)
  moreover have "gap (g @ h) (lx_rest m)" using more [OF o(2)] o(1) by (simp add: reads_def)
  ultimately have "openRead lx lx''" unfolding openRead_def using reads_trans [OF g(1) o(1)] o(3-5) by blast
  then show ?thesis by (simp add: gapRead_def)
next
  case False
  then obtain h where h: "reads h lx' lx''" "gap h (lx_rest lx'')" "take 2 (lx_rest lx'') \<noteq> ''/*''" "found lx'' = found lx'"
    using r unfolding gapRead_def by blast
  then have "gap (g @ h) (lx_rest lx'')" using more by (simp add: reads_def)
  then show ?thesis using h g(2) reads_trans [OF g(1) h(1)] unfolding gapRead_def by auto
qed

lemma skip_at_end: "lx_rest lx = [] \<Longrightarrow> skipHorizontalSpaceAndComments lx = lx"
  by (subst skipHorizontalSpaceAndComments.simps)
    (simp add: consumeWhile_def consumeRun_def peek_def peekAt_def)

lemma consumeWhile_stops: "stops p (lx_rest (consumeWhile p lx))"
proof -
  have "lx_rest (consumeWhile p lx) = dropWhile p (lx_rest lx)"
    by (simp add: consumeWhile_def consumeRun_def) (metis dropWhile_eq_drop)
  then show ?thesis by (cases "dropWhile p (lx_rest lx)") (auto simp: stops_def dropWhile_eq_Cons_conv)
qed

lemma peek_take2: "take 2 (lx_rest lx) = [a, b] \<Longrightarrow> peek lx = a \<and> peekAt 1 lx = b"
  by (cases "lx_rest lx"; cases "tl (lx_rest lx)") (auto simp: peek_def peekAt_def)

lemma skip_reads: "gapRead lx (skipHorizontalSpaceAndComments lx)"
proof (induction lx rule: skipHorizontalSpaceAndComments.induct)
  case (1 lx)
  let ?b = "consumeWhile isBlank lx"
  let ?line = "peek ?b = CHR ''/'' \<and> peekAt 1 ?b = CHR ''/''"
  let ?block = "peek ?b = CHR ''/'' \<and> peekAt 1 ?b = CHR ''*''"
  have b: "reads (takeWhile isBlank (lx_rest lx)) lx ?b"
    by (rule reads_while) (auto simp: isBlank_def isNewline_def)
  have g: "list_all isBlank (takeWhile isBlank (lx_rest lx))" by (auto simp: list_all_iff dest: set_takeWhileD)
  consider ?line | "\<not> ?line" ?block | "\<not> ?line" "\<not> ?block" by blast
  then have "gapRead ?b (skipHorizontalSpaceAndComments lx)"
  proof cases
    case 1
    let ?p = "\<lambda>c. \<not> isNewline c" and ?c = "consume (consume ?b)"
    have l: "reads ''//'' ?b ?c" using 1 by (intro reads_consume2) (auto simp: isNewline_def)
    have w: "reads (takeWhile ?p (lx_rest ?c)) ?c (consumeWhile ?p ?c)" by (rule reads_while) simp
    have "gap ((''//'' @ takeWhile ?p (lx_rest ?c)) @ h) r" if "gap h r" "h @ r = lx_rest (consumeWhile ?p ?c)" for h r
      using gap_line [of "takeWhile ?p (lx_rest ?c)" h r] that consumeWhile_stops [of ?p ?c]
      by (simp add: list_all_iff) (metis set_takeWhileD)
    then have "gapRead ?b (skipHorizontalSpaceAndComments (consumeWhile ?p ?c))"
      using gapRead_step [OF reads_trans [OF l w] _ "1.IH"(1) [OF refl 1]] by simp
    with 1 show ?thesis by (subst skipHorizontalSpaceAndComments.simps) (simp add: Let_def)
  next
    case 2
    let ?c = "consume (consume ?b)"
    obtain lx' closed where r: "blockComment ?c = (lx', closed)" by force
    let ?d = "if closed then lx' else addLexDiagnostic (location ?b) (location lx') ''unterminated block comment'' lx'"
    have step: "skipHorizontalSpaceAndComments lx = skipHorizontalSpaceAndComments ?d"
      using 2 by (subst skipHorizontalSpaceAndComments.simps) (simp add: Let_def r)
    have l: "reads ''/*'' ?b ?c" using 2 by (intro reads_consume2) (auto simp: isNewline_def)
    obtain t where t: "reads t ?c lx'"
      "if closed then \<exists>s. t = s @ ''*/'' \<and> \<not> closes (s @ ''*'') else \<not> closes t \<and> lx_rest lx' = []"
      using blockComment_reads [of ?c] unfolding commentRead_def r fst_conv snd_conv by blast
    have f: "found lx' = found ?b" using blockComment_found [of ?c] r by simp
    show ?thesis
    proof (cases closed)
      case True
      then obtain s where "t = s @ ''*/''" "\<not> closes (s @ ''*'')" using t(2) by auto
      then have "gap ((''/*'' @ t) @ h) r" if "gap h r" for h r using gap_block [of s h r] that by simp
      from gapRead_step [OF reads_trans [OF l t(1)] f _ this] show ?thesis
        unfolding step using "1.IH"(2) [OF refl 2 refl r [symmetric]] True by simp
    next
      case False
      then have e: "lx_rest ?d = []" "\<not> closes t" using t(2) by (auto simp: addLexDiagnostic_def)
      have o: "reads (''/*'' @ t) ?b ?d" using reads_trans [OF l t(1)] by simp
      moreover have "found ?d = (lx_tokens ?b, lx_diagnostics ?b @
          [rangeDiagnostic (location ?b) (location ?d) ''unterminated block comment''])"
        using False f by (simp add: found_def addLexDiagnostic_def rangeDiagnostic_def location_def)
      moreover have "gap [] (lx_rest ?b)" using o e by (intro gap_nil) (simp add: reads_def gapEnd_def stops_def isBlank_def)
      ultimately have "openRead ?b ?d" unfolding openRead_def using e reads_refl by blast
      then show ?thesis unfolding step skip_at_end [OF e(1)] by (simp add: gapRead_def)
    qed
  next
    case 3
    then have "skipHorizontalSpaceAndComments lx = ?b"
      by (subst skipHorizontalSpaceAndComments.simps) (auto simp: Let_def)
    moreover have "take 2 (lx_rest ?b) \<noteq> ''//''" "take 2 (lx_rest ?b) \<noteq> ''/*''" using 3 peek_take2 [of ?b] by blast+
    moreover from this have "gap [] (lx_rest ?b)" by (intro gap_nil) (simp add: gapEnd_def consumeWhile_stops)
    ultimately show ?thesis unfolding gapRead_def using reads_refl by metis
  qed
  then show ?case using gapRead_step [OF b] gap_blanks [OF g] by simp
qed

section \<open>Tokens\<close>

text \<open>
  The text \<open>t\<close> of a token of kind \<open>k\<close> at the front of the text \<open>t @ r\<close>.  Names, digits and suffixes run as far as they
  can, operators are the longest that fit, and a quoted literal ends at its first quote that is not escaped.
\<close>

definition runs :: "(char \<Rightarrow> bool) \<Rightarrow> string \<Rightarrow> string \<Rightarrow> bool" where
  "runs p t r \<longleftrightarrow> list_all p t \<and> stops p r"

abbreviation digits :: "string \<Rightarrow> string \<Rightarrow> bool" where
  "digits \<equiv> runs (orSeparator isDigitC)"

definition fraction :: "string \<Rightarrow> string \<Rightarrow> bool" where
  "fraction t r \<longleftrightarrow> (if t = [] then stops (\<lambda>c. c = CHR ''.'') r else hd t = CHR ''.'' \<and> digits (tl t) r)"

definition exponent :: "string \<Rightarrow> string \<Rightarrow> bool" where
  "exponent t r \<longleftrightarrow>
     (if t = [] then stops (\<lambda>c. c \<in> set ''eE'') r
      else hd t \<in> set ''eE'' \<and> (\<exists>sign ds. tl t = sign @ ds \<and> digits ds r \<and>
        (if sign = [] then stops (\<lambda>c. c \<in> set ''+-'') (ds @ r) else length sign = 1 \<and> hd sign \<in> set ''+-'')))"

text \<open>The digits after a prefix such as \<open>0x\<close>.\<close>

definition radixDigits :: "char \<Rightarrow> (char \<Rightarrow> bool) option" where
  "radixDigits x =
     (if x \<in> set ''xX'' then Some (orSeparator isHexC)
      else if x \<in> set ''oO'' then Some (orSeparator (\<lambda>c. 48 \<le> (of_char c :: nat) \<and> (of_char c :: nat) \<le> 55))
      else if x \<in> set ''bB'' then Some (orSeparator (\<lambda>c. c = CHR ''0'' \<or> c = CHR ''1'')) else None)"

definition radixPrefix :: "string \<Rightarrow> (char \<Rightarrow> bool) option" where
  "radixPrefix t = (case t of c # x # _ \<Rightarrow> if c = CHR ''0'' then radixDigits x else None | _ \<Rightarrow> None)"

definition numeral :: "string \<Rightarrow> string \<Rightarrow> bool \<Rightarrow> bool" where
  "numeral t r floating \<longleftrightarrow> (case radixPrefix (t @ r) of
     Some p \<Rightarrow> 2 \<le> length t \<and> runs p (drop 2 t) r \<and> \<not> floating
   | None \<Rightarrow> \<exists>ds fr ex. t = ds @ fr @ ex \<and> digits ds (fr @ ex @ r) \<and> fraction fr (ex @ r) \<and> exponent ex r \<and>
       (floating \<longleftrightarrow> fr \<noteq> [] \<or> ex \<noteq> []))"

definition number :: "TokenKind \<Rightarrow> string \<Rightarrow> string \<Rightarrow> bool" where
  "number k t r \<longleftrightarrow> t \<noteq> [] \<and> isDigitC (hd t) \<and> (\<exists>body suffix floating. t = body @ suffix \<and>
     numeral body (suffix @ r) floating \<and> runs isAlphaC suffix r \<and>
     k = (if floating \<or> CHR ''f'' \<in> set suffix \<or> CHR ''F'' \<in> set suffix then TFloat else TInteger))"

inductive inside :: "char \<Rightarrow> string \<Rightarrow> bool" for q where
  inside_nil: "inside q []"
| inside_char: "c \<noteq> CHR 0x5C \<Longrightarrow> c \<noteq> q \<Longrightarrow> \<not> isNewline c \<Longrightarrow> inside q s \<Longrightarrow> inside q (c # s)"
| inside_escape: "\<not> isNewline c \<Longrightarrow> inside q s \<Longrightarrow> inside q (CHR 0x5C # c # s)"

definition openLiteral :: "char \<Rightarrow> string \<Rightarrow> string \<Rightarrow> bool" where
  "openLiteral q t r \<longleftrightarrow> (\<exists>s b. t = s @ b \<and> inside q s \<and> b \<in> {[], [CHR 0x5C]} \<and> stops (\<lambda>c. \<not> isNewline c) r)"

definition isQuote :: "char \<Rightarrow> bool" where
  "isQuote c \<longleftrightarrow> c = CHR 0x22 \<or> c = CHR 0x27"

definition startsOther :: "char \<Rightarrow> bool" where
  "startsOther c \<longleftrightarrow> \<not> isNewline c \<and> \<not> isIdentifierStart c \<and> \<not> isDigitC c \<and> \<not> isQuote c"

fun denotes :: "TokenKind \<Rightarrow> string \<Rightarrow> string \<Rightarrow> bool" where
  "denotes TEnd t r \<longleftrightarrow> False"
| "denotes TNewline t r \<longleftrightarrow> t = [CHR 0x0A] \<or> t = [CHR 0x0D, CHR 0x0A] \<or> t = [CHR 0x0D] \<and> stops (\<lambda>c. c = CHR 0x0A) r"
| "denotes TIdentifier t r \<longleftrightarrow> t \<noteq> [] \<and> isIdentifierStart (hd t) \<and> runs isIdentifierContinue t r"
| "denotes TInteger t r \<longleftrightarrow> number TInteger t r"
| "denotes TFloat t r \<longleftrightarrow> number TFloat t r"
| "denotes TString t r \<longleftrightarrow> (\<exists>s. t = [CHR 0x22] @ s @ [CHR 0x22] \<and> inside (CHR 0x22) s)"
| "denotes TCharacter t r \<longleftrightarrow> (\<exists>s. t = [CHR 0x27] @ s @ [CHR 0x27] \<and> inside (CHR 0x27) s)"
| "denotes TOperator t r \<longleftrightarrow>
     t \<in> set multiChar \<and> (\<forall>u \<in> set multiChar. take (length u) (t @ r) = u \<longrightarrow> length u \<le> length t) \<or>
     (\<exists>c. t = [c] \<and> punctuationKind c = TOperator \<and> (\<forall>u \<in> set multiChar. take (length u) (t @ r) \<noteq> u))"
| "denotes TInvalid t r \<longleftrightarrow> (\<exists>q s. t = q # s \<and> isQuote q \<and> openLiteral q s r) \<or>
     (\<exists>c. t = [c] \<and> startsOther c \<and> punctuationKind c = TInvalid)"
| "denotes k t r \<longleftrightarrow> (\<exists>c. t = [c] \<and> punctuationKind c = k)"

text \<open>The lexeme is the text itself, except that every line end is \<open>\n\<close>.\<close>

definition lexemeOf :: "TokenKind \<Rightarrow> string \<Rightarrow> string" where
  "lexemeOf k t = (case k of TNewline \<Rightarrow> [CHR 0x0A] | _ \<Rightarrow> t)"

definition at :: "string \<Rightarrow> nat \<times> nat \<Rightarrow> SourceLocation" where
  "at f p = \<lparr>loc_file = f, loc_line = fst p, loc_column = snd p\<rparr>"

definition tokenAt :: "string \<Rightarrow> nat \<times> nat \<Rightarrow> TokenKind \<Rightarrow> string \<Rightarrow> Token" where
  "tokenAt f p k t = \<lparr>tok_kind = k, tok_lexeme = lexemeOf k t,
     tok_range = \<lparr>range_begin = at f p, range_end = at f (advance p t)\<rparr>\<rparr>"

text \<open>Exactly the invalid tokens are reported, over their own range.\<close>

definition invalidMessage :: "string \<Rightarrow> string" where
  "invalidMessage t = (if hd t = CHR 0x22 \<or> hd t = CHR 0x27 then ''unterminated character or string literal''
     else ''invalid C compatibility token '' @ [CHR 0x27] @ t @ [CHR 0x27])"

definition tokenDiagnostics :: "Token \<Rightarrow> Diagnostic list" where
  "tokenDiagnostics t = (case tok_kind t of
       TInvalid \<Rightarrow> [rangeDiagnostic (range_begin (tok_range t)) (range_end (tok_range t)) (invalidMessage (tok_lexeme t))]
     | _ \<Rightarrow> [])"

definition emits :: "TokenKind \<Rightarrow> string \<Rightarrow> Lexer \<Rightarrow> Lexer \<Rightarrow> bool" where
  "emits k t lx lx' \<longleftrightarrow> reads t lx lx' \<and> denotes k t (lx_rest lx') \<and>
     (let tok = tokenAt (lx_fileName lx) (lx_position lx) k t in
      found lx' = (lx_tokens lx @ [tok], lx_diagnostics lx @ tokenDiagnostics tok))"

lemma location_at: "location lx = at (lx_fileName lx) (lx_position lx)"
  by (simp add: location_def at_def lx_position_def)

lemma add_found:
  assumes "reads t lx lx'" "found lx' = found lx"
  shows "found (add k (lexemeOf k t) (location lx) lx') =
    (lx_tokens lx @ [tokenAt (lx_fileName lx) (lx_position lx) k t], lx_diagnostics lx)"
  using assms by (simp add: add_def tokenAt_def location_at reads_def found_def)

lemma rest_add [simp]: "lx_rest (add k s b lx) = lx_rest lx" "lx_rest (addLexDiagnostic b e m lx) = lx_rest lx"
  by (simp_all add: add_def addLexDiagnostic_def)

lemma emits_add:
  assumes "reads t lx lx'" "denotes k t (lx_rest lx')" "found lx' = found lx" "k \<noteq> TInvalid"
  shows "emits k t lx (add k (lexemeOf k t) (location lx) lx')"
  using assms add_found [OF assms(1,3)] by (cases k) (simp_all add: emits_def tokenDiagnostics_def tokenAt_def)

lemma emits_text:
  assumes "reads t lx lx'" "denotes k t (lx_rest lx')" "found lx' = found lx" "k \<noteq> TNewline" "k \<noteq> TInvalid"
  shows "\<exists>k' t'. emits k' t' lx (add k t (location lx) lx')"
  using emits_add [OF assms(1-3,5)] assms(4) by (cases k) (auto simp: lexemeOf_def)

lemma emits_invalid:
  assumes "reads t lx lx'" "denotes TInvalid t (lx_rest lx')" "found lx' = found lx" "m = invalidMessage t"
  shows "\<exists>k t'. emits k t' lx (addLexDiagnostic (location lx) (location (add TInvalid t (location lx) lx')) m
    (add TInvalid t (location lx) lx'))"
proof -
  have "emits TInvalid t lx (addLexDiagnostic (location lx) (location (add TInvalid t (location lx) lx')) m
    (add TInvalid t (location lx) lx'))"
    using assms by (auto simp: emits_def tokenDiagnostics_def tokenAt_def rangeDiagnostic_def addLexDiagnostic_def
        found_def add_def lexemeOf_def reads_def location_at lx_position_def)
  then show ?thesis by blast
qed

lemma consumeWhile_runs:
  assumes "\<And>c. p c \<Longrightarrow> \<not> isNewline c"
  obtains t where "reads t lx (consumeWhile p lx)" and "runs p t (lx_rest (consumeWhile p lx))" and "t = takeWhile p (lx_rest lx)"
  using reads_while [of p lx] assms consumeWhile_stops [of p lx] that by (auto simp: runs_def list_all_iff dest: set_takeWhileD)

lemma quotedBody_found: "found (fst (quotedBody q lx)) = found lx"
proof (induction q lx rule: quotedBody.induct)
  case (1 q lx)
  then show ?case by (subst quotedBody.simps) (simp add: Let_def)
qed

lemma reads_taken_add:
  assumes "reads t lx lx'"
  shows "take (length (lx_rest lx) - length (lx_rest lx')) (lx_rest lx) = t"
  using assms by (simp add: reads_def)

lemma consume_peek:
  assumes "reads t (consume lx) lx'" "lx_rest lx \<noteq> []" "\<not> isNewline (peek lx)"
  shows "reads (peek lx # t) lx lx'"
  using reads_trans [OF reads_consume [OF assms(2,3)] assms(1)] by simp

lemma lexIdentifier_emits:
  assumes "lx_rest lx \<noteq> []" "isIdentifierStart (peek lx)"
  shows "\<exists>k t. emits k t lx (lexIdentifier (location lx) lx)"
proof -
  let ?r = "takeWhile isIdentifierContinue (lx_rest (consume lx))"
  have n: "\<not> isNewline c" if "isIdentifierContinue c" for c
    using that by (auto simp: isNewline_def isIdentifierContinue_def isAlphaC_def isDigitC_def)
  have c: "isIdentifierContinue (peek lx)" using assms(2) by (auto simp: isIdentifierStart_def isIdentifierContinue_def)
  have r: "reads (peek lx # ?r) lx (consumeWhile isIdentifierContinue (consume lx))"
    using consume_peek [OF reads_while assms(1)] n c by blast
  have "denotes TIdentifier (peek lx # ?r) (lx_rest (consumeWhile isIdentifierContinue (consume lx)))"
    using assms c consumeWhile_stops by (auto simp: runs_def list_all_iff dest: set_takeWhileD)
  from emits_text [OF r this] show ?thesis unfolding lexIdentifier_def Let_def reads_taken_add [OF r] by simp
qed

lemma peek_nonempty: "peek lx \<noteq> CHR 0x00 \<Longrightarrow> lx_rest lx \<noteq> []"
  by (auto simp: peek_def peekAt_def)

lemma peek_hd: "lx_rest lx \<noteq> [] \<Longrightarrow> peek lx = hd (lx_rest lx)"
  by (simp add: peek_def peekAt_def hd_conv_nth)

lemma peek_stops: "\<not> p (CHR 0x00) \<Longrightarrow> stops p (lx_rest lx) \<longleftrightarrow> \<not> p (peek lx)"
  by (cases "lx_rest lx") (auto simp: stops_def peek_def peekAt_def)

lemma radixDigits_classes:
  assumes "radixDigits x = Some p"
  shows "p = orSeparator isHexC \<or> p = orSeparator (\<lambda>c. 48 \<le> (of_char c :: nat) \<and> (of_char c :: nat) \<le> 55) \<or>
    p = orSeparator (\<lambda>c. c = CHR ''0'' \<or> c = CHR ''1'')"
proof -
  consider "x \<in> set ''xX''" | "x \<notin> set ''xX''" "x \<in> set ''oO''" | "x \<notin> set ''xX''" "x \<notin> set ''oO''" "x \<in> set ''bB''"
    | "x \<notin> set ''xX''" "x \<notin> set ''oO''" "x \<notin> set ''bB''" by blast
  then show ?thesis using assms unfolding radixDigits_def by cases (simp_all only: if_True if_False option.inject option.distinct simp_thms)
qed

lemma class_plain:
  "\<not> p (CHR 0x0A) \<Longrightarrow> \<not> p (CHR 0x0D) \<Longrightarrow> p c \<Longrightarrow> \<not> isNewline c"
  by (auto simp: isNewline_def)

lemma digit_runs:
  "orSeparator isDigitC c \<Longrightarrow> \<not> isNewline c"
  "radixDigits x = Some p \<Longrightarrow> p c \<Longrightarrow> \<not> isNewline c"
  "isAlphaC c \<Longrightarrow> \<not> isNewline c"
proof -
  show "orSeparator isDigitC c \<Longrightarrow> \<not> isNewline c"
    by (rule class_plain [of "orSeparator isDigitC"]) (simp_all add: orSeparator_def isDigitC_def)
  show "isAlphaC c \<Longrightarrow> \<not> isNewline c" by (rule class_plain [of isAlphaC]) (simp_all add: isAlphaC_def)
  show "radixDigits x = Some p \<Longrightarrow> p c \<Longrightarrow> \<not> isNewline c"
    using class_plain [of p c] radixDigits_classes [of x p] by (auto simp: orSeparator_def isHexC_def isDigitC_def)
qed

lemma reads_peek:
  assumes "peek lx = c" "c \<noteq> CHR 0x00" "\<not> isNewline c"
  shows "reads [c] lx (consume lx)"
  using reads_consume [OF peek_nonempty] assms by auto

lemma reads_rest: "reads t lx lx' \<Longrightarrow> lx_rest lx = t @ lx_rest lx'"
  by (simp add: reads_def)

lemma fraction_reads:
  assumes "r = (if peek lx = CHR ''.'' then (consumeWhile (orSeparator isDigitC) (consume lx), True) else (lx, False))"
  obtains fr where "reads fr lx (fst r)" "fraction fr (lx_rest (fst r))" "snd r \<longleftrightarrow> fr \<noteq> []"
proof (cases "peek lx = CHR ''.''")
  case True
  obtain ds where "reads ds (consume lx) (fst r)" "digits ds (lx_rest (fst r))"
    using consumeWhile_runs [of "orSeparator isDigitC" "consume lx"] digit_runs(1) assms True by auto
  moreover have "reads [CHR ''.''] lx (consume lx)" using True by (intro reads_peek) (auto simp: isNewline_def)
  ultimately show thesis using that [of "CHR ''.'' # ds"] reads_trans [of "[CHR ''.'']"] assms True by (auto simp: fraction_def)
next
  case False
  then show thesis using that [of "[]"] assms peek_stops [of "\<lambda>c. c = CHR ''.''" lx] by (auto simp: fraction_def)
qed

lemma exponent_reads:
  assumes "peek lx \<in> set ''eE''" and "m = consume lx"
    and "l = (if peek m = CHR ''+'' \<or> peek m = CHR ''-'' then consume m else m)" and "r = consumeWhile (orSeparator isDigitC) l"
  obtains ex where "reads ex lx r" "exponent ex (lx_rest r)" "ex \<noteq> []"
proof -
  obtain ds where ds: "reads ds l r" "digits ds (lx_rest r)"
    using consumeWhile_runs [of "orSeparator isDigitC" l] digit_runs(1) assms(4) by auto
  have e: "reads [peek lx] lx m" unfolding assms(2) using assms(1) by (intro reads_peek) (auto simp: isNewline_def)
  obtain sign where s: "reads sign m l"
    "if sign = [] then stops (\<lambda>c. c \<in> set ''+-'') (lx_rest l) else length sign = 1 \<and> hd sign \<in> set ''+-''"
  proof (cases "peek m = CHR ''+'' \<or> peek m = CHR ''-''")
    case True
    then have "reads [peek m] m l" unfolding assms(3) by (auto simp: isNewline_def intro!: reads_peek)
    then show thesis using True that [of "[peek m]"] by auto
  next
    case False
    then show thesis using that [of "[]"] assms(3) peek_stops [of "\<lambda>c. c \<in> set ''+-''" m] by auto
  qed
  have "reads (peek lx # sign @ ds) lx r" using reads_trans [OF e reads_trans [OF s(1) ds(1)]] by simp
  moreover have "exponent (peek lx # sign @ ds) (lx_rest r)"
    unfolding exponent_def using assms(1) ds(2) s(2) reads_rest [OF ds(1)]
    by (simp only: list.distinct if_False list.sel simp_thms) (intro exI [of _ sign] exI [of _ ds], simp)
  ultimately show thesis using that by blast
qed

lemma decimalPart_reads:
  obtains ds fr ex where "reads (ds @ fr @ ex) lx (fst (decimalPart lx))" "digits ds (fr @ ex @ lx_rest (fst (decimalPart lx)))"
    "fraction fr (ex @ lx_rest (fst (decimalPart lx)))" "exponent ex (lx_rest (fst (decimalPart lx)))"
    "snd (decimalPart lx) \<longleftrightarrow> fr \<noteq> [] \<or> ex \<noteq> []"
proof -
  let ?d = "consumeWhile (orSeparator isDigitC)"
  let ?a = "?d lx"
  define r where "r = (if peek ?a = CHR ''.'' then (?d (consume ?a), True) else (?a, False))"
  obtain ds where ds: "reads ds lx ?a" "digits ds (lx_rest ?a)" using consumeWhile_runs [of "orSeparator isDigitC" lx] digit_runs(1) by auto
  obtain fr where fr: "reads fr ?a (fst r)" "fraction fr (lx_rest (fst r))" "snd r \<longleftrightarrow> fr \<noteq> []" using fraction_reads [OF r_def] .
  let ?b = "fst r"
  let ?s = "if peek (consume ?b) = CHR ''+'' \<or> peek (consume ?b) = CHR ''-'' then consume (consume ?b) else consume ?b"
  have d: "decimalPart lx = (if peek ?b = CHR ''e'' \<or> peek ?b = CHR ''E'' then (?d ?s, True) else r)"
    unfolding decimalPart_def r_def by (simp add: Let_def split: prod.splits)
  obtain ex where ex: "reads ex ?b (fst (decimalPart lx))" "exponent ex (lx_rest (fst (decimalPart lx)))"
    "snd (decimalPart lx) \<longleftrightarrow> fr \<noteq> [] \<or> ex \<noteq> []"
  proof (cases "peek ?b \<in> set ''eE''")
    case True
    obtain ex where "reads ex ?b (?d ?s)" "exponent ex (lx_rest (?d ?s))" "ex \<noteq> []" using exponent_reads [OF True refl refl refl] .
    then show thesis using that [of ex] True d by simp
  next
    case False
    then show thesis using that [of "[]"] d fr(3) peek_stops [of "\<lambda>c. c \<in> set ''eE''" ?b] by (simp add: exponent_def)
  qed
  have "reads (ds @ fr @ ex) lx (fst (decimalPart lx))" using reads_trans [OF ds(1) reads_trans [OF fr(1) ex(1)]] .
  then show thesis using that ds(2) fr(2) ex(2,3) reads_rest [OF fr(1)] reads_rest [OF ex(1)] by simp
qed

lemma numberBody_radix:
  "numberBody lx = (case radixPrefix (lx_rest lx) of
     Some p \<Rightarrow> (consumeWhile p (consume (consume lx)), False) | None \<Rightarrow> decimalPart lx)"
proof (cases "lx_rest lx")
  case (Cons c t)
  show ?thesis
  proof (cases t)
    case Nil
    then have "peekAt 1 lx = CHR 0x00" "radixPrefix (lx_rest lx) = None"
      using Cons by (simp_all add: peekAt_def radixPrefix_def)
    then show ?thesis by (simp add: numberBody_def)
  next
    case (Cons x u)
    have "peek lx = c" "peekAt 1 lx = x" "radixPrefix (lx_rest lx) = (if c = CHR ''0'' then radixDigits x else None)"
      using \<open>lx_rest lx = c # t\<close> Cons by (simp_all add: peek_def peekAt_def radixPrefix_def)
    then show ?thesis unfolding numberBody_def radixDigits_def by simp
  qed
qed (simp add: numberBody_def radixPrefix_def peek_def peekAt_def)

lemma numberBody_reads:
  obtains body where "reads body lx (fst (numberBody lx))" "numeral body (lx_rest (fst (numberBody lx))) (snd (numberBody lx))"
proof (cases "radixPrefix (lx_rest lx)")
  case None
  then have "numberBody lx = decimalPart lx" by (simp add: numberBody_radix)
  then obtain ds fr ex where d: "reads (ds @ fr @ ex) lx (fst (numberBody lx))" "digits ds (fr @ ex @ lx_rest (fst (numberBody lx)))"
    "fraction fr (ex @ lx_rest (fst (numberBody lx)))" "exponent ex (lx_rest (fst (numberBody lx)))"
    "snd (numberBody lx) \<longleftrightarrow> fr \<noteq> [] \<or> ex \<noteq> []" using decimalPart_reads [of lx] by metis
  have "numeral (ds @ fr @ ex) (lx_rest (fst (numberBody lx))) (snd (numberBody lx))"
    unfolding numeral_def reads_rest [OF d(1), symmetric] None option.case using d(2-5) by blast
  with d(1) show thesis by (rule that)
next
  case (Some p)
  then obtain x rest where x: "lx_rest lx = CHR ''0'' # x # rest" "radixDigits x = Some p"
    by (auto simp: radixPrefix_def split: list.splits if_splits)
  let ?c = "consume (consume lx)"
  have b: "numberBody lx = (consumeWhile p ?c, False)" using Some by (simp add: numberBody_radix)
  have "x \<noteq> CHR 0x00" "\<not> isNewline x" using x(2) by (auto simp: radixDigits_def isNewline_def split: if_splits)
  then have c: "reads [CHR ''0'', x] lx ?c" using x(1) by (intro reads_consume2) (auto simp: peek_def peekAt_def isNewline_def)
  obtain ds where ds: "reads ds ?c (consumeWhile p ?c)" "runs p ds (lx_rest (consumeWhile p ?c))"
    using consumeWhile_runs [of p ?c] digit_runs(2) [OF x(2)] by auto
  have r: "reads ([CHR ''0'', x] @ ds) lx (consumeWhile p ?c)" using reads_trans [OF c ds(1)] .
  then have "radixPrefix (([CHR ''0'', x] @ ds) @ lx_rest (consumeWhile p ?c)) = Some p" using reads_rest [OF r] Some by simp
  then show thesis using that [of "[CHR ''0'', x] @ ds"] r ds(2) b by (simp add: numeral_def)
qed

lemma numberBody_found: "found (fst (numberBody lx)) = found lx"
  by (simp add: numberBody_def decimalPart_def Let_def split: prod.splits)

lemma lexNumber_emits:
  assumes "lx_rest lx \<noteq> []" "isDigitC (peek lx)"
  shows "\<exists>k t. emits k t lx (lexNumber (location lx) lx)"
proof -
  obtain a f where b: "numberBody lx = (a, f)" by force
  obtain body where body: "reads body lx a" "numeral body (lx_rest a) f" using numberBody_reads [of lx] b by auto
  let ?c = "consumeWhile isAlphaC a"
  obtain x where x: "reads x a ?c" "runs isAlphaC x (lx_rest ?c)" "x = takeWhile isAlphaC (lx_rest a)"
    using consumeWhile_runs [of isAlphaC a] digit_runs(3) by auto
  let ?k = "if f \<or> CHR ''f'' \<in> set x \<or> CHR ''F'' \<in> set x then TFloat else TInteger"
  have r: "reads (body @ x) lx ?c" by (rule reads_trans [OF body(1) x(1)])
  have "body \<noteq> []"
    using body assms reads_rest [OF body(1)] peek_hd [OF assms(1)]
    by (auto simp: numeral_def runs_def stops_def orSeparator_def split: option.splits)
  then have "hd (body @ x) = peek lx" using reads_rest [OF body(1)] peek_hd [OF assms(1)] by simp
  then have "number ?k (body @ x) (lx_rest ?c)"
    using \<open>body \<noteq> []\<close> assms(2) body(2) x(2) reads_rest [OF x(1)] unfolding number_def by (intro conjI exI [of _ body] exI [of _ x] exI [of _ f]) auto
  then have "denotes ?k (body @ x) (lx_rest ?c)" by (cases "f \<or> CHR ''f'' \<in> set x \<or> CHR ''F'' \<in> set x") simp_all
  from emits_text [OF r this] show ?thesis
    using numberBody_found [of lx] b unfolding lexNumber_def b Let_def split reads_taken_add [OF r] x(3) [symmetric] by simp
qed

definition quotedRead :: "char \<Rightarrow> Lexer \<Rightarrow> Lexer \<times> bool \<Rightarrow> bool" where
  "quotedRead q lx r \<longleftrightarrow> (\<exists>t. reads t lx (fst r) \<and>
     (if snd r then \<exists>s. t = s @ [q] \<and> inside q s else openLiteral q t (lx_rest (fst r))))"

lemma quotedRead_step:
  assumes "reads u lx lx'" "quotedRead q lx' r" and more: "\<And>s. inside q s \<Longrightarrow> inside q (u @ s)"
  shows "quotedRead q lx r"
proof -
  obtain t where t: "reads t lx' (fst r)"
    "if snd r then \<exists>s. t = s @ [q] \<and> inside q s else openLiteral q t (lx_rest (fst r))"
    using assms(2) unfolding quotedRead_def by blast
  have "if snd r then \<exists>s. u @ t = s @ [q] \<and> inside q s else openLiteral q (u @ t) (lx_rest (fst r))"
    using t(2) more by (auto simp: openLiteral_def append_eq_append_conv2 split: if_splits)
  with reads_trans [OF assms(1) t(1)] show ?thesis unfolding quotedRead_def by blast
qed

lemma quotedRead_stop:
  assumes "stops (\<lambda>c. \<not> isNewline c) (lx_rest lx)" "b = [] \<or> b = [CHR 0x5C]" "reads b lx' lx"
  shows "quotedRead q lx' (lx, False)"
proof -
  have "openLiteral q b (lx_rest lx)" using assms(1,2) inside_nil unfolding openLiteral_def by (intro exI [of _ "[]"] exI [of _ b]) simp
  then show ?thesis using assms(3) unfolding quotedRead_def by (auto intro!: exI [of _ b])
qed

lemma quotedBody_reads: "\<not> isNewline q \<Longrightarrow> quotedRead q lx (quotedBody q lx)"
proof (induction q lx rule: quotedBody.induct)
  case (1 q lx)
  consider (fin) "atEnd lx" | (esc) "\<not> atEnd lx" "peek lx = CHR 0x5C"
    | (quote) "\<not> atEnd lx" "peek lx \<noteq> CHR 0x5C" "peek lx = q"
    | (line) "\<not> atEnd lx" "peek lx \<noteq> CHR 0x5C" "peek lx \<noteq> q" "isNewline (peek lx)"
    | (other) "\<not> atEnd lx" "peek lx \<noteq> CHR 0x5C" "peek lx \<noteq> q" "\<not> isNewline (peek lx)" by blast
  then show ?case
  proof cases
    case fin
    then show ?thesis using quotedRead_stop [OF _ _ reads_refl]
      by (subst quotedBody.simps) (simp add: stops_def atEnd_def)
  next
    case esc
    let ?c = "consume lx"
    have c: "reads [CHR 0x5C] lx ?c" using esc reads_consume [of lx] by (auto simp: atEnd_def isNewline_def)
    show ?thesis
    proof (cases "\<not> atEnd ?c \<and> \<not> isNewline (peek ?c)")
      case True
      then have "reads [peek ?c] ?c (consume ?c)" by (intro reads_consume) (auto simp: atEnd_def)
      with c have "reads [CHR 0x5C, peek ?c] lx (consume ?c)" using reads_trans [of "[CHR 0x5C]"] by fastforce
      moreover have "quotedRead q (consume ?c) (quotedBody q (consume ?c))" using 1(1) [OF esc refl "1.prems"] True by simp
      ultimately have "quotedRead q lx (quotedBody q (consume ?c))"
        by (rule quotedRead_step) (use True in \<open>simp add: inside_escape\<close>)
      then show ?thesis using esc True by (subst quotedBody.simps) (simp add: Let_def)
    next
      case False
      then have "quotedBody q ?c = (?c, False)"
        using "1.prems" by (subst quotedBody.simps) (auto simp: isNewline_def)
      moreover have "stops (\<lambda>c. \<not> isNewline c) (lx_rest ?c)"
        using False peek_hd [of ?c] unfolding stops_def atEnd_def by metis
      ultimately show ?thesis using esc False quotedRead_stop [OF _ _ c]
        by (subst quotedBody.simps) (auto simp: Let_def)
    qed
  next
    case quote
    then have "reads ([] @ [q]) lx (consume lx)" using reads_consume [of lx] "1.prems" by (auto simp: atEnd_def)
    then show ?thesis using quote by (subst quotedBody.simps) (auto simp: quotedRead_def intro: inside_nil)
  next
    case line
    then show ?thesis using quotedRead_stop [OF _ _ reads_refl] peek_hd [of lx]
      by (subst quotedBody.simps) (simp add: stops_def atEnd_def)
  next
    case other
    then have "reads [peek lx] lx (consume lx)" by (intro reads_consume) (auto simp: atEnd_def)
    from quotedRead_step [OF this 1(2) [OF other "1.prems"]] show ?thesis using other
      by (subst quotedBody.simps) (simp add: inside_char)
  qed
qed

lemma lexQuoted_emits:
  assumes "lx_rest lx \<noteq> []" "peek lx = q" "q = CHR 0x22 \<or> q = CHR 0x27"
  shows "\<exists>k t. emits k t lx (lexQuoted (location lx) q lx)"
proof -
  have n: "\<not> isNewline q" using assms(3) by (auto simp: isNewline_def)
  obtain a f where b: "quotedBody q (consume lx) = (a, f)" by force
  obtain t where t: "reads t (consume lx) a" "if f then \<exists>s. t = s @ [q] \<and> inside q s else openLiteral q t (lx_rest a)"
    using quotedBody_reads [OF n, of "consume lx"] unfolding b quotedRead_def fst_conv snd_conv by blast
  have r: "reads (q # t) lx a" using consume_peek [OF t(1) assms(1)] n assms(2) by simp
  have k: "found a = found lx" using quotedBody_found [of q "consume lx"] b by simp
  let ?k = "if q = CHR 0x22 then TString else TCharacter"
  have valid: "denotes ?k (q # t) (lx_rest a)" if f using t(2) that assms(3) by auto
  have bad: "denotes TInvalid (q # t) (lx_rest a)" if "\<not> f" using t(2) that assms(3) by (auto simp: isQuote_def)
  have invalid: "''unterminated character or string literal'' = invalidMessage (q # t)"
    using assms(3) by (auto simp: invalidMessage_def)
  show ?thesis unfolding lexQuoted_def b Let_def split reads_taken_add [OF r]
    using emits_text [OF r valid k] emits_invalid [OF r bad k invalid] by (cases f) simp_all
qed

lemma find_Some_in: "find P xs = Some x \<Longrightarrow> x \<in> set xs \<and> P x"
  by (induction xs) (auto split: if_splits)

lemma multiChar_plain: "list_all (\<lambda>t. t \<noteq> [] \<and> list_all (\<lambda>c. \<not> isNewline c) t) multiChar"
  by (simp add: multiChar_def isNewline_def)

lemma find_first:
  assumes "find P xs = Some x" "\<And>i j. i < j \<Longrightarrow> j < length xs \<Longrightarrow> length (xs ! j) \<le> length (xs ! i)" "u \<in> set xs" "P u"
  shows "length u \<le> length x"
proof -
  obtain i where i: "i < length xs" "x = xs ! i" "\<forall>j<i. \<not> P (xs ! j)" using assms(1) by (auto simp: find_Some_iff)
  obtain j where j: "j < length xs" "u = xs ! j" using assms(3) by (metis in_set_conv_nth)
  with i assms(4) have "i \<le> j" by (meson not_less)
  with i j assms(2) [of i j] show ?thesis by (cases "i = j") auto
qed

text \<open>The longer operators come first.\<close>

lemma multiChar_longest:
  assumes "find P multiChar = Some x" "u \<in> set multiChar" "P u"
  shows "length u \<le> length x"
proof (rule find_first [OF assms(1) _ assms(2,3)])
  have "sorted (rev (map length multiChar))" by (simp add: multiChar_def)
  then show "length (multiChar ! j) \<le> length (multiChar ! i)" if "i < j" "j < length multiChar" for i j
    using that by (simp add: sorted_rev_iff_nth_mono)
qed

lemma multiChar_hd: "t \<in> set multiChar \<Longrightarrow> t \<noteq> [] \<and> punctuationKind (hd t) = TOperator"
proof -
  have "list_all (\<lambda>t. t \<noteq> [] \<and> punctuationKind (hd t) = TOperator) multiChar"
    by (simp add: multiChar_def punctuationKind_def)
  then show "t \<in> set multiChar \<Longrightarrow> t \<noteq> [] \<and> punctuationKind (hd t) = TOperator" by (auto simp: list_all_iff)
qed

lemma find_None_all: "find P xs = None \<Longrightarrow> x \<in> set xs \<Longrightarrow> \<not> P x"
  by (simp add: find_None_iff)

lemma lexPunctuation_emits:
  assumes "lx_rest lx \<noteq> []" "lexPunctuation (location lx) lx = Some lx'"
  shows "\<exists>k t. emits k t lx lx'"
proof (cases "find (\<lambda>text. take (length text) (lx_rest lx) = text) multiChar")
  case (Some t)
  from find_Some_in [OF this] multiChar_plain have m: "t \<in> set multiChar" "take (length t) (lx_rest lx) = t"
    "list_all (\<lambda>c. \<not> isNewline c) t" by (auto simp: list_all_iff)
  then have "length t \<le> length (lx_rest lx)" by (metis length_take min.cobounded1)
  with reads_run [of "length t" lx] m have r: "reads t lx (consumeRun (length t) lx)" by simp
  have "denotes TOperator t (lx_rest (consumeRun (length t) lx))"
    unfolding denotes.simps reads_rest [OF r, symmetric] using m(1) multiChar_longest [OF Some] by blast
  from emits_text [OF r this] Some assms(2) show ?thesis by (auto simp: lexPunctuation_def)
next
  case None
  let ?k = "punctuationKind (peek lx)"
  from None assms(2) have k: "?k \<noteq> TInvalid" "lx' = add ?k [peek lx] (location lx) (consume lx)"
    by (auto simp: lexPunctuation_def Let_def split: TokenKind.splits)
  have n: "\<not> isNewline (peek lx)" using k(1) by (auto simp: punctuationKind_def isNewline_def)
  have r: "reads [peek lx] lx (consume lx)" by (rule reads_consume [OF assms(1) n])
  have kinds: "?k \<in> {TLParen, TRParen, TLBrace, TRBrace, TLBracket, TRBracket, TComma, TSemicolon, TColon, TQuestion, TDot, TOperator}"
    using k(1) unfolding punctuationKind_def by (simp split: if_splits)
  have "denotes ?k [peek lx] (lx_rest (consume lx))"
    using kinds find_None_all [OF None] reads_rest [OF r] by (cases ?k) simp_all
  from emits_text [OF r this] kinds k show ?thesis by auto
qed

lemma newline_denoted:
  assumes "lx_rest lx \<noteq> []" "isNewline (peek lx)"
  obtains t where "reads t lx (consumeNewline lx)" "denotes TNewline t (lx_rest (consumeNewline lx))"
proof -
  obtain t where t: "t \<in> {[CHR 0x0A], [CHR 0x0D], [CHR 0x0D, CHR 0x0A]}" "reads t lx (consumeNewline lx)"
    using reads_consumeNewline [OF assms] by blast
  have "stops (\<lambda>c. c = CHR 0x0A) (lx_rest (consumeNewline lx))" if "t = [CHR 0x0D]"
  proof (rule ccontr)
    assume "\<not> ?thesis"
    then obtain r where r: "lx_rest (consumeNewline lx) = CHR 0x0A # r"
      by (cases "lx_rest (consumeNewline lx)") (auto simp: stops_def)
    with t(2) that have "lx_rest lx = CHR 0x0D # CHR 0x0A # r" by (simp add: reads_def)
    with r show False by (simp add: consumeNewline_def newlineLength_def)
  qed
  then show thesis using t that by auto
qed

lemma lexToken_emits:
  assumes "lx_rest lx \<noteq> []"
  shows "\<exists>k t. emits k t lx (lexToken lx)"
proof -
  let ?c = "peek lx"
  consider (line) "isNewline ?c" | (ident) "\<not> isNewline ?c" "isIdentifierStart ?c"
    | (number) "\<not> isNewline ?c" "\<not> isIdentifierStart ?c" "isDigitC ?c"
    | (quoted) "\<not> isNewline ?c" "\<not> isIdentifierStart ?c" "\<not> isDigitC ?c" "?c = CHR 0x22 \<or> ?c = CHR 0x27"
    | (other) "\<not> isNewline ?c" "\<not> isIdentifierStart ?c" "\<not> isDigitC ?c" "\<not> (?c = CHR 0x22 \<or> ?c = CHR 0x27)"
    by blast
  then show ?thesis
  proof cases
    case line
    obtain t where "reads t lx (consumeNewline lx)" "denotes TNewline t (lx_rest (consumeNewline lx))"
      using newline_denoted [OF assms line] .
    from emits_add [OF this] line show ?thesis by (auto simp: lexToken_def Let_def lexemeOf_def)
  next
    case ident
    with lexIdentifier_emits [OF assms] show ?thesis by (auto simp: lexToken_def Let_def)
  next
    case number
    with lexNumber_emits [OF assms] show ?thesis by (auto simp: lexToken_def Let_def)
  next
    case quoted
    with lexQuoted_emits [OF assms refl] show ?thesis by (auto simp: lexToken_def Let_def)
  next
    case other
    show ?thesis
    proof (cases "lexPunctuation (location lx) lx")
      case None
      then have "punctuationKind ?c = TInvalid" by (auto simp: lexPunctuation_def Let_def split: TokenKind.splits option.splits)
      then have d: "denotes TInvalid [?c] (lx_rest (consume lx))" using other by (auto simp: startsOther_def isQuote_def)
      have m: "''invalid C compatibility token '' @ [CHR 0x27] @ [?c] @ [CHR 0x27] = invalidMessage [?c]"
        using other(4) by (simp add: invalidMessage_def)
      from emits_invalid [OF reads_consume [OF assms other(1)] d _ m] None other show ?thesis
        by (auto simp: lexToken_def Let_def)
    qed (use lexPunctuation_emits [OF assms] other in \<open>auto simp: lexToken_def Let_def\<close>)
  qed
qed

lemma denotes_nonempty: "denotes k t r \<Longrightarrow> t \<noteq> []"
  by (cases k) (auto simp: number_def dest: multiChar_hd)

lemma lexToken_shortens: "lx_rest lx \<noteq> [] \<Longrightarrow> length (lx_rest (lexToken lx)) < length (lx_rest lx)"
proof -
  assume "lx_rest lx \<noteq> []"
  from lexToken_emits [OF this] obtain k t where "reads t lx (lexToken lx)" "denotes k t (lx_rest (lexToken lx))"
    unfolding emits_def by blast
  then show ?thesis using denotes_nonempty reads_rest [of t lx "lexToken lx"] by fastforce
qed

lemma skip_length: "length (lx_rest (skipHorizontalSpaceAndComments lx)) \<le> length (lx_rest lx)"
proof -
  from skip_reads [of lx] consider g where "reads g lx (skipHorizontalSpaceAndComments lx)"
    | "lx_rest (skipHorizontalSpaceAndComments lx) = []"
    unfolding gapRead_def openRead_def by blast
  then show ?thesis by cases (auto simp: reads_def)
qed

text \<open>The loop of \<open>Lexer::lex\<close>.  It ends because every round consumes at least one character.\<close>

function lexLoop :: "Lexer \<Rightarrow> Lexer" where
  "lexLoop lx =
     (if atEnd lx then lx
      else let lx = skipHorizontalSpaceAndComments lx in
        if atEnd lx then lx else lexLoop (lexToken lx))"
  by pat_completeness auto
termination
proof (relation "measure (\<lambda>lx. length (lx_rest lx))", goal_cases)
  case (2 lx x)
  then show ?case using lexToken_shortens [of x] skip_length [of lx] by (simp add: atEnd_def)
qed simp

declare lexLoop.simps [simp del]

definition lexCCompatSource :: "string \<Rightarrow> string \<Rightarrow> Token list \<times> Diagnostic list" where
  "lexCCompatSource source fileName =
     (let lx = lexLoop \<lparr>lx_rest = source, lx_fileName = fileName, lx_line = 1, lx_column = 1, lx_tokens = [], lx_diagnostics = []\<rparr>;
          fin = location lx in
      (lx_tokens lx @ [\<lparr>tok_kind = TEnd, tok_lexeme = [], tok_range = \<lparr>range_begin = fin, range_end = fin\<rparr>\<rparr>],
       lx_diagnostics lx))"

section \<open>Correctness\<close>

text \<open>
  The token structure of a text that starts at a position: gaps and tokens in order, a final gap, possibly an open
  comment, and an end token; with it the diagnostics in order.
\<close>

definition endToken :: "string \<Rightarrow> nat \<times> nat \<Rightarrow> Token" where
  "endToken f p = \<lparr>tok_kind = TEnd, tok_lexeme = [], tok_range = \<lparr>range_begin = at f p, range_end = at f p\<rparr>\<rparr>"

inductive tokenised :: "string \<Rightarrow> nat \<times> nat \<Rightarrow> string \<Rightarrow> Token list \<Rightarrow> Diagnostic list \<Rightarrow> bool" where
  tokenised_end: "gap g [] \<Longrightarrow> tokenised f p g [endToken f (advance p g)] []"
| tokenised_open: "gap g (''/*'' @ s) \<Longrightarrow> \<not> closes s \<Longrightarrow> q = advance p g \<Longrightarrow> r = advance q (''/*'' @ s) \<Longrightarrow>
    tokenised f p (g @ ''/*'' @ s) [endToken f r] [rangeDiagnostic (at f q) (at f r) ''unterminated block comment'']"
| tokenised_token: "gap g (t @ rest) \<Longrightarrow> take 2 (t @ rest) \<noteq> ''/*'' \<Longrightarrow> denotes k t rest \<Longrightarrow> q = advance p g \<Longrightarrow> tok = tokenAt f q k t \<Longrightarrow>
    tokenised f (advance q t) rest toks ds \<Longrightarrow>
    tokenised f p (g @ t @ rest) (tok # toks) (tokenDiagnostics tok @ ds)"

lemma tokenised_empty: "tokenised f p [] [endToken f p] []"
  using tokenised_end [OF gap_nil, of f p] by (simp add: gapEnd_def stops_def)

lemma lexLoop_tokenised:
  "\<exists>toks ds. found (lexLoop lx) = (lx_tokens lx @ toks, lx_diagnostics lx @ ds) \<and>
     tokenised (lx_fileName lx) (lx_position lx) (lx_rest lx) (toks @ [endToken (lx_fileName lx) (lx_position (lexLoop lx))]) ds
     \<and> lx_fileName (lexLoop lx) = lx_fileName lx"
proof (induction lx rule: lexLoop.induct)
  case (1 lx)
  let ?s = "skipHorizontalSpaceAndComments lx"
  consider (fin) "atEnd lx" | (open_comment) "\<not> atEnd lx" "openRead lx ?s"
    | (gap) g where "\<not> atEnd lx" "reads g lx ?s" "gap g (lx_rest ?s)" "take 2 (lx_rest ?s) \<noteq> ''/*''" "found ?s = found lx"
    using skip_reads [of lx] unfolding gapRead_def by blast
  then show ?case
  proof cases
    case fin
    then have "lexLoop lx = lx" by (subst lexLoop.simps) simp
    then show ?thesis using fin tokenised_empty by (auto simp: found_def atEnd_def)
  next
    case open_comment
    then obtain g s m where o: "reads g lx m" "gap g (lx_rest m)" "reads (''/*'' @ s) m ?s" "\<not> closes s" "lx_rest ?s = []"
      "found ?s = (lx_tokens lx, lx_diagnostics lx @
         [rangeDiagnostic (location m) (location ?s) ''unterminated block comment''])"
      unfolding openRead_def by blast
    have "lexLoop lx = ?s" using open_comment o(5) by (subst lexLoop.simps) (simp add: atEnd_def Let_def)
    moreover have "gap g (''/*'' @ s)" using o(2,3,5) by (simp add: reads_def)
    ultimately show ?thesis using o tokenised_open [OF _ o(4) refl refl, of g "lx_fileName lx" "lx_position lx"]
      by (auto simp: found_def reads_def location_at)
  next
    case gap
    show ?thesis
    proof (cases "atEnd ?s")
      case True
      then have "lexLoop lx = ?s" using gap(1) by (subst lexLoop.simps) (simp add: Let_def)
      then show ?thesis using gap True tokenised_end [of g "lx_fileName lx" "lx_position lx"]
        by (auto simp: found_def reads_def atEnd_def)
    next
      case False
      then have step: "lexLoop lx = lexLoop (lexToken ?s)" using gap(1) by (subst lexLoop.simps) (simp add: Let_def)
      from False obtain k t where t: "reads t ?s (lexToken ?s)" "denotes k t (lx_rest (lexToken ?s))"
        "found (lexToken ?s) = (lx_tokens ?s @ [tokenAt (lx_fileName ?s) (lx_position ?s) k t],
           lx_diagnostics ?s @ tokenDiagnostics (tokenAt (lx_fileName ?s) (lx_position ?s) k t))"
        using lexToken_emits [of ?s] unfolding emits_def Let_def atEnd_def by blast
      from "1.IH" [OF gap(1) refl False] obtain toks ds where
        ih: "found (lexLoop (lexToken ?s)) = (lx_tokens (lexToken ?s) @ toks, lx_diagnostics (lexToken ?s) @ ds)"
        "tokenised (lx_fileName (lexToken ?s)) (lx_position (lexToken ?s)) (lx_rest (lexToken ?s))
           (toks @ [endToken (lx_fileName (lexToken ?s)) (lx_position (lexLoop (lexToken ?s)))]) ds"
        "lx_fileName (lexLoop (lexToken ?s)) = lx_fileName (lexToken ?s)" by blast
      let ?tok = "tokenAt (lx_fileName ?s) (lx_position ?s) k t"
      have "tokenised (lx_fileName lx) (lx_position lx) (g @ t @ lx_rest (lexToken ?s))
        (?tok # toks @ [endToken (lx_fileName lx) (lx_position (lexLoop lx))]) (tokenDiagnostics ?tok @ ds)"
        using ih t(1) gap(2-4) step by (intro tokenised_token [OF _ _ t(2)]) (auto simp: reads_def)
      then show ?thesis using ih(1,3) t gap(2,5) step
        by (intro exI [of _ "?tok # toks"] exI [of _ "tokenDiagnostics ?tok @ ds"]) (auto simp: found_def reads_def)
    qed
  qed
qed

lemma lexCCompatSource_tokenised:
  "tokenised fileName (1, 1) source (fst (lexCCompatSource source fileName)) (snd (lexCCompatSource source fileName))"
proof -
  let ?lx = "\<lparr>lx_rest = source, lx_fileName = fileName, lx_line = 1, lx_column = 1, lx_tokens = [], lx_diagnostics = []\<rparr>"
  from lexLoop_tokenised [of ?lx] obtain toks ds where
    "found (lexLoop ?lx) = (toks, ds)" "lx_fileName (lexLoop ?lx) = fileName"
    "tokenised fileName (1, 1) source (toks @ [endToken fileName (lx_position (lexLoop ?lx))]) ds"
    by (auto simp: lx_position_def)
  then show ?thesis
    by (simp add: lexCCompatSource_def Let_def endToken_def location_at found_def)
qed

end
