(* ===== verification/CCompat_LexExact.thy ===== *)
theory CCompat_LexExact
  imports CCompat_Lexer
begin

text \<open>
  The token structure of a text is unique: the gap before a token, the token's text and its kind are all fixed by
  the text that is still to be read.  With the structure the lexer is shown to produce this makes \<open>lexCCompatSource\<close>
  exact.
\<close>

section \<open>Pieces of a text\<close>

lemma stops_Cons [simp]: "stops p (c # r) \<longleftrightarrow> \<not> p c" "stops p []"
  by (simp_all add: stops_def)

lemma runs_takeWhile: "runs p t r \<Longrightarrow> t = takeWhile p (t @ r)"
  by (induction t) (cases r; auto simp: runs_def)+

lemma runs_unique:
  assumes "runs p t r" "runs p t' r'" "t @ r = t' @ r'"
  shows "t = t'" "r = r'"
  using runs_takeWhile [OF assms(1)] runs_takeWhile [OF assms(2)] assms(3) by auto

lemma fraction_unique:
  assumes "fraction t r" "fraction t' r'" "t @ r = t' @ r'"
  shows "t = t'" "r = r'"
proof -
  have "t = t' \<and> r = r'" using assms runs_unique [of _ "tl t" r "tl t'" r']
    by (cases t; cases t') (auto simp: fraction_def)
  then show "t = t'" "r = r'" by blast+
qed

lemma sign_taken:
  assumes "if s = [] then stops p r else length s = 1 \<and> p (hd s)" "x = s @ r"
  shows "s = (if stops p x then [] else [hd x])"
  using assms by (cases s) auto

lemma exponent_parts:
  assumes "exponent t r" "t \<noteq> []"
  obtains s d where "tl t = s @ d" "digits d r" "if s = [] then stops (\<lambda>c. c \<in> set ''+-'') (d @ r) else length s = 1 \<and> hd s \<in> set ''+-''"
  using assms unfolding exponent_def by metis

lemma exponent_unique:
  assumes "exponent t r" "exponent t' r'" "t @ r = t' @ r'"
  shows "t = t'"
proof (cases "t = [] \<or> t' = []")
  case True
  with assms show ?thesis by (cases t; cases t') (auto simp: exponent_def simp del: list.set)
next
  case False
  obtain s d where e: "tl t = s @ d" "digits d r"
    "if s = [] then stops (\<lambda>c. c \<in> set ''+-'') (d @ r) else length s = 1 \<and> hd s \<in> set ''+-''"
    using exponent_parts [OF assms(1)] False by blast
  obtain s' d' where e': "tl t' = s' @ d'" "digits d' r'"
    "if s' = [] then stops (\<lambda>c. c \<in> set ''+-'') (d' @ r') else length s' = 1 \<and> hd s' \<in> set ''+-''"
    using exponent_parts [OF assms(2)] False by blast
  have h: "hd t = hd t'" "tl t @ r = tl t' @ r'" using False assms(3) by (cases t; cases t'; simp)+
  with e e' have x: "tl t @ r = s @ d @ r" "tl t @ r = s' @ d' @ r'" by simp_all
  have "s = s'" by (rule trans [OF sign_taken [OF e(3) x(1)] sym [OF sign_taken [OF e'(3) x(2)]]])
  with h e e' have "d = d'" using runs_unique(1) [OF e(2) e'(2)] by simp
  with \<open>s = s'\<close> e e' h have "tl t = tl t'" by simp
  with h(1) False show ?thesis by (simp add: list.expand)
qed

section \<open>Numbers\<close>

lemma numeral_unique:
  assumes "numeral t r fl" "numeral t' r' fl'" "t @ r = t' @ r'"
  shows "t = t' \<and> (fl \<longleftrightarrow> fl')"
proof (cases "radixPrefix (t @ r)")
  case None
  with assms(1) obtain ds fr ex where a: "t = ds @ fr @ ex" "digits ds (fr @ ex @ r)" "fraction fr (ex @ r)" "exponent ex r"
    "fl \<longleftrightarrow> fr \<noteq> [] \<or> ex \<noteq> []" unfolding numeral_def by auto
  from None assms(2,3) obtain ds' fr' ex' where b: "t' = ds' @ fr' @ ex'" "digits ds' (fr' @ ex' @ r')" "fraction fr' (ex' @ r')"
    "exponent ex' r'" "fl' \<longleftrightarrow> fr' \<noteq> [] \<or> ex' \<noteq> []" unfolding numeral_def by auto
  have "ds = ds'" "fr @ ex @ r = fr' @ ex' @ r'" using runs_unique [OF a(2) b(2)] assms(3) a(1) b(1) by simp_all
  moreover from this have "fr = fr'" "ex @ r = ex' @ r'" using fraction_unique [OF a(3) b(3)] by simp_all
  moreover from this have "ex = ex'" using exponent_unique [OF a(4) b(4)] by simp
  ultimately show ?thesis using a(1,5) b(1,5) by simp
next
  case (Some p)
  with assms have p: "2 \<le> length t" "runs p (drop 2 t) r" "\<not> fl" "2 \<le> length t'" "runs p (drop 2 t') r'" "\<not> fl'"
    unfolding numeral_def by auto
  have "take 2 (t @ r) = take 2 t" "take 2 (t' @ r') = take 2 t'" "drop 2 (t @ r) = drop 2 t @ r" "drop 2 (t' @ r') = drop 2 t' @ r'"
    using p(1,4) by simp_all
  then have "take 2 t = take 2 t'" "drop 2 t @ r = drop 2 t' @ r'" using assms(3) by (metis, metis)
  with runs_unique(1) [OF p(2,5)] have "t = t'" by (metis append_take_drop_id)
  with p(3,6) show ?thesis by simp
qed

lemma number_unique:
  assumes "number k t r" "number k' t' r'" "t @ r = t' @ r'"
  shows "k = k' \<and> t = t'"
proof -
  obtain b s f where a: "t = b @ s" "numeral b (s @ r) f" "runs isAlphaC s r"
    "k = (if f \<or> CHR ''f'' \<in> set s \<or> CHR ''F'' \<in> set s then TFloat else TInteger)" using assms(1) unfolding number_def by blast
  obtain b' s' f' where c: "t' = b' @ s'" "numeral b' (s' @ r') f'" "runs isAlphaC s' r'"
    "k' = (if f' \<or> CHR ''f'' \<in> set s' \<or> CHR ''F'' \<in> set s' then TFloat else TInteger)" using assms(2) unfolding number_def by blast
  have n: "b = b'" "f = f'" using numeral_unique [OF a(2) c(2)] assms(3) a(1) c(1) by simp_all
  with assms(3) a(1) c(1) have "s = s'" using runs_unique(1) [OF a(3) c(3)] by simp
  with n a(1,4) c(1,4) show ?thesis by simp
qed

section \<open>Quoted literals\<close>

text \<open>Where the inside of a literal ends: at its quote, at the end of the line or the text, or at a last backslash.\<close>

definition endsInside :: "char \<Rightarrow> string \<Rightarrow> bool" where
  "endsInside q x \<longleftrightarrow> x = [] \<or> hd x = q \<or> isNewline (hd x) \<or> hd x = CHR 0x5C \<and> (tl x = [] \<or> isNewline (hd (tl x)))"

lemma inside_unique:
  assumes "inside q s" "inside q s'" "s @ x = s' @ x'" "endsInside q x" "endsInside q x'" "q \<noteq> CHR 0x5C"
  shows "s = s'"
  using assms(1-3)
proof (induction arbitrary: s' rule: inside.induct)
  case inside_nil
  then show ?case using assms(4,6) by (cases rule: inside.cases) (auto simp: endsInside_def isNewline_def)
next
  case (inside_char c s)
  from inside_char.prems(1) show ?case using inside_char.hyps inside_char.prems(2) assms(5) inside_char.IH
    by (cases rule: inside.cases) (auto simp: endsInside_def)
next
  case (inside_escape c s)
  from inside_escape.prems(1) show ?case using inside_escape.hyps inside_escape.prems(2) assms(5,6) inside_escape.IH
    by (cases rule: inside.cases) (auto simp: endsInside_def isNewline_def)
qed

definition quotedText :: "char \<Rightarrow> string \<Rightarrow> string \<Rightarrow> bool \<Rightarrow> bool" where
  "quotedText q t r closed \<longleftrightarrow> (if closed then \<exists>s. t = s @ [q] \<and> inside q s else openLiteral q t r)"

lemma quoted_inside:
  assumes "quotedText q t r closed" "isQuote q"
  obtains s x where "t @ r = s @ x" "inside q s" "endsInside q x" "closed \<longleftrightarrow> x \<noteq> [] \<and> hd x = q"
    "t = s @ (if closed then [q] else if x \<noteq> [] \<and> hd x = CHR 0x5C then [CHR 0x5C] else [])"
proof (cases closed)
  case True
  then obtain s where "t = s @ [q]" "inside q s" using assms unfolding quotedText_def by auto
  then show thesis using that [of s "q # r"] True by (simp add: endsInside_def)
next
  case False
  have q: "q \<noteq> CHR 0x5C" "\<not> isNewline q" "\<not> isNewline (CHR 0x5C)" using assms(2) by (auto simp: isQuote_def isNewline_def)
  obtain s b where b: "t = s @ b" "inside q s" "b = [] \<or> b = [CHR 0x5C]" "stops (\<lambda>c. \<not> isNewline c) r"
    using False assms unfolding quotedText_def openLiteral_def by auto
  show thesis using b(3)
  proof
    assume "b = []"
    moreover have "r = [] \<or> isNewline (hd r)" using b(4) by (simp add: stops_def)
    then have "endsInside q r" "\<not> (r \<noteq> [] \<and> hd r = q)" "\<not> (r \<noteq> [] \<and> hd r = CHR 0x5C)" using q by (auto simp: endsInside_def)
    ultimately show thesis using that [of s r] b(1,2) False by simp
  next
    assume "b = [CHR 0x5C]"
    then show thesis using that [of s "CHR 0x5C # r"] b(1,2,4) False q by (cases r) (auto simp: endsInside_def)
  qed
qed

lemma quoted_unique:
  assumes "quotedText q t r c" "quotedText q t' r' c'" "t @ r = t' @ r'" "isQuote q"
  shows "t = t' \<and> (c \<longleftrightarrow> c')"
proof -
  have q: "q \<noteq> CHR 0x5C" using assms(4) by (auto simp: isQuote_def)
  obtain s x where a: "t @ r = s @ x" "inside q s" "endsInside q x" "c \<longleftrightarrow> x \<noteq> [] \<and> hd x = q"
    "t = s @ (if c then [q] else if x \<noteq> [] \<and> hd x = CHR 0x5C then [CHR 0x5C] else [])"
    using quoted_inside [OF assms(1,4)] by blast
  obtain s' x' where d: "t' @ r' = s' @ x'" "inside q s'" "endsInside q x'" "c' \<longleftrightarrow> x' \<noteq> [] \<and> hd x' = q"
    "t' = s' @ (if c' then [q] else if x' \<noteq> [] \<and> hd x' = CHR 0x5C then [CHR 0x5C] else [])"
    using quoted_inside [OF assms(2,4)] by blast
  have e: "s @ x = s' @ x'" using assms(3) a(1) d(1) by simp
  have s: "s = s'" by (rule inside_unique [OF a(2) d(2) e a(3) d(3) q])
  with e have x: "x = x'" by simp
  show ?thesis unfolding a(4,5) d(4,5) s x by blast
qed

section \<open>Tokens\<close>

text \<open>The first character of a token fixes the group of its kind.\<close>

lemma punctuation_class:
  "punctuationKind c \<noteq> TInvalid \<Longrightarrow> startsOther c"
  "punctuationKind c \<notin> {TEnd, TNewline, TIdentifier, TInteger, TFloat, TString, TCharacter}"
proof -
  show "startsOther c" if p: "punctuationKind c \<noteq> TInvalid"
  proof -
    have "c \<in> set ''()[],;:?.+-*/%<>!~&|^='' \<union> {CHR 0x7B, CHR 0x7D}"
      using p unfolding punctuationKind_def by (simp split: if_splits)
    moreover have "list_all startsOther ([CHR 0x7B, CHR 0x7D] @ ''()[],;:?.+-*/%<>!~&|^='')"
      by (simp add: startsOther_def isNewline_def isIdentifierStart_def isAlphaC_def isDigitC_def isQuote_def)
    ultimately show ?thesis unfolding list_all_iff by auto
  qed
  show "punctuationKind c \<notin> {TEnd, TNewline, TIdentifier, TInteger, TFloat, TString, TCharacter}"
    unfolding punctuationKind_def by (simp split: if_splits)
qed

definition punctuated :: "TokenKind \<Rightarrow> string \<Rightarrow> string \<Rightarrow> bool" where
  "punctuated k t r \<longleftrightarrow>
     (if \<exists>u \<in> set multiChar. take (length u) (t @ r) = u
      then k = TOperator \<and> t \<in> set multiChar \<and> (\<forall>u \<in> set multiChar. take (length u) (t @ r) = u \<longrightarrow> length u \<le> length t)
      else \<exists>c. t = [c] \<and> punctuationKind c = k)"

lemma number_kind: "number k t r \<Longrightarrow> k = TInteger \<or> k = TFloat"
  unfolding number_def by (metis (full_types))

lemma operator_unprefixed:
  assumes "punctuationKind c \<noteq> TOperator" "u \<in> set multiChar"
  shows "take (length u) (c # r) \<noteq> u"
  using multiChar_hd [OF assms(2)] assms(1) by (cases u) auto

lemma single_punctuated:
  assumes "punctuationKind c = k" "k \<noteq> TOperator"
  shows "punctuated k [c] r"
  using operator_unprefixed [of c] assms unfolding punctuated_def by auto

definition classified :: "TokenKind \<Rightarrow> string \<Rightarrow> string \<Rightarrow> bool" where
  "classified k t r \<longleftrightarrow>
    isNewline (hd t) \<and> k = TNewline \<and> denotes TNewline t r \<or>
    isIdentifierStart (hd t) \<and> k = TIdentifier \<and> runs isIdentifierContinue t r \<or>
    isDigitC (hd t) \<and> number k t r \<or>
    isQuote (hd t) \<and> (\<exists>closed. quotedText (hd t) (tl t) r closed \<and>
      k = (if \<not> closed then TInvalid else if hd t = CHR 0x22 then TString else TCharacter)) \<or>
    startsOther (hd t) \<and> punctuated k t r"

lemma denotes_operator:
  assumes "denotes TOperator t r"
  shows "startsOther (hd t) \<and> punctuated TOperator t r"
proof (cases "\<exists>u \<in> set multiChar. take (length u) (t @ r) = u")
  case True
  with assms have "t \<in> set multiChar \<and> (\<forall>u \<in> set multiChar. take (length u) (t @ r) = u \<longrightarrow> length u \<le> length t)"
    unfolding denotes.simps by blast
  moreover from this have "startsOther (hd t)" using multiChar_hd [of t] punctuation_class(1) [of "hd t"] by simp
  ultimately show ?thesis unfolding punctuated_def if_P [OF True] by blast
next
  case False
  have "t \<notin> set multiChar" using False by (auto simp: Bex_def)
  with assms obtain c where "t = [c]" "punctuationKind c = TOperator" unfolding denotes.simps by blast
  then show ?thesis using False punctuation_class(1) [of c] unfolding punctuated_def by auto
qed

lemma denotes_single:
  assumes "t = [c]" "punctuationKind c = k" "k \<noteq> TOperator" "k \<noteq> TInvalid"
  shows "classified k t r"
  using assms single_punctuated [OF assms(2,3)] punctuation_class(1) [of c] unfolding classified_def by simp

lemma denotes_classified:
  assumes "denotes k t r"
  shows "classified k t r"
proof (cases k)
  case TOperator
  then show ?thesis using denotes_operator assms unfolding classified_def by blast
next
  case TNewline
  then show ?thesis using assms unfolding classified_def by (auto simp: isNewline_def)
next
  case TString
  then obtain s where "t = [CHR 0x22] @ s @ [CHR 0x22]" "inside (CHR 0x22) s" using assms by auto
  then show ?thesis using TString unfolding classified_def quotedText_def by (auto simp: isQuote_def intro!: exI [of _ True])
next
  case TCharacter
  then obtain s where "t = [CHR 0x27] @ s @ [CHR 0x27]" "inside (CHR 0x27) s" using assms by auto
  then show ?thesis using TCharacter unfolding classified_def quotedText_def by (auto simp: isQuote_def intro!: exI [of _ True])
next
  case TInvalid
  then consider q s where "t = q # s" "isQuote q" "openLiteral q s r" | c where "t = [c]" "startsOther c" "punctuationKind c = TInvalid"
    using assms by auto
  then show ?thesis
  proof cases
    case 1
    then show ?thesis using TInvalid unfolding classified_def quotedText_def by (auto intro!: exI [of _ False])
  next
    case 2
    then show ?thesis using TInvalid single_punctuated [of c TInvalid r] unfolding classified_def by simp
  qed
next
  case TIdentifier
  then show ?thesis using assms unfolding classified_def by simp
next
  case TInteger
  then show ?thesis using assms unfolding classified_def by (simp add: number_def)
next
  case TFloat
  then show ?thesis using assms unfolding classified_def by (simp add: number_def)
next
  case TEnd
  then show ?thesis using assms by simp
qed (use assms denotes_single [of t _ k r] in \<open>simp; blast\<close>)+

lemma class_disjoint:
  "isNewline c \<Longrightarrow> \<not> isIdentifierStart c \<and> \<not> isDigitC c \<and> \<not> isQuote c"
  "isIdentifierStart c \<Longrightarrow> \<not> isDigitC c \<and> \<not> isQuote c"
  "isDigitC c \<Longrightarrow> \<not> isQuote c"
proof -
  show "isNewline c \<Longrightarrow> \<not> isIdentifierStart c \<and> \<not> isDigitC c \<and> \<not> isQuote c"
    unfolding isNewline_def by (elim disjE) (simp_all add: isIdentifierStart_def isAlphaC_def isDigitC_def isQuote_def)
  have "isQuote c \<Longrightarrow> \<not> isIdentifierStart c \<and> \<not> isDigitC c"
    unfolding isQuote_def by (elim disjE) (simp_all add: isIdentifierStart_def isAlphaC_def isDigitC_def)
  moreover have "isDigitC c \<Longrightarrow> \<not> isIdentifierStart c"
    unfolding isDigitC_def isIdentifierStart_def isAlphaC_def by (cases "c = CHR ''_''") simp_all
  ultimately show "isIdentifierStart c \<Longrightarrow> \<not> isDigitC c \<and> \<not> isQuote c" "isDigitC c \<Longrightarrow> \<not> isQuote c" by blast+
qed

lemma punctuated_unique:
  assumes "punctuated k t r" "punctuated k' t' r'" "t @ r = t' @ r'"
  shows "k = k' \<and> t = t'"
proof (cases "\<exists>u \<in> set multiChar. take (length u) (t @ r) = u")
  case True
  have a: "k = TOperator" "t \<in> set multiChar" "\<forall>u \<in> set multiChar. take (length u) (t @ r) = u \<longrightarrow> length u \<le> length t"
    using assms(1) unfolding punctuated_def if_P [OF True] by blast+
  have b: "k' = TOperator" "t' \<in> set multiChar" "\<forall>u \<in> set multiChar. take (length u) (t @ r) = u \<longrightarrow> length u \<le> length t'"
    using assms(2) unfolding punctuated_def assms(3) [symmetric] if_P [OF True] by blast+
  have "take (length t) (t @ r) = t" "take (length t') (t @ r) = t'" by (simp, simp add: assms(3))
  with a b have "length t' \<le> length t" "length t \<le> length t'" by blast+
  with assms(3) a(1) b(1) show ?thesis by simp
next
  case False
  with assms show ?thesis unfolding punctuated_def by auto
qed

lemma newline_unique:
  assumes "denotes TNewline t r" "denotes TNewline t' r'" "t @ r = t' @ r'"
  shows "t = t'"
  using assms by (auto simp: stops_def)

lemma denotes_unique:
  assumes "denotes k t r" "denotes k' t' r'" "t @ r = t' @ r'"
  shows "k = k' \<and> t = t'"
proof -
  have n: "t \<noteq> []" "t' \<noteq> []" using assms(1,2) denotes_nonempty by blast+
  have h: "hd t' = hd t" "tl t @ r = tl t' @ r'" using n assms(3) by (cases t; cases t'; simp)+
  let ?c = "hd t"
  have a: "classified k t r" and b: "classified k' t' r'" using assms(1,2) denotes_classified by blast+
  consider "isNewline ?c" | "isIdentifierStart ?c" | "isDigitC ?c" | "isQuote ?c" | "startsOther ?c"
    unfolding startsOther_def by blast
  then show ?thesis
  proof cases
    case 1
    with a b h(1) have "k = TNewline" "denotes TNewline t r" "k' = TNewline" "denotes TNewline t' r'"
      using class_disjoint [of ?c] unfolding classified_def startsOther_def by auto
    with newline_unique assms(3) show ?thesis by blast
  next
    case 2
    with a b h(1) have "k = TIdentifier" "runs isIdentifierContinue t r" "k' = TIdentifier" "runs isIdentifierContinue t' r'"
      using class_disjoint [of ?c] unfolding classified_def startsOther_def by auto
    with runs_unique(1) assms(3) show ?thesis by blast
  next
    case 3
    with a b h(1) have "number k t r" "number k' t' r'"
      using class_disjoint [of ?c] unfolding classified_def startsOther_def by auto
    with number_unique assms(3) show ?thesis by blast
  next
    case 4
    with a obtain c where c: "quotedText ?c (tl t) r c" "k = (if \<not> c then TInvalid else if ?c = CHR 0x22 then TString else TCharacter)"
      using class_disjoint [of ?c] unfolding classified_def startsOther_def by auto
    from 4 b h(1) obtain d where d: "quotedText ?c (tl t') r' d" "k' = (if \<not> d then TInvalid else if ?c = CHR 0x22 then TString else TCharacter)"
      using class_disjoint [of ?c] unfolding classified_def startsOther_def by auto
    from quoted_unique [OF c(1) d(1) h(2) 4] c(2) d(2) h(1) n show ?thesis by (simp add: list.expand)
  next
    case 5
    with a b h(1) have "punctuated k t r" "punctuated k' t' r'" unfolding classified_def startsOther_def by auto
    with punctuated_unique assms(3) show ?thesis by blast
  qed
qed

section \<open>Gaps\<close>

lemma closes_mono: "closes s \<Longrightarrow> closes (s @ t)" and closes_suffix: "closes t \<Longrightarrow> closes (s @ t)"
proof -
  show "closes s \<Longrightarrow> closes (s @ t)" by (induction s rule: closes.induct) auto
  show "closes t \<Longrightarrow> closes (s @ t)" by (induction s) (auto simp: closes_Cons)
qed

lemma closes_mark: "closes (s @ ''*/'' @ t)"
  by (rule closes_suffix) simp

lemma first_mark:
  assumes "s @ ''*/'' @ x = s' @ ''*/'' @ x'" "\<not> closes (s' @ ''*'')" "length s \<le> length s'"
  shows "s = s'"
proof -
  obtain u where u: "s' = s @ u" "u @ ''*/'' @ x' = ''*/'' @ x" 
    using assms(1,3) by (metis (no_types, lifting) append_assoc append_eq_append_conv_if append_eq_conv_conj append_take_drop_id)
  have "u = []"
  proof (rule ccontr)
    assume "u \<noteq> []"
    then obtain v where "u @ ''*'' = ''*/'' @ v" using u(2) by (cases u; cases "tl u") auto
    then have "closes (s' @ ''*'')" using u(1) closes_mark [of s v] by simp
    with assms(2) show False ..
  qed
  with u(1) show ?thesis by simp
qed

lemma mark_unique:
  assumes "s @ ''*/'' @ x = s' @ ''*/'' @ x'" "\<not> closes (s @ ''*'')" "\<not> closes (s' @ ''*'')"
  shows "s = s'"
  using first_mark [OF assms(1,3)] first_mark [OF assms(1) [symmetric] assms(2)] by (cases "length s \<le> length s'") auto

lemma gap_ended:
  assumes "gap g r" "gapEnd (g @ r)"
  shows "g = []"
  using assms
proof cases
  case (gap_block s h)
  with assms(2) have "\<not> closes (s @ ''*/'' @ h @ r)" by (simp add: gapEnd_def)
  with closes_mark show ?thesis by blast
qed (auto simp: gapEnd_def)

lemma gap_unique:
  assumes "gap g r" "gap g' r'" "g @ r = g' @ r'"
  shows "g = g'"
  using assms
proof (induction arbitrary: g' rule: gap.induct)
  case (gap_nil r)
  then show ?case using gap_ended [of g' r'] by simp
next
  case (gap_blank c g r)
  from gap_blank.prems(1) show ?case using gap_blank.hyps(1) gap_blank.prems(2) gap_blank.IH
    by (cases rule: gap.cases) (auto simp: gapEnd_def isBlank_def)
next
  case (gap_line s g r)
  from gap_line.prems(1) show ?case
  proof (cases rule: gap.cases)
    case (gap_line s' h)
    have "runs (\<lambda>c. \<not> isNewline c) s (g @ r)" "runs (\<lambda>c. \<not> isNewline c) s' (h @ r')"
      using gap_line gap_line.hyps(1,2) by (simp_all add: runs_def)
    moreover have "s @ g @ r = s' @ h @ r'" using gap_line(1) gap_line.prems(2) by simp
    ultimately have "s = s'" "g @ r = h @ r'" using runs_unique by blast+
    with gap_line gap_line.IH show ?thesis by simp
  qed (use gap_line.prems(2) in \<open>auto simp: gapEnd_def isBlank_def\<close>)
next
  case (gap_block s g r)
  from gap_block.prems(1) show ?case
  proof (cases rule: gap.cases)
    case gap_nil
    then show ?thesis using gap_block.prems(2) closes_mark [of s "g @ r"] by (auto simp: gapEnd_def)
  next
    case (gap_block s' h)
    have e: "s @ ''*/'' @ g @ r = s' @ ''*/'' @ h @ r'" using gap_block(1) gap_block.prems(2) by simp
    have "s = s'" by (rule mark_unique [OF e gap_block.hyps(1) gap_block(2)])
    with e have "g @ r = h @ r'" by simp
    with \<open>s = s'\<close> gap_block gap_block.IH show ?thesis by simp
  qed (use gap_block.prems(2) in \<open>auto simp: isBlank_def\<close>)
qed

section \<open>Exactness\<close>

lemma tokenised_unique:
  assumes "tokenised f p text toks ds" "tokenised f p text toks' ds'"
  shows "toks = toks' \<and> ds = ds'"
  using assms
proof (induction arbitrary: toks' ds' rule: tokenised.induct)
  case (tokenised_end g f p)
  from tokenised_end.prems show ?case
  proof (cases rule: tokenised.cases)
    case (tokenised_open h s q r)
    have "h = g" by (rule gap_unique [OF tokenised_open(4) tokenised_end.hyps]) (simp add: tokenised_open(1))
    with tokenised_open(1) show ?thesis by simp
  next
    case (tokenised_token h t rest k q tok toks ds)
    have "h = g" by (rule gap_unique [OF tokenised_token(4) tokenised_end.hyps]) (simp add: tokenised_token(1))
    with tokenised_token(1) denotes_nonempty [OF tokenised_token(6)] show ?thesis by simp
  qed simp
next
  case (tokenised_open g s q p r f)
  from tokenised_open.prems show ?case
  proof (cases rule: tokenised.cases)
    case tokenised_end
    have "g = g @ ''/*'' @ s" by (rule gap_unique [OF tokenised_open.hyps(1) tokenised_end(3)]) simp
    then show ?thesis by simp
  next
    case (tokenised_open h s' q' r')
    moreover from this have "h = g" using gap_unique [OF tokenised_open.hyps(1)] by simp
    ultimately show ?thesis using tokenised_open.hyps by simp
  next
    case (tokenised_token h t rest k q' tok toks ds)
    moreover from this have "g = h" using gap_unique [OF tokenised_open.hyps(1)] by simp
    ultimately have "take 2 (''/*'' @ s) \<noteq> ''/*''" by simp
    then show ?thesis by simp
  qed
next
  case (tokenised_token g t rest k q p tok f toks ds)
  note mine = tokenised_token.hyps and ih = tokenised_token.IH
  from tokenised_token.prems show ?case
  proof (cases rule: tokenised.cases)
    case tokenised_end
    have "g = g @ t @ rest" by (rule gap_unique [OF mine(1) tokenised_end(3)]) simp
    then show ?thesis using denotes_nonempty [OF mine(3)] by simp
  next
    case (tokenised_open h s q' r')
    moreover from this have "g = h" using gap_unique [OF mine(1)] by simp
    ultimately have "t @ rest = ''/*'' @ s" by simp
    then show ?thesis using mine(2) by simp
  next
    case (tokenised_token h u rest' k' q' tok' toks' ds')
    moreover from this have "g = h" using gap_unique [OF mine(1)] by simp
    ultimately have "u @ rest' = t @ rest" by simp
    moreover from denotes_unique [OF tokenised_token(6) mine(3) this] have "k' = k" "u = t" by simp_all
    ultimately show ?thesis using tokenised_token \<open>g = h\<close> mine ih [of toks' ds'] by simp
  qed
qed

text \<open>
  C7. The lexer terminates on every text and returns exactly the token structure of the text, which is unique: the source is
  the tokens and the blanks and comments between them, in order and without rest.  Before a token all blanks and comments
  that can be read are skipped; names, digits and suffixes go on as far as they can, an operator is the longest one that
  fits, a literal ends at its first quote that is not escaped, and an invalid token is an open literal up to the end of its line
  or one character that starts nothing.  Each token carries its own text and the exact positions where it begins and
  ends (lines and columns counted with \<open>\r\n\<close> as one line end), one end token closes the list, and the diagnostics are,
  in order, one per invalid token and one for an open comment.
\<close>

theorem lexCCompatSource_exact:
  "tokenised fileName (1, 1) source tokens diagnostics \<longleftrightarrow> lexCCompatSource source fileName = (tokens, diagnostics)"
  using lexCCompatSource_tokenised [of fileName source] tokenised_unique by (metis fst_conv prod.collapse snd_conv)

end
