(* ===== verification/CCompat_Ast.thy ===== *)
theory CCompat_Ast
  imports Diagnostic
begin

text \<open>
  The syntax tree of the C compatibility front end (\<open>include/hitsimple/compat/CCompat.h\<close>,
  \<open>src/compat/CCompatAst.cpp\<close>).  The node classes of one base class are the constructors of one datatype,
  with the fields in the order of the classes and the source range last; an owning pointer that may be null
  is an option.
\<close>

definition noLocation :: SourceLocation where
  "noLocation = \<lparr>loc_file = [], loc_line = 1, loc_column = 1\<rparr>"

definition noRange :: SourceRange where
  "noRange = \<lparr>range_begin = noLocation, range_end = noLocation\<rparr>"

datatype StorageClass = NoStorage | StaticStorage | ExternStorage

datatype BaseType =
  CChar | CSignedChar | CUnsignedChar | CShort | CUnsignedShort | CInt | CUnsignedInt | CLong | CUnsignedLong
| CLongLong | CUnsignedLongLong | CFloat | CDouble | CVoid | CStruct | CTypedefName

record CType =
  ctype_base :: BaseType
  ctype_name :: string
  ctype_isConst :: bool
  ctype_isVolatile :: bool
  ctype_range :: SourceRange

record Declarator =
  decl_name :: string
  decl_pointerDepth :: nat
  decl_arrayCount :: "size_t option"
  decl_range :: SourceRange

datatype Expr =
  IdentifierExpr string SourceRange
| IntegerLiteralExpr string SourceRange
| FloatLiteralExpr string SourceRange
| StringLiteralExpr string SourceRange
| CharLiteralExpr string SourceRange
| UnaryExpr string Expr SourceRange
| BinaryExpr Expr string Expr SourceRange
| ConditionalExpr Expr Expr Expr SourceRange
| AssignmentExpr Expr string Expr SourceRange
| CastExpr CType nat Expr SourceRange
| SizeofExpr "CType option" string SourceRange
| IndexExpr Expr Expr SourceRange
| CallExpr Expr "Expr list" SourceRange
| MemberExpr Expr string bool SourceRange

primrec exprRange :: "Expr \<Rightarrow> SourceRange" where
  "exprRange (IdentifierExpr n r) = r"
| "exprRange (IntegerLiteralExpr v r) = r"
| "exprRange (FloatLiteralExpr v r) = r"
| "exprRange (StringLiteralExpr v r) = r"
| "exprRange (CharLiteralExpr v r) = r"
| "exprRange (UnaryExpr op e r) = r"
| "exprRange (BinaryExpr a op b r) = r"
| "exprRange (ConditionalExpr c a b r) = r"
| "exprRange (AssignmentExpr a op b r) = r"
| "exprRange (CastExpr t n e r) = r"
| "exprRange (SizeofExpr t n r) = r"
| "exprRange (IndexExpr b i r) = r"
| "exprRange (CallExpr f es r) = r"
| "exprRange (MemberExpr b m t r) = r"

record VarDecl =
  var_storage :: StorageClass
  var_type :: CType
  var_declarator :: Declarator
  var_initializer :: "Expr option"
  var_range :: SourceRange

datatype Stmt =
  EmptyStmt SourceRange
| ExprStmt Expr SourceRange
| DeclStmt VarDecl SourceRange
| ReturnStmt "Expr option" SourceRange
| BlockStmt "Stmt list" SourceRange
| IfStmt Expr Stmt "Stmt option" SourceRange
| WhileStmt Expr Stmt SourceRange
| ForStmt "Stmt option" "Expr option" "Expr option" Stmt SourceRange
| BreakStmt SourceRange
| ContinueStmt SourceRange
| GotoStmt string SourceRange
| LabelStmt string Stmt SourceRange

record Parameter =
  param_type :: CType
  param_declarator :: Declarator
  param_isVoidMarker :: bool
  param_range :: SourceRange

record FieldDecl =
  field_type :: CType
  field_declarator :: Declarator
  field_range :: SourceRange

record FunctionDecl =
  fun_storage :: StorageClass
  fun_returnType :: CType
  fun_declarator :: Declarator
  fun_parameters :: "Parameter list"
  fun_body :: "Stmt option"
  fun_range :: SourceRange

definition isDefinition :: "FunctionDecl \<Rightarrow> bool" where
  "isDefinition f \<longleftrightarrow> fun_body f \<noteq> None"

datatype Decl =
  VarDeclaration VarDecl
| FunctionDeclaration FunctionDecl
| StructDecl string "FieldDecl list" SourceRange
| TypedefDecl CType Declarator SourceRange

record ParseResult =
  result_unit :: "Decl list option"
  result_diagnostics :: "Diagnostic list"

definition parseOk :: "ParseResult \<Rightarrow> bool" where
  "parseOk r \<longleftrightarrow> result_unit r \<noteq> None \<and> result_diagnostics r = []"

end
