(* ===== verification/Fallible.thy ===== *)
theory Fallible
  imports Main
begin

text \<open>
  Functions of the front ends that thread a state and may give up.  An action maps a state to the next state
  and its result; the result is \<open>None\<close> where the code returns a null pointer or \<open>nullopt\<close>, and the whole is
  \<open>None\<close> where the function does not return.
\<close>

type_synonym ('s, 'a) action = "'s \<Rightarrow> ('s \<times> 'a option) option"

section \<open>Control flow\<close>

definition ret :: "'a \<Rightarrow> ('s, 'a) action" where
  "ret x p = Some (p, Some x)"

definition nullptr :: "('s, 'a) action" where
  "nullptr p = Some (p, None)"

text \<open>The result of the first action is needed: a null result is returned at once.\<close>

definition andThen :: "('s, 'a) action \<Rightarrow> ('a \<Rightarrow> ('s, 'b) action) \<Rightarrow> ('s, 'b) action" where
  "andThen m f p =
     (case m p of
        None \<Rightarrow> None
      | Some (p, r) \<Rightarrow> (case r of None \<Rightarrow> Some (p, None) | Some x \<Rightarrow> f x p))"

text \<open>The result of the first action is looked at later.\<close>

definition attempt :: "('s, 'a) action \<Rightarrow> ('a option \<Rightarrow> ('s, 'b) action) \<Rightarrow> ('s, 'b) action" where
  "attempt m f p = (case m p of None \<Rightarrow> None | Some (p, r) \<Rightarrow> f r p)"

definition inspect :: "('s \<Rightarrow> ('s, 'a) action) \<Rightarrow> ('s, 'a) action" where
  "inspect f p = f p p"

definition step :: "('s \<Rightarrow> 's) \<Rightarrow> ('s, 'a) action \<Rightarrow> ('s, 'a) action" where
  "step f m p = m (f p)"

definition loop :: "('s \<Rightarrow> 's option) \<Rightarrow> ('s, 'a) action \<Rightarrow> ('s, 'a) action" where
  "loop f m p = (case f p of None \<Rightarrow> None | Some p \<Rightarrow> m p)"

definition optionally :: "bool \<Rightarrow> ('s, 'a) action \<Rightarrow> ('s, 'a option) action" where
  "optionally c m = (if c then andThen m (\<lambda>x. ret (Some x)) else ret None)"

section \<open>Weakest preconditions\<close>

text \<open>\<open>wp m Q p\<close>: the action \<open>m\<close> returns from \<open>p\<close>, and its final state and result satisfy \<open>Q\<close>.\<close>

definition wp :: "('s, 'a) action \<Rightarrow> ('s \<Rightarrow> 'a option \<Rightarrow> bool) \<Rightarrow> 's \<Rightarrow> bool" where
  "wp m Q p \<longleftrightarrow> (\<exists>q r. m p = Some (q, r) \<and> Q q r)"

lemma wp_mono: "wp m Q p \<Longrightarrow> (\<And>q r. Q q r \<Longrightarrow> R q r) \<Longrightarrow> wp m R p"
  by (auto simp: wp_def)

lemma wp_actions [simp]:
  "wp (ret x) Q p \<longleftrightarrow> Q p (Some x)"
  "wp nullptr Q p \<longleftrightarrow> Q p None"
  "wp (inspect f) Q p \<longleftrightarrow> wp (f p) Q p"
  "wp (step g m) Q p \<longleftrightarrow> wp m Q (g p)"
  "wp (loop w m) Q p \<longleftrightarrow> (\<exists>q. w p = Some q \<and> wp m Q q)"
  by (auto simp: wp_def ret_def nullptr_def inspect_def step_def loop_def split: option.splits)

lemma wp_andThen [simp]:
  "wp (andThen m f) Q p \<longleftrightarrow> wp m (\<lambda>q r. case r of None \<Rightarrow> Q q None | Some x \<Rightarrow> wp (f x) Q q) p"
  by (auto simp: wp_def andThen_def split: option.splits)

lemma wp_attempt [simp]: "wp (attempt m f) Q p \<longleftrightarrow> wp m (\<lambda>q r. wp (f r) Q q) p"
  by (auto simp: wp_def attempt_def split: option.splits)

lemma wp_if: "(c \<Longrightarrow> wp m Q p) \<Longrightarrow> (\<not> c \<Longrightarrow> wp n Q p) \<Longrightarrow> wp (if c then m else n) Q p"
  by simp

lemma wp_inspect: "wp (f p) Q p \<Longrightarrow> wp (inspect f) Q p"
  by simp

lemma andThen_ret: "andThen (andThen m (\<lambda>x. ret (g x))) f = andThen m (\<lambda>x. f (g x))"
  by (auto simp: andThen_def ret_def fun_eq_iff split: option.splits)

lemma andThen_ret_right: "andThen m ret = m"
  by (auto simp: andThen_def ret_def fun_eq_iff split: option.splits)

end
