(* ===== verification/CCompat_Parser.thy ===== *)
theory CCompat_Parser
  imports CCompat_Ast CCompat_Lexer Fallible "HOL-Library.While_Combinator"
begin

text \<open>
  The recursive-descent parser of the C compatibility front end (\<open>src/compat/CCompatParser.cpp\<close>,
  \<open>CCompatExpressions.cpp\<close>, \<open>CCompatStatements.cpp\<close>).  The parser state holds the tokens, the cursor,
  the typedef names seen so far and the diagnostics.  A parsing function maps a state to the next state and
  its result, which is \<open>None\<close> where the code returns a null pointer or \<open>nullopt\<close>; the outer option is
  \<open>None\<close> where the function does not return.  Loops that only move the cursor are \<open>while_option\<close>; the
  recursion of the grammar is open, over the records of parsers \<open>ExprParsers\<close> and \<open>StmtParsers\<close>, and tied
  on a bound of the recursion depth.
\<close>

section \<open>State and cursor\<close>

record Parser =
  tokens :: "Token list"
  cursor :: nat
  typedefNames :: "string list"
  parseDiagnostics :: "Diagnostic list"

type_synonym 'a parsing = "(Parser, 'a) action"

definition lookAhead :: "nat \<Rightarrow> Parser \<Rightarrow> Token" where
  "lookAhead n p =
     (let index = cursor p + n in
      tokens p ! (if index < length (tokens p) then index else length (tokens p) - 1))"

definition currentToken :: "Parser \<Rightarrow> Token" where
  "currentToken p = lookAhead 0 p"

abbreviation currentKind :: "Parser \<Rightarrow> TokenKind" where
  "currentKind p \<equiv> tok_kind (currentToken p)"

abbreviation currentLexeme :: "Parser \<Rightarrow> string" where
  "currentLexeme p \<equiv> tok_lexeme (currentToken p)"

abbreviation here :: "Parser \<Rightarrow> SourceLocation" where
  "here p \<equiv> range_begin (tok_range (currentToken p))"

definition atKind :: "TokenKind \<Rightarrow> Parser \<Rightarrow> bool" where
  "atKind kind p \<longleftrightarrow> currentKind p = kind"

definition atLexeme :: "string \<Rightarrow> Parser \<Rightarrow> bool" where
  "atLexeme lexeme p \<longleftrightarrow> currentLexeme p = lexeme"

definition bump :: "Parser \<Rightarrow> Parser" where
  "bump p = p\<lparr>cursor := cursor p + 1\<rparr>"

definition errorAt :: "Token \<Rightarrow> string \<Rightarrow> Parser \<Rightarrow> Parser" where
  "errorAt token msg p = p\<lparr>parseDiagnostics := parseDiagnostics p @
     [(diagnostic_error Stage.Parser msg)\<lparr>diag_range := Some (tok_range token)\<rparr>]\<rparr>"

definition errorHere :: "string \<Rightarrow> Parser \<Rightarrow> Parser" where
  "errorHere msg p = errorAt (currentToken p) msg p"

definition quoted :: "string \<Rightarrow> string" where
  "quoted s = CHR 0x27 # s @ [CHR 0x27]"

section \<open>Control flow of the parsing functions\<close>

definition reject :: "string \<Rightarrow> 'a parsing" where
  "reject msg p = Some (errorHere msg p, None)"

definition whenKind :: "TokenKind \<Rightarrow> 'a parsing \<Rightarrow> 'a parsing \<Rightarrow> 'a parsing" where
  "whenKind kind m n p = (if atKind kind p then m (bump p) else n p)"

definition whenLexeme :: "string \<Rightarrow> 'a parsing \<Rightarrow> 'a parsing \<Rightarrow> 'a parsing" where
  "whenLexeme lexeme m n p = (if atLexeme lexeme p then m (bump p) else n p)"

definition skipLexeme :: "string \<Rightarrow> Parser \<Rightarrow> Parser" where
  "skipLexeme lexeme p = (if atLexeme lexeme p then bump p else p)"

definition expectKind :: "TokenKind \<Rightarrow> string \<Rightarrow> unit parsing" where
  "expectKind kind description = whenKind kind (ret ()) (reject (''expected '' @ description))"

definition skipNewlines :: "Parser \<Rightarrow> Parser option" where
  "skipNewlines = while_option (atKind TNewline) bump"

definition consumeTerminator :: "bool \<Rightarrow> unit parsing" where
  "consumeTerminator required =
     whenKind TSemicolon (loop skipNewlines (ret ()))
       (inspect (\<lambda>p.
          if atKind TNewline p then loop skipNewlines (ret ())
          else if \<not> required \<or> atKind TRBrace p \<or> atKind TEnd p then ret ()
          else reject (''expected '' @ quoted '';'' @ '' or newline after declaration or statement'')))"

definition atRecovery :: "Parser \<Rightarrow> bool" where
  "atRecovery p \<longleftrightarrow> atKind TEnd p \<or> atKind TSemicolon p \<or> atKind TNewline p \<or> atKind TRBrace p"

definition recoverDeclaration :: "unit parsing" where
  "recoverDeclaration = loop (while_option (\<lambda>p. \<not> atRecovery p) bump) (consumeTerminator False)"

section \<open>Types and declarators\<close>

definition isQualifier :: "string \<Rightarrow> bool" where
  "isQualifier text \<longleftrightarrow> text = ''const'' \<or> text = ''volatile''"

definition isBuiltinType :: "string \<Rightarrow> bool" where
  "isBuiltinType text \<longleftrightarrow> text \<in> {''char'', ''signed'', ''unsigned'', ''short'', ''int'', ''long'', ''float'', ''double'', ''void''}"

definition arrayDigit :: "char \<Rightarrow> nat option" where
  "arrayDigit ch =
     (let c = (of_char ch :: nat) in
      if 48 \<le> c \<and> c \<le> 57 then Some (c - 48)
      else if 97 \<le> c \<and> c \<le> 102 then Some (c - 97 + 10)
      else if 65 \<le> c \<and> c \<le> 70 then Some (c - 65 + 10)
      else None)"

definition arrayBase :: "string \<Rightarrow> size_t \<times> nat" where
  "arrayBase text =
     (if 2 \<le> length text \<and> text ! 0 = CHR ''0'' then
        (if text ! 1 = CHR ''x'' \<or> text ! 1 = CHR ''X'' then (16, 2)
         else if text ! 1 = CHR ''o'' \<or> text ! 1 = CHR ''O'' then (8, 2)
         else if text ! 1 = CHR ''b'' \<or> text ! 1 = CHR ''B'' then (2, 2)
         else (10, 0))
      else (10, 0))"

fun arrayCountLoop :: "size_t \<Rightarrow> size_t \<Rightarrow> bool \<Rightarrow> bool \<Rightarrow> string \<Rightarrow> size_t option" where
  "arrayCountLoop base n sawDigit previousUnderscore [] =
     (if \<not> sawDigit \<or> previousUnderscore then None else Some n)"
| "arrayCountLoop base n sawDigit previousUnderscore (ch # text) =
     (if ch = CHR ''_'' then
        (if \<not> sawDigit \<or> previousUnderscore then None else arrayCountLoop base n sawDigit True text)
      else case arrayDigit ch of
        None \<Rightarrow> None
      | Some d \<Rightarrow>
          let digit = of_nat d in
          if base \<le> digit \<or> (- 1 - digit) div base < n then None
          else arrayCountLoop base (n * base + digit) True False text)"

definition parseArrayCount :: "string \<Rightarrow> size_t option" where
  "parseArrayCount text =
     (if text = [] then None else case arrayBase text of (base, offset) \<Rightarrow> arrayCountLoop base 0 False False (drop offset text))"

definition isStorageClass :: "Parser \<Rightarrow> bool" where
  "isStorageClass p \<longleftrightarrow> atLexeme ''static'' p \<or> atLexeme ''extern'' p"

definition isTypeStartAt :: "nat \<Rightarrow> Parser \<Rightarrow> bool" where
  "isTypeStartAt offset p \<longleftrightarrow>
     (let token = lookAhead offset p in
      tok_kind token = TIdentifier \<and>
      (isQualifier (tok_lexeme token) \<or> isBuiltinType (tok_lexeme token) \<or> tok_lexeme token = ''struct'' \<or>
       tok_lexeme token \<in> set (typedefNames p) \<or> tok_kind (lookAhead (offset + 1) p) = TIdentifier))"

definition isTypeStart :: "Parser \<Rightarrow> bool" where
  "isTypeStart p \<longleftrightarrow> isTypeStartAt 0 p"

definition looksLikeDeclaration :: "Parser \<Rightarrow> bool" where
  "looksLikeDeclaration p \<longleftrightarrow> isStorageClass p \<or> atLexeme ''typedef'' p \<or> isTypeStart p"

definition looksLikeStructDefinition :: "Parser \<Rightarrow> bool" where
  "looksLikeStructDefinition p \<longleftrightarrow>
     atLexeme ''struct'' p \<and> tok_kind (lookAhead 1 p) = TIdentifier \<and> tok_kind (lookAhead 2 p) = TLBrace"

definition ctype :: "BaseType \<Rightarrow> CType" where
  "ctype b = \<lparr>ctype_base = b, ctype_name = [], ctype_isConst = False, ctype_isVolatile = False, ctype_range = noRange\<rparr>"

definition atQualifier :: "Parser \<Rightarrow> bool" where
  "atQualifier p \<longleftrightarrow> atKind TIdentifier p \<and> isQualifier (currentLexeme p)"

definition readQualifier :: "Parser \<times> CType \<Rightarrow> Parser \<times> CType" where
  "readQualifier s =
     (bump (fst s),
      if currentLexeme (fst s) = ''const'' then (snd s)\<lparr>ctype_isConst := True\<rparr> else (snd s)\<lparr>ctype_isVolatile := True\<rparr>)"

definition optionalLexeme :: "string \<Rightarrow> 'a parsing \<Rightarrow> 'a parsing" where
  "optionalLexeme lexeme m = whenLexeme lexeme m m"

definition expectSecond :: "string \<Rightarrow> string \<Rightarrow> 'a parsing \<Rightarrow> 'a parsing" where
  "expectSecond base expected m =
     whenLexeme expected m (reject (''expected '' @ quoted expected @ '' after '' @ quoted base))"

text \<open>The words after the first one of a type; the first has been consumed.\<close>

definition parseBase :: "string \<Rightarrow> (BaseType \<times> string) parsing" where
  "parseBase base =
     (if base = ''char'' then ret (CChar, [])
      else if base = ''signed'' then expectSecond base ''char'' (ret (CSignedChar, []))
      else if base = ''unsigned'' then
        whenLexeme ''char'' (ret (CUnsignedChar, []))
          (whenLexeme ''short'' (optionalLexeme ''int'' (ret (CUnsignedShort, [])))
            (whenLexeme ''int'' (ret (CUnsignedInt, []))
              (whenLexeme ''long''
                (whenLexeme ''long'' (optionalLexeme ''int'' (ret (CUnsignedLongLong, [])))
                  (optionalLexeme ''int'' (ret (CUnsignedLong, []))))
                (reject (''expected C integer type after '' @ quoted ''unsigned'')))))
      else if base = ''short'' then optionalLexeme ''int'' (ret (CShort, []))
      else if base = ''int'' then ret (CInt, [])
      else if base = ''long'' then
        whenLexeme ''long'' (optionalLexeme ''int'' (ret (CLongLong, []))) (optionalLexeme ''int'' (ret (CLong, [])))
      else if base = ''float'' then ret (CFloat, [])
      else if base = ''double'' then ret (CDouble, [])
      else if base = ''void'' then ret (CVoid, [])
      else if base = ''struct'' then
        inspect (\<lambda>p. whenKind TIdentifier (ret (CStruct, currentLexeme p))
          (reject (''expected struct name after '' @ quoted ''struct'')))
      else ret (CTypedefName, base))"

definition parseType :: "CType parsing" where
  "parseType = inspect (\<lambda>start p0.
     case while_option (\<lambda>s. atQualifier (fst s)) readQualifier (p0, ctype CInt) of
       None \<Rightarrow> None
     | Some (p, type) \<Rightarrow>
         whenKind TIdentifier
           (andThen (parseBase (currentLexeme p)) (\<lambda>(base, name). inspect (\<lambda>q.
              ret (type\<lparr>ctype_base := base, ctype_name := name,
                        ctype_range := \<lparr>range_begin = here start, range_end = here q\<rparr>\<rparr>))))
           (reject ''expected C type'') p)"

definition readPointers :: "(nat \<Rightarrow> 'a parsing) \<Rightarrow> 'a parsing" where
  "readPointers f p =
     (case while_option (\<lambda>s. atLexeme ''*'' (fst s)) (\<lambda>s. (bump (fst s), snd s + 1)) (p, 0) of
        None \<Rightarrow> None
      | Some (p, depth) \<Rightarrow> f depth p)"

definition parseArraySuffix :: "bool \<Rightarrow> size_t option parsing" where
  "parseArraySuffix allowArray =
     whenKind TLBracket
       (inspect (\<lambda>p.
          if \<not> allowArray then reject ''array declarator is not valid here''
          else if currentKind p \<noteq> TInteger then reject ''array declarator requires an integer element count''
          else case parseArrayCount (currentLexeme p) of
            None \<Rightarrow> reject ''array declarator requires a decimal integer element count''
          | Some count \<Rightarrow>
              step bump (andThen (expectKind TRBracket (quoted '']'' @ '' after array element count'')) (\<lambda>_.
                inspect (\<lambda>p. if atKind TLBracket p then reject ''multidimensional C arrays are not supported''
                             else ret (Some count))))))
       (ret None)"

definition parseDeclarator :: "bool \<Rightarrow> Declarator parsing" where
  "parseDeclarator allowArray = inspect (\<lambda>start. readPointers (\<lambda>depth. inspect (\<lambda>p.
     if atKind TLParen p then reject ''parenthesized C declarators are not supported''
     else if currentKind p \<noteq> TIdentifier then reject ''expected identifier in C declarator''
     else step bump (andThen (parseArraySuffix allowArray) (\<lambda>count. inspect (\<lambda>q.
       ret \<lparr>decl_name = currentLexeme p, decl_pointerDepth = depth, decl_arrayCount = count,
            decl_range = \<lparr>range_begin = here start, range_end = here q\<rparr>\<rparr>))))))"

definition noDeclarator :: Declarator where
  "noDeclarator = \<lparr>decl_name = [], decl_pointerDepth = 0, decl_arrayCount = None, decl_range = noRange\<rparr>"

definition parseParameter :: "Parameter parsing" where
  "parseParameter = inspect (\<lambda>start.
     if atLexeme ''void'' start \<and> tok_kind (lookAhead 1 start) = TRParen then
       step bump (inspect (\<lambda>p. ret
         \<lparr>param_type = ctype CVoid, param_declarator = noDeclarator, param_isVoidMarker = True,
          param_range = \<lparr>range_begin = here start, range_end = here p\<rparr>\<rparr>))
     else andThen parseType (\<lambda>type. andThen (parseDeclarator True) (\<lambda>declarator. inspect (\<lambda>p. ret
       \<lparr>param_type = type, param_declarator = declarator, param_isVoidMarker = False,
        param_range = \<lparr>range_begin = here start, range_end = here p\<rparr>\<rparr>))))"

primrec parameterLoop :: "nat \<Rightarrow> Parameter list \<Rightarrow> Parameter list parsing" where
  "parameterLoop 0 parameters p = None"
| "parameterLoop (Suc n) parameters p =
     (if atKind TEnd p then reject ''unterminated parameter list'' p
      else andThen parseParameter (\<lambda>parameter.
        if param_isVoidMarker parameter \<and> parameters \<noteq> []
        then reject ''void parameter-list marker must be the only parameter''
        else loop skipNewlines (whenKind TRParen (ret (parameters @ [parameter]))
          (andThen (expectKind TComma (quoted '','' @ '' between parameters'')) (\<lambda>_.
            loop skipNewlines (parameterLoop n (parameters @ [parameter])))))) p)"

text \<open>A missing opening parenthesis is reported and the list is read all the same, for a null result.\<close>

definition openParen :: "string \<Rightarrow> 'a parsing \<Rightarrow> 'a parsing" where
  "openParen description m =
     whenKind TLParen m (\<lambda>p.
       case m (errorHere (''expected '' @ description) p) of None \<Rightarrow> None | Some (p, r) \<Rightarrow> Some (p, None))"

definition parseParameterList :: "nat \<Rightarrow> Parameter list parsing" where
  "parseParameterList n = openParen (quoted ''('' @ '' before parameter list'')
     (loop skipNewlines (whenKind TRParen (ret []) (parameterLoop n [])))"

section \<open>Expressions\<close>

record ExprParsers =
  expressionP :: "Expr parsing"
  conditionalP :: "Expr parsing"
  binaryP :: "int \<Rightarrow> Expr parsing"
  binaryRestP :: "int \<Rightarrow> Expr \<Rightarrow> Expr parsing"
  castP :: "Expr parsing"
  unaryP :: "Expr parsing"
  argumentsP :: "Expr list \<Rightarrow> Expr list parsing"
  postfixRestP :: "Expr \<Rightarrow> Expr parsing"

definition isUnaryOperator :: "string \<Rightarrow> bool" where
  "isUnaryOperator op \<longleftrightarrow> op \<in> {''*'', ''&'', ''!'', ''~'', ''-'', ''+''}"

text \<open>Positions relative to the cursor in \<open>looksLikeCast\<close>.\<close>

definition lexemeAt :: "Parser \<Rightarrow> nat \<Rightarrow> string" where
  "lexemeAt p index = tok_lexeme (lookAhead index p)"

definition kindAt :: "Parser \<Rightarrow> nat \<Rightarrow> TokenKind" where
  "kindAt p index = tok_kind (lookAhead index p)"

definition pastOptional :: "Parser \<Rightarrow> bool \<Rightarrow> string \<Rightarrow> nat \<Rightarrow> nat" where
  "pastOptional p c lexeme index = (if c \<and> lexemeAt p index = lexeme then index + 1 else index)"

definition castTypeEnd :: "Parser \<Rightarrow> nat \<Rightarrow> nat option" where
  "castTypeEnd p index =
     (let first = lexemeAt p index in
      if kindAt p index \<noteq> TIdentifier then None
      else if first = ''struct'' then (if kindAt p (index + 1) \<noteq> TIdentifier then None else Some (index + 2))
      else if first = ''signed'' then (if lexemeAt p (index + 1) \<noteq> ''char'' then None else Some (index + 2))
      else if first = ''unsigned'' then
        (let second = lexemeAt p (index + 1) in
         if second \<notin> {''char'', ''short'', ''int'', ''long''} then None
         else Some (pastOptional p (second = ''long'' \<or> second = ''short'') ''int''
                (pastOptional p (second = ''long'') ''long'' (index + 2))))
      else if first \<in> {''char'', ''short'', ''int'', ''long'', ''float'', ''double'', ''void''} \<or> first \<in> set (typedefNames p) then
        Some (pastOptional p (first = ''long'' \<or> first = ''short'') ''int''
          (pastOptional p (first = ''long'') ''long'' (index + 1)))
      else None)"

definition looksLikeCast :: "Parser \<Rightarrow> bool option" where
  "looksLikeCast p =
     (if \<not> atKind TLParen p then Some False
      else case while_option (\<lambda>i. kindAt p i = TIdentifier \<and> isQualifier (lexemeAt p i)) Suc 1 of
        None \<Rightarrow> None
      | Some index \<Rightarrow>
          (case castTypeEnd p index of
             None \<Rightarrow> Some False
           | Some index \<Rightarrow>
               (case while_option (\<lambda>i. lexemeAt p i = ''*'') Suc index of
                  None \<Rightarrow> None
                | Some index \<Rightarrow> Some (kindAt p index = TRParen))))"

definition binaryPrecedence :: "string \<Rightarrow> int" where
  "binaryPrecedence op =
     (if op = ''||'' then 1 else if op = ''&&'' then 2 else if op = ''|'' then 3 else if op = ''^'' then 4
      else if op = ''&'' then 5 else if op = ''=='' \<or> op = ''!='' then 6
      else if op = ''<'' \<or> op = ''<='' \<or> op = ''>'' \<or> op = ''>='' then 7
      else if op = ''<<'' \<or> op = ''>>'' then 8 else if op = ''+'' \<or> op = ''-'' then 9
      else if op = ''*'' \<or> op = ''/'' \<or> op = ''%'' then 10 else - 1)"

definition isAssignmentOperator :: "string \<Rightarrow> bool" where
  "isAssignmentOperator op \<longleftrightarrow>
     op \<in> {''='', ''+='', ''-='', ''*='', ''/='', ''%='', ''<<='', ''>>='', ''&='', ''^='', ''|=''}"

definition spanning :: "SourceLocation \<Rightarrow> Expr \<Rightarrow> SourceRange" where
  "spanning start e = \<lparr>range_begin = start, range_end = range_end (exprRange e)\<rparr>"

definition upTo :: "SourceLocation \<Rightarrow> Parser \<Rightarrow> SourceRange" where
  "upTo start p = \<lparr>range_begin = start, range_end = here p\<rparr>"

abbreviation exprStart :: "Expr \<Rightarrow> SourceLocation" where
  "exprStart e \<equiv> range_begin (exprRange e)"

definition parseAssignmentExpression :: "ExprParsers \<Rightarrow> Expr parsing" where
  "parseAssignmentExpression ps = andThen (conditionalP ps) (\<lambda>left. inspect (\<lambda>p.
     if currentKind p = TOperator \<and> isAssignmentOperator (currentLexeme p) then
       step bump (andThen (expressionP ps) (\<lambda>right.
         ret (AssignmentExpr left (currentLexeme p) right (spanning (exprStart left) right))))
     else ret left))"

definition parseConditionalExpression :: "ExprParsers \<Rightarrow> Expr parsing" where
  "parseConditionalExpression ps = andThen (binaryP ps 1) (\<lambda>condition.
     whenKind TQuestion
       (andThen (expressionP ps) (\<lambda>thenExpr.
          andThen (expectKind TColon (quoted '':'' @ '' in conditional expression'')) (\<lambda>_.
            andThen (conditionalP ps) (\<lambda>elseExpr. ret (ConditionalExpr condition thenExpr elseExpr noRange)))))
       (ret condition))"

definition binaryRest :: "ExprParsers \<Rightarrow> int \<Rightarrow> Expr \<Rightarrow> Expr parsing" where
  "binaryRest ps minPrecedence left = inspect (\<lambda>p.
     let op = currentLexeme p; precedence = binaryPrecedence op in
     if currentKind p = TOperator \<and> minPrecedence \<le> precedence then
       step bump (andThen (binaryP ps (precedence + 1)) (\<lambda>right.
         binaryRestP ps minPrecedence (BinaryExpr left op right (spanning (exprStart left) right))))
     else ret left)"

definition parseBinaryExpression :: "ExprParsers \<Rightarrow> int \<Rightarrow> Expr parsing" where
  "parseBinaryExpression ps minPrecedence = andThen (castP ps) (binaryRestP ps minPrecedence)"

definition parseCastExpression :: "ExprParsers \<Rightarrow> Expr parsing" where
  "parseCastExpression ps start =
     (case looksLikeCast start of
        None \<Rightarrow> None
      | Some False \<Rightarrow> unaryP ps start
      | Some True \<Rightarrow>
          andThen parseType (\<lambda>type. readPointers (\<lambda>depth.
            andThen (expectKind TRParen (quoted '')'' @ '' after cast type'')) (\<lambda>_.
              andThen (castP ps) (\<lambda>operand. ret (CastExpr type depth operand (spanning (here start) operand)))))) (bump start))"

definition sizeofType :: "Parser \<Rightarrow> bool" where
  "sizeofType p \<longleftrightarrow>
     isTypeStart p \<and> (currentLexeme p \<noteq> ''struct'' \<or> tok_kind (lookAhead 1 p) = TIdentifier)"

definition parseSizeof :: "SourceLocation \<Rightarrow> Expr parsing" where
  "parseSizeof start = andThen (expectKind TLParen (quoted ''('' @ '' after sizeof'')) (\<lambda>_. inspect (\<lambda>p.
     if sizeofType p then
       andThen parseType (\<lambda>type. andThen (expectKind TRParen (quoted '')'' @ '' after sizeof type'')) (\<lambda>_. inspect (\<lambda>q.
         ret (SizeofExpr (Some type) [] (upTo start q)))))
     else if currentKind p \<noteq> TIdentifier then reject ''sizeof expects a C type or identifier''
     else step bump (andThen (expectKind TRParen (quoted '')'' @ '' after sizeof identifier'')) (\<lambda>_. inspect (\<lambda>q.
         ret (SizeofExpr None (currentLexeme p) (upTo start q)))))))"

definition parsePrimaryExpression :: "ExprParsers \<Rightarrow> Expr parsing" where
  "parsePrimaryExpression ps = inspect (\<lambda>start.
     let token = currentToken start; lexeme = tok_lexeme token; rng = tok_range token in
     whenKind TIdentifier
       (if lexeme = ''sizeof'' then parseSizeof (range_begin rng) else ret (IdentifierExpr lexeme rng))
       (whenKind TInteger (ret (IntegerLiteralExpr lexeme rng))
       (whenKind TFloat (ret (FloatLiteralExpr lexeme rng))
       (whenKind TString (ret (StringLiteralExpr lexeme rng))
       (whenKind TCharacter (ret (CharLiteralExpr lexeme rng))
       (whenKind TLParen
         (loop skipNewlines (andThen (expressionP ps) (\<lambda>e.
            andThen (expectKind TRParen (quoted '')'' @ '' after expression'')) (\<lambda>_. ret e))))
         (reject ''expected C compatibility expression'')))))))"

definition argumentRest :: "ExprParsers \<Rightarrow> Expr list \<Rightarrow> Expr list parsing" where
  "argumentRest ps arguments p =
     (if atKind TEnd p then reject ''unterminated call argument list'' p
      else andThen (expressionP ps) (\<lambda>argument.
        loop skipNewlines (whenKind TRParen (ret (arguments @ [argument]))
          (andThen (expectKind TComma (quoted '','' @ '' between call arguments'')) (\<lambda>_.
            loop skipNewlines (argumentsP ps (arguments @ [argument])))))) p)"

definition parseArgumentList :: "ExprParsers \<Rightarrow> Expr list parsing" where
  "parseArgumentList ps = openParen (quoted ''('' @ '' before argument list'')
     (loop skipNewlines (whenKind TRParen (ret []) (argumentsP ps [])))"

definition memberAccess :: "ExprParsers \<Rightarrow> Expr \<Rightarrow> Expr parsing" where
  "memberAccess ps e = inspect (\<lambda>p.
     if currentKind p \<noteq> TIdentifier then reject (''expected member name after '' @ quoted ''.'' @ '' or '' @ quoted ''->'')
     else let throughPointer = tok_lexeme (tokens p ! (cursor p - 1)) = ''->'' in
       step bump (inspect (\<lambda>q.
         postfixRestP ps (MemberExpr e (currentLexeme p) throughPointer (upTo (exprStart e) q)))))"

definition postfixRest :: "ExprParsers \<Rightarrow> Expr \<Rightarrow> Expr parsing" where
  "postfixRest ps e =
     whenKind TLBracket
       (andThen (expressionP ps) (\<lambda>index. andThen (expectKind TRBracket (quoted '']'' @ '' after subscript'')) (\<lambda>_. inspect (\<lambda>q.
          postfixRestP ps (IndexExpr e index (upTo (exprStart e) q))))))
       (inspect (\<lambda>p.
          if atKind TLParen p then
            andThen (parseArgumentList ps) (\<lambda>arguments. inspect (\<lambda>q.
              postfixRestP ps (CallExpr e arguments (upTo (exprStart e) q))))
          else whenKind TDot (memberAccess ps e) (whenLexeme ''->'' (memberAccess ps e)
            (if atLexeme ''++'' p \<or> atLexeme ''--'' p
             then reject ''C increment and decrement expressions are outside the Standard 16.1 subset''
             else ret e))))"

definition parsePostfixExpression :: "ExprParsers \<Rightarrow> Expr parsing" where
  "parsePostfixExpression ps = andThen (parsePrimaryExpression ps) (postfixRestP ps)"

definition parseUnaryExpression :: "ExprParsers \<Rightarrow> Expr parsing" where
  "parseUnaryExpression ps = inspect (\<lambda>p.
     if currentKind p = TOperator \<and> isUnaryOperator (currentLexeme p) then
       step bump (andThen (unaryP ps) (\<lambda>operand.
         ret (UnaryExpr (currentLexeme p) operand (spanning (here p) operand))))
     else parsePostfixExpression ps)"

primrec exprParsers :: "nat \<Rightarrow> ExprParsers" where
  "exprParsers 0 = \<lparr>expressionP = \<lambda>_. None, conditionalP = \<lambda>_. None, binaryP = \<lambda>_ _. None, binaryRestP = \<lambda>_ _ _. None,
     castP = \<lambda>_. None, unaryP = \<lambda>_. None, argumentsP = \<lambda>_ _. None, postfixRestP = \<lambda>_ _. None\<rparr>"
| "exprParsers (Suc n) = (let ps = exprParsers n in
     \<lparr>expressionP = parseAssignmentExpression ps, conditionalP = parseConditionalExpression ps,
      binaryP = parseBinaryExpression ps, binaryRestP = binaryRest ps, castP = parseCastExpression ps,
      unaryP = parseUnaryExpression ps, argumentsP = argumentRest ps, postfixRestP = postfixRest ps\<rparr>)"

definition parseExpression :: "nat \<Rightarrow> Expr parsing" where
  "parseExpression n = expressionP (exprParsers n)"

section \<open>Statements\<close>

record StmtParsers =
  statementP :: "Stmt parsing"
  blockRestP :: "Stmt list \<Rightarrow> Stmt list parsing"

text \<open>The statements of a block up to its end; a statement that could not be read is left out.\<close>

definition blockRest :: "StmtParsers \<Rightarrow> Stmt list \<Rightarrow> Stmt list parsing" where
  "blockRest ps statements p =
     (if atKind TEnd p \<or> atKind TRBrace p then ret statements p
      else case statementP ps p of
        None \<Rightarrow> None
      | Some (q, statement) \<Rightarrow>
          loop skipNewlines (blockRestP ps (case statement of None \<Rightarrow> statements | Some s \<Rightarrow> statements @ [s]))
            (if cursor q = cursor p then bump (errorHere ''unable to recover while parsing C statement'' q) else q))"

definition parseBlock :: "StmtParsers \<Rightarrow> Stmt parsing" where
  "parseBlock ps = inspect (\<lambda>start.
     andThen (expectKind TLBrace (quoted ''{'' @ '' to start block'')) (\<lambda>_. loop skipNewlines
       (andThen (blockRestP ps []) (\<lambda>statements. andThen (expectKind TRBrace (quoted ''}'' @ '' to close block'')) (\<lambda>_. inspect (\<lambda>q.
          ret (BlockStmt statements (upTo (here start) q))))))))"

definition normalizeBlock :: "Stmt option \<Rightarrow> Stmt option" where
  "normalizeBlock statement =
     (case statement of
        None \<Rightarrow> None
      | Some s \<Rightarrow> (case s of BlockStmt _ _ \<Rightarrow> Some s | _ \<Rightarrow> Some (BlockStmt [s] noRange)))"

definition parenthesised :: "string \<Rightarrow> nat \<Rightarrow> (Expr \<Rightarrow> 'a parsing) \<Rightarrow> 'a parsing" where
  "parenthesised keyword n f =
     step (skipLexeme keyword) (andThen (expectKind TLParen (quoted ''('' @ '' after '' @ keyword)) (\<lambda>_. loop skipNewlines
       (andThen (parseExpression n) (\<lambda>condition.
          andThen (expectKind TRParen (quoted '')'' @ '' after '' @ keyword @ '' condition'')) (\<lambda>_.
            loop skipNewlines (f condition))))))"

definition parseIfStatement :: "nat \<Rightarrow> StmtParsers \<Rightarrow> Stmt parsing" where
  "parseIfStatement n ps = inspect (\<lambda>start. parenthesised ''if'' n (\<lambda>condition.
     andThen (statementP ps) (\<lambda>thenBranch. loop skipNewlines
       (andThen
          (whenLexeme ''else'' (loop skipNewlines (andThen (statementP ps) (\<lambda>s. ret (Some s)))) (ret None))
          (\<lambda>elseBranch. inspect (\<lambda>q. ret (IfStmt condition thenBranch elseBranch (upTo (here start) q))))))))"

definition parseWhileStatement :: "nat \<Rightarrow> StmtParsers \<Rightarrow> Stmt parsing" where
  "parseWhileStatement n ps = inspect (\<lambda>start. parenthesised ''while'' n (\<lambda>condition.
     andThen (statementP ps) (\<lambda>body. inspect (\<lambda>q. ret (WhileStmt condition body (upTo (here start) q))))))"

definition parseReturnStatement :: "nat \<Rightarrow> Stmt parsing" where
  "parseReturnStatement n = inspect (\<lambda>start. step (skipLexeme ''return'') (inspect (\<lambda>p.
     andThen (optionally (\<not> atKind TSemicolon p \<and> \<not> atKind TNewline p \<and> \<not> atKind TRBrace p) (parseExpression n)) (\<lambda>result.
       andThen (consumeTerminator True) (\<lambda>_. inspect (\<lambda>q. ret (ReturnStmt result (upTo (here start) q))))))))"

definition parseVariableAfterPrefix ::
  "nat \<Rightarrow> StorageClass \<Rightarrow> CType \<Rightarrow> Declarator \<Rightarrow> bool \<Rightarrow> VarDecl parsing" where
  "parseVariableAfterPrefix n storage type declarator requireTerminator =
     andThen (whenLexeme ''='' (andThen (parseExpression n) (\<lambda>e. ret (Some e))) (ret None)) (\<lambda>initializer.
       andThen (consumeTerminator requireTerminator) (\<lambda>_. inspect (\<lambda>q.
         ret \<lparr>var_storage = storage, var_type = type, var_declarator = declarator, var_initializer = initializer,
              var_range = upTo (range_begin (ctype_range type)) q\<rparr>)))"

definition readStorage :: "(StorageClass \<Rightarrow> 'a parsing) \<Rightarrow> 'a parsing" where
  "readStorage f = inspect (\<lambda>p.
     if isStorageClass p then step bump (f (if atLexeme ''static'' p then StaticStorage else ExternStorage))
     else f NoStorage)"

definition parseLocalDeclaration :: "nat \<Rightarrow> bool \<Rightarrow> Stmt parsing" where
  "parseLocalDeclaration n requireTerminator = inspect (\<lambda>start.
     if atLexeme ''typedef'' start then reject ''typedef declarations are only supported at translation-unit scope''
     else readStorage (\<lambda>storage. andThen parseType (\<lambda>type p.
       case parseDeclarator True p of
         None \<Rightarrow> None
       | Some (p, declarator) \<Rightarrow>
           if atKind TLParen p then reject ''nested C function declarations are not supported'' p
           else (case declarator of
               None \<Rightarrow> nullptr p
             | Some d \<Rightarrow> andThen (parseVariableAfterPrefix n storage type d requireTerminator) (\<lambda>declaration. inspect (\<lambda>q.
                 ret (DeclStmt declaration (upTo (here start) q)))) p))))"

definition parseExpressionStatement :: "nat \<Rightarrow> bool \<Rightarrow> Stmt parsing" where
  "parseExpressionStatement n requireTerminator = inspect (\<lambda>start.
     andThen (parseExpression n) (\<lambda>e. andThen (consumeTerminator requireTerminator) (\<lambda>_. inspect (\<lambda>q.
       ret (ExprStmt e (upTo (here start) q))))))"

definition parseForInit :: "nat \<Rightarrow> Stmt option parsing" where
  "parseForInit n = inspect (\<lambda>p.
     optionally (\<not> atKind TSemicolon p)
       (if looksLikeDeclaration p then parseLocalDeclaration n False else parseExpressionStatement n False))"

definition parseForHeader :: "nat \<Rightarrow> (Stmt option \<Rightarrow> Expr option \<Rightarrow> Expr option \<Rightarrow> 'a parsing) \<Rightarrow> 'a parsing" where
  "parseForHeader n f =
     andThen (expectKind TLParen (quoted ''('' @ '' after for'')) (\<lambda>_. loop skipNewlines
       (andThen (parseForInit n) (\<lambda>init.
         andThen (expectKind TSemicolon (quoted '';'' @ '' after for initializer'')) (\<lambda>_. loop skipNewlines
           (inspect (\<lambda>p. andThen (optionally (\<not> atKind TSemicolon p) (parseExpression n)) (\<lambda>condition.
             andThen (expectKind TSemicolon (quoted '';'' @ '' after for condition'')) (\<lambda>_. loop skipNewlines
               (inspect (\<lambda>p. andThen (optionally (\<not> atKind TRParen p) (parseExpression n)) (\<lambda>post.
                 andThen (expectKind TRParen (quoted '')'' @ '' after for clause'')) (\<lambda>_. loop skipNewlines
                   (f init condition post)))))))))))))"

definition parseForStatement :: "nat \<Rightarrow> StmtParsers \<Rightarrow> Stmt parsing" where
  "parseForStatement n ps = inspect (\<lambda>start. step (skipLexeme ''for'') (parseForHeader n (\<lambda>init condition post.
     andThen (statementP ps) (\<lambda>body. inspect (\<lambda>q.
       ret (ForStmt init condition post body (upTo (here start) q)))))))"

text \<open>A statement of one keyword and its terminator.\<close>

definition simpleStatement :: "SourceLocation \<Rightarrow> (SourceRange \<Rightarrow> Stmt) \<Rightarrow> Stmt parsing" where
  "simpleStatement start f = andThen (consumeTerminator True) (\<lambda>_. inspect (\<lambda>q. ret (f (upTo start q))))"

definition parseGotoStatement :: "Stmt parsing" where
  "parseGotoStatement = inspect (\<lambda>start. step bump (inspect (\<lambda>p.
     if currentKind p \<noteq> TIdentifier then reject ''expected label after goto''
     else step bump (simpleStatement (here start) (GotoStmt (currentLexeme p))))))"

definition parseLabelStatement :: "StmtParsers \<Rightarrow> Stmt parsing" where
  "parseLabelStatement ps = inspect (\<lambda>start. step bump (step bump (loop skipNewlines
     (andThen (statementP ps) (\<lambda>s. inspect (\<lambda>q. ret (LabelStmt (currentLexeme start) s (upTo (here start) q))))))))"

definition parseStatement :: "nat \<Rightarrow> StmtParsers \<Rightarrow> Stmt parsing" where
  "parseStatement n ps = inspect (\<lambda>p.
     if atKind TSemicolon p \<or> atKind TNewline p then step bump (ret (EmptyStmt noRange))
     else if atKind TLBrace p then parseBlock ps
     else if atLexeme ''if'' p then parseIfStatement n ps
     else if atLexeme ''while'' p then parseWhileStatement n ps
     else if atLexeme ''for'' p then parseForStatement n ps
     else if atLexeme ''return'' p then parseReturnStatement n
     else if atLexeme ''break'' p then step bump (simpleStatement (here p) BreakStmt)
     else if atLexeme ''continue'' p then step bump (simpleStatement (here p) ContinueStmt)
     else if atLexeme ''goto'' p then parseGotoStatement
     else if currentKind p = TIdentifier \<and> tok_kind (lookAhead 1 p) = TColon then parseLabelStatement ps
     else if atLexeme ''do'' p \<or> atLexeme ''switch'' p \<or> atLexeme ''case'' p \<or> atLexeme ''default'' p
       then reject ''C statement is outside the Standard 16.1 compatibility subset''
     else if looksLikeDeclaration p then parseLocalDeclaration n True
     else parseExpressionStatement n True)"

primrec stmtParsers :: "nat \<Rightarrow> StmtParsers" where
  "stmtParsers 0 = \<lparr>statementP = \<lambda>_. None, blockRestP = \<lambda>_ _. None\<rparr>"
| "stmtParsers (Suc n) = (let ps = stmtParsers n in
     \<lparr>statementP = parseStatement n ps, blockRestP = blockRest ps\<rparr>)"

section \<open>Declarations\<close>

primrec fieldLoop :: "nat \<Rightarrow> FieldDecl list \<Rightarrow> FieldDecl list parsing" where
  "fieldLoop 0 fs p = None"
| "fieldLoop (Suc n) fs p =
     (if atKind TEnd p \<or> atKind TRBrace p then ret fs p
      else case andThen parseType (\<lambda>type. andThen (parseDeclarator True) (\<lambda>declarator.
             andThen (consumeTerminator True) (\<lambda>_. inspect (\<lambda>q.
               ret \<lparr>field_type = type, field_declarator = declarator, field_range = upTo (here p) q\<rparr>)))) p of
        None \<Rightarrow> None
      | Some (q, Some field) \<Rightarrow> fieldLoop n (fs @ [field]) q
      | Some (q, None) \<Rightarrow> andThen recoverDeclaration (\<lambda>_. fieldLoop n fs) q)"

definition parseStructDeclaration :: "nat \<Rightarrow> Decl parsing" where
  "parseStructDeclaration n = inspect (\<lambda>start. step (skipLexeme ''struct'') (inspect (\<lambda>p.
     whenKind TIdentifier
       (andThen (expectKind TLBrace (quoted ''{'' @ '' after struct name'')) (\<lambda>_. loop skipNewlines
         (andThen (fieldLoop n []) (\<lambda>fs. andThen (expectKind TRBrace (quoted ''}'' @ '' after struct fields'')) (\<lambda>_.
           andThen (consumeTerminator False) (\<lambda>_. inspect (\<lambda>q.
             ret (StructDecl (currentLexeme p) fs (upTo (here start) q)))))))))
       (reject ''expected struct name''))))"

definition addTypedef :: "string \<Rightarrow> Parser \<Rightarrow> Parser" where
  "addTypedef name p = p\<lparr>typedefNames := name # typedefNames p\<rparr>"

definition parseTypedefDeclaration :: "Decl parsing" where
  "parseTypedefDeclaration = inspect (\<lambda>start. andThen parseType (\<lambda>type. andThen (parseDeclarator True) (\<lambda>declarator.
     andThen (consumeTerminator True) (\<lambda>_. step (addTypedef (decl_name declarator)) (inspect (\<lambda>q.
       ret (TypedefDecl type declarator (upTo (here start) q))))))))"

definition parseFunctionAfterPrefix :: "nat \<Rightarrow> StorageClass \<Rightarrow> CType \<Rightarrow> Declarator \<Rightarrow> FunctionDecl parsing" where
  "parseFunctionAfterPrefix n storage returnType declarator =
     andThen (parseParameterList n) (\<lambda>parameters. loop skipNewlines (inspect (\<lambda>p.
       andThen
         (if atKind TLBrace p then andThen (parseBlock (stmtParsers n)) (\<lambda>body. andThen (consumeTerminator False) (\<lambda>_. ret (Some body)))
          else andThen (consumeTerminator True) (\<lambda>_. ret None))
         (\<lambda>body. inspect (\<lambda>q.
            ret \<lparr>fun_storage = storage, fun_returnType = returnType, fun_declarator = declarator,
                 fun_parameters = parameters, fun_body = body,
                 fun_range = upTo (range_begin (ctype_range returnType)) q\<rparr>)))))"

definition parseDeclarationAfterPrefix :: "nat \<Rightarrow> StorageClass \<Rightarrow> CType \<Rightarrow> Decl parsing" where
  "parseDeclarationAfterPrefix n storage type = andThen (parseDeclarator True) (\<lambda>declarator. inspect (\<lambda>p.
     if atKind TLParen p then
       (if decl_arrayCount declarator \<noteq> None then reject ''function declarator cannot have an array suffix''
        else andThen (parseFunctionAfterPrefix n storage type declarator) (\<lambda>f. ret (FunctionDeclaration f)))
     else andThen (parseVariableAfterPrefix n storage type declarator True) (\<lambda>v. ret (VarDeclaration v))))"

definition parseTopLevelDeclaration :: "nat \<Rightarrow> Decl parsing" where
  "parseTopLevelDeclaration n = inspect (\<lambda>p.
     if looksLikeStructDefinition p then parseStructDeclaration n
     else whenLexeme ''typedef'' parseTypedefDeclaration
       (readStorage (\<lambda>storage. andThen parseType (parseDeclarationAfterPrefix n storage))))"

text \<open>One round of the loop over the declarations.\<close>

definition declarationStep :: "nat \<Rightarrow> Decl list \<times> Parser \<Rightarrow> (Decl list \<times> Parser) option" where
  "declarationStep n s =
     (case s of (declarations, p) \<Rightarrow>
        if atKind TSemicolon p then map_option (Pair declarations) (skipNewlines (bump p))
        else case parseTopLevelDeclaration n p of
          None \<Rightarrow> None
        | Some (q, Some declaration) \<Rightarrow> map_option (Pair (declarations @ [declaration])) (skipNewlines q)
        | Some (q, None) \<Rightarrow>
            (case recoverDeclaration q of
               None \<Rightarrow> None
             | Some (q, _) \<Rightarrow> map_option (Pair declarations) (skipNewlines q)))"

primrec declarationLoop :: "nat \<Rightarrow> nat \<Rightarrow> Decl list \<times> Parser \<Rightarrow> (Decl list \<times> Parser) option" where
  "declarationLoop n 0 s = None"
| "declarationLoop n (Suc k) s =
     (if atKind TEnd (snd s) then Some s
      else case declarationStep n s of None \<Rightarrow> None | Some s \<Rightarrow> declarationLoop n k s)"

definition newParser :: "Token list \<Rightarrow> Parser" where
  "newParser ts = \<lparr>tokens = ts, cursor = 0, typedefNames = [], parseDiagnostics = []\<rparr>"

definition parse :: "nat \<Rightarrow> Parser \<Rightarrow> ParseResult option" where
  "parse n p =
     (case skipNewlines p of
        None \<Rightarrow> None
      | Some p \<Rightarrow>
          map_option (\<lambda>(declarations, p).
              \<lparr>result_unit = if parseDiagnostics p = [] then Some declarations else None,
               result_diagnostics = parseDiagnostics p\<rparr>)
            (declarationLoop n n ([], p)))"

definition parseCCompatSource :: "nat \<Rightarrow> string \<Rightarrow> string \<Rightarrow> ParseResult option" where
  "parseCCompatSource n source fileName =
     (let (ts, ds) = lexCCompatSource source fileName in
      map_option (\<lambda>r. if ds = [] then r
                       else \<lparr>result_unit = None, result_diagnostics = ds @ result_diagnostics r\<rparr>)
        (parse n (newParser ts)))"

end
