(* ===== verification/CCompat_Calculus.thy ===== *)
theory CCompat_Calculus
  imports CCompat_Parser "HOL-Library.Sublist"
begin

text \<open>
  Total correctness of the parsing functions, as weakest preconditions: \<open>wp m Q p\<close> says that \<open>m\<close> returns
  from \<open>p\<close> and its final state and result satisfy \<open>Q\<close>.  The postconditions of the parser are all of one
  form, \<open>parsed G p\<close>: the cursor only moves forward inside the tokens, diagnostics are only added, a null
  result comes with a diagnostic, and a result without new diagnostics stands for the tokens read, in the
  relation \<open>G\<close>.
\<close>

section \<open>Token positions\<close>

definition wellFormed :: "Parser \<Rightarrow> bool" where
  "wellFormed p \<longleftrightarrow> cursor p < length (tokens p) \<and> tok_kind (last (tokens p)) = TEnd \<and> tok_lexeme (last (tokens p)) = []"

definition remaining :: "Parser \<Rightarrow> nat" where
  "remaining p = length (tokens p) - cursor p"

definition goes :: "Parser \<Rightarrow> Parser \<Rightarrow> bool" where
  "goes p q \<longleftrightarrow> tokens q = tokens p \<and> cursor p \<le> cursor q \<and> wellFormed q \<and> prefix (parseDiagnostics p) (parseDiagnostics q)"

definition eats :: "Token list \<Rightarrow> Parser \<Rightarrow> Parser \<Rightarrow> bool" where
  "eats ts p q \<longleftrightarrow> goes p q \<and> parseDiagnostics q = parseDiagnostics p \<and>
     cursor q = cursor p + length ts \<and> drop (cursor p) (tokens p) = ts @ drop (cursor q) (tokens p)"

lemma goes_wellFormed: "goes p q \<Longrightarrow> wellFormed q"
  by (simp add: goes_def)

lemma goes_refl [simp]: "goes p p \<longleftrightarrow> wellFormed p"
  by (simp add: goes_def)

lemma goes_trans [trans]: "goes p q \<Longrightarrow> goes q r \<Longrightarrow> goes p r"
  by (auto simp: goes_def intro: prefix_order.trans)

lemma goes_remaining: "goes p q \<Longrightarrow> remaining q \<le> remaining p"
  by (auto simp: goes_def remaining_def)

lemma goes_remaining_less: "goes p q \<Longrightarrow> cursor p < cursor q \<Longrightarrow> remaining q < remaining p"
  by (auto simp: goes_def remaining_def wellFormed_def)

lemma eats_goes: "eats ts p q \<Longrightarrow> goes p q"
  by (simp add: eats_def)

lemma eats_refl: "wellFormed p \<Longrightarrow> eats [] p p"
  by (simp add: eats_def)

lemma eats_trans: "eats ts p q \<Longrightarrow> eats us q r \<Longrightarrow> eats (ts @ us) p r"
  by (auto simp: eats_def goes_def)

lemma current_nth: "wellFormed p \<Longrightarrow> currentToken p = tokens p ! cursor p"
  by (simp add: currentToken_def lookAhead_def wellFormed_def)

lemma not_last:
  assumes "wellFormed p" and "currentKind p \<noteq> TEnd \<or> currentLexeme p \<noteq> []"
  shows "cursor p + 1 < length (tokens p)"
proof (rule ccontr)
  assume "\<not> cursor p + 1 < length (tokens p)"
  then have "cursor p = length (tokens p) - 1" "tokens p \<noteq> []" using assms(1) by (auto simp: wellFormed_def)
  then have "currentToken p = last (tokens p)" using assms(1) by (simp add: current_nth last_conv_nth)
  then show False using assms by (simp add: wellFormed_def)
qed

lemma eats_bump:
  assumes "wellFormed p" and "currentKind p \<noteq> TEnd \<or> currentLexeme p \<noteq> []"
  shows "eats [currentToken p] p (bump p)"
  using not_last [OF assms] assms(1) by (simp add: eats_def goes_def bump_def wellFormed_def current_nth Cons_nth_drop_Suc)

lemma goes_error: "wellFormed p \<Longrightarrow> goes p (errorHere msg p)"
  by (simp add: goes_def errorHere_def errorAt_def wellFormed_def)

lemma error_reported [simp]: "parseDiagnostics (errorHere msg p) \<noteq> parseDiagnostics p"
  by (simp add: errorHere_def errorAt_def)

section \<open>Weakest preconditions\<close>

lemma wp_parser [simp]:
  "wp (reject msg) Q p \<longleftrightarrow> Q (errorHere msg p) None"
  "wp (whenKind k m n) Q p \<longleftrightarrow> (if atKind k p then wp m Q (bump p) else wp n Q p)"
  "wp (whenLexeme s m n) Q p \<longleftrightarrow> (if atLexeme s p then wp m Q (bump p) else wp n Q p)"
  by (auto simp: wp_def reject_def whenKind_def whenLexeme_def)

lemmas wp_simps = wp_actions wp_parser

section \<open>The postcondition of the parser\<close>

type_synonym 'a meaning = "Token list \<Rightarrow> 'a \<Rightarrow> Parser \<Rightarrow> bool"

definition parsed :: "bool \<Rightarrow> 'a meaning \<Rightarrow> Parser \<Rightarrow> Parser \<Rightarrow> 'a option \<Rightarrow> bool" where
  "parsed strict G p q r \<longleftrightarrow> goes p q \<and>
     (case r of
        None \<Rightarrow> parseDiagnostics q \<noteq> parseDiagnostics p
      | Some x \<Rightarrow> (strict \<longrightarrow> cursor p < cursor q) \<and>
          (parseDiagnostics q = parseDiagnostics p \<longrightarrow> (\<exists>ts. eats ts p q \<and> G ts x q)))"

text \<open>
  \<open>trace K ts p q\<close>: on the way from \<open>p\<close> to \<open>q\<close>, if no diagnostic was added, the tokens \<open>ts\<close> were read
  and \<open>K\<close> is known of them.
\<close>

definition trace :: "bool \<Rightarrow> Token list \<Rightarrow> Parser \<Rightarrow> Parser \<Rightarrow> bool" where
  "trace K ts p q \<longleftrightarrow> goes p q \<and> (parseDiagnostics q = parseDiagnostics p \<longrightarrow> eats ts p q \<and> K)"

lemma trace_start: "wellFormed p \<Longrightarrow> trace True [] p p"
  by (simp add: trace_def eats_refl)

lemma trace_wellFormed: "trace K ts p q \<Longrightarrow> wellFormed q"
  by (simp add: trace_def goes_def)

lemma trace_goes: "trace K ts p q \<Longrightarrow> goes p q"
  by (simp add: trace_def)

lemma goes_clean: "goes p q \<Longrightarrow> goes q r \<Longrightarrow> parseDiagnostics r = parseDiagnostics p \<Longrightarrow> parseDiagnostics q = parseDiagnostics p"
  by (auto simp: goes_def dest: prefix_order.antisym)

lemma trace_eats: "trace K ts p q \<Longrightarrow> goes q r \<Longrightarrow> (parseDiagnostics r = parseDiagnostics q \<Longrightarrow> eats us q r \<and> L) \<Longrightarrow>
    trace (K \<and> L) (ts @ us) p r"
  unfolding trace_def by (metis eats_trans goes_clean goes_trans)

lemma trace_token:
  assumes "trace K ts p q" and "currentKind q \<noteq> TEnd \<or> currentLexeme q \<noteq> []"
  shows "trace K (ts @ [currentToken q]) p (bump q)"
proof -
  have "eats [currentToken q] q (bump q)" using eats_bump trace_wellFormed assms by blast
  then show ?thesis using trace_eats [OF assms(1), of "bump q" "[currentToken q]" True] eats_goes by auto
qed

lemma trace_error: "trace K ts p q \<Longrightarrow> parsed s G p (errorHere msg q) None"
proof -
  assume t: "trace K ts p q"
  then have q: "goes p q" "goes q (errorHere msg q)" using goes_error trace_goes trace_wellFormed by blast+
  moreover have "parseDiagnostics (errorHere msg q) \<noteq> parseDiagnostics p"
    using goes_clean [OF q] error_reported [of msg q] by metis
  ultimately show ?thesis by (auto simp: parsed_def intro: goes_trans)
qed

lemma trace_ret: "trace K ts p q \<Longrightarrow> (s \<Longrightarrow> cursor p < cursor q) \<Longrightarrow> (K \<Longrightarrow> G ts x q) \<Longrightarrow> parsed s G p q (Some x)"
  by (auto simp: trace_def parsed_def)

lemma trace_null: "trace K ts p q \<Longrightarrow> parsed s G q r None \<Longrightarrow> parsed t H p r None"
  by (auto simp: trace_def parsed_def intro: goes_trans dest: goes_clean)

lemma trace_some:
  assumes "trace K ts p q" and "parsed s G q r (Some x)"
  shows "goes q r \<and> (s \<longrightarrow> cursor q < cursor r) \<and> (\<exists>us. trace (K \<and> G us x r) (ts @ us) p r)"
proof -
  have r: "goes q r" "s \<longrightarrow> cursor q < cursor r" using assms(2) by (auto simp: parsed_def)
  obtain us where "parseDiagnostics r = parseDiagnostics q \<longrightarrow> eats us q r \<and> G us x r"
    using assms(2) by (auto simp: parsed_def)
  then have "trace (K \<and> G us x r) (ts @ us) p r" using trace_eats [OF assms(1) r(1)] by blast
  then show ?thesis using r by blast
qed

text \<open>Reading the result of another parsing function.\<close>

lemma wp_call:
  assumes "trace K ts p0 p" and "wp m (parsed s G p) p"
    and "\<And>us x q. trace (K \<and> G us x q) (ts @ us) p0 q \<Longrightarrow> goes p q \<Longrightarrow> (s \<Longrightarrow> cursor p < cursor q) \<Longrightarrow>
      wp (f x) (parsed t H p0) q"
  shows "wp (andThen m f) (parsed t H p0) p"
  unfolding wp_andThen
proof (rule wp_mono [OF assms(2)])
  fix q r
  assume r: "parsed s G p q r"
  show "case r of None \<Rightarrow> parsed t H p0 q None | Some x \<Rightarrow> wp (f x) (parsed t H p0) q"
  proof (cases r)
    case None
    then show ?thesis using trace_null [OF assms(1)] r by simp
  next
    case (Some x)
    obtain us where "trace (K \<and> G us x q) (ts @ us) p0 q" "goes p q" "s \<longrightarrow> cursor p < cursor q"
      using trace_some [OF assms(1), of s G q x] r Some by auto
    then have "wp (f x) (parsed t H p0) q" using assms(3) by simp
    then show ?thesis using Some by simp
  qed
qed

text \<open>The result of another parsing function as the result of this one.\<close>

lemma wp_tail:
  assumes "trace K ts p0 p" and "wp m (parsed s G p) p"
    and "\<And>us x q. K \<Longrightarrow> G us x q \<Longrightarrow> H (ts @ us) x q" and "t \<Longrightarrow> cursor p0 < cursor p \<or> s"
  shows "wp m (parsed t H p0) p"
proof (rule wp_mono [OF assms(2)])
  fix q r
  assume r: "parsed s G p q r"
  show "parsed t H p0 q r"
  proof (cases r)
    case None
    then show ?thesis using trace_null [OF assms(1)] r by blast
  next
    case (Some x)
    obtain us where "trace (K \<and> G us x q) (ts @ us) p0 q" "goes p q" "s \<longrightarrow> cursor p < cursor q"
      using trace_some [OF assms(1), of s G q x] r Some by auto
    moreover have "cursor p0 \<le> cursor p" using assms(1) by (simp add: trace_def goes_def)
    ultimately show ?thesis using Some assms(3,4) by (auto intro!: trace_ret simp: goes_def)
  qed
qed

lemma atKind_token: "trace K ts p q \<Longrightarrow> atKind k q \<Longrightarrow> k \<noteq> TEnd \<Longrightarrow>
    trace (K \<and> tok_kind (currentToken q) = k) (ts @ [currentToken q]) p (bump q)"
  using trace_token [of K ts p q] by (auto simp: atKind_def trace_def)

lemma atLexeme_token: "trace K ts p q \<Longrightarrow> atLexeme s q \<Longrightarrow> s \<noteq> [] \<Longrightarrow>
    trace (K \<and> tok_lexeme (currentToken q) = s) (ts @ [currentToken q]) p (bump q)"
  using trace_token [of K ts p q] by (auto simp: atLexeme_def trace_def)

lemma wp_expect:
  assumes "trace K ts p0 p" and "k \<noteq> TEnd"
    and "\<And>t q. trace (K \<and> tok_kind t = k) (ts @ [t]) p0 q \<Longrightarrow> goes p q \<Longrightarrow> cursor p < cursor q \<Longrightarrow> wp (f ()) (parsed s H p0) q"
  shows "wp (andThen (expectKind k d) f) (parsed s H p0) p"
proof (cases "atKind k p")
  case True
  have "eats [currentToken p] p (bump p)"
    using eats_bump trace_wellFormed assms(1,2) True by (auto simp: atKind_def)
  then have "goes p (bump p)" "cursor p < cursor (bump p)" by (auto simp: eats_def bump_def)
  then show ?thesis using True assms(3) [OF atKind_token [OF assms(1) True assms(2)]] by (simp add: expectKind_def)
next
  case False
  then show ?thesis using trace_error [OF assms(1)] by (simp add: expectKind_def)
qed

lemma wp_whenKind:
  assumes "trace K ts p0 p" and "k \<noteq> TEnd"
    and "\<And>t q. trace (K \<and> tok_kind t = k) (ts @ [t]) p0 q \<Longrightarrow> goes p q \<Longrightarrow> cursor p < cursor q \<Longrightarrow> q = bump p \<Longrightarrow>
      t = currentToken p \<Longrightarrow> wp m Q q"
    and "\<not> atKind k p \<Longrightarrow> wp n Q p"
  shows "wp (whenKind k m n) Q p"
proof (cases "atKind k p")
  case True
  have "eats [currentToken p] p (bump p)"
    using eats_bump trace_wellFormed assms(1,2) True by (auto simp: atKind_def)
  then have "goes p (bump p)" "cursor p < cursor (bump p)" by (auto simp: eats_def bump_def)
  then show ?thesis using True assms(3) [OF atKind_token [OF assms(1) True assms(2)]] by simp
qed (simp add: assms(4))

lemma wp_whenLexeme:
  assumes "trace K ts p0 p" and "s \<noteq> []"
    and "\<And>t q. trace (K \<and> tok_lexeme t = s) (ts @ [t]) p0 q \<Longrightarrow> goes p q \<Longrightarrow> cursor p < cursor q \<Longrightarrow> q = bump p \<Longrightarrow>
      t = currentToken p \<Longrightarrow> wp m Q q"
    and "\<not> atLexeme s p \<Longrightarrow> wp n Q p"
  shows "wp (whenLexeme s m n) Q p"
proof (cases "atLexeme s p")
  case True
  have "eats [currentToken p] p (bump p)"
    using eats_bump trace_wellFormed assms(1,2) True by (auto simp: atLexeme_def)
  then have "goes p (bump p)" "cursor p < cursor (bump p)" by (auto simp: eats_def bump_def)
  then show ?thesis using True assms(3) [OF atLexeme_token [OF assms(1) True assms(2)]] by simp
qed (simp add: assms(4))

section \<open>Loops over tokens\<close>

lemma tokens_bump [simp]: "tokens (bump p) = tokens p"
  by (simp add: bump_def)

lemma while_tokens_fold:
  assumes "wellFormed p" and "\<not> C (last (tokens p))"
  shows "\<exists>ts q. while_option (\<lambda>s. C (currentToken (fst s))) (\<lambda>s. (bump (fst s), g (currentToken (fst s)) (snd s))) (p, a) =
      Some (q, fold g ts a) \<and> eats ts p q \<and> list_all C ts \<and> \<not> C (currentToken q) \<and> typedefNames q = typedefNames p"
  using assms
proof (induction "remaining p" arbitrary: p a rule: less_induct)
  case less
  let ?w = "while_option (\<lambda>s. C (currentToken (fst s))) (\<lambda>s. (bump (fst s), g (currentToken (fst s)) (snd s)))"
  show ?case
  proof (cases "C (currentToken p)")
    case True
    have "cursor p + 1 < length (tokens p)"
    proof (rule ccontr)
      assume "\<not> ?thesis"
      then have "cursor p = length (tokens p) - 1" "tokens p \<noteq> []" using less.prems(1) by (auto simp: wellFormed_def)
      then show False using True less.prems by (simp add: current_nth last_conv_nth)
    qed
    then have eat: "eats [currentToken p] p (bump p)" and small: "remaining (bump p) < remaining p"
      using less.prems(1) by (auto simp: eats_def goes_def bump_def wellFormed_def current_nth Cons_nth_drop_Suc remaining_def)
    then obtain ts q where q: "?w (bump p, g (currentToken p) a) = Some (q, fold g ts (g (currentToken p) a))"
      "eats ts (bump p) q" "list_all C ts" "\<not> C (currentToken q)" "typedefNames q = typedefNames (bump p)"
      using less.hyps [OF small goes_wellFormed [OF eats_goes [OF eat]]] less.prems(2) tokens_bump [of p] by metis
    have "?w (p, a) = ?w (bump p, g (currentToken p) a)"
      using True by (subst while_option_unfold) simp
    then show ?thesis using True q eats_trans [OF eat q(2)]
      by (intro exI [of _ "currentToken p # ts"] exI [of _ q]) (simp add: bump_def)
  next
    case False
    then show ?thesis using eats_refl [OF less.prems(1)]
      by (intro exI [of _ "[]"] exI [of _ p]) (simp add: while_option_unfold [of _ _ "(p, a)"])
  qed
qed

lemma while_tokens:
  assumes "wellFormed p" and "\<not> C (last (tokens p))"
  shows "\<exists>ts q. while_option (\<lambda>p. C (currentToken p)) bump p = Some q \<and> eats ts p q \<and> list_all C ts \<and> \<not> C (currentToken q) \<and>
    typedefNames q = typedefNames p"
proof -
  have "while_option (\<lambda>p. C (currentToken p)) bump p =
      map_option fst (while_option (\<lambda>s. C (currentToken (fst s))) (\<lambda>s. (bump (fst s), (\<lambda>_ u. u) (currentToken (fst s)) (snd s))) (p, ()))"
    using while_option_commute [of "\<lambda>s. C (currentToken (fst s))" "\<lambda>p. C (currentToken p)" fst
        "\<lambda>s. (bump (fst s), snd s)" bump "(p, ())"] by simp
  then show ?thesis using while_tokens_fold [of p C "\<lambda>_ u. u" "()"] assms by auto
qed

lemma while_count: "i \<le> j \<Longrightarrow> \<not> P j \<Longrightarrow> \<exists>k. while_option P Suc i = Some k \<and> \<not> P k"
proof (induction "j - i" arbitrary: i)
  case (Suc n)
  then show ?case by (cases "P i") (auto simp: while_option_unfold [of _ _ i])
qed (auto simp: while_option_unfold)

definition newlines :: "Token list \<Rightarrow> bool" where
  "newlines ts \<longleftrightarrow> list_all (\<lambda>t. tok_kind t = TNewline) ts"

lemma skipNewlines_eats:
  "wellFormed p \<Longrightarrow> \<exists>ts q. skipNewlines p = Some q \<and> eats ts p q \<and> newlines ts \<and> typedefNames q = typedefNames p"
  using while_tokens [of p "\<lambda>t. tok_kind t = TNewline"]
  unfolding skipNewlines_def newlines_def atKind_def by (auto simp: wellFormed_def)

lemma wp_skipNewlines:
  assumes "trace K ts p0 p"
    and "\<And>nl q. trace (K \<and> newlines nl) (ts @ nl) p0 q \<Longrightarrow> goes p q \<Longrightarrow> wp m Q q"
  shows "wp (loop skipNewlines m) Q p"
proof -
  obtain nl q where q: "skipNewlines p = Some q" "eats nl p q" "newlines nl"
    using skipNewlines_eats trace_wellFormed [OF assms(1)] by blast
  then have "trace (K \<and> newlines nl) (ts @ nl) p0 q" using trace_eats [OF assms(1) eats_goes] by blast
  then have "wp m Q q" using assms(2) eats_goes [OF q(2)] by blast
  then show ?thesis using q(1) by simp
qed

end
