(* ===== verification/CCompat_Grammar.thy ===== *)
theory CCompat_Grammar
  imports CCompat_Calculus
begin

text \<open>
  The grammar the C compatibility parser implements, over tokens: types, declarators, parameters, the
  expressions with their ten binary precedence levels, statements and declarations.  Each rule relates the
  tokens of a phrase to its syntax tree; source ranges are left open.  Newline tokens may stand where the
  parser skips them and end statements like a semicolon does.
\<close>

section \<open>Types and declarators\<close>

abbreviation lexemeIs :: "string \<Rightarrow> Token \<Rightarrow> bool" where
  "lexemeIs s t \<equiv> tok_lexeme t = s"

abbreviation kindIs :: "TokenKind \<Rightarrow> Token \<Rightarrow> bool" where
  "kindIs k t \<equiv> tok_kind t = k"

definition typeWords :: "(string \<times> string list \<times> BaseType) list" where
  "typeWords =
    [(''char'', [], CChar), (''signed'', [''char''], CSignedChar), (''unsigned'', [''char''], CUnsignedChar),
     (''unsigned'', [''short''], CUnsignedShort), (''unsigned'', [''short'', ''int''], CUnsignedShort),
     (''unsigned'', [''int''], CUnsignedInt), (''unsigned'', [''long''], CUnsignedLong),
     (''unsigned'', [''long'', ''int''], CUnsignedLong), (''unsigned'', [''long'', ''long''], CUnsignedLongLong),
     (''unsigned'', [''long'', ''long'', ''int''], CUnsignedLongLong), (''short'', [], CShort), (''short'', [''int''], CShort),
     (''int'', [], CInt), (''long'', [], CLong), (''long'', [''int''], CLong), (''long'', [''long''], CLongLong),
     (''long'', [''long'', ''int''], CLongLong), (''float'', [], CFloat), (''double'', [], CDouble), (''void'', [], CVoid)]"

inductive baseType :: "string \<Rightarrow> Token list \<Rightarrow> BaseType \<times> string \<Rightarrow> bool" where
  base_words: "(base, map tok_lexeme ts, b) \<in> set typeWords \<Longrightarrow> baseType base ts (b, [])"
| base_struct: "kindIs TIdentifier t \<Longrightarrow> baseType ''struct'' [t] (CStruct, tok_lexeme t)"
| base_typedef: "\<not> isBuiltinType base \<Longrightarrow> base \<noteq> ''struct'' \<Longrightarrow> baseType base [] (CTypedefName, base)"

definition typeName :: "Token list \<Rightarrow> CType \<Rightarrow> bool" where
  "typeName ts ty \<longleftrightarrow> (\<exists>qs t us. ts = qs @ t # us \<and>
     list_all (\<lambda>q. kindIs TIdentifier q \<and> isQualifier (tok_lexeme q)) qs \<and> kindIs TIdentifier t \<and>
     baseType (tok_lexeme t) us (ctype_base ty, ctype_name ty) \<and>
     (ctype_isConst ty \<longleftrightarrow> (\<exists>q \<in> set qs. lexemeIs ''const'' q)) \<and>
     (ctype_isVolatile ty \<longleftrightarrow> (\<exists>q \<in> set qs. lexemeIs ''volatile'' q)))"

inductive arraySuffix :: "Token list \<Rightarrow> size_t option \<Rightarrow> bool" where
  no_array: "arraySuffix [] None"
| array: "kindIs TLBracket l \<Longrightarrow> kindIs TInteger i \<Longrightarrow> parseArrayCount (tok_lexeme i) = Some n \<Longrightarrow> kindIs TRBracket r \<Longrightarrow>
    arraySuffix [l, i, r] (Some n)"

definition declarator :: "Token list \<Rightarrow> Declarator \<Rightarrow> bool" where
  "declarator ts d \<longleftrightarrow> (\<exists>stars t us. ts = stars @ t # us \<and> list_all (lexemeIs ''*'') stars \<and>
     length stars = decl_pointerDepth d \<and> kindIs TIdentifier t \<and> tok_lexeme t = decl_name d \<and> arraySuffix us (decl_arrayCount d))"

section \<open>Expressions\<close>

inductive primaryE :: "Token list \<Rightarrow> Expr \<Rightarrow> bool"
  and postfixE :: "Token list \<Rightarrow> Expr \<Rightarrow> bool"
  and argumentsE :: "Token list \<Rightarrow> Expr list \<Rightarrow> bool"
  and unaryE :: "Token list \<Rightarrow> Expr \<Rightarrow> bool"
  and castE :: "Token list \<Rightarrow> Expr \<Rightarrow> bool"
  and binaryE :: "int \<Rightarrow> Token list \<Rightarrow> Expr \<Rightarrow> bool"
  and conditionalE :: "Token list \<Rightarrow> Expr \<Rightarrow> bool"
  and expressionE :: "Token list \<Rightarrow> Expr \<Rightarrow> bool"
where
  name: "kindIs TIdentifier t \<Longrightarrow> tok_lexeme t \<noteq> ''sizeof'' \<Longrightarrow> primaryE [t] (IdentifierExpr (tok_lexeme t) r)"
| sizeof_type: "kindIs TIdentifier t \<Longrightarrow> lexemeIs ''sizeof'' t \<Longrightarrow> kindIs TLParen l \<Longrightarrow> typeName ts ty \<Longrightarrow> kindIs TRParen c \<Longrightarrow>
    primaryE (t # l # ts @ [c]) (SizeofExpr (Some ty) [] r)"
| sizeof_name: "kindIs TIdentifier t \<Longrightarrow> lexemeIs ''sizeof'' t \<Longrightarrow> kindIs TLParen l \<Longrightarrow> kindIs TIdentifier n \<Longrightarrow> kindIs TRParen c \<Longrightarrow>
    primaryE [t, l, n, c] (SizeofExpr None (tok_lexeme n) r)"
| integer: "kindIs TInteger t \<Longrightarrow> primaryE [t] (IntegerLiteralExpr (tok_lexeme t) r)"
| float: "kindIs TFloat t \<Longrightarrow> primaryE [t] (FloatLiteralExpr (tok_lexeme t) r)"
| string: "kindIs TString t \<Longrightarrow> primaryE [t] (StringLiteralExpr (tok_lexeme t) r)"
| character: "kindIs TCharacter t \<Longrightarrow> primaryE [t] (CharLiteralExpr (tok_lexeme t) r)"
| paren: "kindIs TLParen l \<Longrightarrow> newlines nl \<Longrightarrow> expressionE ts e \<Longrightarrow> kindIs TRParen c \<Longrightarrow> primaryE (l # nl @ ts @ [c]) e"
| primary: "primaryE ts e \<Longrightarrow> postfixE ts e"
| index: "postfixE ts e \<Longrightarrow> kindIs TLBracket l \<Longrightarrow> expressionE us i \<Longrightarrow> kindIs TRBracket c \<Longrightarrow>
    postfixE (ts @ l # us @ [c]) (IndexExpr e i r)"
| call_none: "postfixE ts e \<Longrightarrow> kindIs TLParen l \<Longrightarrow> newlines nl \<Longrightarrow> kindIs TRParen c \<Longrightarrow>
    postfixE (ts @ l # nl @ [c]) (CallExpr e [] r)"
| call: "postfixE ts e \<Longrightarrow> kindIs TLParen l \<Longrightarrow> newlines nl \<Longrightarrow> argumentsE us es \<Longrightarrow> kindIs TRParen c \<Longrightarrow>
    postfixE (ts @ l # nl @ us @ [c]) (CallExpr e es r)"
| member: "postfixE ts e \<Longrightarrow> kindIs TDot d \<or> lexemeIs ''->'' d \<Longrightarrow> kindIs TIdentifier m \<Longrightarrow>
    postfixE (ts @ [d, m]) (MemberExpr e (tok_lexeme m) (lexemeIs ''->'' d) r)"
| argument: "expressionE ts e \<Longrightarrow> newlines nl \<Longrightarrow> argumentsE (ts @ nl) [e]"
| arguments: "argumentsE us es \<Longrightarrow> kindIs TComma c \<Longrightarrow> newlines nl \<Longrightarrow> expressionE ts e \<Longrightarrow> newlines nl' \<Longrightarrow>
    argumentsE (us @ c # nl @ ts @ nl') (es @ [e])"
| postfix: "postfixE ts e \<Longrightarrow> unaryE ts e"
| unary: "kindIs TOperator t \<Longrightarrow> isUnaryOperator (tok_lexeme t) \<Longrightarrow> unaryE ts e \<Longrightarrow> unaryE (t # ts) (UnaryExpr (tok_lexeme t) e r)"
| uncast: "unaryE ts e \<Longrightarrow> castE ts e"
| cast: "kindIs TLParen l \<Longrightarrow> typeName ts ty \<Longrightarrow> list_all (lexemeIs ''*'') stars \<Longrightarrow> kindIs TRParen c \<Longrightarrow> castE us e \<Longrightarrow>
    castE (l # ts @ stars @ c # us) (CastExpr ty (length stars) e r)"
| operand: "castE ts e \<Longrightarrow> binaryE m ts e"
| binary: "binaryE p ts a \<Longrightarrow> kindIs TOperator t \<Longrightarrow> binaryPrecedence (tok_lexeme t) = p \<Longrightarrow> m \<le> p \<Longrightarrow> 0 < p \<Longrightarrow>
    binaryE (p + 1) us b \<Longrightarrow> binaryE m (ts @ t # us) (BinaryExpr a (tok_lexeme t) b r)"
| unconditional: "binaryE 1 ts e \<Longrightarrow> conditionalE ts e"
| conditional: "binaryE 1 ts c \<Longrightarrow> kindIs TQuestion q \<Longrightarrow> expressionE us a \<Longrightarrow> kindIs TColon k \<Longrightarrow> conditionalE vs b \<Longrightarrow>
    conditionalE (ts @ q # us @ k # vs) (ConditionalExpr c a b r)"
| unassigned: "conditionalE ts e \<Longrightarrow> expressionE ts e"
| assignment: "conditionalE ts a \<Longrightarrow> kindIs TOperator t \<Longrightarrow> isAssignmentOperator (tok_lexeme t) \<Longrightarrow> expressionE us b \<Longrightarrow>
    expressionE (ts @ t # us) (AssignmentExpr a (tok_lexeme t) b r)"

lemma binaryE_lower: "binaryE p ts e \<Longrightarrow> m \<le> p \<Longrightarrow> binaryE m ts e"
  by (erule binaryE.cases) (auto intro: operand binary)

end
