(* ===== verification/CCompat_Sound.thy ===== *)
theory CCompat_Sound
  imports CCompat_Grammar
begin

text \<open>
  The parsing functions against the grammar: every function returns once its bound on the recursion depth
  is large enough for the tokens that remain, keeps the cursor inside the tokens, reports a diagnostic
  whenever it gives up, and, when it reports none, returns the tree of a derivation of exactly the tokens
  it has read.
\<close>

section \<open>Types and declarators\<close>

abbreviation reading :: "('a parsing) \<Rightarrow> (Token list \<Rightarrow> 'a \<Rightarrow> bool) \<Rightarrow> Parser \<Rightarrow> bool" where
  "reading m G p \<equiv> wp m (parsed False (\<lambda>ts x q. G ts x) p) p"

abbreviation readingMore :: "('a parsing) \<Rightarrow> (Token list \<Rightarrow> 'a \<Rightarrow> bool) \<Rightarrow> Parser \<Rightarrow> bool" where
  "readingMore m G p \<equiv> wp m (parsed True (\<lambda>ts x q. G ts x) p) p"

lemma wp_ret: "trace K ts p q \<Longrightarrow> (s \<Longrightarrow> cursor p < cursor q) \<Longrightarrow> (K \<Longrightarrow> G ts x q) \<Longrightarrow> wp (ret x) (parsed s G p) q"
  by (simp add: trace_ret)

lemma wp_reject: "trace K ts p q \<Longrightarrow> wp (reject msg) (parsed s G p) q"
  by (simp add: trace_error)

definition wordsRead :: "string list \<Rightarrow> Parser \<Rightarrow> Parser \<Rightarrow> bool" where
  "wordsRead ws p q \<longleftrightarrow> (\<exists>ts. trace (map tok_lexeme ts = ws) ts p q)"

lemma trace_weaken: "trace K ts p q \<Longrightarrow> (K \<Longrightarrow> L) \<Longrightarrow> trace L ts p q"
  by (auto simp: trace_def)

lemma wordsRead_none: "wellFormed p \<Longrightarrow> wordsRead [] p p"
  unfolding wordsRead_def by (rule exI [of _ "[]"]) (auto intro: trace_weaken [OF trace_start])

lemma wp_word:
  assumes "wordsRead ws p0 p" and "w \<noteq> []" and "\<And>q. wordsRead (ws @ [w]) p0 q \<Longrightarrow> wp m Q q" and "wp n Q p"
  shows "wp (whenLexeme w m n) Q p"
proof -
  obtain ts where t: "trace (map tok_lexeme ts = ws) ts p0 p" using assms(1) wordsRead_def by blast
  show ?thesis
  proof (rule wp_whenLexeme [OF t assms(2)])
    fix u q
    assume "trace (map tok_lexeme ts = ws \<and> lexemeIs w u) (ts @ [u]) p0 q"
    then have "wordsRead (ws @ [w]) p0 q" unfolding wordsRead_def by (auto intro!: exI [of _ "ts @ [u]"] elim!: trace_weaken)
    then show "wp m Q q" by (rule assms(3))
  qed (rule assms(4))
qed

lemma wp_base:
  "wordsRead ws p0 p \<Longrightarrow> (base, ws, b) \<in> set typeWords \<Longrightarrow> wp (ret (b, [])) (parsed False (\<lambda>ts x q. baseType base ts x) p0) p"
  by (auto simp: wordsRead_def intro!: trace_ret base_words)

lemma wp_no_base: "wordsRead ws p0 p \<Longrightarrow> wp (reject m) (parsed False G p0) p"
  by (auto simp: wordsRead_def intro: trace_error)

lemma parseBase_reads:
  assumes "wellFormed p"
  shows "reading (parseBase base) (baseType base) p"
proof -
  note t = trace_start [OF assms]
  note w = wordsRead_none [OF assms]
  consider "base = ''unsigned''" | "base = ''long''" | "base = ''struct''" | "base = ''signed''" | "base = ''short''"
    | "base \<in> {''char'', ''int'', ''float'', ''double'', ''void''}" | "\<not> isBuiltinType base" "base \<noteq> ''struct''"
    by (auto simp: isBuiltinType_def)
  then show ?thesis
  proof cases
    case 1
    have "parseBase base =
        whenLexeme ''char'' (ret (CUnsignedChar, []))
          (whenLexeme ''short'' (optionalLexeme ''int'' (ret (CUnsignedShort, [])))
            (whenLexeme ''int'' (ret (CUnsignedInt, []))
              (whenLexeme ''long''
                (whenLexeme ''long'' (optionalLexeme ''int'' (ret (CUnsignedLongLong, [])))
                  (optionalLexeme ''int'' (ret (CUnsignedLong, []))))
                (reject (''expected C integer type after '' @ quoted ''unsigned'')))))"
      by (simp add: parseBase_def 1)
    then show ?thesis unfolding 1 optionalLexeme_def using w
      by (simp only:) (rule wp_word wp_base wp_no_base | assumption | simp add: typeWords_def)+
  next
    case 2
    have "parseBase base = whenLexeme ''long'' (optionalLexeme ''int'' (ret (CLongLong, []))) (optionalLexeme ''int'' (ret (CLong, [])))"
      by (simp add: parseBase_def 2)
    then show ?thesis unfolding 2 optionalLexeme_def using w
      by (simp only:) (rule wp_word wp_base wp_no_base | assumption | simp add: typeWords_def)+
  next
    case 3
    show ?thesis unfolding 3
      by (simp add: parseBase_def trace_error [OF t]) (auto intro!: trace_ret [OF atKind_token [OF t]] base_struct)
  next
    case 4
    have "parseBase base = expectSecond base ''char'' (ret (CSignedChar, []))" by (simp add: parseBase_def 4)
    then show ?thesis unfolding 4 expectSecond_def using w
      by (simp only:) (rule wp_word wp_base wp_no_base | assumption | simp add: typeWords_def)+
  next
    case 5
    have "parseBase base = optionalLexeme ''int'' (ret (CShort, []))" by (simp add: parseBase_def 5)
    then show ?thesis unfolding 5 optionalLexeme_def using w
      by (simp only:) (rule wp_word wp_base wp_no_base | assumption | simp add: typeWords_def)+
  next
    case 6
    then obtain b where "parseBase base = ret (b, [])" "(base, [], b) \<in> set typeWords"
      by (auto simp: parseBase_def typeWords_def)
    then show ?thesis using wp_base [OF w] by (simp del: wp_simps)
  next
    case 7
    then have "parseBase base = ret (CTypedefName, base)" by (simp add: parseBase_def isBuiltinType_def)
    moreover have "reading (ret (CTypedefName, base)) (baseType base) p"
      by (rule wp_ret [OF t]) (use base_typedef [OF 7] in simp_all)
    ultimately show ?thesis by simp
  qed
qed

lemma while_qualifiers:
  assumes "wellFormed p"
  shows "\<exists>qs q ty. while_option (\<lambda>s. atQualifier (fst s)) readQualifier (p, ctype CInt) = Some (q, ty) \<and> eats qs p q \<and>
    list_all (\<lambda>t. kindIs TIdentifier t \<and> isQualifier (tok_lexeme t)) qs \<and>
    (ctype_isConst ty \<longleftrightarrow> (\<exists>t \<in> set qs. lexemeIs ''const'' t)) \<and> (ctype_isVolatile ty \<longleftrightarrow> (\<exists>t \<in> set qs. lexemeIs ''volatile'' t))"
proof -
  let ?g = "\<lambda>t ty. if lexemeIs ''const'' t then ty\<lparr>ctype_isConst := True\<rparr> else ty\<lparr>ctype_isVolatile := True\<rparr>"
  let ?C = "\<lambda>t. kindIs TIdentifier t \<and> isQualifier (tok_lexeme t)"
  have body: "readQualifier = (\<lambda>s. (bump (fst s), ?g (currentToken (fst s)) (snd s)))"
    by (simp add: readQualifier_def fun_eq_iff)
  have guard: "(\<lambda>s. atQualifier (fst s)) = (\<lambda>s. ?C (currentToken (fst s)))"
    by (simp add: atQualifier_def atKind_def fun_eq_iff)
  obtain qs q where q: "while_option (\<lambda>s. atQualifier (fst s)) readQualifier (p, ctype CInt) = Some (q, fold ?g qs (ctype CInt))"
    "eats qs p q" "list_all ?C qs"
    using while_tokens_fold [of p ?C ?g "ctype CInt"] assms unfolding body guard by (auto simp: wellFormed_def)
  have "ctype_isConst (fold ?g qs ty) \<longleftrightarrow> ctype_isConst ty \<or> (\<exists>t \<in> set qs. lexemeIs ''const'' t)"
    "ctype_isVolatile (fold ?g qs ty) \<longleftrightarrow> ctype_isVolatile ty \<or> (\<exists>t \<in> set qs. lexemeIs ''volatile'' t)" for ty :: CType
    using q(3) by (induction qs arbitrary: ty) (auto simp: isQualifier_def)
  then show ?thesis using q by (auto simp: ctype_def)
qed

lemma typeNameI:
  assumes "list_all (\<lambda>q. kindIs TIdentifier q \<and> isQualifier (tok_lexeme q)) qs" and "kindIs TIdentifier t"
    and "baseType (tok_lexeme t) us (ctype_base ty, ctype_name ty)"
    and "ctype_isConst ty \<longleftrightarrow> (\<exists>q \<in> set qs. lexemeIs ''const'' q)" and "ctype_isVolatile ty \<longleftrightarrow> (\<exists>q \<in> set qs. lexemeIs ''volatile'' q)"
  shows "typeName (qs @ t # us) ty"
  unfolding typeName_def using assms by blast

lemma parseType_reads:
  assumes "wellFormed p"
  shows "readingMore parseType typeName p"
proof -
  obtain qs q ty where q: "while_option (\<lambda>s. atQualifier (fst s)) readQualifier (p, ctype CInt) = Some (q, ty)" "eats qs p q"
    "list_all (\<lambda>t. kindIs TIdentifier t \<and> isQualifier (tok_lexeme t)) qs"
    "ctype_isConst ty \<longleftrightarrow> (\<exists>t \<in> set qs. lexemeIs ''const'' t)" "ctype_isVolatile ty \<longleftrightarrow> (\<exists>t \<in> set qs. lexemeIs ''volatile'' t)"
    using while_qualifiers [OF assms] by blast
  have t: "trace True qs p q" using q(2) by (simp add: trace_def eats_goes)
  let ?rest = "whenKind TIdentifier
      (andThen (parseBase (currentLexeme q)) (\<lambda>(base, name). inspect (\<lambda>r.
         ret (ty\<lparr>ctype_base := base, ctype_name := name, ctype_range := \<lparr>range_begin = here p, range_end = here r\<rparr>\<rparr>))))
      (reject ''expected C type'')"
  have "wp ?rest (parsed True (\<lambda>ts x q. typeName ts x) p) q"
  proof (rule wp_whenKind [OF t])
    fix u r
    assume u: "trace (True \<and> kindIs TIdentifier u) (qs @ [u]) p r" "goes q r" "cursor q < cursor r" "u = currentToken q"
    show "wp (andThen (parseBase (currentLexeme q)) (\<lambda>(base, name). inspect (\<lambda>r.
         ret (ty\<lparr>ctype_base := base, ctype_name := name, ctype_range := \<lparr>range_begin = here p, range_end = here r\<rparr>\<rparr>))))
       (parsed True (\<lambda>ts x q. typeName ts x) p) r"
    proof (rule wp_call [OF u(1) parseBase_reads [OF trace_wellFormed [OF u(1)]]])
      fix us bn r'
      assume r': "trace ((True \<and> kindIs TIdentifier u) \<and> baseType (currentLexeme q) us bn) ((qs @ [u]) @ us) p r'" "goes r r'"
      have "cursor p < cursor r'" using q(2) u(3) r'(2) by (auto simp: eats_def goes_def)
      then show "wp ((\<lambda>(base, name). inspect (\<lambda>r.
         ret (ty\<lparr>ctype_base := base, ctype_name := name, ctype_range := \<lparr>range_begin = here p, range_end = here r\<rparr>\<rparr>))) bn)
         (parsed True (\<lambda>ts x q. typeName ts x) p) r'"
        using u(4) q(4,5) by (cases bn) (simp, rule trace_ret [OF r'(1)], simp_all add: typeNameI [OF q(3)])
    qed
  qed (simp_all add: trace_error [OF t])
  then show ?thesis using q(1) by (simp add: parseType_def wp_def inspect_def)
qed

lemma wp_readPointers:
  assumes "trace K ts p0 p"
    and "\<And>stars q. trace (K \<and> list_all (lexemeIs ''*'') stars) (ts @ stars) p0 q \<Longrightarrow> goes p q \<Longrightarrow> wp (f (length stars)) Q q"
  shows "wp (readPointers f) Q p"
proof -
  have wf: "wellFormed p" by (rule trace_wellFormed [OF assms(1)])
  have count: "fold (\<lambda>_. Suc) ts n = n + length ts" for ts :: "Token list" and n :: nat
    by (induction ts arbitrary: n) auto
  obtain stars q where q: "while_option (\<lambda>s. atLexeme ''*'' (fst s)) (\<lambda>s. (bump (fst s), snd s + 1)) (p, 0 :: nat) =
      Some (q, length stars)" "eats stars p q" "list_all (lexemeIs ''*'') stars"
    using while_tokens_fold [of p "lexemeIs ''*''" "\<lambda>_ n. n + 1" "0 :: nat"] wf
    by (auto simp: wellFormed_def atLexeme_def count)
  then have "trace (K \<and> list_all (lexemeIs ''*'') stars) (ts @ stars) p0 q"
    using trace_eats [OF assms(1) eats_goes [OF q(2)]] by blast
  then have "wp (f (length stars)) Q q" using assms(2) eats_goes [OF q(2)] by blast
  then show ?thesis using q(1) by (simp add: readPointers_def wp_def)
qed

lemma wp_bump:
  assumes "trace K ts p0 p" and "currentKind p \<noteq> TEnd"
    and "\<And>q. trace K (ts @ [currentToken p]) p0 q \<Longrightarrow> goes p q \<Longrightarrow> cursor p < cursor q \<Longrightarrow> wp m Q q"
  shows "wp (step bump m) Q p"
proof -
  have "eats [currentToken p] p (bump p)" using eats_bump trace_wellFormed assms(1,2) by blast
  then show ?thesis
    using assms(3) [OF trace_token [OF assms(1)]] assms(2) by (simp add: eats_def bump_def)
qed

lemma parseArraySuffix_reads:
  assumes "wellFormed p"
  shows "reading (parseArraySuffix allowArray) arraySuffix p"
  unfolding parseArraySuffix_def
proof (rule wp_whenKind [OF trace_start [OF assms]])
  fix l q
  assume l: "trace (True \<and> kindIs TLBracket l) ([] @ [l]) p q"
  show "wp (inspect (\<lambda>p.
          if \<not> allowArray then reject ''array declarator is not valid here''
          else if currentKind p \<noteq> TInteger then reject ''array declarator requires an integer element count''
          else case parseArrayCount (currentLexeme p) of
            None \<Rightarrow> reject ''array declarator requires a decimal integer element count''
          | Some count \<Rightarrow>
              step bump (andThen (expectKind TRBracket (quoted '']'' @ '' after array element count'')) (\<lambda>_.
                inspect (\<lambda>p. if atKind TLBracket p then reject ''multidimensional C arrays are not supported''
                             else ret (Some count)))))) (parsed False (\<lambda>ts x q. arraySuffix ts x) p) q"
  proof (cases "allowArray \<and> currentKind q = TInteger \<and> parseArrayCount (currentLexeme q) \<noteq> None")
    case True
    then obtain n where n: "allowArray" "currentKind q = TInteger" "parseArrayCount (currentLexeme q) = Some n" by auto
    have "wp (step bump (andThen (expectKind TRBracket (quoted '']'' @ '' after array element count'')) (\<lambda>_.
                inspect (\<lambda>p. if atKind TLBracket p then reject ''multidimensional C arrays are not supported''
                             else ret (Some n))))) (parsed False (\<lambda>ts x q. arraySuffix ts x) p) q"
    proof (rule wp_bump [OF l], simp add: n, rule wp_expect, assumption, simp)
      fix r c q'
      assume "trace ((True \<and> kindIs TLBracket l) \<and> kindIs TRBracket c) ((([] @ [l]) @ [currentToken q]) @ [c]) p q'"
      then show "wp (inspect (\<lambda>p. if atKind TLBracket p then reject ''multidimensional C arrays are not supported''
                             else ret (Some n))) (parsed False (\<lambda>ts x q. arraySuffix ts x) p) q'"
        using n by (auto intro!: trace_ret trace_error array)
    qed
    then show ?thesis using n by simp
  next
    case False
    then show ?thesis using trace_error [OF l] by (auto split: option.split)
  qed
qed (use trace_start [OF assms] in \<open>auto intro!: trace_ret no_array\<close>)

lemma parseDeclarator_reads:
  assumes "wellFormed p"
  shows "readingMore (parseDeclarator allowArray) declarator p"
  unfolding parseDeclarator_def
proof (rule wp_inspect, rule wp_readPointers [OF trace_start [OF assms]], rule wp_inspect)
  fix stars q
  assume t: "trace (True \<and> list_all (lexemeIs ''*'') stars) ([] @ stars) p q" and g: "goes p q"
  let ?rest = "step bump (andThen (parseArraySuffix allowArray) (\<lambda>count. inspect (\<lambda>r.
       ret \<lparr>decl_name = currentLexeme q, decl_pointerDepth = length stars, decl_arrayCount = count,
            decl_range = \<lparr>range_begin = here p, range_end = here r\<rparr>\<rparr>)))"
  have "wp ?rest (parsed True (\<lambda>ts x q. declarator ts x) p) q" if k: "currentKind q = TIdentifier"
  proof (rule wp_bump [OF t])
    fix r
    assume r: "trace (True \<and> list_all (lexemeIs ''*'') stars) (([] @ stars) @ [currentToken q]) p r" "goes q r" "cursor q < cursor r"
    show "wp (andThen (parseArraySuffix allowArray) (\<lambda>count. inspect (\<lambda>r.
       ret \<lparr>decl_name = currentLexeme q, decl_pointerDepth = length stars, decl_arrayCount = count,
            decl_range = \<lparr>range_begin = here p, range_end = here r\<rparr>\<rparr>))) (parsed True (\<lambda>ts x q. declarator ts x) p) r"
    proof (rule wp_call [OF r(1) parseArraySuffix_reads [OF trace_wellFormed [OF r(1)]]], rule wp_inspect, rule wp_ret, assumption)
      fix us n q'
      assume "goes r q'"
      then show "cursor p < cursor q'" using g r(3) by (auto simp: goes_def)
    qed (use k in \<open>auto simp: declarator_def\<close>)
  qed (simp add: k)
  then show "wp (if atKind TLParen q then reject ''parenthesized C declarators are not supported''
     else if currentKind q \<noteq> TIdentifier then reject ''expected identifier in C declarator'' else ?rest)
     (parsed True (\<lambda>ts x q. declarator ts x) p) q"
    using trace_error [OF t] by auto
qed

section \<open>Expressions\<close>

definition stopped :: "int \<Rightarrow> Parser \<Rightarrow> bool" where
  "stopped m q \<longleftrightarrow> \<not> (currentKind q = TOperator \<and> m \<le> binaryPrecedence (currentLexeme q))"

definition binaryRestE :: "int \<Rightarrow> Parser \<Rightarrow> Expr \<Rightarrow> Expr meaning" where
  "binaryRestE m p left ts x q \<longleftrightarrow> (\<forall>us k. binaryE k us left \<longrightarrow> m \<le> k \<longrightarrow>
     (currentKind p = TOperator \<longrightarrow> binaryPrecedence (currentLexeme p) \<le> k) \<longrightarrow> binaryE m (us @ ts) x \<and> stopped m q)"

definition argumentsBefore :: "Token list \<Rightarrow> Expr list \<Rightarrow> bool" where
  "argumentsBefore us es \<longleftrightarrow> us = [] \<and> es = [] \<or>
     (\<exists>vs c nl. us = vs @ c # nl \<and> argumentsE vs es \<and> kindIs TComma c \<and> newlines nl)"

definition argumentsRestE :: "Expr list \<Rightarrow> Token list \<Rightarrow> Expr list \<Rightarrow> bool" where
  "argumentsRestE es ts xs \<longleftrightarrow> (\<exists>vs c. ts = vs @ [c] \<and> kindIs TRParen c \<and> (\<forall>us. argumentsBefore us es \<longrightarrow> argumentsE (us @ vs) xs))"

definition postfixRestE :: "Expr \<Rightarrow> Token list \<Rightarrow> Expr \<Rightarrow> bool" where
  "postfixRestE e ts x \<longleftrightarrow> (\<forall>us. postfixE us e \<longrightarrow> postfixE (us @ ts) x)"

text \<open>The parsers of a record meet the grammar wherever the bound suffices for the tokens that remain.\<close>

definition ready :: "ExprParsers \<Rightarrow> nat \<Rightarrow> bool" where
  "ready ps k \<longleftrightarrow> (\<forall>p. wellFormed p \<longrightarrow>
     (8 * remaining p + 6 \<le> k \<longrightarrow> readingMore (expressionP ps) expressionE p) \<and>
     (8 * remaining p + 5 \<le> k \<longrightarrow> readingMore (conditionalP ps) conditionalE p) \<and>
     (8 * remaining p + 4 \<le> k \<longrightarrow> (\<forall>m. 0 < m \<and> m \<le> 11 \<longrightarrow>
        wp (binaryP ps m) (parsed True (\<lambda>ts e q. binaryE m ts e \<and> stopped m q) p) p)) \<and>
     (8 * remaining p \<le> k \<longrightarrow> (\<forall>m left. 0 < m \<longrightarrow> wp (binaryRestP ps m left) (parsed False (binaryRestE m p left) p) p)) \<and>
     (8 * remaining p + 3 \<le> k \<longrightarrow> readingMore (castP ps) castE p) \<and>
     (8 * remaining p + 2 \<le> k \<longrightarrow> readingMore (unaryP ps) unaryE p) \<and>
     (8 * remaining p + 7 \<le> k \<longrightarrow> (\<forall>es. readingMore (argumentsP ps es) (argumentsRestE es) p)) \<and>
     (8 * remaining p \<le> k \<longrightarrow> (\<forall>e. reading (postfixRestP ps e) (postfixRestE e) p)))"

lemma readyD:
  assumes "ready ps k" and "wellFormed p"
  shows "8 * remaining p + 6 \<le> k \<Longrightarrow> readingMore (expressionP ps) expressionE p"
    and "8 * remaining p + 5 \<le> k \<Longrightarrow> readingMore (conditionalP ps) conditionalE p"
    and "8 * remaining p + 4 \<le> k \<Longrightarrow> 0 < m \<Longrightarrow> m \<le> 11 \<Longrightarrow>
      wp (binaryP ps m) (parsed True (\<lambda>ts e q. binaryE m ts e \<and> stopped m q) p) p"
    and "8 * remaining p \<le> k \<Longrightarrow> 0 < m \<Longrightarrow> wp (binaryRestP ps m left) (parsed False (binaryRestE m p left) p) p"
    and "8 * remaining p + 3 \<le> k \<Longrightarrow> readingMore (castP ps) castE p"
    and "8 * remaining p + 2 \<le> k \<Longrightarrow> readingMore (unaryP ps) unaryE p"
    and "8 * remaining p + 7 \<le> k \<Longrightarrow> readingMore (argumentsP ps es) (argumentsRestE es) p"
    and "8 * remaining p \<le> k \<Longrightarrow> reading (postfixRestP ps e) (postfixRestE e) p"
  using assms unfolding ready_def by blast+

lemma remaining_pos: "wellFormed p \<Longrightarrow> 0 < remaining p"
  by (simp add: wellFormed_def remaining_def)

lemma remaining_step: "goes p q \<Longrightarrow> cursor p < cursor q \<Longrightarrow> 8 * remaining q + 8 \<le> 8 * remaining p"
  using goes_remaining_less [of p q] by simp

lemma parseAssignmentExpression_reads:
  assumes ps: "ready ps k" and p: "wellFormed p" and k: "8 * remaining p + 5 \<le> k"
  shows "readingMore (parseAssignmentExpression ps) expressionE p"
  unfolding parseAssignmentExpression_def
proof (rule wp_call [OF trace_start [OF p] readyD(2) [OF ps p k]], rule wp_inspect)
  fix us left q
  assume q: "trace (True \<and> conditionalE us left) ([] @ us) p q" "goes p q" "True \<Longrightarrow> cursor p < cursor q"
  let ?rest = "step bump (andThen (expressionP ps) (\<lambda>right.
    ret (AssignmentExpr left (currentLexeme q) right (spanning (exprStart left) right))))"
  have "wp ?rest (parsed True (\<lambda>ts x q. expressionE ts x) p) q"
    if op: "currentKind q = TOperator" "isAssignmentOperator (currentLexeme q)"
  proof (rule wp_bump [OF q(1)])
    fix r
    assume r: "trace (True \<and> conditionalE us left) (([] @ us) @ [currentToken q]) p r" "goes q r" "cursor q < cursor r"
    have small: "8 * remaining r + 6 \<le> k" using remaining_step [OF q(2)] q(3) goes_remaining [OF r(2)] k by simp
    show "wp (andThen (expressionP ps) (\<lambda>right.
      ret (AssignmentExpr left (currentLexeme q) right (spanning (exprStart left) right)))) (parsed True (\<lambda>ts x q. expressionE ts x) p) r"
    proof (rule wp_call [OF r(1) readyD(1) [OF ps trace_wellFormed [OF r(1)] small]], rule wp_ret, assumption)
      fix vs right q'
      assume "goes r q'"
      then show "cursor p < cursor q'" using q(3) r(3) by (auto simp: goes_def)
    qed (use op assignment in auto)
  qed (simp add: op)
  then show "wp (if currentKind q = TOperator \<and> isAssignmentOperator (currentLexeme q) then ?rest else ret left)
     (parsed True (\<lambda>ts x q. expressionE ts x) p) q"
    using q(3) by (auto intro!: trace_ret [OF q(1)] unassigned)
qed

lemma parseConditionalExpression_reads:
  assumes ps: "ready ps k" and p: "wellFormed p" and k: "8 * remaining p + 4 \<le> k"
  shows "readingMore (parseConditionalExpression ps) conditionalE p"
  unfolding parseConditionalExpression_def
proof (rule wp_call [OF trace_start [OF p] readyD(3) [OF ps p k]], simp, simp, rule wp_whenKind, assumption, simp)
  fix us c q t r
  assume q: "trace (True \<and> binaryE 1 us c \<and> stopped 1 q) ([] @ us) p q" "goes p q" "True \<Longrightarrow> cursor p < cursor q"
    and r: "trace ((True \<and> binaryE 1 us c \<and> stopped 1 q) \<and> kindIs TQuestion t) (([] @ us) @ [t]) p r" "goes q r" "cursor q < cursor r"
  have small: "8 * remaining r + 6 \<le> k" using remaining_step [OF q(2)] q(3) goes_remaining [OF r(2)] k by simp
  show "wp (andThen (expressionP ps) (\<lambda>thenExpr.
          andThen (expectKind TColon (quoted '':'' @ '' in conditional expression'')) (\<lambda>_.
            andThen (conditionalP ps) (\<lambda>elseExpr. ret (ConditionalExpr c thenExpr elseExpr noRange)))))
        (parsed True (\<lambda>ts x q. conditionalE ts x) p) r"
  proof (rule wp_call [OF r(1) readyD(1) [OF ps trace_wellFormed [OF r(1)] small]], rule wp_expect, assumption, simp)
    fix vs a q1 d q2
    assume q1: "goes r q1" and q2: "goes q1 q2" and t2: "trace ((((True \<and> binaryE 1 us c \<and> stopped 1 q) \<and> kindIs TQuestion t) \<and> expressionE vs a) \<and> kindIs TColon d)
        (((([] @ us) @ [t]) @ vs) @ [d]) p q2"
    have small2: "8 * remaining q2 + 5 \<le> k" using small goes_remaining [OF q1] goes_remaining [OF q2] by simp
    show "wp (andThen (conditionalP ps) (\<lambda>elseExpr. ret (ConditionalExpr c a elseExpr noRange)))
        (parsed True (\<lambda>ts x q. conditionalE ts x) p) q2"
    proof (rule wp_call [OF t2 readyD(2) [OF ps trace_wellFormed [OF t2] small2]], rule wp_ret, assumption)
      fix ws b q3
      assume "goes q2 q3"
      then show "cursor p < cursor q3" using q(3) r(3) q1 q2 by (auto simp: goes_def)
    qed (auto intro: conditional)
  qed
next
  fix us c q
  assume "trace (True \<and> binaryE 1 us c \<and> stopped 1 q) ([] @ us) p q" "True \<Longrightarrow> cursor p < cursor q"
  then show "wp (ret c) (parsed True (\<lambda>ts x q. conditionalE ts x) p) q"
    by (auto intro!: trace_ret unconditional)
qed

lemma binaryPrecedence_bounds: "binaryPrecedence op \<le> 10"
  by (simp add: binaryPrecedence_def)

lemma parseBinaryExpression_reads:
  assumes ps: "ready ps k" and p: "wellFormed p" and k: "8 * remaining p + 3 \<le> k" and m: "0 < m" "m \<le> 11"
  shows "wp (parseBinaryExpression ps m) (parsed True (\<lambda>ts e q. binaryE m ts e \<and> stopped m q) p) p"
  unfolding parseBinaryExpression_def
proof (rule wp_call [OF trace_start [OF p] readyD(5) [OF ps p k]])
  fix us e q
  assume q: "trace (True \<and> castE us e) ([] @ us) p q" "goes p q" "True \<Longrightarrow> cursor p < cursor q"
  have small: "8 * remaining q \<le> k" using goes_remaining [OF q(2)] k by simp
  show "wp (binaryRestP ps m e) (parsed True (\<lambda>ts e q. binaryE m ts e \<and> stopped m q) p) q"
  proof (rule wp_tail [OF q(1) readyD(4) [OF ps trace_wellFormed [OF q(1)] small m(1)]])
    fix vs x r
    assume "True \<and> castE us e" "binaryRestE m q e vs x r"
    then show "binaryE m (([] @ us) @ vs) x \<and> stopped m r"
      using m operand [of us e 11] binaryPrecedence_bounds [of "currentLexeme q"] by (auto simp: binaryRestE_def)
  qed (use q in simp)
qed

lemma binaryRest_reads:
  assumes ps: "ready ps k" and p: "wellFormed p" and k: "8 * remaining p \<le> k + 1" and m: "0 < m"
  shows "wp (binaryRest ps m left) (parsed False (binaryRestE m p left) p) p"
proof (cases "currentKind p = TOperator \<and> m \<le> binaryPrecedence (currentLexeme p)")
  case True
  let ?op = "currentLexeme p"
  let ?prec = "binaryPrecedence ?op"
  let ?new = "\<lambda>right. BinaryExpr left ?op right (spanning (exprStart left) right)"
  have "wp (step bump (andThen (binaryP ps (?prec + 1)) (\<lambda>right. binaryRestP ps m (?new right)))) (parsed False (binaryRestE m p left) p) p"
  proof (rule wp_bump [OF trace_start [OF p]])
    fix q
    assume q: "trace True ([] @ [currentToken p]) p q" "goes p q" "cursor p < cursor q"
    have small: "8 * remaining q + 4 \<le> k" using remaining_step [OF q(2,3)] k by simp
    show "wp (andThen (binaryP ps (?prec + 1)) (\<lambda>right. binaryRestP ps m (?new right))) (parsed False (binaryRestE m p left) p) q"
    proof (rule wp_call [OF q(1) readyD(3) [OF ps trace_wellFormed [OF q(1)] small]])
      fix us right r
      assume r: "trace (True \<and> binaryE (?prec + 1) us right \<and> stopped (?prec + 1) r) (([] @ [currentToken p]) @ us) p r" "goes q r"
      have small2: "8 * remaining r \<le> k" using goes_remaining [OF r(2)] small by simp
      show "wp (binaryRestP ps m (?new right)) (parsed False (binaryRestE m p left) p) r"
      proof (rule wp_tail [OF r(1) readyD(4) [OF ps trace_wellFormed [OF r(1)] small2 m]])
        fix vs x r'
        assume K: "True \<and> binaryE (?prec + 1) us right \<and> stopped (?prec + 1) r" and G: "binaryRestE m r (?new right) vs x r'"
        show "binaryRestE m p left ((([] @ [currentToken p]) @ us) @ vs) x r'"
          unfolding binaryRestE_def
        proof (intro allI impI)
          fix ws l
          assume l: "binaryE l ws left" "m \<le> l" "currentKind p = TOperator \<longrightarrow> ?prec \<le> l"
          have "binaryE ?prec (ws @ currentToken p # us) (?new right)"
            using binary [OF binaryE_lower [OF l(1), of ?prec] _ refl, of ?prec us right] True l(3) K m by simp
          moreover have "currentKind r = TOperator \<longrightarrow> binaryPrecedence (currentLexeme r) \<le> ?prec"
            using K by (auto simp: stopped_def)
          ultimately have "binaryE m ((ws @ currentToken p # us) @ vs) x \<and> stopped m r'"
            using G True unfolding binaryRestE_def by blast
          then show "binaryE m (ws @ (([] @ [currentToken p]) @ us) @ vs) x \<and> stopped m r'" by simp
        qed
      qed simp
    qed (use True m binaryPrecedence_bounds [of ?op] in auto)
  qed (use True in simp)
  then show ?thesis using True by (simp add: binaryRest_def Let_def)
next
  case False
  then have "binaryRestE m p left [] left p" using binaryE_lower unfolding binaryRestE_def stopped_def by simp
  then have "wp (ret left) (parsed False (binaryRestE m p left) p) p" by (intro wp_ret [OF trace_start [OF p]]) simp_all
  then show ?thesis using False by (auto simp: binaryRest_def Let_def)
qed

lemma looksLikeCast_returns:
  assumes "wellFormed p"
  shows "\<exists>b. looksLikeCast p = Some b \<and> (b \<longrightarrow> atKind TLParen p)"
proof -
  let ?far = "\<lambda>i. i + length (tokens p)"
  have last: "tok_kind (lookAhead (?far i) p) = TEnd" "tok_lexeme (lookAhead (?far i) p) = []" for i
    using assms last_conv_nth [of "tokens p"]
    by (cases "tokens p = []"; simp add: lookAhead_def wellFormed_def Let_def)+
  have "\<exists>i. while_option (\<lambda>i. kindAt p i = TIdentifier \<and> isQualifier (lexemeAt p i)) Suc 1 = Some i"
    using while_count [of 1 "?far 1" "\<lambda>i. kindAt p i = TIdentifier \<and> isQualifier (lexemeAt p i)"] last(1) [of 1]
    by (auto simp: kindAt_def)
  moreover have "\<exists>j. while_option (\<lambda>i. lexemeAt p i = ''*'') Suc i = Some j" for i
    using while_count [of i "?far i" "\<lambda>i. lexemeAt p i = ''*''"] last by (auto simp: lexemeAt_def)
  ultimately obtain i j where
    "while_option (\<lambda>i. kindAt p i = TIdentifier \<and> isQualifier (lexemeAt p i)) Suc 1 = Some i"
    "\<And>l. while_option (\<lambda>i. lexemeAt p i = ''*'') Suc l = Some (j l)" by metis
  then show ?thesis by (auto simp: looksLikeCast_def split: option.split)
qed

lemma parseCastExpression_reads:
  assumes ps: "ready ps k" and p: "wellFormed p" and k: "8 * remaining p + 2 \<le> k"
  shows "readingMore (parseCastExpression ps) castE p"
proof -
  obtain b where b: "looksLikeCast p = Some b" "b \<Longrightarrow> atKind TLParen p" using looksLikeCast_returns [OF p] by blast
  show ?thesis
  proof (cases b)
    case True
    let ?rest = "andThen parseType (\<lambda>type. readPointers (\<lambda>depth.
      andThen (expectKind TRParen (quoted '')'' @ '' after cast type'')) (\<lambda>_.
        andThen (castP ps) (\<lambda>operand. ret (CastExpr type depth operand (spanning (here p) operand))))))"
    have "wp (step bump ?rest) (parsed True (\<lambda>ts x q. castE ts x) p) p"
    proof (rule wp_bump [OF trace_start [OF p]])
      fix q
      assume q: "trace True ([] @ [currentToken p]) p q" "goes p q" "cursor p < cursor q"
      show "wp ?rest (parsed True (\<lambda>ts x q. castE ts x) p) q"
      proof (rule wp_call [OF q(1) parseType_reads [OF trace_wellFormed [OF q(1)]]], rule wp_readPointers, assumption,
          rule wp_expect, assumption, simp)
        fix us ty r1 stars r2 c r3
        assume g: "goes q r1" "goes r1 r2" "goes r2 r3" and
          t: "trace (((True \<and> typeName us ty) \<and> list_all (lexemeIs ''*'') stars) \<and> kindIs TRParen c)
            (((([] @ [currentToken p]) @ us) @ stars) @ [c]) p r3"
        have small: "8 * remaining r3 + 3 \<le> k"
          using remaining_step [OF q(2,3)] g [THEN goes_remaining] k by simp
        show "wp (andThen (castP ps) (\<lambda>operand. ret (CastExpr ty (length stars) operand (spanning (here p) operand))))
            (parsed True (\<lambda>ts x q. castE ts x) p) r3"
        proof (rule wp_call [OF t readyD(5) [OF ps trace_wellFormed [OF t] small]], rule wp_ret, assumption)
          fix vs e q'
          assume "goes r3 q'"
          then show "cursor p < cursor q'" using q(3) g by (auto simp: goes_def)
        qed (use b True in \<open>auto simp: atKind_def intro: cast\<close>)
      qed
    qed (use b True in \<open>simp add: atKind_def\<close>)
    then show ?thesis using b True by (simp add: parseCastExpression_def wp_def step_def)
  next
    case False
    have "readingMore (unaryP ps) castE p"
      by (rule wp_tail [OF trace_start [OF p] readyD(6) [OF ps p k]]) (auto intro: uncast)
    then show ?thesis using b False by (simp add: parseCastExpression_def wp_def)
  qed
qed

lemma parseSizeof_reads:
  assumes t: "trace (kindIs TIdentifier s \<and> lexemeIs ''sizeof'' s) [s] p q" and pq: "cursor p < cursor q"
  shows "wp (parseSizeof start) (parsed True (\<lambda>ts x q. primaryE ts x) p) q"
  unfolding parseSizeof_def
proof (rule wp_expect [OF t], simp, rule wp_inspect)
  fix l r
  assume r: "trace ((kindIs TIdentifier s \<and> lexemeIs ''sizeof'' s) \<and> kindIs TLParen l) ([s] @ [l]) p r" "goes q r"
  let ?type = "andThen parseType (\<lambda>type. andThen (expectKind TRParen (quoted '')'' @ '' after sizeof type'')) (\<lambda>_. inspect (\<lambda>q.
    ret (SizeofExpr (Some type) [] (upTo start q)))))"
  have type: "wp ?type (parsed True (\<lambda>ts x q. primaryE ts x) p) r"
  proof (rule wp_call [OF r(1) parseType_reads [OF trace_wellFormed [OF r(1)]]], rule wp_expect, assumption, simp,
      rule wp_inspect, rule wp_ret, assumption)
    fix us ty q1 c q2
    assume "goes r q1" "goes q1 q2"
    then show "cursor p < cursor q2" using pq r(2) by (auto simp: goes_def)
  qed (use sizeof_type in auto)
  let ?name = "step bump (andThen (expectKind TRParen (quoted '')'' @ '' after sizeof identifier'')) (\<lambda>_. inspect (\<lambda>q.
    ret (SizeofExpr None (currentLexeme r) (upTo start q)))))"
  have name: "wp ?name (parsed True (\<lambda>ts x q. primaryE ts x) p) r" if "currentKind r = TIdentifier"
  proof (rule wp_bump [OF r(1)], simp add: that, rule wp_expect, assumption, simp, rule wp_inspect, rule wp_ret, assumption)
    fix q1 c q2
    assume "goes r q1" "goes q1 q2"
    then show "cursor p < cursor q2" using pq r(2) by (auto simp: goes_def)
  qed (use that sizeof_name in auto)
  show "wp (if sizeofType r then ?type else if currentKind r \<noteq> TIdentifier then reject ''sizeof expects a C type or identifier'' else ?name)
     (parsed True (\<lambda>ts x q. primaryE ts x) p) r"
    using type name wp_reject [OF r(1)] by auto
qed

lemma parsePrimaryExpression_reads:
  assumes ps: "ready ps k" and p: "wellFormed p" and k: "8 * remaining p \<le> k + 2"
  shows "readingMore (parsePrimaryExpression ps) primaryE p"
proof -
  note t = trace_start [OF p]
  let ?token = "currentToken p"
  have lit: "wp (ret x) (parsed True (\<lambda>ts x q. primaryE ts x) p) q"
    if "trace (True \<and> kindIs kind u) ([] @ [u]) p q" "cursor p < cursor q" "kindIs kind u \<Longrightarrow> primaryE [u] x" for kind u q x
    using that by (auto intro: trace_ret)
  have paren: "wp (loop skipNewlines (andThen (expressionP ps) (\<lambda>e.
      andThen (expectKind TRParen (quoted '')'' @ '' after expression'')) (\<lambda>_. ret e)))) (parsed True (\<lambda>ts x q. primaryE ts x) p) q"
    if q: "trace (True \<and> kindIs TLParen u) ([] @ [u]) p q" "goes p q" "cursor p < cursor q" for u q
  proof (rule wp_skipNewlines [OF q(1)])
    fix nl r
    assume r: "trace ((True \<and> kindIs TLParen u) \<and> newlines nl) (([] @ [u]) @ nl) p r" "goes q r"
    have small: "8 * remaining r + 6 \<le> k" using remaining_step [OF q(2,3)] goes_remaining [OF r(2)] k by simp
    show "wp (andThen (expressionP ps) (\<lambda>e. andThen (expectKind TRParen (quoted '')'' @ '' after expression'')) (\<lambda>_. ret e)))
        (parsed True (\<lambda>ts x q. primaryE ts x) p) r"
    proof (rule wp_call [OF r(1) readyD(1) [OF ps trace_wellFormed [OF r(1)] small]], rule wp_expect, assumption, simp, rule wp_ret, assumption)
      fix us e q1 c q2
      assume "goes r q1" "goes q1 q2"
      then show "cursor p < cursor q2" using q(3) r(2) by (auto simp: goes_def)
    qed (use CCompat_Grammar.paren in auto)
  qed
  show ?thesis
    unfolding parsePrimaryExpression_def Let_def
  proof (rule wp_inspect, rule wp_whenKind [OF t], simp, goal_cases)
    case (1 u q)
    then have "trace (kindIs TIdentifier u \<and> lexemeIs ''sizeof'' u) [u] p q" if "tok_lexeme ?token = ''sizeof''"
      using that by (auto elim: trace_weaken)
    then show ?case using parseSizeof_reads [of u p q] 1 name [of u] by (auto intro!: trace_ret)
  next
    case 2
    show ?case
      by (rule wp_whenKind [OF t], simp, rule lit, assumption, assumption, simp add: integer,
        rule wp_whenKind [OF t], simp, rule lit, assumption, assumption, simp add: float,
        rule wp_whenKind [OF t], simp, rule lit, assumption, assumption, simp add: string,
        rule wp_whenKind [OF t], simp, rule lit, assumption, assumption, simp add: character,
        rule wp_whenKind [OF t], simp, rule paren, assumption, assumption, assumption, rule wp_reject [OF t])
  qed
qed

lemma argumentRest_reads:
  assumes ps: "ready ps k" and p: "wellFormed p" and k: "8 * remaining p + 6 \<le> k"
  shows "readingMore (argumentRest ps es) (argumentsRestE es) p"
proof (cases "atKind TEnd p")
  case True
  then show ?thesis using trace_error [OF trace_start [OF p]] by (simp add: argumentRest_def wp_def reject_def)
next
  case False
  let ?G = "parsed True (\<lambda>ts x q. argumentsRestE es ts x) p"
  have "wp (andThen (expressionP ps) (\<lambda>argument.
        loop skipNewlines (whenKind TRParen (ret (es @ [argument]))
          (andThen (expectKind TComma (quoted '','' @ '' between call arguments'')) (\<lambda>_.
            loop skipNewlines (argumentsP ps (es @ [argument]))))))) ?G p"
  proof (rule wp_call [OF trace_start [OF p] readyD(1) [OF ps p k]], rule wp_skipNewlines, assumption)
    fix us e q nl r
    assume q: "goes p q" "True \<Longrightarrow> cursor p < cursor q"
      and r: "trace ((True \<and> expressionE us e) \<and> newlines nl) (([] @ us) @ nl) p r" "goes q r"
    have grow: "argumentsE (ws @ us @ nl) (es @ [e])" if "argumentsBefore ws es" "expressionE us e" "newlines nl" for ws
      using that argument arguments by (auto simp: argumentsBefore_def)
    show "wp (whenKind TRParen (ret (es @ [e])) (andThen (expectKind TComma (quoted '','' @ '' between call arguments'')) (\<lambda>_.
            loop skipNewlines (argumentsP ps (es @ [e]))))) ?G r"
    proof (rule wp_whenKind [OF r(1)], simp)
      fix c s
      assume s: "trace (((True \<and> expressionE us e) \<and> newlines nl) \<and> kindIs TRParen c) ((([] @ us) @ nl) @ [c]) p s" "goes r s"
      show "wp (ret (es @ [e])) ?G s"
      proof (rule wp_ret [OF s(1)])
        show "cursor p < cursor s" using q r(2) s(2) by (auto simp: goes_def)
        show "argumentsRestE es ((([] @ us) @ nl) @ [c]) (es @ [e])"
          if "((True \<and> expressionE us e) \<and> newlines nl) \<and> kindIs TRParen c"
          using grow that unfolding argumentsRestE_def by (intro exI [of _ "us @ nl"] exI [of _ c]) simp
      qed
    next
      show "wp (andThen (expectKind TComma (quoted '','' @ '' between call arguments'')) (\<lambda>_.
            loop skipNewlines (argumentsP ps (es @ [e])))) ?G r"
      proof (rule wp_expect [OF r(1)], simp, rule wp_skipNewlines, assumption)
        fix c s nl' s'
        assume s: "goes r s" "goes s s'" and
          t: "trace ((((True \<and> expressionE us e) \<and> newlines nl) \<and> kindIs TComma c) \<and> newlines nl') (((([] @ us) @ nl) @ [c]) @ nl') p s'"
        have small: "8 * remaining s' + 7 \<le> k"
          using remaining_step [OF q(1)] q(2) goes_remaining [OF r(2)] s [THEN goes_remaining] k by simp
        show "wp (argumentsP ps (es @ [e])) ?G s'"
        proof (rule wp_tail [OF t readyD(7) [OF ps trace_wellFormed [OF t] small]])
          fix vs xs q'
          assume K: "(((True \<and> expressionE us e) \<and> newlines nl) \<and> kindIs TComma c) \<and> newlines nl'" and "argumentsRestE (es @ [e]) vs xs"
          then obtain vs' d where d: "vs = vs' @ [d]" "kindIs TRParen d" "\<And>ws. argumentsBefore ws (es @ [e]) \<Longrightarrow> argumentsE (ws @ vs') xs"
            by (auto simp: argumentsRestE_def)
          have "argumentsE (ws @ (us @ nl @ c # nl') @ vs') xs" if "argumentsBefore ws es" for ws
          proof -
            have "argumentsBefore ((ws @ us @ nl) @ c # nl') (es @ [e])"
              using grow [OF that] K unfolding argumentsBefore_def by blast
            then show ?thesis using d(3) [of "(ws @ us @ nl) @ c # nl'"] by simp
          qed
          then show "argumentsRestE es ((((([] @ us) @ nl) @ [c]) @ nl') @ vs) xs"
            using d(1,2) unfolding argumentsRestE_def by (intro exI [of _ "(us @ nl @ c # nl') @ vs'"] exI [of _ d]) simp
        qed (simp add: s)
      qed
    qed
  qed
  then show ?thesis using False by (simp add: argumentRest_def wp_def)
qed

lemma memberAccess_reads:
  assumes ps: "ready ps k" and t: "trace (kindIs TDot d \<or> lexemeIs ''->'' d) [d] p q" and k: "8 * remaining q \<le> k"
    and d: "tokens q ! (cursor q - 1) = d"
  shows "wp (memberAccess ps e) (parsed False (\<lambda>ts x q. postfixRestE e ts x) p) q"
proof (cases "currentKind q = TIdentifier")
  case False
  then show ?thesis using trace_error [OF t] by (simp add: memberAccess_def)
next
  case True
  have "wp (step bump (inspect (\<lambda>r. postfixRestP ps (MemberExpr e (currentLexeme q) (lexemeIs ''->'' d) (upTo (exprStart e) r)))))
      (parsed False (\<lambda>ts x q. postfixRestE e ts x) p) q"
  proof (rule wp_bump [OF t], simp add: True, rule wp_inspect)
    fix r
    assume r: "trace (kindIs TDot d \<or> lexemeIs ''->'' d) ([d] @ [currentToken q]) p r" "goes q r"
    have small: "8 * remaining r \<le> k" using goes_remaining [OF r(2)] k by simp
    show "wp (postfixRestP ps (MemberExpr e (currentLexeme q) (lexemeIs ''->'' d) (upTo (exprStart e) r)))
        (parsed False (\<lambda>ts x q. postfixRestE e ts x) p) r"
    proof (rule wp_tail [OF r(1) readyD(8) [OF ps trace_wellFormed [OF r(1)] small]])
      fix us x q'
      assume K: "kindIs TDot d \<or> lexemeIs ''->'' d" and G: "postfixRestE (MemberExpr e (currentLexeme q) (lexemeIs ''->'' d) (upTo (exprStart e) r)) us x"
      show "postfixRestE e (([d] @ [currentToken q]) @ us) x"
        using G member [OF _ K True] unfolding postfixRestE_def by fastforce
    qed simp
  qed
  then show ?thesis using True d by (simp add: memberAccess_def)
qed

lemma parseArgumentList_reads:
  assumes ps: "ready ps k" and p: "wellFormed p" and k: "8 * remaining p \<le> k + 1" and l: "atKind TLParen p"
  shows "wp (parseArgumentList ps) (parsed True (\<lambda>ts es q. \<exists>l nl us c. ts = l # nl @ us @ [c] \<and> kindIs TLParen l \<and> newlines nl \<and>
    kindIs TRParen c \<and> (us = [] \<and> es = [] \<or> argumentsE us es)) p) p" (is "wp _ ?G p")
proof -
  have "wp (whenKind TLParen (loop skipNewlines (whenKind TRParen (ret []) (argumentsP ps []))) (reject [])) ?G p"
  proof (rule wp_whenKind [OF trace_start [OF p]], simp)
    fix u q
    assume q: "trace (True \<and> kindIs TLParen u) ([] @ [u]) p q" "goes p q" "cursor p < cursor q"
    show "wp (loop skipNewlines (whenKind TRParen (ret []) (argumentsP ps []))) ?G q"
    proof (rule wp_skipNewlines [OF q(1)])
      fix nl r
      assume r: "trace ((True \<and> kindIs TLParen u) \<and> newlines nl) (([] @ [u]) @ nl) p r" "goes q r"
      have more: "cursor p < cursor r" using q(3) r(2) by (auto simp: goes_def)
      have small: "8 * remaining r + 7 \<le> k" using remaining_step [OF q(2,3)] goes_remaining [OF r(2)] k by simp
      show "wp (whenKind TRParen (ret []) (argumentsP ps [])) ?G r"
      proof (rule wp_whenKind [OF r(1)], simp)
        fix c s
        assume s: "trace (((True \<and> kindIs TLParen u) \<and> newlines nl) \<and> kindIs TRParen c) ((([] @ [u]) @ nl) @ [c]) p s" "goes r s"
        show "wp (ret []) ?G s" by (rule wp_ret [OF s(1)]) (use more s(2) in \<open>auto simp: goes_def\<close>)
      next
        show "wp (argumentsP ps []) ?G r"
        proof (rule wp_tail [OF r(1) readyD(7) [OF ps trace_wellFormed [OF r(1)] small]])
          fix vs es q'
          assume K: "(True \<and> kindIs TLParen u) \<and> newlines nl" and "argumentsRestE [] vs es"
          then obtain vs' c where "vs = vs' @ [c]" "kindIs TRParen c" "argumentsE vs' es"
            by (auto simp: argumentsRestE_def argumentsBefore_def)
          then show "\<exists>l nl' us c. (([] @ [u]) @ nl) @ vs = l # nl' @ us @ [c] \<and> kindIs TLParen l \<and> newlines nl' \<and>
              kindIs TRParen c \<and> (us = [] \<and> es = [] \<or> argumentsE us es)"
            using K by (intro exI [of _ u] exI [of _ nl] exI [of _ vs'] exI [of _ c]) simp
        qed (simp add: more)
      qed
    qed
  qed (simp add: l)
  then show ?thesis using l by (simp add: parseArgumentList_def openParen_def)
qed

lemma postfixRest_reads:
  assumes ps: "ready ps k" and p: "wellFormed p" and k: "8 * remaining p \<le> k + 1"
  shows "reading (postfixRest ps e) (postfixRestE e) p"
proof -
  let ?G = "parsed False (\<lambda>ts x q. postfixRestE e ts x) p"
  note t = trace_start [OF p]
  have rest: "wp (postfixRestP ps e') ?G q"
    if q: "trace K ts p q" "8 * remaining q \<le> k" and grow: "\<And>us. K \<Longrightarrow> postfixE us e \<Longrightarrow> postfixE (us @ ts) e'" for K ts q e'
    by (rule wp_tail [OF q(1) readyD(8) [OF ps trace_wellFormed [OF q(1)] q(2)]])
      (use grow in \<open>auto simp: postfixRestE_def append_assoc [symmetric] simp del: append_assoc\<close>)
  have index: "wp (andThen (expressionP ps) (\<lambda>i. andThen (expectKind TRBracket (quoted '']'' @ '' after subscript'')) (\<lambda>_. inspect (\<lambda>q.
      postfixRestP ps (IndexExpr e i (upTo (exprStart e) q)))))) ?G q"
    if q: "trace (True \<and> kindIs TLBracket l) ([] @ [l]) p q" "goes p q" "cursor p < cursor q" for l q
  proof -
    have small: "8 * remaining q + 6 \<le> k" using remaining_step [OF q(2,3)] k by simp
    show ?thesis
    proof (rule wp_call [OF q(1) readyD(1) [OF ps trace_wellFormed [OF q(1)] small]], rule wp_expect, assumption, simp,
        rule wp_inspect, rule rest, assumption)
      fix us i q1 c q2
      assume "goes q q1" "goes q1 q2"
      then show "8 * remaining q2 \<le> k" using small goes_remaining [of q q1] goes_remaining [of q1 q2] by simp
    qed (use CCompat_Grammar.index in auto)
  qed
  have call: "wp (andThen (parseArgumentList ps) (\<lambda>es. inspect (\<lambda>q. postfixRestP ps (CallExpr e es (upTo (exprStart e) q))))) ?G p"
    if l: "atKind TLParen p"
  proof (rule wp_call [OF t parseArgumentList_reads [OF ps p k l]], rule wp_inspect, rule rest, assumption)
    fix us es q
    assume "goes p q" "True \<Longrightarrow> cursor p < cursor q"
    then show "8 * remaining q \<le> k" using remaining_step [of p q] k by simp
  next
    fix us es q vs
    assume "True \<and> (\<exists>l nl us' c. us = l # nl @ us' @ [c] \<and> kindIs TLParen l \<and> newlines nl \<and> kindIs TRParen c \<and> (us' = [] \<and> es = [] \<or> argumentsE us' es))"
      and "postfixE vs e"
    then show "postfixE (vs @ [] @ us) (CallExpr e es (upTo (exprStart e) q))"
      using call_none [of vs e] CCompat_Grammar.call [of vs e] by auto
  qed
  have access: "wp (memberAccess ps e) ?G q"
    if "trace K [d] p q" "goes p q" "cursor p < cursor q" "q = bump p" "d = currentToken p" "K \<Longrightarrow> kindIs TDot d \<or> lexemeIs ''->'' d" for K d q
  proof (rule memberAccess_reads [OF ps])
    show "trace (kindIs TDot d \<or> lexemeIs ''->'' d) [d] p q" by (rule trace_weaken [OF that(1) that(6)])
    show "8 * remaining q \<le> k" using remaining_step [OF that(2,3)] k by simp
    show "tokens q ! (cursor q - 1) = d" using that(4,5) current_nth [OF p] by (simp add: bump_def)
  qed
  have fin: "wp (ret e) ?G p" by (rule wp_ret [OF t]) (auto simp: postfixRestE_def)
  show ?thesis
    unfolding postfixRest_def
  proof (rule wp_whenKind [OF t], simp, rule index, assumption, assumption, assumption, rule wp_inspect)
    have "wp (whenKind TDot (memberAccess ps e) (whenLexeme ''->'' (memberAccess ps e)
            (if atLexeme ''++'' p \<or> atLexeme ''--'' p
             then reject ''C increment and decrement expressions are outside the Standard 16.1 subset'' else ret e))) ?G p"
    proof (rule wp_whenKind [OF t], simp)
      show "wp (memberAccess ps e) ?G q"
        if "trace (True \<and> kindIs TDot d) ([] @ [d]) p q" "goes p q" "cursor p < cursor q" "q = bump p" "d = currentToken p" for d q
        using access [of _ d q] that by simp
      show "wp (whenLexeme ''->'' (memberAccess ps e) (if atLexeme ''++'' p \<or> atLexeme ''--'' p
             then reject ''C increment and decrement expressions are outside the Standard 16.1 subset'' else ret e)) ?G p"
      proof (rule wp_whenLexeme [OF t], simp)
        show "wp (memberAccess ps e) ?G q"
          if "trace (True \<and> lexemeIs ''->'' d) ([] @ [d]) p q" "goes p q" "cursor p < cursor q" "q = bump p" "d = currentToken p" for d q
          using access [of _ d q] that by simp
      qed (use fin trace_error [OF t] in auto)
    qed
    then show "wp (if atKind TLParen p then andThen (parseArgumentList ps) (\<lambda>arguments. inspect (\<lambda>q.
              postfixRestP ps (CallExpr e arguments (upTo (exprStart e) q))))
          else whenKind TDot (memberAccess ps e) (whenLexeme ''->'' (memberAccess ps e)
            (if atLexeme ''++'' p \<or> atLexeme ''--'' p
             then reject ''C increment and decrement expressions are outside the Standard 16.1 subset'' else ret e))) ?G p"
      using call by (simp del: wp_simps wp_andThen)
  qed
qed

lemma parseUnaryExpression_reads:
  assumes ps: "ready ps k" and p: "wellFormed p" and k: "8 * remaining p + 1 \<le> k"
  shows "readingMore (parseUnaryExpression ps) unaryE p"
  unfolding parseUnaryExpression_def
proof (rule wp_inspect)
  let ?op = "step bump (andThen (unaryP ps) (\<lambda>operand. ret (UnaryExpr (currentLexeme p) operand (spanning (here p) operand))))"
  have op: "wp ?op (parsed True (\<lambda>ts x q. unaryE ts x) p) p" if o: "currentKind p = TOperator" "isUnaryOperator (currentLexeme p)"
  proof (rule wp_bump [OF trace_start [OF p]])
    fix q
    assume q: "trace True ([] @ [currentToken p]) p q" "goes p q" "cursor p < cursor q"
    have small: "8 * remaining q + 2 \<le> k" using remaining_step [OF q(2,3)] k by simp
    show "wp (andThen (unaryP ps) (\<lambda>operand. ret (UnaryExpr (currentLexeme p) operand (spanning (here p) operand))))
        (parsed True (\<lambda>ts x q. unaryE ts x) p) q"
    proof (rule wp_call [OF q(1) readyD(6) [OF ps trace_wellFormed [OF q(1)] small]], rule wp_ret, assumption)
      fix us e r
      assume "goes q r"
      then show "cursor p < cursor r" using q(3) by (auto simp: goes_def)
    qed (use o unary in auto)
  qed (simp add: o)
  have postfix: "wp (parsePostfixExpression ps) (parsed True (\<lambda>ts x q. unaryE ts x) p) p"
    unfolding parsePostfixExpression_def
  proof (rule wp_call [OF trace_start [OF p] parsePrimaryExpression_reads [OF ps p]])
    show "8 * remaining p \<le> k + 2" using k by simp
    fix us e q
    assume q: "trace (True \<and> primaryE us e) ([] @ us) p q" "goes p q" "True \<Longrightarrow> cursor p < cursor q"
    have small: "8 * remaining q \<le> k" using goes_remaining [OF q(2)] k by simp
    show "wp (postfixRestP ps e) (parsed True (\<lambda>ts x q. unaryE ts x) p) q"
    proof (rule wp_tail [OF q(1) readyD(8) [OF ps trace_wellFormed [OF q(1)] small]])
      fix vs x r
      assume "True \<and> primaryE us e" "postfixRestE e vs x"
      then show "unaryE (([] @ us) @ vs) x" using primary [of us e] by (auto simp: postfixRestE_def intro: CCompat_Grammar.postfix)
    qed (use q in simp)
  qed
  show "wp (if currentKind p = TOperator \<and> isUnaryOperator (currentLexeme p) then ?op else parsePostfixExpression ps)
      (parsed True (\<lambda>ts x q. unaryE ts x) p) p"
    using op postfix by simp
qed

lemma ready_exprParsers: "ready (exprParsers k) k"
proof (induction k)
  case 0
  show ?case by (auto simp: ready_def dest!: remaining_pos)
next
  case (Suc k)
  show ?case
    unfolding ready_def
  proof (intro allI impI conjI; (elim conjE)?)
    fix p m es e left
    assume p: "wellFormed p"
    let ?k = "Suc k"
    show "readingMore (expressionP (exprParsers ?k)) expressionE p" if "8 * remaining p + 6 \<le> ?k"
      using parseAssignmentExpression_reads [OF Suc p] that by (simp add: Let_def)
    show "readingMore (conditionalP (exprParsers ?k)) conditionalE p" if "8 * remaining p + 5 \<le> ?k"
      using parseConditionalExpression_reads [OF Suc p] that by (simp add: Let_def)
    show "wp (binaryP (exprParsers ?k) m) (parsed True (\<lambda>ts e q. binaryE m ts e \<and> stopped m q) p) p"
      if "8 * remaining p + 4 \<le> ?k" "0 < m" "m \<le> 11"
      using parseBinaryExpression_reads [OF Suc p] that by (simp add: Let_def)
    show "wp (binaryRestP (exprParsers ?k) m left) (parsed False (binaryRestE m p left) p) p" if "8 * remaining p \<le> ?k" "0 < m"
      using binaryRest_reads [OF Suc p] that by (simp add: Let_def)
    show "readingMore (castP (exprParsers ?k)) castE p" if "8 * remaining p + 3 \<le> ?k"
      using parseCastExpression_reads [OF Suc p] that by (simp add: Let_def)
    show "readingMore (unaryP (exprParsers ?k)) unaryE p" if "8 * remaining p + 2 \<le> ?k"
      using parseUnaryExpression_reads [OF Suc p] that by (simp add: Let_def)
    show "readingMore (argumentsP (exprParsers ?k) es) (argumentsRestE es) p" if "8 * remaining p + 7 \<le> ?k"
      using argumentRest_reads [OF Suc p] that by (simp add: Let_def)
    show "reading (postfixRestP (exprParsers ?k) e) (postfixRestE e) p" if "8 * remaining p \<le> ?k"
      using postfixRest_reads [OF Suc p] that by (simp add: Let_def)
  qed
qed

lemma parseExpression_reads:
  "wellFormed p \<Longrightarrow> 8 * remaining p + 6 \<le> k \<Longrightarrow> readingMore (parseExpression k) expressionE p"
  unfolding parseExpression_def by (rule readyD(1) [OF ready_exprParsers])

end
