(* ===== verification/CCompat_GrammarStmt.thy ===== *)
theory CCompat_GrammarStmt
  imports CCompat_Sound
begin

text \<open>
  The grammar of the statements and declarations of the C compatibility front end.  A phrase is related to
  its tree and to the kind of the token that follows it, since a statement needs no terminator before a
  closing brace and at the end of the file.
\<close>

definition nextKind :: "Token list \<Rightarrow> TokenKind \<Rightarrow> TokenKind" where
  "nextKind ts k = (case ts of [] \<Rightarrow> k | t # _ \<Rightarrow> tok_kind t)"

inductive terminator :: "bool \<Rightarrow> Token list \<Rightarrow> TokenKind \<Rightarrow> bool" where
  semicolon: "kindIs TSemicolon t \<Longrightarrow> newlines nl \<Longrightarrow> terminator required (t # nl) k"
| line: "newlines nl \<Longrightarrow> nl \<noteq> [] \<Longrightarrow> terminator required nl k"
| none: "\<not> required \<or> k = TRBrace \<or> k = TEnd \<Longrightarrow> k \<noteq> TSemicolon \<Longrightarrow> k \<noteq> TNewline \<Longrightarrow> terminator required [] k"

inductive storageE :: "Token list \<Rightarrow> StorageClass \<Rightarrow> bool" where
  no_storage: "storageE [] NoStorage"
| static_storage: "lexemeIs ''static'' t \<Longrightarrow> storageE [t] StaticStorage"
| extern_storage: "lexemeIs ''extern'' t \<Longrightarrow> storageE [t] ExternStorage"

inductive initializerE :: "Token list \<Rightarrow> Expr option \<Rightarrow> bool" where
  no_initializer: "initializerE [] None"
| initializer: "lexemeIs ''='' t \<Longrightarrow> expressionE ts e \<Longrightarrow> initializerE (t # ts) (Some e)"

definition variableE :: "bool \<Rightarrow> Token list \<Rightarrow> TokenKind \<Rightarrow> VarDecl \<Rightarrow> bool" where
  "variableE required ts k v \<longleftrightarrow> (\<exists>ss us ds is es. ts = ss @ us @ ds @ is @ es \<and> storageE ss (var_storage v) \<and>
     typeName us (var_type v) \<and> declarator ds (var_declarator v) \<and> initializerE is (var_initializer v) \<and>
     terminator required es k)"

inductive optionalE :: "Token list \<Rightarrow> Expr option \<Rightarrow> bool" where
  no_expression: "optionalE [] None"
| some_expression: "expressionE ts e \<Longrightarrow> optionalE ts (Some e)"

inductive simpleE :: "bool \<Rightarrow> Token list \<Rightarrow> TokenKind \<Rightarrow> Stmt \<Rightarrow> bool" where
  local_variable: "variableE required ts k v \<Longrightarrow> simpleE required ts k (DeclStmt v r)"
| expression_statement: "expressionE ts e \<Longrightarrow> terminator required us k \<Longrightarrow> simpleE required (ts @ us) k (ExprStmt e r)"

inductive forInitE :: "Token list \<Rightarrow> Stmt option \<Rightarrow> bool" where
  no_init: "forInitE [] None"
| init: "simpleE False ts TSemicolon s \<Longrightarrow> forInitE ts (Some s)"

inductive statementE :: "Token list \<Rightarrow> TokenKind \<Rightarrow> Stmt \<Rightarrow> bool"
  and statementsE :: "Token list \<Rightarrow> TokenKind \<Rightarrow> Stmt list \<Rightarrow> bool"
  and elseE :: "Token list \<Rightarrow> TokenKind \<Rightarrow> Stmt option \<Rightarrow> bool"
where
  empty: "kindIs TSemicolon t \<or> kindIs TNewline t \<Longrightarrow> statementE [t] k (EmptyStmt r)"
| simple: "simpleE True ts k s \<Longrightarrow> statementE ts k s"
| block: "kindIs TLBrace l \<Longrightarrow> newlines nl \<Longrightarrow> statementsE ts TRBrace ss \<Longrightarrow> kindIs TRBrace c \<Longrightarrow>
    statementE (l # nl @ ts @ [c]) k (BlockStmt ss r)"
| if_statement: "lexemeIs ''if'' t \<Longrightarrow> kindIs TLParen l \<Longrightarrow> newlines n1 \<Longrightarrow> expressionE ts c \<Longrightarrow> kindIs TRParen d \<Longrightarrow> newlines n2 \<Longrightarrow>
    statementE us (nextKind (n3 @ vs) k) s \<Longrightarrow> newlines n3 \<Longrightarrow> elseE vs k e \<Longrightarrow>
    statementE (t # l # n1 @ ts @ d # n2 @ us @ n3 @ vs) k (IfStmt c s e r)"
| while_statement: "lexemeIs ''while'' t \<Longrightarrow> kindIs TLParen l \<Longrightarrow> newlines n1 \<Longrightarrow> expressionE ts c \<Longrightarrow> kindIs TRParen d \<Longrightarrow>
    newlines n2 \<Longrightarrow> statementE us k s \<Longrightarrow> statementE (t # l # n1 @ ts @ d # n2 @ us) k (WhileStmt c s r)"
| for_statement: "lexemeIs ''for'' t \<Longrightarrow> kindIs TLParen l \<Longrightarrow> newlines n1 \<Longrightarrow> forInitE is i \<Longrightarrow> kindIs TSemicolon a \<Longrightarrow> newlines n2 \<Longrightarrow>
    optionalE cs c \<Longrightarrow> kindIs TSemicolon b \<Longrightarrow> newlines n3 \<Longrightarrow> optionalE ps p \<Longrightarrow> kindIs TRParen d \<Longrightarrow> newlines n4 \<Longrightarrow> statementE us k s \<Longrightarrow>
    statementE (t # l # n1 @ is @ a # n2 @ cs @ b # n3 @ ps @ d # n4 @ us) k (ForStmt i c p s r)"
| return_statement: "lexemeIs ''return'' t \<Longrightarrow> optionalE ts e \<Longrightarrow> terminator True us k \<Longrightarrow> statementE (t # ts @ us) k (ReturnStmt e r)"
| break_statement: "lexemeIs ''break'' t \<Longrightarrow> terminator True us k \<Longrightarrow> statementE (t # us) k (BreakStmt r)"
| continue_statement: "lexemeIs ''continue'' t \<Longrightarrow> terminator True us k \<Longrightarrow> statementE (t # us) k (ContinueStmt r)"
| goto_statement: "lexemeIs ''goto'' t \<Longrightarrow> kindIs TIdentifier n \<Longrightarrow> terminator True us k \<Longrightarrow> statementE (t # n # us) k (GotoStmt (tok_lexeme n) r)"
| label_statement: "kindIs TIdentifier n \<Longrightarrow> kindIs TColon c \<Longrightarrow> newlines nl \<Longrightarrow> statementE us k s \<Longrightarrow>
    statementE (n # c # nl @ us) k (LabelStmt (tok_lexeme n) s r)"
| no_statements: "statementsE [] k []"
| statements: "statementE us (nextKind (nl @ ts) k) s \<Longrightarrow> newlines nl \<Longrightarrow> statementsE ts k ss \<Longrightarrow> statementsE (us @ nl @ ts) k (s # ss)"
| no_else: "elseE [] k None"
| else_branch: "lexemeIs ''else'' t \<Longrightarrow> newlines nl \<Longrightarrow> statementE us k s \<Longrightarrow> elseE (t # nl @ us) k (Some s)"

section \<open>Declarations\<close>

inductive parameterE :: "Token list \<Rightarrow> Parameter \<Rightarrow> bool" where
  void_marker: "lexemeIs ''void'' t \<Longrightarrow> param_isVoidMarker q \<Longrightarrow> ctype_base (param_type q) = CVoid \<Longrightarrow> parameterE [t] q"
| parameter: "typeName ts (param_type q) \<Longrightarrow> declarator us (param_declarator q) \<Longrightarrow> \<not> param_isVoidMarker q \<Longrightarrow> parameterE (ts @ us) q"

inductive parametersE :: "Token list \<Rightarrow> Parameter list \<Rightarrow> bool" where
  one_parameter: "parameterE ts q \<Longrightarrow> newlines nl \<Longrightarrow> parametersE (ts @ nl) [q]"
| more_parameters: "parameterE ts q \<Longrightarrow> newlines nl \<Longrightarrow> kindIs TComma c \<Longrightarrow> newlines nl' \<Longrightarrow> parametersE us qs \<Longrightarrow>
    parametersE (ts @ nl @ c # nl' @ us) (q # qs)"

text \<open>Only the first parameter can be the marker \<open>void\<close>.\<close>

definition parameterListE :: "Token list \<Rightarrow> Parameter list \<Rightarrow> bool" where
  "parameterListE ts qs \<longleftrightarrow> ts = [] \<and> qs = [] \<or> parametersE ts qs \<and> list_all (\<lambda>q. \<not> param_isVoidMarker q) (tl qs)"

inductive bodyE :: "Token list \<Rightarrow> TokenKind \<Rightarrow> Stmt option \<Rightarrow> bool" where
  definition_body: "statementE ts (nextKind us k) (BlockStmt ss r) \<Longrightarrow> terminator False us k \<Longrightarrow> bodyE (ts @ us) k (Some (BlockStmt ss r))"
| prototype: "terminator True us k \<Longrightarrow> bodyE us k None"

inductive fieldsE :: "Token list \<Rightarrow> TokenKind \<Rightarrow> FieldDecl list \<Rightarrow> bool" where
  no_fields: "fieldsE [] k []"
| more_fields: "typeName ts (field_type q) \<Longrightarrow> declarator us (field_declarator q) \<Longrightarrow> terminator True vs (nextKind fs k) \<Longrightarrow>
    fieldsE fs k qs \<Longrightarrow> fieldsE (ts @ us @ vs @ fs) k (q # qs)"

inductive declarationE :: "Token list \<Rightarrow> TokenKind \<Rightarrow> Decl \<Rightarrow> bool" where
  variable_declaration: "variableE True ts k v \<Longrightarrow> declarationE ts k (VarDeclaration v)"
| function_declaration: "storageE ss (fun_storage f) \<Longrightarrow> typeName ts (fun_returnType f) \<Longrightarrow> declarator ds (fun_declarator f) \<Longrightarrow>
    decl_arrayCount (fun_declarator f) = None \<Longrightarrow> kindIs TLParen l \<Longrightarrow> newlines n1 \<Longrightarrow>
    parameterListE us (fun_parameters f) \<Longrightarrow> kindIs TRParen c \<Longrightarrow> newlines n2 \<Longrightarrow> bodyE bs k (fun_body f) \<Longrightarrow>
    declarationE (ss @ ts @ ds @ l # n1 @ us @ c # n2 @ bs) k (FunctionDeclaration f)"
| struct_declaration: "lexemeIs ''struct'' t \<Longrightarrow> kindIs TIdentifier n \<Longrightarrow> kindIs TLBrace l \<Longrightarrow> newlines nl \<Longrightarrow> fieldsE fs TRBrace qs \<Longrightarrow> kindIs TRBrace c \<Longrightarrow>
    terminator False us k \<Longrightarrow> declarationE (t # n # l # nl @ fs @ c # us) k (StructDecl (tok_lexeme n) qs r)"
| typedef_declaration: "lexemeIs ''typedef'' t \<Longrightarrow> typeName ts ty \<Longrightarrow> declarator ds d \<Longrightarrow> terminator True us k \<Longrightarrow>
    declarationE (t # ts @ ds @ us) k (TypedefDecl ty d r)"

text \<open>The declarations of a file: separated by newlines and empty declarations, up to the token of kind \<open>k\<close>.\<close>

inductive unitE :: "Token list \<Rightarrow> TokenKind \<Rightarrow> Decl list \<Rightarrow> bool" where
  unit_end: "unitE [] k []"
| unit_empty: "kindIs TSemicolon t \<Longrightarrow> newlines nl \<Longrightarrow> unitE ts k ds \<Longrightarrow> unitE (t # nl @ ts) k ds"
| unit_declaration: "declarationE us (nextKind (nl @ ts) k) d \<Longrightarrow> newlines nl \<Longrightarrow> unitE ts k ds \<Longrightarrow> unitE (us @ nl @ ts) k (d # ds)"

end
