(* ===== verification/CCompat_SoundStmt.thy ===== *)
theory CCompat_SoundStmt
  imports CCompat_GrammarStmt
begin

text \<open>
  The parsing functions of statements against the grammar.  As for expressions, each function returns within
  a bound linear in the tokens that remain, reports a diagnostic whenever it gives up and otherwise returns the
  tree of the tokens it has read.
\<close>

section \<open>Rules for the calls of a statement\<close>

lemma wp_ret_eats:
  "trace K ts p q \<Longrightarrow> (s \<Longrightarrow> cursor p < cursor q) \<Longrightarrow> (K \<Longrightarrow> eats ts p q \<Longrightarrow> G ts x q) \<Longrightarrow> wp (ret x) (parsed s G p) q"
  by (auto simp: trace_def parsed_def)

lemma eats_next: "eats us q r \<Longrightarrow> wellFormed q \<Longrightarrow> currentKind q = nextKind us (currentKind r)"
  by (cases us) (auto simp: eats_def goes_def nextKind_def current_nth wellFormed_def Cons_nth_drop_Suc [symmetric])

lemma trace_next:
  assumes "trace K ts p q" and "goes q r" and "eats (ts @ us) p r"
  shows "currentKind q = nextKind us (currentKind r)"
proof -
  have "eats ts p q" using assms goes_clean [of p q r] by (auto simp: trace_def eats_def)
  then have "eats us q r" using assms(2,3) by (auto simp: eats_def goes_def)
  then show ?thesis by (rule eats_next) (rule trace_wellFormed [OF assms(1)])
qed

lemma wp_expression:
  assumes "trace K ts p0 p" and "8 * remaining p0 + 6 \<le> n"
    and "\<And>us e q. trace (K \<and> expressionE us e) (ts @ us) p0 q \<Longrightarrow> goes p q \<Longrightarrow> cursor p < cursor q \<Longrightarrow> wp (f e) (parsed t H p0) q"
  shows "wp (andThen (parseExpression n) f) (parsed t H p0) p"
proof (rule wp_call [OF assms(1) parseExpression_reads [OF trace_wellFormed [OF assms(1)]]])
  show "8 * remaining p + 6 \<le> n" using goes_remaining [OF trace_goes [OF assms(1)]] assms(2) by simp
qed (rule assms(3), simp_all)

lemma skip_first_newline: "atKind TNewline p \<Longrightarrow> skipNewlines p = skipNewlines (bump p)"
  unfolding skipNewlines_def by (subst while_option_unfold) simp

lemma consumeTerminator_reads:
  assumes p: "wellFormed p"
  shows "wp (consumeTerminator required) (parsed False (\<lambda>ts x q. terminator required ts (currentKind q)) p) p"
  unfolding consumeTerminator_def
proof (rule wp_whenKind [OF trace_start [OF p]], simp, rule wp_skipNewlines, assumption, rule wp_ret, assumption, simp)
  fix t q nl r
  assume "(True \<and> kindIs TSemicolon t) \<and> newlines nl"
  then show "terminator required (([] @ [t]) @ nl) (currentKind r)" by (simp add: semicolon)
next
  let ?G = "parsed False (\<lambda>ts x q. terminator required ts (currentKind q)) p"
  assume semi: "\<not> atKind TSemicolon p"
  show "wp (inspect (\<lambda>p. if atKind TNewline p then loop skipNewlines (ret ())
          else if \<not> required \<or> atKind TRBrace p \<or> atKind TEnd p then ret ()
          else reject (''expected '' @ quoted '';'' @ '' or newline after declaration or statement''))) ?G p"
  proof (rule wp_inspect, rule wp_if)
    assume nl: "atKind TNewline p"
    have "wp (step bump (loop skipNewlines (ret ()))) ?G p"
    proof (rule wp_bump [OF trace_start [OF p]], use nl in \<open>simp add: atKind_def\<close>, rule wp_skipNewlines, assumption, rule wp_ret, assumption, simp)
      fix q ts r
      assume "True \<and> newlines ts"
      then show "terminator required (([] @ [currentToken p]) @ ts) (currentKind r)"
        using nl by (auto intro!: line simp: newlines_def atKind_def)
    qed
    then show "wp (loop skipNewlines (ret ())) ?G p" using skip_first_newline [OF nl] by simp
  next
    assume "\<not> atKind TNewline p"
    then show "wp (if \<not> required \<or> atKind TRBrace p \<or> atKind TEnd p then ret ()
          else reject (''expected '' @ quoted '';'' @ '' or newline after declaration or statement'')) ?G p"
      using semi by (intro wp_if wp_reject [OF trace_start [OF p]] wp_ret [OF trace_start [OF p]])
        (auto intro!: terminator.none simp: atKind_def)
  qed
qed

lemma wp_terminator:
  assumes "trace K ts p0 p"
    and "\<And>us q. trace (K \<and> terminator required us (currentKind q)) (ts @ us) p0 q \<Longrightarrow> goes p q \<Longrightarrow> wp (f ()) (parsed t H p0) q"
  shows "wp (andThen (consumeTerminator required) f) (parsed t H p0) p"
  by (rule wp_call [OF assms(1) consumeTerminator_reads [OF trace_wellFormed [OF assms(1)]]]) (use assms(2) in simp)

lemma wp_advance:
  assumes "trace K ts p0 p" and "currentLexeme p \<noteq> []"
    and "\<And>q. trace K (ts @ [currentToken p]) p0 q \<Longrightarrow> goes p q \<Longrightarrow> cursor p < cursor q \<Longrightarrow> wp m Q q"
  shows "wp (step bump m) Q p"
proof -
  have "eats [currentToken p] p (bump p)" using eats_bump trace_wellFormed assms(1,2) by blast
  then show ?thesis
    using assms(3) [OF trace_token [OF assms(1)]] assms(2) by (simp add: eats_def bump_def)
qed

lemma goes_reported:
  assumes "goes p q"
  shows "parsed s G p (errorHere msg q) None"
proof -
  have e: "goes q (errorHere msg q)" by (rule goes_error [OF goes_wellFormed [OF assms]])
  then have "parseDiagnostics (errorHere msg q) \<noteq> parseDiagnostics p"
    using goes_clean [OF assms e] error_reported [of msg q] by metis
  then show ?thesis using goes_trans [OF assms e] by (simp add: parsed_def)
qed

lemma wp_keyword:
  assumes "trace K ts p0 p" and "atLexeme s p" and "s \<noteq> []"
    and "\<And>u q. trace (K \<and> lexemeIs s u) (ts @ [u]) p0 q \<Longrightarrow> goes p q \<Longrightarrow> cursor p < cursor q \<Longrightarrow> wp m Q q"
  shows "wp (step (skipLexeme s) m) Q p"
proof -
  have "wp (whenLexeme s m m) Q p"
    by (rule wp_whenLexeme [OF assms(1) assms(3)]) (use assms(2,4) in simp_all)
  then show ?thesis using assms(2) by (simp add: skipLexeme_def)
qed

lemma wp_optionally:
  assumes "trace K ts p0 p" and "8 * remaining p0 + 6 \<le> n"
    and "\<And>us e q. trace (K \<and> optionalE us e) (ts @ us) p0 q \<Longrightarrow> goes p q \<Longrightarrow> wp (f e) (parsed t H p0) q"
  shows "wp (andThen (optionally c (parseExpression n)) f) (parsed t H p0) p"
proof (cases c)
  case True
  have "wp (andThen (parseExpression n) (\<lambda>e. f (Some e))) (parsed t H p0) p"
  proof (rule wp_expression [OF assms(1,2)])
    fix us e q
    assume q: "trace (K \<and> expressionE us e) (ts @ us) p0 q" "goes p q"
    then have "trace (K \<and> optionalE us (Some e)) (ts @ us) p0 q" by (auto elim!: trace_weaken intro: some_expression)
    then show "wp (f (Some e)) (parsed t H p0) q" using assms(3) q(2) by blast
  qed
  then show ?thesis using True by (simp add: optionally_def andThen_ret del: wp_andThen)
next
  case False
  have "trace (K \<and> optionalE [] None) (ts @ []) p0 p" using assms(1) by (simp add: no_expression)
  then have "wp (f None) (parsed t H p0) p" using assms(3) [of "[]" None p] trace_wellFormed [OF assms(1)] by simp
  then show ?thesis using False by (simp add: optionally_def)
qed

lemma wp_parenthesised:
  assumes t: "trace K ts p0 p" and s: "atLexeme s p" "s \<noteq> []" and n: "8 * remaining p0 + 6 \<le> n"
    and cont: "\<And>u l n1 us c d n2 q. trace (K \<and> lexemeIs s u \<and> kindIs TLParen l \<and> newlines n1 \<and> expressionE us c \<and> kindIs TRParen d \<and> newlines n2)
        (ts @ u # l # n1 @ us @ d # n2) p0 q \<Longrightarrow> goes p q \<Longrightarrow> cursor p < cursor q \<Longrightarrow> wp (f c) (parsed b H p0) q"
  shows "wp (parenthesised s n f) (parsed b H p0) p"
  unfolding parenthesised_def
proof (rule wp_keyword [OF t s], rule wp_expect, assumption, simp, rule wp_skipNewlines, assumption,
    rule wp_expression, assumption, rule n, rule wp_expect, assumption, simp, rule wp_skipNewlines, assumption)
  fix u q1 l q2 n1 q3 us c q4 d q5 n2 q
  assume g: "goes p q1" "cursor p < cursor q1" "goes q1 q2" "goes q2 q3" "goes q3 q4" "goes q4 q5" "goes q5 q"
    and tr: "trace ((((((K \<and> lexemeIs s u) \<and> kindIs TLParen l) \<and> newlines n1) \<and> expressionE us c) \<and> kindIs TRParen d) \<and> newlines n2)
      ((((((ts @ [u]) @ [l]) @ n1) @ us) @ [d]) @ n2) p0 q"
  have "goes p q" "cursor p < cursor q" using g by (blast intro: goes_trans, auto simp: goes_def)
  then show "wp (f c) (parsed b H p0) q" using tr by (intro cont [of u l n1 us c d n2]) (simp_all add: conj_assoc)
qed

section \<open>Declarations in statements\<close>

lemma wp_readStorage:
  assumes t: "trace K ts p0 p"
    and cont: "\<And>us st q. trace (K \<and> storageE us st) (ts @ us) p0 q \<Longrightarrow> goes p q \<Longrightarrow> wp (f st) Q q"
  shows "wp (readStorage f) Q p"
proof (cases "isStorageClass p")
  case True
  let ?st = "if atLexeme ''static'' p then StaticStorage else ExternStorage"
  have "wp (step bump (f ?st)) Q p"
  proof (rule wp_advance [OF t])
    show "currentLexeme p \<noteq> []" using True by (auto simp: isStorageClass_def atLexeme_def)
    fix q
    assume q: "trace K (ts @ [currentToken p]) p0 q" "goes p q"
    have "storageE [currentToken p] ?st"
      using True static_storage [of "currentToken p"] extern_storage [of "currentToken p"] by (auto simp: isStorageClass_def atLexeme_def)
    then have "trace (K \<and> storageE [currentToken p] ?st) (ts @ [currentToken p]) p0 q" using q(1) by (auto elim: trace_weaken)
    then show "wp (f ?st) Q q" by (rule cont) (rule q(2))
  qed
  then show ?thesis using True by (simp add: readStorage_def)
next
  case False
  have "trace (K \<and> storageE [] NoStorage) (ts @ []) p0 p" using t by (auto elim: trace_weaken intro: no_storage)
  then show ?thesis using False cont [of "[]" NoStorage p] trace_wellFormed [OF t] by (simp add: readStorage_def)
qed

definition variableRestE :: "bool \<Rightarrow> StorageClass \<Rightarrow> CType \<Rightarrow> Declarator \<Rightarrow> VarDecl meaning" where
  "variableRestE required st ty d ts v q \<longleftrightarrow> var_storage v = st \<and> var_type v = ty \<and> var_declarator v = d \<and>
     (\<exists>is es. ts = is @ es \<and> initializerE is (var_initializer v) \<and> terminator required es (currentKind q))"

lemma parseVariableAfterPrefix_reads:
  assumes p: "wellFormed p" and n: "8 * remaining p + 6 \<le> n"
  shows "wp (parseVariableAfterPrefix n st ty d required) (parsed False (variableRestE required st ty d) p) p"
proof -
  let ?v = "\<lambda>e q. \<lparr>var_storage = st, var_type = ty, var_declarator = d, var_initializer = e, var_range = upTo (range_begin (ctype_range ty)) q\<rparr>"
  let ?rest = "\<lambda>e. andThen (consumeTerminator required) (\<lambda>_. inspect (\<lambda>q. ret (?v e q)))"
  have rest: "wp (?rest e) (parsed False (variableRestE required st ty d) p) q"
    if q: "trace K is p q" "K \<Longrightarrow> initializerE is e" for K "is" e q
  proof (rule wp_terminator [OF q(1)], rule wp_inspect, rule wp_ret, assumption, simp)
    fix es r
    assume "K \<and> terminator required es (currentKind r)"
    then show "variableRestE required st ty d (is @ es) (?v e r) r" using q(2) by (auto simp: variableRestE_def)
  qed
  have "wp (whenLexeme ''='' (andThen (parseExpression n) (\<lambda>e. ?rest (Some e))) (?rest None)) (parsed False (variableRestE required st ty d) p) p"
  proof (rule wp_whenLexeme [OF trace_start [OF p]], simp, rule wp_expression, assumption, rule n, rule rest, assumption)
    show "wp (?rest None) (parsed False (variableRestE required st ty d) p) p"
      by (rule rest [OF trace_start [OF p]]) (rule no_initializer)
  qed (auto intro: initializer)
  moreover have "parseVariableAfterPrefix n st ty d required = whenLexeme ''='' (andThen (parseExpression n) (\<lambda>e. ?rest (Some e))) (?rest None)"
    by (auto simp: parseVariableAfterPrefix_def whenLexeme_def andThen_def ret_def fun_eq_iff split: option.splits)
  ultimately show ?thesis by simp
qed

lemma wp_local_declarator:
  assumes t: "trace K ts p0 p"
    and cont: "\<And>us d q. trace (K \<and> declarator us d) (ts @ us) p0 q \<Longrightarrow> goes p q \<Longrightarrow> cursor p < cursor q \<Longrightarrow> wp (g d) (parsed s H p0) q"
  shows "wp (\<lambda>p. case parseDeclarator True p of
         None \<Rightarrow> None
       | Some (p, r) \<Rightarrow> if atKind TLParen p then reject msg p else (case r of None \<Rightarrow> nullptr p | Some d \<Rightarrow> g d p)) (parsed s H p0) p"
proof -
  obtain q r where q: "parseDeclarator True p = Some (q, r)" and r: "parsed True (\<lambda>ts x q. declarator ts x) p q r"
    using parseDeclarator_reads [OF trace_wellFormed [OF t]] unfolding wp_def by blast
  consider "atKind TLParen q" | "\<not> atKind TLParen q" "r = None" | d where "\<not> atKind TLParen q" "r = Some d" by (cases r) auto
  then show ?thesis
  proof cases
    case 1
    have "goes p0 q" using r trace_goes [OF t] by (auto simp: parsed_def intro: goes_trans)
    then show ?thesis using q 1 goes_reported [of p0 q s H msg] by (simp add: wp_def reject_def)
  next
    case 2
    then show ?thesis using q r trace_null [OF t] by (auto simp: wp_def nullptr_def)
  next
    case 3
    obtain us where "goes p q" "cursor p < cursor q" "trace (K \<and> declarator us d) (ts @ us) p0 q"
      using trace_some [OF t, of True "\<lambda>ts x q. declarator ts x" q d] r 3 by auto
    then show ?thesis using cont [of us d q] q 3 by (simp add: wp_def)
  qed
qed

lemma parseLocalDeclaration_reads:
  assumes p: "wellFormed p" and n: "8 * remaining p + 6 \<le> n"
  shows "wp (parseLocalDeclaration n required) (parsed True (\<lambda>ts s q. simpleE required ts (currentKind q) s) p) p"
proof -
  let ?G = "parsed True (\<lambda>ts s q. simpleE required ts (currentKind q) s) p"
  have "wp (readStorage (\<lambda>storage. andThen parseType (\<lambda>type p'.
       case parseDeclarator True p' of
         None \<Rightarrow> None
       | Some (p', r) \<Rightarrow>
           if atKind TLParen p' then reject ''nested C function declarations are not supported'' p'
           else (case r of
               None \<Rightarrow> nullptr p'
             | Some d \<Rightarrow> andThen (parseVariableAfterPrefix n storage type d required) (\<lambda>declaration. inspect (\<lambda>q.
                 ret (DeclStmt declaration (upTo (here p) q)))) p')))) ?G p"
  proof (rule wp_readStorage [OF trace_start [OF p]])
    fix us st q
    assume q: "trace (True \<and> storageE us st) ([] @ us) p q" "goes p q"
    show "wp (andThen parseType (\<lambda>type p'.
       case parseDeclarator True p' of
         None \<Rightarrow> None
       | Some (p', r) \<Rightarrow>
           if atKind TLParen p' then reject ''nested C function declarations are not supported'' p'
           else (case r of
               None \<Rightarrow> nullptr p'
             | Some d \<Rightarrow> andThen (parseVariableAfterPrefix n st type d required) (\<lambda>declaration. inspect (\<lambda>q.
                 ret (DeclStmt declaration (upTo (here p) q)))) p'))) ?G q"
    proof (rule wp_call [OF q(1) parseType_reads [OF trace_wellFormed [OF q(1)]]], rule wp_local_declarator, assumption)
      fix vs ty q1 ds d q2
      assume t: "trace (((True \<and> storageE us st) \<and> typeName vs ty) \<and> declarator ds d) ((([] @ us) @ vs) @ ds) p q2"
        and g: "goes q q1" "goes q1 q2" "cursor q1 < cursor q2"
      have n2: "8 * remaining q2 + 6 \<le> n" using goes_remaining [OF trace_goes [OF t]] n by simp
      show "wp (andThen (parseVariableAfterPrefix n st ty d required) (\<lambda>declaration. inspect (\<lambda>q.
                 ret (DeclStmt declaration (upTo (here p) q))))) ?G q2"
      proof (rule wp_call [OF t parseVariableAfterPrefix_reads [OF trace_wellFormed [OF t] n2]], rule wp_inspect, rule wp_ret, assumption)
        fix ws v r
        assume "goes q2 r"
        then show "cursor p < cursor r" using q(2) g by (auto simp: goes_def)
      next
        fix ws v r
        assume "(((True \<and> storageE us st) \<and> typeName vs ty) \<and> declarator ds d) \<and> variableRestE required st ty d ws v r"
        then have "variableE required (us @ vs @ ds @ ws) (currentKind r) v"
          unfolding variableE_def variableRestE_def by blast
        then show "simpleE required (((([] @ us) @ vs) @ ds) @ ws) (currentKind r) (DeclStmt v (upTo (here p) r))"
          by (simp add: local_variable)
      qed
    qed
  qed
  then show ?thesis using trace_error [OF trace_start [OF p]]
    by (cases "atLexeme ''typedef'' p") (simp_all add: parseLocalDeclaration_def del: wp_andThen)
qed

lemma parseExpressionStatement_reads:
  assumes p: "wellFormed p" and n: "8 * remaining p + 6 \<le> n"
  shows "wp (parseExpressionStatement n required) (parsed True (\<lambda>ts s q. simpleE required ts (currentKind q) s) p) p"
  unfolding parseExpressionStatement_def
proof (rule wp_inspect, rule wp_expression [OF trace_start [OF p] n], rule wp_terminator, assumption, rule wp_inspect, rule wp_ret, assumption)
  fix us e q vs r
  assume "cursor p < cursor q" "goes q r"
  then show "cursor p < cursor r" by (auto simp: goes_def)
qed (auto intro: expression_statement)

section \<open>Statements\<close>

abbreviation statementAt :: "Stmt meaning" where
  "statementAt ts s q \<equiv> statementE ts (currentKind q) s"

definition blockRestE :: "Stmt list \<Rightarrow> Stmt list meaning" where
  "blockRestE ss ts xs q \<longleftrightarrow> (\<exists>qs. xs = ss @ qs \<and> statementsE ts (currentKind q) qs)"

definition stmtReady :: "StmtParsers \<Rightarrow> nat \<Rightarrow> bool" where
  "stmtReady ps k \<longleftrightarrow> (\<forall>p. wellFormed p \<longrightarrow>
     (8 * remaining p + 7 \<le> k \<longrightarrow> wp (statementP ps) (parsed True statementAt p) p) \<and>
     (8 * remaining p + 8 \<le> k \<longrightarrow> (\<forall>ss. wp (blockRestP ps ss) (parsed False (blockRestE ss) p) p)))"

lemma wp_statement:
  assumes ps: "stmtReady ps k" and t: "trace K ts p0 p" and lt: "cursor p0 < cursor p" and k: "8 * remaining p0 \<le> k + 1"
    and cont: "\<And>us s q. trace (K \<and> statementE us (currentKind q) s) (ts @ us) p0 q \<Longrightarrow> goes p q \<Longrightarrow> cursor p < cursor q \<Longrightarrow>
      wp (f s) (parsed b H p0) q"
  shows "wp (andThen (statementP ps) f) (parsed b H p0) p"
proof (rule wp_call [OF t])
  have "8 * remaining p + 7 \<le> k" using remaining_step [OF trace_goes [OF t] lt] k by simp
  then show "wp (statementP ps) (parsed True statementAt p) p" using ps trace_wellFormed [OF t] unfolding stmtReady_def by blast
qed (rule cont, simp_all)

lemma parseBlock_reads:
  assumes ps: "stmtReady ps k" and p: "wellFormed p" and k: "8 * remaining p \<le> k"
  shows "wp (parseBlock ps) (parsed True (\<lambda>ts s q. (\<exists>ss r. s = BlockStmt ss r) \<and> (\<forall>k. statementE ts k s)) p) p"
    (is "wp _ ?G p")
  unfolding parseBlock_def
proof (rule wp_inspect, rule wp_expect [OF trace_start [OF p]], simp, rule wp_skipNewlines, assumption)
  fix l q1 nl q2
  assume t: "trace ((True \<and> kindIs TLBrace l) \<and> newlines nl) (([] @ [l]) @ nl) p q2"
    and g: "goes p q1" "cursor p < cursor q1" "goes q1 q2"
  have lt: "cursor p < cursor q2" using g by (auto simp: goes_def)
  have "8 * remaining q2 + 8 \<le> k" using remaining_step [OF trace_goes [OF t] lt] k by simp
  then have body: "wp (blockRestP ps []) (parsed False (blockRestE []) q2) q2"
    using ps trace_wellFormed [OF t] unfolding stmtReady_def by blast
  show "wp (andThen (blockRestP ps []) (\<lambda>statements. andThen (expectKind TRBrace (quoted ''}'' @ '' to close block'')) (\<lambda>_. inspect (\<lambda>q.
          ret (BlockStmt statements (upTo (here p) q)))))) ?G q2"
  proof (rule wp_call [OF t body])
    fix us ss q3
    assume t3: "trace (((True \<and> kindIs TLBrace l) \<and> newlines nl) \<and> blockRestE [] us ss q3) ((([] @ [l]) @ nl) @ us) p q3" and "goes q2 q3"
    have lt3: "cursor p < cursor q3" using lt \<open>goes q2 q3\<close> by (auto simp: goes_def)
    show "wp (andThen (expectKind TRBrace (quoted ''}'' @ '' to close block'')) (\<lambda>_. inspect (\<lambda>q.
          ret (BlockStmt ss (upTo (here p) q))))) ?G q3"
    proof (rule wp_expect [OF t3], simp, rule wp_inspect, rule wp_ret_eats, assumption)
      fix c r
      assume g4: "goes q3 r"
      then show "cursor p < cursor r" using lt3 by (auto simp: goes_def)
      assume K: "(((True \<and> kindIs TLBrace l) \<and> newlines nl) \<and> blockRestE [] us ss q3) \<and> kindIs TRBrace c"
        and e: "eats (((([] @ [l]) @ nl) @ us) @ [c]) p r"
      have "currentKind q3 = TRBrace" using trace_next [OF t3 g4 e] K by (simp add: nextKind_def)
      then have "statementE (l # nl @ us @ [c]) k (BlockStmt ss r')" for k r'
        using K by (intro block) (auto simp: blockRestE_def)
      then show "(\<exists>ss' r'. BlockStmt ss (upTo (here p) r) = BlockStmt ss' r') \<and>
          (\<forall>k. statementE (((([] @ [l]) @ nl) @ us) @ [c]) k (BlockStmt ss (upTo (here p) r)))" by simp
    qed
  qed
qed

lemma parseIfStatement_reads:
  assumes ps: "stmtReady ps k" and p: "wellFormed p" and k: "8 * remaining p + 6 \<le> k" and s: "atLexeme ''if'' p"
  shows "wp (parseIfStatement k ps) (parsed True statementAt p) p"
  unfolding parseIfStatement_def
proof (rule wp_inspect, rule wp_parenthesised [OF trace_start [OF p] s _ k], simp)
  fix u l n1 us c d n2 q
  assume t: "trace (True \<and> lexemeIs ''if'' u \<and> kindIs TLParen l \<and> newlines n1 \<and> expressionE us c \<and> kindIs TRParen d \<and> newlines n2)
      ([] @ u # l # n1 @ us @ d # n2) p q" (is "trace ?K ?ts p q") and lt: "cursor p < cursor q"
  have k': "8 * remaining p \<le> k + 1" using k by simp
  let ?fin = "\<lambda>s e. inspect (\<lambda>q. ret (IfStmt c s e (upTo (here p) q)))"
  have fin: "wp (?fin s e) (parsed True statementAt p) q4"
    if t2: "trace (?K \<and> statementE vs (currentKind q2) s) (?ts @ vs) p q2" and g: "goes q q2" "goes q2 q3" "goes q3 q4"
      and t4: "trace L (((?ts @ vs) @ n3) @ ws) p q4"
      and L: "L \<Longrightarrow> ?K \<and> statementE vs (currentKind q2) s \<and> newlines n3 \<and> elseE ws (currentKind q4) e"
    for vs s q2 n3 q3 ws e q4 L
  proof (rule wp_inspect, rule wp_ret_eats [OF t4])
    show "cursor p < cursor q4" using lt g by (auto simp: goes_def)
    assume l: L and e: "eats (((?ts @ vs) @ n3) @ ws) p q4"
    have "eats ((?ts @ vs) @ (n3 @ ws)) p q4" using e by simp
    then have "currentKind q2 = nextKind (n3 @ ws) (currentKind q4)" using trace_next [OF t2 goes_trans [OF g(2,3)]] by blast
    then have "statementE (u # l # n1 @ us @ d # n2 @ vs @ n3 @ ws) (currentKind q4) (IfStmt c s e r)" for r
      using L [OF l] by (intro if_statement) auto
    then show "statementE (((?ts @ vs) @ n3) @ ws) (currentKind q4) (IfStmt c s e (upTo (here p) q4))" by simp
  qed
  have "wp (andThen (statementP ps) (\<lambda>s. loop skipNewlines
       (whenLexeme ''else'' (loop skipNewlines (andThen (statementP ps) (\<lambda>e. ?fin s (Some e)))) (?fin s None)))) (parsed True statementAt p) q"
  proof (rule wp_statement [OF ps t lt k'], rule wp_skipNewlines, assumption)
    fix vs s q2 n3 q3
    assume t2: "trace (?K \<and> statementE vs (currentKind q2) s) (?ts @ vs) p q2" and g: "goes q q2" "goes q2 q3"
      and t3: "trace ((?K \<and> statementE vs (currentKind q2) s) \<and> newlines n3) ((?ts @ vs) @ n3) p q3"
    have lt3: "cursor p < cursor q3" using lt g by (auto simp: goes_def)
    show "wp (whenLexeme ''else'' (loop skipNewlines (andThen (statementP ps) (\<lambda>e. ?fin s (Some e)))) (?fin s None))
        (parsed True statementAt p) q3"
    proof (rule wp_whenLexeme [OF t3], simp, rule wp_skipNewlines, assumption)
      fix w q4 nl q5
      assume g': "goes q3 q4" "goes q4 q5" and t5: "trace ((((?K \<and> statementE vs (currentKind q2) s) \<and> newlines n3) \<and> lexemeIs ''else'' w) \<and> newlines nl)
          ((((?ts @ vs) @ n3) @ [w]) @ nl) p q5"
      have lt5: "cursor p < cursor q5" using lt3 g' by (auto simp: goes_def)
      show "wp (andThen (statementP ps) (\<lambda>e. ?fin s (Some e))) (parsed True statementAt p) q5"
      proof (rule wp_statement [OF ps t5 lt5 k'])
        fix xs e q6
        assume t6: "trace (((((?K \<and> statementE vs (currentKind q2) s) \<and> newlines n3) \<and> lexemeIs ''else'' w) \<and> newlines nl) \<and> statementE xs (currentKind q6) e)
          (((((?ts @ vs) @ n3) @ [w]) @ nl) @ xs) p q6" and "goes q5 q6"
        then have "goes q3 q6" using g' by (blast intro: goes_trans)
        show "wp (?fin s (Some e)) (parsed True statementAt p) q6"
        proof (rule fin [OF t2 g \<open>goes q3 q6\<close>])
          show "trace (((((?K \<and> statementE vs (currentKind q2) s) \<and> newlines n3) \<and> lexemeIs ''else'' w) \<and> newlines nl) \<and> statementE xs (currentKind q6) e)
            (((?ts @ vs) @ n3) @ (w # nl @ xs)) p q6" using t6 by simp
        qed (auto intro: else_branch)
      qed
    next
      have t4: "trace ((?K \<and> statementE vs (currentKind q2) s) \<and> newlines n3) (((?ts @ vs) @ n3) @ []) p q3" using t3 by simp
      have g4: "goes q3 q3" using trace_wellFormed [OF t3] by simp
      show "wp (?fin s None) (parsed True statementAt p) q3"
        by (rule fin [OF t2 g g4 t4]) (auto intro: no_else)
    qed
  qed
  moreover have "andThen (whenLexeme ''else'' (loop skipNewlines (andThen (statementP ps) (\<lambda>s. ret (Some s)))) (ret None)) f =
      whenLexeme ''else'' (loop skipNewlines (andThen (statementP ps) (\<lambda>e. f (Some e)))) (f None)" for f :: "Stmt option \<Rightarrow> Stmt parsing"
    by (auto simp: whenLexeme_def andThen_def loop_def ret_def fun_eq_iff split: option.splits)
  ultimately show "wp (andThen (statementP ps) (\<lambda>thenBranch. loop skipNewlines
       (andThen
          (whenLexeme ''else'' (loop skipNewlines (andThen (statementP ps) (\<lambda>s. ret (Some s)))) (ret None))
          (\<lambda>elseBranch. inspect (\<lambda>q. ret (IfStmt c thenBranch elseBranch (upTo (here p) q))))))) (parsed True statementAt p) q"
    by (simp del: wp_simps wp_andThen)
qed

lemma parseWhileStatement_reads:
  assumes ps: "stmtReady ps k" and p: "wellFormed p" and k: "8 * remaining p + 6 \<le> k" and s: "atLexeme ''while'' p"
  shows "wp (parseWhileStatement k ps) (parsed True statementAt p) p"
  unfolding parseWhileStatement_def
proof (rule wp_inspect, rule wp_parenthesised [OF trace_start [OF p] s _ k], simp, rule wp_statement [OF ps], assumption, assumption,
    (use k in simp), rule wp_inspect, rule wp_ret, assumption)
  fix u l n1 us c d n2 q vs s r
  assume "cursor p < cursor q" "goes q r"
  then show "cursor p < cursor r" by (auto simp: goes_def)
qed (auto intro: while_statement)

lemma parseForInit_reads:
  assumes p: "wellFormed p" and n: "8 * remaining p + 6 \<le> n"
  shows "wp (parseForInit n) (parsed False (\<lambda>ts i q. case i of None \<Rightarrow> ts = [] | Some s \<Rightarrow> simpleE False ts (currentKind q) s) p) p"
proof -
  have init: "wp (andThen m (\<lambda>x. ret (Some x))) (parsed False (\<lambda>ts i q. case i of None \<Rightarrow> ts = [] | Some s \<Rightarrow> simpleE False ts (currentKind q) s) p) p"
    if "wp m (parsed True (\<lambda>ts s q. simpleE False ts (currentKind q) s) p) p" for m
    by (rule wp_call [OF trace_start [OF p] that], rule wp_ret, assumption) auto
  have "wp (ret None) (parsed False (\<lambda>ts i q. case i of None \<Rightarrow> ts = [] | Some s \<Rightarrow> simpleE False ts (currentKind q) s) p) p"
    by (rule wp_ret [OF trace_start [OF p]]) auto
  then show ?thesis
    using init [OF parseLocalDeclaration_reads [OF p n]] init [OF parseExpressionStatement_reads [OF p n]]
    by (auto simp: parseForInit_def optionally_def simp del: wp_simps wp_andThen intro!: wp_inspect)
qed

lemma parseForStatement_reads:
  assumes ps: "stmtReady ps k" and p: "wellFormed p" and k: "8 * remaining p + 6 \<le> k" and s: "atLexeme ''for'' p"
  shows "wp (parseForStatement k ps) (parsed True statementAt p) p"
  unfolding parseForStatement_def parseForHeader_def
proof (rule wp_inspect, rule wp_keyword [OF trace_start [OF p] s], simp, rule wp_expect, assumption, simp, rule wp_skipNewlines, assumption,
    rule wp_call, assumption, rule parseForInit_reads, erule trace_wellFormed)
  fix u q1 l q2 n1 q3
  assume "trace (((True \<and> lexemeIs ''for'' u) \<and> kindIs TLParen l) \<and> newlines n1) ((([] @ [u]) @ [l]) @ n1) p q3"
  then show "8 * remaining q3 + 6 \<le> k" using k goes_remaining [OF trace_goes] by fastforce
next
  fix u q1 l q2 n1 q3 us init q4
  let ?I = "case init of None \<Rightarrow> us = [] | Some s \<Rightarrow> simpleE False us (currentKind q4) s"
  let ?K = "(((True \<and> lexemeIs ''for'' u) \<and> kindIs TLParen l) \<and> newlines n1) \<and> ?I"
  let ?ts = "((([] @ [u]) @ [l]) @ n1) @ us"
  assume t4: "trace ?K ?ts p q4"
    and g: "cursor p < cursor q1" "goes q1 q2" "goes q2 q3" "goes q3 q4"
  have lt4: "cursor p < cursor q4" using g by (auto simp: goes_def)
  let ?rest = "andThen (expectKind TSemicolon (quoted '';'' @ '' after for initializer'')) (\<lambda>_. loop skipNewlines
           (inspect (\<lambda>p'. andThen (optionally (\<not> atKind TSemicolon p') (parseExpression k)) (\<lambda>condition.
             andThen (expectKind TSemicolon (quoted '';'' @ '' after for condition'')) (\<lambda>_. loop skipNewlines
               (inspect (\<lambda>p'. andThen (optionally (\<not> atKind TRParen p') (parseExpression k)) (\<lambda>post.
                 andThen (expectKind TRParen (quoted '')'' @ '' after for clause'')) (\<lambda>_. loop skipNewlines
                   (andThen (statementP ps) (\<lambda>body. inspect (\<lambda>q. ret (ForStmt init condition post body (upTo (here p) q))))))))))))))"
  show "wp ?rest (parsed True statementAt p) q4"
  proof (rule wp_expect [OF t4], simp, rule wp_skipNewlines, assumption, rule wp_inspect, rule wp_optionally, assumption, rule k,
      rule wp_expect, assumption, simp, rule wp_skipNewlines, assumption, rule wp_inspect, rule wp_optionally, assumption, rule k,
      rule wp_expect, assumption, simp, rule wp_skipNewlines, assumption)
    fix a q5 n2 q6 cs c q7 b q8 n3 q9 xs e q10 d q11 n4 q12
    let ?L = "((((((((?K \<and> kindIs TSemicolon a) \<and> newlines n2) \<and> optionalE cs c) \<and> kindIs TSemicolon b) \<and> newlines n3) \<and>
        optionalE xs e) \<and> kindIs TRParen d) \<and> newlines n4)"
    let ?us = "(((((((?ts @ [a]) @ n2) @ cs) @ [b]) @ n3) @ xs) @ [d]) @ n4"
    assume g': "goes q4 q5" "goes q5 q6" "goes q6 q7" "goes q7 q8" "goes q8 q9" "goes q9 q10" "goes q10 q11" "goes q11 q12"
      and t: "trace ?L ?us p q12"
    have g12: "goes q4 q12" using g' by (blast intro: goes_trans)
    then have lt: "cursor p < cursor q12" using lt4 by (auto simp: goes_def)
    show "wp (andThen (statementP ps) (\<lambda>body. inspect (\<lambda>q. ret (ForStmt init c e body (upTo (here p) q))))) (parsed True statementAt p) q12"
    proof (rule wp_statement [OF ps t lt], use k in simp, rule wp_inspect, rule wp_ret_eats, assumption)
      fix vs s r
      assume "goes q12 r"
      then show "cursor p < cursor r" using lt by (auto simp: goes_def)
    next
      fix vs s r
      assume r: "goes q12 r" and e: "eats (?us @ vs) p r" and K: "?L \<and> statementE vs (currentKind r) s"
      have "eats (?ts @ (a # n2 @ cs @ b # n3 @ xs @ d # n4 @ vs)) p r" using e by simp
      then have "currentKind q4 = TSemicolon"
        using trace_next [OF t4 goes_trans [OF g12 r]] K by (fastforce simp: nextKind_def)
      then have "forInitE us init" using K by (auto simp: forInitE.simps split: option.splits)
      then have "statementE (u # l # n1 @ us @ a # n2 @ cs @ b # n3 @ xs @ d # n4 @ vs) (currentKind r) (ForStmt init c e s r')" for r'
        using K by (intro for_statement) auto
      then show "statementE (?us @ vs) (currentKind r) (ForStmt init c e s (upTo (here p) r))" by simp
    qed
  qed
qed

lemma parseReturnStatement_reads:
  assumes p: "wellFormed p" and k: "8 * remaining p + 6 \<le> k" and s: "atLexeme ''return'' p"
  shows "wp (parseReturnStatement k) (parsed True statementAt p) p"
  unfolding parseReturnStatement_def
proof (rule wp_inspect, rule wp_keyword [OF trace_start [OF p] s], simp, rule wp_inspect, rule wp_optionally, assumption, rule k,
    rule wp_terminator, assumption, rule wp_inspect, rule wp_ret, assumption)
  fix u q us e q1 vs r
  assume "cursor p < cursor q" "goes q q1" "goes q1 r"
  then show "cursor p < cursor r" by (auto simp: goes_def)
qed (auto intro: return_statement)

lemma wp_simpleStatement:
  assumes t: "trace K ts p q" and "cursor p < cursor q"
    and G: "\<And>us r x. K \<Longrightarrow> terminator True us (currentKind r) \<Longrightarrow> statementE (ts @ us) (currentKind r) (f x)"
  shows "wp (simpleStatement start f) (parsed True statementAt p) q"
  unfolding simpleStatement_def
proof (rule wp_terminator [OF t], rule wp_inspect, rule wp_ret, assumption)
  fix us r
  assume "goes q r"
  then show "cursor p < cursor r" using assms(2) by (auto simp: goes_def)
qed (use G in auto)

lemma parseGotoStatement_reads:
  assumes p: "wellFormed p" and s: "atLexeme ''goto'' p"
  shows "wp parseGotoStatement (parsed True statementAt p) p"
  unfolding parseGotoStatement_def
proof (rule wp_inspect, rule wp_advance [OF trace_start [OF p]])
  show "currentLexeme p \<noteq> []" using s by (simp add: atLexeme_def)
  fix q
  assume t: "trace True ([] @ [currentToken p]) p q" and lt: "cursor p < cursor q"
  have "wp (step bump (simpleStatement (here p) (GotoStmt (currentLexeme q)))) (parsed True statementAt p) q" if k: "currentKind q = TIdentifier"
  proof (rule wp_bump [OF t], simp add: k, rule wp_simpleStatement, assumption)
    fix r
    assume "cursor q < cursor r"
    then show "cursor p < cursor r" using lt by simp
  next
    fix r us q' x
    assume "terminator True us (currentKind q')"
    then show "statementE ((([] @ [currentToken p]) @ [currentToken q]) @ us) (currentKind q') (GotoStmt (currentLexeme q) x)"
      using s k by (auto simp: atLexeme_def intro: goto_statement)
  qed
  then show "wp (inspect (\<lambda>p'. if currentKind p' \<noteq> TIdentifier then reject ''expected label after goto''
     else step bump (simpleStatement (here p) (GotoStmt (currentLexeme p'))))) (parsed True statementAt p) q"
    using wp_reject [OF t] by (auto simp del: wp_simps intro!: wp_inspect)
qed

lemma parseLabelStatement_reads:
  assumes ps: "stmtReady ps k" and p: "wellFormed p" and k: "8 * remaining p \<le> k + 1"
    and i: "currentKind p = TIdentifier" and c: "tok_kind (lookAhead 1 p) = TColon"
  shows "wp (parseLabelStatement ps) (parsed True statementAt p) p"
proof -
  have colon: "currentKind (bump p) = TColon" using c by (simp add: currentToken_def lookAhead_def bump_def Let_def split: if_splits)
  have t: "trace True (([] @ [currentToken p]) @ [currentToken (bump p)]) p (bump (bump p))"
    by (rule trace_token [OF trace_token [OF trace_start [OF p]]]) (simp_all add: i colon)
  have "wp (loop skipNewlines (andThen (statementP ps) (\<lambda>s. inspect (\<lambda>q. ret (LabelStmt (currentLexeme p) s (upTo (here p) q))))))
      (parsed True statementAt p) (bump (bump p))"
  proof (rule wp_skipNewlines [OF t])
    fix nl q
    assume q: "trace (True \<and> newlines nl) ((([] @ [currentToken p]) @ [currentToken (bump p)]) @ nl) p q" "goes (bump (bump p)) q"
    have lt: "cursor p < cursor q" using q(2) by (simp add: goes_def bump_def)
    show "wp (andThen (statementP ps) (\<lambda>s. inspect (\<lambda>q. ret (LabelStmt (currentLexeme p) s (upTo (here p) q))))) (parsed True statementAt p) q"
    proof (rule wp_statement [OF ps q(1) lt k], rule wp_inspect, rule wp_ret, assumption)
      fix us s r
      assume "cursor q < cursor r"
      then show "cursor p < cursor r" using lt by simp
    qed (use i colon in \<open>auto intro: label_statement\<close>)
  qed
  then show ?thesis by (simp add: parseLabelStatement_def del: wp_andThen)
qed

lemma parseStatement_reads:
  assumes ps: "stmtReady ps k" and p: "wellFormed p" and k: "8 * remaining p + 6 \<le> k"
  shows "wp (parseStatement k ps) (parsed True statementAt p) p"
proof -
  let ?Q = "parsed True statementAt p"
  note t = trace_start [OF p]
  have empty: "wp (step bump (ret (EmptyStmt noRange))) ?Q p" if "atKind TSemicolon p \<or> atKind TNewline p"
  proof (rule wp_bump [OF t])
    fix q
    assume q: "trace True ([] @ [currentToken p]) p q" "cursor p < cursor q"
    have "statementAt ([] @ [currentToken p]) (EmptyStmt noRange) q"
      using that by (auto simp: atKind_def intro: statementE_statementsE_elseE.empty)
    then show "wp (ret (EmptyStmt noRange)) ?Q q" using q by (intro wp_ret) auto
  qed (use that in \<open>auto simp: atKind_def\<close>)
  have block: "wp (parseBlock ps) ?Q p"
    by (rule wp_tail [OF t parseBlock_reads [OF ps p]]) (use k in auto)
  have word: "wp (step bump (simpleStatement (here p) f)) ?Q p"
    if "atLexeme w p" "w \<noteq> []" "\<And>us q x. terminator True us (currentKind q) \<Longrightarrow> statementE (currentToken p # us) (currentKind q) (f x)" for w f
    by (rule wp_advance [OF t], use that in \<open>simp add: atLexeme_def\<close>, rule wp_simpleStatement, assumption, assumption) (use that in simp)
  have break: "wp (step bump (simpleStatement (here p) BreakStmt)) ?Q p" if "atLexeme ''break'' p"
    by (rule word [OF that]) (use that in \<open>auto simp: atLexeme_def intro: break_statement\<close>)
  have continue: "wp (step bump (simpleStatement (here p) ContinueStmt)) ?Q p" if "atLexeme ''continue'' p"
    by (rule word [OF that]) (use that in \<open>auto simp: atLexeme_def intro: continue_statement\<close>)
  have simple: "wp m ?Q p" if "wp m (parsed True (\<lambda>ts s q. simpleE True ts (currentKind q) s) p) p" for m
    by (rule wp_tail [OF t that]) (auto intro: statementE_statementsE_elseE.simple)
  have label: "wp (parseLabelStatement ps) ?Q p" if "currentKind p = TIdentifier" "tok_kind (lookAhead 1 p) = TColon"
    by (rule parseLabelStatement_reads [OF ps p _ that]) (use k in simp)
  show ?thesis
    unfolding parseStatement_def
    by (rule wp_inspect, rule wp_if, erule empty, rule wp_if, rule block, rule wp_if, erule parseIfStatement_reads [OF ps p k],
      rule wp_if, erule parseWhileStatement_reads [OF ps p k], rule wp_if, erule parseForStatement_reads [OF ps p k],
      rule wp_if, erule parseReturnStatement_reads [OF p k], rule wp_if, erule break, rule wp_if, erule continue,
      rule wp_if, erule parseGotoStatement_reads [OF p], rule wp_if, erule conjE, erule label, assumption,
      rule wp_if, rule wp_reject [OF t], rule wp_if, rule simple [OF parseLocalDeclaration_reads [OF p k]],
      rule simple [OF parseExpressionStatement_reads [OF p k]])
qed

lemma current_cong: "tokens q = tokens p \<Longrightarrow> cursor q = cursor p \<Longrightarrow> currentToken q = currentToken p"
  by (simp add: currentToken_def lookAhead_def Let_def)

lemma blockRest_reads:
  assumes ps: "stmtReady ps k" and p: "wellFormed p" and k: "8 * remaining p + 7 \<le> k"
  shows "wp (blockRest ps ss) (parsed False (blockRestE ss) p) p"
proof (cases "atKind TEnd p \<or> atKind TRBrace p")
  case True
  have "wp (ret ss) (parsed False (blockRestE ss) p) p"
    by (rule wp_ret [OF trace_start [OF p]]) (auto simp: blockRestE_def intro: no_statements)
  then show ?thesis using True by (simp add: blockRest_def wp_def)
next
  case False
  obtain q r where q: "statementP ps p = Some (q, r)" "parsed True statementAt p q r"
    using ps p k unfolding stmtReady_def wp_def by blast
  define q1 where "q1 = (if cursor q = cursor p then bump (errorHere ''unable to recover while parsing C statement'' q) else q)"
  let ?ss = "case r of None \<Rightarrow> ss | Some s \<Rightarrow> ss @ [s]"
  have rest: "wp (loop skipNewlines (blockRestP ps ?ss)) (parsed False (blockRestE ss) p) q1"
  proof (cases r)
    case None
    have g: "goes p q" "parseDiagnostics q \<noteq> parseDiagnostics p" using q(2) None by (auto simp: parsed_def)
    have q1: "goes q q1 \<and> cursor p < cursor q1"
    proof (cases "cursor q = cursor p")
      case True
      let ?e = "errorHere ''unable to recover while parsing C statement'' q"
      have e: "goes q ?e" by (rule goes_error [OF goes_wellFormed [OF g(1)]])
      moreover have "currentKind ?e = currentKind p"
        using True g(1) current_cong [of ?e p] by (simp add: errorHere_def errorAt_def goes_def)
      then have "eats [currentToken ?e] ?e (bump ?e)" using eats_bump goes_wellFormed [OF e] False by (simp add: atKind_def)
      ultimately have "goes q (bump ?e)" using eats_goes goes_trans by blast
      then show ?thesis using True by (simp add: q1_def bump_def errorHere_def errorAt_def)
    next
      case False
      then show ?thesis using g goes_wellFormed [OF g(1)] by (auto simp: q1_def goes_def)
    qed
    have "goes p q1" using goes_trans [OF g(1)] q1 by blast
    moreover have "parseDiagnostics q1 \<noteq> parseDiagnostics p" using goes_clean [OF g(1)] g(2) q1 by blast
    ultimately have t: "trace False [] p q1" by (simp add: trace_def)
    show ?thesis
    proof (rule wp_skipNewlines [OF t])
      fix nl q2
      assume t2: "trace (False \<and> newlines nl) ([] @ nl) p q2" and g2: "goes q1 q2"
      have "8 * remaining q2 + 8 \<le> k" using remaining_step [of p q2] t2 g2 q1 k by (auto simp: trace_def goes_def)
      then have "wp (blockRestP ps ss) (parsed False (blockRestE ss) q2) q2"
        using ps trace_wellFormed [OF t2] unfolding stmtReady_def by blast
      then show "wp (blockRestP ps ?ss) (parsed False (blockRestE ss) p) q2"
        using None by (auto intro: wp_tail [OF t2])
    qed
  next
    case (Some s)
    have lt: "cursor p < cursor q" using q(2) Some by (simp add: parsed_def)
    then have q1: "q1 = q" by (simp add: q1_def)
    obtain us where t: "trace (True \<and> statementAt us s q) ([] @ us) p q"
      using trace_some [OF trace_start [OF p], of True statementAt q s] q(2) Some by auto
    show ?thesis unfolding q1
    proof (rule wp_skipNewlines [OF t])
      fix nl q2
      assume t2: "trace ((True \<and> statementAt us s q) \<and> newlines nl) (([] @ us) @ nl) p q2" and g2: "goes q q2"
      have "8 * remaining q2 + 8 \<le> k" using remaining_step [of p q2] t2 g2 lt k by (auto simp: trace_def goes_def)
      then have rest: "wp (blockRestP ps (ss @ [s])) (parsed False (blockRestE (ss @ [s])) q2) q2"
        using ps trace_wellFormed [OF t2] unfolding stmtReady_def by blast
      have "wp (andThen (blockRestP ps (ss @ [s])) ret) (parsed False (blockRestE ss) p) q2"
      proof (rule wp_call [OF t2 rest], rule wp_ret_eats, assumption, simp)
        fix vs xs q3
        assume g3: "goes q2 q3" and e: "eats ((([] @ us) @ nl) @ vs) p q3"
          and K: "((True \<and> statementAt us s q) \<and> newlines nl) \<and> blockRestE (ss @ [s]) vs xs q3"
        have "currentKind q = nextKind (nl @ vs) (currentKind q3)"
          using trace_next [OF t goes_trans [OF g2 g3]] e by simp
        then show "blockRestE ss ((([] @ us) @ nl) @ vs) xs q3"
          using K by (auto simp: blockRestE_def intro: statements)
      qed
      then show "wp (blockRestP ps ?ss) (parsed False (blockRestE ss) p) q2" using Some by (simp add: andThen_ret_right del: wp_andThen)
    qed
  qed
  then show ?thesis using False q(1) by (simp add: blockRest_def q1_def wp_def)
qed

lemma ready_stmtParsers: "stmtReady (stmtParsers k) k"
proof (induction k)
  case 0
  show ?case by (auto simp: stmtReady_def dest!: remaining_pos)
next
  case (Suc k)
  show ?case
    unfolding stmtReady_def
  proof (intro allI impI conjI)
    fix p ss
    assume p: "wellFormed p"
    show "wp (statementP (stmtParsers (Suc k))) (parsed True statementAt p) p" if "8 * remaining p + 7 \<le> Suc k"
      using parseStatement_reads [OF Suc p] that by (simp add: Let_def)
    show "wp (blockRestP (stmtParsers (Suc k)) ss) (parsed False (blockRestE ss) p) p" if "8 * remaining p + 8 \<le> Suc k"
      using blockRest_reads [OF Suc p] that by (simp add: Let_def)
  qed
qed

end
