(* ===== verification/CCompat_SoundDecl.thy ===== *)
theory CCompat_SoundDecl
  imports CCompat_SoundStmt
begin

text \<open>
  The parsing functions of declarations against the grammar, the recovery after an error, and one round of
  the loop over the declarations of a file.
\<close>

section \<open>Parameters\<close>

lemma parseParameter_reads:
  assumes p: "wellFormed p"
  shows "readingMore parseParameter parameterE p"
  unfolding parseParameter_def
proof (rule wp_inspect, rule wp_if)
  assume v: "atLexeme ''void'' p \<and> tok_kind (lookAhead 1 p) = TRParen"
  let ?q = "\<lambda>q. \<lparr>param_type = ctype CVoid, param_declarator = noDeclarator, param_isVoidMarker = True,
          param_range = \<lparr>range_begin = here p, range_end = here q\<rparr>\<rparr>"
  have "parameterE [currentToken p] (?q q)" for q
    by (rule void_marker) (use v in \<open>auto simp: atLexeme_def ctype_def\<close>)
  then show "wp (step bump (inspect (\<lambda>q. ret (?q q)))) (parsed True (\<lambda>ts x q. parameterE ts x) p) p"
    by - (rule wp_advance [OF trace_start [OF p]], use v in \<open>simp add: atLexeme_def\<close>, rule wp_inspect, rule wp_ret, assumption, auto)
next
  show "wp (andThen parseType (\<lambda>type. andThen (parseDeclarator True) (\<lambda>declarator. inspect (\<lambda>q. ret
       \<lparr>param_type = type, param_declarator = declarator, param_isVoidMarker = False,
        param_range = \<lparr>range_begin = here p, range_end = here q\<rparr>\<rparr>)))) (parsed True (\<lambda>ts x q. parameterE ts x) p) p"
  proof (rule wp_call [OF trace_start [OF p] parseType_reads [OF p]], rule wp_call, assumption, rule parseDeclarator_reads,
      erule trace_wellFormed, rule wp_inspect, rule wp_ret, assumption)
    fix us ty q vs d r
    assume "True \<Longrightarrow> cursor p < cursor q" "goes q r"
    then show "cursor p < cursor r" by (auto simp: goes_def)
  qed (auto intro: parameter)
qed

definition parametersRestE :: "Parameter list \<Rightarrow> Token list \<Rightarrow> Parameter list \<Rightarrow> bool" where
  "parametersRestE ps ts xs \<longleftrightarrow> (\<exists>us c qs. ts = us @ [c] \<and> kindIs TRParen c \<and> xs = ps @ qs \<and> parametersE us qs \<and>
     list_all (\<lambda>q. \<not> param_isVoidMarker q) (if ps = [] then tl qs else qs))"

lemma parameterLoop_reads:
  assumes "wellFormed p" and "remaining p \<le> n"
  shows "readingMore (parameterLoop n ps) (parametersRestE ps) p"
  using assms
proof (induction n arbitrary: ps p)
  case 0
  then show ?case using remaining_pos [of p] by simp
next
  case (Suc n)
  note p = Suc.prems(1)
  let ?G = "parsed True (\<lambda>ts x q. parametersRestE ps ts x) p"
  let ?body = "andThen parseParameter (\<lambda>parameter.
        if param_isVoidMarker parameter \<and> ps \<noteq> [] then reject ''void parameter-list marker must be the only parameter''
        else loop skipNewlines (whenKind TRParen (ret (ps @ [parameter]))
          (andThen (expectKind TComma (quoted '','' @ '' between parameters'')) (\<lambda>_.
            loop skipNewlines (parameterLoop n (ps @ [parameter]))))))"
  have "wp ?body ?G p"
  proof (rule wp_call [OF trace_start [OF p] parseParameter_reads [OF p]], rule wp_if, erule wp_reject, rule wp_skipNewlines, assumption)
    fix us x q nl r
    assume q: "goes p q" "True \<Longrightarrow> cursor p < cursor q" and v: "\<not> (param_isVoidMarker x \<and> ps \<noteq> [])"
      and r: "trace ((True \<and> parameterE us x) \<and> newlines nl) (([] @ us) @ nl) p r" "goes q r"
    have lt: "cursor p < cursor r" using q r(2) by (auto simp: goes_def)
    show "wp (whenKind TRParen (ret (ps @ [x])) (andThen (expectKind TComma (quoted '','' @ '' between parameters'')) (\<lambda>_.
            loop skipNewlines (parameterLoop n (ps @ [x]))))) ?G r"
    proof (rule wp_whenKind [OF r(1)], simp, rule wp_ret, assumption)
      fix c s
      assume "cursor r < cursor s"
      then show "cursor p < cursor s" using lt by simp
    next
      fix c s
      assume "((True \<and> parameterE us x) \<and> newlines nl) \<and> kindIs TRParen c"
      then show "parametersRestE ps ((([] @ us) @ nl) @ [c]) (ps @ [x])"
        unfolding parametersRestE_def using v by (intro exI [of _ "us @ nl"] exI [of _ c] exI [of _ "[x]"]) (auto intro: one_parameter)
    next
      show "wp (andThen (expectKind TComma (quoted '','' @ '' between parameters'')) (\<lambda>_.
            loop skipNewlines (parameterLoop n (ps @ [x])))) ?G r"
      proof (rule wp_expect [OF r(1)], simp, rule wp_skipNewlines, assumption)
        fix c s nl' s'
        assume g: "goes r s" "goes s s'" and t: "trace ((((True \<and> parameterE us x) \<and> newlines nl) \<and> kindIs TComma c) \<and> newlines nl')
            (((([] @ us) @ nl) @ [c]) @ nl') p s'"
        have lt': "cursor p < cursor s'" using lt g by (auto simp: goes_def)
        have "remaining s' \<le> n" using goes_remaining_less [OF trace_goes [OF t] lt'] Suc.prems(2) by simp
        then have rest: "readingMore (parameterLoop n (ps @ [x])) (parametersRestE (ps @ [x])) s'"
          using Suc.IH trace_wellFormed [OF t] by blast
        show "wp (parameterLoop n (ps @ [x])) ?G s'"
        proof (rule wp_tail [OF t rest])
          fix vs xs q'
          assume K: "(((True \<and> parameterE us x) \<and> newlines nl) \<and> kindIs TComma c) \<and> newlines nl'" and "parametersRestE (ps @ [x]) vs xs"
          then obtain ws d qs where d: "vs = ws @ [d]" "kindIs TRParen d" "xs = ps @ x # qs" "parametersE ws qs"
            "list_all (\<lambda>q. \<not> param_isVoidMarker q) qs" by (auto simp: parametersRestE_def)
          have "parametersE (us @ nl @ c # nl' @ ws) (x # qs)" using K d(4) by (intro more_parameters) auto
          then show "parametersRestE ps ((((([] @ us) @ nl) @ [c]) @ nl') @ vs) xs"
            unfolding parametersRestE_def using d v
            by (intro exI [of _ "us @ nl @ c # nl' @ ws"] exI [of _ d] exI [of _ "x # qs"]) auto
        qed simp
      qed
    qed
  qed
  then show ?case using trace_error [OF trace_start [OF p]]
    by (cases "atKind TEnd p") (simp_all add: wp_def reject_def)
qed

lemma parseParameterList_reads:
  assumes p: "wellFormed p" and n: "remaining p \<le> n" and l: "atKind TLParen p"
  shows "wp (parseParameterList n) (parsed True (\<lambda>ts qs q. \<exists>l nl us c. ts = l # nl @ us @ [c] \<and> kindIs TLParen l \<and> newlines nl \<and>
    kindIs TRParen c \<and> parameterListE us qs) p) p" (is "wp _ ?G p")
proof -
  have "wp (whenKind TLParen (loop skipNewlines (whenKind TRParen (ret []) (parameterLoop n []))) (reject [])) ?G p"
  proof (rule wp_whenKind [OF trace_start [OF p]], simp, rule wp_skipNewlines, assumption)
    fix u q nl r
    assume q: "cursor p < cursor q" "goes q r" and r: "trace ((True \<and> kindIs TLParen u) \<and> newlines nl) (([] @ [u]) @ nl) p r"
    have lt: "cursor p < cursor r" using q by (auto simp: goes_def)
    have rn: "remaining r \<le> n" using goes_remaining [OF trace_goes [OF r]] n by simp
    show "wp (whenKind TRParen (ret []) (parameterLoop n [])) ?G r"
    proof (rule wp_whenKind [OF r], simp)
      fix c s
      assume s: "trace (((True \<and> kindIs TLParen u) \<and> newlines nl) \<and> kindIs TRParen c) ((([] @ [u]) @ nl) @ [c]) p s" "goes r s"
      show "wp (ret []) ?G s" by (rule wp_ret [OF s(1)]) (use lt s(2) in \<open>auto simp: goes_def parameterListE_def\<close>)
    next
      show "wp (parameterLoop n []) ?G r"
      proof (rule wp_tail [OF r parameterLoop_reads [OF trace_wellFormed [OF r] rn]])
        fix vs qs q'
        assume K: "(True \<and> kindIs TLParen u) \<and> newlines nl" and "parametersRestE [] vs qs"
        then obtain ws c where "vs = ws @ [c]" "kindIs TRParen c" "parameterListE ws qs"
          by (auto simp: parametersRestE_def parameterListE_def)
        then show "\<exists>l nl' us c. (([] @ [u]) @ nl) @ vs = l # nl' @ us @ [c] \<and> kindIs TLParen l \<and> newlines nl' \<and>
            kindIs TRParen c \<and> parameterListE us qs"
          using K by (intro exI [of _ u] exI [of _ nl] exI [of _ ws] exI [of _ c]) simp
      qed (simp add: lt)
    qed
  qed (simp add: l)
  then show ?thesis using l by (simp add: parseParameterList_def openParen_def)
qed

section \<open>Recovery\<close>

lemma consumeTerminator_total:
  assumes p: "wellFormed p"
  shows "\<exists>q. consumeTerminator False p = Some (q, Some ()) \<and> goes p q \<and> parseDiagnostics q = parseDiagnostics p \<and>
    (atKind TSemicolon p \<or> atKind TNewline p \<longrightarrow> cursor p < cursor q)"
proof -
  have skip: "\<exists>q. skipNewlines (bump p) = Some q \<and> goes p q \<and> parseDiagnostics q = parseDiagnostics p \<and> cursor p < cursor q"
    if "currentKind p \<noteq> TEnd"
  proof -
    have b: "eats [currentToken p] p (bump p)" using eats_bump p that by blast
    then obtain ts q where "skipNewlines (bump p) = Some q" "eats ts (bump p) q"
      using skipNewlines_eats [OF goes_wellFormed [OF eats_goes [OF b]]] by blast
    then show ?thesis using b eats_trans [OF b, of ts q] by (auto simp: eats_def)
  qed
  consider "atKind TSemicolon p" | "atKind TNewline p" | "\<not> atKind TSemicolon p" "\<not> atKind TNewline p" by blast
  then show ?thesis
  proof cases
    case 1
    then show ?thesis using skip by (auto simp: consumeTerminator_def whenKind_def loop_def ret_def atKind_def)
  next
    case 2
    then show ?thesis using skip skip_first_newline [OF 2]
      by (auto simp: consumeTerminator_def whenKind_def loop_def ret_def inspect_def atKind_def)
  next
    case 3
    then show ?thesis using p by (simp add: consumeTerminator_def whenKind_def ret_def inspect_def)
  qed
qed

lemma recoverDeclaration_total:
  assumes p: "wellFormed p"
  shows "\<exists>q. recoverDeclaration p = Some (q, Some ()) \<and> goes p q \<and> parseDiagnostics q = parseDiagnostics p \<and>
    (atKind TEnd p \<or> atKind TRBrace p \<or> cursor p < cursor q)"
proof -
  let ?C = "\<lambda>t. tok_kind t \<notin> {TEnd, TSemicolon, TNewline, TRBrace}"
  obtain ts q where q: "while_option (\<lambda>p. ?C (currentToken p)) bump p = Some q" "eats ts p q" "\<not> ?C (currentToken q)"
    using while_tokens [OF p, of ?C] p by (auto simp: wellFormed_def)
  have guard: "(\<lambda>p. \<not> atRecovery p) = (\<lambda>p. ?C (currentToken p))"
    by (auto simp: atRecovery_def atKind_def fun_eq_iff)
  obtain r where r: "consumeTerminator False q = Some (r, Some ())" "goes q r" "parseDiagnostics r = parseDiagnostics q"
    "atKind TSemicolon q \<or> atKind TNewline q \<longrightarrow> cursor q < cursor r"
    using consumeTerminator_total [OF goes_wellFormed [OF eats_goes [OF q(2)]]] by blast
  have "recoverDeclaration p = Some (r, Some ())" using q(1) r(1) by (simp add: recoverDeclaration_def loop_def guard)
  moreover have "goes p r" "parseDiagnostics r = parseDiagnostics p" 
    using goes_trans [OF eats_goes [OF q(2)] r(2)] q(2) r(3) by (simp_all add: eats_def)
  moreover have "atKind TEnd p \<or> atKind TRBrace p \<or> cursor p < cursor r"
  proof (cases "cursor q = cursor p")
    case True
    then have "currentToken q = currentToken p" using q(2) by (intro current_cong) (simp_all add: eats_def goes_def)
    then show ?thesis using q(3) r(4) True by (auto simp: atKind_def)
  next
    case False
    then have "cursor p < cursor q" using q(2) by (simp add: eats_def goes_def)
    then show ?thesis using r(2) by (simp add: goes_def)
  qed
  ultimately show ?thesis by blast
qed

section \<open>Structures\<close>

definition fieldsRestE :: "FieldDecl list \<Rightarrow> FieldDecl list meaning" where
  "fieldsRestE fs ts xs q \<longleftrightarrow> (\<exists>qs. xs = fs @ qs \<and> fieldsE ts (currentKind q) qs)"

definition parseField :: "SourceLocation \<Rightarrow> FieldDecl parsing" where
  "parseField start = andThen parseType (\<lambda>type. andThen (parseDeclarator True) (\<lambda>declarator.
     andThen (consumeTerminator True) (\<lambda>_. inspect (\<lambda>q.
       ret \<lparr>field_type = type, field_declarator = declarator, field_range = upTo start q\<rparr>))))"

lemma parseField_reads:
  assumes p: "wellFormed p"
  shows "wp (parseField start) (parsed True (\<lambda>ts x q. \<exists>us vs ws. ts = us @ vs @ ws \<and> typeName us (field_type x) \<and>
    declarator vs (field_declarator x) \<and> terminator True ws (currentKind q)) p) p"
  unfolding parseField_def
proof (rule wp_call [OF trace_start [OF p] parseType_reads [OF p]], rule wp_call, assumption, rule parseDeclarator_reads,
    erule trace_wellFormed, rule wp_terminator, assumption, rule wp_inspect, rule wp_ret, assumption)
  fix us ty q vs d q1 ws r
  assume "True \<Longrightarrow> cursor p < cursor q" "goes q q1" "goes q1 r"
  then show "cursor p < cursor r" by (auto simp: goes_def)
qed auto

lemma fieldLoop_reads:
  assumes "wellFormed p" and "remaining p \<le> n"
  shows "wp (fieldLoop n fs) (parsed False (fieldsRestE fs) p) p"
  using assms
proof (induction n arbitrary: fs p)
  case 0
  then show ?case using remaining_pos [of p] by simp
next
  case (Suc n)
  note p = Suc.prems(1)
  show ?case
  proof (cases "atKind TEnd p \<or> atKind TRBrace p")
    case True
    have "wp (ret fs) (parsed False (fieldsRestE fs) p) p"
      by (rule wp_ret [OF trace_start [OF p]]) (auto simp: fieldsRestE_def intro: no_fields)
    then show ?thesis using True by (simp add: wp_def)
  next
    case False
    obtain q r where q: "parseField (here p) p = Some (q, r)" and r: "parsed True (\<lambda>ts x q. \<exists>us vs ws. ts = us @ vs @ ws \<and>
        typeName us (field_type x) \<and> declarator vs (field_declarator x) \<and> terminator True ws (currentKind q)) p q r"
      using parseField_reads [OF p] unfolding wp_def by blast
    note unfolded = q [unfolded parseField_def]
    show ?thesis
    proof (cases r)
      case None
      have g: "goes p q" "parseDiagnostics q \<noteq> parseDiagnostics p" using r None by (auto simp: parsed_def)
      obtain q1 where q1: "recoverDeclaration q = Some (q1, Some ())" "goes q q1" "atKind TEnd q \<or> atKind TRBrace q \<or> cursor q < cursor q1"
        using recoverDeclaration_total [OF goes_wellFormed [OF g(1)]] by blast
      have lt: "cursor p < cursor q1"
      proof (cases "cursor q = cursor p")
        case True
        then have "currentToken q = currentToken p" using g(1) by (intro current_cong) (simp_all add: goes_def)
        then show ?thesis using q1(3) \<open>\<not> (atKind TEnd p \<or> atKind TRBrace p)\<close> True by (simp add: atKind_def)
      next
        case False
        then show ?thesis using g(1) q1(2) by (simp add: goes_def)
      qed
      have "goes p q1" using goes_trans [OF g(1) q1(2)] .
      moreover have "parseDiagnostics q1 \<noteq> parseDiagnostics p" using goes_clean [OF g(1) q1(2)] g(2) by blast
      ultimately have t: "trace False [] p q1" by (simp add: trace_def)
      have "remaining q1 \<le> n" using goes_remaining_less [OF trace_goes [OF t] lt] Suc.prems(2) by simp
      then have "wp (fieldLoop n fs) (parsed False (fieldsRestE fs) q1) q1" using Suc.IH trace_wellFormed [OF t] by blast
      then have "wp (fieldLoop n fs) (parsed False (fieldsRestE fs) p) q1" by (rule wp_tail [OF t]) auto
      then show ?thesis using False unfolded None q1(1) by (simp add: wp_def andThen_def)
    next
      case (Some x)
      have lt: "cursor p < cursor q" using r Some by (simp add: parsed_def)
      obtain ts where t: "trace (True \<and> (\<exists>us vs ws. ts = us @ vs @ ws \<and> typeName us (field_type x) \<and>
          declarator vs (field_declarator x) \<and> terminator True ws (currentKind q))) ([] @ ts) p q"
        using trace_some [OF trace_start [OF p] r [unfolded Some]] by blast
      have "remaining q \<le> n" using goes_remaining_less [OF trace_goes [OF t] lt] Suc.prems(2) by simp
      then have rest: "wp (fieldLoop n (fs @ [x])) (parsed False (fieldsRestE (fs @ [x])) q) q" using Suc.IH trace_wellFormed [OF t] by blast
      have "wp (andThen (fieldLoop n (fs @ [x])) ret) (parsed False (fieldsRestE fs) p) q"
      proof (rule wp_call [OF t rest], rule wp_ret_eats, assumption, simp)
        fix vs xs q3
        assume g3: "goes q q3" and e: "eats (([] @ ts) @ vs) p q3" and K: "(True \<and> (\<exists>us vs ws. ts = us @ vs @ ws \<and> typeName us (field_type x) \<and>
          declarator vs (field_declarator x) \<and> terminator True ws (currentKind q))) \<and> fieldsRestE (fs @ [x]) vs xs q3"
        have next_kind: "currentKind q = nextKind vs (currentKind q3)" using trace_next [OF t g3 e] .
        obtain us ws ks qs where "ts = us @ ws @ ks" "typeName us (field_type x)" "declarator ws (field_declarator x)"
          "terminator True ks (nextKind vs (currentKind q3))" "xs = fs @ x # qs" "fieldsE vs (currentKind q3) qs"
          using K next_kind unfolding fieldsRestE_def by auto
        then have "fieldsE (us @ ws @ ks @ vs) (currentKind q3) (x # qs)" by (intro more_fields)
        then show "fieldsRestE fs (([] @ ts) @ vs) xs q3"
          using \<open>ts = us @ ws @ ks\<close> \<open>xs = fs @ x # qs\<close> by (auto simp: fieldsRestE_def)
      qed
      then show ?thesis using False unfolded Some by (simp only: andThen_ret_right) (simp add: wp_def)
    qed
  qed
qed

abbreviation declarationAt :: "Decl meaning" where
  "declarationAt ts d q \<equiv> declarationE ts (currentKind q) d"

lemma parseStructDeclaration_reads:
  assumes p: "wellFormed p" and n: "remaining p \<le> n" and s: "atLexeme ''struct'' p"
  shows "wp (parseStructDeclaration n) (parsed True declarationAt p) p"
  unfolding parseStructDeclaration_def
proof (rule wp_inspect, rule wp_keyword [OF trace_start [OF p] s], simp, rule wp_inspect, rule wp_whenKind, assumption, simp,
    rule wp_expect, assumption, simp, rule wp_skipNewlines, assumption)
  fix u q1 i q2 l q3 nl q4
  let ?K = "(((True \<and> lexemeIs ''struct'' u) \<and> kindIs TIdentifier i) \<and> kindIs TLBrace l) \<and> newlines nl"
  let ?ts = "((([] @ [u]) @ [i]) @ [l]) @ nl"
  assume t: "trace ?K ?ts p q4" and i: "i = currentToken q1"
    and g: "cursor p < cursor q1" "goes q1 q2" "goes q2 q3" "goes q3 q4"
  have lt: "cursor p < cursor q4" using g by (auto simp: goes_def)
  have n4: "remaining q4 \<le> n" using goes_remaining [OF trace_goes [OF t]] n by simp
  show "wp (andThen (fieldLoop n []) (\<lambda>fs. andThen (expectKind TRBrace (quoted ''}'' @ '' after struct fields'')) (\<lambda>_.
           andThen (consumeTerminator False) (\<lambda>_. inspect (\<lambda>q.
             ret (StructDecl (currentLexeme q1) fs (upTo (here p) q))))))) (parsed True declarationAt p) q4"
  proof (rule wp_call [OF t fieldLoop_reads [OF trace_wellFormed [OF t] n4]])
    fix us fs q5
    assume t5: "trace (?K \<and> fieldsRestE [] us fs q5) (?ts @ us) p q5" and g5: "goes q4 q5"
    show "wp (andThen (expectKind TRBrace (quoted ''}'' @ '' after struct fields'')) (\<lambda>_.
           andThen (consumeTerminator False) (\<lambda>_. inspect (\<lambda>q.
             ret (StructDecl (currentLexeme q1) fs (upTo (here p) q)))))) (parsed True declarationAt p) q5"
    proof (rule wp_expect [OF t5], simp, rule wp_terminator, assumption, rule wp_inspect, rule wp_ret_eats, assumption)
      fix c q6 vs r
      assume "goes q5 q6" "goes q6 r"
      then show "cursor p < cursor r" using lt g5 by (auto simp: goes_def)
    next
      fix c q6 vs r
      assume g6: "goes q5 q6" "goes q6 r" and e: "eats (((?ts @ us) @ [c]) @ vs) p r"
        and K: "((?K \<and> fieldsRestE [] us fs q5) \<and> kindIs TRBrace c) \<and> terminator False vs (currentKind r)"
      have "eats ((?ts @ us) @ (c # vs)) p r" using e by simp
      then have "currentKind q5 = TRBrace" using trace_next [OF t5 goes_trans [OF g6]] K by (fastforce simp: nextKind_def)
      then have "declarationE (u # i # l # nl @ us @ c # vs) (currentKind r) (StructDecl (tok_lexeme i) fs r')" for r'
        using K by (intro struct_declaration) (auto simp: fieldsRestE_def)
      then show "declarationE (((?ts @ us) @ [c]) @ vs) (currentKind r) (StructDecl (currentLexeme q1) fs (upTo (here p) r))"
        using i by simp
    qed
  qed
next
  fix u q1
  assume "trace (True \<and> lexemeIs ''struct'' u) ([] @ [u]) p q1"
  then show "wp (reject ''expected struct name'') (parsed True declarationAt p) q1" by (rule wp_reject)
qed

section \<open>Typedefs, variables and functions\<close>

lemma addTypedef_keeps: "trace K ts p q \<Longrightarrow> trace K ts p (addTypedef x q)" "currentToken (addTypedef x q) = currentToken q"
    "cursor (addTypedef x q) = cursor q"
  by (auto simp: trace_def eats_def goes_def wellFormed_def addTypedef_def currentToken_def lookAhead_def Let_def)

lemma parseTypedefDeclaration_reads:
  assumes t: "trace (lexemeIs ''typedef'' u) [u] p q" and lt: "cursor p < cursor q"
  shows "wp parseTypedefDeclaration (parsed True declarationAt p) q"
  unfolding parseTypedefDeclaration_def
proof (rule wp_inspect, rule wp_call [OF t parseType_reads [OF trace_wellFormed [OF t]]], rule wp_call, assumption, rule parseDeclarator_reads,
    erule trace_wellFormed, rule wp_terminator, assumption)
  fix us ty q1 vs d q2 ws r
  assume r: "trace (((lexemeIs ''typedef'' u \<and> typeName us ty) \<and> declarator vs d) \<and> terminator True ws (currentKind r)) ((([u] @ us) @ vs) @ ws) p r"
    and g: "goes q q1" "goes q1 q2" "goes q2 r"
  have lt': "cursor p < cursor r" using lt g by (auto simp: goes_def)
  let ?r = "addTypedef (decl_name d) r"
  have "wp (ret (TypedefDecl ty d (upTo (here q) ?r))) (parsed True declarationAt p) ?r"
    by (rule wp_ret [OF addTypedef_keeps(1) [OF r]]) (use lt' in \<open>auto simp: addTypedef_keeps intro: typedef_declaration\<close>)
  then show "wp (step (addTypedef (decl_name d)) (inspect (\<lambda>r. ret (TypedefDecl ty d (upTo (here q) r))))) (parsed True declarationAt p) r"
    by simp
qed

lemma parseFunctionBody_reads:
  assumes p: "wellFormed p" and n: "8 * remaining p \<le> n"
  shows "wp (if atKind TLBrace p then andThen (parseBlock (stmtParsers n)) (\<lambda>body. andThen (consumeTerminator False) (\<lambda>_. ret (Some body)))
          else andThen (consumeTerminator True) (\<lambda>_. ret None)) (parsed False (\<lambda>ts b q. bodyE ts (currentKind q) b) p) p"
proof (rule wp_if)
  show "wp (andThen (parseBlock (stmtParsers n)) (\<lambda>body. andThen (consumeTerminator False) (\<lambda>_. ret (Some body))))
      (parsed False (\<lambda>ts b q. bodyE ts (currentKind q) b) p) p"
    by (rule wp_call [OF trace_start [OF p] parseBlock_reads [OF ready_stmtParsers p n]], rule wp_terminator, assumption, rule wp_ret, assumption)
      (auto intro: definition_body)
  show "wp (andThen (consumeTerminator True) (\<lambda>_. ret None)) (parsed False (\<lambda>ts b q. bodyE ts (currentKind q) b) p) p"
    by (rule wp_terminator [OF trace_start [OF p]], rule wp_ret, assumption) (auto intro: prototype)
qed

definition functionRestE :: "StorageClass \<Rightarrow> CType \<Rightarrow> Declarator \<Rightarrow> FunctionDecl meaning" where
  "functionRestE st ty d ts f q \<longleftrightarrow> fun_storage f = st \<and> fun_returnType f = ty \<and> fun_declarator f = d \<and>
     (\<exists>l n1 us c n2 bs. ts = l # n1 @ us @ c # n2 @ bs \<and> kindIs TLParen l \<and> newlines n1 \<and> parameterListE us (fun_parameters f) \<and>
        kindIs TRParen c \<and> newlines n2 \<and> bodyE bs (currentKind q) (fun_body f))"

lemma parseFunctionAfterPrefix_reads:
  assumes p: "wellFormed p" and n: "8 * remaining p \<le> n" and l: "atKind TLParen p"
  shows "wp (parseFunctionAfterPrefix n st ty d) (parsed False (functionRestE st ty d) p) p"
  unfolding parseFunctionAfterPrefix_def
proof (rule wp_call [OF trace_start [OF p] parseParameterList_reads [OF p _ l]], use n in simp, rule wp_skipNewlines, assumption, rule wp_inspect)
  fix us qs q nl r
  let ?P = "\<exists>l nl us' c. us = l # nl @ us' @ [c] \<and> kindIs TLParen l \<and> newlines nl \<and> kindIs TRParen c \<and> parameterListE us' qs"
  assume t: "trace ((True \<and> ?P) \<and> newlines nl) (([] @ us) @ nl) p r"
  have "8 * remaining r \<le> n" using goes_remaining [OF trace_goes [OF t]] n by simp
  note body = parseFunctionBody_reads [OF trace_wellFormed [OF t] this]
  show "wp (andThen
         (if atKind TLBrace r then andThen (parseBlock (stmtParsers n)) (\<lambda>body. andThen (consumeTerminator False) (\<lambda>_. ret (Some body)))
          else andThen (consumeTerminator True) (\<lambda>_. ret None))
         (\<lambda>body. inspect (\<lambda>q.
            ret \<lparr>fun_storage = st, fun_returnType = ty, fun_declarator = d, fun_parameters = qs, fun_body = body,
                 fun_range = upTo (range_begin (ctype_range ty)) q\<rparr>))) (parsed False (functionRestE st ty d) p) r"
  proof (rule wp_call [OF t body], rule wp_inspect, rule wp_ret, assumption, simp)
    fix bs b q'
    assume K: "((True \<and> ?P) \<and> newlines nl) \<and> bodyE bs (currentKind q') b"
    then obtain l n1 vs c where "us = l # n1 @ vs @ [c]" "kindIs TLParen l" "newlines n1" "kindIs TRParen c" "parameterListE vs qs" by blast
    then show "functionRestE st ty d ((([] @ us) @ nl) @ bs) \<lparr>fun_storage = st, fun_returnType = ty, fun_declarator = d, fun_parameters = qs,
        fun_body = b, fun_range = upTo (range_begin (ctype_range ty)) q'\<rparr> q'"
      using K unfolding functionRestE_def
      by (intro conjI exI [of _ l] exI [of _ n1] exI [of _ vs] exI [of _ c] exI [of _ nl] exI [of _ bs]) auto
  qed
qed

lemma parseDeclarationAfterPrefix_reads:
  assumes t: "trace (storageE ss st \<and> typeName ts ty) (ss @ ts) p q" and lt: "cursor p < cursor q" and n: "8 * remaining p + 6 \<le> n"
  shows "wp (parseDeclarationAfterPrefix n st ty) (parsed True declarationAt p) q"
  unfolding parseDeclarationAfterPrefix_def
proof (rule wp_call [OF t parseDeclarator_reads [OF trace_wellFormed [OF t]]], rule wp_inspect)
  fix ds d q1
  let ?K = "(storageE ss st \<and> typeName ts ty) \<and> declarator ds d"
  assume t1: "trace ?K ((ss @ ts) @ ds) p q1" and g1: "goes q q1"
  have lt1: "cursor p < cursor q1" using lt g1 by (auto simp: goes_def)
  have n1: "8 * remaining q1 + 6 \<le> n" using goes_remaining [OF trace_goes [OF t1]] n by simp
  note wf = trace_wellFormed [OF t1]
  have more: "cursor p < cursor r" if "goes q1 r" for r using that lt1 by (auto simp: goes_def)
  have fn: "wp (andThen (parseFunctionAfterPrefix n st ty d) (\<lambda>f. ret (FunctionDeclaration f))) (parsed True declarationAt p) q1"
    if l: "atKind TLParen q1" and a: "decl_arrayCount d = None"
  proof (rule wp_call [OF t1 parseFunctionAfterPrefix_reads [OF wf _ l]], use n1 in simp, rule wp_ret, assumption, erule more)
    fix us f r
    assume K: "?K \<and> functionRestE st ty d us f r"
    then obtain l n1 vs c n2 bs where "us = l # n1 @ vs @ c # n2 @ bs" "kindIs TLParen l" "newlines n1" "parameterListE vs (fun_parameters f)"
      "kindIs TRParen c" "newlines n2" "bodyE bs (currentKind r) (fun_body f)" "fun_storage f = st" "fun_returnType f = ty" "fun_declarator f = d"
      unfolding functionRestE_def by blast
    then have "declarationE (ss @ ts @ ds @ l # n1 @ vs @ c # n2 @ bs) (currentKind r) (FunctionDeclaration f)"
      using K a by (intro function_declaration) auto
    then show "declarationAt (((ss @ ts) @ ds) @ us) (FunctionDeclaration f) r" using \<open>us = l # n1 @ vs @ c # n2 @ bs\<close> by simp
  qed
  have variable: "wp (andThen (parseVariableAfterPrefix n st ty d True) (\<lambda>v. ret (VarDeclaration v))) (parsed True declarationAt p) q1"
  proof (rule wp_call [OF t1 parseVariableAfterPrefix_reads [OF wf n1]], rule wp_ret, assumption, erule more)
    fix us v r
    assume "?K \<and> variableRestE True st ty d us v r"
    then have "variableE True (ss @ ts @ ds @ us) (currentKind r) v" unfolding variableE_def variableRestE_def by blast
    then show "declarationAt (((ss @ ts) @ ds) @ us) (VarDeclaration v) r" by (simp add: variable_declaration)
  qed
  show "wp (if atKind TLParen q1 then
       (if decl_arrayCount d \<noteq> None then reject ''function declarator cannot have an array suffix''
        else andThen (parseFunctionAfterPrefix n st ty d) (\<lambda>f. ret (FunctionDeclaration f)))
     else andThen (parseVariableAfterPrefix n st ty d True) (\<lambda>v. ret (VarDeclaration v))) (parsed True declarationAt p) q1"
    by (rule wp_if, rule wp_if, rule wp_reject [OF t1], rule fn, assumption, simp, rule variable)
qed

lemma parseTopLevelDeclaration_reads:
  assumes p: "wellFormed p" and n: "8 * remaining p + 6 \<le> n"
  shows "wp (parseTopLevelDeclaration n) (parsed True declarationAt p) p"
  unfolding parseTopLevelDeclaration_def
proof (rule wp_inspect, rule wp_if)
  assume "looksLikeStructDefinition p"
  then have "atLexeme ''struct'' p" by (simp add: looksLikeStructDefinition_def)
  then show "wp (parseStructDeclaration n) (parsed True declarationAt p) p"
    using n by (intro parseStructDeclaration_reads [OF p]) simp_all
next
  show "wp (whenLexeme ''typedef'' parseTypedefDeclaration
       (readStorage (\<lambda>storage. andThen parseType (parseDeclarationAfterPrefix n storage)))) (parsed True declarationAt p) p"
  proof (rule wp_whenLexeme [OF trace_start [OF p]], simp)
    fix u q
    assume q: "trace (True \<and> lexemeIs ''typedef'' u) ([] @ [u]) p q" "cursor p < cursor q"
    then show "wp parseTypedefDeclaration (parsed True declarationAt p) q" by (intro parseTypedefDeclaration_reads) simp_all
  next
    show "wp (readStorage (\<lambda>storage. andThen parseType (parseDeclarationAfterPrefix n storage))) (parsed True declarationAt p) p"
    proof (rule wp_readStorage [OF trace_start [OF p]], rule wp_call, assumption, rule parseType_reads, erule trace_wellFormed)
      fix ss st q ts ty r
      assume r: "trace ((True \<and> storageE ss st) \<and> typeName ts ty) (([] @ ss) @ ts) p r" and g: "goes p q" "True \<Longrightarrow> cursor q < cursor r"
      have "cursor p < cursor r" using g by (auto simp: goes_def)
      then show "wp (parseDeclarationAfterPrefix n st ty) (parsed True declarationAt p) r"
        using r n by (intro parseDeclarationAfterPrefix_reads) simp_all
    qed
  qed
qed

section \<open>The loop over the declarations\<close>

definition roundE :: "Token list \<Rightarrow> Decl list \<Rightarrow> Parser \<Rightarrow> bool" where
  "roundE ts es q \<longleftrightarrow> (\<forall>us ds k. currentKind q = nextKind us k \<longrightarrow> unitE us k ds \<longrightarrow> unitE (ts @ us) k (es @ ds))"

lemma skip_after:
  assumes "goes p q"
  obtains nl r where "skipNewlines q = Some r" "eats nl q r" "newlines nl" "goes p r" "cursor q \<le> cursor r"
    "parseDiagnostics r = parseDiagnostics q"
proof -
  obtain nl r where "skipNewlines q = Some r" "eats nl q r" "newlines nl"
    using skipNewlines_eats [OF goes_wellFormed [OF assms]] by blast
  then show thesis using that goes_trans [OF assms eats_goes] by (simp add: eats_def)
qed

text \<open>A round returns; a round that does not move the cursor is at a closing brace, has reported and added nothing.\<close>

lemma declarationStep_reads:
  assumes p: "wellFormed p" and n: "8 * remaining p + 6 \<le> n" and more: "\<not> atKind TEnd p"
  shows "\<exists>es q. declarationStep n (ds, p) = Some (ds @ es, q) \<and> goes p q \<and> (cursor p < cursor q \<or> atKind TRBrace p) \<and>
    (parseDiagnostics q = parseDiagnostics p \<longrightarrow> cursor p < cursor q \<and> (\<exists>ts. eats ts p q \<and> roundE ts es q))"
proof (cases "atKind TSemicolon p")
  case True
  then have b: "eats [currentToken p] p (bump p)" using eats_bump p by (simp add: atKind_def)
  obtain nl r where r: "skipNewlines (bump p) = Some r" "eats nl (bump p) r" "newlines nl" "goes p r" "cursor (bump p) \<le> cursor r"
    by (rule skip_after [OF eats_goes [OF b]])
  have "eats ([currentToken p] @ nl) p r" by (rule eats_trans [OF b r(2)])
  moreover have "roundE (currentToken p # nl) [] r"
    using True r(3) unit_empty [of "currentToken p" nl] by (auto simp: roundE_def atKind_def)
  moreover have "cursor p < cursor r" using r(5) by (simp add: bump_def)
  ultimately show ?thesis using True r(1,4) by (intro exI [of _ "[]"] exI [of _ r]) (auto simp: declarationStep_def)
next
  case False
  obtain q d where q: "parseTopLevelDeclaration n p = Some (q, d)" and d: "parsed True declarationAt p q d"
    using parseTopLevelDeclaration_reads [OF p n] unfolding wp_def by blast
  show ?thesis
  proof (cases d)
    case None
    have g: "goes p q" "parseDiagnostics q \<noteq> parseDiagnostics p" using d None by (auto simp: parsed_def)
    obtain q1 where q1: "recoverDeclaration q = Some (q1, Some ())" "goes q q1" "atKind TEnd q \<or> atKind TRBrace q \<or> cursor q < cursor q1"
      using recoverDeclaration_total [OF goes_wellFormed [OF g(1)]] by blast
    obtain nl r where r: "skipNewlines q1 = Some r" "goes p r" "cursor q1 \<le> cursor r" "parseDiagnostics r = parseDiagnostics q1"
      by (rule skip_after [OF goes_trans [OF g(1) q1(2)]])
    have "parseDiagnostics r \<noteq> parseDiagnostics p" using goes_clean [OF g(1) q1(2)] g(2) r(4) by auto
    moreover have "cursor p < cursor r \<or> atKind TRBrace p"
    proof (cases "cursor q = cursor p")
      case True
      then have "currentToken q = currentToken p" using g(1) by (intro current_cong) (simp_all add: goes_def)
      then show ?thesis using q1(3) more True r(3) by (auto simp: atKind_def)
    next
      case False
      then show ?thesis using g(1) q1(2) r(3) by (simp add: goes_def)
    qed
    ultimately show ?thesis using False q None q1(1) r(1,2)
      by (intro exI [of _ "[]"] exI [of _ r]) (simp add: declarationStep_def)
  next
    case (Some x)
    have g: "goes p q" "cursor p < cursor q" using d Some by (auto simp: parsed_def)
    obtain nl r where r: "skipNewlines q = Some r" "eats nl q r" "newlines nl" "goes p r" "cursor q \<le> cursor r" "parseDiagnostics r = parseDiagnostics q"
      by (rule skip_after [OF g(1)])
    have "\<exists>ts. eats ts p r \<and> roundE ts [x] r" if clean: "parseDiagnostics r = parseDiagnostics p"
    proof -
      obtain ts where ts: "eats ts p q" "declarationE ts (currentKind q) x" using d Some clean r(6) by (auto simp: parsed_def)
      have "currentKind q = nextKind nl (currentKind r)" by (rule eats_next [OF r(2) goes_wellFormed [OF g(1)]])
      then have "roundE (ts @ nl) [x] r" using ts(2) r(3) unit_declaration [of ts nl]
        unfolding roundE_def by (cases nl) (auto simp: nextKind_def)
      then show ?thesis using eats_trans [OF ts(1) r(2)] by blast
    qed
    then show ?thesis using False q Some r(1,4,5) g(2) by (intro exI [of _ "[x]"] exI [of _ r]) (auto simp: declarationStep_def)
  qed
qed

lemma declarationLoop_sound:
  assumes "wellFormed p" and "8 * remaining p + 6 \<le> n" and "declarationLoop n k (ds, p) = Some (es, q)"
  shows "goes p q \<and> atKind TEnd q \<and> (parseDiagnostics q = parseDiagnostics p \<longrightarrow>
    (\<exists>ts fs. eats ts p q \<and> es = ds @ fs \<and> unitE ts TEnd fs))"
  using assms
proof (induction k arbitrary: ds p)
  case (Suc k)
  show ?case
  proof (cases "atKind TEnd p")
    case True
    then show ?thesis using Suc.prems by (auto intro!: exI [of _ "[]"] eats_refl unit_end)
  next
    case False
    obtain fs r where r: "declarationStep n (ds, p) = Some (ds @ fs, r)" "goes p r"
      "parseDiagnostics r = parseDiagnostics p \<longrightarrow> (\<exists>ts. eats ts p r \<and> roundE ts fs r)"
      using declarationStep_reads [OF Suc.prems(1,2) False] by blast
    have "declarationLoop n k (ds @ fs, r) = Some (es, q)" using Suc.prems(3) False r(1) by simp
    moreover have "8 * remaining r + 6 \<le> n" using goes_remaining [OF r(2)] Suc.prems(2) by simp
    ultimately have IH: "goes r q" "atKind TEnd q"
      "parseDiagnostics q = parseDiagnostics r \<longrightarrow> (\<exists>ts gs. eats ts r q \<and> es = (ds @ fs) @ gs \<and> unitE ts TEnd gs)"
      using Suc.IH goes_wellFormed [OF r(2)] by blast+
    have "\<exists>ts hs. eats ts p q \<and> es = ds @ hs \<and> unitE ts TEnd hs" if clean: "parseDiagnostics q = parseDiagnostics p"
    proof -
      have rp: "parseDiagnostics r = parseDiagnostics p" by (rule goes_clean [OF r(2) IH(1) clean])
      then obtain ts where ts: "eats ts p r" "roundE ts fs r" using r(3) by blast
      obtain us gs where us: "eats us r q" "es = (ds @ fs) @ gs" "unitE us TEnd gs" using IH(3) clean rp by auto
      have "currentKind r = nextKind us TEnd"
        using eats_next [OF us(1) goes_wellFormed [OF r(2)]] IH(2) by (simp add: atKind_def)
      then have "unitE (ts @ us) TEnd (fs @ gs)" using ts(2) us(3) unfolding roundE_def by blast
      then show ?thesis using eats_trans [OF ts(1) us(1)] us(2) by (intro exI [of _ "ts @ us"] exI [of _ "fs @ gs"]) simp
    qed
    then show ?thesis using goes_trans [OF r(2) IH(1)] IH(2) by blast
  qed
qed simp

end
