(* ===== verification/CCompat_Accept.thy ===== *)
theory CCompat_Accept
  imports CCompat_SoundDecl
begin

text \<open>
  The C compatibility front end as a whole: what an accepted source text consists of, when the parser returns,
  and the two places where it does not do what it means to: a closing brace between declarations and the
  terminator of the initialiser of a \<open>for\<close> statement.
\<close>

section \<open>The tokens of a source text\<close>

lemma tokenised_tokens:
  "tokenised f p text toks ds \<Longrightarrow> \<exists>ts q. toks = ts @ [endToken f q] \<and> length ts \<le> length text \<and>
     (\<forall>t \<in> set ts. tok_kind t \<noteq> TEnd \<and> (tok_kind t = TRBrace \<longrightarrow> tok_lexeme t = ''}''))"
proof (induction rule: tokenised.induct)
  case (tokenised_token g t rest k q p tok f toks ds)
  then obtain ts r where ts: "toks = ts @ [endToken f r]" "length ts \<le> length rest"
    "\<forall>t \<in> set ts. tok_kind t \<noteq> TEnd \<and> (tok_kind t = TRBrace \<longrightarrow> tok_lexeme t = ''}'')" by blast
  have "0 < length t" using denotes_nonempty [OF tokenised_token.hyps(3)] by simp
  moreover have "tok_kind tok \<noteq> TEnd \<and> (tok_kind tok = TRBrace \<longrightarrow> tok_lexeme tok = ''}'')"
    using tokenised_token.hyps(3,5) by (cases k) (auto simp: tokenAt_def lexemeOf_def punctuationKind_def split: if_splits)
  moreover have "length (tok # ts) \<le> length (g @ t @ rest)" using \<open>0 < length t\<close> ts(2) by (simp del: length_greater_0_conv)
  ultimately show ?case using ts by (intro exI [of _ "tok # ts"] exI [of _ r]) simp
qed (simp_all del: split_paired_Ex, blast+)

lemma source_tokenised: "\<exists>toks q. fst (lexCCompatSource source fileName) = toks @ [endToken fileName q] \<and>
    tokenised fileName (1, 1) source (toks @ [endToken fileName q]) (snd (lexCCompatSource source fileName))"
proof -
  let ?lx = "\<lparr>lx_rest = source, lx_fileName = fileName, lx_line = 1, lx_column = 1, lx_tokens = [], lx_diagnostics = []\<rparr>"
  from lexLoop_tokenised [of ?lx] obtain toks ds where toks: "found (lexLoop ?lx) = (toks, ds)" "lx_fileName (lexLoop ?lx) = fileName"
    "tokenised fileName (1, 1) source (toks @ [endToken fileName (lx_position (lexLoop ?lx))]) ds"
    by (auto simp: lx_position_def)
  then show ?thesis
    by (intro exI [of _ toks] exI [of _ "lx_position (lexLoop ?lx)"])
      (simp add: lexCCompatSource_def Let_def endToken_def location_at found_def)
qed

lemma source_tokens:
  obtains ts q where "fst (lexCCompatSource source fileName) = ts @ [endToken fileName q]" "length ts \<le> length source"
    "\<forall>t \<in> set ts. tok_kind t \<noteq> TEnd \<and> (tok_kind t = TRBrace \<longrightarrow> tok_lexeme t = ''}'')"
proof -
  obtain toks q where "fst (lexCCompatSource source fileName) = toks @ [endToken fileName q]"
    "tokenised fileName (1, 1) source (toks @ [endToken fileName q]) (snd (lexCCompatSource source fileName))"
    using source_tokenised by blast
  then show thesis using tokenised_tokens that by fastforce
qed

lemma tokenised_identifiers:
  "tokenised f p text toks ds \<Longrightarrow> \<forall>t \<in> set toks. tok_kind t = TIdentifier \<longrightarrow> tok_lexeme t \<noteq> []"
  by (induction rule: tokenised.induct) (auto simp: endToken_def tokenAt_def lexemeOf_def)

lemma source_identifiers: "t \<in> set (fst (lexCCompatSource source fileName)) \<Longrightarrow> tok_kind t = TIdentifier \<Longrightarrow> tok_lexeme t \<noteq> []"
  using source_tokenised [of source fileName] tokenised_identifiers by metis

lemma wellFormed_newParser: "wellFormed (newParser (ts @ [endToken f q]))"
  by (simp add: wellFormed_def newParser_def endToken_def)

section \<open>Accepted files\<close>

text \<open>The tokens before the first end token are all the tokens but the last.\<close>

lemma read_to_end:
  assumes ts: "\<forall>t \<in> set ts. tok_kind t \<noteq> TEnd" and us: "eats us (newParser (ts @ [e])) q" and fin: "atKind TEnd q"
  shows "ts @ [e] = us @ [currentToken q]"
proof -
  have q: "wellFormed q" "tokens q = ts @ [e]" "cursor q = length us" "ts @ [e] = us @ drop (length us) (ts @ [e])"
    using us unfolding eats_def goes_def newParser_def by (simp_all only: Parser.simps drop_0 add_0, metis)
  have cur: "currentToken q = (ts @ [e]) ! length us" using q(2,3) current_nth [OF q(1)] by simp
  have "\<not> length us < length ts"
  proof
    assume "length us < length ts"
    then have "currentToken q \<in> set ts" using cur by (simp add: nth_append)
    then show False using ts fin by (auto simp: atKind_def)
  qed
  moreover have "length us \<le> length ts" using q(1,2,3) by (simp add: wellFormed_def)
  ultimately have "length us = length ts" by simp
  then have "drop (length us) (ts @ [e]) = [currentToken q]" using cur by simp
  then show ?thesis using q(4) by (simp only:)
qed


lemma parse_sound:
  assumes p: "wellFormed p" and n: "8 * remaining p + 6 \<le> n" and r: "parse n p = Some r" and d: "parseDiagnostics p = []"
  shows "case result_unit r of
      None \<Rightarrow> result_diagnostics r \<noteq> []
    | Some ds \<Rightarrow> result_diagnostics r = [] \<and>
        (\<exists>nl ts q. newlines nl \<and> eats (nl @ ts) p q \<and> atKind TEnd q \<and> unitE ts TEnd ds)"
proof -
  obtain nl q where q: "skipNewlines p = Some q" "eats nl p q" "newlines nl" using skipNewlines_eats [OF p] by blast
  obtain ds s where s: "declarationLoop n n ([], q) = Some (ds, s)"
    "r = \<lparr>result_unit = if parseDiagnostics s = [] then Some ds else None, result_diagnostics = parseDiagnostics s\<rparr>"
    using r q(1) by (auto simp: parse_def)
  have n': "8 * remaining q + 6 \<le> n" using goes_remaining [OF eats_goes [OF q(2)]] n by simp
  have qd: "parseDiagnostics q = []" using q(2) d by (simp add: eats_def)
  show ?thesis
  proof (cases "parseDiagnostics s = []")
    case True
    then obtain ts where "eats ts q s" "atKind TEnd s" "unitE ts TEnd ds"
      using declarationLoop_sound [OF goes_wellFormed [OF eats_goes [OF q(2)]] n' s(1)] qd by auto
    then have "\<exists>nl ts q. newlines nl \<and> eats (nl @ ts) p q \<and> atKind TEnd q \<and> unitE ts TEnd ds"
      using q(3) eats_trans [OF q(2)] by blast
    then show ?thesis using True s(2) by simp
  qed (simp add: s(2))
qed

text \<open>Bounds that are enough for every source text of a length.\<close>

definition enough :: "string \<Rightarrow> nat" where
  "enough source = 8 * length source + 14"

lemma enough_tokens: "length ts \<le> length source \<Longrightarrow> enough source \<le> n \<Longrightarrow> 8 * remaining (newParser (ts @ [e])) + 6 \<le> n"
  by (simp add: enough_def remaining_def newParser_def)

lemma parseCCompatSource_derives:
  assumes "enough source \<le> n" and "parseCCompatSource n source fileName = Some r"
  shows "case result_unit r of
      None \<Rightarrow> result_diagnostics r \<noteq> []
    | Some ds \<Rightarrow> result_diagnostics r = [] \<and> snd (lexCCompatSource source fileName) = [] \<and>
        (\<exists>nl ts e. fst (lexCCompatSource source fileName) = nl @ ts @ [e] \<and> newlines nl \<and> tok_kind e = TEnd \<and> unitE ts TEnd ds)"
proof -
  obtain ts e where ts: "fst (lexCCompatSource source fileName) = ts @ [endToken fileName e]" "length ts \<le> length source"
    "\<forall>t \<in> set ts. tok_kind t \<noteq> TEnd \<and> (tok_kind t = TRBrace \<longrightarrow> tok_lexeme t = ''}'')"
    by (rule source_tokens)
  let ?p = "newParser (ts @ [endToken fileName e])"
  obtain r0 where r0: "parse n ?p = Some r0" and r: "r = (if snd (lexCCompatSource source fileName) = [] then r0
      else \<lparr>result_unit = None, result_diagnostics = snd (lexCCompatSource source fileName) @ result_diagnostics r0\<rparr>)"
    using assms(2) ts(1) by (auto simp: parseCCompatSource_def split: prod.splits)
  have sound: "case result_unit r0 of None \<Rightarrow> result_diagnostics r0 \<noteq> []
    | Some ds \<Rightarrow> result_diagnostics r0 = [] \<and> (\<exists>nl ts q. newlines nl \<and> eats (nl @ ts) ?p q \<and> atKind TEnd q \<and> unitE ts TEnd ds)"
    by (rule parse_sound [OF wellFormed_newParser enough_tokens [OF ts(2) assms(1)] r0]) (simp add: newParser_def)
  show ?thesis
  proof (cases "snd (lexCCompatSource source fileName) = []")
    case True
    show ?thesis
    proof (cases "result_unit r0")
      case None
      then show ?thesis using True sound r by simp
    next
      case (Some ds)
      then obtain nl us q where us: "newlines nl" "eats (nl @ us) ?p q" "atKind TEnd q" "unitE us TEnd ds" and clean: "result_diagnostics r0 = []"
        using sound by auto
      have "fst (lexCCompatSource source fileName) = nl @ us @ [currentToken q]" using read_to_end [OF _ us(2,3)] ts(1,3) by simp
      then show ?thesis using True Some us(1,3,4) clean r by (auto simp: atKind_def)
    qed
  qed (simp add: r)
qed

text \<open>
  C5. Whatever \<open>parseCCompatSource\<close> returns is decided by the grammar. If it returns a unit, neither the lexer
  nor the parser reported anything, the tokens of the text are newlines, the declarations of the unit one after
  the other, and the end token, and each declaration is the tree of a derivation of its tokens. If it returns
  no unit, it returns at least one diagnostic. The recursion bound is linear in the length of the text.
\<close>

theorem parseCCompatSource_sound:
  assumes "enough source \<le> n" and "parseCCompatSource n source fileName = Some r"
  shows "case result_unit r of
      None \<Rightarrow> result_diagnostics r \<noteq> []
    | Some ds \<Rightarrow> result_diagnostics r = [] \<and> snd (lexCCompatSource source fileName) = [] \<and>
        (\<exists>nl ts e. fst (lexCCompatSource source fileName) = nl @ ts @ [e] \<and> newlines nl \<and> tok_kind e = TEnd \<and> unitE ts TEnd ds)"
  using assms by (rule parseCCompatSource_derives)

text \<open>Evaluation of the parser on concrete tokens by rewriting.\<close>

lemma while_stop: "\<not> b s \<Longrightarrow> while_option b c s = Some s"
  by (simp add: while_option_unfold)

lemma while_go: "b s \<Longrightarrow> while_option b c s = while_option b c (c s)"
  by (subst while_option_unfold) simp

lemmas evaluation = while_stop while_go parse_def newParser_def skipNewlines_def
  declarationStep_def parseTopLevelDeclaration_def inspect_def looksLikeStructDefinition_def whenLexeme_def whenKind_def
  readStorage_def isStorageClass_def atLexeme_def atKind_def andThen_def ret_def reject_def step_def loop_def
  parseType_def atQualifier_def readQualifier_def isQualifier_def ctype_def parseBase_def
  parseDeclarationAfterPrefix_def parseDeclarator_def readPointers_def parseArraySuffix_def
  parseVariableAfterPrefix_def consumeTerminator_def currentToken_def lookAhead_def bump_def

theorem parseCCompatSource_sound_witness:
  "\<exists>r d ts. parseCCompatSource 62 ''int x;'' ''a.c'' = Some r \<and> result_unit r = Some [d] \<and> unitE ts TEnd [d] \<and>
     (\<exists>nl e. fst (lexCCompatSource ''int x;'' ''a.c'') = nl @ ts @ [e])"
proof -
  let ?ts = "[tokenAt ''a.c'' (1,1) TIdentifier ''int'', tokenAt ''a.c'' (1,5) TIdentifier ''x'', tokenAt ''a.c'' (1,6) TSemicolon '';'',
    endToken ''a.c'' (1,7)]"
  have lex: "lexCCompatSource ''int x;'' ''a.c'' = (?ts, [])" by code_simp
  have "map_option (\<lambda>r. map_option length (result_unit r)) (parse 62 (newParser ?ts)) = Some (Some 1)"
    by (simp add: evaluation tokenAt_def lexemeOf_def endToken_def numeral_eq_Suc)
  then obtain r d where r: "parseCCompatSource 62 ''int x;'' ''a.c'' = Some r" "result_unit r = Some [d]"
    using lex by (auto simp: parseCCompatSource_def length_Suc_conv)
  have "enough ''int x;'' \<le> 62" by (simp add: enough_def)
  then show ?thesis using parseCCompatSource_sound [OF _ r(1)] r by auto
qed

section \<open>When the parser returns\<close>

text \<open>The states at the head of the loop over the declarations.\<close>

inductive rounds :: "nat \<Rightarrow> Decl list \<times> Parser \<Rightarrow> Decl list \<times> Parser \<Rightarrow> bool" for n where
  rounds_start: "rounds n s s"
| rounds_step: "\<not> atKind TEnd (snd s) \<Longrightarrow> declarationStep n s = Some s' \<Longrightarrow> rounds n s' t \<Longrightarrow> rounds n s t"

lemma parseType_at_brace: "atKind TRBrace p \<Longrightarrow> parseType p = Some (errorHere ''expected C type'' p, None)"
  by (simp add: parseType_def inspect_def while_option_unfold [of _ _ "(p, _)"] atQualifier_def atKind_def whenKind_def reject_def)

lemma declarationStep_at_brace:
  assumes b: "atKind TRBrace p" and l: "atLexeme ''}'' p"
  shows "declarationStep n (ds, p) = Some (ds, errorHere ''expected C type'' p)"
proof -
  let ?e = "errorHere ''expected C type'' p"
  have e: "currentToken ?e = currentToken p" by (intro current_cong) (simp_all add: errorHere_def errorAt_def)
  have "parseTopLevelDeclaration n p = Some (?e, None)"
    using l parseType_at_brace [OF b]
    by (simp add: parseTopLevelDeclaration_def inspect_def looksLikeStructDefinition_def whenLexeme_def readStorage_def isStorageClass_def
        atLexeme_def andThen_def)
  moreover have "recoverDeclaration ?e = Some (?e, Some ())"
    using b by (simp add: recoverDeclaration_def loop_def while_option_unfold [of _ _ ?e] atRecovery_def atKind_def e
        consumeTerminator_def whenKind_def inspect_def ret_def)
  moreover have "skipNewlines ?e = Some ?e"
    using b by (simp add: skipNewlines_def while_option_unfold [of _ _ ?e] atKind_def e)
  ultimately show ?thesis using b by (simp add: declarationStep_def atKind_def)
qed

lemma declarationLoop_at_brace: "atKind TRBrace p \<Longrightarrow> atLexeme ''}'' p \<Longrightarrow> declarationLoop n k (ds, p) = None"
proof (induction k arbitrary: p)
  case (Suc k)
  let ?e = "errorHere ''expected C type'' p"
  have "currentToken ?e = currentToken p" by (intro current_cong) (simp_all add: errorHere_def errorAt_def)
  then have "atKind TRBrace ?e" "atLexeme ''}'' ?e" using Suc.prems by (simp_all add: atKind_def atLexeme_def)
  then show ?case using Suc declarationStep_at_brace [OF Suc.prems] by (simp add: atKind_def)
qed simp

text \<open>Braces are spelled as braces.\<close>

definition spelled :: "Parser \<Rightarrow> bool" where
  "spelled p \<longleftrightarrow> (\<forall>t \<in> set (tokens p). tok_kind t = TRBrace \<longrightarrow> tok_lexeme t = ''}'')"

lemma spelled_brace: "spelled p \<Longrightarrow> wellFormed p \<Longrightarrow> atKind TRBrace p \<Longrightarrow> atLexeme ''}'' p"
  by (auto simp: spelled_def atKind_def atLexeme_def current_nth wellFormed_def)

lemma rounds_at_brace:
  assumes "rounds n s t" and "atKind TRBrace (snd t)" and "wellFormed (snd s)" and "spelled (snd s)" and "8 * remaining (snd s) + 6 \<le> n"
  shows "declarationLoop n k s = None"
  using assms
proof (induction arbitrary: k rule: rounds.induct)
  case (rounds_start s)
  then show ?case using declarationLoop_at_brace [of "snd s" n k "fst s"] spelled_brace by simp
next
  case (rounds_step s s' t)
  obtain ds p where s: "s = (ds, p)" by (cases s)
  obtain es q where q: "declarationStep n (ds, p) = Some (ds @ es, q)" "goes p q"
    using declarationStep_reads [of p n ds] rounds_step s by auto
  then have s': "s' = (ds @ es, q)" using rounds_step.hyps(2) s by simp
  have "wellFormed q" "spelled q" "8 * remaining q + 6 \<le> n"
    using goes_wellFormed [OF q(2)] goes_remaining [OF q(2)] rounds_step.prems s q(2) by (auto simp: spelled_def goes_def)
  then have "declarationLoop n k s' = None" for k using rounds_step.IH rounds_step.prems(1) s' by simp
  then show ?case using rounds_step.hyps(1,2) by (cases k) simp_all
qed

lemma declarationLoop_returns:
  assumes "wellFormed p" and "8 * remaining p + 6 \<le> n" and "remaining p \<le> k"
    and "\<And>t. rounds n (ds, p) t \<Longrightarrow> \<not> atKind TRBrace (snd t)"
  shows "declarationLoop n k (ds, p) \<noteq> None"
  using assms
proof (induction k arbitrary: ds p)
  case 0
  then show ?case using remaining_pos [of p] by simp
next
  case (Suc k)
  show ?case
  proof (cases "atKind TEnd p")
    case False
    obtain es q where q: "declarationStep n (ds, p) = Some (ds @ es, q)" "goes p q" "cursor p < cursor q \<or> atKind TRBrace p"
      using declarationStep_reads [OF Suc.prems(1,2) False] by blast
    have "cursor p < cursor q" using q(3) Suc.prems(4) [OF rounds_start] by simp
    then have "remaining q < remaining p" by (rule goes_remaining_less [OF q(2)])
    moreover have "\<not> atKind TRBrace (snd t)" if "rounds n (ds @ es, q) t" for t
      using Suc.prems(4) [OF rounds_step [OF _ q(1) that]] False by simp
    ultimately have "declarationLoop n k (ds @ es, q) \<noteq> None"
      using Suc.IH [OF goes_wellFormed [OF q(2)]] Suc.prems(2,3) by simp
    then show ?thesis using False q(1) by simp
  qed simp
qed

definition firstRound :: "string \<Rightarrow> string \<Rightarrow> Parser" where
  "firstRound source fileName =
     (let p = newParser (fst (lexCCompatSource source fileName)) in case skipNewlines p of None \<Rightarrow> p | Some q \<Rightarrow> q)"

text \<open>
  C6. With the bound of the previous property the parser returns exactly when no round of the loop over the
  declarations starts at a closing brace: a round at any other token moves the cursor, a round at a closing
  brace never does.
\<close>

theorem parseCCompatSource_returns_iff:
  assumes "enough source \<le> n"
  shows "parseCCompatSource n source fileName \<noteq> None \<longleftrightarrow>
    \<not> (\<exists>ds q. rounds n ([], firstRound source fileName) (ds, q) \<and> atKind TRBrace q)"
proof -
  obtain ts e where ts: "fst (lexCCompatSource source fileName) = ts @ [endToken fileName e]" "length ts \<le> length source"
    "\<forall>t \<in> set ts. tok_kind t \<noteq> TEnd \<and> (tok_kind t = TRBrace \<longrightarrow> tok_lexeme t = ''}'')"
    by (rule source_tokens)
  let ?p = "newParser (ts @ [endToken fileName e])"
  obtain nl q where q: "skipNewlines ?p = Some q" "eats nl ?p q" using skipNewlines_eats [OF wellFormed_newParser] by blast
  have first: "firstRound source fileName = q" using q(1) ts(1) by (simp add: firstRound_def)
  have n: "8 * remaining q + 6 \<le> n" using goes_remaining [OF eats_goes [OF q(2)]] enough_tokens [OF ts(2) assms] by (meson add_le_mono1 le_trans mult_le_mono2)
  have wf: "wellFormed q" by (rule goes_wellFormed [OF eats_goes [OF q(2)]])
  have "tokens q = ts @ [endToken fileName e]" using q(2) by (simp add: eats_def goes_def newParser_def)
  then have sp: "spelled q" using ts(3) by (auto simp: spelled_def endToken_def)
  have "parseCCompatSource n source fileName \<noteq> None \<longleftrightarrow> declarationLoop n n ([], q) \<noteq> None"
    using q(1) ts(1) by (auto simp: parseCCompatSource_def parse_def split: prod.splits)
  moreover have "declarationLoop n n ([], q) = None" if "rounds n ([], q) (ds, r)" "atKind TRBrace r" for ds r
    using rounds_at_brace [OF that(1)] that(2) wf sp n by simp
  moreover have "declarationLoop n n ([], q) \<noteq> None" if "\<not> (\<exists>ds r. rounds n ([], q) (ds, r) \<and> atKind TRBrace r)"
    by (rule declarationLoop_returns [OF wf n]) (use n that in auto)
  ultimately show ?thesis unfolding first by (cases "\<exists>ds r. rounds n ([], q) (ds, r) \<and> atKind TRBrace r") auto
qed

theorem parseCCompatSource_returns_iff_witness:
  "\<not> (\<exists>ds q. rounds 22 ([], firstRound '';'' ''a.c'') (ds, q) \<and> atKind TRBrace q)"
proof -
  have "parseCCompatSource 22 '';'' ''a.c'' \<noteq> None" by code_simp
  moreover have "enough '';'' \<le> 22" by (simp add: enough_def)
  ultimately show ?thesis using parseCCompatSource_returns_iff [of "'';''" 22 "''a.c''"] by blast
qed

text \<open>
  C36. A file whose first token is a closing brace keeps the parser in its loop: \<open>parseCCompatSource\<close> returns
  for no recursion bound.
\<close>

theorem parseCCompatSource_stray_brace:
  assumes "fst (lexCCompatSource source fileName) = t # rest" and "tok_kind t = TRBrace"
  shows "parseCCompatSource n source fileName = None"
proof -
  let ?p = "newParser (t # rest)"
  obtain ts e where ts: "t # rest = ts @ [endToken fileName e]"
    "\<forall>t \<in> set ts. tok_kind t \<noteq> TEnd \<and> (tok_kind t = TRBrace \<longrightarrow> tok_lexeme t = ''}'')"
    using source_tokens [of source fileName] assms(1) by metis
  then have l: "tok_lexeme t = ''}''" using assms(2) by (cases ts) (auto simp: endToken_def)
  have cur: "currentToken ?p = t" by (simp add: currentToken_def lookAhead_def newParser_def Let_def)
  have "skipNewlines ?p = Some ?p"
    using assms(2) by (simp add: skipNewlines_def while_option_unfold [of _ _ ?p] atKind_def cur)
  moreover have "declarationLoop n n ([], ?p) = None"
    by (rule declarationLoop_at_brace) (simp_all add: atKind_def atLexeme_def cur assms(2) l)
  ultimately show ?thesis using assms(1) by (cases "lexCCompatSource source fileName") (simp add: parseCCompatSource_def parse_def)
qed

theorem parseCCompatSource_stray_brace_witness: "\<forall>n. parseCCompatSource n ''}'' ''a.c'' = None"
proof
  fix n
  have lex: "fst (lexCCompatSource ''}'' ''a.c'') = [\<lparr>tok_kind = TRBrace, tok_lexeme = ''}'',
      tok_range = \<lparr>range_begin = at ''a.c'' (1, 1), range_end = at ''a.c'' (1, 2)\<rparr>\<rparr>, endToken ''a.c'' (1, 2)]"
    by code_simp
  show "parseCCompatSource n ''}'' ''a.c'' = None"
    by (rule parseCCompatSource_stray_brace [OF lex]) simp
qed

section \<open>The initialiser of a for statement\<close>

text \<open>An initialiser without the separator that ends it.\<close>

inductive unterminated :: "Token list \<Rightarrow> Stmt \<Rightarrow> bool" where
  unterminated_declaration: "storageE ss (var_storage v) \<Longrightarrow> typeName us (var_type v) \<Longrightarrow> declarator ds (var_declarator v) \<Longrightarrow>
    initializerE is (var_initializer v) \<Longrightarrow> unterminated (ss @ us @ ds @ is) (DeclStmt v r)"
| unterminated_expression: "expressionE ts e \<Longrightarrow> unterminated ts (ExprStmt e r)"

lemma terminator_before_semicolon:
  assumes "terminator False ts TSemicolon"
  obtains z nl where "ts = z # nl" "kindIs TSemicolon z \<or> kindIs TNewline z" "newlines nl"
  using assms by (cases; cases ts) (auto simp: newlines_def)

lemma simpleE_before_semicolon:
  assumes "simpleE False ts TSemicolon i"
  obtains core z nl where "ts = core @ z # nl" "unterminated core i" "kindIs TSemicolon z \<or> kindIs TNewline z" "newlines nl"
  using assms
proof cases
  case (local_variable v r)
  then obtain ss us ds "is" es where v: "ts = (ss @ us @ ds @ is) @ es" "storageE ss (var_storage v)" "typeName us (var_type v)"
    "declarator ds (var_declarator v)" "initializerE is (var_initializer v)" "terminator False es TSemicolon"
    unfolding variableE_def by auto
  obtain z nl where "es = z # nl" "kindIs TSemicolon z \<or> kindIs TNewline z" "newlines nl"
    using terminator_before_semicolon [OF v(6)] .
  then show thesis using that [of "ss @ us @ ds @ is" z nl] v unterminated_declaration local_variable(1) by simp
next
  case (expression_statement us e vs r)
  obtain z nl where "vs = z # nl" "kindIs TSemicolon z \<or> kindIs TNewline z" "newlines nl"
    using terminator_before_semicolon [OF expression_statement(4)] .
  then show thesis using that [of us z nl] expression_statement unterminated_expression by simp
qed

inductive_cases for_cases: "statementE ts k (ForStmt i c e s r)"

text \<open>The header of a \<open>for\<close> statement as it is read when there is an initialiser: the third separator is \<open>a\<close>.\<close>

definition forHeader :: "Token list \<Rightarrow> Stmt \<Rightarrow> Expr option \<Rightarrow> Expr option \<Rightarrow> Token list \<Rightarrow> bool" where
  "forHeader ts i c e body \<longleftrightarrow> (\<exists>t l n1 core z nl a n2 cs b n3 ps d n4.
     ts = t # l # n1 @ core @ z # nl @ a # n2 @ cs @ b # n3 @ ps @ d # n4 @ body \<and>
     lexemeIs ''for'' t \<and> kindIs TLParen l \<and> newlines n1 \<and>
     unterminated core i \<and> (kindIs TSemicolon z \<or> kindIs TNewline z) \<and> newlines nl \<and> kindIs TSemicolon a \<and> newlines n2 \<and>
     optionalE cs c \<and> kindIs TSemicolon b \<and> newlines n3 \<and> optionalE ps e \<and> kindIs TRParen d \<and> newlines n4)"

lemma for_header:
  assumes "statementE ts k (ForStmt (Some i) c e s r)"
  shows "\<exists>body. forHeader ts i c e body \<and> statementE body k s"
proof (rule for_cases [OF assms])
  assume "simpleE True ts k (ForStmt (Some i) c e s r)"
  then show ?thesis by (auto elim: simpleE.cases)
next
  fix t l n1 "is" a n2 cs b n3 ps d n4 us
  assume f: "ts = t # l # n1 @ is @ a # n2 @ cs @ b # n3 @ ps @ d # n4 @ us" "lexemeIs ''for'' t" "kindIs TLParen l" "newlines n1"
    "forInitE is (Some i)" "kindIs TSemicolon a" "newlines n2" "optionalE cs c" "kindIs TSemicolon b" "newlines n3" "optionalE ps e"
    "kindIs TRParen d" "newlines n4" "statementE us k s"
  from f(5) have "simpleE False is TSemicolon i" by (auto elim: forInitE.cases)
  then obtain core z nl where "is = core @ z # nl" "unterminated core i" "kindIs TSemicolon z \<or> kindIs TNewline z" "newlines nl"
    by (rule simpleE_before_semicolon)
  note g = this
  have h: "ts = t # l # n1 @ core @ z # nl @ a # n2 @ cs @ b # n3 @ ps @ d # n4 @ us" using f(1) g(1) by simp
  have "forHeader ts i c e us" unfolding forHeader_def
    using h f(2-4,6-13) g(2-4) by blast
  with f(14) show ?thesis by blast
qed

definition eaten :: "Parser \<Rightarrow> Parser \<Rightarrow> Token list" where
  "eaten p q = take (cursor q - cursor p) (drop (cursor p) (tokens p))"

lemma eats_eaten: "eats ts p q \<Longrightarrow> eaten p q = ts"
  by (simp add: eats_def eaten_def)

text \<open>
  C37. A \<open>for\<close> statement with an initialiser that is read without a diagnostic has three separators in its header:
  the initialiser is read as a statement and takes the separator that ends it, a semicolon or a newline; the header
  then asks for a semicolon of its own, for the condition and the semicolon after it, and for the step and the closing
  parenthesis.  So the usual header, with two semicolons, is never accepted.
\<close>

theorem forStatement_initializer:
  assumes "wellFormed p" and "8 * remaining p + 7 \<le> n"
  shows "\<exists>q r. statementP (stmtParsers n) p = Some (q, r) \<and> cursor q < length (tokens p) \<and>
    (\<forall>i c e s x. r = Some (ForStmt (Some i) c e s x) \<longrightarrow> parseDiagnostics q = parseDiagnostics p \<longrightarrow>
      (\<exists>body. forHeader (eaten p q) i c e body \<and> statementE body (currentKind q) s))"
proof -
  obtain q r where q: "statementP (stmtParsers n) p = Some (q, r)" and r: "parsed True statementAt p q r"
    using ready_stmtParsers [of n] assms unfolding stmtReady_def wp_def by blast
  have "\<exists>body. forHeader (eaten p q) i c e body \<and> statementE body (currentKind q) s"
    if f: "r = Some (ForStmt (Some i) c e s x)" "parseDiagnostics q = parseDiagnostics p" for i c e s x
  proof -
    obtain ts where ts: "eats ts p q" "statementE ts (currentKind q) (ForStmt (Some i) c e s x)"
      using r f by (auto simp: parsed_def)
    from for_header [OF ts(2)] show ?thesis unfolding eats_eaten [OF ts(1)] .
  qed
  moreover have "cursor q < length (tokens p)" using r by (auto simp: parsed_def goes_def wellFormed_def)
  ultimately show ?thesis using q by blast
qed

lemma forHeader_separators:
  assumes "forHeader ts i c e body" and "\<forall>t \<in> set ts. \<not> kindIs TNewline t"
  shows "\<exists>j. Suc j < length ts \<and> tok_kind (ts ! j) = TSemicolon \<and> tok_kind (ts ! Suc j) = TSemicolon"
proof -
  obtain xs z nl a ys where ts: "ts = xs @ z # nl @ a # ys" "kindIs TSemicolon z \<or> kindIs TNewline z" "newlines nl" "kindIs TSemicolon a"
    using assms(1) unfolding forHeader_def by (metis append_Cons append.assoc)
  then have "nl = []" "kindIs TSemicolon z" using assms(2) by (cases nl; auto simp: newlines_def)+
  then show ?thesis using ts by (intro exI [of _ "length xs"]) (simp add: nth_append)
qed

theorem forStatement_initializer_witness:
  "\<exists>q r. statementP (stmtParsers 95) (newParser (map2 (tokenAt ''a.c'' (1, 1))
      [TIdentifier, TLParen, TIdentifier, TOperator, TInteger, TSemicolon, TIdentifier, TSemicolon, TRParen, TSemicolon]
      [''for'', ''('', ''i'', ''='', ''0'', '';'', ''i'', '';'', '')'', '';''] @ [endToken ''a.c'' (1, 2)])) = Some (q, r) \<and>
     \<not> (\<exists>i c e s x. r = Some (ForStmt (Some i) c e s x) \<and> parseDiagnostics q = [])"
proof -
  define ts where "ts = map2 (tokenAt ''a.c'' (1, 1))
      [TIdentifier, TLParen, TIdentifier, TOperator, TInteger, TSemicolon, TIdentifier, TSemicolon, TRParen, TSemicolon]
      [''for'', ''('', ''i'', ''='', ''0'', '';'', ''i'', '';'', '')'', '';''] @ [endToken ''a.c'' (1, 2)]"
  let ?p = "newParser ts"
  have n: "8 * remaining ?p + 7 \<le> 95" by (simp add: remaining_def newParser_def ts_def)
  have p: "cursor ?p = 0" "tokens ?p = ts" "parseDiagnostics ?p = []" by (simp_all add: newParser_def)
  have kinds: "map tok_kind ts = [TIdentifier, TLParen, TIdentifier, TOperator, TInteger, TSemicolon, TIdentifier, TSemicolon, TRParen, TSemicolon, TEnd]"
    by (simp add: tokenAt_def endToken_def ts_def)
  have single: "\<not> (tok_kind (ts ! j) = TSemicolon \<and> tok_kind (ts ! Suc j) = TSemicolon)" if "Suc j < length ts" for j
  proof -
    let ?ks = "map tok_kind ts"
    have "list_all (\<lambda>j. \<not> (?ks ! j = TSemicolon \<and> ?ks ! Suc j = TSemicolon)) [0..<10]"
      unfolding kinds by code_simp
    moreover have "length ts = 11" using arg_cong [OF kinds, of length] by simp
    ultimately show ?thesis using that by (simp add: list_all_iff del: upt_Suc)
  qed
  have "TNewline \<notin> set (map tok_kind ts)" unfolding kinds by simp
  then have lines: "\<forall>t \<in> set ts. \<not> kindIs TNewline t" by force
  have wf: "wellFormed ?p" using wellFormed_newParser by (simp only: ts_def)
  obtain q r where q: "statementP (stmtParsers 95) ?p = Some (q, r)" "cursor q < length (tokens ?p)"
    "\<forall>i c e s x. r = Some (ForStmt (Some i) c e s x) \<longrightarrow> parseDiagnostics q = parseDiagnostics ?p \<longrightarrow>
      (\<exists>body. forHeader (eaten ?p q) i c e body \<and> statementE body (currentKind q) s)"
    using forStatement_initializer [OF wf n] by blast
  have e: "eaten ?p q = take (cursor q) ts" using p by (simp add: eaten_def)
  have "\<not> (\<exists>i c e s x. r = Some (ForStmt (Some i) c e s x) \<and> parseDiagnostics q = [])"
  proof
    assume "\<exists>i c e s x. r = Some (ForStmt (Some i) c e s x) \<and> parseDiagnostics q = []"
    then obtain i c e body where "forHeader (take (cursor q) ts) i c e body" using q(3) p e by metis
    moreover have "\<forall>t \<in> set (take (cursor q) ts). \<not> kindIs TNewline t" using lines by (auto dest: in_set_takeD)
    ultimately obtain j where "Suc j < length ts" "tok_kind (ts ! j) = TSemicolon" "tok_kind (ts ! Suc j) = TSemicolon"
      using forHeader_separators [of "take (cursor q) ts" i c e body] by auto
    then show False using single [of j] by simp
  qed
  then show ?thesis using q(1) unfolding ts_def by blast
qed

section \<open>The names of an accepted file\<close>

definition declaredName :: "Decl \<Rightarrow> string" where
  "declaredName d = (case d of
     VarDeclaration v \<Rightarrow> decl_name (var_declarator v) | FunctionDeclaration f \<Rightarrow> decl_name (fun_declarator f)
   | StructDecl name fs rg \<Rightarrow> name | TypedefDecl type dr rg \<Rightarrow> decl_name dr)"

lemma declarator_name: "declarator ts d \<Longrightarrow> \<exists>t \<in> set ts. tok_kind t = TIdentifier \<and> tok_lexeme t = decl_name d"
  by (auto simp: declarator_def)

lemma declarationE_name: "declarationE ts k d \<Longrightarrow> \<exists>t \<in> set ts. tok_kind t = TIdentifier \<and> tok_lexeme t = declaredName d"
  by (induction rule: declarationE.induct) (fastforce simp: declaredName_def variableE_def dest!: declarator_name)+

lemma unitE_names: "unitE ts k ds \<Longrightarrow> \<forall>d \<in> set ds. \<exists>t \<in> set ts. tok_kind t = TIdentifier \<and> tok_lexeme t = declaredName d"
  by (induction rule: unitE.induct) (auto dest!: declarationE_name)

lemma parsed_names:
  assumes "enough source \<le> n" and "parseCCompatSource n source fileName = Some r" and "result_unit r = Some ds"
  shows "\<forall>d \<in> set ds. declaredName d \<noteq> []"
proof -
  obtain nl ts e where ts: "fst (lexCCompatSource source fileName) = nl @ ts @ [e]" "unitE ts TEnd ds"
    using parseCCompatSource_derives [OF assms(1,2)] assms(3) by auto
  then have "\<forall>t \<in> set ts. tok_kind t = TIdentifier \<longrightarrow> tok_lexeme t \<noteq> []" using source_identifiers [of _ source fileName] by auto
  then show ?thesis using unitE_names [OF ts(2)] by fastforce
qed

end
