(* ===== verification/Core_Ast.thy ===== *)
theory Core_Ast
  imports HS_Prelude
begin

text \<open>
  The syntax tree of the core language (\<open>include/hitsimple/ast/AST.h\<close>, \<open>src/ast/AST.cpp\<close>), the output of the
  generated parser and of the C compatibility lowering and the input of the semantic analyser.  The node classes
  of one base class are the constructors of one datatype, with the fields in the order of the classes; an owning
  pointer that may be null is an option.  The source range a node may carry is left out: the lowering sets none.
\<close>

datatype AstExpr =
  AIdentifier string
| AIntegerLiteral string
| AStringLiteral string
| ACharLiteral string
| AFloatLiteral string
| ABoolLiteral bool
| AUnary string AstExpr
| ABinary AstExpr string AstExpr
| ATernary AstExpr AstExpr AstExpr
| AUnsigned AstExpr size_t
| AIntegerCast AstExpr size_t bool
| AAs AstExpr string
| AIndex AstExpr AstExpr
| ASlice AstExpr AstExpr AstExpr bool
| AMember AstExpr string
| ASizeof string
| ADeref string AstExpr
| ACall string "AstExpr list"
| AMethodCall AstExpr string "AstExpr list"
| AAssignment "(AstExpr \<times> string \<times> bool) list" "AstExpr list"

text \<open>One target, with the operator and whether it is read as unsigned, and one value.\<close>

definition mkAssignment :: "AstExpr \<Rightarrow> string \<Rightarrow> bool \<Rightarrow> AstExpr \<Rightarrow> AstExpr" where
  "mkAssignment target op unsignedTarget x = AAssignment [(target, op, unsignedTarget)] [x]"

record DeclItem =
  item_name :: string
  item_length :: string
  item_assignmentOp :: string
  item_initializer :: "AstExpr option"
  item_templateName :: string

datatype AstStmt =
  ANewDecl string string
| AVarDecl string "DeclItem list"
| AAssign string string AstExpr
| AExprStmt AstExpr
| AReturn "AstExpr list"
| AIf AstExpr "AstStmt list" "AstStmt list option"
| AWhile AstExpr "AstStmt list"
| AFor "AstStmt option" AstExpr "AstExpr list" "AstStmt list"
| ABreak
| AContinue
| AGoto string
| ALabel string AstStmt
| AEmpty
| AThrow AstExpr
| ATryCatch "AstStmt list" string string string "AstStmt list"
| ASet AstExpr string

text \<open>
  An assignment statement holds the whole assignment, with the name of its first target, when that is an
  identifier, and its operator beside it.
\<close>

definition mkAssignStmt :: "AstExpr \<Rightarrow> AstStmt" where
  "mkAssignStmt assignment =
     (case assignment of
        AAssignment ((target, op, _) # _) (_ # _) \<Rightarrow>
          AAssign (case target of AIdentifier name \<Rightarrow> name | _ \<Rightarrow> []) op assignment
      | _ \<Rightarrow> AAssign [] [] assignment)"

record Param =
  par_name :: string
  par_length :: string
  par_templateName :: string
  par_isMutable :: bool

record ReturnItem =
  rit_name :: string
  rit_length :: string
  rit_templateName :: string

record TemplateMember =
  mem_name :: string
  mem_length :: string
  mem_templateName :: string

record ImplOpParam =
  iop_name :: string
  iop_templateName :: string
  iop_isMutable :: bool

record ImplOpDecl =
  iod_op :: string
  iod_params :: "ImplOpParam list"
  iod_returns :: "ReturnItem list"
  iod_body :: "AstStmt list"

record AstFunctionDecl =
  afd_name :: string
  afd_params :: "Param list"
  afd_returns :: "ReturnItem list"
  afd_body :: "AstStmt list"
  afd_abiName :: string

datatype TopLevelDecl =
  AFunctionDecl AstFunctionDecl
| AGlobalNewDecl string string string string "AstExpr option"
| AExternVarDecl string string string
| AExternFunctionDecl string "Param list" "ReturnItem list" string
| AStructDecl string "(string \<times> string) list"
| ATemplateDecl string "TemplateMember list"
| AImplDecl string "ImplOpDecl list" "AstFunctionDecl list"

text \<open>The declarations of a unit by their class, in order.\<close>

record AstUnit =
  unit_declarations :: "TopLevelDecl list"
  unit_functions :: "AstFunctionDecl list"
  unit_globalNews :: "TopLevelDecl list"
  unit_externVariables :: "TopLevelDecl list"
  unit_externFunctions :: "TopLevelDecl list"
  unit_structs :: "TopLevelDecl list"
  unit_templates :: "TopLevelDecl list"
  unit_impls :: "TopLevelDecl list"

definition mkUnit :: "TopLevelDecl list \<Rightarrow> AstUnit" where
  "mkUnit ds = \<lparr>
     unit_declarations = ds,
     unit_functions = List.map_filter (\<lambda>d. case d of AFunctionDecl f \<Rightarrow> Some f | _ \<Rightarrow> None) ds,
     unit_globalNews = filter (\<lambda>d. case d of AGlobalNewDecl _ _ _ _ _ \<Rightarrow> True | _ \<Rightarrow> False) ds,
     unit_externVariables = filter (\<lambda>d. case d of AExternVarDecl _ _ _ \<Rightarrow> True | _ \<Rightarrow> False) ds,
     unit_externFunctions = filter (\<lambda>d. case d of AExternFunctionDecl _ _ _ _ \<Rightarrow> True | _ \<Rightarrow> False) ds,
     unit_structs = filter (\<lambda>d. case d of AStructDecl _ _ \<Rightarrow> True | _ \<Rightarrow> False) ds,
     unit_templates = filter (\<lambda>d. case d of ATemplateDecl _ _ \<Rightarrow> True | _ \<Rightarrow> False) ds,
     unit_impls = filter (\<lambda>d. case d of AImplDecl _ _ _ \<Rightarrow> True | _ \<Rightarrow> False) ds\<rparr>"

end
