(* ===== verification/CCompat_Types.thy ===== *)
theory CCompat_Types
  imports CCompat_Ast CCompat_Parser Core_Ast "HOL-Library.Finite_Map"
begin

text \<open>
  Types and layout in the C compatibility lowering (\<open>src/compat/CCompatLowering.cpp\<close>,
  \<open>CCompatLoweringInternal.h\<close>): the ABI shape of a C type, the resolution of typedef names and structures, with
  the flags that stop a cycle, and the layout of structures at 64 bits.  Resolution is recursive through the
  declarations of typedefs and fields; that recursion is open, over the parameter \<open>ro\<close> that resolves an object,
  and tied on a bound of its depth.
\<close>

section \<open>ABI types\<close>

datatype CAbiValueKind = CAbiVoid | CAbiInteger | CAbiFloating | CAbiPointer | CAbiAggregate

datatype CAbiType = CAbiType
  (cabi_kind: CAbiValueKind) (cabi_byteLength: size_t) (cabi_isSigned: bool) (cabi_aggregateName: string)
  (cabi_alignment: size_t) (cabi_elementCount: size_t) (cabi_aggregateFields: "CAbiType list")
  (cabi_aggregateFieldOffsets: "size_t list")

definition mkAbi :: "CAbiValueKind \<Rightarrow> size_t \<Rightarrow> bool \<Rightarrow> string \<Rightarrow> size_t \<Rightarrow> CAbiType" where
  "mkAbi kind byteLength isSigned name alignment = CAbiType kind byteLength isSigned name alignment 1 [] []"

fun withElementCount :: "size_t \<Rightarrow> CAbiType \<Rightarrow> CAbiType" where
  "withElementCount n (CAbiType k len s name align m fs offs) = CAbiType k len s name align n fs offs"

datatype Linkage = LinkageNone | LinkageInternal | LinkageExternal

record LinkageMetadata =
  lm_sourceName :: string
  lm_coreName :: string
  lm_linkage :: Linkage
  lm_isFunction :: bool
  lm_isDefinition :: bool
  lm_objectType :: "CAbiType option"
  lm_parameterTypes :: "CAbiType list"
  lm_returnType :: "CAbiType option"
  lm_range :: SourceRange

record LoweringOptions =
  opt_pointerByteLength :: size_t
  opt_rejectQualifiers :: bool
  opt_allowHostFloatExternAbi :: bool

section \<open>The state of the lowering\<close>

datatype TypeInfo = TypeInfo (ti_abi: CAbiType) (ti_coreTemplate: string) (ti_pointee: "TypeInfo option")

record ObjectInfo =
  obj_type :: TypeInfo
  obj_isArray :: bool
  obj_arrayCount :: size_t

record FieldInfo =
  fi_name :: string
  fi_object :: ObjectInfo
  fi_offset :: size_t

record StructInfo =
  si_name :: string
  si_declared :: "FieldDecl list"
  si_range :: SourceRange
  si_resolving :: bool
  si_resolved :: bool
  si_byteLength :: size_t
  si_alignment :: size_t
  si_fields :: "FieldInfo list"
  si_abi :: CAbiType

text \<open>A typedef is identified by its position in the unit.\<close>

record AliasInfo =
  al_position :: nat
  al_type :: CType
  al_declarator :: Declarator
  al_resolving :: bool
  al_resolved :: bool
  al_object :: "ObjectInfo option"

record FunctionInfo =
  fni_returnType :: TypeInfo
  fni_parameters :: "TypeInfo list"
  fni_linkage :: Linkage
  fni_isDefinition :: bool

text \<open>The innermost scope is the head of \<open>low_scopes\<close>.\<close>

record Lowerer =
  low_options :: LoweringOptions
  low_aliases :: "(string, AliasInfo) fmap"
  low_structs :: "(string, StructInfo) fmap"
  low_functions :: "(string, FunctionInfo) fmap"
  low_scopes :: "(string, ObjectInfo) fmap list"
  low_declarations :: "TopLevelDecl list"
  low_linkage :: "LinkageMetadata list"
  low_diagnostics :: "Diagnostic list"

type_synonym 'a lowering = "(Lowerer, 'a) action"

definition lowerError :: "SourceRange \<Rightarrow> string \<Rightarrow> Lowerer \<Rightarrow> Lowerer" where
  "lowerError rg msg l = l\<lparr>low_diagnostics := low_diagnostics l @
     [(diagnostic_error Stage.Parser msg)\<lparr>diag_range := Some rg\<rparr>]\<rparr>"

definition failing :: "SourceRange \<Rightarrow> string \<Rightarrow> 'a lowering" where
  "failing rg msg = step (lowerError rg msg) nullptr"

definition pointerByteLength :: "Lowerer \<Rightarrow> size_t" where
  "pointerByteLength l = opt_pointerByteLength (low_options l)"

section \<open>Sizes\<close>

definition checkedMultiply :: "size_t \<Rightarrow> size_t \<Rightarrow> size_t option" where
  "checkedMultiply left right =
     (if left = 0 \<or> right = 0 then Some 0 else if left > (- 1) div right then None else Some (left * right))"

definition alignUp :: "size_t \<Rightarrow> size_t \<Rightarrow> size_t option" where
  "alignUp x alignment =
     (if alignment = 0 then None
      else let remainder = x mod alignment in
        if remainder = 0 then Some x
        else let adjustment = alignment - remainder in
          if x > - 1 - adjustment then None else Some (x + adjustment))"

definition byteLength :: "ObjectInfo \<Rightarrow> size_t" where
  "byteLength object =
     (let len = cabi_byteLength (ti_abi (obj_type object)) in
      if \<not> obj_isArray object then len
      else case checkedMultiply len (obj_arrayCount object) of Some result \<Rightarrow> result | None \<Rightarrow> 0)"

section \<open>Type predicates\<close>

definition makePointer :: "size_t \<Rightarrow> TypeInfo \<Rightarrow> TypeInfo" where
  "makePointer len pointee = TypeInfo (mkAbi CAbiPointer len False [] len) ''addr'' (Some pointee)"

fun sameType :: "TypeInfo \<Rightarrow> TypeInfo \<Rightarrow> bool" where
  "sameType (TypeInfo a _ p) (TypeInfo b _ q) \<longleftrightarrow>
     cabi_kind a = cabi_kind b \<and> cabi_byteLength a = cabi_byteLength b \<and> cabi_isSigned a = cabi_isSigned b \<and>
     cabi_aggregateName a = cabi_aggregateName b \<and>
     (case (p, q) of (Some x, Some y) \<Rightarrow> sameType x y | (None, None) \<Rightarrow> True | _ \<Rightarrow> False)"

abbreviation typeKind :: "TypeInfo \<Rightarrow> CAbiValueKind" where
  "typeKind t \<equiv> cabi_kind (ti_abi t)"

definition isInteger :: "TypeInfo \<Rightarrow> bool" where "isInteger t \<longleftrightarrow> typeKind t = CAbiInteger"
definition isFloating :: "TypeInfo \<Rightarrow> bool" where "isFloating t \<longleftrightarrow> typeKind t = CAbiFloating"
definition isPointer :: "TypeInfo \<Rightarrow> bool" where "isPointer t \<longleftrightarrow> typeKind t = CAbiPointer"
definition isAggregate :: "TypeInfo \<Rightarrow> bool" where "isAggregate t \<longleftrightarrow> typeKind t = CAbiAggregate"
definition isVoid :: "TypeInfo \<Rightarrow> bool" where "isVoid t \<longleftrightarrow> typeKind t = CAbiVoid"

definition typeLength :: "TypeInfo \<Rightarrow> size_t" where
  "typeLength t = cabi_byteLength (ti_abi t)"

section \<open>Resolution\<close>

type_synonym resolver = "CType \<Rightarrow> Declarator \<Rightarrow> ObjectInfo lowering"

definition onAlias :: "string \<Rightarrow> (AliasInfo \<Rightarrow> AliasInfo) \<Rightarrow> Lowerer \<Rightarrow> Lowerer" where
  "onAlias name f l = (case fmlookup (low_aliases l) name of
     None \<Rightarrow> l | Some a \<Rightarrow> l\<lparr>low_aliases := fmupd name (f a) (low_aliases l)\<rparr>)"

definition onStruct :: "string \<Rightarrow> (StructInfo \<Rightarrow> StructInfo) \<Rightarrow> Lowerer \<Rightarrow> Lowerer" where
  "onStruct name f l = (case fmlookup (low_structs l) name of
     None \<Rightarrow> l | Some s \<Rightarrow> l\<lparr>low_structs := fmupd name (f s) (low_structs l)\<rparr>)"

definition resolveAliasObject :: "resolver \<Rightarrow> string \<Rightarrow> SourceRange \<Rightarrow> ObjectInfo lowering" where
  "resolveAliasObject ro name rg = inspect (\<lambda>l.
     case fmlookup (low_aliases l) name of
       None \<Rightarrow> failing rg (''unknown C typedef name '' @ quoted name)
     | Some alias \<Rightarrow>
         if al_resolved alias then (case al_object alias of None \<Rightarrow> nullptr | Some object \<Rightarrow> ret object)
         else if al_resolving alias then failing rg (''cyclic C typedef involving '' @ quoted name)
         else step (onAlias name (\<lambda>a. a\<lparr>al_resolving := True\<rparr>)) (attempt (ro (al_type alias) (al_declarator alias)) (\<lambda>result.
           step (onAlias name (\<lambda>a. a\<lparr>al_resolving := False\<rparr>)) (case result of
             None \<Rightarrow> nullptr
           | Some object \<Rightarrow> step (onAlias name (\<lambda>a. a\<lparr>al_object := Some object, al_resolved := True\<rparr>)) (ret object)))))"

definition resolveAlias :: "resolver \<Rightarrow> string \<Rightarrow> SourceRange \<Rightarrow> TypeInfo lowering" where
  "resolveAlias ro name rg = andThen (resolveAliasObject ro name rg) (\<lambda>object.
     if obj_isArray object
     then failing rg (''C array typedef '' @ quoted name @ '' cannot be used where a scalar C type is required'')
     else ret (obj_type object))"

definition scalar :: "CAbiValueKind \<Rightarrow> size_t \<Rightarrow> bool \<Rightarrow> string \<Rightarrow> TypeInfo" where
  "scalar kind len isSigned coreTemplate = TypeInfo (mkAbi kind len isSigned [] len) coreTemplate None"

definition qualifiersRejected :: "CType \<Rightarrow> Lowerer \<Rightarrow> bool" where
  "qualifiersRejected type l \<longleftrightarrow> opt_rejectQualifiers (low_options l) \<and> (ctype_isConst type \<or> ctype_isVolatile type)"

definition resolveBaseType :: "resolver \<Rightarrow> CType \<Rightarrow> TypeInfo lowering" where
  "resolveBaseType ro type = inspect (\<lambda>l.
     if qualifiersRejected type l
     then failing (ctype_range type) ''C const/volatile qualifiers require core metadata and are not enabled''
     else case ctype_base type of
       CChar \<Rightarrow> ret (scalar CAbiInteger 1 False ''u8'')
     | CSignedChar \<Rightarrow> ret (scalar CAbiInteger 1 True ''i8'')
     | CUnsignedChar \<Rightarrow> ret (scalar CAbiInteger 1 False ''u8'')
     | CShort \<Rightarrow> ret (scalar CAbiInteger 2 True ''i16'')
     | CUnsignedShort \<Rightarrow> ret (scalar CAbiInteger 2 False ''u16'')
     | CInt \<Rightarrow> ret (scalar CAbiInteger 4 True ''i32'')
     | CUnsignedInt \<Rightarrow> ret (scalar CAbiInteger 4 False ''u32'')
     | CLong \<Rightarrow> ret (scalar CAbiInteger 8 True ''i64'')
     | CUnsignedLong \<Rightarrow> ret (scalar CAbiInteger 8 False ''u64'')
     | CLongLong \<Rightarrow> ret (scalar CAbiInteger 8 True ''i64'')
     | CUnsignedLongLong \<Rightarrow> ret (scalar CAbiInteger 8 False ''u64'')
     | CFloat \<Rightarrow> ret (scalar CAbiFloating 4 True ''f32'')
     | CDouble \<Rightarrow> ret (scalar CAbiFloating 8 True ''f64'')
     | CVoid \<Rightarrow> ret (scalar CAbiVoid 0 False [])
     | CStruct \<Rightarrow> ret (TypeInfo (mkAbi CAbiAggregate 0 False (ctype_name type) 1) (ctype_name type) None)
     | CTypedefName \<Rightarrow> resolveAlias ro (ctype_name type) (ctype_range type))"

definition resolveType :: "resolver \<Rightarrow> CType \<Rightarrow> nat \<Rightarrow> TypeInfo lowering" where
  "resolveType ro type pointerDepth = andThen (resolveBaseType ro type) (\<lambda>result. inspect (\<lambda>l.
     ret ((makePointer (pointerByteLength l) ^^ pointerDepth) result)))"

text \<open>The position, the alignment and the ABI of the fields laid out so far.\<close>

record Layout =
  lay_offset :: size_t
  lay_alignment :: size_t
  lay_abiFields :: "CAbiType list"
  lay_abiOffsets :: "size_t list"

definition fieldAbi :: "ObjectInfo \<Rightarrow> CAbiType" where
  "fieldAbi object = withElementCount (if obj_isArray object then obj_arrayCount object else 1) (ti_abi (obj_type object))"

definition placeField :: "ObjectInfo \<Rightarrow> Layout \<Rightarrow> (size_t \<times> Layout) option" where
  "placeField object lay =
     (let len = byteLength object; align = cabi_alignment (ti_abi (obj_type object)) in
      if len = 0 \<or> align = 0 then None
      else case alignUp (lay_offset lay) align of
        None \<Rightarrow> None
      | Some offset \<Rightarrow>
          if offset > - 1 - len then None
          else Some (offset, \<lparr>lay_offset = offset + len, lay_alignment = max (lay_alignment lay) align,
                 lay_abiFields = lay_abiFields lay @ [fieldAbi object], lay_abiOffsets = lay_abiOffsets lay @ [offset]\<rparr>))"

fun layoutFields :: "resolver \<Rightarrow> string \<Rightarrow> FieldDecl list \<Rightarrow> Layout \<Rightarrow> Layout lowering" where
  "layoutFields ro name [] lay = ret lay"
| "layoutFields ro name (field # rest) lay =
     andThen (ro (field_type field) (field_declarator field)) (\<lambda>object.
       case placeField object lay of
         None \<Rightarrow> failing (field_range field)
           (''invalid or overflowing C struct field size for '' @ quoted (decl_name (field_declarator field)))
       | Some (offset, lay) \<Rightarrow>
           step (onStruct name (\<lambda>s. s\<lparr>si_fields := si_fields s @
               [\<lparr>fi_name = decl_name (field_declarator field), fi_object = object, fi_offset = offset\<rparr>]\<rparr>))
             (layoutFields ro name rest lay))"

definition structAbi :: "string \<Rightarrow> size_t \<Rightarrow> Layout \<Rightarrow> CAbiType" where
  "structAbi name len lay =
     CAbiType CAbiAggregate len False name (lay_alignment lay) 1 (lay_abiFields lay) (lay_abiOffsets lay)"

definition resolveStruct :: "resolver \<Rightarrow> string \<Rightarrow> SourceRange \<Rightarrow> unit lowering" where
  "resolveStruct ro name rg = inspect (\<lambda>l.
     case fmlookup (low_structs l) name of
       None \<Rightarrow> failing rg (''unknown C struct '' @ quoted name)
     | Some structure \<Rightarrow>
         if si_resolved structure then ret ()
         else if si_resolving structure then failing rg (''C struct '' @ quoted name @ '' contains itself by value'')
         else step (onStruct name (\<lambda>s. s\<lparr>si_resolving := True\<rparr>))
           (attempt (layoutFields ro name (si_declared structure) \<lparr>lay_offset = 0, lay_alignment = 1, lay_abiFields = [], lay_abiOffsets = []\<rparr>) (\<lambda>result.
             case result of
               None \<Rightarrow> step (onStruct name (\<lambda>s. s\<lparr>si_resolving := False\<rparr>)) nullptr
             | Some lay \<Rightarrow>
                 (case alignUp (lay_offset lay) (lay_alignment lay) of
                    None \<Rightarrow> step (lowerError (si_range structure) (''overflowing C struct size for '' @ quoted (si_name structure)))
                      (step (onStruct name (\<lambda>s. s\<lparr>si_resolving := False\<rparr>)) nullptr)
                  | Some len \<Rightarrow>
                      step (onStruct name (\<lambda>s. s\<lparr>si_byteLength := len, si_alignment := lay_alignment lay,
                          si_abi := structAbi (si_name structure) len lay, si_resolving := False, si_resolved := True\<rparr>))
                        (ret ())))))"

definition ensureStructComplete :: "resolver \<Rightarrow> TypeInfo \<Rightarrow> SourceRange \<Rightarrow> TypeInfo lowering" where
  "ensureStructComplete ro type rg =
     (if \<not> isAggregate type then ret type
      else let name = cabi_aggregateName (ti_abi type) in
        andThen (resolveStruct ro name rg) (\<lambda>_. inspect (\<lambda>l.
          case fmlookup (low_structs l) name of
            None \<Rightarrow> nullptr
          | Some s \<Rightarrow> ret (TypeInfo (si_abi s) (ti_coreTemplate type) (ti_pointee type)))))"

definition completeObject :: "resolver \<Rightarrow> CType \<Rightarrow> Declarator \<Rightarrow> ObjectInfo lowering" where
  "completeObject ro type declarator =
     andThen (resolveType ro type (decl_pointerDepth declarator)) (\<lambda>resolved.
       if isVoid resolved
       then failing (decl_range declarator) ''void cannot be used for a C object, field, array, or by-value parameter''
       else andThen (ensureStructComplete ro resolved (decl_range declarator)) (\<lambda>resolved.
         let object = \<lparr>obj_type = resolved, obj_isArray = decl_arrayCount declarator \<noteq> None,
                       obj_arrayCount = (case decl_arrayCount declarator of None \<Rightarrow> 0 | Some n \<Rightarrow> n)\<rparr> in
         if obj_isArray object \<and> obj_arrayCount object = 0
         then failing (decl_range declarator) ''C array element count must be greater than zero''
         else if byteLength object = 0 then failing (decl_range declarator) ''C object byte length is not statically known''
         else ret object))"

definition resolveObject :: "resolver \<Rightarrow> resolver" where
  "resolveObject ro type declarator =
     (if ctype_base type = CTypedefName then inspect (\<lambda>l.
        if qualifiersRejected type l
        then failing (ctype_range type) ''C const/volatile qualifiers require core metadata and are not enabled''
        else andThen (resolveAliasObject ro (ctype_name type) (ctype_range type)) (\<lambda>aliased.
          if obj_isArray aliased then
            (if decl_pointerDepth declarator \<noteq> 0
             then failing (decl_range declarator) (''pointer to C array typedef '' @ quoted (ctype_name type) @
               '' is outside the Standard 16.1 compatibility subset'')
             else if decl_arrayCount declarator \<noteq> None
             then failing (decl_range declarator) ''multidimensional C arrays through a typedef are not supported''
             else ret aliased)
          else completeObject ro type declarator))
      else completeObject ro type declarator)"

primrec resolver :: "nat \<Rightarrow> resolver" where
  "resolver 0 = (\<lambda>type declarator l. None)"
| "resolver (Suc n) = resolveObject (resolver n)"

end
