(* ===== verification/CCompat_Layout.thy ===== *)
theory CCompat_Layout
  imports CCompat_Types HIR_Layout
begin

text \<open>
  The layout of C structures: the reference layout over unbounded numbers, the 64-bit computation of
  \<open>resolveStruct\<close> against it, and the translation of C ABI types into those of the HIR
  (\<open>lowerCAbiType\<close> in \<open>src/driver/FrontendPipeline.cpp\<close>), whose check accepts every laid out type.
\<close>

section \<open>The reference layout\<close>

definition roundUp :: "nat \<Rightarrow> nat \<Rightarrow> nat" where
  "roundUp x a = (x + (a - 1)) div a * a"

lemma roundUp_props:
  assumes "0 < a"
  shows "x \<le> roundUp x a" and "roundUp x a < x + a" and "a dvd roundUp x a"
proof -
  have "x + (a - 1) = roundUp x a + (x + (a - 1)) mod a" by (simp only: roundUp_def div_mult_mod_eq)
  moreover have "(x + (a - 1)) mod a < a" using assms by simp
  ultimately show "x \<le> roundUp x a" "roundUp x a < x + a" using assms by linarith+
  show "a dvd roundUp x a" by (simp add: roundUp_def)
qed

lemma roundUp_unique:
  assumes "a dvd y" and "x \<le> y" and "y < x + a"
  shows "roundUp x a = y"
proof -
  have a: "0 < a" using assms by (cases a) auto
  obtain j where j: "y = a * j" using assms(1) by (rule dvdE)
  obtain k where k: "roundUp x a = a * k" using roundUp_props(3) [OF a] by (rule dvdE)
  have "a * j < a * Suc k" "a * k < a * Suc j"
    using roundUp_props(1,2) [OF a, of x] assms(2,3) j k by simp_all
  then have "j = k" unfolding mult_less_cancel1 by linarith
  then show ?thesis using j k by simp
qed

text \<open>A field by its length and its alignment; each field is at the next multiple of its alignment.\<close>

fun cOffsets :: "nat \<Rightarrow> (nat \<times> nat) list \<Rightarrow> nat list" where
  "cOffsets e [] = []"
| "cOffsets e ((len, align) # fs) = (let x = roundUp e align in x # cOffsets (x + len) fs)"

fun cEnd :: "nat \<Rightarrow> (nat \<times> nat) list \<Rightarrow> nat" where
  "cEnd e [] = e"
| "cEnd e ((len, align) # fs) = cEnd (roundUp e align + len) fs"

definition cAlignment :: "(nat \<times> nat) list \<Rightarrow> nat" where
  "cAlignment fs = fold max (map snd fs) 1"

definition cSize :: "(nat \<times> nat) list \<Rightarrow> nat" where
  "cSize fs = roundUp (cEnd 0 fs) (cAlignment fs)"

lemma cOffsets_append: "cOffsets e (fs @ [(len, align)]) = cOffsets e fs @ [roundUp (cEnd e fs) align]"
  by (induction e fs rule: cOffsets.induct) (simp_all add: Let_def)

lemma cEnd_append: "cEnd e (fs @ [(len, align)]) = roundUp (cEnd e fs) align + len"
  by (induction e fs rule: cOffsets.induct) simp_all

lemma cEnd_ge: "list_all (\<lambda>f. 0 < snd f) fs \<Longrightarrow> e \<le> cEnd e fs"
  by (induction e fs rule: cOffsets.induct) (auto intro: le_trans [OF roundUp_props(1)] order.trans [OF le_add1])

lemma cAlignment_append: "cAlignment (fs @ [f]) = max (snd f) (cAlignment fs)"
  by (simp add: cAlignment_def)

section \<open>The computation at 64 bits\<close>

lemma alignUp_exact:
  "alignUp x a = Some y \<longleftrightarrow> a \<noteq> 0 \<and> roundUp (unat x) (unat a) < 2 ^ 64 \<and> unat y = roundUp (unat x) (unat a)"
proof (cases "a = 0")
  case False
  then have a: "0 < unat a" by (simp add: unat_gt_0)
  have rem: "unat (x mod a) = unat x mod unat a" by (simp add: unat_mod_distrib)
  show ?thesis
  proof (cases "x mod a = 0")
    case True
    then have "unat a dvd unat x" using rem by (simp add: dvd_eq_mod_eq_0)
    then have "roundUp (unat x) (unat a) = unat x" using a by (intro roundUp_unique) auto
    then show ?thesis using True False unsigned_less [of x, where 'a = nat] by (auto simp: alignUp_def word_unat_eq_iff [of x y])
  next
    case nz: False
    let ?d = "a - x mod a"
    have r: "0 < unat x mod unat a" "unat x mod unat a < unat a" using nz rem a by (auto simp: unat_eq_0 [symmetric])
    have d: "unat ?d = unat a - unat x mod unat a"
      using rem r(2) by (simp add: unat_sub word_le_nat_alt)
    have up: "roundUp (unat x) (unat a) = unat x + unat ?d"
    proof (rule roundUp_unique)
      have "unat x + (unat a - unat x mod unat a) = unat x div unat a * unat a + unat a"
        using r(2) div_mult_mod_eq [of "unat x" "unat a"] by linarith
      then show "unat a dvd unat x + unat ?d" by (simp add: d)
    qed (use r d in auto)
    have "x > - 1 - ?d \<longleftrightarrow> \<not> unat x + unat ?d < 2 ^ 64"
    proof -
      have "unat (- 1 - ?d) = 2 ^ 64 - 1 - unat ?d"
        using unsigned_less [of ?d, where 'a = nat]
        by (simp add: unat_sub word_le_nat_alt unsigned_minus_1_eq_mask mask_eq_exp_minus_1)
      then show ?thesis using unsigned_less [of ?d, where 'a = nat] by (auto simp: word_less_nat_alt)
    qed
    moreover have "unat (x + ?d) = unat x + unat ?d" if "unat x + unat ?d < 2 ^ 64"
      using that by (simp add: unat_word_ariths)
    ultimately show ?thesis using False nz up by (auto simp: alignUp_def Let_def word_unat_eq_iff [of "x + _" y])
  qed
qed (simp add: alignUp_def)

lemma checkedMultiply_exact:
  "checkedMultiply a b = Some c \<longleftrightarrow> unat a * unat b < 2 ^ 64 \<and> unat c = unat a * unat b"
proof (cases "a = 0 \<or> b = 0")
  case True
  then show ?thesis by (auto simp: checkedMultiply_def unat_eq_0)
next
  case False
  then have "a > (- 1) div b \<longleftrightarrow> \<not> unat a * unat b < 2 ^ 64" by (intro word_product_fits) simp
  moreover have "unat (a * b) = unat a * unat b" if "unat a * unat b < 2 ^ 64" using that by (simp add: unat_word_ariths)
  ultimately show ?thesis using False by (auto simp: checkedMultiply_def word_unat_eq_iff [of "a * b" c])
qed

definition fieldShape :: "ObjectInfo \<Rightarrow> nat \<times> nat" where
  "fieldShape object = (unat (byteLength object), unat (cabi_alignment (ti_abi (obj_type object))))"

text \<open>What the loop over the fields has computed after the objects \<open>os\<close>.\<close>

definition laidOut :: "ObjectInfo list \<Rightarrow> size_t list \<Rightarrow> Layout \<Rightarrow> bool" where
  "laidOut os offsets lay \<longleftrightarrow>
     map unat offsets = cOffsets 0 (map fieldShape os) \<and> unat (lay_offset lay) = cEnd 0 (map fieldShape os) \<and>
     unat (lay_alignment lay) = cAlignment (map fieldShape os) \<and>
     lay_abiFields lay = map fieldAbi os \<and> lay_abiOffsets lay = offsets \<and>
     list_all (\<lambda>f. 0 < fst f \<and> 0 < snd f) (map fieldShape os)"

lemma laidOut_start: "laidOut [] [] \<lparr>lay_offset = 0, lay_alignment = 1, lay_abiFields = [], lay_abiOffsets = []\<rparr>"
  by (simp add: laidOut_def cAlignment_def)

lemma laidOut_place:
  assumes "laidOut os offsets lay" and "placeField object lay = Some (x, lay')"
  shows "laidOut (os @ [object]) (offsets @ [x]) lay'"
proof -
  let ?len = "byteLength object" and ?a = "cabi_alignment (ti_abi (obj_type object))"
  have nz: "?len \<noteq> 0" "?a \<noteq> 0" and x: "alignUp (lay_offset lay) ?a = Some x" and fits: "\<not> x > - 1 - ?len"
    and lay': "lay' = \<lparr>lay_offset = x + ?len, lay_alignment = max (lay_alignment lay) ?a,
      lay_abiFields = lay_abiFields lay @ [fieldAbi object], lay_abiOffsets = lay_abiOffsets lay @ [x]\<rparr>"
    using assms(2) by (auto simp: placeField_def Let_def split: if_splits option.splits)
  have "unat (- 1 - ?len) = 2 ^ 64 - 1 - unat ?len"
    using unsigned_less [of ?len, where 'a = nat]
    by (simp add: unat_sub word_le_nat_alt unsigned_minus_1_eq_mask mask_eq_exp_minus_1)
  then have "unat x + unat ?len < 2 ^ 64"
    using fits unsigned_less [of ?len, where 'a = nat] by (simp add: word_less_nat_alt not_less)
  then have sum: "unat (x + ?len) = unat x + unat ?len" by (simp add: unat_word_ariths)
  have "unat (max (lay_alignment lay) ?a) = max (unat ?a) (unat (lay_alignment lay))"
    by (auto simp: max_def word_le_nat_alt)
  then show ?thesis
    using assms(1) nz alignUp_exact [of "lay_offset lay" ?a x] x sum unfolding laidOut_def lay'
    by (auto simp: fieldShape_def cOffsets_append cEnd_append cAlignment_append unat_gt_0)
qed

section \<open>ABI types of the HIR\<close>

definition abiMessage :: "string \<Rightarrow> string \<Rightarrow> string \<Rightarrow> string" where
  "abiMessage symbolName role what = ''hsc: C compatibility ABI '' @ role @ '' for '' @ CCompat_Parser.quoted symbolName @ what"

fun lowerCAbiType :: "CAbiType \<Rightarrow> string \<Rightarrow> string \<Rightarrow> string + AbiType"
  and lowerCAbiFields :: "CAbiType list \<Rightarrow> string \<Rightarrow> string + AbiType list"
where
  "lowerCAbiType (CAbiType kind len isSigned name align count members offsets) symbolName role =
     (case kind of
        CAbiInteger \<Rightarrow> Inr (AbiType IntegerAbi len isSigned [] align count [] [])
      | CAbiFloating \<Rightarrow> Inr (AbiType FloatingAbi len isSigned [] align count [] [])
      | CAbiPointer \<Rightarrow> Inr (AbiType PointerAbi len isSigned [] align count [] [])
      | CAbiVoid \<Rightarrow> Inl (abiMessage symbolName role '' cannot have void type'')
      | CAbiAggregate \<Rightarrow>
          if len = 0 \<or> align = 0 \<or> length members \<noteq> length offsets
          then Inl (''hsc: C aggregate ABI '' @ role @ '' for '' @ CCompat_Parser.quoted symbolName @ '' has an invalid layout'')
          else case lowerCAbiFields members symbolName of
            Inl msg \<Rightarrow> Inl msg
          | Inr lowered \<Rightarrow> Inr (AbiType AggregateAbi len False name align count lowered offsets))"
| "lowerCAbiFields [] symbolName = Inr []"
| "lowerCAbiFields (f # fs) symbolName =
     (case lowerCAbiType f symbolName ''aggregate field'' of
        Inl msg \<Rightarrow> Inl msg
      | Inr t \<Rightarrow> (case lowerCAbiFields fs symbolName of Inl msg \<Rightarrow> Inl msg | Inr ts \<Rightarrow> Inr (t # ts)))"

text \<open>The ABI type of one object of a complete type, and of a field or array of it.\<close>

definition abiComplete :: "CAbiType \<Rightarrow> bool" where
  "abiComplete a \<longleftrightarrow> cabi_elementCount a = 1 \<and> cabi_alignment a \<noteq> 0 \<and>
     (\<forall>symbolName role. \<exists>t. lowerCAbiType a symbolName role = Inr t \<and> isValidType t)"

definition objectOk :: "ObjectInfo \<Rightarrow> bool" where
  "objectOk object \<longleftrightarrow> abiComplete (ti_abi (obj_type object)) \<and> byteLength object \<noteq> 0"

lemma lower_count:
  "lowerCAbiType (withElementCount n a) nm role = map_sum id (\<lambda>t. AbiType (abi_kind t) (abi_byteLength t) (abi_isSigned t)
      (abi_aggregateName t) (abi_alignment t) n (abi_aggregateFields t) (abi_aggregateFieldOffsets t)) (lowerCAbiType a nm role)"
  by (cases a; cases "cabi_kind a") (auto split: sum.splits)

lemma lower_length: "lowerCAbiType a nm role = Inr t \<Longrightarrow>
    abi_byteLength t = cabi_byteLength a \<and> abi_elementCount t = cabi_elementCount a \<and> abi_alignment t = cabi_alignment a"
  by (cases a) (auto split: CAbiValueKind.splits if_splits sum.splits)

lemma valid_count:
  assumes "isValidType (AbiType k len s name al m fs offs)" and "storageByteLength (AbiType k len s name al n fs offs) \<noteq> None"
  shows "isValidType (AbiType k len s name al n fs offs)"
  using assms by (auto split: if_splits AbiValueKind.splits)

text \<open>The ABI type of an object, with its element count, is accepted by the HIR and has the length of the object.\<close>

lemma objectOk_abi:
  assumes "objectOk object"
  shows "\<exists>t. lowerCAbiType (fieldAbi object) nm role = Inr t \<and> isValidType t \<and> storageByteLength t = Some (byteLength object)"
proof -
  let ?a = "ti_abi (obj_type object)"
  let ?n = "if obj_isArray object then obj_arrayCount object else 1"
  obtain t where t: "lowerCAbiType ?a nm role = Inr t" "isValidType t" using assms by (auto simp: objectOk_def abiComplete_def)
  obtain k len s name al m fs offs where ty: "t = AbiType k len s name al m fs offs" by (cases t)
  have len: "len = cabi_byteLength ?a" using lower_length [OF t(1)] ty by simp
  let ?t = "AbiType k len s name al ?n fs offs"
  have low: "lowerCAbiType (fieldAbi object) nm role = Inr ?t" using t(1) ty by (simp add: fieldAbi_def lower_count)
  have nz: "byteLength object \<noteq> 0" using assms by (simp add: objectOk_def)
  have "storageByteLength ?t = Some (byteLength object)"
  proof (cases "obj_isArray object")
    case True
    then have m: "checkedMultiply len (obj_arrayCount object) = Some (byteLength object)"
      using nz len by (auto simp: byteLength_def split: option.splits)
    then have "len \<noteq> 0" "obj_arrayCount object \<noteq> 0" using nz by (auto simp: checkedMultiply_def)
    then show ?thesis using m True by (auto simp: checkedMultiply_def storageByteLength_def split: if_splits)
  next
    case False
    then show ?thesis using nz len by (auto simp: byteLength_def storageByteLength_def)
  qed
  then show ?thesis using low valid_count [OF t(2) [unfolded ty], of ?n] by auto
qed

lemma lower_fields:
  assumes "list_all objectOk os"
  shows "\<exists>ts. lowerCAbiFields (map fieldAbi os) nm = Inr ts \<and> length ts = length os \<and>
    (\<forall>i < length os. isValidType (ts ! i) \<and> storageByteLength (ts ! i) = Some (byteLength (os ! i)))"
  using assms
proof (induction os)
  case (Cons object os)
  then obtain t ts where "lowerCAbiType (fieldAbi object) nm ''aggregate field'' = Inr t" "isValidType t"
    "storageByteLength t = Some (byteLength object)" "lowerCAbiFields (map fieldAbi os) nm = Inr ts" "length ts = length os"
    "\<forall>i < length os. isValidType (ts ! i) \<and> storageByteLength (ts ! i) = Some (byteLength (os ! i))"
    using objectOk_abi [of object nm "''aggregate field''"] by auto
  then show ?case by (intro exI [of _ "t # ts"]) (auto simp: nth_Cons split: nat.splits)
qed simp

lemma valid_fields:
  assumes "map unat offsets = cOffsets (unat e) (map fieldShape os)" and "cEnd (unat e) (map fieldShape os) \<le> unat len"
    and "list_all (\<lambda>f. 0 < snd f) (map fieldShape os)" and "length ts = length os"
    and "\<forall>i < length os. isValidType (ts ! i) \<and> storageByteLength (ts ! i) = Some (byteLength (os ! i))"
  shows "validFields len e ts offsets"
  using assms
proof (induction os arbitrary: e offsets ts)
  case (Cons object os)
  let ?len = "byteLength object" and ?al = "unat (cabi_alignment (ti_abi (obj_type object)))"
  obtain x offs t us where o: "offsets = x # offs" "ts = t # us" using Cons.prems(1,4)
    by (cases offsets; cases ts) (auto simp: fieldShape_def [of object] Let_def)
  have x: "unat x = roundUp (unat e) ?al" and offs: "map unat offs = cOffsets (unat x + unat ?len) (map fieldShape os)"
    using Cons.prems(1) o(1) by (auto simp: fieldShape_def [of object] Let_def)
  have pos: "0 < ?al" "list_all (\<lambda>f. 0 < snd f) (map fieldShape os)" using Cons.prems(3) by (auto simp: fieldShape_def [of object])
  have fin: "cEnd (unat x + unat ?len) (map fieldShape os) \<le> unat len" using Cons.prems(2) x by (simp add: fieldShape_def [of object])
  then have bound: "unat x + unat ?len \<le> unat len" using cEnd_ge [OF pos(2)] le_trans by blast
  then have sum: "unat (x + ?len) = unat x + unat ?len"
    using unsigned_less [of len, where 'a = nat] by (simp add: unat_word_ariths)
  have "validFields len (x + ?len) us offs"
    by (rule Cons.IH) (use offs fin sum pos(2) Cons.prems(4,5) o(2) in \<open>auto simp: nth_Cons split: nat.splits\<close>)
  moreover have "isValidType t" "storageByteLength t = Some ?len" using Cons.prems(5) o(2) by (force simp: nth_Cons)+
  moreover have "\<not> x < e" "\<not> x > len" "\<not> ?len > len - x"
    using roundUp_props(1) [OF pos(1), of "unat e"] x bound by (auto simp: word_less_nat_alt unat_sub word_le_nat_alt)
  ultimately show ?case using o by simp
next
  case Nil
  then show ?case by (cases ts) simp_all
qed

text \<open>A resolved structure: its layout is the reference layout of its fields, and its ABI type repeats it.\<close>

definition structLaid :: "StructInfo \<Rightarrow> ObjectInfo list \<Rightarrow> size_t list \<Rightarrow> bool" where
  "structLaid s os offsets \<longleftrightarrow>
     (let shapes = map fieldShape os in
      list_all objectOk os \<and> map unat offsets = cOffsets 0 shapes \<and>
      unat (si_byteLength s) = cSize shapes \<and> unat (si_alignment s) = cAlignment shapes \<and>
      si_abi s = CAbiType CAbiAggregate (si_byteLength s) False (si_name s) (si_alignment s) 1 (map fieldAbi os) offsets)"

definition structOk :: "StructInfo \<Rightarrow> bool" where
  "structOk s \<longleftrightarrow> structLaid s (map fi_object (si_fields s)) (map fi_offset (si_fields s)) \<and>
     map fi_name (si_fields s) = map (\<lambda>f. decl_name (field_declarator f)) (si_declared s)"

lemma cAlignment_pos: "0 < cAlignment fs"
proof -
  have "x \<le> fold max xs x" for x :: nat and xs by (induction xs arbitrary: x) (auto intro: le_trans [OF max.cobounded2])
  from this [of 1] show ?thesis by (simp add: cAlignment_def Suc_le_eq)
qed

lemma structLaid_complete:
  assumes "structLaid s os offsets" and "si_byteLength s \<noteq> 0" and "si_name s \<noteq> []"
  shows "abiComplete (si_abi s)"
proof -
  let ?shapes = "map fieldShape os"
  have ok: "list_all objectOk os" and offs: "map unat offsets = cOffsets 0 ?shapes"
    and len: "unat (si_byteLength s) = cSize ?shapes" and al: "unat (si_alignment s) = cAlignment ?shapes"
    and abi: "si_abi s = CAbiType CAbiAggregate (si_byteLength s) False (si_name s) (si_alignment s) 1 (map fieldAbi os) offsets"
    using assms(1) unfolding structLaid_def Let_def by auto
  have "length offsets = length (cOffsets 0 ?shapes)" using offs by (metis length_map)
  moreover have "length (cOffsets e fs) = length fs" for e fs by (induction e fs rule: cOffsets.induct) (simp_all add: Let_def)
  ultimately have olen: "length offsets = length os" by simp
  have pos: "list_all (\<lambda>f. 0 < snd f) ?shapes"
    using ok by (auto simp: list_all_iff objectOk_def abiComplete_def fieldShape_def unat_gt_0)
  have "cEnd 0 ?shapes \<le> unat (si_byteLength s)"
    unfolding len cSize_def by (rule roundUp_props(1) [OF cAlignment_pos])
  have ne: "os \<noteq> []"
  proof
    assume "os = []"
    then have "cSize ?shapes = 0" by (simp add: cSize_def roundUp_def cAlignment_def)
    then show False using len assms(2) by (simp add: unat_eq_0)
  qed
  have "\<exists>t. lowerCAbiType (si_abi s) nm role = Inr t \<and> isValidType t" for nm role
  proof -
    obtain ts where ts: "lowerCAbiFields (map fieldAbi os) nm = Inr ts" "length ts = length os"
      "\<forall>i < length os. isValidType (ts ! i) \<and> storageByteLength (ts ! i) = Some (byteLength (os ! i))"
      using lower_fields [OF ok] by blast
    have "validFields (si_byteLength s) 0 ts offsets"
      by (rule valid_fields [OF _ _ pos ts(2,3)]) (use offs \<open>cEnd 0 ?shapes \<le> unat (si_byteLength s)\<close> in simp_all)
    moreover have "si_alignment s \<noteq> 0" using al cAlignment_pos [of ?shapes] by auto
    ultimately show ?thesis using abi ts(1,2) ne assms(2,3)
      by (auto simp: storageByteLength_def olen)
  qed
  moreover have "si_alignment s \<noteq> 0" using al cAlignment_pos [of ?shapes] by auto
  ultimately show ?thesis using abi by (simp add: abiComplete_def)
qed

end
