(* ===== verification/CCompat_Resolve.thy ===== *)
theory CCompat_Resolve
  imports CCompat_Layout "HOL-Library.Sublist"
begin

text \<open>
  The resolution of C types against the reference layout: it returns within a bound on the names that are not
  being resolved, reports a diagnostic whenever it gives up, leaves what it does not own as it is, and keeps the
  invariant that every resolved structure has the reference layout and every resolved typedef names a complete object.
\<close>

section \<open>What resolution keeps\<close>

definition aliasKey :: "AliasInfo \<Rightarrow> nat \<times> CType \<times> Declarator \<times> bool" where
  "aliasKey a = (al_position a, al_type a, al_declarator a, al_resolving a)"

definition structKey :: "StructInfo \<Rightarrow> string \<times> FieldDecl list \<times> SourceRange \<times> bool" where
  "structKey s = (si_name s, si_declared s, si_range s, si_resolving s)"

abbreviation aliasKeys :: "Lowerer \<Rightarrow> string \<Rightarrow> (nat \<times> CType \<times> Declarator \<times> bool) option" where
  "aliasKeys l \<equiv> \<lambda>n. map_option aliasKey (fmlookup (low_aliases l) n)"

abbreviation structKeys :: "Lowerer \<Rightarrow> string \<Rightarrow> (string \<times> FieldDecl list \<times> SourceRange \<times> bool) option" where
  "structKeys l \<equiv> \<lambda>n. map_option structKey (fmlookup (low_structs l) n)"

definition sameFrame :: "Lowerer \<Rightarrow> Lowerer \<Rightarrow> bool" where
  "sameFrame l q \<longleftrightarrow> low_options q = low_options l \<and> low_functions q = low_functions l \<and> low_scopes q = low_scopes l \<and>
     low_declarations q = low_declarations l \<and> low_linkage q = low_linkage l \<and> prefix (low_diagnostics l) (low_diagnostics q)"

text \<open>A structure outside \<open>names\<close> that is resolved or being resolved stays as it is.\<close>

definition keptBut :: "string set \<Rightarrow> Lowerer \<Rightarrow> Lowerer \<Rightarrow> bool" where
  "keptBut names l q \<longleftrightarrow> sameFrame l q \<and> aliasKeys q = aliasKeys l \<and> structKeys q = structKeys l \<and>
     (\<forall>n s. n \<notin> names \<longrightarrow> fmlookup (low_structs l) n = Some s \<longrightarrow> si_resolving s \<or> si_resolved s \<longrightarrow>
        fmlookup (low_structs q) n = Some s)"

abbreviation kept :: "Lowerer \<Rightarrow> Lowerer \<Rightarrow> bool" where
  "kept \<equiv> keptBut {}"

lemma keptBut_refl: "keptBut N l l"
  by (simp add: keptBut_def sameFrame_def)

lemma keptBut_trans: "keptBut N l q \<Longrightarrow> keptBut N q r \<Longrightarrow> keptBut N l r"
  unfolding keptBut_def sameFrame_def by (metis prefix_order.trans)

lemma kept_but: "kept l q \<Longrightarrow> keptBut N l q"
  by (simp add: keptBut_def)

lemma keptBut_diagnostics:
  assumes "keptBut N l q"
  shows "prefix (low_diagnostics l) (low_diagnostics q)" and "length (low_diagnostics l) \<le> length (low_diagnostics q)"
    and "low_diagnostics q = [] \<Longrightarrow> low_diagnostics l = []"
  using assms by (auto simp: keptBut_def sameFrame_def dest: prefix_length_le)

lemma kept_struct:
  assumes "kept l q" and "fmlookup (low_structs l) n = Some s" and "si_resolving s \<or> si_resolved s"
  shows "fmlookup (low_structs q) n = Some s"
  using assms by (auto simp: keptBut_def)

lemma kept_lowerError: "kept l (lowerError rg msg l)"
  by (simp add: keptBut_def sameFrame_def lowerError_def)

section \<open>The names that can still be resolved\<close>

definition openAliases :: "Lowerer \<Rightarrow> string set" where
  "openAliases l = {n. \<exists>k. aliasKeys l n = Some k \<and> \<not> snd (snd (snd k))}"

definition openStructs :: "Lowerer \<Rightarrow> string set" where
  "openStructs l = {n. \<exists>k. structKeys l n = Some k \<and> \<not> snd (snd (snd k))}"

definition pending :: "Lowerer \<Rightarrow> nat" where
  "pending l = card (openAliases l) + card (openStructs l)"

lemma pending_kept: "keptBut N l q \<Longrightarrow> pending q = pending l"
  by (simp add: keptBut_def pending_def openAliases_def openStructs_def fun_eq_iff)

lemma open_finite: "finite (openAliases l)" "finite (openStructs l)"
proof -
  have "openAliases l \<subseteq> fmdom' (low_aliases l)" "openStructs l \<subseteq> fmdom' (low_structs l)"
    by (auto simp: openAliases_def openStructs_def intro: fmdom'I)
  then show "finite (openAliases l)" "finite (openStructs l)" by (auto intro: finite_subset)
qed

lemma onAlias_lookup: "fmlookup (low_aliases (onAlias name f l)) n =
    (if n = name then map_option f (fmlookup (low_aliases l) n) else fmlookup (low_aliases l) n)"
  by (auto simp: onAlias_def split: option.splits)

lemma onStruct_lookup: "fmlookup (low_structs (onStruct name f l)) n =
    (if n = name then map_option f (fmlookup (low_structs l) n) else fmlookup (low_structs l) n)"
  by (auto simp: onStruct_def split: option.splits)

lemma onAlias_frame [simp]:
  "low_options (onAlias n f l) = low_options l" "low_functions (onAlias n f l) = low_functions l"
  "low_scopes (onAlias n f l) = low_scopes l" "low_declarations (onAlias n f l) = low_declarations l"
  "low_linkage (onAlias n f l) = low_linkage l" "low_diagnostics (onAlias n f l) = low_diagnostics l"
  "low_structs (onAlias n f l) = low_structs l"
  by (simp_all add: onAlias_def split: option.splits)

lemma onStruct_frame [simp]:
  "low_options (onStruct n f l) = low_options l" "low_functions (onStruct n f l) = low_functions l"
  "low_scopes (onStruct n f l) = low_scopes l" "low_declarations (onStruct n f l) = low_declarations l"
  "low_linkage (onStruct n f l) = low_linkage l" "low_diagnostics (onStruct n f l) = low_diagnostics l"
  "low_aliases (onStruct n f l) = low_aliases l"
  by (simp_all add: onStruct_def split: option.splits)

lemma pending_mark_alias:
  assumes "fmlookup (low_aliases l) name = Some a" and "\<not> al_resolving a"
  shows "pending (onAlias name (\<lambda>a. a\<lparr>al_resolving := True\<rparr>) l) < pending l"
proof -
  let ?l = "onAlias name (\<lambda>a. a\<lparr>al_resolving := True\<rparr>) l"
  have "openAliases ?l = openAliases l - {name}" using assms
    by (fastforce simp: openAliases_def onAlias_lookup aliasKey_def split: if_splits)
  moreover have "name \<in> openAliases l" using assms by (force simp: openAliases_def aliasKey_def)
  moreover have "openStructs ?l = openStructs l" by (simp add: openStructs_def)
  ultimately show ?thesis using card_Diff1_less [OF open_finite(1)] by (simp add: pending_def)
qed

lemma pending_mark_struct:
  assumes "fmlookup (low_structs l) name = Some s" and "\<not> si_resolving s"
  shows "pending (onStruct name (\<lambda>s. s\<lparr>si_resolving := True\<rparr>) l) < pending l"
proof -
  let ?l = "onStruct name (\<lambda>s. s\<lparr>si_resolving := True\<rparr>) l"
  have "openStructs ?l = openStructs l - {name}" using assms
    by (auto simp: openStructs_def onStruct_lookup structKey_def split: if_splits)
  moreover have "name \<in> openStructs l" using assms by (force simp: openStructs_def structKey_def)
  moreover have "openAliases ?l = openAliases l" by (simp add: openAliases_def)
  ultimately show ?thesis using card_Diff1_less [OF open_finite(2)] by (simp add: pending_def)
qed

section \<open>The invariant\<close>

definition aliasSettled :: "AliasInfo \<Rightarrow> bool" where
  "aliasSettled a \<longleftrightarrow> (al_resolved a \<longrightarrow> (\<exists>object. al_object a = Some object \<and> objectOk object))"

text \<open>After a failure the fields of a structure may be incomplete: the statement on them holds while nothing is reported.\<close>

definition structSettled :: "bool \<Rightarrow> StructInfo \<Rightarrow> bool" where
  "structSettled clean s \<longleftrightarrow>
     (si_resolved s \<longrightarrow> (\<exists>os offsets. structLaid s os offsets)) \<and>
     (clean \<longrightarrow> (si_resolved s \<longrightarrow> structOk s) \<and> (\<not> si_resolved s \<and> \<not> si_resolving s \<longrightarrow> si_fields s = []))"

definition settled :: "Lowerer \<Rightarrow> bool" where
  "settled l \<longleftrightarrow> pointerByteLength l = pointerSize \<and>
     (\<forall>n a. fmlookup (low_aliases l) n = Some a \<longrightarrow> aliasSettled a) \<and>
     (\<forall>n s. fmlookup (low_structs l) n = Some s \<longrightarrow>
        si_name s = n \<and> n \<noteq> [] \<and> structSettled (low_diagnostics l = []) s)"

text \<open>How an operation of the resolver ends: it gives up only with a new diagnostic.\<close>

definition outcome :: "('a \<Rightarrow> bool) \<Rightarrow> Lowerer \<Rightarrow> Lowerer \<Rightarrow> 'a option \<Rightarrow> bool" where
  "outcome Ok l q r \<longleftrightarrow> kept l q \<and> settled q \<and>
     (case r of None \<Rightarrow> length (low_diagnostics l) < length (low_diagnostics q) | Some x \<Rightarrow> Ok x)"

lemma settled_lowerError: "settled l \<Longrightarrow> settled (lowerError rg msg l)"
  by (auto simp: settled_def lowerError_def pointerByteLength_def structSettled_def)

lemma wp_failing: "settled l \<Longrightarrow> wp (failing rg msg) (outcome Ok l) l"
  unfolding failing_def using kept_lowerError settled_lowerError by (simp add: outcome_def) (simp add: lowerError_def)

lemma outcome_trans:
  assumes "kept l q" and "outcome Ok q r x"
  shows "outcome Ok l r x"
  using assms keptBut_trans [of "{}" l q r] keptBut_diagnostics(2) [of "{}" l q]
  by (auto simp: outcome_def split: option.splits)

lemma outcome_mono: "outcome P l q r \<Longrightarrow> (\<And>x. P x \<Longrightarrow> R x) \<Longrightarrow> outcome R l q r"
  by (auto simp: outcome_def split: option.splits)

lemma outcome_ret: "settled l \<Longrightarrow> Ok x \<Longrightarrow> wp (ret x) (outcome Ok l) l"
  by (simp add: outcome_def keptBut_refl)

text \<open>Sequencing: the continuation starts from a settled state that keeps the first one.\<close>

lemma wp_sequence:
  assumes "wp m (outcome P l) l" and "\<And>x q. kept l q \<Longrightarrow> settled q \<Longrightarrow> P x \<Longrightarrow> wp (f x) (outcome R q) q"
  shows "wp (andThen m f) (outcome R l) l"
  unfolding wp_andThen
proof (rule wp_mono [OF assms(1)])
  fix q r assume o: "outcome P l q r"
  show "case r of None \<Rightarrow> outcome R l q None | Some x \<Rightarrow> wp (f x) (outcome R l) q"
  proof (cases r)
    case (Some x)
    with o have "kept l q" "settled q" "P x" by (simp_all add: outcome_def)
    then show ?thesis using Some by (auto intro: wp_mono [OF assms(2)] outcome_trans)
  qed (use o in \<open>simp add: outcome_def\<close>)
qed

lemma wp_outcome_trans: "kept l q \<Longrightarrow> wp m (outcome P q) q \<Longrightarrow> wp m (outcome P l) q"
  by (erule wp_mono) (rule outcome_trans)

section \<open>Types\<close>

text \<open>A resolved type: void, a structure that need not be complete, or a type whose ABI is complete.\<close>

definition typeOk :: "TypeInfo \<Rightarrow> bool" where
  "typeOk t \<longleftrightarrow> isVoid t \<or> isAggregate t \<or> abiComplete (ti_abi t)"

lemma scalar_ok: "(kind = CAbiInteger \<and> len \<in> {1, 2, 4, 8}) \<or> (kind = CAbiFloating \<and> len \<in> {4, 8}) \<Longrightarrow>
    typeOk (scalar kind len sg tmpl)"
  by (auto simp: typeOk_def scalar_def mkAbi_def abiComplete_def storageByteLength_def)

lemma pointer_ok: "typeOk (makePointer pointerSize t)"
  by (simp add: typeOk_def makePointer_def mkAbi_def abiComplete_def storageByteLength_def pointerSize_def)

lemma makePointer_power_ok: "typeOk t \<Longrightarrow> typeOk ((makePointer pointerSize ^^ n) t)"
  by (cases n) (simp_all add: pointer_ok)

section \<open>Marks\<close>

lemma settled_onAlias:
  assumes "settled l" and "\<And>a. fmlookup (low_aliases l) name = Some a \<Longrightarrow> aliasSettled (f a)"
  shows "settled (onAlias name f l)"
  using assms by (auto simp: settled_def onAlias_lookup pointerByteLength_def split: if_splits)

lemma settled_onStruct:
  assumes "settled l" and "\<And>s. fmlookup (low_structs l) name = Some s \<Longrightarrow>
    si_name (f s) = si_name s \<and> structSettled (low_diagnostics l = []) (f s)"
  shows "settled (onStruct name f l)"
  using assms by (auto simp: settled_def onStruct_lookup pointerByteLength_def split: if_splits)

text \<open>A typedef that is marked, resolved and unmarked.\<close>

lemma kept_unmark_alias:
  assumes "kept (onAlias name (\<lambda>a. a\<lparr>al_resolving := True\<rparr>) l) q"
    and "fmlookup (low_aliases l) name = Some a" and "\<not> al_resolving a"
    and "\<And>b. aliasKey (f b) = (al_position b, al_type b, al_declarator b, False)"
  shows "kept l (onAlias name f q)"
proof -
  let ?m = "onAlias name (\<lambda>a. a\<lparr>al_resolving := True\<rparr>) l"
  have keys: "aliasKeys q n = aliasKeys ?m n" for n using assms(1) unfolding keptBut_def by metis
  have "aliasKeys (onAlias name f q) n = aliasKeys l n" for n
  proof (cases "n = name")
    case True
    have "aliasKeys q name = Some (aliasKey (a\<lparr>al_resolving := True\<rparr>))" using keys [of name] assms(2) by (simp add: onAlias_lookup)
    then obtain b where "fmlookup (low_aliases q) name = Some b" "aliasKey b = aliasKey (a\<lparr>al_resolving := True\<rparr>)" by auto
    then show ?thesis using True assms(2-4) by (simp add: onAlias_lookup) (simp add: aliasKey_def)
  qed (use keys [of n] in \<open>simp add: onAlias_lookup\<close>)
  then show ?thesis using assms(1) by (auto simp: keptBut_def sameFrame_def)
qed

lemma kept_unmark_struct:
  assumes "keptBut {name} (onStruct name (\<lambda>s. s\<lparr>si_resolving := True\<rparr>) l) q"
    and "fmlookup (low_structs l) name = Some s" and "\<not> si_resolving s" and "\<not> si_resolved s"
    and "\<And>t. structKey (f t) = (si_name t, si_declared t, si_range t, False)"
  shows "kept l (onStruct name f q)"
proof -
  let ?m = "onStruct name (\<lambda>s. s\<lparr>si_resolving := True\<rparr>) l"
  have keys: "structKeys q n = structKeys ?m n" for n using assms(1) unfolding keptBut_def by metis
  have "structKeys (onStruct name f q) n = structKeys l n" for n
  proof (cases "n = name")
    case True
    have "structKeys q name = Some (structKey (s\<lparr>si_resolving := True\<rparr>))" using keys [of name] assms(2) by (simp add: onStruct_lookup)
    then obtain t where "fmlookup (low_structs q) name = Some t" "structKey t = structKey (s\<lparr>si_resolving := True\<rparr>)" by auto
    then show ?thesis using True assms(2,3,5) by (simp add: onStruct_lookup) (simp add: structKey_def)
  qed (use keys [of n] in \<open>simp add: onStruct_lookup\<close>)
  moreover have "fmlookup (low_structs (onStruct name f q)) n = Some t"
    if "fmlookup (low_structs l) n = Some t" "si_resolving t \<or> si_resolved t" for n t
  proof -
    have ne: "n \<noteq> name" using that assms(2-4) by auto
    then have "fmlookup (low_structs q) n = Some t" using that assms(1) by (auto simp: keptBut_def onStruct_lookup)
    then show ?thesis using ne by (simp add: onStruct_lookup)
  qed
  ultimately show ?thesis using assms(1) by (auto simp: keptBut_def sameFrame_def)
qed

text \<open>How the loop over the fields of \<open>name\<close> ends, given the names of all its fields.\<close>

definition layoutOutcome :: "string \<Rightarrow> string list \<Rightarrow> Lowerer \<Rightarrow> Lowerer \<Rightarrow> Layout option \<Rightarrow> bool" where
  "layoutOutcome name names l q r \<longleftrightarrow> keptBut {name} l q \<and> settled q \<and> (case r of
     None \<Rightarrow> length (low_diagnostics l) < length (low_diagnostics q)
   | Some lay \<Rightarrow> \<exists>s os offsets. fmlookup (low_structs q) name = Some s \<and> \<not> si_resolved s \<and> laidOut os offsets lay \<and> list_all objectOk os \<and>
       (low_diagnostics q = [] \<longrightarrow> map fi_object (si_fields s) = os \<and> map fi_offset (si_fields s) = offsets \<and> map fi_name (si_fields s) = names))"

text \<open>A structure whose layout has been completed.\<close>

lemma structLaid_finish:
  assumes "laidOut os offsets lay" and "list_all objectOk os" and "alignUp (lay_offset lay) (lay_alignment lay) = Some len"
  shows "structLaid (s\<lparr>si_byteLength := len, si_alignment := lay_alignment lay, si_abi := structAbi (si_name s) len lay,
      si_resolving := b, si_resolved := c\<rparr>) os offsets"
  using assms by (auto simp: laidOut_def structLaid_def Let_def structAbi_def alignUp_exact cSize_def)

section \<open>The contract of a resolver\<close>

locale object_resolver =
  fixes ro :: resolver and n :: nat
  assumes ro_sound: "settled l \<Longrightarrow> pending l < n \<Longrightarrow> wp (ro type declarator) (outcome objectOk l) l"
begin

lemma resolveAliasObject_sound:
  assumes "settled l" and "pending l \<le> n"
  shows "wp (resolveAliasObject ro name rg) (outcome objectOk l) l"
proof (cases "fmlookup (low_aliases l) name")
  case (Some a)
  let ?m = "onAlias name (\<lambda>a. a\<lparr>al_resolving := True\<rparr>) l"
  have set: "aliasSettled a" using assms(1) Some by (auto simp: settled_def)
  consider "al_resolved a" | "\<not> al_resolved a" "al_resolving a" | "\<not> al_resolved a" "\<not> al_resolving a" by blast
  then show ?thesis
  proof cases
    case 1
    then obtain object where "al_object a = Some object" "objectOk object" using set by (auto simp: aliasSettled_def)
    then show ?thesis using 1 Some outcome_ret [OF assms(1), of objectOk] by (simp add: resolveAliasObject_def)
  next
    case 2
    then show ?thesis using Some wp_failing [OF assms(1)] by (simp add: resolveAliasObject_def)
  next
    case 3
    have m: "settled ?m" using assms(1) set Some by (intro settled_onAlias) (auto simp: aliasSettled_def)
    have less: "pending ?m < n" using pending_mark_alias [OF Some 3(2)] assms(2) by simp
    have fin: "outcome objectOk l (onAlias name f q) (Some object)"
      if "kept ?m q" "settled q" "objectOk object" "f = (\<lambda>a. a\<lparr>al_resolving := False, al_object := Some object, al_resolved := True\<rparr>)" for q object f
      using that kept_unmark_alias [OF that(1) Some 3(2), of f] settled_onAlias [OF that(2), of name f]
      by (simp add: outcome_def aliasKey_def aliasSettled_def)
    have twice: "onAlias name g (onAlias name f q) = onAlias name (g \<circ> f) q" for f g q
      by (auto simp: onAlias_def split: option.splits)
    have "wp (ro (al_type a) (al_declarator a)) (\<lambda>q r. wp (step (onAlias name (\<lambda>a. a\<lparr>al_resolving := False\<rparr>)) (case r of
        None \<Rightarrow> nullptr
      | Some object \<Rightarrow> step (onAlias name (\<lambda>a. a\<lparr>al_object := Some object, al_resolved := True\<rparr>)) (ret object))) (outcome objectOk l) q) ?m"
    proof (rule wp_mono [OF ro_sound [OF m less]])
      fix q r assume o: "outcome objectOk ?m q r"
      show "wp (step (onAlias name (\<lambda>a. a\<lparr>al_resolving := False\<rparr>)) (case r of
          None \<Rightarrow> nullptr
        | Some object \<Rightarrow> step (onAlias name (\<lambda>a. a\<lparr>al_object := Some object, al_resolved := True\<rparr>)) (ret object))) (outcome objectOk l) q"
      proof (cases r)
        case None
        have k: "kept ?m q" and q: "settled q" using o by (simp_all add: outcome_def)
        have "settled (onAlias name (\<lambda>a. a\<lparr>al_resolving := False\<rparr>) q)"
          by (rule settled_onAlias [OF q]) (use q in \<open>auto simp: settled_def aliasSettled_def\<close>)
        then show ?thesis using None o kept_unmark_alias [OF k Some 3(2), of "\<lambda>a. a\<lparr>al_resolving := False\<rparr>"]
          by (simp add: outcome_def aliasKey_def)
      next
        case (Some object)
        then show ?thesis using o fin [of q object, OF _ _ _ refl] by (simp add: outcome_def twice comp_def)
      qed
    qed
    then show ?thesis using Some 3 by (simp add: resolveAliasObject_def)
  qed
qed (simp add: resolveAliasObject_def wp_failing [OF assms(1)])

lemma resolveAlias_sound:
  assumes "settled l" and "pending l \<le> n"
  shows "wp (resolveAlias ro name rg) (outcome typeOk l) l"
  unfolding resolveAlias_def
proof (rule wp_sequence [OF resolveAliasObject_sound [OF assms]])
  fix object q assume "settled q" "objectOk object"
  then show "wp (if obj_isArray object then failing rg (''C array typedef '' @ CCompat_Parser.quoted name @ '' cannot be used where a scalar C type is required'')
      else ret (obj_type object)) (outcome typeOk q) q"
    by (intro wp_if wp_failing outcome_ret) (auto simp: typeOk_def objectOk_def)
qed

lemma resolveBaseType_sound:
  assumes "settled l" and "pending l \<le> n"
  shows "wp (resolveBaseType ro type) (outcome typeOk l) l"
  unfolding resolveBaseType_def
  by (intro wp_inspect wp_if wp_failing assms(1))
    (cases "ctype_base type"; simp del: wp_actions;
      (intro resolveAlias_sound outcome_ret assms scalar_ok; simp; fail)?;
      (intro outcome_ret assms(1); simp add: typeOk_def scalar_def mkAbi_def isVoid_def isAggregate_def)?)

lemma resolveType_sound:
  assumes "settled l" and "pending l \<le> n"
  shows "wp (resolveType ro type depth) (outcome typeOk l) l"
  unfolding resolveType_def
proof (rule wp_sequence [OF resolveBaseType_sound [OF assms]])
  fix t q assume "settled q" "typeOk t"
  moreover from this have "pointerByteLength q = pointerSize" by (simp add: settled_def)
  ultimately show "wp (inspect (\<lambda>l. ret ((makePointer (pointerByteLength l) ^^ depth) t))) (outcome typeOk q) q"
    by (intro wp_inspect outcome_ret) (simp_all add: makePointer_power_ok)
qed

lemma layoutFields_sound:
  assumes "settled l" and "pending l < n" and "fmlookup (low_structs l) name = Some s" and "si_resolving s" and "\<not> si_resolved s"
    and "laidOut os offsets lay" and "list_all objectOk os"
    and "low_diagnostics l = [] \<Longrightarrow> map fi_object (si_fields s) = os \<and> map fi_offset (si_fields s) = offsets \<and>
      map fi_name (si_fields s) = names"
  shows "wp (layoutFields ro name decls lay) (layoutOutcome name (names @ map (\<lambda>f. decl_name (field_declarator f)) decls) l) l"
  using assms
proof (induction decls arbitrary: l s os offsets names lay)
  case Nil
  then show ?case by (auto simp: layoutOutcome_def keptBut_refl)
next
  case (Cons field rest)
  let ?d = "decl_name (field_declarator field)"
  let ?add = "\<lambda>object x s. s\<lparr>si_fields := si_fields s @ [\<lparr>fi_name = ?d, fi_object = object, fi_offset = x\<rparr>]\<rparr>"
  show ?case unfolding layoutFields.simps wp_andThen
  proof (rule wp_mono [OF ro_sound [OF Cons.prems(1,2), of "field_type field" "field_declarator field"]], goal_cases)
    case (1 q r)
    then have k: "kept l q" and sq: "settled q" by (simp_all add: outcome_def)
    have at: "fmlookup (low_structs q) name = Some s" using kept_struct [OF k Cons.prems(3)] Cons.prems(4) by blast
    have clean: "low_diagnostics q = [] \<Longrightarrow> low_diagnostics l = []" by (rule keptBut_diagnostics(3) [OF k])
    show ?case
    proof (cases r)
      case None
      then show ?thesis using 1 kept_but [OF k] by (simp add: outcome_def layoutOutcome_def)
    next
      case (Some object)
      then have ok: "objectOk object" using 1 by (simp add: outcome_def)
      show ?thesis
      proof (cases "placeField object lay")
        case None
        then show ?thesis using Some kept_but [OF keptBut_trans [OF k kept_lowerError]] settled_lowerError [OF sq] keptBut_diagnostics(2) [OF k]
          by (simp add: failing_def layoutOutcome_def) (simp add: lowerError_def)
      next
        case (Some place)
        obtain x lay' where p: "place = (x, lay')" by fastforce
        let ?q = "onStruct name (?add object x) q"
        have s2: "settled ?q" by (rule settled_onStruct [OF sq])
            (use at Cons.prems(4,5) in \<open>auto simp: structSettled_def\<close>)
        have k2: "keptBut {name} l ?q" using kept_but [OF k, of "{name}"]
          by (auto simp: keptBut_def sameFrame_def onStruct_lookup fun_eq_iff at structKey_def Cons.prems(3))
        have IH: "wp (layoutFields ro name rest lay')
            (layoutOutcome name ((names @ [?d]) @ map (\<lambda>f. decl_name (field_declarator f)) rest) ?q) ?q"
        proof (rule Cons.IH [OF s2, where s = "?add object x s" and os = "os @ [object]" and offsets = "offsets @ [x]"])
          show "pending ?q < n" using pending_kept [OF k2] Cons.prems(2) by simp
          show "laidOut (os @ [object]) (offsets @ [x]) lay'" using laidOut_place [OF Cons.prems(6)] Some p by simp
        qed (use at Cons.prems(4,5,7,8) ok clean in \<open>auto simp: onStruct_lookup\<close>)
        show ?thesis using \<open>r = Some object\<close> Some p
          by (simp, intro wp_mono [OF IH])
            (use keptBut_trans [OF k2] keptBut_diagnostics(2) [OF k] in \<open>auto simp: layoutOutcome_def split: option.splits\<close>)
      qed
    qed
  qed
qed

lemma resolveStruct_sound:
  assumes "settled l" and "pending l \<le> n"
  shows "wp (resolveStruct ro name rg) (\<lambda>q r. outcome (\<lambda>_. \<exists>s. fmlookup (low_structs q) name = Some s \<and> si_resolved s) l q r) l"
proof (cases "fmlookup (low_structs l) name")
  case None
  then show ?thesis using wp_failing [OF assms(1)] by (simp add: resolveStruct_def failing_def outcome_def)
next
  case (Some s)
  let ?m = "onStruct name (\<lambda>s. s\<lparr>si_resolving := True\<rparr>) l"
  have set: "structSettled (low_diagnostics l = []) s" "si_name s = name" using assms(1) Some by (auto simp: settled_def)
  consider "si_resolved s" | "\<not> si_resolved s" "si_resolving s" | "\<not> si_resolved s" "\<not> si_resolving s" by blast
  then show ?thesis
  proof cases
    case 1
    then show ?thesis using Some assms(1) by (simp add: resolveStruct_def outcome_def keptBut_refl)
  next
    case 2
    then show ?thesis using Some wp_failing [OF assms(1)] by (simp add: resolveStruct_def failing_def outcome_def)
  next
    case 3
    have m: "settled ?m" using set Some 3 by (intro settled_onStruct assms(1)) (auto simp: structSettled_def)
    have less: "pending ?m < n" using pending_mark_struct [OF Some 3(2)] assms(2) by simp
    have at: "fmlookup (low_structs ?m) name = Some (s\<lparr>si_resolving := True\<rparr>)" using Some by (simp add: onStruct_lookup)
    have clean: "low_diagnostics ?m = [] \<Longrightarrow> si_fields s = []" using set 3 by (auto simp: structSettled_def)
    let ?names = "map (\<lambda>f. decl_name (field_declarator f)) (si_declared s)"
    have loop: "wp (layoutFields ro name (si_declared s) \<lparr>lay_offset = 0, lay_alignment = 1, lay_abiFields = [], lay_abiOffsets = []\<rparr>)
        (layoutOutcome name ?names ?m) ?m"
      using layoutFields_sound [OF m less at _ _ laidOut_start, of "[]" "si_declared s"] clean 3(1) by simp
    show ?thesis using Some 3
    proof (simp add: resolveStruct_def, intro wp_mono [OF loop], goal_cases)
      case (1 q r)
      then have k: "keptBut {name} ?m q" and sq: "settled q" by (simp_all add: layoutOutcome_def)
      note keep = kept_unmark_struct [OF k Some 3(2,1)]
      let ?off = "\<lambda>s. s\<lparr>si_resolving := False\<rparr>"
      have gaveUp: "outcome P l (onStruct name ?off q) None" if "settled q" "keptBut {name} ?m q"
        "length (low_diagnostics l) < length (low_diagnostics q)" for P and q
      proof -
        have "settled (onStruct name ?off q)"
          by (rule settled_onStruct [OF that(1)]) (use that(1,3) in \<open>auto simp: settled_def structSettled_def structLaid_def structOk_def\<close>)
        then show ?thesis using kept_unmark_struct [OF that(2) Some 3(2,1), of ?off] that(3) by (simp add: outcome_def structKey_def)
      qed
      show ?case
      proof (cases r)
        case None
        then show ?thesis using 1 gaveUp [OF sq k] by (simp add: layoutOutcome_def)
      next
        case lay: (Some lay)
        with 1 obtain t os offsets where t: "fmlookup (low_structs q) name = Some t" "laidOut os offsets lay" "list_all objectOk os"
          "low_diagnostics q = [] \<Longrightarrow> map fi_object (si_fields t) = os \<and> map fi_offset (si_fields t) = offsets \<and> map fi_name (si_fields t) = ?names"
          unfolding layoutOutcome_def by auto
        have grow: "length (low_diagnostics l) \<le> length (low_diagnostics q)" using keptBut_diagnostics(2) [OF k] by simp
        have "structKeys q name = structKeys ?m name" using k unfolding keptBut_def by metis
        then have key: "si_name t = name" "si_declared t = si_declared s" using t(1) at set(2) by (simp_all add: structKey_def)
        show ?thesis
        proof (cases "alignUp (lay_offset lay) (lay_alignment lay)")
          case None
          have "keptBut {name} ?m (lowerError (si_range s) msg q)" for msg
            by (rule keptBut_trans [OF k kept_but [OF kept_lowerError]])
          moreover have "length (low_diagnostics l) < length (low_diagnostics (lowerError (si_range s) msg q))" for msg
            using grow by (simp add: lowerError_def)
          ultimately show ?thesis using lay None by (auto intro!: gaveUp settled_lowerError sq)
        next
          case (Some len)
          let ?f = "\<lambda>u. u\<lparr>si_byteLength := len, si_alignment := lay_alignment lay, si_abi := structAbi name len lay,
            si_resolving := False, si_resolved := True\<rparr>"
          have laid: "structLaid (?f t) os offsets" using structLaid_finish [OF t(2,3) Some, where s = t and b = False and c = True] key(1) by simp
          have "structSettled (low_diagnostics q = []) (?f t)"
            using laid t(4) key(2) by (auto simp: structSettled_def structOk_def)
          then have "settled (onStruct name ?f q)" using t(1) by (intro settled_onStruct [OF sq]) simp
          then show ?thesis using keep [of ?f] t(1) lay Some set(2) by (simp add: outcome_def structKey_def onStruct_lookup)
        qed
      qed
    qed
  qed
qed

lemma ensureStructComplete_sound:
  assumes "settled l" and "pending l \<le> n" and "typeOk type" and "\<not> isVoid type"
  shows "wp (ensureStructComplete ro type rg) (outcome (\<lambda>t. typeLength t \<noteq> 0 \<longrightarrow> abiComplete (ti_abi t)) l) l"
proof (cases "isAggregate type")
  case True
  let ?name = "cabi_aggregateName (ti_abi type)"
  show ?thesis using True
  proof (simp add: ensureStructComplete_def Let_def, intro wp_mono [OF resolveStruct_sound [OF assms(1,2)]], goal_cases)
    case (1 q r)
    show ?case
    proof (cases r)
      case (Some u)
      with 1 obtain s where s: "fmlookup (low_structs q) ?name = Some s" "si_resolved s" by (auto simp: outcome_def)
      have q: "kept l q" "settled q" using 1 by (simp_all add: outcome_def)
      have name: "si_name s \<noteq> []" and "structSettled (low_diagnostics q = []) s" using q(2) s(1) by (auto simp: settled_def)
      then obtain os offsets where laid: "structLaid s os offsets" using s(2) by (auto simp: structSettled_def)
      have "abiComplete (si_abi s)" if "cabi_byteLength (si_abi s) \<noteq> 0"
      proof -
        have "si_byteLength s \<noteq> 0" using laid that by (auto simp: structLaid_def Let_def)
        then show ?thesis by (rule structLaid_complete [OF laid _ name])
      qed
      then show ?thesis using Some s(1) q by (simp add: outcome_def typeLength_def)
    qed (use 1 in \<open>simp add: outcome_def\<close>)
  qed
next
  case False
  then show ?thesis unfolding ensureStructComplete_def
    using outcome_ret [OF assms(1), of "\<lambda>t. typeLength t \<noteq> 0 \<longrightarrow> abiComplete (ti_abi t)" type] assms(3,4) by (simp add: typeOk_def)
qed

lemma completeObject_sound:
  assumes "settled l" and "pending l \<le> n"
  shows "wp (completeObject ro type declarator) (outcome objectOk l) l"
  unfolding completeObject_def
proof (rule wp_sequence [OF resolveType_sound [OF assms]], rule wp_if, goal_cases)
  case (1 t q)
  then show ?case by (simp add: wp_failing)
next
  case (2 t q)
  then have p: "pending q \<le> n" using pending_kept assms(2) by simp
  show ?case
  proof (rule wp_sequence [OF ensureStructComplete_sound [OF 2(2) p 2(3,4)]], goal_cases)
    case (1 u r)
    let ?object = "\<lparr>obj_type = u, obj_isArray = decl_arrayCount declarator \<noteq> None,
      obj_arrayCount = (case decl_arrayCount declarator of None \<Rightarrow> 0 | Some n \<Rightarrow> n)\<rparr>"
    have "objectOk ?object" if "byteLength ?object \<noteq> 0"
    proof -
      have "typeLength u \<noteq> 0" using that by (auto simp: byteLength_def typeLength_def Let_def checkedMultiply_def split: if_splits option.splits)
      then show ?thesis using 1 that by (simp add: objectOk_def)
    qed
    then show ?case unfolding Let_def by (intro wp_if wp_failing outcome_ret 1(2)) auto
  qed
qed

lemma resolveObject_sound:
  assumes "settled l" and "pending l \<le> n"
  shows "wp (resolveObject ro type declarator) (outcome objectOk l) l"
proof -
  have "wp (andThen (resolveAliasObject ro (ctype_name type) (ctype_range type)) (\<lambda>aliased.
      if obj_isArray aliased then
        (if decl_pointerDepth declarator \<noteq> 0 then failing (decl_range declarator) m1
         else if decl_arrayCount declarator \<noteq> None then failing (decl_range declarator) m2
         else ret aliased)
      else completeObject ro type declarator)) (outcome objectOk l) l" for m1 m2
    by (rule wp_sequence [OF resolveAliasObject_sound [OF assms]], intro wp_if wp_failing outcome_ret completeObject_sound)
      (use assms(2) in \<open>auto dest: pending_kept\<close>)
  then show ?thesis unfolding resolveObject_def
    by (intro wp_if wp_inspect wp_failing completeObject_sound assms) auto
qed

end

lemma resolver_step: "object_resolver (resolver n) n \<Longrightarrow> object_resolver (resolver (Suc n)) (Suc n)"
  by unfold_locales (simp add: object_resolver.resolveObject_sound less_Suc_eq_le)

interpretation tied: object_resolver "resolver n" n for n
  by (induction n) (rule object_resolver.intro, simp, rule resolver_step)

section \<open>Properties\<close>

text \<open>A structure of a character and an integer, before it is resolved.\<close>

definition exampleType :: "BaseType \<Rightarrow> string \<Rightarrow> CType" where
  "exampleType base name = \<lparr>ctype_base = base, ctype_name = name, ctype_isConst = False, ctype_isVolatile = False, ctype_range = noRange\<rparr>"

definition exampleDeclarator :: "string \<Rightarrow> Declarator" where
  "exampleDeclarator name = \<lparr>decl_name = name, decl_pointerDepth = 0, decl_arrayCount = None, decl_range = noRange\<rparr>"

definition exampleStruct :: StructInfo where
  "exampleStruct = \<lparr>si_name = ''Pair'',
     si_declared = [\<lparr>field_type = exampleType CChar [], field_declarator = exampleDeclarator ''c'', field_range = noRange\<rparr>,
                    \<lparr>field_type = exampleType CInt [], field_declarator = exampleDeclarator ''n'', field_range = noRange\<rparr>],
     si_range = noRange, si_resolving = False, si_resolved = False, si_byteLength = 0, si_alignment = 1, si_fields = [],
     si_abi = mkAbi CAbiVoid 0 False [] 1\<rparr>"

definition exampleLowerer :: Lowerer where
  "exampleLowerer = \<lparr>low_options = \<lparr>opt_pointerByteLength = 8, opt_rejectQualifiers = True, opt_allowHostFloatExternAbi = False\<rparr>,
     low_aliases = fmempty, low_structs = fmupd ''Pair'' exampleStruct fmempty, low_functions = fmempty, low_scopes = [],
     low_declarations = [], low_linkage = [], low_diagnostics = []\<rparr>"

lemma exampleLowerer_settled: "settled exampleLowerer" "pending exampleLowerer < 2"
proof -
  show "settled exampleLowerer"
    by (auto simp: settled_def exampleLowerer_def pointerByteLength_def pointerSize_def structSettled_def exampleStruct_def split: if_splits)
  have "openAliases exampleLowerer = {}" "openStructs exampleLowerer \<subseteq> {''Pair''}"
    by (auto simp: openAliases_def openStructs_def exampleLowerer_def split: if_splits)
  then have "card (openAliases exampleLowerer) = 0" "card (openStructs exampleLowerer) \<le> card {''Pair''}"
    by (simp, intro card_mono) simp_all
  then show "pending exampleLowerer < 2" by (simp add: pending_def)
qed

text \<open>
  C14.  Resolution returns for a bound above the number of names that are not being resolved.  It gives up only
  after reporting a diagnostic, it returns only objects whose ABI is complete, it appends diagnostics, keeps the
  options, functions, scopes and the output, and keeps the invariant of the typedefs and structures.
\<close>

theorem resolveObject_total:
  assumes "settled l" and "pending l < n"
  shows "\<exists>q r. resolver n type declarator l = Some (q, r) \<and> sameFrame l q \<and> settled q \<and> pending q = pending l \<and>
    (case r of None \<Rightarrow> length (low_diagnostics l) < length (low_diagnostics q) | Some object \<Rightarrow> objectOk object)"
proof -
  obtain q r where r: "resolver n type declarator l = Some (q, r)" and o: "outcome objectOk l q r"
    using tied.ro_sound [OF assms, of type declarator] by (auto simp: wp_def)
  then have k: "kept l q" by (simp add: outcome_def)
  then have "sameFrame l q" by (simp add: keptBut_def)
  then show ?thesis using r o pending_kept [OF k] by (auto simp: outcome_def split: option.splits)
qed

theorem resolveObject_total_witness:
  "\<exists>q r. resolver 2 (exampleType CStruct ''Pair'') (exampleDeclarator ''p'') exampleLowerer = Some (q, r) \<and> settled q"
  using resolveObject_total [OF exampleLowerer_settled, of "exampleType CStruct ''Pair''" "exampleDeclarator ''p''"] by blast

text \<open>
  C15.  Resolving a structure without reporting anything gives it the reference layout of the C ABI: every field
  is at the next multiple of its alignment after the field before it, the alignment is the greatest of the fields,
  and the length is rounded up to it, over the unbounded numbers; the fields keep their names and their order, and
  the ABI type repeats the layout.
\<close>

theorem resolveStruct_reference_layout:
  assumes "settled l" and "pending l \<le> n" and "resolveStruct (resolver n) name rg l = Some (q, Some ())"
    and "low_diagnostics q = []"
  shows "\<exists>s. fmlookup (low_structs q) name = Some s \<and>
    (let shapes = map (fieldShape \<circ> fi_object) (si_fields s) in
      map (unat \<circ> fi_offset) (si_fields s) = cOffsets 0 shapes \<and> unat (si_alignment s) = cAlignment shapes \<and>
      unat (si_byteLength s) = cSize shapes \<and> map fi_name (si_fields s) = map (\<lambda>f. decl_name (field_declarator f)) (si_declared s) \<and>
      si_abi s = CAbiType CAbiAggregate (si_byteLength s) False (si_name s) (si_alignment s) 1
        (map (fieldAbi \<circ> fi_object) (si_fields s)) (map fi_offset (si_fields s)))"
proof -
  have o: "outcome (\<lambda>_. \<exists>s. fmlookup (low_structs q) name = Some s \<and> si_resolved s) l q (Some ())"
    using tied.resolveStruct_sound [OF assms(1,2), of name rg] assms(3) by (simp add: wp_def)
  then obtain s where s: "fmlookup (low_structs q) name = Some s" "si_resolved s" by (auto simp: outcome_def)
  moreover have "structOk s" using o s assms(4) by (auto simp: outcome_def settled_def structSettled_def)
  ultimately show ?thesis by (auto simp: structOk_def structLaid_def Let_def comp_def)
qed

theorem resolveStruct_reference_layout_witness:
  "\<exists>q s. resolveStruct (resolver 1) ''Pair'' noRange exampleLowerer = Some (q, Some ()) \<and> fmlookup (low_structs q) ''Pair'' = Some s \<and>
     map (unat \<circ> fi_offset) (si_fields s) = cOffsets 0 (map (fieldShape \<circ> fi_object) (si_fields s))"
proof -
  have "case resolveStruct (resolver 1) ''Pair'' noRange exampleLowerer of
      Some (q, Some _) \<Rightarrow> low_diagnostics q = [] | _ \<Rightarrow> False" by code_simp
  then obtain q u where q: "resolveStruct (resolver 1) ''Pair'' noRange exampleLowerer = Some (q, Some u)" "low_diagnostics q = []"
    by (auto split: option.splits)
  then show ?thesis using resolveStruct_reference_layout [of exampleLowerer 1 "''Pair''" noRange q] exampleLowerer_settled
    by (simp add: Let_def) blast
qed

text \<open>
  The ABI type of a resolved object is lowered to an ABI type of the HIR that the HIR accepts and whose
  storage is as long as the object.
\<close>

theorem resolved_object_accepted:
  assumes "settled l" and "pending l < n" and "resolver n type declarator l = Some (q, Some object)"
  shows "\<exists>t. lowerCAbiType (fieldAbi object) symbolName role = Inr t \<and> isValidType t \<and> storageByteLength t = Some (byteLength object)"
proof -
  have "objectOk object" using tied.ro_sound [OF assms(1,2), of type declarator] assms(3) by (simp add: wp_def outcome_def)
  then show ?thesis by (rule objectOk_abi)
qed

theorem resolved_object_accepted_witness:
  "\<exists>q object t. resolver 2 (exampleType CStruct ''Pair'') (exampleDeclarator ''p'') exampleLowerer = Some (q, Some object) \<and>
     lowerCAbiType (fieldAbi object) ''p'' ''object'' = Inr t \<and> isValidType t"
proof -
  have "case resolver 2 (exampleType CStruct ''Pair'') (exampleDeclarator ''p'') exampleLowerer of
      Some (q, Some _) \<Rightarrow> True | _ \<Rightarrow> False" by code_simp
  then obtain q object where q: "resolver 2 (exampleType CStruct ''Pair'') (exampleDeclarator ''p'') exampleLowerer = Some (q, Some object)"
    by (auto split: option.splits)
  from resolved_object_accepted [OF exampleLowerer_settled q, of "''p''" "''object''"] q show ?thesis by blast
qed

end
