(* ===== verification/CCompat_Constants.thy ===== *)
theory CCompat_Constants
  imports CCompat_Types Literal "HOL-Library.Signed_Division"
begin

text \<open>
  Integer constants in the C compatibility lowering: the type of a C integer literal
  (\<open>parseCIntegerLiteral\<close> in \<open>src/compat/CCompatLoweringExpressions.cpp\<close>) and the evaluation of the lowered
  constant expressions that a shift count may be (\<open>src/compat/CCompatLoweringOperators.cpp\<close>).  A constant is 64
  bits with the width and the signedness of its type.  Values of \<open>int64_t\<close> are integers: every intermediate value
  of the code stays in its range.
\<close>

section \<open>Literals\<close>

record CIntegerLiteral =
  cil_value :: string
  cil_byteLength :: size_t
  cil_isSigned :: bool

definition digitValue :: "char \<Rightarrow> nat option" where
  "digitValue ch =
     (if byte_val ch \<ge> 48 \<and> byte_val ch \<le> 57 then Some (byte_val ch - 48)
      else if byte_val ch \<ge> 97 \<and> byte_val ch \<le> 102 then Some (byte_val ch - 97 + 10)
      else if byte_val ch \<ge> 65 \<and> byte_val ch \<le> 70 then Some (byte_val ch - 65 + 10)
      else None)"

text \<open>The radix, the offset of the digits and whether the literal is not decimal.\<close>

definition cLiteralRadix :: "string \<Rightarrow> nat \<times> nat \<times> bool" where
  "cLiteralRadix t =
     (if length t \<ge> 2 \<and> t ! 0 = CHR ''0'' then
        (let prefix = t ! 1 in
         if prefix = CHR ''x'' \<or> prefix = CHR ''X'' then (16, 2, True)
         else if prefix = CHR ''o'' \<or> prefix = CHR ''O'' then (8, 2, True)
         else if prefix = CHR ''b'' \<or> prefix = CHR ''B'' then (2, 2, True)
         else (8, 0, True))
      else (10, 0, False))"

text \<open>The loop over the digits: \<open>None\<close> on a misplaced separator, otherwise the flags and the text left.\<close>

fun cDigitLoop :: "nat \<Rightarrow> bool \<Rightarrow> bool \<Rightarrow> string \<Rightarrow> (bool \<times> bool \<times> string) option" where
  "cDigitLoop base sawDigit previousUnderscore [] = Some (sawDigit, previousUnderscore, [])"
| "cDigitLoop base sawDigit previousUnderscore (ch # t) =
     (if ch = CHR ''_'' then
        (if \<not> sawDigit \<or> previousUnderscore then None else cDigitLoop base sawDigit True t)
      else case digitValue ch of
        None \<Rightarrow> Some (sawDigit, previousUnderscore, ch # t)
      | Some digit \<Rightarrow>
          if digit \<ge> base then Some (sawDigit, previousUnderscore, ch # t) else cDigitLoop base True False t)"

fun cSuffixLoop :: "bool \<Rightarrow> nat \<Rightarrow> string \<Rightarrow> (bool \<times> nat) option" where
  "cSuffixLoop hasUnsignedSuffix longSuffixCount [] = Some (hasUnsignedSuffix, longSuffixCount)"
| "cSuffixLoop hasUnsignedSuffix longSuffixCount (ch # t) =
     (if (ch = CHR ''u'' \<or> ch = CHR ''U'') \<and> \<not> hasUnsignedSuffix then cSuffixLoop True longSuffixCount t
      else if (ch = CHR ''l'' \<or> ch = CHR ''L'') \<and> longSuffixCount < 2 then cSuffixLoop hasUnsignedSuffix (Suc longSuffixCount) t
      else None)"

definition cLiteralType :: "bool \<Rightarrow> bool \<Rightarrow> nat \<Rightarrow> uint64 \<Rightarrow> (size_t \<times> bool) option" where
  "cLiteralType nonDecimal hasUnsignedSuffix longSuffixCount parsed =
     (let valueFitsI32 = parsed \<le> 0x7FFFFFFF; valueFitsU32 = parsed \<le> 0xFFFFFFFF; valueFitsI64 = parsed \<le> 0x7FFFFFFFFFFFFFFF in
      if hasUnsignedSuffix \<and> longSuffixCount \<noteq> 0 then Some (8, False)
      else if longSuffixCount \<noteq> 0 then (if \<not> valueFitsI64 \<and> \<not> nonDecimal then None else Some (8, valueFitsI64))
      else if hasUnsignedSuffix then Some (if valueFitsU32 then 4 else 8, False)
      else if valueFitsI32 then Some (4, True)
      else if nonDecimal \<and> valueFitsU32 then Some (4, False)
      else if valueFitsI64 then Some (8, True)
      else if nonDecimal then Some (8, False)
      else None)"

definition parseCIntegerLiteral :: "string \<Rightarrow> CIntegerLiteral option" where
  "parseCIntegerLiteral t =
     (if t = [] then None
      else case cLiteralRadix t of (base, offset, nonDecimal) \<Rightarrow>
        (case cDigitLoop base False False (drop offset t) of
           None \<Rightarrow> None
         | Some (sawDigit, previousUnderscore, rest) \<Rightarrow>
             if length rest = length t - offset \<or> \<not> sawDigit \<or> previousUnderscore then None
             else case cSuffixLoop False 0 rest of
               None \<Rightarrow> None
             | Some (hasUnsignedSuffix, longSuffixCount) \<Rightarrow>
                 let x = take (length t - length rest) t in
                 (case parseUnsignedIntegerLiteral x of
                    None \<Rightarrow> None
                  | Some parsed \<Rightarrow>
                      map_option (\<lambda>(len, isSigned). \<lparr>cil_value = x, cil_byteLength = len, cil_isSigned = isSigned\<rparr>)
                        (cLiteralType nonDecimal hasUnsignedSuffix longSuffixCount parsed))))"

section \<open>Constants\<close>

record ConstantInteger =
  ci_bits :: uint64
  ci_byteLength :: size_t
  ci_isSigned :: bool

record TypedIntegerOperator =
  tio_byteLength :: size_t
  tio_isSigned :: bool
  tio_symbol :: string

abbreviation mkConstant :: "uint64 \<Rightarrow> size_t \<Rightarrow> bool \<Rightarrow> ConstantInteger" where
  "mkConstant bits len isSigned \<equiv> \<lparr>ci_bits = bits, ci_byteLength = len, ci_isSigned = isSigned\<rparr>"

definition integerMask :: "size_t \<Rightarrow> uint64 option" where
  "integerMask n =
     (if n \<noteq> 1 \<and> n \<noteq> 2 \<and> n \<noteq> 4 \<and> n \<noteq> 8 then None
      else if n = 8 then Some (- 1)
      else Some (push_bit (unat (n * 8)) 1 - 1))"

definition convertConstantInteger :: "ConstantInteger \<Rightarrow> size_t \<Rightarrow> bool \<Rightarrow> ConstantInteger option" where
  "convertConstantInteger c len isSigned =
     (case integerMask len of None \<Rightarrow> None | Some m \<Rightarrow> Some (mkConstant (ci_bits c AND m) len isSigned))"

definition signedConstantValue :: "ConstantInteger \<Rightarrow> int option" where
  "signedConstantValue c =
     (if \<not> ci_isSigned c then None
      else case integerMask (ci_byteLength c) of
        None \<Rightarrow> None
      | Some m \<Rightarrow>
          let bits = ci_bits c AND m; bitWidth = unat (ci_byteLength c * 8); signBit = push_bit (bitWidth - 1) 1 in
          if bits AND signBit = 0 then Some (uint bits)
          else if ci_byteLength c = 8 then
            (let magnitude = NOT bits + 1 in
             if magnitude = push_bit 63 1 then Some (- (2 ^ 63)) else Some (- uint magnitude))
          else Some (uint bits - 2 ^ bitWidth))"

definition promoteConstantInteger :: "ConstantInteger \<Rightarrow> ConstantInteger option" where
  "promoteConstantInteger c =
     (if ci_byteLength c \<ge> 4 then Some c
      else if ci_isSigned c then
        (case signedConstantValue c of
           None \<Rightarrow> None
         | Some x \<Rightarrow> convertConstantInteger (mkConstant (word_of_int x) 8 True) 4 True)
      else convertConstantInteger (mkConstant (ci_bits c) 8 True) 4 True)"

definition parseCIntegerLiteralMagnitude :: "string \<Rightarrow> uint64 option" where
  "parseCIntegerLiteralMagnitude t =
     parseUnsignedIntegerLiteral (rev (dropWhile (\<lambda>c. c \<in> {CHR ''u'', CHR ''U'', CHR ''l'', CHR ''L''}) (rev t)))"

definition parseTypedIntegerOperator :: "string \<Rightarrow> TypedIntegerOperator option" where
  "parseTypedIntegerOperator op =
     (if \<not> starts_with op (CHR ''%'') then None
      else let digits = takeWhile isDigitC (tl op); rest = dropWhile isDigitC (tl op);
               len = foldl (\<lambda>v c. v * 10 + word_of_nat (of_char c - 48)) 0 digits in
        if digits = [] \<or> rest = [] then None
        else if (hd rest \<noteq> CHR ''d'' \<and> hd rest \<noteq> CHR ''u'') \<or> tl rest = [] \<or> integerMask len = None then None
        else Some \<lparr>tio_byteLength = len, tio_isSigned = (hd rest = CHR ''d''), tio_symbol = tl rest\<rparr>)"

section \<open>Evaluation\<close>

definition evaluateShift :: "TypedIntegerOperator \<Rightarrow> ConstantInteger \<Rightarrow> ConstantInteger \<Rightarrow> ConstantInteger option" where
  "evaluateShift operation convertedLeft right =
     (case promoteConstantInteger right of
        None \<Rightarrow> None
      | Some promotedRight \<Rightarrow>
          if ci_isSigned promotedRight \<and>
             (case signedConstantValue promotedRight of None \<Rightarrow> True | Some x \<Rightarrow> x < 0) then None
          else case (integerMask (ci_byteLength promotedRight), integerMask (tio_byteLength operation)) of
            (Some rightMask, Some m) \<Rightarrow>
              let count = ci_bits promotedRight AND rightMask; bitWidth = tio_byteLength operation * 8 in
              if count \<ge> bitWidth then None
              else if tio_symbol operation = ''<<'' then
                (if tio_isSigned operation \<and>
                    (case signedConstantValue convertedLeft of
                       None \<Rightarrow> True | Some x \<Rightarrow> x < 0 \<or> x > (2 ^ 63 - 1) div 2 ^ unat count) then None
                 else convertConstantInteger (mkConstant (push_bit (unat count) (ci_bits convertedLeft)) (tio_byteLength operation) (tio_isSigned operation))
                        (tio_byteLength operation) (tio_isSigned operation))
              else
                let bits = drop_bit (unat count) (ci_bits convertedLeft);
                    bits = (if tio_isSigned operation \<and> ci_bits convertedLeft AND push_bit (unat bitWidth - 1) 1 \<noteq> 0
                            then bits OR (m XOR drop_bit (unat count) m) else bits) in
                Some (mkConstant (bits AND m) (tio_byteLength operation) (tio_isSigned operation))
          | _ \<Rightarrow> None)"

definition comparison :: "string \<Rightarrow> ('a :: linorder) \<Rightarrow> 'a \<Rightarrow> bool option" where
  "comparison symbol a b =
     (if symbol = ''=='' then Some (a = b) else if symbol = ''!='' then Some (a \<noteq> b)
      else if symbol = ''<'' then Some (a < b) else if symbol = ''<='' then Some (a \<le> b)
      else if symbol = ''>'' then Some (a > b) else if symbol = ''>='' then Some (a \<ge> b)
      else None)"

definition truth :: "bool \<Rightarrow> ConstantInteger" where
  "truth b = mkConstant (if b then 1 else 0) 1 False"

text \<open>The signed operations, with the bounds of the width.\<close>

definition signedResult :: "string \<Rightarrow> int \<Rightarrow> int \<Rightarrow> int \<Rightarrow> int \<Rightarrow> int option" where
  "signedResult symbol lower upper a b =
     (if symbol = ''+'' then (if (b > 0 \<and> a > upper - b) \<or> (b < 0 \<and> a < lower - b) then None else Some (a + b))
      else if symbol = ''-'' then (if (b > 0 \<and> a < lower + b) \<or> (b < 0 \<and> a > upper + b) then None else Some (a - b))
      else if symbol = ''*'' then
        (if a = 0 \<or> b = 0 then Some 0
         else if (a = - 1 \<and> b = lower) \<or> (b = - 1 \<and> a = lower) then None
         else if (a > 0 \<and> b > 0 \<and> a > upper sdiv b) \<or> (a > 0 \<and> b < 0 \<and> b < lower sdiv a) \<or>
                 (a < 0 \<and> b > 0 \<and> a < lower sdiv b) \<or> (a < 0 \<and> b < 0 \<and> a < upper sdiv b) then None
         else Some (a * b))
      else if symbol = ''/'' \<or> symbol = ''%'' then
        (if b = 0 \<or> (a = lower \<and> b = - 1) then None
         else Some (if symbol = ''/'' then a sdiv b else a smod b))
      else None)"

definition evaluateSigned :: "TypedIntegerOperator \<Rightarrow> ConstantInteger \<Rightarrow> ConstantInteger \<Rightarrow> ConstantInteger option" where
  "evaluateSigned operation convertedLeft convertedRight =
     (case (signedConstantValue convertedLeft, signedConstantValue convertedRight) of
        (Some a, Some b) \<Rightarrow>
          let bitWidth = unat (tio_byteLength operation * 8); lower = - (2 ^ (bitWidth - 1)); upper = 2 ^ (bitWidth - 1) - 1 in
          (case comparison (tio_symbol operation) a b of
             Some result \<Rightarrow> Some (truth result)
           | None \<Rightarrow>
               (case signedResult (tio_symbol operation) lower upper a b of
                  None \<Rightarrow> None
                | Some result \<Rightarrow> convertConstantInteger (mkConstant (word_of_int result) (tio_byteLength operation) True)
                    (tio_byteLength operation) True))
      | _ \<Rightarrow> None)"

definition evaluateUnsigned :: "TypedIntegerOperator \<Rightarrow> uint64 \<Rightarrow> uint64 \<Rightarrow> uint64 \<Rightarrow> ConstantInteger option" where
  "evaluateUnsigned operation m leftBits rightBits =
     (case comparison (tio_symbol operation) leftBits rightBits of
        Some result \<Rightarrow> Some (truth result)
      | None \<Rightarrow>
          let symbol = tio_symbol operation; result = (\<lambda>bits. Some (mkConstant (bits AND m) (tio_byteLength operation) False)) in
          if (symbol = ''/'' \<or> symbol = ''%'') \<and> rightBits = 0 then None
          else if symbol = ''+'' then result (leftBits + rightBits)
          else if symbol = ''-'' then result (leftBits - rightBits)
          else if symbol = ''*'' then result (leftBits * rightBits)
          else if symbol = ''/'' then result (leftBits div rightBits)
          else if symbol = ''%'' then result (leftBits mod rightBits)
          else None)"

definition evaluateTypedIntegerBinary :: "TypedIntegerOperator \<Rightarrow> ConstantInteger \<Rightarrow> ConstantInteger \<Rightarrow> ConstantInteger option" where
  "evaluateTypedIntegerBinary operation left right =
     (case convertConstantInteger left (tio_byteLength operation) (tio_isSigned operation) of
        None \<Rightarrow> None
      | Some convertedLeft \<Rightarrow>
          if tio_symbol operation = ''<<'' \<or> tio_symbol operation = ''>>'' then evaluateShift operation convertedLeft right
          else case (convertConstantInteger right (tio_byteLength operation) (tio_isSigned operation), integerMask (tio_byteLength operation)) of
            (Some convertedRight, Some m) \<Rightarrow>
              let leftBits = ci_bits convertedLeft AND m; rightBits = ci_bits convertedRight AND m;
                  result = (\<lambda>bits. Some (mkConstant bits (tio_byteLength operation) (tio_isSigned operation))) in
              if tio_symbol operation = ''&'' then result (leftBits AND rightBits)
              else if tio_symbol operation = ''|'' then result (leftBits OR rightBits)
              else if tio_symbol operation = ''^'' then result (leftBits XOR rightBits)
              else if tio_isSigned operation then evaluateSigned operation convertedLeft convertedRight
              else evaluateUnsigned operation m leftBits rightBits
          | _ \<Rightarrow> None)"

definition isTrue :: "ConstantInteger \<Rightarrow> bool option" where
  "isTrue c = map_option (\<lambda>m. ci_bits c AND m \<noteq> 0) (integerMask (ci_byteLength c))"

definition evaluateUnary :: "string \<Rightarrow> ConstantInteger \<Rightarrow> ConstantInteger option" where
  "evaluateUnary op operand =
     (if op = ''!'' then map_option (\<lambda>t. truth (\<not> t)) (isTrue operand)
      else case promoteConstantInteger operand of
        None \<Rightarrow> None
      | Some operand \<Rightarrow>
          (case integerMask (ci_byteLength operand) of
             None \<Rightarrow> None
           | Some m \<Rightarrow>
               if op = ''+'' then Some operand
               else if op = ''~'' then Some (mkConstant (NOT (ci_bits operand) AND m) (ci_byteLength operand) (ci_isSigned operand))
               else if op \<noteq> ''-'' then None
               else if \<not> ci_isSigned operand then Some (mkConstant (- ci_bits operand AND m) (ci_byteLength operand) False)
               else case signedConstantValue operand of
                 None \<Rightarrow> None
               | Some x \<Rightarrow>
                   if x = - (2 ^ 63) then None
                   else convertConstantInteger (mkConstant (word_of_int (- x)) (ci_byteLength operand) True) (ci_byteLength operand) True))"

definition literalConstant :: "uint64 \<Rightarrow> ConstantInteger" where
  "literalConstant magnitude = mkConstant magnitude (if magnitude > 0x7FFFFFFF then 8 else 4) (magnitude \<le> 0x7FFFFFFFFFFFFFFF)"

fun evaluateIntegerConstant :: "AstExpr \<Rightarrow> ConstantInteger option" where
  "evaluateIntegerConstant (AIntegerLiteral v) = map_option literalConstant (parseCIntegerLiteralMagnitude v)"
| "evaluateIntegerConstant (AUnsigned operand len) =
     (case evaluateIntegerConstant operand of None \<Rightarrow> None | Some c \<Rightarrow> convertConstantInteger c len False)"
| "evaluateIntegerConstant (AIntegerCast operand len isSigned) =
     (case evaluateIntegerConstant operand of None \<Rightarrow> None | Some c \<Rightarrow> convertConstantInteger c len isSigned)"
| "evaluateIntegerConstant (AUnary op operand) =
     (case evaluateIntegerConstant operand of None \<Rightarrow> None | Some c \<Rightarrow> evaluateUnary op c)"
| "evaluateIntegerConstant (ABinary left op right) =
     (if op = ''&&'' \<or> op = ''||'' then
        (case evaluateIntegerConstant left of
           None \<Rightarrow> None
         | Some l \<Rightarrow>
             (case isTrue l of
                None \<Rightarrow> None
              | Some leftIsTrue \<Rightarrow>
                  if (op = ''&&'' \<and> \<not> leftIsTrue) \<or> (op = ''||'' \<and> leftIsTrue) then Some (truth (op = ''||''))
                  else case evaluateIntegerConstant right of
                    None \<Rightarrow> None
                  | Some r \<Rightarrow> map_option truth (isTrue r)))
      else case parseTypedIntegerOperator op of
        None \<Rightarrow> None
      | Some operation \<Rightarrow>
          (case evaluateIntegerConstant left of
             None \<Rightarrow> None
           | Some l \<Rightarrow>
               if tio_symbol operation = ''&&'' \<or> tio_symbol operation = ''||'' then None
               else case evaluateIntegerConstant right of
                 None \<Rightarrow> None
               | Some r \<Rightarrow> evaluateTypedIntegerBinary operation l r))"
| "evaluateIntegerConstant (ATernary condition thenExpr elseExpr) =
     (case evaluateIntegerConstant condition of
        None \<Rightarrow> None
      | Some c \<Rightarrow>
          (case isTrue c of
             None \<Rightarrow> None
           | Some t \<Rightarrow> if t then evaluateIntegerConstant thenExpr else evaluateIntegerConstant elseExpr))"
| "evaluateIntegerConstant _ = None"

record ConstantShiftCount =
  csc_isNegative :: bool
  csc_magnitude :: uint64

definition constantShiftCount :: "AstExpr \<Rightarrow> TypeInfo \<Rightarrow> ConstantShiftCount option" where
  "constantShiftCount expression type =
     (case evaluateIntegerConstant expression of
        None \<Rightarrow> None
      | Some c \<Rightarrow>
          (case promoteConstantInteger c of
             None \<Rightarrow> None
           | Some c \<Rightarrow>
               (case convertConstantInteger c (cabi_byteLength (ti_abi type)) (cabi_isSigned (ti_abi type)) of
                  None \<Rightarrow> None
                | Some c \<Rightarrow>
                    if \<not> ci_isSigned c then Some \<lparr>csc_isNegative = False, csc_magnitude = ci_bits c\<rparr>
                    else map_option (\<lambda>x. if x \<ge> 0 then \<lparr>csc_isNegative = False, csc_magnitude = word_of_int x\<rparr>
                           else \<lparr>csc_isNegative = True, csc_magnitude = word_of_int (- x)\<rparr>) (signedConstantValue c))))"

section \<open>The values of constants\<close>

definition widthOf :: "size_t \<Rightarrow> nat" where
  "widthOf len = 8 * unat len"

definition widthOk :: "size_t \<Rightarrow> bool" where
  "widthOk len \<longleftrightarrow> len = 1 \<or> len = 2 \<or> len = 4 \<or> len = 8"

lemma widthOk_cases:
  assumes "widthOk len"
  shows "len = 1 \<and> widthOf len = 8 \<or> len = 2 \<and> widthOf len = 16 \<or> len = 4 \<and> widthOf len = 32 \<or> len = 8 \<and> widthOf len = 64"
  using assms by (auto simp: widthOk_def widthOf_def)

lemma widthOf_bits: "widthOk len \<Longrightarrow> unat (len * 8) = widthOf len"
  by (auto simp: widthOk_def widthOf_def)

lemma integerMask_mask: "integerMask len = (if widthOk len then Some (mask (widthOf len)) else None)"
  by (auto simp: integerMask_def widthOk_def widthOf_def mask_eq_decr_exp push_bit_eq_mult)

text \<open>The value of a constant at its type: the low bits, read in two's complement when the type is signed.\<close>

definition valueAt :: "size_t \<Rightarrow> bool \<Rightarrow> uint64 \<Rightarrow> int" where
  "valueAt len isSigned bits = (if isSigned then signed_take_bit (widthOf len - 1) (uint bits) else take_bit (widthOf len) (uint bits))"

lemma signedConstantValue_at:
  "signedConstantValue c = (if ci_isSigned c \<and> widthOk (ci_byteLength c) then Some (valueAt (ci_byteLength c) True (ci_bits c)) else None)"
proof (cases "ci_isSigned c \<and> widthOk (ci_byteLength c)")
  case True
  let ?w = "widthOf (ci_byteLength c)" and ?b = "ci_bits c"
  have w: "0 < ?w" "?w \<le> 64" "?w = 64 \<longleftrightarrow> ci_byteLength c = 8" using widthOk_cases [of "ci_byteLength c"] True by auto
  have low: "?b AND mask ?w = take_bit ?w ?b" by (simp add: take_bit_eq_mask)
  have sgn: "(?b AND mask ?w) AND push_bit (?w - 1) 1 = 0 \<longleftrightarrow> \<not> bit (uint ?b) (?w - 1)"
  proof -
    have "(take_bit ?w ?b) AND push_bit (?w - 1) 1 = 0 \<longleftrightarrow> \<not> bit (take_bit ?w ?b) (?w - 1)"
      using bit_iff_and_push_bit_not_eq_0 [of "take_bit ?w ?b" "?w - 1"] by simp
    moreover have "?w - 1 < 64" using w by linarith
    ultimately show ?thesis using w(1) by (simp add: low bit_take_bit_iff bit_uint_iff)
  qed
  have u: "uint (take_bit ?w ?b) = take_bit ?w (uint ?b)" by (simp add: unsigned_take_bit_eq)
  have s: "valueAt (ci_byteLength c) True ?b = take_bit ?w (uint ?b) - 2 ^ ?w * of_bool (bit (uint ?b) (?w - 1))"
    using w by (simp add: valueAt_def signed_take_bit_eq_take_bit_minus)
  show ?thesis
  proof (cases "bit (uint ?b) (?w - 1)")
    case neg: True
    show ?thesis
    proof (cases "ci_byteLength c = 8")
      case len: True
      then have w64: "?w = 64" using w(3) by simp
      have b: "?b \<noteq> 0" using neg by auto
      have "NOT ?b + 1 = - ?b" by (simp add: minus_eq_not_plus_1)
      moreover have "uint (- ?b) = 2 ^ 64 - uint ?b" 
        using b uint_lt2p [of ?b] by (simp add: uint_word_ariths(4) zmod_zminus1_eq_if uint_0_iff)
      moreover have "- ?b = 0x8000000000000000 \<longrightarrow> uint ?b = 2 ^ 63"
      proof
        assume "- ?b = 0x8000000000000000"
        then have "?b = - 0x8000000000000000" by (metis minus_minus)
        then show "uint ?b = 2 ^ 63" by simp
      qed
      moreover have "?b AND mask 64 = ?b" using low w64 by (simp add: take_bit_word_eq_self)
      moreover have "take_bit 64 (uint ?b) = uint ?b" using uint_lt2p [of ?b] by (simp add: take_bit_int_eq_self)
      ultimately show ?thesis using True neg len sgn s w64
        by (simp add: signedConstantValue_def integerMask_mask Let_def widthOf_bits) linarith?
    qed (use True neg sgn s u w in \<open>simp add: signedConstantValue_def integerMask_mask Let_def widthOf_bits low\<close>)
  qed (use True sgn s u in \<open>simp add: signedConstantValue_def integerMask_mask Let_def widthOf_bits low\<close>)
next
  case False
  then show ?thesis by (auto simp: signedConstantValue_def integerMask_mask)
qed

text \<open>A value that fits the type is kept by the conversion.\<close>

definition inRange :: "nat \<Rightarrow> int \<Rightarrow> bool" where
  "inRange w x \<longleftrightarrow> - (2 ^ (w - 1)) \<le> x \<and> x < 2 ^ (w - 1)"

lemma valueAt_inRange: "widthOk len \<Longrightarrow> inRange (widthOf len) (valueAt len True bits)"
  by (simp add: inRange_def valueAt_def signed_take_bit_int_less_exp signed_take_bit_int_greater_eq_minus_exp)

lemma convert_signed:
  assumes "widthOk len"
  shows "Option.bind (convertConstantInteger (mkConstant (word_of_int x) n b) len True) signedConstantValue =
    Some (signed_take_bit (widthOf len - 1) x)"
proof -
  let ?w = "widthOf len"
  have w: "0 < ?w" "?w \<le> 64" using widthOk_cases [OF assms] by auto
  have "uint (word_of_int x AND mask ?w :: uint64) = take_bit ?w x"
    using w by (simp add: take_bit_eq_mask [symmetric] unsigned_take_bit_eq uint_word_of_int_eq min_def)
  moreover have "signed_take_bit (?w - 1) (take_bit ?w x) = signed_take_bit (?w - 1) x"
    using w(1) by (simp add: signed_take_bit_take_bit) linarith
  ultimately show ?thesis using assms
    by (simp add: convertConstantInteger_def integerMask_mask signedConstantValue_at valueAt_def)
qed

lemma signed_keep: "widthOk len \<Longrightarrow> inRange (widthOf len) x \<Longrightarrow> signed_take_bit (widthOf len - 1) x = x"
  using widthOk_cases [of len] by (auto simp: inRange_def intro!: signed_take_bit_int_eq_self)

section \<open>Signed arithmetic\<close>

text \<open>The C operations over the unbounded integers, refused where the result or the quotient does not fit.\<close>

definition cArithmetic :: "nat \<Rightarrow> string \<Rightarrow> int \<Rightarrow> int \<Rightarrow> int option" where
  "cArithmetic w symbol a b =
     (let fit = (\<lambda>x. if inRange w x then Some x else None) in
      if symbol = ''+'' then fit (a + b)
      else if symbol = ''-'' then fit (a - b)
      else if symbol = ''*'' then fit (a * b)
      else if symbol = ''/'' then (if b = 0 then None else fit (a sdiv b))
      else if symbol = ''%'' then (if b = 0 \<or> \<not> inRange w (a sdiv b) then None else Some (a smod b))
      else None)"

lemma sdiv_pos: "0 < b \<Longrightarrow> 0 \<le> a \<Longrightarrow> a sdiv b = a div (b :: int)"
  and sdiv_neg: "0 < b \<Longrightarrow> a < 0 \<Longrightarrow> a sdiv b = - ((- a) div b)"
  and sdiv_neg_right: "b < 0 \<Longrightarrow> 0 \<le> a \<Longrightarrow> a sdiv b = - (a div (- b))"
  by (auto simp: signed_divide_int_def sgn_if)

lemma less_div:
  assumes "0 < (b :: int)"
  shows "x div b < y \<longleftrightarrow> x < y * b"
proof -
  have x: "x = x div b * b + x mod b" "0 \<le> x mod b" "x mod b < b" using assms by simp_all
  have "y * b \<le> x div b * b" if "y \<le> x div b" using that assms by (intro mult_right_mono) simp_all
  moreover have "(x div b + 1) * b \<le> y * b" if "x div b < y" using that assms by (intro mult_right_mono) simp_all
  moreover have "(x div b + 1) * b = x div b * b + b" by (simp add: distrib_right)
  ultimately show ?thesis using x by (metis add_strict_left_mono dual_order.strict_trans1 le_add_same_cancel1 not_le order_trans)
qed

text \<open>The four guards against the sign of the operands say that the product does not fit.\<close>

lemma mult_guards:
  assumes "a \<noteq> 0" and "b \<noteq> 0" and "lower < 0" and "0 < (upper :: int)"
  shows "(a > 0 \<and> b > 0 \<and> a > upper sdiv b) \<or> (a > 0 \<and> b < 0 \<and> b < lower sdiv a) \<or>
      (a < 0 \<and> b > 0 \<and> a < lower sdiv b) \<or> (a < 0 \<and> b < 0 \<and> a < upper sdiv b)
    \<longleftrightarrow> \<not> (lower \<le> a * b \<and> a * b \<le> upper)"
proof -
  obtain p where p: "a * b = p" by simp
  consider "a > 0" "b > 0" | "a > 0" "b < 0" | "a < 0" "b > 0" | "a < 0" "b < 0" using assms(1,2) by linarith
  then show ?thesis
  proof cases
    case 1
    then have "0 < p" "upper sdiv b < a \<longleftrightarrow> upper < p" using p assms(4) by (auto simp: sdiv_pos less_div)
    then show ?thesis unfolding p using 1 assms(3,4) by auto
  next
    case 2
    then have "p < 0" using p mult_pos_neg by blast
    moreover have "b < lower sdiv a \<longleftrightarrow> - lower div a < - b" using 2 assms(3) by (auto simp: sdiv_neg)
    moreover have "- b * a = - p" using p by (simp add: mult.commute)
    ultimately show ?thesis unfolding p using 2 assms(3,4) less_div [of a "- lower" "- b"] by auto
  next
    case 3
    then have "p < 0" using p mult_neg_pos by blast
    moreover have "a < lower sdiv b \<longleftrightarrow> - lower div b < - a" using 3 assms(3) by (auto simp: sdiv_neg)
    moreover have "- a * b = - p" using p by simp
    ultimately show ?thesis unfolding p using 3 assms(3,4) less_div [of b "- lower" "- a"] by auto
  next
    case 4
    then have "0 < p" using p mult_neg_neg by blast
    moreover have "a < upper sdiv b \<longleftrightarrow> upper div (- b) < - a" using 4 assms(4) by (auto simp: sdiv_neg_right)
    moreover have "- a * - b = p" using p by simp
    ultimately show ?thesis unfolding p using 4 assms(3,4) less_div [of "- b" upper "- a"] by auto
  qed
qed

lemma sdiv_inRange:
  assumes "inRange w a" and "b \<noteq> 0"
  shows "inRange w (a sdiv b) \<longleftrightarrow> \<not> (a = - (2 ^ (w - 1)) \<and> b = - 1)"
proof -
  let ?m = "2 ^ (w - 1) :: int"
  have abs: "\<bar>a sdiv b\<bar> = \<bar>a\<bar> div \<bar>b\<bar>" using assms(2) by (cases "a = 0") (simp_all add: signed_divide_int_def abs_mult pos_imp_zdiv_nonneg_iff)
  have a: "- ?m \<le> a" "a < ?m" "0 < ?m" using assms(1) by (simp_all add: inRange_def)
  show ?thesis
  proof (cases "b = - 1")
    case True
    then have "a sdiv b = - a" by (cases "a = 0") (auto simp: signed_divide_int_def abs_sgn sgn_mult_abs)
    then show ?thesis using True a by (auto simp: inRange_def)
  next
    case False
    have "\<bar>a sdiv b\<bar> < ?m \<or> a sdiv b = a"
    proof (cases "b = 1")
      case False
      then have "2 \<le> \<bar>b\<bar>" using assms(2) \<open>b \<noteq> - 1\<close> by linarith
      then have "\<bar>a\<bar> div \<bar>b\<bar> \<le> \<bar>a\<bar> div 2" by (intro zdiv_mono2) simp_all
      then show ?thesis using abs a by linarith
    qed (simp add: signed_divide_int_def sgn_mult_abs)
    then show ?thesis using False a by (auto simp: inRange_def)
  qed
qed

lemma smod_inRange:
  assumes "inRange w (b :: int)" and "b \<noteq> 0"
  shows "inRange w (a smod b)"
proof -
  have "\<bar>a smod b\<bar> = \<bar>a\<bar> mod \<bar>b\<bar>" using assms(2)
    by (cases "a = 0") (simp_all add: signed_modulo_int_def abs_mult pos_mod_sign)
  moreover have "\<bar>a\<bar> mod \<bar>b\<bar> < \<bar>b\<bar>" using assms(2) by simp
  ultimately show ?thesis using assms(1) by (auto simp: inRange_def)
qed

lemma signedResult_exact:
  assumes "inRange w a" and "inRange w b" and "2 \<le> w"
  shows "signedResult symbol (- (2 ^ (w - 1))) (2 ^ (w - 1) - 1) a b = cArithmetic w symbol a b"
proof -
  have p: "(2::int) \<le> 2 ^ (w - 1)" using power_increasing [of 1 "w - 1" "2 :: int"] assms(3) by simp
  have mult: "signedResult ''*'' (- (2 ^ (w - 1))) (2 ^ (w - 1) - 1) a b = cArithmetic w ''*'' a b"
  proof (cases "a = 0 \<or> b = 0")
    case True
    then show ?thesis using p by (auto simp: signedResult_def cArithmetic_def Let_def inRange_def)
  next
    case False
    let ?l = "- (2 ^ (w - 1))" and ?u = "2 ^ (w - 1) - 1"
    let ?edge = "(a = - 1 \<and> b = ?l) \<or> (b = - 1 \<and> a = ?l)"
    have edge: "\<not> inRange w (a * b)" if ?edge using that by (auto simp: inRange_def)
    have "\<not> (?l \<le> a * b \<and> a * b \<le> ?u) \<longleftrightarrow> \<not> inRange w (a * b)" by (auto simp: inRange_def)
    then have g: "(a > 0 \<and> b > 0 \<and> a > ?u sdiv b) \<or> (a > 0 \<and> b < 0 \<and> b < ?l sdiv a) \<or>
        (a < 0 \<and> b > 0 \<and> a < ?l sdiv b) \<or> (a < 0 \<and> b < 0 \<and> a < ?u sdiv b) \<longleftrightarrow> \<not> inRange w (a * b)"
      using mult_guards [of a b ?l ?u] False p by simp
    have "signedResult ''*'' ?l ?u a b = (if ?edge then None else if \<not> inRange w (a * b) then None else Some (a * b))"
      unfolding signedResult_def g using False by simp
    also have "\<dots> = cArithmetic w ''*'' a b" using edge by (simp add: cArithmetic_def Let_def)
    finally show ?thesis .
  qed
  show ?thesis
  proof (cases "symbol = ''*''")
    case False
    have r: "- (2 ^ (w - 1)) \<le> a" "a < 2 ^ (w - 1)" "- (2 ^ (w - 1)) \<le> b" "b < 2 ^ (w - 1)"
      using assms by (simp_all add: inRange_def)
    consider "symbol = ''+''" | "symbol = ''-''" | "symbol = ''/'' \<or> symbol = ''%''"
      | "symbol \<noteq> ''+'' \<and> symbol \<noteq> ''-'' \<and> symbol \<noteq> ''/'' \<and> symbol \<noteq> ''%''" by blast
    then show ?thesis
    proof cases
      case 3
      show ?thesis
      proof (cases "b = 0")
        case nz: False
        show ?thesis using 3 by (elim disjE) (simp_all add: signedResult_def cArithmetic_def Let_def nz sdiv_inRange [OF assms(1) nz])
      qed (use 3 in \<open>elim disjE; simp add: signedResult_def cArithmetic_def Let_def\<close>)
    qed ((use False r in \<open>simp add: signedResult_def cArithmetic_def Let_def inRange_def; linarith?\<close>)+)
  qed (use mult in simp)
qed

text \<open>The evaluation of a signed operation at a width, on the values the operands have at that width.\<close>

lemma evaluateSigned_exact:
  assumes "widthOk len" and "symbol \<in> {''+'', ''-'', ''*'', ''/'', ''%''}"
  shows "Option.bind (evaluateTypedIntegerBinary \<lparr>tio_byteLength = len, tio_isSigned = True, tio_symbol = symbol\<rparr> l r) signedConstantValue =
    cArithmetic (widthOf len) symbol (valueAt len True (ci_bits l)) (valueAt len True (ci_bits r))"
proof -
  let ?op = "\<lparr>tio_byteLength = len, tio_isSigned = True, tio_symbol = symbol\<rparr>" and ?w = "widthOf len"
  let ?a = "valueAt len True (ci_bits l)" and ?b = "valueAt len True (ci_bits r)"
  have w: "2 \<le> ?w" "?w \<le> 64" using widthOk_cases [OF assms(1)] by auto
  have conv: "convertConstantInteger c len True = Some (mkConstant (take_bit ?w (ci_bits c)) len True)" for c
    using assms(1) by (simp add: convertConstantInteger_def integerMask_mask take_bit_eq_mask)
  have v: "valueAt len True (take_bit ?w x) = valueAt len True x" for x
    using w by (simp add: valueAt_def unsigned_take_bit_eq signed_take_bit_take_bit) linarith?
  have ne: "symbol \<noteq> ''<<''" "symbol \<noteq> ''>>''" "symbol \<noteq> ''&''" "symbol \<noteq> ''|''" "symbol \<noteq> ''^''" using assms(2) by auto
  have cmp: "comparison symbol x y = None" for x y :: int using assms(2) by (auto simp: comparison_def)
  have "evaluateTypedIntegerBinary ?op l r = (case signedResult symbol (- (2 ^ (?w - 1))) (2 ^ (?w - 1) - 1) ?a ?b of
      None \<Rightarrow> None | Some x \<Rightarrow> convertConstantInteger (mkConstant (word_of_int x) len True) len True)"
    using assms(1) ne by (simp add: evaluateTypedIntegerBinary_def conv integerMask_mask evaluateSigned_def signedConstantValue_at v cmp widthOf_bits Let_def cong: option.case_cong)
  also have "\<dots> = (case cArithmetic ?w symbol ?a ?b of
      None \<Rightarrow> None | Some x \<Rightarrow> convertConstantInteger (mkConstant (word_of_int x) len True) len True)"
    using signedResult_exact [OF valueAt_inRange valueAt_inRange w(1)] assms(1) by simp
  finally have e: "evaluateTypedIntegerBinary ?op l r = \<dots>" .
  have "inRange ?w x" if "cArithmetic ?w symbol ?a ?b = Some x" for x
    using that valueAt_inRange [OF assms(1)] smod_inRange
    by (auto simp: cArithmetic_def Let_def split: if_splits)
  then show ?thesis unfolding e
    using convert_signed [OF assms(1)] signed_keep [OF assms(1)] by (auto split: option.splits)
qed

section \<open>The type of a literal\<close>

text \<open>
  The types a C integer literal may have, in the order of the C standard, by length and signedness: \<open>int\<close> has four
  bytes, \<open>long\<close> and \<open>long long\<close> have eight.
\<close>

definition cCandidates :: "bool \<Rightarrow> bool \<Rightarrow> bool \<Rightarrow> (size_t \<times> bool) list" where
  "cCandidates nonDecimal hasUnsigned hasLong =
     (if hasUnsigned then (if hasLong then [(8, False)] else [(4, False), (8, False)])
      else if hasLong then (if nonDecimal then [(8, True), (8, False)] else [(8, True)])
      else if nonDecimal then [(4, True), (4, False), (8, True), (8, False)]
      else [(4, True), (8, True)])"

definition representable :: "nat \<Rightarrow> size_t \<times> bool \<Rightarrow> bool" where
  "representable v t \<longleftrightarrow> v < 2 ^ (8 * unat (fst t) - (if snd t then 1 else 0))"

lemma cLiteralType_first:
  "cLiteralType nonDecimal u k v = find (representable (unat v)) (cCandidates nonDecimal u (k \<noteq> 0))"
proof -
  have i32: "v \<le> 0x7FFFFFFF \<longleftrightarrow> unat v < 2 ^ 31" and u32: "v \<le> 0xFFFFFFFF \<longleftrightarrow> unat v < 2 ^ 32"
    and i64: "v \<le> 0x7FFFFFFFFFFFFFFF \<longleftrightarrow> unat v < 2 ^ 63" by (auto simp: word_le_nat_alt)
  have u64: "unat v < 2 ^ 64" using unsigned_less [of v, where 'a = nat] by simp
  show ?thesis unfolding cLiteralType_def Let_def i32 u32 i64 using u64
    by (auto simp: cCandidates_def representable_def)
qed

lemma cSuffixLoop_chars:
  assumes "cSuffixLoop u k t = Some (u', k')"
  shows "(u' \<longleftrightarrow> u \<or> (\<exists>c \<in> set t. c \<in> {CHR ''u'', CHR ''U''})) \<and> (k' \<noteq> 0 \<longleftrightarrow> k \<noteq> 0 \<or> (\<exists>c \<in> set t. c \<in> {CHR ''l'', CHR ''L''})) \<and>
    set t \<subseteq> {CHR ''u'', CHR ''U'', CHR ''l'', CHR ''L''}"
  using assms by (induction u k t rule: cSuffixLoop.induct) (auto split: if_splits)

lemma cDigitLoop_suffix: "cDigitLoop base s p t = Some (s', p', rest) \<Longrightarrow> \<exists>ds. t = ds @ rest"
  by (induction base s p t rule: cDigitLoop.induct) (auto split: if_splits option.splits)

text \<open>
  C13.  An accepted C integer literal is a number followed by suffix letters, it keeps the number, and it has the
  first type of the list the C standard gives for its radix and its suffix that can represent the value.
\<close>

theorem parseCIntegerLiteral_type:
  assumes "parseCIntegerLiteral t = Some c"
  shows "\<exists>suffix v. t = cil_value c @ suffix \<and> parseUnsignedIntegerLiteral (cil_value c) = Some v \<and>
    set suffix \<subseteq> {CHR ''u'', CHR ''U'', CHR ''l'', CHR ''L''} \<and>
    find (representable (unat v)) (cCandidates (2 \<le> length t \<and> t ! 0 = CHR ''0'')
      (CHR ''u'' \<in> set suffix \<or> CHR ''U'' \<in> set suffix) (CHR ''l'' \<in> set suffix \<or> CHR ''L'' \<in> set suffix)) =
    Some (cil_byteLength c, cil_isSigned c)"
proof -
  obtain base offset nonDecimal where radix: "cLiteralRadix t = (base, offset, nonDecimal)" by (cases "cLiteralRadix t") auto
  have nd: "nonDecimal \<longleftrightarrow> 2 \<le> length t \<and> t ! 0 = CHR ''0''"
    using radix by (auto simp: cLiteralRadix_def Let_def split: if_splits)
  obtain saw under rest u k v where digits: "cDigitLoop base False False (drop offset t) = Some (saw, under, rest)"
    and suffix: "cSuffixLoop False 0 rest = Some (u, k)"
    and parsed: "parseUnsignedIntegerLiteral (take (length t - length rest) t) = Some v"
    and type: "map_option (\<lambda>(len, isSigned). \<lparr>cil_value = take (length t - length rest) t, cil_byteLength = len, cil_isSigned = isSigned\<rparr>)
      (cLiteralType nonDecimal u k v) = Some c"
    using assms by (simp add: parseCIntegerLiteral_def radix Let_def split: if_splits option.splits prod.splits)
  obtain ds where "drop offset t = ds @ rest" using cDigitLoop_suffix [OF digits] by blast
  then have "take offset t @ drop offset t = (take offset t @ ds) @ rest" by simp
  then have "t = (take offset t @ ds) @ rest" by (simp only: append_take_drop_id)
  then obtain pre where "t = pre @ rest" by blast
  then have t: "t = take (length t - length rest) t @ rest" by simp
  have val: "cil_value c = take (length t - length rest) t" and ty: "cLiteralType nonDecimal u k v = Some (cil_byteLength c, cil_isSigned c)"
    using type by auto
  have eq: "t = cil_value c @ rest" by (subst val) (rule t)
  have u: "u = (CHR ''u'' \<in> set rest \<or> CHR ''U'' \<in> set rest)" and l: "(k \<noteq> 0) = (CHR ''l'' \<in> set rest \<or> CHR ''L'' \<in> set rest)"
    and chars: "set rest \<subseteq> {CHR ''u'', CHR ''U'', CHR ''l'', CHR ''L''}"
    using cSuffixLoop_chars [OF suffix] by auto
  have number: "parseUnsignedIntegerLiteral (cil_value c) = Some v" using parsed val by simp
  show ?thesis by (intro exI [of _ rest] exI [of _ v] conjI eq number chars) (rule ty [unfolded cLiteralType_first nd u l])
qed

theorem parseCIntegerLiteral_type_witness:
  "\<exists>c. parseCIntegerLiteral ''0xFFFFFFFFL'' = Some c \<and> cil_byteLength c = 8 \<and> cil_isSigned c \<and>
     (\<exists>suffix. ''0xFFFFFFFFL'' = cil_value c @ suffix)"
proof -
  have p: "parseCIntegerLiteral ''0xFFFFFFFFL'' = Some \<lparr>cil_value = ''0xFFFFFFFF'', cil_byteLength = 8, cil_isSigned = True\<rparr>" by code_simp
  from parseCIntegerLiteral_type [OF p] p show ?thesis by auto
qed

text \<open>
  C12.  The evaluation of a signed \<open>+\<close>, \<open>-\<close>, \<open>*\<close>, \<open>/\<close> or \<open>%\<close> of the lowering is the C operation over the unbounded integers
  on the values the operands have at its width: it is refused exactly where C leaves it undefined, that is, where the
  result does not fit the width, the divisor is zero, or the quotient of a remainder does not fit, although every check is
  made at 64 bits before the operation.
\<close>

theorem evaluateTypedIntegerBinary_exact:
  assumes "parseTypedIntegerOperator op = Some operation" and "tio_isSigned operation"
    and "tio_symbol operation \<in> {''+'', ''-'', ''*'', ''/'', ''%''}"
  shows "Option.bind (evaluateTypedIntegerBinary operation l r) signedConstantValue =
    cArithmetic (widthOf (tio_byteLength operation)) (tio_symbol operation)
      (valueAt (tio_byteLength operation) True (ci_bits l)) (valueAt (tio_byteLength operation) True (ci_bits r))"
proof -
  have "widthOk (tio_byteLength operation)"
    using assms(1) by (auto simp: parseTypedIntegerOperator_def Let_def integerMask_mask split: if_splits)
  moreover have "operation = \<lparr>tio_byteLength = tio_byteLength operation, tio_isSigned = True, tio_symbol = tio_symbol operation\<rparr>"
    using assms(2) by (cases operation) simp
  ultimately show ?thesis using evaluateSigned_exact [OF _ assms(3), of "tio_byteLength operation" l r] by simp
qed

theorem evaluateTypedIntegerBinary_exact_witness:
  "\<exists>operation. parseTypedIntegerOperator ''%4d*'' = Some operation \<and>
     Option.bind (evaluateTypedIntegerBinary operation (mkConstant 65536 4 True) (mkConstant 32768 4 True)) signedConstantValue = None \<and>
     cArithmetic 32 ''*'' 65536 32768 = None"
proof -
  have p: "parseTypedIntegerOperator ''%4d*'' = Some \<lparr>tio_byteLength = 4, tio_isSigned = True, tio_symbol = ''*''\<rparr>" by code_simp
  have "widthOf 4 = 32" "valueAt 4 True 65536 = 65536" "valueAt 4 True 32768 = 32768" "cArithmetic 32 ''*'' 65536 32768 = None" by code_simp+
  with evaluateTypedIntegerBinary_exact [OF p, of "mkConstant 65536 4 True" "mkConstant 32768 4 True"] p show ?thesis by simp
qed

end
