(* ===== verification/CCompat_LowerExpr.thy ===== *)
theory CCompat_LowerExpr
  imports CCompat_Constants
begin

text \<open>
  Expressions in the C compatibility lowering (\<open>src/compat/CCompatLoweringExpressions.cpp\<close>,
  \<open>CCompatLoweringOperators.cpp\<close>): every C expression becomes an expression of the core language with its C type
  beside it.  An operation takes the lowering of each of its operands, so that \<open>lowerExpr\<close> and \<open>lowerLvalue\<close> tie
  the recursion over the syntax tree.  The lowered expression of a result is always present, so the check of
  \<open>decayArray\<close> for an absent one has no counterpart.
\<close>

section \<open>Results and scopes\<close>

record ExprResult =
  er_expression :: AstExpr
  er_type :: TypeInfo
  er_isLvalue :: bool
  er_isArray :: bool
  er_arrayCount :: size_t
  er_arrayBackedByAddress :: bool

definition mkResult :: "AstExpr \<Rightarrow> TypeInfo \<Rightarrow> bool \<Rightarrow> bool \<Rightarrow> size_t \<Rightarrow> ExprResult" where
  "mkResult e t isLvalue isArray arrayCount = \<lparr>er_expression = e, er_type = t, er_isLvalue = isLvalue, er_isArray = isArray,
     er_arrayCount = arrayCount, er_arrayBackedByAddress = False\<rparr>"

abbreviation mkValue :: "AstExpr \<Rightarrow> TypeInfo \<Rightarrow> ExprResult" where
  "mkValue e t \<equiv> mkResult e t False False 0"

definition to_string :: "size_t \<Rightarrow> string" where
  "to_string n = show_nat (unat n)"

definition integerType :: "size_t \<Rightarrow> bool \<Rightarrow> TypeInfo" where
  "integerType n isSigned = TypeInfo (mkAbi CAbiInteger n isSigned [] n) ((if isSigned then ''i'' else ''u'') @ to_string (n * 8)) None"

definition floatingType :: "size_t \<Rightarrow> TypeInfo" where
  "floatingType n = TypeInfo (mkAbi CAbiFloating n True [] n) (''f'' @ to_string (n * 8)) None"

definition endsSingle :: "string \<Rightarrow> bool" where
  "endsSingle v \<longleftrightarrow> v \<noteq> [] \<and> (last v = CHR ''f'' \<or> last v = CHR ''F'')"

definition stripFloatSuffix :: "string \<Rightarrow> string" where
  "stripFloatSuffix v = (if endsSingle v then butlast v else v)"

fun lookupScopes :: "(string, ObjectInfo) fmap list \<Rightarrow> string \<Rightarrow> ObjectInfo option" where
  "lookupScopes [] name = None"
| "lookupScopes (scope # rest) name = (case fmlookup scope name of Some object \<Rightarrow> Some object | None \<Rightarrow> lookupScopes rest name)"

definition lookupObject :: "string \<Rightarrow> Lowerer \<Rightarrow> ObjectInfo option" where
  "lookupObject name l = lookupScopes (low_scopes l) name"

definition decayArray :: "ExprResult \<Rightarrow> ExprResult lowering" where
  "decayArray v = inspect (\<lambda>l.
     if \<not> er_isArray v then ret v
     else let pointer = makePointer (pointerByteLength l) (er_type v) in
       if er_arrayBackedByAddress v then ret (mkValue (er_expression v) pointer)
       else ret (mkValue (AUnary ''&'' (er_expression v)) pointer))"

section \<open>Operators\<close>

definition byteLengthText :: "size_t \<Rightarrow> size_t \<Rightarrow> string" where
  "byteLengthText len pointerLength = (if len = pointerLength then ''P'' else to_string len)"

definition floatOperator :: "size_t \<Rightarrow> string \<Rightarrow> string" where
  "floatOperator len op = ''%'' @ to_string len @ ''f'' @ op"

definition cIntegerOperator :: "size_t \<Rightarrow> bool \<Rightarrow> string \<Rightarrow> string" where
  "cIntegerOperator len isSigned op = ''%'' @ to_string len @ (if isSigned then ''d'' else ''u'') @ op"

definition addressOperator :: "size_t \<Rightarrow> string \<Rightarrow> string" where
  "addressOperator len op = ''%'' @ to_string len @ ''d'' @ op"

definition scaledIndex :: "AstExpr \<Rightarrow> size_t \<Rightarrow> size_t \<Rightarrow> AstExpr" where
  "scaledIndex index elementLength pointerLength =
     ABinary index (addressOperator pointerLength ''*'') (AIntegerLiteral (to_string elementLength))"

definition isComparison :: "string \<Rightarrow> bool" where
  "isComparison op \<longleftrightarrow> op \<in> {''=='', ''!='', ''<'', ''<='', ''>'', ''>=''}"

definition isShift :: "string \<Rightarrow> bool" where
  "isShift op \<longleftrightarrow> op \<in> {''<<'', ''>>''}"

definition isUnsignedInteger :: "TypeInfo \<Rightarrow> bool" where
  "isUnsignedInteger t \<longleftrightarrow> typeKind t = CAbiInteger \<and> \<not> cabi_isSigned (ti_abi t)"

definition promoteInteger :: "TypeInfo \<Rightarrow> TypeInfo" where
  "promoteInteger t = (if typeLength t < 4 then integerType 4 True else t)"

definition usualIntegerType :: "TypeInfo \<Rightarrow> TypeInfo \<Rightarrow> TypeInfo" where
  "usualIntegerType left right =
     (let promotedLeft = promoteInteger left; promotedRight = promoteInteger right;
          leftSigned = cabi_isSigned (ti_abi promotedLeft) in
      if leftSigned = cabi_isSigned (ti_abi promotedRight)
      then (if typeLength promotedLeft \<ge> typeLength promotedRight then promotedLeft else promotedRight)
      else let unsignedType = (if leftSigned then promotedRight else promotedLeft);
               signedType = (if leftSigned then promotedLeft else promotedRight) in
        if typeLength unsignedType \<ge> typeLength signedType then integerType (typeLength unsignedType) False
        else if typeLength signedType > typeLength unsignedType then signedType
        else integerType (typeLength signedType) False)"

definition preserveUnsigned :: "AstExpr \<Rightarrow> TypeInfo \<Rightarrow> AstExpr" where
  "preserveUnsigned e t =
     (if \<not> isUnsignedInteger t \<or> (case e of AUnsigned _ _ \<Rightarrow> True | _ \<Rightarrow> False) then e else AUnsigned e (typeLength t))"

section \<open>Unary operators, indexing and members\<close>

definition completed :: "resolver \<Rightarrow> TypeInfo \<Rightarrow> SourceRange \<Rightarrow> TypeInfo lowering" where
  "completed ro type rg = (if isAggregate type then ensureStructComplete ro type rg else ret type)"

definition lowerDereference :: "resolver \<Rightarrow> ExprResult lowering \<Rightarrow> SourceRange \<Rightarrow> ExprResult lowering" where
  "lowerDereference ro operand rg =
     andThen operand (\<lambda>x. andThen (decayArray x) (\<lambda>x.
       case (isPointer (er_type x), ti_pointee (er_type x)) of
         (True, Some type) \<Rightarrow>
           if isVoid type then failing rg ''cannot dereference void pointer in C compatibility mode''
           else andThen (completed ro type rg) (\<lambda>type.
             ret (mkResult (ADeref (to_string (typeLength type)) (er_expression x)) type True False 0))
       | _ \<Rightarrow> failing rg ''C dereference requires a pointer with element metadata''))"

definition lowerAddressOf :: "ExprResult lowering \<Rightarrow> SourceRange \<Rightarrow> ExprResult lowering" where
  "lowerAddressOf operandLvalue rg =
     andThen operandLvalue (\<lambda>x. inspect (\<lambda>l.
       if er_isArray x then failing rg ''address-of array objects is outside the minimal C subset''
       else ret (mkValue (AUnary ''&'' (er_expression x)) (makePointer (pointerByteLength l) (er_type x)))))"

definition lowerUnary :: "resolver \<Rightarrow> string \<Rightarrow> ExprResult lowering \<Rightarrow> ExprResult lowering \<Rightarrow> SourceRange \<Rightarrow> ExprResult lowering" where
  "lowerUnary ro op operand operandLvalue rg =
     (if op = ''*'' then lowerDereference ro operand rg
      else if op = ''&'' then lowerAddressOf operandLvalue rg
      else andThen operand (\<lambda>x. andThen (decayArray x) (\<lambda>x.
        if op = ''!'' then
          (if \<not> isInteger (er_type x) \<and> \<not> isPointer (er_type x)
           then failing rg ''C logical negation requires an integer or pointer''
           else ret (mkValue (AUnary ''!'' (er_expression x)) (integerType 1 False)))
        else if \<not> isInteger (er_type x)
        then failing rg ''C unary numeric lowering currently supports integer operands only''
        else let resultType = promoteInteger (er_type x) in
          ret (mkValue (preserveUnsigned (AUnary op (preserveUnsigned (er_expression x) (er_type x))) resultType) resultType))))"

text \<open>An element at an index: of an array object, or of the memory a pointer or an array in memory points to.\<close>

definition elementAt :: "AstExpr \<Rightarrow> AstExpr \<Rightarrow> TypeInfo \<Rightarrow> size_t \<Rightarrow> ExprResult" where
  "elementAt base offset element pointerLength =
     mkResult (ADeref (to_string (typeLength element)) (ABinary base (addressOperator pointerLength ''+'') offset)) element True False 0"

definition lowerArrayIndex :: "resolver \<Rightarrow> ExprResult \<Rightarrow> ExprResult \<Rightarrow> SourceRange \<Rightarrow> ExprResult lowering" where
  "lowerArrayIndex ro base index rg =
     andThen (completed ro (er_type base) rg) (\<lambda>element. inspect (\<lambda>l.
       if typeLength element = 0 then failing rg ''C subscript requires a statically known element byte length''
       else let offset = scaledIndex (preserveUnsigned (er_expression index) (er_type index)) (typeLength element) (pointerByteLength l) in
         if er_arrayBackedByAddress base then ret (elementAt (er_expression base) offset element (pointerByteLength l))
         else ret (mkResult (ASlice (er_expression base) offset (AIntegerLiteral (to_string (typeLength element))) True) element True False 0)))"

definition lowerPointerIndex :: "resolver \<Rightarrow> ExprResult \<Rightarrow> ExprResult \<Rightarrow> SourceRange \<Rightarrow> SourceRange \<Rightarrow> ExprResult lowering" where
  "lowerPointerIndex ro base index baseRange rg =
     andThen (decayArray base) (\<lambda>base.
       case (isPointer (er_type base), ti_pointee (er_type base)) of
         (True, Some element) \<Rightarrow>
           if isVoid element then failing rg ''C void pointer cannot be subscripted''
           else andThen (completed ro element rg) (\<lambda>element. inspect (\<lambda>l.
             if typeLength element = 0 then failing rg ''C subscript requires a statically known element byte length''
             else ret (elementAt (er_expression base)
               (scaledIndex (preserveUnsigned (er_expression index) (er_type index)) (typeLength element) (pointerByteLength l))
               element (pointerByteLength l))))
       | _ \<Rightarrow> failing baseRange ''C subscript base must be an array or pointer with element metadata'')"

definition lowerIndex ::
  "resolver \<Rightarrow> ExprResult lowering \<Rightarrow> SourceRange \<Rightarrow> ExprResult lowering \<Rightarrow> SourceRange \<Rightarrow> SourceRange \<Rightarrow> ExprResult lowering" where
  "lowerIndex ro base baseRange index indexRange rg =
     attempt base (\<lambda>b. attempt index (\<lambda>i.
       case (b, i) of
         (Some base, Some index) \<Rightarrow>
           andThen (decayArray index) (\<lambda>index.
             if \<not> isInteger (er_type index) then failing indexRange ''C subscript index must be an integer expression''
             else if er_isArray base then lowerArrayIndex ro base index rg
             else lowerPointerIndex ro base index baseRange rg)
       | _ \<Rightarrow> nullptr))"

definition findField :: "string \<Rightarrow> FieldInfo list \<Rightarrow> FieldInfo option" where
  "findField name fs = find (\<lambda>f. fi_name f = name) fs"

definition structureOf :: "resolver \<Rightarrow> ExprResult \<Rightarrow> bool \<Rightarrow> SourceRange \<Rightarrow> (ExprResult \<times> TypeInfo) lowering" where
  "structureOf ro base throughPointer rg =
     (if throughPointer then
        andThen (decayArray base) (\<lambda>base.
          case (isPointer (er_type base), ti_pointee (er_type base)) of
            (True, Some type) \<Rightarrow>
              if \<not> isAggregate type then failing rg (''C '' @ quoted ''->'' @ '' member access requires a pointer to struct'')
              else andThen (ensureStructComplete ro type rg) (\<lambda>type. ret (base, type))
          | _ \<Rightarrow> failing rg (''C '' @ quoted ''->'' @ '' member access requires a pointer to struct''))
      else if er_isArray base \<or> \<not> isAggregate (er_type base)
      then failing rg (''C '' @ quoted ''.'' @ '' member access requires a non-array struct object'')
      else ret (base, er_type base))"

definition memberThroughPointer :: "AstExpr \<Rightarrow> FieldInfo \<Rightarrow> bool \<Rightarrow> size_t \<Rightarrow> ExprResult" where
  "memberThroughPointer base field requireLvalue pointerLength =
     (let object = fi_object field;
          address = (if fi_offset field \<noteq> 0
            then ABinary base (addressOperator pointerLength ''+'') (AIntegerLiteral (to_string (fi_offset field))) else base) in
      if obj_isArray object then (mkResult address (obj_type object) False True (obj_arrayCount object))\<lparr>er_arrayBackedByAddress := True\<rparr>
      else mkResult (ADeref (to_string (byteLength object)) address) (obj_type object) requireLvalue False 0)"

definition lowerMember :: "resolver \<Rightarrow> ExprResult lowering \<Rightarrow> string \<Rightarrow> bool \<Rightarrow> bool \<Rightarrow> SourceRange \<Rightarrow> ExprResult lowering" where
  "lowerMember ro base member throughPointer requireLvalue rg =
     andThen base (\<lambda>base. andThen (structureOf ro base throughPointer rg) (\<lambda>(base, structureType).
       andThen (ensureStructComplete ro structureType rg) (\<lambda>structureType. inspect (\<lambda>l.
         case fmlookup (low_structs l) (cabi_aggregateName (ti_abi structureType)) of
           None \<Rightarrow> failing rg ''C member base has no known struct layout''
         | Some structure \<Rightarrow>
             (case findField member (si_fields structure) of
                None \<Rightarrow> failing rg (''unknown C struct member '' @ quoted member)
              | Some field \<Rightarrow>
                  if throughPointer then ret (memberThroughPointer (er_expression base) field requireLvalue (pointerByteLength l))
                  else case er_expression base of
                    AIdentifier _ \<Rightarrow>
                      let object = fi_object field in
                      ret (mkResult (AMember (er_expression base) member) (obj_type object) requireLvalue (obj_isArray object) (obj_arrayCount object))
                  | _ \<Rightarrow> failing rg ''nested C member access requires a core member-chain lowering extension'')))))"

section \<open>Binary operators\<close>

definition lowerPointerDifference :: "resolver \<Rightarrow> ExprResult \<Rightarrow> ExprResult \<Rightarrow> SourceRange \<Rightarrow> ExprResult lowering" where
  "lowerPointerDifference ro left right rg =
     (let rejected = failing rg ''C pointer difference requires equal, sized element metadata'' in
      case (ti_pointee (er_type left), ti_pointee (er_type right)) of
        (Some element, Some other) \<Rightarrow>
          if \<not> sameType element other \<or> isVoid element then rejected
          else andThen (completed ro element rg) (\<lambda>element. inspect (\<lambda>l.
            ret (mkValue (ABinary (ABinary (er_expression left) (addressOperator (pointerByteLength l) ''-'') (er_expression right))
                (addressOperator (pointerByteLength l) ''/'') (AIntegerLiteral (to_string (typeLength element)))) (integerType 8 True))))
      | _ \<Rightarrow> rejected)"

definition lowerPointerOffset :: "resolver \<Rightarrow> string \<Rightarrow> ExprResult \<Rightarrow> ExprResult \<Rightarrow> SourceRange \<Rightarrow> ExprResult lowering" where
  "lowerPointerOffset ro op left right rg =
     (let leftPointer = isPointer (er_type left); pointer = (if leftPointer then left else right);
          index = (if leftPointer then right else left);
          rejected = failing rg ''C pointer arithmetic requires one sized pointer and one integer'' in
      case ti_pointee (er_type pointer) of
        None \<Rightarrow> rejected
      | Some element \<Rightarrow>
          if \<not> isInteger (er_type index) \<or> isVoid element then rejected
          else andThen (completed ro element rg) (\<lambda>element. inspect (\<lambda>l.
            ret (mkValue (ABinary (er_expression pointer) (addressOperator (pointerByteLength l) op)
              (scaledIndex (preserveUnsigned (er_expression index) (er_type index)) (typeLength element) (pointerByteLength l))) (er_type pointer)))))"

definition lowerPointerBinary :: "resolver \<Rightarrow> string \<Rightarrow> ExprResult \<Rightarrow> ExprResult \<Rightarrow> SourceRange \<Rightarrow> ExprResult lowering" where
  "lowerPointerBinary ro op left right rg =
     (let leftPointer = isPointer (er_type left); rightPointer = isPointer (er_type right);
          truthValue = ret (mkValue (ABinary (er_expression left) op (er_expression right)) (integerType 1 False)) in
      if op = ''-'' \<and> leftPointer \<and> rightPointer then lowerPointerDifference ro left right rg
      else if op = ''+'' \<or> (op = ''-'' \<and> leftPointer \<and> isInteger (er_type right)) then lowerPointerOffset ro op left right rg
      else if isComparison op then truthValue
      else if op = ''&&'' \<or> op = ''||'' then truthValue
      else failing rg (''unsupported C pointer binary operator '' @ quoted op))"

definition lowerFloatBinary :: "string \<Rightarrow> ExprResult \<Rightarrow> ExprResult \<Rightarrow> SourceRange \<Rightarrow> ExprResult lowering" where
  "lowerFloatBinary op left right rg =
     (if \<not> isFloating (er_type left) \<or> \<not> isFloating (er_type right) \<or> (op \<notin> {''+'', ''-'', ''*'', ''/''} \<and> \<not> isComparison op)
      then failing rg ''C floating expressions require two float operands and an arithmetic or comparison operator''
      else let len = max (typeLength (er_type left)) (typeLength (er_type right));
               core = ABinary (er_expression left) (floatOperator len op) (er_expression right) in
        if isComparison op then ret (mkValue core (integerType 1 False)) else ret (mkValue core (floatingType len)))"

definition shiftCountChecked :: "AstExpr \<Rightarrow> TypeInfo \<Rightarrow> TypeInfo \<Rightarrow> SourceRange \<Rightarrow> unit lowering" where
  "shiftCountChecked count countType operationType rg =
     (case constantShiftCount count countType of
        None \<Rightarrow> ret ()
      | Some c \<Rightarrow>
          if csc_isNegative c then failing rg ''C compatibility shift count must be non-negative''
          else let bitWidth = typeLength operationType * 8 in
            if csc_magnitude c \<ge> bitWidth
            then failing rg (''C compatibility shift count must be smaller than '' @ to_string bitWidth)
            else ret ())"

definition lowerIntegerBinary :: "string \<Rightarrow> ExprResult \<Rightarrow> ExprResult \<Rightarrow> SourceRange \<Rightarrow> ExprResult lowering" where
  "lowerIntegerBinary op left right rightRange =
     (let leftValue = preserveUnsigned (er_expression left) (er_type left);
          rightValue = preserveUnsigned (er_expression right) (er_type right) in
      if isShift op then
        (let operationType = promoteInteger (er_type left) in
         andThen (shiftCountChecked (er_expression right) (promoteInteger (er_type right)) operationType rightRange) (\<lambda>_.
           ret (mkValue (preserveUnsigned (ABinary leftValue
             (cIntegerOperator (typeLength operationType) (cabi_isSigned (ti_abi operationType)) op) rightValue) operationType) operationType)))
      else let operationType = usualIntegerType (er_type left) (er_type right) in
        if op = ''&&'' \<or> op = ''||'' then ret (mkValue (ABinary leftValue op rightValue) (integerType 1 False))
        else let core = ABinary leftValue (cIntegerOperator (typeLength operationType) (cabi_isSigned (ti_abi operationType)) op) rightValue in
          if isComparison op then ret (mkValue core (integerType 1 False))
          else ret (mkValue (preserveUnsigned core operationType) operationType))"

definition lowerBinary ::
  "resolver \<Rightarrow> string \<Rightarrow> ExprResult lowering \<Rightarrow> ExprResult lowering \<Rightarrow> SourceRange \<Rightarrow> SourceRange \<Rightarrow> ExprResult lowering" where
  "lowerBinary ro op left right rightRange rg =
     attempt left (\<lambda>x. attempt right (\<lambda>y.
       case (x, y) of
         (Some left, Some right) \<Rightarrow>
           andThen (decayArray left) (\<lambda>left. andThen (decayArray right) (\<lambda>right.
             if isPointer (er_type left) \<or> isPointer (er_type right) then lowerPointerBinary ro op left right rg
             else if isFloating (er_type left) \<or> isFloating (er_type right) then lowerFloatBinary op left right rg
             else if \<not> isInteger (er_type left) \<or> \<not> isInteger (er_type right)
             then failing rg ''C binary operator requires scalar integer or floating operands''
             else lowerIntegerBinary op left right rightRange))
       | _ \<Rightarrow> nullptr))"

section \<open>Assignments and casts\<close>

definition compoundOperators :: "string list" where
  "compoundOperators = [''+='', ''-='', ''*='', ''/='', ''%='', ''<<='', ''>>='', ''&='', ''^='', ''|='']"

definition assignmentOperator :: "string \<Rightarrow> TypeInfo \<Rightarrow> ExprResult \<Rightarrow> SourceRange \<Rightarrow> SourceRange \<Rightarrow> string lowering" where
  "assignmentOperator op targetType x valueRange rg =
     (if op = ''='' then
        (if \<not> sameType targetType (er_type x) \<and> \<not> (isInteger targetType \<and> isInteger (er_type x)) \<and>
            \<not> (isPointer targetType \<and> isInteger (er_type x))
         then failing rg ''C assignment requires an explicit supported conversion in compatibility mode''
         else ret op)
      else if \<not> isInteger targetType \<or> \<not> isInteger (er_type x) \<or> op \<notin> set compoundOperators
      then failing rg ''C compound assignment is not supported for this lowered type/operator''
      else let shift = (op = ''<<='' \<or> op = ''>>='');
               operationType = (if shift then promoteInteger targetType else usualIntegerType targetType (er_type x)) in
        andThen (if shift then shiftCountChecked (er_expression x) (promoteInteger (er_type x)) operationType valueRange else ret ()) (\<lambda>_.
          ret (cIntegerOperator (typeLength operationType) (cabi_isSigned (ti_abi operationType)) (butlast op) @ ''='')))"

definition lowerAssignment ::
  "string \<Rightarrow> ExprResult lowering \<Rightarrow> SourceRange \<Rightarrow> ExprResult lowering \<Rightarrow> SourceRange \<Rightarrow> SourceRange \<Rightarrow> ExprResult lowering" where
  "lowerAssignment op target targetRange x valueRange rg =
     attempt target (\<lambda>t. attempt x (\<lambda>y.
       case (t, y) of
         (Some target, Some x) \<Rightarrow>
           andThen (decayArray x) (\<lambda>x.
             if er_isArray target then failing targetRange ''C array assignment is outside the minimal subset''
             else let targetType = er_type target in
               andThen (assignmentOperator op targetType x valueRange rg) (\<lambda>op.
                 ret (mkValue (mkAssignment (er_expression target) op (isUnsignedInteger targetType)
                   (preserveUnsigned (er_expression x) (er_type x))) targetType)))
       | _ \<Rightarrow> nullptr))"

definition lowerCast :: "resolver \<Rightarrow> CType \<Rightarrow> nat \<Rightarrow> ExprResult lowering \<Rightarrow> SourceRange \<Rightarrow> ExprResult lowering" where
  "lowerCast ro type pointerDepth operand rg =
     attempt (resolveType ro type pointerDepth) (\<lambda>t. attempt operand (\<lambda>x.
       case (t, x) of
         (Some target, Some x) \<Rightarrow>
           andThen (decayArray x) (\<lambda>x.
             let source = er_type x; e = er_expression x in
             if isAggregate target then failing rg ''C aggregate casts are outside the minimal subset''
             else if isPointer target then
               (if \<not> isPointer source \<and> \<not> isInteger source then failing rg ''C pointer cast requires pointer or integer operand''
                else ret (mkValue e target))
             else if sameType target source then ret (mkValue e target)
             else if isInteger target \<and> isInteger source
             then ret (mkValue (AIntegerCast (preserveUnsigned e source) (typeLength target) (cabi_isSigned (ti_abi target))) target)
             else if isFloating target \<and> isInteger source
             then ret (mkValue (ACall (''to_f'' @ to_string (typeLength target * 8)) [e]) target)
             else if isInteger target \<and> isFloating source
             then ret (mkValue (ACall ((if cabi_isSigned (ti_abi target) then ''to_i'' else ''to_u'') @ to_string (typeLength target * 8)) [e]) target)
             else failing rg ''C numeric cast requires core to_iN/to_uN/to_fN lowering support'')
       | _ \<Rightarrow> nullptr))"

definition lowerConditional ::
  "ExprResult lowering \<Rightarrow> ExprResult lowering \<Rightarrow> ExprResult lowering \<Rightarrow> SourceRange \<Rightarrow> ExprResult lowering" where
  "lowerConditional condition thenExpr elseExpr rg =
     attempt condition (\<lambda>c. attempt thenExpr (\<lambda>a. attempt elseExpr (\<lambda>b.
       case (c, a, b) of
         (Some condition, Some thenExpr, Some elseExpr) \<Rightarrow>
           andThen (decayArray thenExpr) (\<lambda>thenExpr. andThen (decayArray elseExpr) (\<lambda>elseExpr.
             if \<not> sameType (er_type thenExpr) (er_type elseExpr)
             then failing rg ''C conditional expression branches require the same lowered type''
             else ret (mkValue (ATernary (er_expression condition) (er_expression thenExpr) (er_expression elseExpr)) (er_type thenExpr))))
       | _ \<Rightarrow> nullptr)))"

section \<open>Primary expressions and calls\<close>

definition lowerIdentifier :: "string \<Rightarrow> SourceRange \<Rightarrow> ExprResult lowering" where
  "lowerIdentifier name rg = inspect (\<lambda>l.
     case lookupObject name l of
       None \<Rightarrow> failing rg (''use of undeclared C compatibility object '' @ quoted name)
     | Some object \<Rightarrow> ret (mkResult (AIdentifier name) (obj_type object) True (obj_isArray object) (obj_arrayCount object)))"

definition lowerIntegerLiteral :: "string \<Rightarrow> SourceRange \<Rightarrow> ExprResult lowering" where
  "lowerIntegerLiteral v rg =
     (case parseCIntegerLiteral v of
        None \<Rightarrow> failing rg (''invalid or unsupported C integer literal '' @ quoted v)
      | Some p \<Rightarrow>
          let core = AIntegerLiteral (cil_value p) in
          ret (mkValue (if cil_isSigned p then core else AUnsigned core (cil_byteLength p)) (integerType (cil_byteLength p) (cil_isSigned p))))"

definition lowerSizeof :: "resolver \<Rightarrow> CType option \<Rightarrow> string \<Rightarrow> SourceRange \<Rightarrow> ExprResult lowering" where
  "lowerSizeof ro type name rg =
     andThen (case type of
         Some type \<Rightarrow>
           andThen (resolveType ro type 0) (\<lambda>type.
             if isVoid type then failing rg ''sizeof(void) is not available in the C compatibility subset''
             else andThen (completed ro type rg) (\<lambda>type. ret (typeLength type)))
       | None \<Rightarrow> inspect (\<lambda>l.
           case lookupObject name l of
             None \<Rightarrow> failing rg (''sizeof references unknown C object '' @ quoted name)
           | Some object \<Rightarrow> ret (byteLength object)))
       (\<lambda>len. inspect (\<lambda>l.
          if len = 0 then failing rg ''sizeof requires a statically sized C type or object''
          else ret (mkValue (AIntegerLiteral (to_string len)) (integerType (pointerByteLength l) False))))"

definition calleeName :: "Expr \<Rightarrow> string option" where
  "calleeName callee = (case callee of IdentifierExpr name _ \<Rightarrow> Some name | _ \<Rightarrow> None)"

definition argumentValue :: "ExprResult \<Rightarrow> AstExpr" where
  "argumentValue x =
     (if isInteger (er_type x) \<and> \<not> cabi_isSigned (ti_abi (er_type x)) \<and> (case er_expression x of AUnsigned _ _ \<Rightarrow> False | _ \<Rightarrow> True)
      then AUnsigned (er_expression x) (typeLength (er_type x)) else er_expression x)"

definition lowerCall :: "Expr \<Rightarrow> nat \<Rightarrow> AstExpr list lowering \<Rightarrow> SourceRange \<Rightarrow> ExprResult lowering" where
  "lowerCall callee count arguments rg =
     (case calleeName callee of
        None \<Rightarrow> failing rg ''function-pointer calls are outside the Standard 16.1 compatibility subset''
      | Some name \<Rightarrow> inspect (\<lambda>l.
          case fmlookup (low_functions l) name of
            None \<Rightarrow> failing (exprRange callee) (''C call requires a known function declaration for '' @ quoted name)
          | Some signature \<Rightarrow>
              if length (fni_parameters signature) \<noteq> count
              then failing rg (''C call argument count does not match declaration for '' @ quoted name)
              else andThen arguments (\<lambda>arguments. ret (mkValue (ACall name arguments) (fni_returnType signature)))))"

section \<open>The recursion\<close>

fun lowerExpr :: "resolver \<Rightarrow> Expr \<Rightarrow> ExprResult lowering"
  and lowerLvalue :: "resolver \<Rightarrow> Expr \<Rightarrow> ExprResult lowering"
  and lowerArguments :: "resolver \<Rightarrow> Expr list \<Rightarrow> AstExpr list lowering"
where
  "lowerExpr ro (IdentifierExpr name rg) = lowerIdentifier name rg"
| "lowerExpr ro (IntegerLiteralExpr v rg) = lowerIntegerLiteral v rg"
| "lowerExpr ro (FloatLiteralExpr v rg) = ret (mkValue (AFloatLiteral (stripFloatSuffix v)) (floatingType (if endsSingle v then 4 else 8)))"
| "lowerExpr ro (StringLiteralExpr v rg) = inspect (\<lambda>l. ret (mkValue (AStringLiteral v) (makePointer (pointerByteLength l) (integerType 1 False))))"
| "lowerExpr ro (CharLiteralExpr v rg) = ret (mkValue (ACharLiteral v) (integerType 1 False))"
| "lowerExpr ro (UnaryExpr op e rg) = lowerUnary ro op (lowerExpr ro e) (lowerLvalue ro e) rg"
| "lowerExpr ro (BinaryExpr a op b rg) = lowerBinary ro op (lowerExpr ro a) (lowerExpr ro b) (exprRange b) rg"
| "lowerExpr ro (ConditionalExpr c a b rg) = lowerConditional (lowerExpr ro c) (lowerExpr ro a) (lowerExpr ro b) rg"
| "lowerExpr ro (AssignmentExpr a op b rg) = lowerAssignment op (lowerLvalue ro a) (exprRange a) (lowerExpr ro b) (exprRange b) rg"
| "lowerExpr ro (CastExpr type depth e rg) = lowerCast ro type depth (lowerExpr ro e) rg"
| "lowerExpr ro (SizeofExpr type name rg) = lowerSizeof ro type name rg"
| "lowerExpr ro (IndexExpr b i rg) = lowerIndex ro (lowerExpr ro b) (exprRange b) (lowerExpr ro i) (exprRange i) rg"
| "lowerExpr ro (CallExpr f es rg) = lowerCall f (length es) (lowerArguments ro es) rg"
| "lowerExpr ro (MemberExpr b member throughPointer rg) = lowerMember ro (lowerExpr ro b) member throughPointer False rg"
| "lowerLvalue ro (IdentifierExpr name rg) =
     andThen (lowerIdentifier name rg) (\<lambda>x.
       if er_isArray x then failing rg ''C array object is not an assignable scalar lvalue'' else ret x)"
| "lowerLvalue ro (IndexExpr b i rg) = lowerIndex ro (lowerExpr ro b) (exprRange b) (lowerExpr ro i) (exprRange i) rg"
| "lowerLvalue ro (UnaryExpr op e rg) =
     (if op = ''*'' then lowerUnary ro op (lowerExpr ro e) (lowerLvalue ro e) rg
      else failing rg ''C assignment target is not an lvalue in the compatibility subset'')"
| "lowerLvalue ro (MemberExpr b member throughPointer rg) = lowerMember ro (lowerExpr ro b) member throughPointer True rg"
| "lowerLvalue ro e = failing (exprRange e) ''C assignment target is not an lvalue in the compatibility subset''"
| "lowerArguments ro [] = ret []"
| "lowerArguments ro (e # es) =
     andThen (lowerExpr ro e) (\<lambda>x. andThen (decayArray x) (\<lambda>x.
       andThen (lowerArguments ro es) (\<lambda>rest. ret (argumentValue x # rest))))"

end
