(* ===== verification/CCompat_Lower.thy ===== *)
theory CCompat_Lower
  imports CCompat_LowerExpr
begin

text \<open>
  Statements, declarations and whole units in the C compatibility lowering
  (\<open>src/compat/CCompatLoweringStatements.cpp\<close>, \<open>CCompatLowering.cpp\<close>).  The result of an operation is the lowered
  node, or \<open>None\<close> where the code returns a null pointer or false.  \<open>lower\<close> ties the resolver on the number of
  declarations, which bounds the names that can be resolved.
\<close>

section \<open>Scopes\<close>

definition pushScope :: "Lowerer \<Rightarrow> Lowerer" where
  "pushScope l = l\<lparr>low_scopes := fmempty # low_scopes l\<rparr>"

definition popScope :: "Lowerer \<Rightarrow> Lowerer" where
  "popScope l = l\<lparr>low_scopes := tl (low_scopes l)\<rparr>"

definition bindObject :: "string \<Rightarrow> ObjectInfo \<Rightarrow> Lowerer \<Rightarrow> Lowerer" where
  "bindObject name object l =
     (case low_scopes l of
        [] \<Rightarrow> l\<lparr>low_scopes := [fmupd name object fmempty]\<rparr>
      | scope # rest \<Rightarrow> l\<lparr>low_scopes := fmupd name object scope # rest\<rparr>)"

section \<open>Variables\<close>

definition isStringLiteral :: "Expr option \<Rightarrow> bool" where
  "isStringLiteral e = (case e of Some (StringLiteralExpr _ _) \<Rightarrow> True | _ \<Rightarrow> False)"

definition isCharacterArray :: "ObjectInfo \<Rightarrow> bool" where
  "isCharacterArray object \<longleftrightarrow> obj_isArray object \<and> typeKind (obj_type object) = CAbiInteger \<and> typeLength (obj_type object) = 1"

text \<open>The template and the length a variable is declared with.\<close>

definition storageTemplate :: "ObjectInfo \<Rightarrow> Expr option \<Rightarrow> string" where
  "storageTemplate object init =
     (if obj_isArray object then (if isCharacterArray object \<and> isStringLiteral init then ''cstr'' else ''bytes'')
      else ti_coreTemplate (obj_type object))"

definition storageLength :: "ObjectInfo \<Rightarrow> size_t \<Rightarrow> string" where
  "storageLength object pointerLength =
     (if obj_isArray object then to_string (byteLength object) else byteLengthText (typeLength (obj_type object)) pointerLength)"

definition lowerInitializer :: "resolver \<Rightarrow> ObjectInfo \<Rightarrow> Expr option \<Rightarrow> SourceRange \<Rightarrow> AstExpr option lowering" where
  "lowerInitializer ro object init rg =
     (case init of
        None \<Rightarrow> ret None
      | Some e \<Rightarrow>
          if obj_isArray object \<and> (\<not> isCharacterArray object \<or> \<not> isStringLiteral init)
          then failing rg ''only char-array string initializers are supported by the C compatibility layer''
          else if isAggregate (obj_type object)
          then failing rg ''C aggregate initializers require a core aggregate-initializer lowering extension''
          else andThen (lowerExpr ro e) (\<lambda>x. andThen (decayArray x) (\<lambda>x. ret (Some (er_expression x)))))"

definition initializerOp :: "AstExpr option \<Rightarrow> string" where
  "initializerOp init = (if init = None then [] else ''='')"

definition declaredInScope :: "string \<Rightarrow> Lowerer \<Rightarrow> bool" where
  "declaredInScope name l = (case low_scopes l of [] \<Rightarrow> False | scope # _ \<Rightarrow> fmlookup scope name \<noteq> None)"

definition lowerLocalDeclaration :: "resolver \<Rightarrow> VarDecl \<Rightarrow> AstStmt lowering" where
  "lowerLocalDeclaration ro d =
     (let name = decl_name (var_declarator d) in
      if var_storage d = ExternStorage
      then failing (var_range d) ''block-scope C extern declarations require a core declaration sidecar''
      else andThen (ro (var_type d) (var_declarator d)) (\<lambda>object. inspect (\<lambda>l.
        if declaredInScope name l then failing (var_range d) (''duplicate C local declaration '' @ quoted name)
        else step (bindObject name object)
          (andThen (lowerInitializer ro object (var_initializer d) (var_range d)) (\<lambda>init.
            ret (AVarDecl (if var_storage d = StaticStorage then ''static'' else ''new'')
              [\<lparr>item_name = name, item_length = storageLength object (pointerByteLength l), item_assignmentOp = initializerOp init,
                item_initializer = init, item_templateName = storageTemplate object (var_initializer d)\<rparr>]))))))"

section \<open>Statements\<close>

definition asCoreBlock :: "AstStmt lowering \<Rightarrow> AstStmt list lowering" where
  "asCoreBlock statement = andThen statement (\<lambda>s. ret [s])"

definition lowerExprStmt :: "ExprResult lowering \<Rightarrow> AstStmt lowering" where
  "lowerExprStmt e = andThen e (\<lambda>x.
     case er_expression x of
       AAssignment _ _ \<Rightarrow> ret (mkAssignStmt (er_expression x))
     | _ \<Rightarrow> ret (AExprStmt (er_expression x)))"

definition lowerCondition :: "ExprResult lowering \<Rightarrow> AstExpr lowering" where
  "lowerCondition e = andThen e (\<lambda>x. andThen (decayArray x) (\<lambda>x. ret (er_expression x)))"

definition lowerIf :: "ExprResult lowering \<Rightarrow> AstStmt list lowering \<Rightarrow> AstStmt list lowering option \<Rightarrow> AstStmt lowering" where
  "lowerIf condition thenBranch elseBranch =
     attempt condition (\<lambda>c. attempt thenBranch (\<lambda>t.
       attempt (case elseBranch of None \<Rightarrow> ret None | Some m \<Rightarrow> andThen m (\<lambda>b. ret (Some b))) (\<lambda>e.
         case (c, t, e) of
           (Some c, Some t, Some e) \<Rightarrow> andThen (decayArray c) (\<lambda>c. ret (AIf (er_expression c) t e))
         | _ \<Rightarrow> nullptr)))"

definition lowerWhile :: "ExprResult lowering \<Rightarrow> AstStmt list lowering \<Rightarrow> AstStmt lowering" where
  "lowerWhile condition body =
     attempt condition (\<lambda>c. attempt body (\<lambda>b.
       case (c, b) of
         (Some c, Some b) \<Rightarrow> andThen (decayArray c) (\<lambda>c. ret (AWhile (er_expression c) b))
       | _ \<Rightarrow> nullptr))"

definition lowerFor ::
  "AstStmt lowering option \<Rightarrow> ExprResult lowering option \<Rightarrow> ExprResult lowering option \<Rightarrow> AstStmt list lowering \<Rightarrow> AstStmt lowering" where
  "lowerFor init condition post body =
     andThen (case init of None \<Rightarrow> ret None | Some m \<Rightarrow> andThen m (\<lambda>s. ret (Some s))) (\<lambda>init.
       andThen (case condition of None \<Rightarrow> ret (AIntegerLiteral ''1'') | Some m \<Rightarrow> lowerCondition m) (\<lambda>condition.
         andThen (case post of None \<Rightarrow> ret [] | Some m \<Rightarrow> andThen m (\<lambda>x. ret [er_expression x])) (\<lambda>post.
           andThen body (\<lambda>body. ret (AFor init condition post body)))))"

definition scoped :: "'a lowering \<Rightarrow> 'a lowering" where
  "scoped m = step pushScope (attempt m (\<lambda>r. step popScope (case r of None \<Rightarrow> nullptr | Some x \<Rightarrow> ret x)))"

text \<open>\<open>lowerStmts\<close> is the loop of \<open>lowerBlock\<close>; \<open>lowerBranch\<close> is the body of a branch or a loop.\<close>

function (sequential) lowerStmt :: "resolver \<Rightarrow> Stmt \<Rightarrow> AstStmt lowering"
  and lowerStmts :: "resolver \<Rightarrow> Stmt list \<Rightarrow> AstStmt list lowering"
  and lowerBranch :: "resolver \<Rightarrow> Stmt \<Rightarrow> AstStmt list lowering"
where
  "lowerStmt ro (EmptyStmt rg) = ret AEmpty"
| "lowerStmt ro (DeclStmt d rg) = lowerLocalDeclaration ro d"
| "lowerStmt ro (ExprStmt e rg) = lowerExprStmt (lowerExpr ro e)"
| "lowerStmt ro (ReturnStmt None rg) = ret (AReturn [])"
| "lowerStmt ro (ReturnStmt (Some e) rg) = andThen (lowerCondition (lowerExpr ro e)) (\<lambda>x. ret (AReturn [x]))"
| "lowerStmt ro (IfStmt c t e rg) =
     lowerIf (lowerExpr ro c) (lowerBranch ro t) (case e of None \<Rightarrow> None | Some s \<Rightarrow> Some (lowerBranch ro s))"
| "lowerStmt ro (WhileStmt c b rg) = lowerWhile (lowerExpr ro c) (lowerBranch ro b)"
| "lowerStmt ro (ForStmt i c p b rg) =
     lowerFor (case i of None \<Rightarrow> None | Some s \<Rightarrow> Some (lowerStmt ro s)) (map_option (lowerExpr ro) c) (map_option (lowerExpr ro) p) (lowerBranch ro b)"
| "lowerStmt ro (BreakStmt rg) = ret ABreak"
| "lowerStmt ro (ContinueStmt rg) = ret AContinue"
| "lowerStmt ro (GotoStmt label rg) = ret (AGoto label)"
| "lowerStmt ro (LabelStmt label s rg) = andThen (lowerStmt ro s) (\<lambda>x. ret (ALabel label x))"
| "lowerStmt ro (BlockStmt ss rg) = failing rg ''standalone nested C block requires a core scoped-block statement node''"
| "lowerStmts ro [] = ret []"
| "lowerStmts ro (s # ss) =
     attempt (lowerStmt ro s) (\<lambda>x. andThen (lowerStmts ro ss) (\<lambda>xs.
       ret (case x of None \<Rightarrow> xs | Some x \<Rightarrow> x # xs)))"
| "lowerBranch ro (BlockStmt ss rg) = scoped (lowerStmts ro ss)"
| "lowerBranch ro s = asCoreBlock (lowerStmt ro s)"
  by pat_completeness auto

termination
  by (relation "measure (\<lambda>x. case x of Inl (ro, s) \<Rightarrow> 2 * size s | Inr (Inl (ro, ss)) \<Rightarrow> 2 * size_list size ss
        | Inr (Inr (ro, s)) \<Rightarrow> Suc (2 * size s))") auto

definition lowerBlock :: "resolver \<Rightarrow> Stmt list \<Rightarrow> AstStmt list lowering" where
  "lowerBlock ro ss = scoped (lowerStmts ro ss)"

section \<open>Top-level declarations\<close>

definition addDeclaration :: "TopLevelDecl \<Rightarrow> Lowerer \<Rightarrow> Lowerer" where
  "addDeclaration d l = l\<lparr>low_declarations := low_declarations l @ [d]\<rparr>"

definition addLinkage ::
  "string \<Rightarrow> Linkage \<Rightarrow> bool \<Rightarrow> bool \<Rightarrow> CAbiType option \<Rightarrow> CAbiType list \<Rightarrow> CAbiType option \<Rightarrow> SourceRange \<Rightarrow> Lowerer \<Rightarrow> Lowerer" where
  "addLinkage name lk isFunction isDefn objectType parameterTypes returnType rg l = l\<lparr>low_linkage := low_linkage l @
     [\<lparr>lm_sourceName = name, lm_coreName = name, lm_linkage = lk, lm_isFunction = isFunction, lm_isDefinition = isDefn,
       lm_objectType = objectType, lm_parameterTypes = parameterTypes, lm_returnType = returnType, lm_range = rg\<rparr>]\<rparr>"

definition padding :: "nat \<Rightarrow> size_t \<Rightarrow> TemplateMember" where
  "padding index len = \<lparr>mem_name = ''__hitsimple_c_padding_'' @ show_nat index, mem_length = to_string len, mem_templateName = ''bytes''\<rparr>"

fun templateMembers :: "size_t \<Rightarrow> size_t \<Rightarrow> nat \<Rightarrow> FieldInfo list \<Rightarrow> TemplateMember list" where
  "templateMembers len offset paddingIndex [] = (if len > offset then [padding paddingIndex (len - offset)] else [])"
| "templateMembers len offset paddingIndex (field # rest) =
     (let gap = fi_offset field > offset; object = fi_object field;
          member = \<lparr>mem_name = fi_name field, mem_length = to_string (byteLength object),
                    mem_templateName = (if obj_isArray object then ''bytes'' else ti_coreTemplate (obj_type object))\<rparr> in
      (if gap then [padding paddingIndex (fi_offset field - offset)] else []) @
      member # templateMembers len ((if gap then fi_offset field else offset) + byteLength object) (if gap then Suc paddingIndex else paddingIndex) rest)"

definition lowerStruct :: "resolver \<Rightarrow> string \<Rightarrow> SourceRange \<Rightarrow> unit lowering" where
  "lowerStruct ro name rg =
     andThen (resolveStruct ro name rg) (\<lambda>_. inspect (\<lambda>l.
       case fmlookup (low_structs l) name of
         None \<Rightarrow> nullptr
       | Some structure \<Rightarrow>
           step (addDeclaration (ATemplateDecl name (templateMembers (si_byteLength structure) 0 0 (si_fields structure)))) (ret ())))"

definition lowerGlobal :: "resolver \<Rightarrow> VarDecl \<Rightarrow> unit lowering" where
  "lowerGlobal ro d =
     (let name = decl_name (var_declarator d) in
      andThen (ro (var_type d) (var_declarator d)) (\<lambda>object.
        if var_storage d = ExternStorage \<and> var_initializer d \<noteq> None
        then failing (var_range d) ''C extern variable declarations cannot have an initializer in the minimal compatibility subset''
        else step (bindObject name object) (inspect (\<lambda>l.
          let templateName = storageTemplate object (var_initializer d); len = storageLength object (pointerByteLength l) in
          andThen (lowerInitializer ro object (var_initializer d) (var_range d)) (\<lambda>init.
            if var_storage d = ExternStorage
            then step (addDeclaration (AExternVarDecl name len templateName))
              (step (addLinkage name LinkageExternal False False (Some (fieldAbi object)) [] None (var_range d)) (ret ()))
            else step (addDeclaration (AGlobalNewDecl name len templateName (initializerOp init) init))
              (step (addLinkage name (if var_storage d = StaticStorage then LinkageInternal else LinkageExternal) False True
                (Some (fieldAbi object)) [] None (var_range d)) (ret ())))))))"

text \<open>The type of a parameter: an array is passed as a pointer.\<close>

definition parameterType :: "ObjectInfo \<Rightarrow> size_t \<Rightarrow> TypeInfo" where
  "parameterType object pointerLength = (if obj_isArray object then makePointer pointerLength (obj_type object) else obj_type object)"

text \<open>The loop over the parameters goes on after a failure; \<open>valid\<close> is its flag.\<close>

fun lowerParameters :: "resolver \<Rightarrow> Parameter list \<Rightarrow> bool \<Rightarrow> (bool \<times> (Param \<times> CAbiType) list) lowering" where
  "lowerParameters ro [] valid = ret (valid, [])"
| "lowerParameters ro (p # ps) valid =
     (if param_isVoidMarker p then lowerParameters ro ps valid
      else attempt (ro (param_type p) (param_declarator p)) (\<lambda>r.
        case r of
          None \<Rightarrow> lowerParameters ro ps False
        | Some object \<Rightarrow> inspect (\<lambda>l.
            let type = parameterType object (pointerByteLength l); name = decl_name (param_declarator p) in
            step (bindObject name \<lparr>obj_type = type, obj_isArray = False, obj_arrayCount = 0\<rparr>)
              (andThen (lowerParameters ro ps valid) (\<lambda>(valid, rest).
                ret (valid, (\<lparr>par_name = name, par_length = byteLengthText (typeLength type) (pointerByteLength l),
                              par_templateName = ti_coreTemplate type, par_isMutable = False\<rparr>, ti_abi type) # rest))))))"

definition floatSignature :: "FunctionInfo \<Rightarrow> CAbiType list \<Rightarrow> bool" where
  "floatSignature info parameters \<longleftrightarrow> isFloating (fni_returnType info) \<or> list_ex (\<lambda>t. cabi_kind t = CAbiFloating) parameters"

definition returnItems :: "FunctionInfo \<Rightarrow> size_t \<Rightarrow> ReturnItem list" where
  "returnItems info pointerLength =
     (if isVoid (fni_returnType info) then []
      else [\<lparr>rit_name = [], rit_length = byteLengthText (typeLength (fni_returnType info)) pointerLength,
             rit_templateName = ti_coreTemplate (fni_returnType info)\<rparr>])"

text \<open>What is done between \<open>pushScope\<close> and \<open>popScope\<close>: the parameters, the check of the float ABI and the body.\<close>

definition lowerFunctionBody :: "resolver \<Rightarrow> FunctionDecl \<Rightarrow> FunctionInfo \<Rightarrow> ((Param \<times> CAbiType) list \<times> AstStmt list option) lowering" where
  "lowerFunctionBody ro d info =
     andThen (lowerParameters ro (fun_parameters d) True) (\<lambda>(valid, parameters). inspect (\<lambda>l.
       if \<not> opt_allowHostFloatExternAbi (low_options l) \<and> floatSignature info (map snd parameters)
       then failing (fun_range d) ''C float/double function ABI is disabled; enable host C ABI lowering before compiling this signature''
       else if \<not> valid then nullptr
       else case fun_body d of
         Some (BlockStmt ss _) \<Rightarrow> andThen (lowerBlock ro ss) (\<lambda>body. ret (parameters, Some body))
       | _ \<Rightarrow> ret (parameters, None)))"

definition lowerFunction :: "resolver \<Rightarrow> FunctionDecl \<Rightarrow> unit lowering" where
  "lowerFunction ro d = inspect (\<lambda>l.
     let name = decl_name (fun_declarator d) in
     case fmlookup (low_functions l) name of
       None \<Rightarrow> nullptr
     | Some info \<Rightarrow>
         andThen (scoped (lowerFunctionBody ro d info)) (\<lambda>(parameters, body). inspect (\<lambda>l.
           let returns = returnItems info (pointerByteLength l);
               linkage = addLinkage name (fni_linkage info) True (body \<noteq> None) None (map snd parameters) (Some (ti_abi (fni_returnType info))) (fun_range d) in
           case body of
             None \<Rightarrow> step (addDeclaration (AExternFunctionDecl name (map fst parameters) returns [])) (step linkage (ret ()))
           | Some body \<Rightarrow>
               step (addDeclaration (AFunctionDecl \<lparr>afd_name = name, afd_params = map fst parameters, afd_returns = returns,
                 afd_body = body, afd_abiName = []\<rparr>)) (step linkage (ret ())))))"

definition lowerTopLevel :: "resolver \<Rightarrow> Decl \<Rightarrow> unit lowering" where
  "lowerTopLevel ro d =
     (case d of
        StructDecl name fs rg \<Rightarrow> lowerStruct ro name rg
      | TypedefDecl type declarator rg \<Rightarrow> ret ()
      | VarDeclaration v \<Rightarrow> lowerGlobal ro v
      | FunctionDeclaration f \<Rightarrow> inspect (\<lambda>l.
          case fmlookup (low_functions l) (decl_name (fun_declarator f)) of
            Some info \<Rightarrow> if \<not> isDefinition f \<and> fni_isDefinition info then ret () else lowerFunction ro f
          | None \<Rightarrow> lowerFunction ro f))"

section \<open>Collecting declarations\<close>

definition newStruct :: "string \<Rightarrow> FieldDecl list \<Rightarrow> SourceRange \<Rightarrow> StructInfo" where
  "newStruct name fs rg = \<lparr>si_name = name, si_declared = fs, si_range = rg, si_resolving = False, si_resolved = False,
     si_byteLength = 0, si_alignment = 1, si_fields = [], si_abi = mkAbi CAbiInteger 0 False [] 1\<rparr>"

definition newAlias :: "nat \<Rightarrow> CType \<Rightarrow> Declarator \<Rightarrow> AliasInfo" where
  "newAlias position type declarator = \<lparr>al_position = position, al_type = type, al_declarator = declarator, al_resolving = False,
     al_resolved = False, al_object = None\<rparr>"

text \<open>The first pass registers structures and typedefs; \<open>i\<close> is the position of the declaration.\<close>

definition collectName :: "nat \<Rightarrow> Decl \<Rightarrow> Lowerer \<Rightarrow> Lowerer" where
  "collectName i d l =
     (case d of
        StructDecl name fs rg \<Rightarrow>
          (case fmlookup (low_structs l) name of
             Some _ \<Rightarrow> lowerError rg (''duplicate C struct declaration '' @ quoted name) l
           | None \<Rightarrow> l\<lparr>low_structs := fmupd name (newStruct name fs rg) (low_structs l)\<rparr>)
      | TypedefDecl type declarator rg \<Rightarrow>
          (case fmlookup (low_aliases l) (decl_name declarator) of
             Some _ \<Rightarrow> lowerError rg (''duplicate C typedef '' @ quoted (decl_name declarator)) l
           | None \<Rightarrow> l\<lparr>low_aliases := fmupd (decl_name declarator) (newAlias i type declarator) (low_aliases l)\<rparr>)
      | _ \<Rightarrow> l)"

fun collectNames :: "nat \<Rightarrow> Decl list \<Rightarrow> Lowerer \<Rightarrow> Lowerer" where
  "collectNames i [] l = l"
| "collectNames i (d # ds) l = collectNames (Suc i) ds (collectName i d l)"

text \<open>A loop goes on whether or not its body succeeds.\<close>

definition regardless :: "'a lowering \<Rightarrow> unit lowering \<Rightarrow> unit lowering" where
  "regardless m rest = attempt m (\<lambda>_. rest)"

fun resolveTypedefs :: "resolver \<Rightarrow> nat \<Rightarrow> Decl list \<Rightarrow> unit lowering" where
  "resolveTypedefs ro i [] = ret ()"
| "resolveTypedefs ro i (TypedefDecl type declarator rg # ds) = inspect (\<lambda>l.
     case fmlookup (low_aliases l) (decl_name declarator) of
       Some a \<Rightarrow> if al_position a = i then regardless (resolveAliasObject ro (decl_name declarator) rg) (resolveTypedefs ro (Suc i) ds)
                 else resolveTypedefs ro (Suc i) ds
     | None \<Rightarrow> resolveTypedefs ro (Suc i) ds)"
| "resolveTypedefs ro i (d # ds) = resolveTypedefs ro (Suc i) ds"

fun signatureParameters :: "resolver \<Rightarrow> Parameter list \<Rightarrow> bool \<Rightarrow> (bool \<times> TypeInfo list) lowering" where
  "signatureParameters ro [] valid = ret (valid, [])"
| "signatureParameters ro (p # ps) valid =
     (if param_isVoidMarker p then signatureParameters ro ps valid
      else attempt (ro (param_type p) (param_declarator p)) (\<lambda>r.
        case r of
          None \<Rightarrow> signatureParameters ro ps False
        | Some object \<Rightarrow> inspect (\<lambda>l.
            andThen (signatureParameters ro ps valid) (\<lambda>(valid, rest).
              ret (valid, parameterType object (pointerByteLength l) # rest)))))"

definition sameFunctionSignature :: "FunctionInfo \<Rightarrow> FunctionInfo \<Rightarrow> bool" where
  "sameFunctionSignature left right \<longleftrightarrow> sameType (fni_returnType left) (fni_returnType right) \<and>
     list_all2 sameType (fni_parameters left) (fni_parameters right)"

definition declaredLinkage :: "FunctionDecl \<Rightarrow> Linkage" where
  "declaredLinkage f = (if fun_storage f = StaticStorage then LinkageInternal else LinkageExternal)"

definition registerFunction :: "FunctionDecl \<Rightarrow> FunctionInfo \<Rightarrow> unit lowering" where
  "registerFunction f info = inspect (\<lambda>l.
     let name = decl_name (fun_declarator f) in
     case fmlookup (low_functions l) name of
       None \<Rightarrow> step (\<lambda>l. l\<lparr>low_functions := fmupd name info (low_functions l)\<rparr>) (ret ())
     | Some known \<Rightarrow>
         if \<not> sameFunctionSignature known info
         then failing (fun_range f) (''conflicting C function declaration '' @ quoted name)
         else if fni_linkage known = LinkageExternal \<and> fni_linkage info = LinkageInternal
         then failing (fun_range f) (''C static function declaration '' @ quoted name @ '' follows a non-static declaration'')
         else if fni_isDefinition known \<and> isDefinition f
         then failing (fun_range f) (''duplicate C function definition '' @ quoted name)
         else if isDefinition f
         then step (\<lambda>l. l\<lparr>low_functions := fmupd name (known\<lparr>fni_isDefinition := True\<rparr>) (low_functions l)\<rparr>) (ret ())
         else ret ())"

definition collectFunction :: "resolver \<Rightarrow> FunctionDecl \<Rightarrow> unit lowering" where
  "collectFunction ro f =
     andThen (resolveType ro (fun_returnType f) (decl_pointerDepth (fun_declarator f))) (\<lambda>returnType.
       andThen (completed ro returnType (ctype_range (fun_returnType f))) (\<lambda>returnType.
         andThen (signatureParameters ro (fun_parameters f) True) (\<lambda>(valid, parameters).
           if \<not> valid then nullptr
           else registerFunction f \<lparr>fni_returnType = returnType, fni_parameters = parameters, fni_linkage = declaredLinkage f,
             fni_isDefinition = isDefinition f\<rparr>)))"

fun collectFunctions :: "resolver \<Rightarrow> Decl list \<Rightarrow> unit lowering" where
  "collectFunctions ro [] = ret ()"
| "collectFunctions ro (FunctionDeclaration f # ds) = regardless (collectFunction ro f) (collectFunctions ro ds)"
| "collectFunctions ro (d # ds) = collectFunctions ro ds"

definition checkStaticPrototype :: "FunctionDecl \<Rightarrow> Lowerer \<Rightarrow> Lowerer" where
  "checkStaticPrototype f l =
     (let name = decl_name (fun_declarator f) in
      if isDefinition f \<or> fun_storage f \<noteq> StaticStorage then l
      else if (case fmlookup (low_functions l) name of
          None \<Rightarrow> True | Some info \<Rightarrow> \<not> fni_isDefinition info \<or> fni_linkage info \<noteq> LinkageInternal)
      then lowerError (fun_range f) (''C static function declaration '' @ quoted name @ '' requires a definition in the same translation unit'') l
      else l)"

fun checkStaticPrototypes :: "Decl list \<Rightarrow> Lowerer \<Rightarrow> Lowerer" where
  "checkStaticPrototypes [] l = l"
| "checkStaticPrototypes (FunctionDeclaration f # ds) l = checkStaticPrototypes ds (checkStaticPrototype f l)"
| "checkStaticPrototypes (d # ds) l = checkStaticPrototypes ds l"

definition collectDeclarations :: "resolver \<Rightarrow> Decl list \<Rightarrow> unit lowering" where
  "collectDeclarations ro ds =
     step (collectNames 0 ds) (andThen (resolveTypedefs ro 0 ds) (\<lambda>_. andThen (collectFunctions ro ds) (\<lambda>_.
       step (checkStaticPrototypes ds) (ret ()))))"

section \<open>The lowering of a unit\<close>

fun lowerTopLevels :: "resolver \<Rightarrow> Decl list \<Rightarrow> unit lowering" where
  "lowerTopLevels ro [] = ret ()"
| "lowerTopLevels ro (d # ds) = regardless (lowerTopLevel ro d) (lowerTopLevels ro ds)"

definition newLowerer :: "LoweringOptions \<Rightarrow> Lowerer" where
  "newLowerer options = \<lparr>low_options = options, low_aliases = fmempty, low_structs = fmempty, low_functions = fmempty, low_scopes = [],
     low_declarations = [], low_linkage = [], low_diagnostics = []\<rparr>"

record LoweringResult =
  lr_unit :: AstUnit
  lr_linkage :: "LinkageMetadata list"
  lr_diagnostics :: "Diagnostic list"

definition lowerUnit :: "Decl list \<Rightarrow> unit lowering" where
  "lowerUnit ds =
     (let ro = resolver (Suc (length ds)) in
      andThen (collectDeclarations ro ds) (\<lambda>_. scoped (lowerTopLevels ro ds)))"

definition lowerCCompatToCore :: "Decl list \<Rightarrow> LoweringOptions \<Rightarrow> LoweringResult option" where
  "lowerCCompatToCore ds options =
     map_option (\<lambda>(l, _). \<lparr>lr_unit = mkUnit (low_declarations l), lr_linkage = low_linkage l, lr_diagnostics = low_diagnostics l\<rparr>)
       (lowerUnit ds (newLowerer options))"

definition loweringOk :: "LoweringResult \<Rightarrow> bool" where
  "loweringOk r \<longleftrightarrow> lr_diagnostics r = []"

section \<open>What the statements become\<close>

text \<open>
  A lowered statement mirrors its C statement: it is of the same kind, with the same labels, declared names and
  initialisers, and every statement of a block has one in the lowered block, in the same order.
\<close>

inductive mirrors :: "Stmt \<Rightarrow> AstStmt \<Rightarrow> bool" and mirrorsBranch :: "Stmt \<Rightarrow> AstStmt list \<Rightarrow> bool" where
  "mirrors (EmptyStmt rg) AEmpty"
| "item_name item = decl_name (var_declarator d) \<Longrightarrow> item_initializer item = None \<longleftrightarrow> var_initializer d = None \<Longrightarrow>
     mirrors (DeclStmt d rg) (AVarDecl (if var_storage d = StaticStorage then ''static'' else ''new'') [item])"
| "mirrors (ExprStmt e rg) (AExprStmt x)"
| "mirrors (ExprStmt e rg) (AAssign target op x)"
| "mirrors (ReturnStmt None rg) (AReturn [])"
| "mirrors (ReturnStmt (Some e) rg) (AReturn [x])"
| "mirrorsBranch t xs \<Longrightarrow> mirrors (IfStmt c t None rg) (AIf x xs None)"
| "mirrorsBranch t xs \<Longrightarrow> mirrorsBranch e ys \<Longrightarrow> mirrors (IfStmt c t (Some e) rg) (AIf x xs (Some ys))"
| "mirrorsBranch b xs \<Longrightarrow> mirrors (WhileStmt c b rg) (AWhile x xs)"
| "mirrorsBranch b xs \<Longrightarrow> rel_option mirrors i y \<Longrightarrow> length post = (if p = None then 0 else 1) \<Longrightarrow>
     mirrors (ForStmt i c p b rg) (AFor y x post xs)"
| "mirrors (BreakStmt rg) ABreak"
| "mirrors (ContinueStmt rg) AContinue"
| "mirrors (GotoStmt label rg) (AGoto label)"
| "mirrors s x \<Longrightarrow> mirrors (LabelStmt label s rg) (ALabel label x)"
| "list_all2 mirrors ss xs \<Longrightarrow> mirrorsBranch (BlockStmt ss rg) xs"
| "mirrors s x \<Longrightarrow> mirrorsBranch s [x]"
monos option.rel_mono

end
