(* ===== verification/CCompat_LowerSound.thy ===== *)
theory CCompat_LowerSound
  imports CCompat_Lower CCompat_Resolve
begin

text \<open>
  The lowering never gives up in silence: an operation that returns no node has reported a diagnostic.  The proof
  goes operation by operation over the contract of the resolver, first for expressions, which leave the scopes as
  they are, then for statements and declarations.
\<close>

section \<open>Operations that report\<close>

text \<open>
  What an operation may change of the state is a relation \<open>R\<close>: it contains what the resolver changes, and never
  withdraws a diagnostic or a mark.  Every operation that is built from the rules below reports when it gives up.
\<close>

locale lowering_frame = object_resolver +
  fixes R :: "Lowerer \<Rightarrow> Lowerer \<Rightarrow> bool" and I :: "Lowerer \<Rightarrow> bool"
  assumes R_kept: "kept l q \<Longrightarrow> R l q"
    and R_trans: "R l q \<Longrightarrow> R q r \<Longrightarrow> R l r"
    and R_pending: "R l q \<Longrightarrow> pending q = pending l"
    and R_diagnostics: "R l q \<Longrightarrow> length (low_diagnostics l) \<le> length (low_diagnostics q)"
    and R_invariant: "R l q \<Longrightarrow> I l \<Longrightarrow> I q"
begin

definition ready :: "Lowerer \<Rightarrow> bool" where
  "ready l \<longleftrightarrow> settled l \<and> pending l < n \<and> I l"

definition finished :: "Lowerer \<Rightarrow> Lowerer \<Rightarrow> 'a option \<Rightarrow> bool" where
  "finished l q r \<longleftrightarrow> R l q \<and> settled q \<and> (r = None \<longrightarrow> length (low_diagnostics l) < length (low_diagnostics q))"

definition reports :: "'a lowering \<Rightarrow> bool" where
  "reports m \<longleftrightarrow> (\<forall>l. ready l \<longrightarrow> wp m (finished l) l)"

lemma R_refl: "R l l"
  by (rule R_kept) (rule keptBut_refl)

lemma reportsI: "(\<And>l. ready l \<Longrightarrow> wp m (finished l) l) \<Longrightarrow> reports m"
  by (simp add: reports_def)

lemma reportsD: "reports m \<Longrightarrow> ready l \<Longrightarrow> wp m (finished l) l"
  by (simp add: reports_def)

lemma ready_after: "ready l \<Longrightarrow> R l q \<Longrightarrow> settled q \<Longrightarrow> ready q"
  using R_pending R_invariant by (simp add: ready_def)

lemma finished_trans: "R l q \<Longrightarrow> finished q s r \<Longrightarrow> finished l s r"
  using R_trans R_diagnostics by (fastforce simp: finished_def)

lemma reports_outcome:
  assumes "\<And>l. settled l \<Longrightarrow> pending l < n \<Longrightarrow> wp m (outcome P l) l"
  shows "reports m"
proof (rule reportsI)
  fix l assume "ready l"
  then have "wp m (outcome P l) l" using assms by (simp add: ready_def)
  then show "wp m (finished l) l" by (rule wp_mono) (auto simp: outcome_def finished_def R_kept)
qed

lemma reports_ret: "reports (ret x)"
  by (rule reportsI) (simp add: finished_def ready_def R_refl)

lemma reports_failing: "reports (failing rg msg)"
  by (rule reports_outcome) (rule wp_failing)

lemma reports_inspect: "(\<And>l. reports (f l)) \<Longrightarrow> reports (inspect f)"
  by (simp add: reports_def)

lemma reports_if: "(c \<Longrightarrow> reports m) \<Longrightarrow> (\<not> c \<Longrightarrow> reports k) \<Longrightarrow> reports (if c then m else k)"
  by simp

lemma reports_option: "reports m \<Longrightarrow> (\<And>x. reports (f x)) \<Longrightarrow> reports (case r of None \<Rightarrow> m | Some x \<Rightarrow> f x)"
  by (cases r) simp_all

lemma reports_step: "(\<And>l. ready l \<Longrightarrow> R l (g l) \<and> settled (g l)) \<Longrightarrow> reports m \<Longrightarrow> reports (step g m)"
proof (rule reportsI)
  fix l assume g: "\<And>l. ready l \<Longrightarrow> R l (g l) \<and> settled (g l)" and m: "reports m" and l: "ready l"
  have "ready (g l)" using g [OF l] ready_after [OF l] by blast
  then have "wp m (finished (g l)) (g l)" by (rule reportsD [OF m])
  then show "wp (step g m) (finished l) l" using g [OF l] by (auto elim!: wp_mono intro: finished_trans)
qed

text \<open>An operation whose continuation gives up in silence only when it did itself.\<close>

definition silent :: "'a lowering \<Rightarrow> bool" where
  "silent m \<longleftrightarrow> (\<forall>l. ready l \<longrightarrow> wp m (\<lambda>q r. R l q \<and> settled q) l)"

lemma reports_silent: "reports m \<Longrightarrow> silent m"
  unfolding reports_def silent_def by (blast intro: wp_mono [where Q = "finished _"] dest: finished_def [THEN iffD1])

lemma silent_nullptr: "silent nullptr"
  by (simp add: silent_def ready_def R_refl)

lemma reports_attempt:
  assumes "reports m" and "\<And>x. reports (f (Some x))" and "silent (f None)"
  shows "reports (attempt m f)"
proof (rule reportsI)
  fix l assume l: "ready l"
  show "wp (attempt m f) (finished l) l" unfolding wp_attempt
  proof (rule wp_mono [OF reportsD [OF assms(1) l]], goal_cases)
    case o: (1 q r)
    then have q: "R l q" "ready q" using ready_after [OF l] by (auto simp: finished_def)
    show ?case
    proof (cases r)
      case None
      have "wp (f None) (\<lambda>s r. R q s \<and> settled s) q" using assms(3) q(2) by (simp add: silent_def)
      then show ?thesis unfolding None
        by (rule wp_mono) (use o None R_trans [OF q(1)] R_diagnostics in \<open>fastforce simp: finished_def\<close>)
    next
      case (Some x)
      show ?thesis unfolding Some by (rule wp_mono [OF reportsD [OF assms(2) q(2)]]) (rule finished_trans [OF q(1)])
    qed
  qed
qed

lemma silent_attempt:
  assumes "silent m" and "\<And>r. silent (f r)"
  shows "silent (attempt m f)"
  unfolding silent_def wp_attempt
proof (intro allI impI)
  fix l assume l: "ready l"
  have "wp m (\<lambda>q r. R l q \<and> settled q) l" using assms(1) l by (simp add: silent_def)
  then show "wp m (\<lambda>q r. wp (f r) (\<lambda>s r. R l s \<and> settled s) q) l"
  proof (rule wp_mono, goal_cases)
    case (1 q r)
    then have "wp (f r) (\<lambda>s r. R q s \<and> settled s) q" using assms(2) ready_after [OF l] by (simp add: silent_def)
    then show ?case by (rule wp_mono) (use 1 R_trans in blast)
  qed
qed

lemma reports_andThen: "reports m \<Longrightarrow> (\<And>x. reports (f x)) \<Longrightarrow> reports (andThen m f)"
proof -
  assume m: "reports m" and f: "\<And>x. reports (f x)"
  have "andThen m f = attempt m (\<lambda>r. case r of None \<Rightarrow> nullptr | Some x \<Rightarrow> f x)"
    by (auto simp: andThen_def attempt_def nullptr_def fun_eq_iff split: option.splits)
  then show ?thesis using reports_attempt [OF m, of "\<lambda>r. case r of None \<Rightarrow> nullptr | Some x \<Rightarrow> f x"] f silent_nullptr by simp
qed

text \<open>Two or three operands are lowered before the first is looked at.\<close>

lemma reports_both:
  assumes "reports m" and "reports k" and "\<And>x y. reports (f x y)"
  shows "reports (attempt m (\<lambda>a. attempt k (\<lambda>b. case (a, b) of (Some x, Some y) \<Rightarrow> f x y | _ \<Rightarrow> nullptr)))"
  by (intro reports_attempt silent_attempt) (simp_all add: assms reports_silent silent_nullptr)

lemma reports_three:
  assumes "reports m" and "reports k" and "reports j" and "\<And>x y z. reports (f x y z)"
  shows "reports (attempt m (\<lambda>a. attempt k (\<lambda>b. attempt j (\<lambda>c. case (a, b, c) of (Some x, Some y, Some z) \<Rightarrow> f x y z | _ \<Rightarrow> nullptr))))"
  by (intro reports_attempt silent_attempt) (simp_all add: assms reports_silent silent_nullptr split: option.split)

lemmas reports_rules = reports_ret reports_failing reports_inspect reports_if reports_option reports_andThen reports_both reports_three

text \<open>The resolver.\<close>

lemma reports_ro: "reports (ro type declarator)"
  by (rule reports_outcome) (rule ro_sound)

lemma reports_resolveType: "reports (resolveType ro type depth)"
  by (rule reports_outcome, rule resolveType_sound) simp_all

lemma reports_resolveStruct: "reports (resolveStruct ro name rg)"
proof (rule reports_outcome [of _ "\<lambda>_. True"])
  fix l assume "settled l" "pending l < n"
  then show "wp (resolveStruct ro name rg) (outcome (\<lambda>_. True) l) l"
    by (intro wp_mono [OF resolveStruct_sound]) (auto simp: outcome_def split: option.splits)
qed

lemma reports_resolveAliasObject: "reports (resolveAliasObject ro name rg)"
  by (rule reports_outcome, rule resolveAliasObject_sound) simp_all

lemma reports_ensureStructComplete: "reports (ensureStructComplete ro type rg)"
proof (cases "isAggregate type")
  case True
  then have "typeOk type" "\<not> isVoid type" by (auto simp: typeOk_def isVoid_def isAggregate_def)
  then show ?thesis by (intro reports_outcome [OF ensureStructComplete_sound]) simp_all
qed (simp add: ensureStructComplete_def reports_ret)

lemma reports_completed: "reports (completed ro type rg)"
  by (simp add: completed_def reports_ensureStructComplete reports_ret)

lemmas reports_resolver = reports_ro reports_resolveType reports_resolveStruct reports_resolveAliasObject
  reports_ensureStructComplete reports_completed

lemma reports_decayArray: "reports (decayArray x)"
  unfolding decayArray_def Let_def by (intro reports_rules)

lemma reports_pointer:
  "(\<And>x. reports (f x)) \<Longrightarrow> reports m \<Longrightarrow> reports (case (b, p) of (True, Some x) \<Rightarrow> f x | _ \<Rightarrow> m)"
  by (cases b; cases p) simp_all

lemma reports_pair: "(\<And>x y. reports (f x y)) \<Longrightarrow> reports (case p of (x, y) \<Rightarrow> f x y)"
  by (cases p) simp

lemma reports_some_both:
  "(\<And>x y. reports (f x y)) \<Longrightarrow> reports m \<Longrightarrow> reports (case (a, b) of (Some x, Some y) \<Rightarrow> f x y | _ \<Rightarrow> m)"
  by (cases a; cases b) simp_all

lemma reports_identifier: "(\<And>v. reports (f v)) \<Longrightarrow> reports m \<Longrightarrow> reports (case e of AIdentifier v \<Rightarrow> f v | _ \<Rightarrow> m)"
  by (cases e) simp_all

lemmas reports_cases = reports_pointer reports_some_both reports_identifier

lemma reports_lowerDereference: "reports m \<Longrightarrow> reports (lowerDereference ro m rg)"
  unfolding lowerDereference_def by (intro reports_rules reports_cases reports_resolver reports_decayArray)

lemma reports_lowerAddressOf: "reports m \<Longrightarrow> reports (lowerAddressOf m rg)"
  unfolding lowerAddressOf_def by (intro reports_rules)

lemma reports_lowerUnary: "reports m \<Longrightarrow> reports k \<Longrightarrow> reports (lowerUnary ro op m k rg)"
  unfolding lowerUnary_def Let_def
  by (intro reports_rules reports_decayArray reports_lowerDereference reports_lowerAddressOf)

lemma reports_lowerIndex: "reports m \<Longrightarrow> reports k \<Longrightarrow> reports (lowerIndex ro m br k ir rg)"
  unfolding lowerIndex_def lowerArrayIndex_def lowerPointerIndex_def Let_def
  by (intro reports_rules reports_cases reports_resolver reports_decayArray)

lemma reports_structureOf: "reports (structureOf ro base throughPointer rg)"
  unfolding structureOf_def by (intro reports_rules reports_cases reports_resolver reports_decayArray)

lemma reports_lowerMember: "reports m \<Longrightarrow> reports (lowerMember ro m member throughPointer requireLvalue rg)"
  unfolding lowerMember_def Let_def
  by (intro reports_rules reports_pair reports_cases reports_resolver reports_structureOf)

lemma reports_shiftCountChecked: "reports (shiftCountChecked e t u rg)"
  unfolding shiftCountChecked_def Let_def by (intro reports_rules)

lemma reports_lowerBinary: "reports m \<Longrightarrow> reports k \<Longrightarrow> reports (lowerBinary ro op m k rr rg)"
  unfolding lowerBinary_def lowerPointerBinary_def lowerPointerDifference_def lowerPointerOffset_def lowerFloatBinary_def
    lowerIntegerBinary_def Let_def
  by (intro reports_rules reports_cases reports_resolver reports_decayArray reports_shiftCountChecked)

lemma reports_lowerAssignment: "reports m \<Longrightarrow> reports k \<Longrightarrow> reports (lowerAssignment op m tr k vr rg)"
  unfolding lowerAssignment_def assignmentOperator_def Let_def
  by (intro reports_rules reports_decayArray reports_shiftCountChecked)

lemma reports_lowerCast: "reports m \<Longrightarrow> reports (lowerCast ro type depth m rg)"
  unfolding lowerCast_def Let_def by (intro reports_rules reports_resolver reports_decayArray)

lemma reports_lowerConditional: "reports m \<Longrightarrow> reports k \<Longrightarrow> reports j \<Longrightarrow> reports (lowerConditional m k j rg)"
  unfolding lowerConditional_def by (intro reports_rules reports_decayArray)

lemma reports_primary:
  "reports (lowerIdentifier name rg)" "reports (lowerIntegerLiteral v rg)" "reports (lowerSizeof ro type name rg)"
  unfolding lowerIdentifier_def lowerIntegerLiteral_def lowerSizeof_def Let_def by (intro reports_rules reports_resolver)+

lemma reports_lowerCall: "reports m \<Longrightarrow> reports (lowerCall callee count m rg)"
  unfolding lowerCall_def by (intro reports_rules)

lemmas reports_operations = reports_lowerUnary reports_lowerIndex reports_lowerMember reports_lowerBinary reports_lowerAssignment
  reports_lowerCast reports_lowerConditional reports_primary reports_lowerCall

lemma reports_recursion:
  "r = ro \<Longrightarrow> reports (lowerExpr r e)" "r' = ro \<Longrightarrow> reports (lowerLvalue r' e')" "r'' = ro \<Longrightarrow> reports (lowerArguments r'' es)"
  by (induction r e and r' e' and r'' es rule: lowerExpr_lowerLvalue_lowerArguments.induct)
    (simp_all add: reports_rules reports_operations reports_decayArray)

lemmas reports_lowerExpr = reports_recursion [OF refl]

end

section \<open>Statements\<close>

lemma settled_scopes: "settled (l\<lparr>low_scopes := s\<rparr>) \<longleftrightarrow> settled l" "pending (l\<lparr>low_scopes := s\<rparr>) = pending l"
  by (simp_all add: settled_def pointerByteLength_def pending_def openAliases_def openStructs_def)

locale scope_frame = lowering_frame +
  assumes R_bind: "I l \<Longrightarrow> R l (bindObject name object l)"
    and R_scope: "R (pushScope l) q \<Longrightarrow> R l (popScope q)"
    and I_push: "I l \<Longrightarrow> I (pushScope l)"
begin

lemma reports_bind: "reports m \<Longrightarrow> reports (step (bindObject name object) m)"
proof (rule reports_step)
  fix l assume "ready l"
  then show "R l (bindObject name object l) \<and> settled (bindObject name object l)"
    using R_bind by (auto simp: ready_def bindObject_def settled_scopes split: list.splits)
qed

lemma reports_scoped:
  assumes "reports m"
  shows "reports (scoped m)"
proof (rule reportsI)
  fix l assume l: "ready l"
  then have "ready (pushScope l)" using I_push by (simp add: ready_def pushScope_def settled_scopes)
  then have "wp m (finished (pushScope l)) (pushScope l)" by (rule reportsD [OF assms])
  then show "wp (scoped m) (finished l) l" unfolding scoped_def wp_actions wp_attempt
  proof (rule wp_mono, goal_cases)
    case (1 q r)
    then have "finished l (popScope q) r" using R_scope [of l q]
      by (simp add: finished_def settled_scopes popScope_def pushScope_def)
    then show ?case by (cases r) simp_all
  qed
qed

lemma reports_lowerInitializer: "reports (lowerInitializer ro object init rg)"
  unfolding lowerInitializer_def by (intro reports_rules reports_decayArray reports_lowerExpr)

lemma reports_lowerLocalDeclaration: "reports (lowerLocalDeclaration ro d)"
  unfolding lowerLocalDeclaration_def Let_def
  by (intro reports_rules reports_resolver reports_bind reports_lowerInitializer)

lemma reports_lowerCondition: "reports m \<Longrightarrow> reports (lowerCondition m)"
  unfolding lowerCondition_def by (intro reports_rules reports_decayArray)

lemma reports_lowerExprStmt: "reports m \<Longrightarrow> reports (lowerExprStmt m)"
  unfolding lowerExprStmt_def by (intro reports_andThen) (simp_all add: reports_ret split: AstExpr.split)

lemma reports_lowerIf:
  "reports m \<Longrightarrow> reports k \<Longrightarrow> (\<And>j. e = Some j \<Longrightarrow> reports j) \<Longrightarrow> reports (lowerIf m k e)"
  unfolding lowerIf_def
  by (intro reports_three reports_andThen reports_decayArray reports_ret)
    (auto intro!: reports_ret reports_andThen split: option.split)

lemma reports_lowerWhile: "reports m \<Longrightarrow> reports k \<Longrightarrow> reports (lowerWhile m k)"
  unfolding lowerWhile_def by (intro reports_rules reports_decayArray)

lemma reports_lowerFor:
  assumes "\<And>m. i = Some m \<Longrightarrow> reports m" and "\<And>m. c = Some m \<Longrightarrow> reports m" and "\<And>m. p = Some m \<Longrightarrow> reports m" and "reports b"
  shows "reports (lowerFor i c p b)"
  unfolding lowerFor_def using assms
  by (intro reports_andThen reports_ret) (auto simp: reports_ret intro!: reports_andThen reports_lowerCondition split: option.split)

lemma reports_asCoreBlock: "reports m \<Longrightarrow> reports (asCoreBlock m)"
  unfolding asCoreBlock_def by (intro reports_rules)

lemma reports_statements:
  "r = ro \<Longrightarrow> reports (lowerStmt r s)" "r' = ro \<Longrightarrow> reports (lowerStmts r' ss)" "r'' = ro \<Longrightarrow> reports (lowerBranch r'' s')"
proof (induction r s and r' ss and r'' s' rule: lowerStmt_lowerStmts_lowerBranch.induct)
  case (6 ro c t e rg)
  then show ?case by (auto intro!: reports_lowerIf reports_lowerExpr split: option.splits)
next
  case (8 ro i c p b rg)
  then show ?case by (auto intro!: reports_lowerFor reports_lowerExpr split: option.splits)
next
  case (15 ro s ss)
  then show ?case by (auto intro!: reports_attempt reports_andThen reports_ret reports_silent)
qed (auto intro!: reports_rules reports_lowerLocalDeclaration reports_lowerExprStmt reports_lowerCondition reports_lowerExpr
    reports_lowerWhile reports_scoped reports_asCoreBlock)

lemmas reports_lowerStmt = reports_statements [OF refl]

lemma reports_lowerBlock: "reports (lowerBlock ro ss)"
  unfolding lowerBlock_def by (intro reports_scoped reports_lowerStmt)

end

section \<open>Results\<close>

context scope_frame
begin

text \<open>An operation whose result satisfies \<open>P\<close> when nothing has been reported.\<close>

definition yields :: "('a \<Rightarrow> bool) \<Rightarrow> 'a lowering \<Rightarrow> bool" where
  "yields P m \<longleftrightarrow> (\<forall>l. ready l \<longrightarrow> wp m (\<lambda>q r. finished l q r \<and> (\<forall>x. r = Some x \<longrightarrow> low_diagnostics q = [] \<longrightarrow> P x)) l)"

lemma yields_reports: "yields P m \<Longrightarrow> reports m"
  unfolding yields_def reports_def by (blast intro: wp_mono)

lemma reports_yields: "reports m \<Longrightarrow> (\<And>x. P x) \<Longrightarrow> yields P m"
  unfolding yields_def reports_def by (blast intro: wp_mono)

lemma yields_mono: "yields P m \<Longrightarrow> (\<And>x. P x \<Longrightarrow> Q x) \<Longrightarrow> yields Q m"
  unfolding yields_def by (blast intro: wp_mono)

lemma yields_ret: "P x \<Longrightarrow> yields P (ret x)"
  unfolding yields_def using reports_ret [of x] by (simp add: reports_def)

lemma yields_failing: "yields P (failing rg msg)"
  unfolding yields_def using reports_failing [of rg msg] by (simp add: reports_def failing_def)

lemma yields_attempt:
  assumes "yields P m" and "\<And>x. P x \<Longrightarrow> yields Q (f (Some x))" and "\<And>x. reports (f (Some x))" and "silent (f None)"
  shows "yields Q (attempt m f)"
  unfolding yields_def
proof (intro allI impI)
  fix l assume l: "ready l"
  show "wp (attempt m f) (\<lambda>q r. finished l q r \<and> (\<forall>x. r = Some x \<longrightarrow> low_diagnostics q = [] \<longrightarrow> Q x)) l" unfolding wp_attempt
  proof (rule wp_mono [OF assms(1) [unfolded yields_def, rule_format, OF l]], goal_cases)
    case o: (1 q r)
    then have q: "R l q" "ready q" using ready_after [OF l] by (auto simp: finished_def)
    show ?case
    proof (cases r)
      case None
      have "wp (f None) (\<lambda>s r. R q s \<and> settled s) q" using assms(4) q(2) by (simp add: silent_def)
      then show ?thesis unfolding None
        by (rule wp_mono) (use o None R_trans [OF q(1)] R_diagnostics in \<open>fastforce simp: finished_def\<close>)
    next
      case (Some x)
      show ?thesis
      proof (cases "P x")
        case True
        have "wp (f (Some x)) (\<lambda>s r. finished q s r \<and> (\<forall>x. r = Some x \<longrightarrow> low_diagnostics s = [] \<longrightarrow> Q x)) q"
          using assms(2) [OF True] q(2) by (simp add: yields_def)
        then show ?thesis unfolding Some by (rule wp_mono) (use finished_trans [OF q(1)] in blast)
      next
        case False
        then have "low_diagnostics q \<noteq> []" using o Some by auto
        have "wp (f (Some x)) (finished q) q" using assms(3) q(2) by (simp add: reports_def)
        then show ?thesis unfolding Some
        proof (rule wp_mono, goal_cases)
          case (1 s r)
          then have "low_diagnostics s \<noteq> []" using \<open>low_diagnostics q \<noteq> []\<close> R_diagnostics [of q s] by (auto simp: finished_def)
          then show ?case using finished_trans [OF q(1) 1] by simp
        qed
      qed
    qed
  qed
qed

lemma yields_andThen:
  assumes "yields P m" and "\<And>x. P x \<Longrightarrow> yields Q (f x)" and "\<And>x. reports (f x)"
  shows "yields Q (andThen m f)"
proof -
  have "andThen m f = attempt m (\<lambda>r. case r of None \<Rightarrow> nullptr | Some x \<Rightarrow> f x)"
    by (auto simp: andThen_def attempt_def nullptr_def fun_eq_iff split: option.splits)
  then show ?thesis using yields_attempt [OF assms(1), of Q "\<lambda>r. case r of None \<Rightarrow> nullptr | Some x \<Rightarrow> f x"] assms(2,3) silent_nullptr by simp
qed

lemma yields_scoped:
  assumes "yields P m"
  shows "yields P (scoped m)"
  unfolding yields_def
proof (intro allI impI)
  fix l assume l: "ready l"
  then have "ready (pushScope l)" using I_push by (simp add: ready_def pushScope_def settled_scopes)
  then have "wp m (\<lambda>q r. finished (pushScope l) q r \<and> (\<forall>x. r = Some x \<longrightarrow> low_diagnostics q = [] \<longrightarrow> P x)) (pushScope l)"
    using assms by (simp add: yields_def)
  then show "wp (scoped m) (\<lambda>q r. finished l q r \<and> (\<forall>x. r = Some x \<longrightarrow> low_diagnostics q = [] \<longrightarrow> P x)) l"
    unfolding scoped_def wp_actions wp_attempt
  proof (rule wp_mono, goal_cases)
    case (1 q r)
    then have "finished l (popScope q) r" using R_scope [of l q]
      by (simp add: finished_def settled_scopes popScope_def pushScope_def)
    then show ?case using 1 by (cases r) (simp_all add: popScope_def)
  qed
qed

lemma yields_both:
  assumes "yields P m" and "yields Q k" and "\<And>x y. P x \<Longrightarrow> Q y \<Longrightarrow> yields S (f x y)" and "\<And>x y. reports (f x y)"
  shows "yields S (attempt m (\<lambda>a. attempt k (\<lambda>b. case (a, b) of (Some x, Some y) \<Rightarrow> f x y | _ \<Rightarrow> nullptr)))"
proof (rule yields_attempt [OF assms(1)])
  show "yields S (attempt k (\<lambda>b. case (Some x, b) of (Some x, Some y) \<Rightarrow> f x y | _ \<Rightarrow> nullptr))" if "P x" for x
    by (rule yields_attempt [OF assms(2)]) (simp_all add: assms(3,4) that silent_nullptr)
qed (intro reports_attempt silent_attempt; simp add: assms(4) yields_reports [OF assms(2)] reports_silent silent_nullptr)+

lemma yields_three:
  assumes "yields P m" and "yields Q k" and "yields T j" and "\<And>x y z. P x \<Longrightarrow> Q y \<Longrightarrow> T z \<Longrightarrow> yields S (f x y z)"
    and "\<And>x y z. reports (f x y z)"
  shows "yields S (attempt m (\<lambda>a. attempt k (\<lambda>b. attempt j (\<lambda>c. case (a, b, c) of (Some x, Some y, Some z) \<Rightarrow> f x y z | _ \<Rightarrow> nullptr))))"
proof (rule yields_attempt [OF assms(1)])
  have j: "reports j" and k: "reports k" using assms(2,3) by (simp_all add: yields_reports)
  show "yields S (attempt k (\<lambda>b. attempt j (\<lambda>c. case (Some x, b, c) of (Some x, Some y, Some z) \<Rightarrow> f x y z | _ \<Rightarrow> nullptr)))" if x: "P x" for x
  proof (rule yields_attempt [OF assms(2)])
    show "yields S (attempt j (\<lambda>c. case (Some x, Some y, c) of (Some x, Some y, Some z) \<Rightarrow> f x y z | _ \<Rightarrow> nullptr))" if "Q y" for y
      by (rule yields_attempt [OF assms(3)]) (simp_all add: assms(4,5) that x silent_nullptr)
  qed (intro reports_attempt silent_attempt; simp add: assms(5) j k reports_silent silent_nullptr)+
qed (intro reports_attempt silent_attempt; simp add: assms(5) yields_reports [OF assms(2)] yields_reports [OF assms(3)] reports_silent silent_nullptr)+

lemma yields_any: "reports m \<Longrightarrow> yields (\<lambda>_. True) m"
  by (rule reports_yields) simp_all

lemma yields_expr: "yields (\<lambda>_. True) (lowerExpr ro e)"
  by (rule yields_any) (rule reports_lowerExpr)

lemma yields_inspect: "(\<And>l. yields P (f l)) \<Longrightarrow> yields P (inspect f)"
  by (simp add: yields_def)

lemma yields_if: "(c \<Longrightarrow> yields P m) \<Longrightarrow> (\<not> c \<Longrightarrow> yields P k) \<Longrightarrow> yields P (if c then m else k)"
  by simp

lemma yields_bind:
  assumes "yields P m"
  shows "yields P (step (bindObject name object) m)"
  unfolding yields_def wp_actions
proof (intro allI impI)
  fix l assume l: "ready l"
  let ?l = "bindObject name object l"
  have b: "R l ?l" "settled ?l" using l R_bind by (auto simp: ready_def bindObject_def settled_scopes split: list.splits)
  then have "wp m (\<lambda>q r. finished ?l q r \<and> (\<forall>x. r = Some x \<longrightarrow> low_diagnostics q = [] \<longrightarrow> P x)) ?l"
    using assms ready_after [OF l] by (simp add: yields_def)
  then show "wp m (\<lambda>q r. finished l q r \<and> (\<forall>x. r = Some x \<longrightarrow> low_diagnostics q = [] \<longrightarrow> P x)) ?l"
    by (rule wp_mono) (use finished_trans [OF b(1)] in blast)
qed

lemma yields_lowerInitializer: "yields (\<lambda>x. x = None \<longleftrightarrow> init = None) (lowerInitializer ro object init rg)"
  unfolding lowerInitializer_def
  by (cases init)
    (auto intro!: yields_ret yields_failing yields_andThen [OF yields_expr] yields_andThen [OF yields_any [OF reports_decayArray]]
      reports_andThen reports_decayArray reports_ret)

lemma yields_lowerLocalDeclaration: "yields (mirrors (DeclStmt d rg)) (lowerLocalDeclaration ro d)"
  unfolding lowerLocalDeclaration_def Let_def
  by (intro yields_if yields_failing yields_andThen [OF yields_any [OF reports_ro]] yields_inspect yields_bind
      yields_andThen [OF yields_lowerInitializer] yields_ret mirrors_mirrorsBranch.intros reports_rules reports_bind reports_lowerInitializer)
    simp_all

lemma yields_lowerExprStmt: "yields (mirrors (CCompat_Ast.ExprStmt e rg)) (lowerExprStmt (lowerExpr ro e))"
proof -
  have "mirrors (CCompat_Ast.ExprStmt e rg) (mkAssignStmt x)" for x
    by (auto simp: mkAssignStmt_def intro: mirrors_mirrorsBranch.intros split: AstExpr.split list.split prod.split)
  then show ?thesis unfolding lowerExprStmt_def
    by (intro yields_andThen [OF yields_expr]) (auto intro!: yields_ret reports_ret mirrors_mirrorsBranch.intros split: AstExpr.split)
qed

lemma yields_lowerIf:
  assumes "yields (mirrorsBranch t) k" and "rel_option (\<lambda>s m. yields (mirrorsBranch s) m) e b"
  shows "yields (mirrors (CCompat_Ast.IfStmt c t e rg)) (lowerIf (lowerExpr ro c) k b)"
proof -
  have e: "yields (rel_option mirrorsBranch e) (case b of None \<Rightarrow> ret None | Some m \<Rightarrow> andThen m (\<lambda>b. ret (Some b)))"
    using assms(2) by (cases e; cases b) (auto intro!: yields_ret yields_andThen reports_ret)
  have "mirrors (CCompat_Ast.IfStmt c t e rg) (AIf x xs ys)" if "mirrorsBranch t xs" "rel_option mirrorsBranch e ys" for x xs ys
    using that by (cases e; cases ys) (auto intro: mirrors_mirrorsBranch.intros)
  then show ?thesis unfolding lowerIf_def
    by (intro yields_three [OF yields_expr assms(1) e]) (auto intro!: yields_andThen [OF yields_any [OF reports_decayArray]] yields_ret reports_rules reports_decayArray)
qed

lemma yields_lowerWhile:
  assumes "yields (mirrorsBranch b) k"
  shows "yields (mirrors (CCompat_Ast.WhileStmt c b rg)) (lowerWhile (lowerExpr ro c) k)"
  unfolding lowerWhile_def
  by (intro yields_both [OF yields_expr assms])
    (auto intro!: yields_andThen [OF yields_any [OF reports_decayArray]] yields_ret reports_rules reports_decayArray mirrors_mirrorsBranch.intros)

lemma yields_lowerFor:
  assumes "rel_option (\<lambda>s m. yields (mirrors s) m) i y" and "yields (mirrorsBranch b) k"
  shows "yields (mirrors (CCompat_Ast.ForStmt i c p b rg)) (lowerFor y (map_option (lowerExpr ro) c) (map_option (lowerExpr ro) p) k)"
proof -
  have init: "yields (rel_option mirrors i) (case y of None \<Rightarrow> ret None | Some m \<Rightarrow> andThen m (\<lambda>s. ret (Some s)))"
    using assms(1) by (cases i; cases y) (auto intro!: yields_ret yields_andThen reports_ret)
  have condition: "reports (case map_option (lowerExpr ro) c of None \<Rightarrow> ret (AIntegerLiteral ''1'') | Some m \<Rightarrow> lowerCondition m)"
    by (cases c) (simp_all add: reports_ret reports_lowerCondition reports_lowerExpr)
  have post: "yields (\<lambda>xs. length xs = (if p = None then 0 else 1)) (case map_option (lowerExpr ro) p of None \<Rightarrow> ret [] | Some m \<Rightarrow> andThen m (\<lambda>x. ret [er_expression x]))"
    by (cases p) (auto intro!: yields_ret yields_andThen [OF yields_expr] reports_ret)
  show ?thesis unfolding lowerFor_def
    by (intro yields_andThen [OF init] yields_andThen [OF yields_any [OF condition]] yields_andThen [OF post] yields_andThen [OF assms(2)]
        yields_ret mirrors_mirrorsBranch.intros reports_andThen reports_ret condition yields_reports [OF post] yields_reports [OF assms(2)])
      assumption+
qed

lemma yields_asCoreBlock: "yields (mirrors s) m \<Longrightarrow> yields (mirrorsBranch s) (asCoreBlock m)"
  unfolding asCoreBlock_def by (auto intro!: yields_andThen yields_ret reports_ret mirrors_mirrorsBranch.intros)

lemma yields_statements:
  "r = ro \<Longrightarrow> yields (mirrors s) (lowerStmt r s)" "r' = ro \<Longrightarrow> yields (list_all2 mirrors ss) (lowerStmts r' ss)"
  "r'' = ro \<Longrightarrow> yields (mirrorsBranch s') (lowerBranch r'' s')"
proof (induction r s and r' ss and r'' s' rule: lowerStmt_lowerStmts_lowerBranch.induct)
  case (5 ro e rg)
  then show ?case
    by (auto intro!: yields_andThen [OF yields_any [OF reports_lowerCondition [OF reports_lowerExpr(1)]]] yields_ret reports_ret mirrors_mirrorsBranch.intros)
next
  case (6 ro c t e rg)
  then show ?case by (cases e) (auto intro!: yields_lowerIf)
next
  case (8 ro i c p b rg)
  then show ?case by (cases i) (auto intro!: yields_lowerFor)
next
  case (12 ro label s rg)
  then show ?case by (auto intro!: yields_andThen yields_ret reports_ret mirrors_mirrorsBranch.intros)
next
  case (15 ro s ss)
  then have "yields (mirrors s) (lowerStmt ro s)" "yields (list_all2 mirrors ss) (lowerStmts ro ss)" by simp_all
  then show ?case
    by (auto intro!: yields_attempt [where P = "mirrors s"] yields_andThen [where P = "list_all2 mirrors ss"] yields_ret reports_andThen reports_ret
        reports_silent dest: yields_reports)
next
  case (16 ro ss rg)
  then show ?case by (auto intro!: yields_mono [OF yields_scoped] mirrors_mirrorsBranch.intros)
qed (auto intro!: yields_ret yields_failing yields_lowerLocalDeclaration yields_lowerExprStmt yields_lowerWhile yields_asCoreBlock mirrors_mirrorsBranch.intros)

end

end
