(* ===== verification/CCompat_LowerUnit.thy ===== *)
theory CCompat_LowerUnit
  imports CCompat_LowerSound
begin

text \<open>
  The lowering of a whole unit: it returns, and when it reports nothing every declaration of the C unit has its
  lowered counterpart, in order, with linkage metadata whose ABI types the HIR accepts.
\<close>

section \<open>What the parts of a unit change\<close>

text \<open>What all of them keep: the options, the names and their marks, and the structures that are resolved or being resolved.\<close>

definition names :: "Lowerer \<Rightarrow> Lowerer \<Rightarrow> bool" where
  "names l q \<longleftrightarrow> low_options q = low_options l \<and> prefix (low_diagnostics l) (low_diagnostics q) \<and>
     aliasKeys q = aliasKeys l \<and> structKeys q = structKeys l \<and>
     (\<forall>n s. fmlookup (low_structs l) n = Some s \<longrightarrow> si_resolving s \<or> si_resolved s \<longrightarrow> fmlookup (low_structs q) n = Some s)"

text \<open>Enclosing scopes are kept.\<close>

definition outer :: "Lowerer \<Rightarrow> Lowerer \<Rightarrow> bool" where
  "outer l q \<longleftrightarrow> (low_scopes l \<noteq> [] \<longrightarrow> low_scopes q \<noteq> [] \<and> tl (low_scopes q) = tl (low_scopes l))"

definition inBody :: "Lowerer \<Rightarrow> Lowerer \<Rightarrow> bool" where
  "inBody l q \<longleftrightarrow> names l q \<and> outer l q \<and> low_functions q = low_functions l \<and> low_declarations q = low_declarations l \<and>
     low_linkage q = low_linkage l"

abbreviation inScope :: "Lowerer \<Rightarrow> bool" where
  "inScope l \<equiv> low_scopes l \<noteq> []"

lemma kept_names: "kept l q \<longleftrightarrow> names l q \<and> low_functions q = low_functions l \<and> low_scopes q = low_scopes l \<and>
    low_declarations q = low_declarations l \<and> low_linkage q = low_linkage l"
  by (auto simp: keptBut_def names_def sameFrame_def)

lemma names_trans: "names l q \<Longrightarrow> names q r \<Longrightarrow> names l r"
  unfolding names_def by (metis prefix_order.trans)

lemma names_refl: "names l l"
  by (simp add: names_def)

lemma names_pending: "names l q \<Longrightarrow> pending q = pending l"
  by (simp add: names_def pending_def openAliases_def openStructs_def fun_eq_iff)

lemma names_diagnostics: "names l q \<Longrightarrow> length (low_diagnostics l) \<le> length (low_diagnostics q)"
  by (simp add: names_def prefix_length_le)

lemma names_clean: "names l q \<Longrightarrow> low_diagnostics q = [] \<Longrightarrow> low_diagnostics l = []"
  by (simp add: names_def)

lemma outer_trans: "outer l q \<Longrightarrow> outer q r \<Longrightarrow> outer l r"
  by (simp add: outer_def)

lemma names_scopes [simp]:
  "names l (q\<lparr>low_scopes := s\<rparr>) = names l q" "names (l\<lparr>low_scopes := s\<rparr>) q = names l q"
  "names l (q\<lparr>low_declarations := d\<rparr>) = names l q" "names l (q\<lparr>low_linkage := k\<rparr>) = names l q" "names l (q\<lparr>low_functions := f\<rparr>) = names l q"
  by (simp_all add: names_def)

sublocale object_resolver \<subseteq> ex: lowering_frame ro n kept "\<lambda>_. True"
  by unfold_locales (auto intro: keptBut_trans pending_kept keptBut_diagnostics(2))

sublocale object_resolver \<subseteq> st: scope_frame ro n inBody inScope
proof (unfold_locales, goal_cases)
  case (1 l q)
  then show ?case by (simp add: inBody_def kept_names outer_def)
next
  case (2 l q r)
  then show ?case by (auto simp: inBody_def intro: names_trans outer_trans)
next
  case (3 l q)
  then show ?case by (simp add: inBody_def names_pending)
next
  case (4 l q)
  then show ?case by (simp add: inBody_def names_diagnostics)
next
  case (5 l q)
  then show ?case by (simp add: inBody_def outer_def)
next
  case (6 l name object)
  then show ?case by (cases "low_scopes l") (simp_all add: inBody_def bindObject_def outer_def names_refl)
next
  case (7 l q)
  then show ?case by (simp add: inBody_def pushScope_def popScope_def outer_def)
next
  case (8 l)
  then show ?case by (simp add: pushScope_def)
qed

section \<open>Functions\<close>

text \<open>The parameters that are bound: all but the marker of an empty list.\<close>

definition realParameters :: "CCompat_Ast.Parameter list \<Rightarrow> CCompat_Ast.Parameter list" where
  "realParameters ps = filter (\<lambda>p. \<not> param_isVoidMarker p) ps"

lemma parameterType_complete:
  assumes "objectOk object"
  shows "abiComplete (ti_abi (parameterType object pointerSize))"
proof (cases "obj_isArray object")
  case True
  have "abiComplete (ti_abi (makePointer pointerSize t))" for t
    using pointer_ok [of t] by (simp add: typeOk_def makePointer_def mkAbi_def isVoid_def isAggregate_def)
  then show ?thesis using True by (simp add: parameterType_def)
qed (use assms in \<open>simp add: parameterType_def objectOk_def\<close>)

text \<open>How the loop over the parameters ends: its flag is false only after a diagnostic.\<close>

definition parametersDone :: "CCompat_Ast.Parameter list \<Rightarrow> bool \<Rightarrow> Lowerer \<Rightarrow> Lowerer \<Rightarrow> (bool \<times> (Param \<times> CAbiType) list) option \<Rightarrow> bool" where
  "parametersDone ps valid l q r \<longleftrightarrow> inBody l q \<and> settled q \<and> (\<exists>v xs. r = Some (v, xs) \<and>
     (v \<longrightarrow> valid \<and> map (par_name \<circ> fst) xs = map (\<lambda>p. decl_name (param_declarator p)) (realParameters ps)) \<and>
     (\<not> v \<longrightarrow> \<not> valid \<or> length (low_diagnostics l) < length (low_diagnostics q)) \<and> list_all (abiComplete \<circ> snd) xs)"

context object_resolver
begin

lemma lowerParameters_sound:
  assumes "st.ready l"
  shows "wp (lowerParameters ro ps valid) (parametersDone ps valid l) l"
  using assms
proof (induction ps arbitrary: l valid)
  case Nil
  then show ?case by (simp add: parametersDone_def st.R_refl st.ready_def realParameters_def)
next
  case (Cons p ps)
  show ?case
  proof (cases "param_isVoidMarker p")
    case True
    then show ?thesis using Cons.IH [OF Cons.prems] by (simp add: parametersDone_def realParameters_def)
  next
    case False
    have l: "settled l" "pending l < n" using Cons.prems by (simp_all add: st.ready_def)
    show ?thesis using False
    proof (simp, intro wp_mono [OF ro_sound [OF l, of "param_type p" "param_declarator p"]], goal_cases)
      case (1 q r)
      then have q: "kept l q" "settled q" by (simp_all add: outcome_def)
      have rq: "inBody l q" using st.R_kept [OF q(1)] .
      have ready: "st.ready q" by (rule st.ready_after [OF Cons.prems rq q(2)])
      have len: "length (low_diagnostics l) \<le> length (low_diagnostics q)" by (rule keptBut_diagnostics(2) [OF q(1)])
      show ?case
      proof (cases r)
        case None
        then have grew: "length (low_diagnostics l) < length (low_diagnostics q)" using 1 by (simp add: outcome_def)
        show ?thesis unfolding None option.case
        proof (rule wp_mono [OF Cons.IH [OF ready, of False]], goal_cases)
          case (1 s r)
          then have "inBody l s" "length (low_diagnostics l) < length (low_diagnostics s)"
            using st.R_trans [OF rq] st.R_diagnostics [of q s] grew by (auto simp: parametersDone_def)
          then show ?case using 1 by (auto simp: parametersDone_def)
        qed
      next
        case (Some object)
        let ?name = "decl_name (param_declarator p)" and ?type = "parameterType object (pointerByteLength q)"
        let ?b = "bindObject ?name \<lparr>obj_type = ?type, obj_isArray = False, obj_arrayCount = 0\<rparr> q"
        have ptr: "pointerByteLength q = pointerSize" using q(2) by (simp add: settled_def)
        have ok: "abiComplete (ti_abi ?type)" using 1 Some parameterType_complete ptr by (simp add: outcome_def)
        have b: "inBody q ?b" using ready by (intro st.R_bind) (simp add: st.ready_def)
        have sb: "settled ?b" using q(2) by (auto simp: bindObject_def settled_scopes split: list.splits)
        have rb: "st.ready ?b" by (rule st.ready_after [OF ready b sb])
        have db: "low_diagnostics ?b = low_diagnostics q" by (simp add: bindObject_def split: list.splits)
        show ?thesis unfolding Some option.case wp_actions Let_def wp_andThen
        proof (rule wp_mono [OF Cons.IH [OF rb, of valid]], goal_cases)
          case (1 s r)
          have "inBody l s" using 1 st.R_trans [OF st.R_trans [OF rq b]] by (simp add: parametersDone_def)
          then show ?case using 1 False ok len by (auto simp: parametersDone_def realParameters_def db)
        qed
      qed
    qed
  qed
qed

end

definition bodyMirrors :: "CCompat_Ast.Stmt option \<Rightarrow> AstStmt list option \<Rightarrow> bool" where
  "bodyMirrors b xs = (case b of Some (BlockStmt ss _) \<Rightarrow> (\<exists>ys. xs = Some ys \<and> list_all2 mirrors ss ys) | _ \<Rightarrow> xs = None)"

definition functionMirrors :: "FunctionDecl \<Rightarrow> (Param \<times> CAbiType) list \<times> AstStmt list option \<Rightarrow> bool" where
  "functionMirrors d r \<longleftrightarrow> map (par_name \<circ> fst) (fst r) = map (\<lambda>p. decl_name (param_declarator p)) (realParameters (fun_parameters d)) \<and>
     list_all (abiComplete \<circ> snd) (fst r) \<and> bodyMirrors (fun_body d) (snd r)"

context object_resolver
begin

lemma yields_lowerFunctionBody: "st.yields (functionMirrors d) (lowerFunctionBody ro d info)"
  unfolding st.yields_def
proof (intro allI impI)
  fix l assume l: "st.ready l"
  let ?Q = "\<lambda>l q r. st.finished l q r \<and> (\<forall>x. r = Some x \<longrightarrow> low_diagnostics q = [] \<longrightarrow> functionMirrors d x)"
  show "wp (lowerFunctionBody ro d info) (?Q l) l" unfolding lowerFunctionBody_def wp_andThen
  proof (rule wp_mono [OF lowerParameters_sound [OF l]], goal_cases)
    case (1 q r)
    then obtain v xs where r: "r = Some (v, xs)" and q: "inBody l q" "settled q"
      and v: "v \<Longrightarrow> map (par_name \<circ> fst) xs = map (\<lambda>p. decl_name (param_declarator p)) (realParameters (fun_parameters d))"
      and nv: "\<not> v \<Longrightarrow> length (low_diagnostics l) < length (low_diagnostics q)" and abi: "list_all (abiComplete \<circ> snd) xs"
      unfolding parametersDone_def by auto
    have ready: "st.ready q" by (rule st.ready_after [OF l q])
    have fail: "wp (failing rg msg) (?Q l) q" for rg msg
    proof -
      have "wp (failing rg msg) (?Q q) q" using st.yields_failing [of "functionMirrors d"] ready by (simp add: st.yields_def)
      then show ?thesis by (rule wp_mono) (use st.finished_trans [OF q(1)] in blast)
    qed
    have body: "wp (case fun_body d of Some (BlockStmt ss _) \<Rightarrow> andThen (lowerBlock ro ss) (\<lambda>body. ret (xs, Some body)) | _ \<Rightarrow> ret (xs, None)) (?Q l) q" if v: v
    proof -
      have "st.yields (functionMirrors d) (case fun_body d of Some (BlockStmt ss _) \<Rightarrow> andThen (lowerBlock ro ss) (\<lambda>body. ret (xs, Some body)) | _ \<Rightarrow> ret (xs, None))"
        unfolding lowerBlock_def
        by (auto intro!: st.yields_ret st.yields_andThen [OF st.yields_scoped [OF st.yields_statements(2) [OF refl]]] st.reports_ret
            simp: functionMirrors_def bodyMirrors_def \<open>v \<Longrightarrow> map _ _ = _\<close> [OF that] abi split: option.split CCompat_Ast.Stmt.split)
      then have "wp (case fun_body d of Some (BlockStmt ss _) \<Rightarrow> andThen (lowerBlock ro ss) (\<lambda>body. ret (xs, Some body)) | _ \<Rightarrow> ret (xs, None)) (?Q q) q"
        using ready by (simp add: st.yields_def)
      then show ?thesis by (rule wp_mono) (use st.finished_trans [OF q(1)] in blast)
    qed
    show ?case unfolding r option.case prod.case wp_actions
    proof (intro wp_if fail body)
      assume "\<not> v"
      then show "wp nullptr (?Q l) q" using nv q by (simp add: st.finished_def)
    qed simp
  qed
qed

end

section \<open>Top-level declarations\<close>

text \<open>
  The specification of a declaration, given the collected functions: the core declarations \<open>ds\<close> and the linkage
  metadata \<open>ms\<close> it becomes.
\<close>

definition objectMetadata :: "VarDecl \<Rightarrow> ObjectInfo \<Rightarrow> LinkageMetadata" where
  "objectMetadata v object = (let name = decl_name (var_declarator v) in
     \<lparr>lm_sourceName = name, lm_coreName = name, lm_linkage = (if VarDecl.var_storage v = StaticStorage then LinkageInternal else LinkageExternal),
      lm_isFunction = False, lm_isDefinition = (VarDecl.var_storage v \<noteq> ExternStorage), lm_objectType = Some (fieldAbi object),
      lm_parameterTypes = [], lm_returnType = None, lm_range = var_range v\<rparr>)"

definition functionMetadata :: "FunctionDecl \<Rightarrow> FunctionInfo \<Rightarrow> (Param \<times> CAbiType) list \<Rightarrow> bool \<Rightarrow> LinkageMetadata" where
  "functionMetadata f info parameters defined = (let name = decl_name (fun_declarator f) in
     \<lparr>lm_sourceName = name, lm_coreName = name, lm_linkage = fni_linkage info, lm_isFunction = True, lm_isDefinition = defined,
      lm_objectType = None, lm_parameterTypes = map snd parameters, lm_returnType = Some (ti_abi (fni_returnType info)), lm_range = fun_range f\<rparr>)"

fun lowered :: "(string, FunctionInfo) fmap \<Rightarrow> Decl \<Rightarrow> TopLevelDecl list \<Rightarrow> LinkageMetadata list \<Rightarrow> bool" where
  "lowered fs (StructDecl name members rg) ds ms \<longleftrightarrow> ms = [] \<and>
     (\<exists>s. si_name s = name \<and> structOk s \<and> ds = [ATemplateDecl name (templateMembers (si_byteLength s) 0 0 (si_fields s))])"
| "lowered fs (TypedefDecl type declarator rg) ds ms \<longleftrightarrow> ds = [] \<and> ms = []"
| "lowered fs (VarDeclaration v) ds ms \<longleftrightarrow>
     (\<exists>object init. objectOk object \<and> (init = None \<longleftrightarrow> var_initializer v = None) \<and> ms = [objectMetadata v object] \<and>
        (let name = decl_name (var_declarator v); len = storageLength object pointerSize; tmpl = storageTemplate object (var_initializer v) in
         ds = [if VarDecl.var_storage v = ExternStorage then AExternVarDecl name len tmpl else AGlobalNewDecl name len tmpl (initializerOp init) init]))"
| "lowered fs (FunctionDeclaration f) ds ms \<longleftrightarrow>
     (let name = decl_name (fun_declarator f) in
      \<exists>info. fmlookup fs name = Some info \<and>
        (if \<not> isDefinition f \<and> fni_isDefinition info then ds = [] \<and> ms = []
         else \<exists>parameters body. functionMirrors f (parameters, body) \<and> ms = [functionMetadata f info parameters (body \<noteq> None)] \<and>
           ds = [case body of
               None \<Rightarrow> AExternFunctionDecl name (map fst parameters) (returnItems info pointerSize) []
             | Some ss \<Rightarrow> AFunctionDecl \<lparr>afd_name = name, afd_params = map fst parameters, afd_returns = returnItems info pointerSize,
                 afd_body = ss, afd_abiName = []\<rparr>]))"

definition afterDecl :: "Decl \<Rightarrow> Lowerer \<Rightarrow> Lowerer \<Rightarrow> bool" where
  "afterDecl d l q \<longleftrightarrow> names l q \<and> outer l q \<and> low_functions q = low_functions l \<and> settled q \<and>
     (low_diagnostics q = [] \<longrightarrow> (\<exists>ds ms. low_declarations q = low_declarations l @ ds \<and> low_linkage q = low_linkage l @ ms \<and>
        lowered (low_functions l) d ds ms))"

text \<open>The functions a declaration needs to have been collected, as long as nothing has been reported.\<close>

definition collected :: "Lowerer \<Rightarrow> Decl \<Rightarrow> bool" where
  "collected l d \<longleftrightarrow> (case d of
     FunctionDeclaration f \<Rightarrow> low_diagnostics l = [] \<longrightarrow> fmlookup (low_functions l) (decl_name (fun_declarator f)) \<noteq> None
   | _ \<Rightarrow> True)"

text \<open>The declarations and the metadata of a whole list, in order.\<close>

definition afterDecls :: "Decl list \<Rightarrow> Lowerer \<Rightarrow> Lowerer \<Rightarrow> bool" where
  "afterDecls ds l q \<longleftrightarrow> names l q \<and> outer l q \<and> low_functions q = low_functions l \<and> settled q \<and>
     (low_diagnostics q = [] \<longrightarrow> (\<exists>parts. low_declarations q = low_declarations l @ concat (map fst parts) \<and>
        low_linkage q = low_linkage l @ concat (map snd parts) \<and> list_all2 (\<lambda>d p. lowered (low_functions l) d (fst p) (snd p)) ds parts))"

lemma addDeclaration_simps [simp]:
  "names l (addDeclaration d q) = names l q" "low_functions (addDeclaration d q) = low_functions q" "settled (addDeclaration d q) = settled q"
  "low_diagnostics (addDeclaration d q) = low_diagnostics q" "low_declarations (addDeclaration d q) = low_declarations q @ [d]"
  "low_linkage (addDeclaration d q) = low_linkage q" "outer l (addDeclaration d q) = outer l q"
  by (simp_all add: addDeclaration_def settled_def pointerByteLength_def outer_def)

lemma addLinkage_simps [simp]:
  "names l (addLinkage a b c d e f g h q) = names l q" "low_functions (addLinkage a b c d e f g h q) = low_functions q"
  "settled (addLinkage a b c d e f g h q) = settled q" "low_diagnostics (addLinkage a b c d e f g h q) = low_diagnostics q"
  "low_declarations (addLinkage a b c d e f g h q) = low_declarations q" "outer l (addLinkage a b c d e f g h q) = outer l q"
  by (simp_all add: addLinkage_def settled_def pointerByteLength_def outer_def)

context object_resolver
begin

lemma lowerStruct_sound:
  assumes "st.ready l"
  shows "wp (lowerStruct ro name rg) (\<lambda>q r. afterDecl (StructDecl name members rg) l q) l"
proof -
  have l: "settled l" "pending l \<le> n" using assms by (simp_all add: st.ready_def)
  show ?thesis unfolding lowerStruct_def wp_andThen
  proof (rule wp_mono [OF resolveStruct_sound [OF l]], goal_cases)
    case (1 q r)
    then have q: "kept l q" "settled q" by (simp_all add: outcome_def)
    have b: "inBody l q" using st.R_kept [OF q(1)] .
    show ?case
    proof (cases r)
      case None
      then have "low_diagnostics q \<noteq> []" using 1 by (auto simp: outcome_def)
      then show ?thesis using None b q(2) by (simp add: afterDecl_def inBody_def)
    next
      case (Some u)
      then obtain s where s: "fmlookup (low_structs q) name = Some s" "si_resolved s" using 1 by (auto simp: outcome_def)
      have "si_name s = name" "low_diagnostics q = [] \<Longrightarrow> structOk s"
        using q(2) s by (auto simp: settled_def structSettled_def)
      then show ?thesis using Some s(1) b q(2) by (auto simp: afterDecl_def inBody_def)
    qed
  qed
qed

lemma lowerGlobal_sound:
  assumes "st.ready l"
  shows "wp (lowerGlobal ro v) (\<lambda>q r. afterDecl (VarDeclaration v) l q) l"
proof -
  let ?name = "decl_name (var_declarator v)"
  have l: "settled l" "pending l < n" using assms by (simp_all add: st.ready_def)
  show ?thesis unfolding lowerGlobal_def Let_def wp_andThen
  proof (rule wp_mono [OF ro_sound [OF l]], goal_cases)
    case (1 q r)
    then have q: "kept l q" "settled q" by (simp_all add: outcome_def)
    have b: "inBody l q" using st.R_kept [OF q(1)] .
    have ready: "st.ready q" by (rule st.ready_after [OF assms b q(2)])
    show ?case
    proof (cases r)
      case None
      then have "low_diagnostics q \<noteq> []" using 1 by (auto simp: outcome_def)
      then show ?thesis using None b q(2) by (simp add: afterDecl_def inBody_def)
    next
      case (Some object)
      then have ok: "objectOk object" using 1 by (simp add: outcome_def)
      let ?q = "bindObject ?name object q"
      have bq: "inBody l ?q" "settled ?q"
        using st.R_trans [OF b st.R_bind] ready q(2) by (auto simp: st.ready_def bindObject_def settled_scopes split: list.splits)
      have rq: "st.ready ?q" by (rule st.ready_after [OF assms bq])
      have ptr: "pointerByteLength ?q = pointerSize" using bq(2) by (simp add: settled_def)
      have init: "wp (lowerInitializer ro object (var_initializer v) (var_range v))
          (\<lambda>s r. st.finished ?q s r \<and> (\<forall>x. r = Some x \<longrightarrow> low_diagnostics s = [] \<longrightarrow> (x = None \<longleftrightarrow> var_initializer v = None))) ?q"
        using st.yields_lowerInitializer [of "var_initializer v" object "var_range v"] rq by (simp add: st.yields_def)
      show ?thesis unfolding Some option.case
      proof (rule wp_if, goal_cases)
        case 1
        then show ?case using inBody_def [of l q] b kept_lowerError
          by (simp add: failing_def) (simp add: afterDecl_def settled_lowerError q(2), simp add: lowerError_def names_def outer_def)
      next
        case 2
        show ?case unfolding wp_actions wp_andThen ptr
        proof (rule wp_mono [OF init], goal_cases)
          case (1 s r)
          then have s: "inBody l s" "settled s" using st.R_trans [OF bq(1)] by (simp_all add: st.finished_def)
          show ?case
          proof (cases r)
            case None
            then have "low_diagnostics s \<noteq> []" using 1 by (auto simp: st.finished_def)
            then show ?thesis using None s by (simp add: afterDecl_def inBody_def)
          next
            case (Some init)
            let ?tmpl = "storageTemplate object (var_initializer v)" and ?len = "storageLength object pointerSize"
            have complete: "afterDecl (VarDeclaration v) l (addLinkage a b c d e f g h (addDeclaration decl s))"
              if "[decl] = [if VarDecl.var_storage v = ExternStorage then AExternVarDecl ?name ?len ?tmpl else AGlobalNewDecl ?name ?len ?tmpl (initializerOp init) init]"
                and "low_linkage (addLinkage a b c d e f g h s) = low_linkage s @ [objectMetadata v object]" for a b c d e f g h decl
              unfolding afterDecl_def
            proof (intro conjI impI)
              assume "low_diagnostics (addLinkage a b c d e f g h (addDeclaration decl s)) = []"
              then have i: "init = None \<longleftrightarrow> var_initializer v = None" using 1 Some by simp
              have "lowered (low_functions l) (VarDeclaration v) [decl] [objectMetadata v object]"
                unfolding lowered.simps Let_def by (intro exI [of _ object] exI [of _ init] conjI ok i refl that(1))
              moreover have "low_linkage (addLinkage a b c d e f g h (addDeclaration decl s)) = low_linkage l @ [objectMetadata v object]"
                using that(2) s(1) by (simp add: addLinkage_def inBody_def addDeclaration_def)
              ultimately show "\<exists>ds ms. low_declarations (addLinkage a b c d e f g h (addDeclaration decl s)) = low_declarations l @ ds \<and>
                  low_linkage (addLinkage a b c d e f g h (addDeclaration decl s)) = low_linkage l @ ms \<and> lowered (low_functions l) (VarDeclaration v) ds ms"
                using s(1) by (intro exI [of _ "[decl]"] exI [of _ "[objectMetadata v object]"]) (simp add: inBody_def)
            qed (use s in \<open>simp_all add: inBody_def\<close>)
            show ?thesis unfolding Some option.case
            proof (rule wp_if, goal_cases)
              case 1
              then show ?case unfolding wp_actions by (intro complete) (simp_all add: addLinkage_def objectMetadata_def Let_def)
            next
              case 2
              then show ?case unfolding wp_actions by (intro complete) (simp_all add: addLinkage_def objectMetadata_def Let_def)
            qed
          qed
        qed
      qed
    qed
  qed
qed

lemma lowerFunction_sound:
  assumes "st.ready l" and "fmlookup (low_functions l) (decl_name (fun_declarator f)) = Some info"
    and "isDefinition f \<or> \<not> fni_isDefinition info"
  shows "wp (lowerFunction ro f) (\<lambda>q r. afterDecl (FunctionDeclaration f) l q) l"
proof -
  let ?name = "decl_name (fun_declarator f)"
  have y: "st.yields (functionMirrors f) (scoped (lowerFunctionBody ro f info))"
    by (rule st.yields_scoped) (rule yields_lowerFunctionBody)
  have "wp (scoped (lowerFunctionBody ro f info))
      (\<lambda>q r. st.finished l q r \<and> (\<forall>x. r = Some x \<longrightarrow> low_diagnostics q = [] \<longrightarrow> functionMirrors f x)) l"
    using y assms(1) unfolding st.yields_def by blast
  then show ?thesis unfolding lowerFunction_def wp_actions Let_def assms(2) option.case wp_andThen
  proof (rule wp_mono, goal_cases)
    case (1 q r)
    then have q: "inBody l q" "settled q" by (simp_all add: st.finished_def)
    have ptr: "pointerByteLength q = pointerSize" using q(2) by (simp add: settled_def)
    show ?case
    proof (cases r)
      case None
      then have "low_diagnostics q \<noteq> []" using 1 by (auto simp: st.finished_def)
      then show ?thesis using None q by (simp add: afterDecl_def inBody_def)
    next
      case (Some res)
      obtain ps body where res: "res = (ps, body)" by fastforce
      let ?decl = "case body of
          None \<Rightarrow> AExternFunctionDecl ?name (map fst ps) (returnItems info pointerSize) []
        | Some ss \<Rightarrow> AFunctionDecl \<lparr>afd_name = ?name, afd_params = map fst ps, afd_returns = returnItems info pointerSize,
            afd_body = ss, afd_abiName = []\<rparr>"
      let ?link = "addLinkage ?name (fni_linkage info) True (body \<noteq> None) None (map snd ps) (Some (ti_abi (fni_returnType info))) (fun_range f)"
      let ?m = "functionMetadata f info ps (body \<noteq> None)" and ?s = "?link (addDeclaration ?decl q)"
      have "afterDecl (FunctionDeclaration f) l ?s" unfolding afterDecl_def
      proof (intro conjI impI)
        assume "low_diagnostics ?s = []"
        then have fm: "functionMirrors f (ps, body)" using 1 Some res by simp
        have "lowered (low_functions l) (FunctionDeclaration f) [?decl] [?m]"
          unfolding lowered.simps Let_def using assms(2,3) fm by auto
        moreover have "low_linkage ?s = low_linkage l @ [?m]" using q(1) by (simp add: addLinkage_def inBody_def functionMetadata_def Let_def)
        ultimately show "\<exists>ds ms. low_declarations ?s = low_declarations l @ ds \<and> low_linkage ?s = low_linkage l @ ms \<and>
            lowered (low_functions l) (FunctionDeclaration f) ds ms"
          using q(1) by (intro exI [of _ "[?decl]"] exI [of _ "[?m]"]) (simp add: inBody_def)
      qed (use q in \<open>simp_all add: inBody_def\<close>)
      then show ?thesis unfolding Some option.case res prod.case wp_actions ptr by (cases body) simp_all
    qed
  qed
qed

lemma lowerTopLevel_sound:
  assumes "st.ready l" and "collected l d"
  shows "wp (lowerTopLevel ro d) (\<lambda>q r. afterDecl d l q) l"
proof (cases d)
  case (VarDeclaration v)
  then show ?thesis using lowerGlobal_sound [OF assms(1)] by (simp add: lowerTopLevel_def)
next
  case (StructDecl name fields rg)
  then show ?thesis using lowerStruct_sound [OF assms(1)] by (simp add: lowerTopLevel_def)
next
  case (TypedefDecl type declarator rg)
  then show ?thesis using assms(1) by (auto simp: lowerTopLevel_def afterDecl_def names_refl outer_def st.ready_def)
next
  case (FunctionDeclaration f)
  let ?info = "fmlookup (low_functions l) (decl_name (fun_declarator f))"
  have idle: "afterDecl d l l" if "low_diagnostics l = [] \<Longrightarrow> lowered (low_functions l) d [] []"
    using that assms(1) by (auto simp: afterDecl_def names_refl outer_def st.ready_def)
  show ?thesis
  proof (cases ?info)
    case None
    then have "low_diagnostics l \<noteq> []" using assms(2) FunctionDeclaration by (auto simp: collected_def)
    then show ?thesis using None idle FunctionDeclaration by (simp add: lowerTopLevel_def lowerFunction_def Let_def)
  next
    case (Some info)
    show ?thesis
    proof (cases "isDefinition f \<or> \<not> fni_isDefinition info")
      case True
      then show ?thesis using lowerFunction_sound [OF assms(1) Some True] FunctionDeclaration Some by (auto simp: lowerTopLevel_def)
    next
      case False
      then show ?thesis using idle FunctionDeclaration Some by (simp add: lowerTopLevel_def)
    qed
  qed
qed

lemma lowerTopLevels_sound:
  assumes "st.ready l" and "\<forall>d \<in> set ds. collected l d"
  shows "wp (lowerTopLevels ro ds) (\<lambda>q r. r = Some () \<and> afterDecls ds l q) l"
  using assms
proof (induction ds arbitrary: l)
  case Nil
  then show ?case by (auto simp: afterDecls_def names_refl outer_def st.ready_def)
next
  case (Cons d ds)
  show ?case unfolding lowerTopLevels.simps regardless_def wp_attempt
  proof (rule wp_mono [OF lowerTopLevel_sound], goal_cases)
    case (3 q r)
    then have q: "names l q" "outer l q" "low_functions q = low_functions l" "settled q" by (simp_all add: afterDecl_def)
    have ready: "st.ready q" using Cons.prems(1) q names_pending [OF q(1)] by (simp add: st.ready_def outer_def)
    have "\<forall>d \<in> set ds. collected q d" using Cons.prems(2) q(3) names_clean [OF q(1)] by (auto simp: collected_def split: Decl.splits)
    from Cons.IH [OF ready this] show ?case
    proof (rule wp_mono, goal_cases)
      case (1 s u)
      then have s: "afterDecls ds q s" by simp
      have n: "names l s" "outer l s" "low_functions s = low_functions l" "settled s"
        using s q names_trans outer_trans by (auto simp: afterDecls_def)
      moreover have "\<exists>parts. low_declarations s = low_declarations l @ concat (map fst parts) \<and>
          low_linkage s = low_linkage l @ concat (map snd parts) \<and> list_all2 (\<lambda>d p. lowered (low_functions l) d (fst p) (snd p)) (d # ds) parts"
        if c: "low_diagnostics s = []"
      proof -
        have "low_diagnostics q = []" using names_clean [of q s] s c by (simp add: afterDecls_def)
        then obtain xs ms where a: "low_declarations q = low_declarations l @ xs" "low_linkage q = low_linkage l @ ms" "lowered (low_functions l) d xs ms"
          using 3 by (auto simp: afterDecl_def)
        obtain parts where "low_declarations s = low_declarations q @ concat (map fst parts)" "low_linkage s = low_linkage q @ concat (map snd parts)"
          "list_all2 (\<lambda>d p. lowered (low_functions q) d (fst p) (snd p)) ds parts" using s c by (auto simp: afterDecls_def)
        then show ?thesis using a q(3) by (intro exI [of _ "(xs, ms) # parts"]) simp
      qed
      ultimately show ?case using 1 by (simp add: afterDecls_def)
    qed
  qed (use Cons.prems in simp_all)
qed

end

section \<open>Collecting declarations\<close>

definition returnOk :: "TypeInfo \<Rightarrow> bool" where
  "returnOk t \<longleftrightarrow> isVoid t \<or> abiComplete (ti_abi t) \<or> typeLength t = 0"

definition functionsOk :: "Lowerer \<Rightarrow> bool" where
  "functionsOk l \<longleftrightarrow> (\<forall>name info. fmlookup (low_functions l) name = Some info \<longrightarrow> returnOk (fni_returnType info))"

text \<open>A unit whose structures have names; the parser takes them from identifiers.\<close>

definition structsNamed :: "Decl list \<Rightarrow> bool" where
  "structsNamed ds \<longleftrightarrow> (\<forall>d \<in> set ds. case d of StructDecl name _ _ \<Rightarrow> name \<noteq> [] | _ \<Rightarrow> True)"

lemma card_insert_bound: "A \<subseteq> insert x B \<Longrightarrow> finite B \<Longrightarrow> card A \<le> Suc (card B)"
  using card_mono [of "insert x B" A] by (simp add: card_insert_if split: if_splits)

lemma pending_fmupd:
  "pending (l\<lparr>low_structs := fmupd name s (low_structs l)\<rparr>) \<le> Suc (pending l)"
  "pending (l\<lparr>low_aliases := fmupd name a (low_aliases l)\<rparr>) \<le> Suc (pending l)"
proof -
  have "openStructs (l\<lparr>low_structs := fmupd name s (low_structs l)\<rparr>) \<subseteq> insert name (openStructs l)"
    and "openAliases (l\<lparr>low_aliases := fmupd name a (low_aliases l)\<rparr>) \<subseteq> insert name (openAliases l)"
    by (auto simp: openStructs_def openAliases_def)
  then have "card (openStructs (l\<lparr>low_structs := fmupd name s (low_structs l)\<rparr>)) \<le> Suc (card (openStructs l))"
    and "card (openAliases (l\<lparr>low_aliases := fmupd name a (low_aliases l)\<rparr>)) \<le> Suc (card (openAliases l))"
    by (auto intro: card_insert_bound open_finite)
  moreover have "openAliases (l\<lparr>low_structs := x\<rparr>) = openAliases l" "openStructs (l\<lparr>low_aliases := y\<rparr>) = openStructs l" for x y
    by (simp_all add: openAliases_def openStructs_def)
  ultimately show "pending (l\<lparr>low_structs := fmupd name s (low_structs l)\<rparr>) \<le> Suc (pending l)"
    "pending (l\<lparr>low_aliases := fmupd name a (low_aliases l)\<rparr>) \<le> Suc (pending l)" by (simp_all add: pending_def)
qed

lemma pending_lowerError: "pending (lowerError rg msg l) = pending l"
  by (rule pending_kept) (rule kept_lowerError)

lemma collectName_sound:
  assumes "settled l" and "structsNamed [d]"
  shows "settled (collectName i d l)" and "pending (collectName i d l) \<le> Suc (pending l)"
    and "low_functions (collectName i d l) = low_functions l \<and> low_scopes (collectName i d l) = low_scopes l \<and>
      low_declarations (collectName i d l) = low_declarations l \<and> low_linkage (collectName i d l) = low_linkage l"
proof -
  have s: "settled (l\<lparr>low_structs := fmupd name (newStruct name fs rg) (low_structs l)\<rparr>)" if "name \<noteq> []" for name fs rg
    using assms(1) that by (auto simp: settled_def pointerByteLength_def structSettled_def newStruct_def)
  have a: "settled (l\<lparr>low_aliases := fmupd name (newAlias i type declarator) (low_aliases l)\<rparr>)" for name type declarator
    using assms(1) by (auto simp: settled_def pointerByteLength_def aliasSettled_def newAlias_def)
  show "settled (collectName i d l)" using s a assms settled_lowerError
    by (auto simp: collectName_def structsNamed_def split: Decl.split option.split)
  show "pending (collectName i d l) \<le> Suc (pending l)" using pending_fmupd pending_lowerError
    by (auto simp: collectName_def split: Decl.split option.split)
  show "low_functions (collectName i d l) = low_functions l \<and> low_scopes (collectName i d l) = low_scopes l \<and>
      low_declarations (collectName i d l) = low_declarations l \<and> low_linkage (collectName i d l) = low_linkage l"
    by (auto simp: collectName_def lowerError_def split: Decl.split option.split)
qed

lemma collectNames_sound:
  assumes "settled l" and "structsNamed ds"
  shows "settled (collectNames i ds l) \<and> pending (collectNames i ds l) \<le> pending l + length ds \<and>
    low_functions (collectNames i ds l) = low_functions l \<and> low_scopes (collectNames i ds l) = low_scopes l \<and>
    low_declarations (collectNames i ds l) = low_declarations l \<and> low_linkage (collectNames i ds l) = low_linkage l"
  using assms
proof (induction ds arbitrary: i l)
  case (Cons d ds)
  then have d: "structsNamed [d]" "structsNamed ds" by (simp_all add: structsNamed_def)
  note c = collectName_sound [OF Cons.prems(1) d(1), of i]
  show ?case using Cons.IH [OF c(1) d(2), of "Suc i"] c(2,3) by auto
qed simp

text \<open>What collecting a function changes.\<close>

definition collecting :: "Lowerer \<Rightarrow> Lowerer \<Rightarrow> bool" where
  "collecting l q \<longleftrightarrow> names l q \<and> low_scopes q = low_scopes l \<and> low_declarations q = low_declarations l \<and> low_linkage q = low_linkage l \<and>
     (\<forall>name. fmlookup (low_functions l) name \<noteq> None \<longrightarrow> fmlookup (low_functions q) name \<noteq> None)"

lemma collecting_trans: "collecting l q \<Longrightarrow> collecting q r \<Longrightarrow> collecting l r"
  using names_trans by (auto simp: collecting_def)

lemma kept_collecting: "kept l q \<Longrightarrow> collecting l q"
  by (simp add: kept_names collecting_def)

text \<open>
  The entry of a name in the table of functions, for the declarations of that name so far: its linkage is that of the
  first, it is a definition when one of them is, no two are definitions, and none is static after a first that is not.
\<close>

definition declarationsOf :: "string \<Rightarrow> Decl list \<Rightarrow> FunctionDecl list" where
  "declarationsOf name ds = concat (map (\<lambda>d. case d of
     FunctionDeclaration f \<Rightarrow> if decl_name (fun_declarator f) = name then [f] else [] | _ \<Rightarrow> []) ds)"

definition entryFor :: "FunctionDecl list \<Rightarrow> FunctionInfo option \<Rightarrow> bool" where
  "entryFor fs e = (case fs of
     [] \<Rightarrow> e = None
   | f # _ \<Rightarrow> \<exists>info. e = Some info \<and> fni_linkage info = declaredLinkage f \<and> (fni_isDefinition info \<longleftrightarrow> list_ex isDefinition fs) \<and>
       length (filter isDefinition fs) \<le> 1 \<and> (declaredLinkage f = LinkageExternal \<longrightarrow> list_all (\<lambda>g. declaredLinkage g = LinkageExternal) fs))"

definition functionTable :: "Decl list \<Rightarrow> (string, FunctionInfo) fmap \<Rightarrow> bool" where
  "functionTable ds fs \<longleftrightarrow> (\<forall>name. entryFor (declarationsOf name ds) (fmlookup fs name))"

definition extends :: "Decl list \<Rightarrow> Lowerer \<Rightarrow> Lowerer \<Rightarrow> bool" where
  "extends ds l q \<longleftrightarrow> (\<forall>name fs. entryFor fs (fmlookup (low_functions l) name) \<longrightarrow>
     entryFor (fs @ declarationsOf name ds) (fmlookup (low_functions q) name))"

lemma declarationsOf_Cons: "declarationsOf name (d # ds) = declarationsOf name [d] @ declarationsOf name ds"
  by (simp add: declarationsOf_def)

lemma extends_trans: "extends [d] l q \<Longrightarrow> extends ds q r \<Longrightarrow> extends (d # ds) l r"
  using declarationsOf_Cons [of _ d ds] by (simp add: extends_def del: append_assoc add: append_assoc [symmetric])

lemma extends_idle: "(\<And>name. declarationsOf name ds = []) \<Longrightarrow> low_functions q = low_functions l \<Longrightarrow> extends ds l q"
  by (simp add: extends_def)

lemma entryFor_first: "entryFor fs None \<Longrightarrow> fni_linkage info = declaredLinkage f \<Longrightarrow> fni_isDefinition info = isDefinition f \<Longrightarrow>
    entryFor (fs @ [f]) (Some info)"
  by (auto simp: entryFor_def split: list.splits)

lemma entryFor_again:
  assumes "entryFor fs (Some known)" and "\<not> (fni_linkage known = LinkageExternal \<and> declaredLinkage f = LinkageInternal)"
    and "\<not> (fni_isDefinition known \<and> isDefinition f)"
  shows "entryFor (fs @ [f]) (Some (known\<lparr>fni_isDefinition := fni_isDefinition known \<or> isDefinition f\<rparr>))"
proof -
  obtain g gs where fs: "fs = g # gs" using assms(1) by (cases fs) (simp_all add: entryFor_def)
  have none: "filter isDefinition fs = []" if "isDefinition f"
    using that assms(1,3) by (auto simp: entryFor_def fs list_ex_iff filter_empty_conv)
  have "length (filter isDefinition (fs @ [f])) \<le> 1" using none assms(1) by (auto simp: entryFor_def fs)
  moreover have "declaredLinkage f = LinkageExternal" if "declaredLinkage g = LinkageExternal"
    using that assms(1,2) by (auto simp: entryFor_def fs declaredLinkage_def split: if_splits)
  ultimately show ?thesis using assms(1) by (auto simp: entryFor_def fs)
qed

context object_resolver
begin

lemma signatureParameters_sound:
  assumes "settled l" and "pending l < n"
  shows "wp (signatureParameters ro ps valid) (\<lambda>q r. kept l q \<and> settled q \<and> (\<exists>v ts. r = Some (v, ts) \<and>
      (\<not> v \<longrightarrow> \<not> valid \<or> length (low_diagnostics l) < length (low_diagnostics q)))) l"
  using assms
proof (induction ps arbitrary: l valid)
  case Nil
  then show ?case by (simp add: keptBut_refl)
next
  case (Cons p ps)
  show ?case
  proof (cases "param_isVoidMarker p")
    case False
    show ?thesis using False
    proof (simp, intro wp_mono [OF ro_sound [OF Cons.prems, of "param_type p" "param_declarator p"]], goal_cases)
      case (1 q r)
      then have q: "kept l q" "settled q" "pending q < n" using pending_kept Cons.prems(2) by (auto simp: outcome_def)
      note len = keptBut_diagnostics(2)
      have more: "wp (signatureParameters ro ps b) (\<lambda>s r. kept l s \<and> settled s \<and> length (low_diagnostics q) \<le> length (low_diagnostics s) \<and>
          (\<exists>v ts. r = Some (v, ts) \<and> (\<not> v \<longrightarrow> \<not> b \<or> length (low_diagnostics q) < length (low_diagnostics s)))) q" for b
        by (rule wp_mono [OF Cons.IH [OF q(2,3), of b]]) (use keptBut_trans [OF q(1)] len in blast)
      show ?case
      proof (cases r)
        case None
        then have "length (low_diagnostics l) < length (low_diagnostics q)" using 1 by (simp add: outcome_def)
        then show ?thesis unfolding None option.case by (intro wp_mono [OF more [of False]]) auto
      next
        case (Some object)
        have "length (low_diagnostics l) \<le> length (low_diagnostics q)" by (rule len [OF q(1)])
        then show ?thesis unfolding Some option.case wp_actions wp_andThen by (intro wp_mono [OF more [of valid]]) auto
      qed
    qed
  qed (use Cons in simp)
qed

text \<open>The return type of a function that is registered.\<close>

lemma returnType_sound:
  assumes "settled l" and "pending l < n"
  shows "wp (andThen (resolveType ro type depth) (\<lambda>t. completed ro t rg)) (outcome returnOk l) l"
proof (rule wp_sequence [OF resolveType_sound])
  fix t q assume q: "kept l q" "settled q" "typeOk t"
  have p: "pending q \<le> n" using pending_kept [OF q(1)] assms(2) by simp
  show "wp (completed ro t rg) (outcome returnOk q) q" unfolding completed_def
  proof (rule wp_if)
    assume "isAggregate t"
    then have "\<not> isVoid t" by (simp add: isVoid_def isAggregate_def)
    show "wp (ensureStructComplete ro t rg) (outcome returnOk q) q"
      by (rule wp_mono [OF ensureStructComplete_sound [OF q(2) p q(3) \<open>\<not> isVoid t\<close>]]) (erule outcome_mono, auto simp: returnOk_def)
  next
    assume "\<not> isAggregate t"
    then show "wp (ret t) (outcome returnOk q) q" using q(3) by (intro outcome_ret q(2)) (auto simp: typeOk_def returnOk_def)
  qed
qed (use assms in simp_all)

definition collectedFunction :: "FunctionDecl \<Rightarrow> Lowerer \<Rightarrow> Lowerer \<Rightarrow> bool" where
  "collectedFunction f l q \<longleftrightarrow> collecting l q \<and> settled q \<and> functionsOk q \<and>
     (low_diagnostics q = [] \<longrightarrow> fmlookup (low_functions q) (decl_name (fun_declarator f)) \<noteq> None \<and> extends [FunctionDeclaration f] l q)"

lemma collectedFunction_reported:
  "kept l q \<Longrightarrow> settled q \<Longrightarrow> functionsOk l \<Longrightarrow> low_diagnostics q \<noteq> [] \<Longrightarrow> collectedFunction f l q"
  by (simp add: collectedFunction_def kept_collecting functionsOk_def kept_names)

lemma registerFunction_sound:
  assumes "settled l" and "functionsOk l" and "returnOk (fni_returnType info)"
    and "fni_linkage info = declaredLinkage f" and "fni_isDefinition info = isDefinition f"
  shows "wp (registerFunction f info) (\<lambda>q r. collectedFunction f l q) l"
proof -
  let ?name = "decl_name (fun_declarator f)"
  have fail: "wp (failing rg msg) (\<lambda>q r. collectedFunction f l q) l" for rg :: SourceRange and msg
    by (rule wp_mono [OF wp_failing [OF assms(1), where Ok = "\<lambda>_. False"]])
      (use assms(2) in \<open>auto simp: outcome_def intro!: collectedFunction_reported split: option.splits\<close>)
  let ?upd = "\<lambda>i. l\<lparr>low_functions := fmupd ?name i (low_functions l)\<rparr>"
  have upd: "collectedFunction f l (?upd i)"
    if "returnOk (fni_returnType i)" "\<And>fs. entryFor fs (fmlookup (low_functions l) ?name) \<Longrightarrow> entryFor (fs @ [f]) (Some i)" for i
  proof -
    have "extends [FunctionDeclaration f] l (?upd i)" using that(2) by (simp add: extends_def declarationsOf_def)
    then show ?thesis
      using assms(1,2) that(1) by (auto simp: collectedFunction_def collecting_def names_refl functionsOk_def settled_def pointerByteLength_def)
  qed
  show ?thesis
  proof (cases "fmlookup (low_functions l) ?name")
    case None
    have "collectedFunction f l (?upd info)" using None assms(3-5) by (intro upd) (auto intro: entryFor_first)
    then show ?thesis using None by (simp add: registerFunction_def Let_def)
  next
    case (Some known)
    let ?k = "known\<lparr>fni_isDefinition := fni_isDefinition known \<or> isDefinition f\<rparr>"
    have ok: "collectedFunction f l (?upd ?k)"
      if "\<not> (fni_linkage known = LinkageExternal \<and> fni_linkage info = LinkageInternal)" "\<not> (fni_isDefinition known \<and> isDefinition f)"
      using that Some assms(2,4) by (intro upd) (auto simp: functionsOk_def intro: entryFor_again)
    have same: "?upd ?k = (if isDefinition f then ?upd (known\<lparr>fni_isDefinition := True\<rparr>) else l)"
    proof -
      have "fmupd ?name known (low_functions l) = low_functions l" using Some by (intro fmap_ext) auto
      then show ?thesis by simp
    qed
    show ?thesis unfolding registerFunction_def Let_def using Some ok [unfolded same]
      by (simp del: wp_actions) (intro conjI impI wp_inspect fail; auto simp: fail split: if_splits)
  qed
qed

lemma collectFunction_sound:
  assumes "settled l" and "pending l < n" and "functionsOk l"
  shows "wp (collectFunction ro f) (\<lambda>q r. collectedFunction f l q) l"
proof -
  have split: "collectFunction ro f = andThen (andThen (resolveType ro (fun_returnType f) (decl_pointerDepth (fun_declarator f)))
      (\<lambda>t. completed ro t (ctype_range (fun_returnType f)))) (\<lambda>returnType.
        andThen (signatureParameters ro (fun_parameters f) True) (\<lambda>(valid, parameters).
          if \<not> valid then nullptr
          else registerFunction f \<lparr>fni_returnType = returnType, fni_parameters = parameters, fni_linkage = declaredLinkage f,
            fni_isDefinition = isDefinition f\<rparr>))"
    unfolding collectFunction_def by (auto simp: andThen_def fun_eq_iff split: option.splits)
  show ?thesis unfolding split wp_andThen [of "andThen _ _"]
  proof (rule wp_mono [OF returnType_sound [OF assms(1,2)]], goal_cases)
    case (1 q r)
    then have q: "kept l q" "settled q" "pending q < n" using pending_kept assms(2) by (auto simp: outcome_def)
    have fq: "functionsOk q" using assms(3) q(1) by (simp add: functionsOk_def kept_names)
    show ?case
    proof (cases r)
      case None
      then have "low_diagnostics q \<noteq> []" using 1 by (auto simp: outcome_def)
      then show ?thesis using None collectedFunction_reported q assms(3) by simp
    next
      case (Some t)
      then have t: "returnOk t" using 1 by (simp add: outcome_def)
      show ?thesis unfolding Some option.case wp_andThen
      proof (rule wp_mono [OF signatureParameters_sound [OF q(2,3), of _ True]], goal_cases)
        case (1 s u)
        then obtain v ts where u: "u = Some (v, ts)" and grew: "\<not> v \<Longrightarrow> length (low_diagnostics q) < length (low_diagnostics s)"
          and s: "kept q s" "settled s" by auto
        have ls: "kept l s" by (rule keptBut_trans [OF q(1) s(1)])
        have fs: "functionsOk s" using assms(3) ls by (simp add: functionsOk_def kept_names)
        show ?case unfolding u option.case prod.case
        proof (rule wp_if)
          assume "\<not> v"
          then have "low_diagnostics s \<noteq> []" using grew by auto
          then show "wp nullptr (\<lambda>q r. collectedFunction f l q) s" using collectedFunction_reported [OF ls s(2) assms(3)] by simp
        next
          show "wp (registerFunction f \<lparr>fni_returnType = t, fni_parameters = ts, fni_linkage = declaredLinkage f, fni_isDefinition = isDefinition f\<rparr>)
              (\<lambda>q r. collectedFunction f l q) s"
            by (rule wp_mono [OF registerFunction_sound [OF s(2) fs]])
              (use t ls collecting_trans [OF kept_collecting [OF ls]] in \<open>auto simp: collectedFunction_def extends_def kept_names\<close>)
        qed
      qed
    qed
  qed
qed

lemma collectFunctions_sound:
  assumes "settled l" and "pending l < n" and "functionsOk l"
  shows "wp (collectFunctions ro ds) (\<lambda>q r. r = Some () \<and> collecting l q \<and> settled q \<and> functionsOk q \<and>
    (\<forall>d \<in> set ds. collected q d) \<and> (low_diagnostics q = [] \<longrightarrow> extends ds l q)) l"
  using assms
proof (induction ds arbitrary: l)
  case Nil
  then show ?case by (simp add: collecting_def names_refl extends_def declarationsOf_def)
next
  case (Cons d ds)
  show ?case
  proof (cases "\<exists>f. d = FunctionDeclaration f")
    case True
    then obtain f where d: "d = FunctionDeclaration f" by blast
    show ?thesis unfolding d collectFunctions.simps regardless_def wp_attempt
    proof (rule wp_mono [OF collectFunction_sound [OF Cons.prems]], goal_cases)
      case (1 q r)
      then have q: "collecting l q" "settled q" "functionsOk q" "pending q < n"
        using Cons.prems(2) names_pending [of l q] by (auto simp: collectedFunction_def collecting_def)
      show ?case
      proof (rule wp_mono [OF Cons.IH [OF q(2,4,3)]], goal_cases)
        case (1 s u)
        have "collected s (FunctionDeclaration f)"
          using 1 \<open>collectedFunction f l q\<close> names_clean [of q s] by (auto simp: collected_def collectedFunction_def collecting_def)
        moreover have "extends (FunctionDeclaration f # ds) l s" if "low_diagnostics s = []"
          using that 1 \<open>collectedFunction f l q\<close> names_clean [of q s] extends_trans by (auto simp: collectedFunction_def collecting_def)
        ultimately show ?case using 1 collecting_trans [OF q(1)] by auto
      qed
    qed
  next
    case False
    then have "collectFunctions ro (d # ds) = collectFunctions ro ds" "collected q d" "declarationsOf name (d # ds) = declarationsOf name ds" for q name
      by (cases d; simp add: collected_def declarationsOf_def)+
    then have "wp (collectFunctions ro ds) P l = wp (collectFunctions ro (d # ds)) P l" "extends (d # ds) l q = extends ds l q" for P q
      by (simp_all add: extends_def)
    then show ?thesis using Cons.IH [OF Cons.prems] \<open>\<And>q. collected q d\<close> by simp
  qed
qed

lemma resolveTypedefs_sound:
  assumes "settled l" and "pending l < n"
  shows "wp (resolveTypedefs ro i ds) (\<lambda>q r. r = Some () \<and> kept l q \<and> settled q) l"
  using assms
proof (induction ds arbitrary: i l)
  case (Cons d ds)
  show ?case
  proof (cases d)
    case (TypedefDecl type declarator rg)
    have "wp (regardless (resolveAliasObject ro (decl_name declarator) rg) (resolveTypedefs ro (Suc i) ds)) (\<lambda>q r. r = Some () \<and> kept l q \<and> settled q) l"
      unfolding regardless_def wp_attempt
    proof (rule wp_mono [OF resolveAliasObject_sound [OF Cons.prems(1)]], goal_cases)
      case (2 q r)
      then have q: "kept l q" "settled q" "pending q < n" using pending_kept Cons.prems(2) by (auto simp: outcome_def)
      show ?case by (rule wp_mono [OF Cons.IH [OF q(2,3)]]) (use keptBut_trans [OF q(1)] in blast)
    qed (use Cons.prems(2) in simp)
    then show ?thesis using Cons.IH [OF Cons.prems] TypedefDecl by (auto simp del: wp_attempt split: option.split)
  qed (use Cons in simp_all)
qed (simp add: keptBut_refl)

end

lemma checkStaticPrototypes_kept: "kept l (checkStaticPrototypes ds l) \<and> (settled l \<longrightarrow> settled (checkStaticPrototypes ds l))"
proof (induction ds l rule: checkStaticPrototypes.induct)
  case (2 f ds l)
  have "kept l (checkStaticPrototype f l)" "settled l \<Longrightarrow> settled (checkStaticPrototype f l)"
    using kept_lowerError settled_lowerError keptBut_refl by (auto simp: checkStaticPrototype_def Let_def)
  then show ?case using 2 keptBut_trans by auto
qed (simp_all add: keptBut_refl)

section \<open>The whole unit\<close>

text \<open>What the lowering of a unit leaves behind, with the functions \<open>fs\<close> it has collected.\<close>

definition unitLowered :: "Decl list \<Rightarrow> Lowerer \<Rightarrow> bool" where
  "unitLowered ds q \<longleftrightarrow> functionsOk q \<and> functionTable ds (low_functions q) \<and> (\<exists>parts. low_declarations q = concat (map fst parts) \<and>
     low_linkage q = concat (map snd parts) \<and> list_all2 (\<lambda>d p. lowered (low_functions q) d (fst p) (snd p)) ds parts)"

lemma lowerUnit_sound:
  assumes "opt_pointerByteLength options = pointerSize" and "structsNamed ds"
  shows "wp (lowerUnit ds) (\<lambda>q r. low_scopes q = [] \<and> (low_diagnostics q = [] \<longrightarrow> unitLowered ds q)) (newLowerer options)"
proof -
  let ?n = "Suc (length ds)"
  let ?l = "newLowerer options" and ?c = "collectNames 0 ds (newLowerer options)"
  have "settled ?l" "pending ?l = 0"
    using assms(1) by (simp_all add: newLowerer_def settled_def pointerByteLength_def pending_def openAliases_def openStructs_def)
  with collectNames_sound [OF _ assms(2), of ?l 0]
  have c: "settled ?c" "pending ?c < ?n" "low_functions ?c = fmempty" "low_scopes ?c = []" "low_declarations ?c = []" "low_linkage ?c = []"
    by (simp_all add: newLowerer_def)
  show ?thesis unfolding lowerUnit_def Let_def collectDeclarations_def wp_actions wp_andThen
  proof (rule wp_mono [OF tied.resolveTypedefs_sound [OF c(1,2)]], goal_cases)
    case (1 q r)
    then have q: "kept ?c q" "settled q" "pending q < ?n" "functionsOk q"
      using pending_kept [of "{}" ?c q] c(2,3) by (auto simp: kept_names functionsOk_def)
    have r: "r = Some ()" using 1 by simp
    show ?case unfolding r option.case
    proof (rule wp_mono [OF tied.collectFunctions_sound [OF q(2,3,4), of ds]], goal_cases)
      case (1 s u)
      let ?s = "checkStaticPrototypes ds s"
      have s: "kept s ?s" "settled ?s" using checkStaticPrototypes_kept 1 by blast+
      have p: "pending ?s < ?n" using pending_kept [OF s(1)] names_pending [of q s] q(3) 1 by (simp add: collecting_def)
      have out: "low_scopes ?s = []" "low_declarations ?s = []" "low_linkage ?s = []" "functionsOk ?s"
        using s(1) 1 q(1) c(4-6) by (auto simp: kept_names collecting_def functionsOk_def)
      have col: "\<forall>d \<in> set ds. collected (pushScope ?s) d"
        using 1 s(1) names_clean [of s ?s] by (auto simp: collected_def kept_names pushScope_def split: Decl.splits)
      have ready: "tied.st.ready ?n (pushScope ?s)"
        using s(2) p by (simp add: tied.st.ready_def pushScope_def settled_scopes)
      have u: "u = Some ()" using 1 by simp
      show ?case unfolding u option.case scoped_def wp_actions wp_attempt
      proof (rule wp_mono [OF tied.lowerTopLevels_sound [OF ready col]], goal_cases)
        case (1 t v)
        then have t: "outer (pushScope ?s) t" "low_functions t = low_functions ?s" by (auto simp: afterDecls_def pushScope_def)
        have "low_scopes (popScope t) = []" using t(1) out(1) by (simp add: outer_def pushScope_def popScope_def)
        moreover have "unitLowered ds (popScope t)" if "low_diagnostics t = []"
        proof -
          have "functionsOk t" using out(4) t(2) by (simp add: functionsOk_def)
          moreover have "functionTable ds (low_functions t)"
          proof -
            have "low_diagnostics ?s = []" using names_clean [of ?s t] 1 that by (simp add: afterDecls_def pushScope_def)
            then have "extends ds q s" using names_clean [of s ?s] s(1) \<open>_ \<and> _ \<and> _ \<and> _ \<and> _ \<and> _\<close> by (simp add: kept_names)
            moreover have "low_functions q = fmempty" "low_functions ?s = low_functions s" using q(1) s(1) c(3) by (simp_all add: kept_names)
            moreover have "entryFor [] None" by (simp add: entryFor_def)
            ultimately have "entryFor ([] @ declarationsOf name ds) (fmlookup (low_functions s) name)" for name
              unfolding extends_def by (metis fmempty_lookup)
            then show ?thesis using t(2) \<open>low_functions ?s = low_functions s\<close> by (simp add: functionTable_def)
          qed
          ultimately show ?thesis using 1 that out(2,3) by (auto simp: afterDecls_def unitLowered_def popScope_def pushScope_def functionsOk_def)
        qed
        ultimately show ?case using 1 by (simp add: popScope_def)
      qed
    qed
  qed
qed

end
