(* ===== verification/CCompat_LowerProps.thy ===== *)
theory CCompat_LowerProps
  imports CCompat_LowerUnit
begin

text \<open>
  What the lowering of a C unit promises its client, the driver, and what it does on particular units.
\<close>

section \<open>The result of the lowering\<close>

lemma lowerCCompatToCore_sound:
  assumes "opt_pointerByteLength options = pointerSize" and "structsNamed ds"
  obtains q where "lowerCCompatToCore ds options =
      Some \<lparr>lr_unit = mkUnit (low_declarations q), lr_linkage = low_linkage q, lr_diagnostics = low_diagnostics q\<rparr>"
    and "low_diagnostics q = [] \<Longrightarrow> unitLowered ds q"
  using lowerUnit_sound [OF assms] that by (auto simp: wp_def lowerCCompatToCore_def)

text \<open>
  C8. The lowering of a C unit returns, and when it reports nothing it has lowered the whole unit: its declarations and
  its linkage metadata are, in the order of the source, those of each declaration of the unit.  A structure becomes a
  template of its resolved layout, a variable a global with its initialiser, a function its parameters and all
  statements of its body in order; a prototype is left out exactly when the unit has a definition of the function.
\<close>

theorem lowerCCompatToCore_complete:
  assumes "opt_pointerByteLength options = pointerSize" and "structsNamed ds"
  shows "\<exists>r. lowerCCompatToCore ds options = Some r \<and> (loweringOk r \<longrightarrow>
    (\<exists>fs parts. functionTable ds fs \<and> list_all2 (\<lambda>d p. lowered fs d (fst p) (snd p)) ds parts \<and>
      lr_unit r = mkUnit (concat (map fst parts)) \<and> lr_linkage r = concat (map snd parts)))"
proof -
  obtain q where q: "lowerCCompatToCore ds options =
      Some \<lparr>lr_unit = mkUnit (low_declarations q), lr_linkage = low_linkage q, lr_diagnostics = low_diagnostics q\<rparr>"
    and l: "low_diagnostics q = [] \<Longrightarrow> unitLowered ds q"
    by (rule lowerCCompatToCore_sound [OF assms]) blast
  show ?thesis
  proof (rule exI, rule conjI, rule q, rule impI)
    assume "loweringOk \<lparr>lr_unit = mkUnit (low_declarations q), lr_linkage = low_linkage q, lr_diagnostics = low_diagnostics q\<rparr>"
    then have u: "unitLowered ds q" using l by (simp add: loweringOk_def)
    then obtain parts where "low_declarations q = concat (map fst parts)" "low_linkage q = concat (map snd parts)"
      "list_all2 (\<lambda>d p. lowered (low_functions q) d (fst p) (snd p)) ds parts" by (auto simp: unitLowered_def)
    then show "\<exists>fs parts. functionTable ds fs \<and> list_all2 (\<lambda>d p. lowered fs d (fst p) (snd p)) ds parts \<and>
        lr_unit \<lparr>lr_unit = mkUnit (low_declarations q), lr_linkage = low_linkage q, lr_diagnostics = low_diagnostics q\<rparr> = mkUnit (concat (map fst parts)) \<and>
        lr_linkage \<lparr>lr_unit = mkUnit (low_declarations q), lr_linkage = low_linkage q, lr_diagnostics = low_diagnostics q\<rparr> = concat (map snd parts)"
      using u by (intro exI [of _ "low_functions q"] exI [of _ parts]) (simp add: unitLowered_def)
  qed
qed

text \<open>The unit \<open>struct Pair { char c; int n; }; int id(int x); int g = 3; int id(int x) { return x; }\<close>.\<close>

definition exampleOptions :: LoweringOptions where
  "exampleOptions = \<lparr>opt_pointerByteLength = 8, opt_rejectQualifiers = True, opt_allowHostFloatExternAbi = True\<rparr>"

definition exampleFunction :: "CCompat_Ast.Stmt option \<Rightarrow> FunctionDecl" where
  "exampleFunction body = \<lparr>fun_storage = NoStorage, fun_returnType = exampleType CInt [], fun_declarator = exampleDeclarator ''id'',
     fun_parameters = [\<lparr>param_type = exampleType CInt [], param_declarator = exampleDeclarator ''x'', param_isVoidMarker = False, param_range = noRange\<rparr>],
     fun_body = body, fun_range = noRange\<rparr>"

definition exampleUnit :: "Decl list" where
  "exampleUnit =
     [StructDecl ''Pair'' [\<lparr>field_type = exampleType CChar [], field_declarator = exampleDeclarator ''c'', field_range = noRange\<rparr>,
                           \<lparr>field_type = exampleType CInt [], field_declarator = exampleDeclarator ''n'', field_range = noRange\<rparr>] noRange,
      FunctionDeclaration (exampleFunction None),
      VarDeclaration \<lparr>VarDecl.var_storage = NoStorage, var_type = exampleType CInt [], var_declarator = exampleDeclarator ''g'',
        var_initializer = Some (IntegerLiteralExpr ''3'' noRange), var_range = noRange\<rparr>,
      FunctionDeclaration (exampleFunction (Some (BlockStmt [CCompat_Ast.ReturnStmt (Some (IdentifierExpr ''x'' noRange)) noRange] noRange)))]"

theorem lowerCCompatToCore_complete_witness:
  "\<exists>r fs parts. lowerCCompatToCore exampleUnit exampleOptions = Some r \<and> loweringOk r \<and> functionTable exampleUnit fs \<and>
     list_all2 (\<lambda>d p. lowered fs d (fst p) (snd p)) exampleUnit parts \<and>
     lr_unit r = mkUnit (concat (map fst parts)) \<and> lr_linkage r = concat (map snd parts)"
proof -
  have "opt_pointerByteLength exampleOptions = pointerSize" "structsNamed exampleUnit"
    by (simp_all add: exampleOptions_def pointerSize_def structsNamed_def exampleUnit_def)
  from lowerCCompatToCore_complete [OF this] obtain r where r: "lowerCCompatToCore exampleUnit exampleOptions = Some r"
    "loweringOk r \<Longrightarrow> \<exists>fs parts. functionTable exampleUnit fs \<and> list_all2 (\<lambda>d p. lowered fs d (fst p) (snd p)) exampleUnit parts \<and>
      lr_unit r = mkUnit (concat (map fst parts)) \<and> lr_linkage r = concat (map snd parts)" by blast
  have "map_option loweringOk (lowerCCompatToCore exampleUnit exampleOptions) = Some True" by code_simp
  then show ?thesis using r by auto
qed

section \<open>A sign that is lost\<close>























definition signedSum :: "CCompat_Ast.Expr" where
  "signedSum = CCompat_Ast.BinaryExpr (CCompat_Ast.UnaryExpr ''-'' (IntegerLiteralExpr ''1'' noRange) noRange) ''+''
     (IntegerLiteralExpr ''2L'' noRange) noRange"

definition shiftBySum :: "CCompat_Ast.Expr" where
  "shiftBySum = CCompat_Ast.BinaryExpr (IntegerLiteralExpr ''1'' noRange) ''<<'' signedSum noRange"

lemma shiftBySum_rejected:
  "map_option (\<lambda>(l, r). map_option (\<lambda>x. map_option ci_bits (evaluateIntegerConstant (er_expression x))) r)
     (lowerExpr (resolver 1) signedSum (newLowerer exampleOptions)) = Some (Some (Some 4294967297)) \<and>
   map_option (\<lambda>(l, r). (map message (low_diagnostics l), r)) (lowerExpr (resolver 1) shiftBySum (newLowerer exampleOptions)) =
     Some ([''C compatibility shift count must be smaller than 32''], None)"
  by (intro conjI; code_simp)

end
