(* ===== verification/Driver_Metadata.thy ===== *)
theory Driver_Metadata
  imports CCompat_LowerProps CCompat_Accept
begin

text \<open>
  The part of the driver that hands the linkage metadata of a lowered C unit to the HIR, and the comparison of the
  external declarations of several units (\<open>src/driver/FrontendPipeline.cpp\<close>, \<open>src/driver/Diagnostics.cpp\<close>).
  What is written to the error stream is returned: messages of the driver as text, diagnostics as values.
\<close>

section \<open>External declarations across units\<close>

fun sameCAbiType :: "CAbiType \<Rightarrow> CAbiType \<Rightarrow> bool" and sameCAbiFields :: "CAbiType list \<Rightarrow> CAbiType list \<Rightarrow> bool" where
  "sameCAbiType (CAbiType k len s name align n fs offs) (CAbiType k' len' s' name' align' n' fs' offs') =
     (if k \<noteq> k' \<or> len \<noteq> len' \<or> s \<noteq> s' \<or> name \<noteq> name' \<or> align \<noteq> align' \<or> n \<noteq> n' \<or> offs \<noteq> offs' \<or> length fs \<noteq> length fs'
      then False else sameCAbiFields fs fs')"
| "sameCAbiFields [] right = True"
| "sameCAbiFields (f # fs) right = (case right of [] \<Rightarrow> False | f' # fs' \<Rightarrow> if sameCAbiType f f' then sameCAbiFields fs fs' else False)"

definition sameOptional :: "CAbiType option \<Rightarrow> CAbiType option \<Rightarrow> bool" where
  "sameOptional left right = (case (left, right) of
     (None, None) \<Rightarrow> True | (Some a, Some b) \<Rightarrow> sameCAbiType a b | _ \<Rightarrow> False)"

definition sameCExternalAbi :: "LinkageMetadata \<Rightarrow> LinkageMetadata \<Rightarrow> bool" where
  "sameCExternalAbi left right =
     (if lm_isFunction left \<noteq> lm_isFunction right then False
      else if \<not> lm_isFunction left then sameOptional (lm_objectType left) (lm_objectType right)
      else if length (lm_parameterTypes left) \<noteq> length (lm_parameterTypes right) then False
      else if \<not> sameOptional (lm_returnType left) (lm_returnType right) then False
      else sameCAbiFields (lm_parameterTypes left) (lm_parameterTypes right))"

text \<open>Of a compiled unit, what the comparison reads.\<close>

record CompiledTranslationUnit =
  ctu_inputPath :: string
  ctu_compatibilityLinkage :: "LinkageMetadata list"

definition fileStartRange :: "string \<Rightarrow> SourceRange" where
  "fileStartRange inputPath = (let location = \<lparr>loc_file = inputPath, loc_line = 1, loc_column = 1\<rparr> in \<lparr>range_begin = location, range_end = location\<rparr>)"

definition fileLevelDiagnostic :: "Stage \<Rightarrow> string \<Rightarrow> string \<Rightarrow> Diagnostic" where
  "fileLevelDiagnostic st msg inputPath =
     (if inputPath = [] then diagnostic_error st msg else (diagnostic_error st msg)\<lparr>diag_range := Some (fileStartRange inputPath)\<rparr>)"

definition declaringPath :: "string \<Rightarrow> LinkageMetadata \<Rightarrow> string" where
  "declaringPath inputPath item = (let f = loc_file (range_begin (lm_range item)) in if f \<noteq> [] then f else inputPath)"

definition incompatibleDeclaration :: "string \<Rightarrow> LinkageMetadata \<Rightarrow> string \<times> LinkageMetadata \<Rightarrow> Diagnostic" where
  "incompatibleDeclaration inputPath item previous =
     (let name = if lm_sourceName item = [] then lm_coreName item else lm_sourceName item;
          d = fileLevelDiagnostic Sema (''incompatible C external declaration '' @ HIR_Overrides.quoted name @ '' across translation units'')
                (declaringPath inputPath item);
          previousPath = declaringPath (fst previous) (snd previous)
      in if previousPath = [] then d
         else d\<lparr>labels := labels d @ [\<lparr>label_range = fileStartRange previousPath, label_message = ''previous external declaration is here''\<rparr>]\<rparr>)"

text \<open>The first declaration of each name is remembered with the path of its unit.\<close>

fun compareItems :: "(string, string \<times> LinkageMetadata) fmap \<Rightarrow> (string \<times> LinkageMetadata) list \<Rightarrow> Diagnostic option" where
  "compareItems declarations [] = None"
| "compareItems declarations ((inputPath, item) # rest) =
     (if lm_linkage item \<noteq> LinkageExternal then compareItems declarations rest
      else case fmlookup declarations (lm_coreName item) of
        None \<Rightarrow> compareItems (fmupd (lm_coreName item) (inputPath, item) declarations) rest
      | Some previous \<Rightarrow>
          if sameCExternalAbi (snd previous) item then compareItems declarations rest
          else Some (incompatibleDeclaration inputPath item previous))"

definition linkageItems :: "CompiledTranslationUnit list \<Rightarrow> (string \<times> LinkageMetadata) list" where
  "linkageItems units = concat (map (\<lambda>u. map (Pair (ctu_inputPath u)) (ctu_compatibilityLinkage u)) units)"

definition validateCCompatibilityExternalAbi :: "CompiledTranslationUnit list \<Rightarrow> bool \<times> Diagnostic list" where
  "validateCCompatibilityExternalAbi units =
     (case compareItems fmempty (linkageItems units) of None \<Rightarrow> (True, []) | Some d \<Rightarrow> (False, [d]))"

section \<open>Applying the metadata to the HIR\<close>

record MetadataState =
  ms_linkageOverrides :: "LinkageOverride list"
  ms_abiOverrides :: "AbiOverride list"
  ms_hasError :: bool
  ms_messages :: "string list"

definition emptyMetadataState :: MetadataState where
  "emptyMetadataState = \<lparr>ms_linkageOverrides = [], ms_abiOverrides = [], ms_hasError = False, ms_messages = []\<rparr>"

definition complain :: "string \<Rightarrow> MetadataState \<Rightarrow> MetadataState" where
  "complain msg st = st\<lparr>ms_hasError := True, ms_messages := ms_messages st @ [msg]\<rparr>"

definition addAbiOverride :: "AbiOverride \<Rightarrow> MetadataState \<Rightarrow> MetadataState" where
  "addAbiOverride ov st = st\<lparr>ms_abiOverrides := ms_abiOverrides st @ [ov]\<rparr>"

definition addLinkageOverride :: "LinkageMetadata \<Rightarrow> MetadataState \<Rightarrow> MetadataState" where
  "addLinkageOverride item st =
     (if lm_isDefinition item \<and> lm_linkage item = LinkageInternal
      then st\<lparr>ms_linkageOverrides := ms_linkageOverrides st @ [\<lparr>lo_symbolName = lm_coreName item,
             lo_target = (if lm_isFunction item then FunctionTarget else GlobalTarget), lo_linkage = Internal\<rparr>]\<rparr>
      else st)"

fun lowerParameterTypes :: "string \<Rightarrow> CAbiType list \<Rightarrow> MetadataState \<Rightarrow> MetadataState \<times> AbiType list" where
  "lowerParameterTypes name [] st = (st, [])"
| "lowerParameterTypes name (p # ps) st =
     (case lowerCAbiType p name ''parameter'' of
        Inl msg \<Rightarrow> lowerParameterTypes name ps (complain msg st)
      | Inr t \<Rightarrow> (let (st, ts) = lowerParameterTypes name ps st in (st, t # ts)))"

definition functionItem :: "LinkageMetadata \<Rightarrow> MetadataState \<Rightarrow> MetadataState" where
  "functionItem item st =
     (let name = lm_coreName item in
      case lm_returnType item of
        None \<Rightarrow> complain (''hsc: C compatibility function '' @ HIR_Overrides.quoted name @ '' has no ABI return type metadata'') st
      | Some returnType \<Rightarrow>
          (let (st, parameters) = lowerParameterTypes name (lm_parameterTypes item) st;
               signature = (\<lambda>returns. addAbiOverride \<lparr>ao_symbolName = name, ao_target = FunctionTarget, ao_objectType = None,
                 ao_functionSignature = Some \<lparr>sig_parameterTypes = parameters, sig_returnTypes = returns, sig_isCCompatibility = True\<rparr>\<rparr> st)
           in if cabi_kind returnType = CAbiVoid then signature []
              else case lowerCAbiType returnType name ''return'' of
                Inl msg \<Rightarrow> complain msg st
              | Inr t \<Rightarrow> signature [t]))"

definition objectItem :: "TranslationUnit \<Rightarrow> LinkageMetadata \<Rightarrow> MetadataState \<Rightarrow> MetadataState" where
  "objectItem unit item st =
     (let name = lm_coreName item in
      case lm_objectType item of
        None \<Rightarrow> complain (''hsc: C compatibility global '' @ HIR_Overrides.quoted name @ '' has no ABI object type metadata'') st
      | Some objectType \<Rightarrow>
          (case lowerCAbiType objectType name ''object'' of
             Inl msg \<Rightarrow> complain msg st
           | Inr t \<Rightarrow>
               (case find (\<lambda>g. global_bindingName g = name) (tu_globals unit) of
                  None \<Rightarrow> complain (''hsc: C compatibility ABI metadata references unknown global '' @ HIR_Overrides.quoted name) st
                | Some global \<Rightarrow>
                    if abi_elementCount t = 0 \<or> abi_byteLength t > (- 1) div abi_elementCount t \<or>
                       global_byteLength global \<noteq> abi_byteLength t * abi_elementCount t
                    then complain (''hsc: C compatibility ABI object size does not match global '' @ HIR_Overrides.quoted name) st
                    else addAbiOverride \<lparr>ao_symbolName = name, ao_target = GlobalTarget, ao_objectType = Some t, ao_functionSignature = None\<rparr> st)))"

definition metadataItem :: "TranslationUnit \<Rightarrow> LinkageMetadata \<Rightarrow> MetadataState \<Rightarrow> MetadataState" where
  "metadataItem unit item st =
     (if lm_coreName item = [] then complain ''hsc: C compatibility linkage metadata has an empty core name'' st
      else let st = addLinkageOverride item st in
        if lm_isFunction item then functionItem item st else objectItem unit item st)"

definition hasErrorDiagnostic :: "Diagnostic list \<Rightarrow> bool" where
  "hasErrorDiagnostic ds \<longleftrightarrow> list_ex (\<lambda>d. severity d = Error) ds"

text \<open>The result: whether the metadata was applied, the unit, the messages and the printed diagnostics.\<close>

definition applyCCompatibilityMetadata ::
  "TranslationUnit \<Rightarrow> LinkageMetadata list \<Rightarrow> bool \<times> TranslationUnit \<times> string list \<times> Diagnostic list" where
  "applyCCompatibilityMetadata unit metadata =
     (let st = fold (metadataItem unit) metadata emptyMetadataState in
      if ms_hasError st then (False, unit, ms_messages st, [])
      else let (ds, linked) = applyLinkageOverrides unit (ms_linkageOverrides st) in
        if hasErrorDiagnostic ds then (False, linked, ms_messages st, ds)
        else let (es, annotated) = applyAbiOverrides linked (ms_abiOverrides st) in
          (\<not> hasErrorDiagnostic es, annotated, ms_messages st, ds @ es))"

section \<open>The comparison is exact\<close>

lemma prefix_same_length: "length xs = length ys \<Longrightarrow> prefix xs ys \<longleftrightarrow> xs = ys"
  by (auto simp: prefix_def)

lemma sameCAbi_eq: "sameCAbiType a b \<longleftrightarrow> a = b" "sameCAbiFields fs gs \<longleftrightarrow> prefix fs gs"
  by (induction a b and fs gs rule: sameCAbiType_sameCAbiFields.induct) (auto simp: prefix_same_length prefix_Cons split: list.splits)

lemma sameOptional_eq: "sameOptional a b \<longleftrightarrow> a = b"
  by (auto simp: sameOptional_def sameCAbi_eq split: option.splits)

text \<open>What a declaration promises the other units.\<close>

definition externalAbi :: "LinkageMetadata \<Rightarrow> CAbiType option + CAbiType list \<times> CAbiType option" where
  "externalAbi item = (if lm_isFunction item then Inr (lm_parameterTypes item, lm_returnType item) else Inl (lm_objectType item))"

lemma sameCExternalAbi_eq: "sameCExternalAbi left right \<longleftrightarrow> externalAbi left = externalAbi right"
  by (auto simp: sameCExternalAbi_def externalAbi_def sameOptional_eq sameCAbi_eq prefix_same_length)

definition externalItems :: "(string \<times> LinkageMetadata) list \<Rightarrow> LinkageMetadata set" where
  "externalItems items = {item \<in> snd ` set items. lm_linkage item = LinkageExternal}"

lemma externalItems_Cons:
  "externalItems ((path, item) # rest) = (if lm_linkage item = LinkageExternal then insert item (externalItems rest) else externalItems rest)"
  by (auto simp: externalItems_def)

definition agree :: "LinkageMetadata set \<Rightarrow> bool" where
  "agree items \<longleftrightarrow> (\<forall>a \<in> items. \<forall>b \<in> items. lm_coreName a = lm_coreName b \<longrightarrow> externalAbi a = externalAbi b)"

lemma compareItems_None:
  "compareItems declarations items = None \<longleftrightarrow> agree (externalItems items) \<and>
     (\<forall>item \<in> externalItems items. \<forall>previous. fmlookup declarations (lm_coreName item) = Some previous \<longrightarrow>
        externalAbi (snd previous) = externalAbi item)"
proof (induction declarations items rule: compareItems.induct)
  case (2 declarations inputPath item rest)
  show ?case
  proof (cases "lm_linkage item = LinkageExternal")
    case True
    show ?thesis
    proof (cases "fmlookup declarations (lm_coreName item)")
      case None
      have one: "(\<forall>previous. fmlookup (fmupd (lm_coreName item) (inputPath, item) declarations) (lm_coreName x) = Some previous \<longrightarrow>
            externalAbi (snd previous) = externalAbi x) \<longleftrightarrow>
          (lm_coreName x = lm_coreName item \<longrightarrow> externalAbi item = externalAbi x) \<and>
          (\<forall>previous. fmlookup declarations (lm_coreName x) = Some previous \<longrightarrow> externalAbi (snd previous) = externalAbi x)" for x
        using None by (cases "lm_coreName x = lm_coreName item") simp_all
      moreover have "agree (insert item (externalItems rest)) \<longleftrightarrow> agree (externalItems rest) \<and>
          (\<forall>x \<in> externalItems rest. lm_coreName x = lm_coreName item \<longrightarrow> externalAbi item = externalAbi x)"
        unfolding agree_def by (metis insert_iff)
      ultimately show ?thesis using True None 2(2) unfolding one ball_conj_distrib by (simp add: externalItems_Cons)
    next
      case (Some previous)
      let ?known = "\<lambda>x. \<forall>previous. fmlookup declarations (lm_coreName x) = Some previous \<longrightarrow> externalAbi (snd previous) = externalAbi x"
      show ?thesis
      proof (cases "externalAbi (snd previous) = externalAbi item")
        case same: True
        have "agree (insert item (externalItems rest)) \<longleftrightarrow> agree (externalItems rest)" if k: "\<forall>x \<in> externalItems rest. ?known x"
        proof -
          have "externalAbi x = externalAbi item" if "x \<in> externalItems rest" "lm_coreName x = lm_coreName item" for x
            using that k Some same by fastforce
          then show ?thesis unfolding agree_def by (metis insert_iff)
        qed
        moreover have "?known item" using same Some by simp
        ultimately show ?thesis using True Some same 2(3) [OF _ Some] by (auto simp: externalItems_Cons sameCExternalAbi_eq)
      next
        case False
        then show ?thesis using True Some by (cases previous) (auto simp: externalItems_Cons sameCExternalAbi_eq)
      qed
    qed
  qed (use 2 in \<open>simp add: externalItems_Cons\<close>)
qed (simp add: externalItems_def agree_def)

text \<open>
  C11. The comparison of C units is exact: it succeeds, silently, exactly when any two external declarations of the same
  name in any of the units, in whatever order, are both objects of the same ABI type or both functions with the same
  ABI signature; otherwise it reports one error.
\<close>

theorem validateCCompatibilityExternalAbi_exact:
  "(fst (validateCCompatibilityExternalAbi units) \<longleftrightarrow>
      agree (\<Union>u \<in> set units. {item \<in> set (ctu_compatibilityLinkage u). lm_linkage item = LinkageExternal})) \<and>
   length (snd (validateCCompatibilityExternalAbi units)) = (if fst (validateCCompatibilityExternalAbi units) then 0 else 1)"
proof -
  have "externalItems (linkageItems units) = (\<Union>u \<in> set units. {item \<in> set (ctu_compatibilityLinkage u). lm_linkage item = LinkageExternal})"
    by (auto simp: externalItems_def linkageItems_def image_iff)
  moreover have "fst (validateCCompatibilityExternalAbi units) \<longleftrightarrow> agree (externalItems (linkageItems units))"
    using compareItems_None [of fmempty "linkageItems units"] by (auto simp: validateCCompatibilityExternalAbi_def split: option.split)
  moreover have "length (snd (validateCCompatibilityExternalAbi units)) = (if fst (validateCCompatibilityExternalAbi units) then 0 else 1)"
    by (simp add: validateCCompatibilityExternalAbi_def split: option.split)
  ultimately show ?thesis by simp
qed

section \<open>The overrides of a unit\<close>

text \<open>The ABI override that describes a metadata item; there is none when a type cannot be translated or the global does not fit.\<close>

fun translateAll :: "string \<Rightarrow> string \<Rightarrow> CAbiType list \<Rightarrow> AbiType list option" where
  "translateAll name role [] = Some []"
| "translateAll name role (t # ts) =
     (case (lowerCAbiType t name role, translateAll name role ts) of (Inr a, Some as) \<Rightarrow> Some (a # as) | _ \<Rightarrow> None)"

definition functionOverride :: "string \<Rightarrow> AbiType list \<Rightarrow> AbiType list \<Rightarrow> AbiOverride" where
  "functionOverride name parameters returns = \<lparr>ao_symbolName = name, ao_target = FunctionTarget, ao_objectType = None,
     ao_functionSignature = Some \<lparr>sig_parameterTypes = parameters, sig_returnTypes = returns, sig_isCCompatibility = True\<rparr>\<rparr>"

definition describes :: "TranslationUnit \<Rightarrow> LinkageMetadata \<Rightarrow> AbiOverride \<Rightarrow> bool" where
  "describes u item ov \<longleftrightarrow> lm_coreName item \<noteq> [] \<and>
     (if lm_isFunction item
      then \<exists>returnType parameters returns. lm_returnType item = Some returnType \<and>
        translateAll (lm_coreName item) ''parameter'' (lm_parameterTypes item) = Some parameters \<and>
        translateAll (lm_coreName item) ''return'' (if cabi_kind returnType = CAbiVoid then [] else [returnType]) = Some returns \<and>
        ov = functionOverride (lm_coreName item) parameters returns
      else \<exists>objectType t g. lm_objectType item = Some objectType \<and> lowerCAbiType objectType (lm_coreName item) ''object'' = Inr t \<and>
        find (\<lambda>g. global_bindingName g = lm_coreName item) (tu_globals u) = Some g \<and>
        abi_elementCount t \<noteq> 0 \<and> \<not> abi_byteLength t > (- 1) div abi_elementCount t \<and> global_byteLength g = abi_byteLength t * abi_elementCount t \<and>
        ov = \<lparr>ao_symbolName = lm_coreName item, ao_target = GlobalTarget, ao_objectType = Some t, ao_functionSignature = None\<rparr>)"

definition internalDefinition :: "LinkageMetadata \<Rightarrow> LinkageOverride list" where
  "internalDefinition item = (if lm_isDefinition item \<and> lm_linkage item = LinkageInternal
     then [\<lparr>lo_symbolName = lm_coreName item, lo_target = (if lm_isFunction item then FunctionTarget else GlobalTarget), lo_linkage = Internal\<rparr>] else [])"

lemma complain_simps [simp]: "ms_hasError (complain msg st)" "ms_messages (complain msg st) = ms_messages st @ [msg]"
  by (simp_all add: complain_def)

lemma lowerParameterTypes_result:
  "case translateAll name ''parameter'' ps of
     Some ts \<Rightarrow> lowerParameterTypes name ps st = (st, ts)
   | None \<Rightarrow> ms_hasError (fst (lowerParameterTypes name ps st)) \<and> ms_messages (fst (lowerParameterTypes name ps st)) \<noteq> []"
  "ms_hasError st \<Longrightarrow> ms_hasError (fst (lowerParameterTypes name ps st))"
  "ms_messages st \<noteq> [] \<Longrightarrow> ms_messages (fst (lowerParameterTypes name ps st)) \<noteq> []"
  by (induction name ps st rule: lowerParameterTypes.induct) (auto split: option.splits sum.splits prod.splits)

lemma functionItem_describes:
  assumes "describes u item ov" and "lm_isFunction item"
  shows "functionItem item st = addAbiOverride ov st"
proof -
  obtain returnType parameters returns where i: "lm_returnType item = Some returnType"
    "translateAll (lm_coreName item) ''parameter'' (lm_parameterTypes item) = Some parameters"
    "translateAll (lm_coreName item) ''return'' (if cabi_kind returnType = CAbiVoid then [] else [returnType]) = Some returns"
    "ov = functionOverride (lm_coreName item) parameters returns"
    using assms by (auto simp: describes_def)
  have "lowerParameterTypes (lm_coreName item) (lm_parameterTypes item) st = (st, parameters)"
    using lowerParameterTypes_result(1) [of "lm_coreName item" "lm_parameterTypes item" st] i(2) by simp
  then show ?thesis using i by (auto simp: functionItem_def functionOverride_def split: if_splits sum.splits)
qed

lemma metadataItem_describes:
  assumes "describes u item ov"
  shows "metadataItem u item st = addAbiOverride ov (st\<lparr>ms_linkageOverrides := ms_linkageOverrides st @ internalDefinition item\<rparr>)"
proof -
  have l: "addLinkageOverride item st = st\<lparr>ms_linkageOverrides := ms_linkageOverrides st @ internalDefinition item\<rparr>"
    by (simp add: addLinkageOverride_def internalDefinition_def)
  show ?thesis
  proof (cases "lm_isFunction item")
    case True
    then show ?thesis using functionItem_describes [OF assms True] assms l by (simp add: metadataItem_def describes_def)
  next
    case False
    then show ?thesis using assms l by (auto simp: metadataItem_def objectItem_def describes_def)
  qed
qed

lemma metadataItem_hasError: "ms_hasError st \<Longrightarrow> ms_hasError (metadataItem u item st)"
  using lowerParameterTypes_result(2) [of "addLinkageOverride item st" "lm_coreName item" "lm_parameterTypes item"]
  by (auto simp: metadataItem_def functionItem_def objectItem_def Let_def addLinkageOverride_def addAbiOverride_def
      split: option.splits sum.splits prod.splits)

lemma metadataItem_rejects:
  assumes "\<nexists>ov. describes u item ov"
  shows "ms_hasError (metadataItem u item st)"
proof (cases "lm_isFunction item")
  case True
  note types = lowerParameterTypes_result(1) [of "lm_coreName item" "lm_parameterTypes item" "addLinkageOverride item st"]
  show ?thesis
  proof (cases "lm_coreName item = [] \<or> lm_returnType item = None \<or> translateAll (lm_coreName item) ''parameter'' (lm_parameterTypes item) = None")
    case True
    then show ?thesis using \<open>lm_isFunction item\<close> types
      by (auto simp: metadataItem_def functionItem_def Let_def addAbiOverride_def split: option.splits sum.splits prod.splits)
  next
    case False
    then obtain returnType parameters where i: "lm_coreName item \<noteq> []" "lm_returnType item = Some returnType"
      "translateAll (lm_coreName item) ''parameter'' (lm_parameterTypes item) = Some parameters" by auto
    have none: "translateAll (lm_coreName item) ''return'' (if cabi_kind returnType = CAbiVoid then [] else [returnType]) \<noteq> Some returns" for returns
      using assms i \<open>lm_isFunction item\<close> unfolding describes_def by auto
    from none [of "[]"] have "cabi_kind returnType \<noteq> CAbiVoid" by auto
    with none have "\<exists>msg. lowerCAbiType returnType (lm_coreName item) ''return'' = Inl msg"
      by (cases "lowerCAbiType returnType (lm_coreName item) ''return''") auto
    then show ?thesis using i types \<open>lm_isFunction item\<close> \<open>cabi_kind returnType \<noteq> CAbiVoid\<close>
      by (auto simp: metadataItem_def functionItem_def Let_def)
  qed
next
  case False
  then show ?thesis using assms
    by (auto simp: metadataItem_def objectItem_def describes_def Let_def addAbiOverride_def split: option.splits sum.splits if_splits)
qed

lemma fold_hasError: "ms_hasError st \<Longrightarrow> ms_hasError (fold (metadataItem u) ms st)"
  by (induction ms arbitrary: st) (simp_all add: metadataItem_hasError)

lemma fold_describes:
  assumes "list_all2 (describes u) ms ovs"
  shows "fold (metadataItem u) ms st = st\<lparr>ms_linkageOverrides := ms_linkageOverrides st @ concat (map internalDefinition ms),
    ms_abiOverrides := ms_abiOverrides st @ ovs\<rparr>"
  using assms by (induction ms ovs arbitrary: st rule: list_all2_induct) (simp_all add: metadataItem_describes addAbiOverride_def)

lemma fold_rejects:
  assumes "\<nexists>ovs. list_all2 (describes u) ms ovs"
  shows "ms_hasError (fold (metadataItem u) ms st)"
  using assms
proof (induction ms arbitrary: st)
  case (Cons m ms)
  show ?case
  proof (cases "\<exists>ov. describes u m ov")
    case True
    then have "\<nexists>ovs. list_all2 (describes u) ms ovs" using Cons.prems by (meson list_all2_Cons)
    then show ?thesis using Cons.IH by simp
  next
    case False
    then show ?thesis using fold_hasError metadataItem_rejects by simp
  qed
qed simp

section \<open>The diagnostics of the passes are errors\<close>

definition errorsOnly :: "Diagnostic list \<Rightarrow> bool" where
  "errorsOnly ds \<longleftrightarrow> list_all (\<lambda>d. severity d = Error) ds"

lemma errorsOnly_append [simp]: "errorsOnly (xs @ ys) \<longleftrightarrow> errorsOnly xs \<and> errorsOnly ys"
  by (simp add: errorsOnly_def)

lemma hasErrorDiagnostic_iff: "errorsOnly ds \<Longrightarrow> hasErrorDiagnostic ds \<longleftrightarrow> ds \<noteq> []"
  by (cases ds) (auto simp: errorsOnly_def hasErrorDiagnostic_def)

lemma errorsOnly_steps:
  "errorsOnly (os_diagnostics (addOverrideDiagnostic msg s)) = errorsOnly (os_diagnostics s)"
  "os_diagnostics (addPending p s) = os_diagnostics s" "os_diagnostics (markSeen k s) = os_diagnostics s"
  "os_diagnostics (addDiagnostics ds s) = os_diagnostics s @ ds"
  by (simp_all add: addOverrideDiagnostic_def addPending_def markSeen_def addDiagnostics_def errorsOnly_def diagnostic_error_def)

lemma errorsOnly_validateSignature: "errorsOnly (validateSignature sig ps rs name)"
  by (auto simp: validateSignature_def validateTypes_def errorsOnly_def list_all_iff diagnostic_error_def split: if_splits)

lemma errorsOnly_stepLinkage: "errorsOnly (os_diagnostics st) \<Longrightarrow> errorsOnly (os_diagnostics (stepLinkage u ov st))"
  by (auto simp: stepLinkage_def Let_def errorsOnly_steps split: LinkageTarget.splits option.splits)

lemma errorsOnly_stepAbi: "errorsOnly (os_diagnostics st) \<Longrightarrow> errorsOnly (os_diagnostics (stepAbi u ov st))"
  using errorsOnly_validateSignature
  by (auto simp: stepAbi_def Let_def errorsOnly_steps split: LinkageTarget.splits option.splits list.splits) metis+

lemma errorsOnly_fold:
  "errorsOnly (os_diagnostics st) \<Longrightarrow> errorsOnly (os_diagnostics (fold (stepLinkage u) ls st))"
  "errorsOnly (os_diagnostics st') \<Longrightarrow> errorsOnly (os_diagnostics (fold (stepAbi u) as st'))"
  by (induction ls arbitrary: st; simp add: errorsOnly_stepLinkage) (induction as arbitrary: st'; simp add: errorsOnly_stepAbi)

lemma errorsOnly_passes: "errorsOnly (fst (applyLinkageOverrides u ls))" "errorsOnly (fst (applyAbiOverrides u as))"
proof -
  have e: "errorsOnly []" "\<And>s. s = emptyOverrideState \<Longrightarrow> errorsOnly (os_diagnostics s)" by (simp_all add: errorsOnly_def emptyOverrideState_def)
  show "errorsOnly (fst (applyLinkageOverrides u ls))"
    using errorsOnly_fold(1) [OF e(2) [OF refl], of u ls] e(1) by (simp add: applyLinkageOverrides_def runOverrides_def Let_def)
  show "errorsOnly (fst (applyAbiOverrides u as))"
    using errorsOnly_fold(2) [OF e(2) [OF refl], of u as] e(1) by (simp add: applyAbiOverrides_def runOverrides_def Let_def)
qed

lemmas pass_reports = errorsOnly_passes [THEN hasErrorDiagnostic_iff]

lemma passes_accept:
  "fst (applyLinkageOverrides u ls) = [] \<longleftrightarrow> acceptableLinkage u ls" "fst (applyAbiOverrides u as) = [] \<longleftrightarrow> acceptableAbi u as"
  by (simp_all add: applyLinkageOverrides_def applyAbiOverrides_def linkage.run_accepts abi.run_accepts acceptableLinkage_def acceptableAbi_def
      linkagePend_defined abiPend_fits list_all_iff distinct_overrideKey del: not_None_eq)

lemma applyCCompatibilityMetadata_result:
  "(fst (applyCCompatibilityMetadata u ms) \<longleftrightarrow>
     (let ls = concat (map internalDefinition ms) in
      \<exists>ovs. list_all2 (describes u) ms ovs \<and> acceptableLinkage u ls \<and> acceptableAbi (snd (applyLinkageOverrides u ls)) ovs)) \<and>
   ((\<exists>ovs. list_all2 (describes u) ms ovs) \<or> fst (snd (applyCCompatibilityMetadata u ms)) = u)"
proof (cases "\<exists>ovs. list_all2 (describes u) ms ovs")
  case True
  then obtain ovs where o: "list_all2 (describes u) ms ovs" by blast
  have "same = ovs" if "list_all2 (describes u) ms same" for same
    using fold_describes [OF that, of emptyMetadataState] fold_describes [OF o, of emptyMetadataState]
    by (simp add: emptyMetadataState_def)
  moreover have "fst (applyCCompatibilityMetadata u ms) \<longleftrightarrow> acceptableLinkage u (concat (map internalDefinition ms)) \<and>
      acceptableAbi (snd (applyLinkageOverrides u (concat (map internalDefinition ms)))) ovs"
    using passes_accept pass_reports
    by (auto simp: applyCCompatibilityMetadata_def Let_def fold_describes [OF o] emptyMetadataState_def split: prod.splits if_splits) (metis fst_conv snd_conv)+
  ultimately show ?thesis using o unfolding Let_def by blast
next
  case False
  then have "ms_hasError (fold (metadataItem u) ms emptyMetadataState)" by (rule fold_rejects)
  then show ?thesis using False by (simp add: applyCCompatibilityMetadata_def Let_def)
qed

text \<open>
  C10. The metadata of a C unit is applied to the HIR exactly when every item is described by an override (its name is
  not empty, its types translate, and an object has the length of its global), the linkages of the internal definitions
  can be set, and the ABI annotations fit the unit after that; when an item has no override the unit is left unchanged
  and neither pass is run.
\<close>

theorem applyCCompatibilityMetadata_exact:
  "(fst (applyCCompatibilityMetadata u ms) \<longleftrightarrow>
     (let ls = concat (map internalDefinition ms) in
      \<exists>ovs. list_all2 (describes u) ms ovs \<and> acceptableLinkage u ls \<and> acceptableAbi (snd (applyLinkageOverrides u ls)) ovs)) \<and>
   ((\<exists>ovs. list_all2 (describes u) ms ovs) \<or> fst (snd (applyCCompatibilityMetadata u ms)) = u)"
  by (rule applyCCompatibilityMetadata_result)

section \<open>The metadata of a lowered unit\<close>

text \<open>The lengths a HIR unit has for a global and for the signature of a function, defined or extern.\<close>

definition globalLength :: "TranslationUnit \<Rightarrow> string \<Rightarrow> size_t option" where
  "globalLength u name = map_option global_byteLength (find (\<lambda>g. global_bindingName g = name) (tu_globals u))"

definition functionLengths :: "TranslationUnit \<Rightarrow> string \<Rightarrow> (size_t list \<times> size_t list) option" where
  "functionLengths u name =
     (case find (\<lambda>f. fn_name f = name) (tu_functions u) of
        Some f \<Rightarrow> Some (map param_byteLength (fn_parameters f), fn_returnByteLengths f)
      | None \<Rightarrow> map_option (\<lambda>f. (ef_parameterByteLengths f, ef_returnByteLengths f))
          (find (\<lambda>f. ef_name f = name) (tu_externFunctions u)))"

text \<open>
  What the rest of the compiler has to provide: a global of the length of the object for each variable, which is not extern
  when the variable is an internal definition; and for each function one with parameters and a result of the lengths of its
  types, which has a body when the function is an internal definition, and which does not return an empty structure.
\<close>

definition fits :: "TranslationUnit \<Rightarrow> LinkageMetadata \<Rightarrow> bool" where
  "fits u item \<longleftrightarrow>
     (let name = lm_coreName item; internal = (lm_isDefinition item \<and> lm_linkage item = LinkageInternal) in
      if lm_isFunction item then
        (case lm_returnType item of
           None \<Rightarrow> False
         | Some t \<Rightarrow> (cabi_kind t = CAbiVoid \<or> cabi_byteLength t \<noteq> 0) \<and>
             functionLengths u name = Some (map cabi_byteLength (lm_parameterTypes item), if cabi_kind t = CAbiVoid then [] else [cabi_byteLength t]) \<and>
             (internal \<longrightarrow> name \<in> fn_name ` set (tu_functions u)))
      else
        (case (find (\<lambda>g. global_bindingName g = name) (tu_globals u), lm_objectType item) of
           (Some g, Some t) \<Rightarrow> global_byteLength g = cabi_byteLength t * cabi_elementCount t \<and> (internal \<longrightarrow> \<not> global_isExtern g)
         | _ \<Rightarrow> False))"

definition validOverride :: "AbiOverride \<Rightarrow> bool" where
  "validOverride ov \<longleftrightarrow> (case ao_objectType ov of None \<Rightarrow> True | Some t \<Rightarrow> isValidType t) \<and>
     (case ao_functionSignature ov of None \<Rightarrow> True
      | Some sig \<Rightarrow> list_all isValidType (sig_parameterTypes sig) \<and> list_all isValidType (sig_returnTypes sig))"

lemma translateAll_complete: "list_all abiComplete ts \<Longrightarrow> \<exists>as. translateAll name role ts = Some as \<and> list_all isValidType as"
proof (induction ts)
  case (Cons t ts)
  then have "abiComplete t" and "\<exists>as. translateAll name role ts = Some as \<and> list_all isValidType as" by simp_all
  then obtain a as where "lowerCAbiType t name role = Inr a" "isValidType a" "translateAll name role ts = Some as" "list_all isValidType as"
    unfolding abiComplete_def by blast
  then show ?case by simp
qed simp

lemma single_described: "\<exists>ov. describes u m ov \<and> validOverride ov \<Longrightarrow> \<exists>ovs. list_all2 (describes u) [m] ovs \<and> list_all validOverride ovs"
  by (auto simp: list_all2_Cons1)

lemma objectMetadata_described:
  assumes "objectOk object" and "fits u (objectMetadata v object)" and "decl_name (var_declarator v) \<noteq> []"
  shows "\<exists>ov. describes u (objectMetadata v object) ov \<and> validOverride ov"
proof -
  let ?name = "decl_name (var_declarator v)"
  obtain t where t: "lowerCAbiType (fieldAbi object) ?name ''object'' = Inr t" "isValidType t" "storageByteLength t = Some (byteLength object)"
    using objectOk_abi [OF assms(1)] by blast
  have len: "abi_byteLength t = cabi_byteLength (fieldAbi object)" "abi_elementCount t = cabi_elementCount (fieldAbi object)"
    using lower_length [OF t(1)] by simp_all
  obtain g where "find (\<lambda>g. global_bindingName g = ?name) (tu_globals u) = Some g"
    "global_byteLength g = cabi_byteLength (fieldAbi object) * cabi_elementCount (fieldAbi object)"
    using assms(2) by (auto simp: fits_def objectMetadata_def Let_def split: option.splits if_splits)
  then show ?thesis using t len assms(3)
    by (intro exI [of _ "\<lparr>ao_symbolName = ?name, ao_target = GlobalTarget, ao_objectType = Some t, ao_functionSignature = None\<rparr>"])
      (auto simp: describes_def objectMetadata_def Let_def validOverride_def storageByteLength_def split: if_splits)
qed

lemma functionMetadata_described:
  assumes "list_all abiComplete (map snd parameters)" and "returnOk (fni_returnType info)" and "fits u (functionMetadata f info parameters defined)"
    and "decl_name (fun_declarator f) \<noteq> []"
  shows "\<exists>ov. describes u (functionMetadata f info parameters defined) ov \<and> validOverride ov"
proof -
  let ?name = "decl_name (fun_declarator f)" and ?t = "ti_abi (fni_returnType info)"
  obtain ps where ps: "translateAll ?name ''parameter'' (map snd parameters) = Some ps" "list_all isValidType ps"
    using translateAll_complete [OF assms(1)] by blast
  have "cabi_kind ?t = CAbiVoid \<or> abiComplete ?t"
    using assms(2,3) by (auto simp: fits_def functionMetadata_def Let_def returnOk_def isVoid_def typeLength_def)
  then have "list_all abiComplete (if cabi_kind ?t = CAbiVoid then [] else [?t])" by auto
  from translateAll_complete [OF this] obtain rs where
    rs: "translateAll ?name ''return'' (if cabi_kind ?t = CAbiVoid then [] else [?t]) = Some rs" "list_all isValidType rs" by blast
  show ?thesis using ps rs assms(4)
    by (intro exI [of _ "functionOverride ?name ps rs"]) (simp add: describes_def functionMetadata_def Let_def functionOverride_def validOverride_def)
qed

lemma lowered_described:
  assumes "lowered fs d xs ms" and "\<forall>name info. fmlookup fs name = Some info \<longrightarrow> returnOk (fni_returnType info)"
    and "declaredName d \<noteq> []" and "list_all (fits u) ms"
  shows "\<exists>ovs. list_all2 (describes u) ms ovs \<and> list_all validOverride ovs"
proof (cases d)
  case (VarDeclaration v)
  then obtain object where "objectOk object" "ms = [objectMetadata v object]" using assms(1) by auto
  then show ?thesis using single_described [OF objectMetadata_described [of object u v]] assms(3,4) VarDeclaration
    by (simp add: declaredName_def)
next
  case (FunctionDeclaration f)
  show ?thesis
  proof (cases "ms = []")
    case False
    then obtain info parameters body where "fmlookup fs (decl_name (fun_declarator f)) = Some info"
      "functionMirrors f (parameters, body)" "ms = [functionMetadata f info parameters (body \<noteq> None)]"
      using assms(1) FunctionDeclaration by (auto simp: Let_def split: if_splits)
    then show ?thesis using single_described [OF functionMetadata_described [of parameters info u f "body \<noteq> None"]] assms(2-4) FunctionDeclaration
      by (simp add: declaredName_def functionMirrors_def list_all_iff)
  qed simp
qed (use assms(1) in auto)

lemma unit_described:
  assumes "list_all2 (\<lambda>d p. lowered fs d (fst p) (snd p)) ds parts" and "\<forall>name info. fmlookup fs name = Some info \<longrightarrow> returnOk (fni_returnType info)"
    and "\<forall>d \<in> set ds. declaredName d \<noteq> []" and "list_all (fits u) (concat (map snd parts))"
  shows "\<exists>ovs. list_all2 (describes u) (concat (map snd parts)) ovs \<and> list_all validOverride ovs"
  using assms
proof (induction ds parts rule: list_all2_induct)
  case (Cons d ds p parts)
  obtain xs where "list_all2 (describes u) (snd p) xs" "list_all validOverride xs"
    using lowered_described [OF Cons.hyps(1), of u] Cons.prems by auto
  moreover obtain ys where "list_all2 (describes u) (concat (map snd parts)) ys" "list_all validOverride ys" using Cons by auto
  ultimately show ?case by (intro exI [of _ "xs @ ys"]) (simp add: list_all2_appendI)
qed simp

lemma lowered_metadata_described:
  assumes "opt_pointerByteLength options = pointerSize" and "\<forall>d \<in> set ds. declaredName d \<noteq> []"
    and "lowerCCompatToCore ds options = Some r" and "loweringOk r" and "list_all (fits u) (lr_linkage r)"
  shows "\<exists>ovs. list_all2 (describes u) (lr_linkage r) ovs \<and> list_all validOverride ovs"
proof -
  have "structsNamed ds" using assms(2) by (auto simp: structsNamed_def declaredName_def split: Decl.splits)
  then obtain q where q: "r = \<lparr>lr_unit = mkUnit (low_declarations q), lr_linkage = low_linkage q, lr_diagnostics = low_diagnostics q\<rparr>"
    "low_diagnostics q = [] \<Longrightarrow> unitLowered ds q"
    using lowerCCompatToCore_sound [OF assms(1)] assms(3) by (metis option.inject)
  then have "unitLowered ds q" using assms(4) by (simp add: loweringOk_def)
  then obtain parts where "low_linkage q = concat (map snd parts)" "list_all2 (\<lambda>d p. lowered (low_functions q) d (fst p) (snd p)) ds parts" "functionsOk q"
    by (auto simp: unitLowered_def)
  then show ?thesis using unit_described [of "low_functions q" ds parts u] assms(2,5) q(1) by (simp add: functionsOk_def)
qed

lemma described_silent: "list_all2 (describes u) ms ovs \<Longrightarrow> fst (snd (snd (applyCCompatibilityMetadata u ms))) = []"
  by (simp add: applyCCompatibilityMetadata_def Let_def fold_describes emptyMetadataState_def split: prod.split)

section \<open>Linked symbols\<close>

lemma find_map_of: "map_option h (find (\<lambda>x. n x = k) xs) = map_of (map (\<lambda>x. (n x, h x)) xs) k"
  by (induction xs) auto

lemma find_None_map_of: "find (\<lambda>x. n x = k) xs = None \<longleftrightarrow> map_of (map (\<lambda>x. (n x, h x)) xs) k = None"
  using find_map_of [of h n k xs] by (metis option.map_disc_iff)

lemma map_same_update: "h (f (xs ! i)) = h (xs ! i) \<Longrightarrow> map h (xs[i := f (xs ! i)]) = map h xs"
  by (cases "i < length xs") (simp_all add: map_update list_update_beyond, metis list_update_id nth_map)

lemma functionLengths_map_of:
  "functionLengths u name =
     (case map_of (map (\<lambda>f. (fn_name f, (map param_byteLength (fn_parameters f), fn_returnByteLengths f))) (tu_functions u)) name of
        Some ls \<Rightarrow> Some ls
      | None \<Rightarrow> map_of (map (\<lambda>f. (ef_name f, (ef_parameterByteLengths f, ef_returnByteLengths f))) (tu_externFunctions u)) name)"
  unfolding functionLengths_def find_map_of [symmetric] by (simp split: option.split)

lemma commit_lengths:
  "globalLength (commitLinkage p v) = globalLength v \<and> functionLengths (commitLinkage p v) = functionLengths v"
proof (induction p v rule: commitLinkage.induct)
  case (1 i l unit)
  then show ?case
    by (simp add: fun_eq_iff globalLength_def find_map_of functionLengths_map_of map_same_update [where f = "\<lambda>g. g\<lparr>global_linkage := l\<rparr>"]
        split: option.split)
next
  case (2 i l unit)
  then show ?case
    by (simp add: fun_eq_iff globalLength_def functionLengths_map_of map_same_update [where f = "\<lambda>g. g\<lparr>fn_linkage := l\<rparr>"]
        split: option.split)
qed

lemma linked_lengths:
  "globalLength (snd (applyLinkageOverrides u ls)) = globalLength u" "functionLengths (snd (applyLinkageOverrides u ls)) = functionLengths u"
proof -
  have "globalLength (fold commitLinkage ps v) = globalLength v \<and> functionLengths (fold commitLinkage ps v) = functionLengths v" for ps v
    by (induction ps arbitrary: v) (simp_all add: commit_lengths)
  then show "globalLength (snd (applyLinkageOverrides u ls)) = globalLength u" "functionLengths (snd (applyLinkageOverrides u ls)) = functionLengths u"
    by (simp_all add: applyLinkageOverrides_def linkage.run_result)
qed

lemma globalFits:
  assumes "globalLength u (ao_symbolName ov) = Some n" "typesMatch [t] [n]" "ao_symbolName ov \<noteq> []"
    and "ao_target ov = GlobalTarget" "ao_objectType ov = Some t" "ao_functionSignature ov = None"
  shows "abiOverrideFits u ov"
  using assms by (auto simp: abiOverrideFits_def globalLength_def)

lemma functionFits:
  assumes "functionLengths u (ao_symbolName ov) = Some (ps, rs)" "typesMatch (sig_parameterTypes sig) ps" "typesMatch (sig_returnTypes sig) rs"
    and "ao_symbolName ov \<noteq> []" "ao_target ov = FunctionTarget" "ao_objectType ov = None" "ao_functionSignature ov = Some sig"
  shows "abiOverrideFits u ov"
  using assms by (auto simp: abiOverrideFits_def functionLengths_def split: option.splits)

lemma translated_lengths:
  "translateAll name role ts = Some as \<Longrightarrow> list_all isValidType as \<Longrightarrow> list_all (\<lambda>t. cabi_elementCount t = 1) ts \<Longrightarrow>
   typesMatch as (map cabi_byteLength ts)"
proof (induction ts arbitrary: as)
  case (Cons t ts)
  then obtain a bs where as: "as = a # bs" "lowerCAbiType t name role = Inr a" "translateAll name role ts = Some bs"
    by (auto split: sum.splits option.splits)
  have "storageByteLength a \<noteq> None" using Cons.prems(2) as(1) by (cases a) (auto split: if_splits)
  then have "storageByteLength a = Some (cabi_byteLength t)"
    using lower_length [OF as(2)] Cons.prems(3) by (auto simp: storageByteLength_def split: if_splits)
  then show ?case using Cons as by (simp add: typesMatch_def)
qed (simp add: typesMatch_def)

definition singleTypes :: "LinkageMetadata \<Rightarrow> bool" where
  "singleTypes m \<longleftrightarrow> (lm_isFunction m \<longrightarrow> list_all (\<lambda>t. cabi_elementCount t = 1)
     (lm_parameterTypes m @ (case lm_returnType m of None \<Rightarrow> [] | Some t \<Rightarrow> if cabi_kind t = CAbiVoid then [] else [t])))"

lemma described_fits:
  assumes "describes u m ov" "validOverride ov" "fits u m" "singleTypes m"
    and "globalLength v = globalLength u" "functionLengths v = functionLengths u"
  shows "abiOverrideFits v ov"
proof (cases "lm_isFunction m")
  case True
  with assms(1) obtain t ps rs where d: "lm_returnType m = Some t" "translateAll (lm_coreName m) ''parameter'' (lm_parameterTypes m) = Some ps"
    "translateAll (lm_coreName m) ''return'' (if cabi_kind t = CAbiVoid then [] else [t]) = Some rs"
    "ov = functionOverride (lm_coreName m) ps rs" "lm_coreName m \<noteq> []" unfolding describes_def by auto
  have n: "functionLengths v (lm_coreName m) = Some (map cabi_byteLength (lm_parameterTypes m), map cabi_byteLength (if cabi_kind t = CAbiVoid then [] else [t]))"
    using assms(3,6) True d(1) by (auto simp: fits_def Let_def)
  have valid: "list_all isValidType ps" "list_all isValidType rs" using assms(2) d(4) by (simp_all add: validOverride_def functionOverride_def)
  have one: "list_all (\<lambda>t. cabi_elementCount t = 1) (lm_parameterTypes m)"
    "list_all (\<lambda>t. cabi_elementCount t = 1) (if cabi_kind t = CAbiVoid then [] else [t])"
    using assms(4) True d(1) by (simp_all add: singleTypes_def)
  show ?thesis
    by (rule functionFits [where sig = "\<lparr>sig_parameterTypes = ps, sig_returnTypes = rs, sig_isCCompatibility = True\<rparr>"])
      (use d n translated_lengths [OF d(2) valid(1) one(1)] translated_lengths [OF d(3) valid(2) one(2)] in \<open>simp_all add: functionOverride_def\<close>)
next
  case False
  with assms(1) obtain t g where d: "find (\<lambda>g. global_bindingName g = lm_coreName m) (tu_globals u) = Some g"
    "abi_elementCount t \<noteq> 0" "\<not> abi_byteLength t > (- 1) div abi_elementCount t" "global_byteLength g = abi_byteLength t * abi_elementCount t"
    "ov = \<lparr>ao_symbolName = lm_coreName m, ao_target = GlobalTarget, ao_objectType = Some t, ao_functionSignature = None\<rparr>" "lm_coreName m \<noteq> []"
    unfolding describes_def by auto
  have v: "isValidType t" using assms(2) d(5) by (simp add: validOverride_def)
  then have "abi_byteLength t \<noteq> 0" by (cases t) (auto simp: storageByteLength_def split: if_splits)
  then have "typesMatch [t] [global_byteLength g]" using d(2-4) v by (simp add: typesMatch_def storageByteLength_def)
  moreover have "globalLength v (lm_coreName m) = Some (global_byteLength g)" using assms(5) d(1) by (simp add: globalLength_def)
  ultimately show ?thesis using d(5,6) by (intro globalFits [of _ _ "global_byteLength g" t]) simp_all
qed

section \<open>Repeated declarations\<close>

definition metadataKey :: "LinkageMetadata \<Rightarrow> LinkageTarget \<times> string" where
  "metadataKey m = (if lm_isFunction m then FunctionTarget else GlobalTarget, lm_coreName m)"

lemma described_key: "describes u m ov \<Longrightarrow> (ao_target ov, ao_symbolName ov) = metadataKey m"
  by (auto simp: metadataKey_def describes_def functionOverride_def split: if_splits)

lemma described_keys: "list_all2 (describes u) ms ovs \<Longrightarrow> map (\<lambda>ov. (ao_target ov, ao_symbolName ov)) ovs = map metadataKey ms"
  by (induction ms ovs rule: list_all2_induct) (simp_all add: described_key [simplified])

lemma repeated_rejected:
  assumes "\<not> distinct (map metadataKey ms)"
  shows "\<not> fst (applyCCompatibilityMetadata u ms)"
  using assms described_keys [of u ms] applyCCompatibilityMetadata_result [of u ms] by (auto simp: acceptableAbi_def Let_def)

lemma internal_keys:
  "map (\<lambda>ov. (lo_target ov, lo_symbolName ov)) (concat (map internalDefinition ms)) =
     map metadataKey (filter (\<lambda>m. lm_isDefinition m \<and> lm_linkage m = LinkageInternal) ms)"
  by (induction ms) (simp_all add: internalDefinition_def metadataKey_def)

lemma fits_internal: "fits u m \<Longrightarrow> lm_coreName m \<noteq> [] \<Longrightarrow> ov \<in> set (internalDefinition m) \<Longrightarrow> linkageTargetDefined u ov"
  by (auto simp: internalDefinition_def linkageTargetDefined_def fits_def Let_def split: if_splits option.splits)

lemma fits_applied:
  assumes "list_all2 (describes u) ms ovs" "list_all validOverride ovs" "list_all (fits u) ms" "list_all singleTypes ms"
  shows "fst (applyCCompatibilityMetadata u ms) \<longleftrightarrow> distinct (map metadataKey ms)"
proof
  show "fst (applyCCompatibilityMetadata u ms) \<Longrightarrow> distinct (map metadataKey ms)" using repeated_rejected by blast
next
  assume d: "distinct (map metadataKey ms)"
  let ?ls = "concat (map internalDefinition ms)" and ?v = "snd (applyLinkageOverrides u (concat (map internalDefinition ms)))"
  have "\<forall>m \<in> set ms. lm_coreName m \<noteq> []" using assms(1) by (auto simp: list_all2_conv_all_nth in_set_conv_nth describes_def)
  then have "list_all (linkageTargetDefined u) ?ls" using assms(3) fits_internal by (fastforce simp: list_all_iff)
  moreover have "distinct (map (\<lambda>ov. (lo_target ov, lo_symbolName ov)) ?ls)" unfolding internal_keys using d by (rule distinct_map_filter)
  moreover have "list_all (abiOverrideFits ?v) ovs"
    unfolding list_all_length
  proof (intro allI impI)
    fix k assume k: "k < length ovs"
    with assms(1) have "k < length ms" "describes u (ms ! k) (ovs ! k)" by (auto simp: list_all2_conv_all_nth)
    with assms(2-4) k show "abiOverrideFits ?v (ovs ! k)"
      by (intro described_fits [of u "ms ! k"] linked_lengths) (simp_all add: list_all_length)
  qed
  ultimately show "fst (applyCCompatibilityMetadata u ms)"
    using applyCCompatibilityMetadata_result [of u ms] assms(1) described_keys [OF assms(1)] d
    by (auto simp: acceptableLinkage_def acceptableAbi_def Let_def)
qed

text \<open>
  The symbols a unit hands on to the driver: one for each variable declaration, and one for each definition of a function
  or, when the unit has no definition of it, for each of its prototypes.
\<close>

definition symbolsOf :: "Decl list \<Rightarrow> Decl \<Rightarrow> (LinkageTarget \<times> string) list" where
  "symbolsOf ds d = (case d of
     VarDeclaration v \<Rightarrow> [(GlobalTarget, decl_name (var_declarator v))]
   | FunctionDeclaration f \<Rightarrow>
       (let name = decl_name (fun_declarator f) in
        if isDefinition f \<or> \<not> list_ex isDefinition (declarationsOf name ds) then [(FunctionTarget, name)] else [])
   | _ \<Rightarrow> [])"

definition linkedSymbols :: "Decl list \<Rightarrow> (LinkageTarget \<times> string) list" where
  "linkedSymbols ds = concat (map (symbolsOf ds) ds)"

lemma tabled_definition:
  "functionTable ds fs \<Longrightarrow> fmlookup fs name = Some info \<Longrightarrow> fni_isDefinition info \<longleftrightarrow> list_ex isDefinition (declarationsOf name ds)"
  by (drule functionTable_def [THEN iffD1, THEN spec, of _ _ name]) (auto simp: entryFor_def split: list.splits)

lemma lowered_keys:
  assumes "lowered fs d xs ms" "functionTable ds fs"
  shows "map metadataKey ms = symbolsOf ds d"
proof (cases d)
  case (FunctionDeclaration f)
  then show ?thesis using assms(1) tabled_definition [OF assms(2)]
    by (auto simp: symbolsOf_def Let_def metadataKey_def functionMetadata_def split: if_splits)
qed (use assms(1) in \<open>auto simp: symbolsOf_def metadataKey_def objectMetadata_def Let_def\<close>)

lemma lowered_single:
  assumes "lowered fs d xs ms" "\<forall>name info. fmlookup fs name = Some info \<longrightarrow> returnOk (fni_returnType info)" "list_all (fits u) ms"
  shows "list_all singleTypes ms"
proof (cases d)
  case (VarDeclaration v)
  then show ?thesis using assms(1) by (auto simp: singleTypes_def objectMetadata_def Let_def)
next
  case (FunctionDeclaration f)
  show ?thesis
  proof (cases "ms = []")
    case False
    then obtain info parameters body where m: "fmlookup fs (decl_name (fun_declarator f)) = Some info"
      "functionMirrors f (parameters, body)" "ms = [functionMetadata f info parameters (body \<noteq> None)]"
      using assms(1) FunctionDeclaration by (auto simp: Let_def split: if_splits)
    let ?t = "ti_abi (fni_returnType info)"
    have "cabi_kind ?t = CAbiVoid \<or> abiComplete ?t"
      using assms(2,3) m by (auto simp: fits_def functionMetadata_def Let_def returnOk_def isVoid_def typeLength_def)
    then show ?thesis using m by (auto simp: singleTypes_def functionMetadata_def Let_def functionMirrors_def list_all_iff abiComplete_def)
  qed simp
qed (use assms(1) in auto)

lemma unit_linked:
  assumes "opt_pointerByteLength options = pointerSize" "structsNamed ds" "lowerCCompatToCore ds options = Some r" "loweringOk r"
  shows "map metadataKey (lr_linkage r) = linkedSymbols ds" and "list_all (fits u) (lr_linkage r) \<Longrightarrow> list_all singleTypes (lr_linkage r)"
proof -
  obtain q where q: "r = \<lparr>lr_unit = mkUnit (low_declarations q), lr_linkage = low_linkage q, lr_diagnostics = low_diagnostics q\<rparr>"
    "low_diagnostics q = [] \<Longrightarrow> unitLowered ds q"
    using lowerCCompatToCore_sound [OF assms(1,2)] assms(3) by (metis option.inject)
  then have "unitLowered ds q" using assms(4) by (simp add: loweringOk_def)
  then obtain parts where p: "low_linkage q = concat (map snd parts)" "list_all2 (\<lambda>d p. lowered (low_functions q) d (fst p) (snd p)) ds parts"
    "functionsOk q" "functionTable ds (low_functions q)" by (auto simp: unitLowered_def)
  have "map metadataKey (concat (map snd parts)) = concat (map (symbolsOf ds) es)"
    if "list_all2 (\<lambda>d p. lowered (low_functions q) d (fst p) (snd p)) es parts" for es
    using that by (induction es parts rule: list_all2_induct) (simp_all add: lowered_keys [OF _ p(4)])
  then show "map metadataKey (lr_linkage r) = linkedSymbols ds" using p(1,2) q(1) by (simp add: linkedSymbols_def)
  have "list_all singleTypes (concat (map snd parts))"
    if "list_all2 (\<lambda>d p. lowered (low_functions q) d (fst p) (snd p)) es parts" "list_all (fits u) (concat (map snd parts))" for es
    using that by (induction es parts rule: list_all2_induct)
      (auto intro: lowered_single [OF _ p(3) [unfolded functionsOk_def]])
  then show "list_all (fits u) (lr_linkage r) \<Longrightarrow> list_all singleTypes (lr_linkage r)" using p(1,2) q(1) by simp
qed

lemma distinct_concat_nth:
  "distinct (concat xss) \<Longrightarrow> i < j \<Longrightarrow> j < length xss \<Longrightarrow> x \<in> set (xss ! i) \<Longrightarrow> x \<notin> set (xss ! j)"
proof (induction xss arbitrary: i j)
  case (Cons xs xss)
  show ?case
  proof (cases i)
    case 0
    then obtain k where "j = Suc k" "k < length xss" using Cons.prems(2,3) by (cases j) auto
    then have "set ((xs # xss) ! j) \<subseteq> set (concat xss)" by (auto intro: bexI [OF _ nth_mem])
    with Cons.prems 0 show ?thesis by auto
  next
    case (Suc k)
    then show ?thesis using Cons by (cases j) auto
  qed
qed simp

text \<open>
  C39. A C unit may declare a function more than once.  When a unit that is lowered without a diagnostic has two
  prototypes of a function and no definition of it, the lowering hands on the metadata of both, and the driver applies
  the metadata of the unit to no HIR unit at all.
\<close>

theorem repeated_prototype_rejected:
  assumes "opt_pointerByteLength options = pointerSize" and "structsNamed ds"
    and "lowerCCompatToCore ds options = Some r" and "loweringOk r"
    and "i < j" and "j < length ds" and "ds ! i = FunctionDeclaration f" and "ds ! j = FunctionDeclaration g"
    and "decl_name (fun_declarator g) = decl_name (fun_declarator f)"
    and "\<not> list_ex isDefinition (declarationsOf (decl_name (fun_declarator f)) ds)"
  shows "\<not> fst (applyCCompatibilityMetadata u (lr_linkage r))"
proof (rule repeated_rejected)
  have "(FunctionTarget, decl_name (fun_declarator f)) \<in> set (map (symbolsOf ds) ds ! i)"
    "(FunctionTarget, decl_name (fun_declarator f)) \<in> set (map (symbolsOf ds) ds ! j)"
    using assms(5-10) by (simp_all add: symbolsOf_def Let_def)
  then show "\<not> distinct (map metadataKey (lr_linkage r))"
    unfolding unit_linked(1) [OF assms(1-4)] linkedSymbols_def using distinct_concat_nth assms(5,6) by (metis length_map)
qed

text \<open>The prototype \<open>int id(int x);\<close> twice.\<close>

theorem repeated_prototype_rejected_witness:
  "\<exists>r. lowerCCompatToCore [FunctionDeclaration (exampleFunction None), FunctionDeclaration (exampleFunction None)] exampleOptions = Some r \<and>
     loweringOk r \<and> (\<forall>u. \<not> fst (applyCCompatibilityMetadata u (lr_linkage r)))"
proof -
  let ?ds = "[FunctionDeclaration (exampleFunction None), FunctionDeclaration (exampleFunction None)]"
  have "map_option loweringOk (lowerCCompatToCore ?ds exampleOptions) = Some True" by code_simp
  then obtain r where r: "lowerCCompatToCore ?ds exampleOptions = Some r" "loweringOk r" by auto
  have h: "opt_pointerByteLength exampleOptions = pointerSize" "structsNamed ?ds"
    "\<not> list_ex isDefinition (declarationsOf (decl_name (fun_declarator (exampleFunction None))) ?ds)"
    by (simp_all add: exampleOptions_def pointerSize_def structsNamed_def declarationsOf_def isDefinition_def exampleFunction_def)
  have "\<not> fst (applyCCompatibilityMetadata u (lr_linkage r))" for u
    by (rule repeated_prototype_rejected [OF h(1,2) r, of 0 1]) (use h(3) in simp_all)
  then show ?thesis using r by blast
qed

end
