(* ===== verification/Spec2Isabelle.thy ===== *)
theory Spec2Isabelle
  imports Literal Escaping Diagnostic HIR_Agreement HIR_Layout Safety_Block Safety_Scope Safety_Total Safety_Checks
    Sema_Operators CCompat_LexExact CCompat_Accept CCompat_Resolve CCompat_LowerProps Driver_Metadata
begin

text \<open>
  Verification of the HitSimple compiler (the C++ sources under \<open>src/src\<close> and \<open>src/include/hitsimple\<close>).

  \<^bold>\<open>The program.\<close>  HitSimple text goes through a preprocessor, a generated lexer and a generated parser to the syntax
  tree of the core language (\<open>ast\<close>).  C text takes another way to the same tree: the C compatibility front end
  (\<open>compat\<close>) has its own lexer, parser and syntax tree and lowers that tree to the core tree, with linkage metadata
  beside it.  The semantic analyser (\<open>sema\<close>) turns the core tree into the typed intermediate representation (\<open>hir\<close>);
  the driver adds the linkage and ABI types of C units to it, \<open>verifyHIR\<close> checks it, the static safety analysis
  (\<open>safety\<close>) reports certain faults in it, and the code generator emits LLVM from it.  Diagnostics, literal decoding
  and the table of builtins serve all of these.

  \<^bold>\<open>Conventions.\<close>  A class or struct is a record or a datatype with the source's fields and constructors; \<open>std::size_t\<close>
  and the 64-bit integers are words, so that every overflow check of the code is checked; \<open>nullopt\<close> and null results
  are \<open>None\<close>; diagnostics and messages are values in the order in which they are reported; a function that changes its
  object takes the object's record and returns it.  \<^theory_text>\<open>HS_Prelude\<close> holds the types and generic lemmas, \<^theory_text>\<open>Fallible\<close> the
  actions of the front ends: a state transformer whose result may be missing (the code gave up) and which may
  itself be missing (the code does not return).  The generated functions \<open>findBuiltin\<close> and \<open>builtinCallMetadata\<close> are
  parameters of the definitions that use them.

  \<^bold>\<open>Literals, escapes and diagnostics.\<close>  \<^theory_text>\<open>Literal\<close> models \<open>src/literal/Literal.cpp\<close>; literals decode exactly as the
  grammar of literal bodies says and unsigned integers parse to their value or fail.  \<^theory_text>\<open>Escaping\<close> models the escaping
  printers of \<open>Diagnostic.cpp\<close>, \<open>CompilationMetrics.cpp\<close>, \<open>driver/Diagnostics.cpp\<close> and \<open>Preprocessor.cpp\<close>, each with
  a reader that inverts it.  \<^theory_text>\<open>Diagnostic\<close> models \<open>src/diagnostic/Diagnostic.cpp\<close>: the JSON form determines the
  diagnostic, and the caret of an excerpt stands under the reported column.

  \<^bold>\<open>The intermediate representation.\<close>  \<^theory_text>\<open>StandardLibrary\<close>, \<^theory_text>\<open>HIR_Views\<close> and \<^theory_text>\<open>HIR_Syntax\<close> hold the vocabulary and
  the node classes of \<open>hir/HIR.h\<close>, \<^theory_text>\<open>HIR_Tree\<close> reachability in the tree.  From \<open>src/hir/HIR.cpp\<close> come
  \<^theory_text>\<open>HIR_Construct\<close> (the constructors that compute), \<^theory_text>\<open>HIR_Rebound\<close> (\<open>reboundBindings\<close>, exactly the names some
  reachable statement rebinds), \<^theory_text>\<open>HIR_Overrides\<close> (the two override passes, refined to an all-or-nothing
  specification through the locale \<open>override_pass\<close>), \<^theory_text>\<open>HIR_Layout\<close> (what an accepted ABI type guarantees) and
  \<^theory_text>\<open>HIR_Verify\<close> (\<open>verifyHIR\<close>).  \<^theory_text>\<open>HIR_VerifySound\<close> and \<^theory_text>\<open>HIR_Agreement\<close> show what acceptance means: every
  reachable node passes its own checks, calls keep their contracts, captured Views have captures; without
  captures, that this is all the verifier asks for; and on exactly which units it reads a null operand.

  \<^bold>\<open>The static safety analysis\<close> (\<open>src/safety\<close>).  \<^theory_text>\<open>Safety_State\<close> has the abstract state and its join, \<^theory_text>\<open>Safety_Facts\<close>
  what is read off expressions, \<^theory_text>\<open>Safety_Validate\<close> the walk.  \<^theory_text>\<open>Safety_Join\<close> and \<^theory_text>\<open>Safety_Scope\<close> show that joins,
  writes, calls and scope exits keep the state true of the machine; \<^theory_text>\<open>Safety_Checks\<close> that constants are values of
  their expressions and accesses are reported exactly when the known address does not allow them, and that a released object is recognised through every address into it; \<^theory_text>\<open>Safety_Frame\<close>
  that every call restores the contexts it changes; \<^theory_text>\<open>Safety_Total\<close> and \<^theory_text>\<open>Safety_Block\<close> when the walk ends.

  \<^bold>\<open>Operators of the semantic analyser.\<close>  \<^theory_text>\<open>Sema_Operators\<close> models \<open>src/sema/SemaOperators.cpp\<close>.

  \<^bold>\<open>The C compatibility front end\<close> (\<open>src/compat\<close>).  \<^theory_text>\<open>CCompat_Lexer\<close> models \<open>CCompatLexer.cpp\<close> and relates its output
  to the token structure of the text; \<^theory_text>\<open>CCompat_LexExact\<close> shows that a text has only one, with tokens as long as possible.  \<^theory_text>\<open>CCompat_Ast\<close> and \<^theory_text>\<open>CCompat_Parser\<close> model \<open>CCompat.h\<close>, \<open>CCompatParser.cpp\<close>,
  \<open>CCompatExpressions.cpp\<close> and \<open>CCompatStatements.cpp\<close>; \<^theory_text>\<open>CCompat_Grammar\<close> and \<^theory_text>\<open>CCompat_GrammarStmt\<close> state the
  grammar, and \<^theory_text>\<open>CCompat_Calculus\<close>, \<^theory_text>\<open>CCompat_Sound\<close>, \<^theory_text>\<open>CCompat_SoundStmt\<close>, \<^theory_text>\<open>CCompat_SoundDecl\<close> and
  \<^theory_text>\<open>CCompat_Accept\<close> show that an accepted text is a derivation of it and when the parser returns.
  The lowering is in \<^theory_text>\<open>CCompat_Types\<close> (types, typedefs and structures), \<^theory_text>\<open>CCompat_Constants\<close> (integer literals and
  constants), \<^theory_text>\<open>CCompat_LowerExpr\<close> and \<^theory_text>\<open>CCompat_Lower\<close> (expressions; statements, declarations and units), from
  \<open>CCompatLowering.cpp\<close>, \<open>CCompatLoweringExpressions.cpp\<close>, \<open>CCompatLoweringOperators.cpp\<close> and
  \<open>CCompatLoweringStatements.cpp\<close>; its output is the tree of \<^theory_text>\<open>Core_Ast\<close> (\<open>ast/AST.h\<close>).  \<^theory_text>\<open>CCompat_Layout\<close> and
  \<^theory_text>\<open>CCompat_Resolve\<close> show that structures get the layout of the C ABI over the unbounded numbers and that resolution
  ends; \<^theory_text>\<open>CCompat_LowerSound\<close>, \<^theory_text>\<open>CCompat_LowerUnit\<close> and \<^theory_text>\<open>CCompat_LowerProps\<close> that the lowering returns, gives up only with a
  diagnostic, and otherwise lowers every declaration and statement, in order; \<^theory_text>\<open>CCompat_LowerProps\<close> also how constants lose
  their sign when they are widened.  The locales \<open>object_resolver\<close>,
  \<open>lowering_frame\<close> and \<open>scope_frame\<close> state what the operations rely on; they are interpreted on the resolver of the code.

  \<^bold>\<open>The driver.\<close>  \<^theory_text>\<open>Driver_Metadata\<close> models the part of \<open>FrontendPipeline.cpp\<close> that compares the external declarations
  of C units and applies their metadata to the HIR (with \<open>lowerCAbiType\<close> in \<^theory_text>\<open>CCompat_Layout\<close>).  The metadata of a lowered
  unit is applied to a fitting HIR unit exactly when no symbol is handed on twice, as it is by a repeated prototype.  The
  theorem below composes lexer, parser, lowering and driver.

  \<^bold>\<open>Bounds.\<close>  The recursion of the C parser takes a bound on its depth; \<open>enough\<close>, eight times the length of the text plus
  fourteen, is shown to suffice.  The resolver of C types takes a bound on the names being resolved; one more than the
  number of declarations suffices, since a name being resolved is not entered again.  The walk of the safety analysis takes
  fuel; on units without labels a number proportional to the size of the unit suffices, and with labels it may not end at
  all, which is shown for an allocating loop.  Every other loop is a total function.  Pointers of the host have eight bytes.

  \<^bold>\<open>Not modelled.\<close>  The scanner and the parser of the core language are generated by re2c and bison, and the preprocessor
  drives the third-party mcpp.  The semantic analyser apart from its operators, the code generator (which builds values of
  LLVM), the runtime in C, the rest of the driver (command lines, processes, files, metrics), the dumper of the syntax
  tree, the standard library tool and the editor extension are left out.  Of the core tree the source ranges are left out.
  The operand of an \<open>UnsignedExpr\<close> is taken to be present in the safety analysis, as \<open>verifyHIR\<close> requires.
\<close>

section \<open>From C text to the HIR\<close>

text \<open>
  C9. For every C text the parser accepts, the lowering of the unit returns; and when it reports nothing, the linkage
  metadata it produces fits every HIR unit with the matching symbols: for each variable a global of its length and for
  each function one with parameters and a result of the lengths of its types, where internal definitions are defined and no
  function returns an empty structure.  On such a unit the driver finds an override for every item, all of whose ABI
  types the HIR accepts, prints no message, and applies the metadata exactly when no symbol is handed on twice.
\<close>

theorem c_source_metadata_accepted:
  assumes "enough source \<le> n" and "parseCCompatSource n source fileName = Some p" and "result_unit p = Some ds"
    and "opt_pointerByteLength options = pointerSize"
  shows "\<exists>r. lowerCCompatToCore ds options = Some r \<and> (loweringOk r \<and> list_all (fits u) (lr_linkage r) \<longrightarrow>
    (\<exists>ovs. list_all2 (describes u) (lr_linkage r) ovs \<and> list_all validOverride ovs) \<and>
    fst (snd (snd (applyCCompatibilityMetadata u (lr_linkage r)))) = [] \<and>
    (fst (applyCCompatibilityMetadata u (lr_linkage r)) \<longleftrightarrow> distinct (linkedSymbols ds)))"
proof -
  have names: "\<forall>d \<in> set ds. declaredName d \<noteq> []" using assms(1-3) by (rule parsed_names)
  then have s: "structsNamed ds" by (auto simp: structsNamed_def declaredName_def split: Decl.splits)
  then obtain r where r: "lowerCCompatToCore ds options = Some r" using lowerCCompatToCore_sound [OF assms(4)] by blast
  have "(\<exists>ovs. list_all2 (describes u) (lr_linkage r) ovs \<and> list_all validOverride ovs) \<and>
      (fst (applyCCompatibilityMetadata u (lr_linkage r)) \<longleftrightarrow> distinct (linkedSymbols ds))"
    if ok: "loweringOk r \<and> list_all (fits u) (lr_linkage r)"
  proof -
    obtain ovs where ovs: "list_all2 (describes u) (lr_linkage r) ovs" "list_all validOverride ovs"
      using lowered_metadata_described [OF assms(4) names r] ok by blast
    note linked = unit_linked [OF assms(4) s r]
    have "fst (applyCCompatibilityMetadata u (lr_linkage r)) \<longleftrightarrow> distinct (linkedSymbols ds)"
    proof -
      have "list_all singleTypes (lr_linkage r)" using linked(2) [of u] ok by blast
      then have "fst (applyCCompatibilityMetadata u (lr_linkage r)) \<longleftrightarrow> distinct (map metadataKey (lr_linkage r))"
        using fits_applied [OF ovs] ok by blast
      then show ?thesis using linked(1) ok by simp
    qed
    with ovs show ?thesis by blast
  qed
  then show ?thesis using r described_silent by blast
qed

definition exampleGlobals :: TranslationUnit where
  "exampleGlobals = \<lparr>tu_globals = [\<lparr>global_name = ''x'', global_bindingName = ''x'', global_range = None, global_byteLength = 4,
     global_isExtern = False, global_linkage = External, global_abiType = None\<rparr>], tu_structs = [], tu_viewTemplates = [], tu_implOps = [],
     tu_externFunctions = [], tu_functions = [], tu_globalInit = None\<rparr>"

text \<open>The declaration \<open>int x;\<close>, as the parser returns it.\<close>

definition plainInt :: "SourceRange \<Rightarrow> SourceRange \<Rightarrow> SourceRange \<Rightarrow> Decl" where
  "plainInt r1 r2 r3 = VarDeclaration \<lparr>VarDecl.var_storage = NoStorage, var_type = (exampleType CInt [])\<lparr>ctype_range := r1\<rparr>,
     var_declarator = (exampleDeclarator ''x'')\<lparr>decl_range := r2\<rparr>, var_initializer = None, var_range = r3\<rparr>"

theorem c_source_metadata_accepted_witness:
  "\<exists>p ds r ovs. parseCCompatSource 62 ''int x;'' ''a.c'' = Some p \<and> result_unit p = Some ds \<and> lowerCCompatToCore ds exampleOptions = Some r \<and>
     loweringOk r \<and> list_all2 (describes exampleGlobals) (lr_linkage r) ovs \<and> list_all validOverride ovs \<and> lr_linkage r \<noteq> [] \<and>
     fst (applyCCompatibilityMetadata exampleGlobals (lr_linkage r))"
proof -
  let ?ts = "[tokenAt ''a.c'' (1,1) TIdentifier ''int'', tokenAt ''a.c'' (1,5) TIdentifier ''x'', tokenAt ''a.c'' (1,6) TSemicolon '';'',
    endToken ''a.c'' (1,7)]"
  have lex: "lexCCompatSource ''int x;'' ''a.c'' = (?ts, [])" by code_simp
  have "\<exists>r1 r2 r3. map_option result_unit (parse 62 (newParser ?ts)) = Some (Some [plainInt r1 r2 r3])"
    by (simp add: evaluation tokenAt_def lexemeOf_def endToken_def numeral_eq_Suc plainInt_def exampleType_def exampleDeclarator_def)
  then obtain p r1 r2 r3 where p: "parseCCompatSource 62 ''int x;'' ''a.c'' = Some p" "result_unit p = Some [plainInt r1 r2 r3]"
    using lex by (auto simp: parseCCompatSource_def)
  have v: "map_option (\<lambda>r. (loweringOk r, list_all (fits exampleGlobals) (lr_linkage r), lr_linkage r \<noteq> []))
      (lowerCCompatToCore [plainInt r1 r2 r3] exampleOptions) = Some (True, True, True)" by code_simp
  have "enough ''int x;'' \<le> 62" "opt_pointerByteLength exampleOptions = pointerSize" by (simp_all add: enough_def exampleOptions_def pointerSize_def)
  moreover have "distinct (linkedSymbols [plainInt r1 r2 r3])" by (simp add: linkedSymbols_def symbolsOf_def plainInt_def)
  ultimately show ?thesis using c_source_metadata_accepted [OF _ p, of exampleOptions exampleGlobals] v p by auto
qed

end
